(* ===== verification/Prelude.thy ===== *)
theory Prelude
  imports Main "HOL-Library.AList" "HOL-Library.Monad_Syntax"
begin

text \<open>
  Prelude of the development: the conventions every component theory follows and the
  generic lemmas they share.

  \<^item> A Go \<open>int64\<close> is an \<open>int\<close>; every addition or subtraction the code does on one
    is written \<open>i64 (a + b)\<close>, the two's complement wrap-around. Lengths and slice indices
    that are bounded by a slice length are left unwrapped.
  \<^item> A run-time panic (index out of range, nil map) is \<open>None\<close> of an \<open>option\<close> result.
    A slice access is \<open>go_nth\<close>, a re-slice \<open>go_take\<close> or \<open>go_drop\<close>, so the panic is in the model.
  \<^item> A Go map that the code only looks up and updates is a map \<open>'k \<rightharpoonup> 'v\<close>; one that the code
    ranges over is an association list with distinct keys, its order being the (unspecified)
    order of the range loop. Theorems quantify over the list, so they hold for every order.
  \<^item> An \<open>interface{}\<close> value is a \<open>goval\<close>.
\<close>

named_theorems go_simps
named_theorems go_intros

section \<open>Machine integers\<close>

definition i64 :: "int \<Rightarrow> int" where
  "i64 x = (x + 2 ^ 63) mod 2 ^ 64 - 2 ^ 63"

definition in_i64 :: "int \<Rightarrow> bool" where
  "in_i64 x \<longleftrightarrow> - (2 ^ 63) \<le> x \<and> x < 2 ^ 63"

abbreviation MaxInt64 :: int where
  "MaxInt64 \<equiv> 9223372036854775807"

lemma i64_id [simp]:
  assumes "- 9223372036854775808 \<le> x" and "x < 9223372036854775808"
  shows "i64 x = x"
proof -
  have "(x + 2 ^ 63) mod 2 ^ 64 = x + 2 ^ 63"
    using assms by (intro mod_pos_pos_trivial) auto
  then show ?thesis by (simp add: i64_def)
qed

lemma i64_in_range: "in_i64 (i64 x)"
proof -
  have "0 \<le> (x + 2 ^ 63) mod 2 ^ 64" by simp
  moreover have "(x + 2 ^ 63) mod 2 ^ 64 < 2 ^ 64" by (rule pos_mod_bound) simp
  ultimately show ?thesis unfolding i64_def in_i64_def by simp
qed

lemma i64_overflow: "i64 (MaxInt64 + 1) = - 9223372036854775808"
  by (simp add: i64_def)

section \<open>Slices\<close>

definition go_nth :: "'a list \<Rightarrow> int \<Rightarrow> 'a option" where
  "go_nth xs i = (if 0 \<le> i \<and> i < int (length xs) then Some (xs ! nat i) else None)"

definition go_take :: "'a list \<Rightarrow> int \<Rightarrow> 'a list option" where
  "go_take xs n = (if 0 \<le> n \<and> n \<le> int (length xs) then Some (take (nat n) xs) else None)"

definition go_drop :: "'a list \<Rightarrow> int \<Rightarrow> 'a list option" where
  "go_drop xs n = (if 0 \<le> n \<and> n \<le> int (length xs) then Some (drop (nat n) xs) else None)"

lemma go_nth_Some [simp]:
  "0 \<le> i \<Longrightarrow> i < int (length xs) \<Longrightarrow> go_nth xs i = Some (xs ! nat i)"
  by (simp add: go_nth_def)

lemma go_nth_None: "go_nth xs i = None \<longleftrightarrow> i < 0 \<or> int (length xs) \<le> i"
  by (auto simp: go_nth_def)

lemma go_nth_SomeD:
  "go_nth xs i = Some x \<Longrightarrow> 0 \<le> i \<and> i < int (length xs) \<and> x = xs ! nat i"
  by (auto simp: go_nth_def split: if_splits)

lemma go_take_Some [simp]:
  "0 \<le> n \<Longrightarrow> n \<le> int (length xs) \<Longrightarrow> go_take xs n = Some (take (nat n) xs)"
  by (simp add: go_take_def)

lemma go_drop_Some [simp]:
  "0 \<le> n \<Longrightarrow> n \<le> int (length xs) \<Longrightarrow> go_drop xs n = Some (drop (nat n) xs)"
  by (simp add: go_drop_def)

lemma go_take_SomeD:
  "go_take xs n = Some ys \<Longrightarrow> 0 \<le> n \<and> n \<le> int (length xs) \<and> ys = take (nat n) xs"
  by (auto simp: go_take_def split: if_splits)

section \<open>Dynamic values\<close>

text \<open>
  The dynamic types an \<open>interface{}\<close> holds after JSON decoding. Numbers are \<open>float64\<close> in Go;
  the program only stores and passes them on, or converts integral ones to \<open>int64\<close>, so
  \<open>GNum\<close> carries an integer; inside the value of a command it stands for a number that a
  \<open>float64\<close> represents exactly.
\<close>

datatype goval =
    GNil
  | GBool bool
  | GNum int
  | GStr string
  | GList "goval list"
  | GMap "(string \<times> goval) list"

section \<open>Association lists as Go maps\<close>

lemma map_of_delete [simp]: "map_of (AList.delete k al) = (map_of al)(k := None)"
  by (rule delete_conv')

lemma map_of_update [simp]: "map_of (AList.update k v al) = (map_of al)(k \<mapsto> v)"
  by (rule update_conv')

lemma distinct_keys_update [go_intros]:
  "distinct (map fst al) \<Longrightarrow> distinct (map fst (AList.update k v al))"
  by (rule distinct_update)

lemma distinct_keys_delete [go_intros]:
  "distinct (map fst al) \<Longrightarrow> distinct (map fst (AList.delete k al))"
  by (rule distinct_delete)

section \<open>Folding an operation that may panic\<close>

fun foldM :: "('a \<Rightarrow> 's \<Rightarrow> 's option) \<Rightarrow> 'a list \<Rightarrow> 's \<Rightarrow> 's option" where
  "foldM f [] s = Some s"
| "foldM f (x # xs) s = Option.bind (f x s) (foldM f xs)"

lemma foldM_append: "foldM f (xs @ ys) s = Option.bind (foldM f xs s) (foldM f ys)"
  by (induction xs arbitrary: s) (auto split: bind_splits)

lemma foldM_invariant:
  assumes "foldM f xs s = Some t" and "P s"
    and "\<And>x u v. x \<in> set xs \<Longrightarrow> P u \<Longrightarrow> f x u = Some v \<Longrightarrow> P v"
  shows "P t"
  using assms
proof (induction xs arbitrary: s)
  case Nil
  then show ?case by simp
next
  case (Cons x xs)
  then obtain u where u: "f x s = Some u" and t: "foldM f xs u = Some t"
    by (auto split: bind_splits)
  from Cons.prems(2,3) u have "P u" by auto
  with t Cons.prems(3) show ?case by (intro Cons.IH) auto
qed

lemma foldM_total:
  assumes "P s" and "\<And>x u. x \<in> set xs \<Longrightarrow> P u \<Longrightarrow> \<exists>v. f x u = Some v \<and> P v"
  shows "\<exists>t. foldM f xs s = Some t \<and> P t"
  using assms
proof (induction xs arbitrary: s)
  case Nil
  then show ?case by simp
next
  case (Cons x xs)
  then obtain u where "f x s = Some u" and "P u" by fastforce
  moreover have "\<exists>t. foldM f xs u = Some t \<and> P t"
    using \<open>P u\<close> Cons.prems(2) by (intro Cons.IH) auto
  ultimately show ?case by auto
qed

lemma set_update_subset: "set (AList.update k v al) \<subseteq> insert (k, v) (set al)"
  by (induction al) auto

lemma foldM_None:
  assumes "x \<in> set xs" and "\<And>s. f x s = None"
  shows "foldM f xs s = None"
  using assms(1)
proof (induction xs arbitrary: s)
  case (Cons y ys)
  show ?case
  proof (cases "x = y")
    case True
    then show ?thesis using assms(2) by simp
  next
    case False
    with Cons show ?thesis by (auto split: bind_splits)
  qed
qed simp

end
