(* ===== verification/Go_Text.thy ===== *)
theory Go_Text
  imports Prelude "HOL-Library.Sublist" "HOL-Library.Char_ord"
begin

text \<open>
  The text functions of Go's standard library the program builds keys and messages with: decimal
  formatting (\<open>%d\<close>, \<open>%020d\<close>, \<open>strconv.FormatInt\<close>), \<open>strconv.ParseInt\<close> in base 10,
  \<open>strings.HasPrefix\<close>, \<open>TrimPrefix\<close> and \<open>SplitN(s, sep, 2)\<close>. A Go string is a list of bytes.
\<close>

section \<open>Decimal numbers\<close>

definition dec_digit :: "nat \<Rightarrow> char" where
  "dec_digit n = char_of (48 + n)"

definition is_digit :: "char \<Rightarrow> bool" where
  "is_digit c \<longleftrightarrow> 48 \<le> (of_char c :: nat) \<and> (of_char c :: nat) \<le> 57"

fun nat_dec :: "nat \<Rightarrow> string" where
  "nat_dec n = (if n < 10 then [dec_digit n] else nat_dec (n div 10) @ [dec_digit (n mod 10)])"

declare nat_dec.simps [simp del]

definition itoa :: "int \<Rightarrow> string" where
  "itoa i = (if i < 0 then CHR ''-'' # nat_dec (nat (- i)) else nat_dec (nat i))"

definition pad20 :: "int \<Rightarrow> string" where
  "pad20 i = (let s = nat_dec (nat \<bar>i\<bar>) in
     if i < 0 then CHR ''-'' # replicate (19 - length s) (CHR ''0'') @ s
     else replicate (20 - length s) (CHR ''0'') @ s)"

definition dec_val :: "string \<Rightarrow> nat" where
  "dec_val = foldl (\<lambda>a c. a * 10 + (of_char c - 48)) 0"

text \<open>\<open>ParseInt(s, 10, 64)\<close>: the value and whether there is an error.\<close>

definition parse_digits :: "bool \<Rightarrow> string \<Rightarrow> int \<times> bool" where
  "parse_digits neg ds =
     (if ds = [] \<or> \<not> list_all is_digit ds then (0, True)
      else let v = (if neg then - int (dec_val ds) else int (dec_val ds)) in
        if v < - (2 ^ 63) then (- (2 ^ 63), True)
        else if MaxInt64 < v then (MaxInt64, True) else (v, False))"

definition ParseInt :: "string \<Rightarrow> int \<times> bool" where
  "ParseInt s = (case s of
       [] \<Rightarrow> (0, True)
     | c # cs \<Rightarrow> if c = CHR ''-'' then parse_digits True cs
         else if c = CHR ''+'' then parse_digits False cs else parse_digits False s)"

lemma of_char_dec_digit [simp]: "n < 10 \<Longrightarrow> (of_char (dec_digit n) :: nat) = 48 + n"
  by (simp add: dec_digit_def of_char_of)

lemma is_digit_dec_digit [simp]: "n < 10 \<Longrightarrow> is_digit (dec_digit n)"
  by (simp add: is_digit_def)

lemma digits_nat_dec: "list_all is_digit (nat_dec n)"
proof (induction n rule: nat_dec.induct)
  case (1 n)
  then show ?case by (subst nat_dec.simps) auto
qed

lemma nat_dec_not_Nil [simp]: "nat_dec n \<noteq> []"
  by (subst nat_dec.simps) simp

lemma dec_val_append: "dec_val (xs @ [c]) = dec_val xs * 10 + (of_char c - 48)"
  by (simp add: dec_val_def)

lemma dec_val_nat_dec [simp]: "dec_val (nat_dec n) = n"
proof (induction n rule: nat_dec.induct)
  case (1 n)
  show ?case
  proof (cases "n < 10")
    case True
    then show ?thesis by (subst nat_dec.simps) (simp add: dec_val_def)
  next
    case False
    with 1 show ?thesis by (subst nat_dec.simps) (simp add: dec_val_append)
  qed
qed

lemma nat_dec_inject [simp]: "nat_dec m = nat_dec n \<longleftrightarrow> m = n"
  by (metis dec_val_nat_dec)

lemma dec_val_zeros: "dec_val (replicate k (CHR ''0'') @ s) = dec_val s"
  by (induction k) (simp_all add: dec_val_def)

lemma not_digit [simp]: "\<not> is_digit (CHR '':'')" "\<not> is_digit (CHR ''-'')" "\<not> is_digit (CHR ''+'')"
  "is_digit (CHR ''0'')"
  by (simp_all add: is_digit_def)

lemma nat_dec_no_sep: "\<not> is_digit c \<Longrightarrow> c \<notin> set (nat_dec n)"
  using digits_nat_dec [of n] by (auto simp: list_all_iff)

lemma itoa_no_colon: "CHR '':'' \<notin> set (itoa i)"
  by (auto simp: itoa_def nat_dec_no_sep)

lemma itoa_inject [simp]: "itoa i = itoa j \<longleftrightarrow> i = j"
proof
  assume eq: "itoa i = itoa j"
  have hd: "nat_dec n \<noteq> CHR ''-'' # s" for n s
    using nat_dec_no_sep [of "CHR ''-''" n] by auto
  show "i = j"
    using eq hd by (auto simp: itoa_def split: if_splits) (metis hd)+
qed simp

lemma length_nat_dec: "n < 10 ^ k \<Longrightarrow> 0 < k \<Longrightarrow> length (nat_dec n) \<le> k"
proof (induction k arbitrary: n)
  case 0
  then show ?case by simp
next
  case (Suc k)
  show ?case
  proof (cases "n < 10")
    case True
    then show ?thesis by (subst nat_dec.simps) simp
  next
    case False
    then have "0 < k" using Suc.prems by (cases k) auto
    moreover have "n div 10 < 10 ^ k" using Suc.prems by auto
    ultimately have "length (nat_dec (n div 10)) \<le> k" using Suc.IH by blast
    with False show ?thesis by (subst nat_dec.simps) simp
  qed
qed

lemma digits_padded: "list_all is_digit (replicate k (CHR ''0'') @ nat_dec n)"
  using digits_nat_dec [of n] by (auto simp: list_all_iff)

lemma ParseInt_digits:
  assumes "list_all is_digit s" and "s \<noteq> []"
  shows "ParseInt s = parse_digits False s"
proof (cases s)
  case (Cons c cs)
  with assms(1) have "is_digit c" by simp
  then have "c \<noteq> CHR ''-''" "c \<noteq> CHR ''+''" by auto
  with Cons show ?thesis by (simp add: ParseInt_def)
qed (use assms in simp)

lemma parse_padded:
  "int n < 2 ^ 63 \<Longrightarrow> parse_digits False (replicate k (CHR ''0'') @ nat_dec n) = (int n, False)"
  "int n \<le> 2 ^ 63 \<Longrightarrow> parse_digits True (replicate k (CHR ''0'') @ nat_dec n) = (- int n, False)"
  using digits_padded [of k n] by (simp_all add: parse_digits_def dec_val_zeros)

lemma ParseInt_pad20:
  assumes "in_i64 i"
  shows "ParseInt (pad20 i) = (i, False)"
proof (cases "i < 0")
  case True
  let ?s = "replicate (19 - length (nat_dec (nat \<bar>i\<bar>))) (CHR ''0'') @ nat_dec (nat \<bar>i\<bar>)"
  have "ParseInt (pad20 i) = parse_digits True ?s"
    using True by (simp add: pad20_def Let_def ParseInt_def)
  also have "\<dots> = (i, False)"
    using parse_padded(2) [of "nat \<bar>i\<bar>"] True assms by (simp add: in_i64_def)
  finally show ?thesis .
next
  case False
  let ?s = "replicate (20 - length (nat_dec (nat \<bar>i\<bar>))) (CHR ''0'') @ nat_dec (nat \<bar>i\<bar>)"
  have "ParseInt (pad20 i) = parse_digits False ?s"
    using False ParseInt_digits [OF digits_padded] by (simp add: pad20_def Let_def)
  also have "\<dots> = (i, False)"
    using parse_padded(1) [of "nat \<bar>i\<bar>"] False assms by (simp add: in_i64_def)
  finally show ?thesis .
qed

lemma ParseInt_itoa:
  assumes "in_i64 i"
  shows "ParseInt (itoa i) = (i, False)"
proof (cases "i < 0")
  case True
  then have "ParseInt (itoa i) = parse_digits True (nat_dec (nat (- i)))"
    by (simp add: itoa_def ParseInt_def)
  also have "\<dots> = (i, False)"
    using parse_padded(2) [of "nat (- i)" 0] True assms by (simp add: in_i64_def)
  finally show ?thesis .
next
  case False
  then have "ParseInt (itoa i) = parse_digits False (nat_dec (nat i))"
    using ParseInt_digits [OF digits_nat_dec nat_dec_not_Nil] by (simp add: itoa_def)
  also have "\<dots> = (i, False)"
    using parse_padded(1) [of "nat i" 0] False assms by (simp add: in_i64_def)
  finally show ?thesis .
qed

lemma pad20_inject: "in_i64 i \<Longrightarrow> in_i64 j \<Longrightarrow> pad20 i = pad20 j \<longleftrightarrow> i = j"
  by (metis ParseInt_pad20 prod.inject)

lemma pad20_no_colon: "CHR '':'' \<notin> set (pad20 i)"
  by (auto simp: pad20_def Let_def nat_dec_no_sep)

section \<open>Prefixes and separators\<close>

definition TrimPrefix :: "string \<Rightarrow> string \<Rightarrow> string" where
  "TrimPrefix s p = (if prefix p s then drop (length p) s else s)"

lemma TrimPrefix_append [simp]: "TrimPrefix (p @ s) p = s"
  by (simp add: TrimPrefix_def)

text \<open>\<open>SplitN(s, sep, 2)\<close> for a one-byte separator: \<open>None\<close> when there is only one part.\<close>

fun split2 :: "'a \<Rightarrow> 'a list \<Rightarrow> ('a list \<times> 'a list) option" where
  "split2 c [] = None"
| "split2 c (x # xs) = (if x = c then Some ([], xs) else map_option (apfst ((#) x)) (split2 c xs))"

lemma split2_append: "c \<notin> set a \<Longrightarrow> split2 c (a @ c # b) = Some (a, b)"
  by (induction a) auto

lemma split2_None: "split2 c s = None \<longleftrightarrow> c \<notin> set s"
  by (induction s) auto

lemma split2_Some: "split2 c s = Some (a, b) \<Longrightarrow> s = a @ c # b \<and> c \<notin> set a"
  by (induction s arbitrary: a) (auto split: if_splits)

text \<open>The first, respectively the last, occurrence of a separator determines the parts.\<close>

lemma append_sep_first:
  assumes "xs @ c # ys = xs' @ c # ys'" and "c \<notin> set xs" and "c \<notin> set xs'"
  shows "xs = xs' \<and> ys = ys'"
proof -
  have "Some (xs, ys) = Some (xs', ys')"
    unfolding split2_append [OF assms(2), symmetric] split2_append [OF assms(3), symmetric]
    by (simp only: assms(1))
  then show ?thesis by simp
qed

lemma append_sep_last:
  assumes "xs @ c # ys = xs' @ c # ys'" and "c \<notin> set ys" and "c \<notin> set ys'"
  shows "xs = xs' \<and> ys = ys'"
proof -
  have "rev ys @ c # rev xs = rev ys' @ c # rev xs'"
    using arg_cong [OF assms(1), of rev] by simp
  from append_sep_first [OF this] assms show ?thesis by simp
qed

lemma prefix_sep_first:
  assumes "prefix (xs @ [c]) (xs' @ c # ys')" and "c \<notin> set xs" and "c \<notin> set xs'"
  shows "xs = xs'"
proof -
  from assms(1) obtain zs where "xs' @ c # ys' = xs @ c # zs" by (auto elim!: prefixE)
  from append_sep_first [OF this assms(3,2)] show ?thesis by simp
qed

section \<open>Topic messages (core/Topic.go)\<close>

definition parseTopicMessage :: "string \<Rightarrow> (string \<times> string) option" where
  "parseTopicMessage data = split2 (CHR ''|'') data"

definition topicMessage :: "string \<Rightarrow> string \<Rightarrow> string" where
  "topicMessage topic payload = topic @ ''|'' @ payload"

lemma parse_topicMessage:
  "parseTopicMessage (topicMessage t p) = Some (t, p)" if "CHR ''|'' \<notin> set t"
  using that by (simp add: parseTopicMessage_def topicMessage_def split2_append)

end
