(* ===== verification/Raft_Types.thy ===== *)
theory Raft_Types
  imports Go_Text
begin

text \<open>
  The data of core/Raft.go: roles, message and operation types, commands, log entries and the payload
  of every Raft message. Field prefixes keep apart what Go keeps apart by struct.
\<close>

datatype RaftRole = Follower | Candidate | Leader

datatype RaftMsgType =
    RequestVote
  | RequestVoteResponse
  | AppendEntries
  | AppendEntriesResponse
  | ClientCommand
  | addLearnerMsg
  | removeLearnerMsg

text \<open>\<open>RaftOpType\<close> is an \<open>int\<close>: a log entry may carry a value outside the five constants.\<close>

type_synonym RaftOpType = int

definition op_put :: RaftOpType where "op_put = 0"
definition op_delOp :: RaftOpType where "op_delOp = 1"
definition op_addLearner :: RaftOpType where "op_addLearner = 2"
definition op_removeLearner :: RaftOpType where "op_removeLearner = 3"
definition op_addLearnerWithSnapshot :: RaftOpType where "op_addLearnerWithSnapshot = 4"

lemmas op_defs = op_put_def op_delOp_def op_addLearner_def op_removeLearner_def
  op_addLearnerWithSnapshot_def

record RaftCommand =
  Op :: RaftOpType
  cKey :: string
  cValue :: goval
  SnapshotIndex :: int
  SnapshotTerm :: int

record RaftLogEntry =
  Index :: int
  Term :: int
  Command :: RaftCommand

record RaftPayload =
  pType :: RaftMsgType
  pTerm :: int
  pLeaderId :: string
  pCandidateId :: string
  pSenderId :: string
  pPrevLogIndex :: int
  pPrevLogTerm :: int
  pEntries :: "RaftLogEntry list"
  pLeaderCommit :: int
  pVoteGranted :: bool
  pSuccess :: bool
  pCommitIndex :: int
  pLastApplied :: int
  pGroup :: string
  pConflictTerm :: int
  pConflictIndex :: int
  pInvokeId :: int

text \<open>A composite literal of Go leaves the fields it does not name at their zero values.\<close>

definition zero_payload :: RaftPayload where
  "zero_payload = \<lparr>pType = RequestVote, pTerm = 0, pLeaderId = [], pCandidateId = [], pSenderId = [],
     pPrevLogIndex = 0, pPrevLogTerm = 0, pEntries = [], pLeaderCommit = 0, pVoteGranted = False,
     pSuccess = False, pCommitIndex = 0, pLastApplied = 0, pGroup = [], pConflictTerm = 0,
     pConflictIndex = 0, pInvokeId = 0\<rparr>"

definition zero_command :: RaftCommand where
  "zero_command = \<lparr>Op = 0, cKey = [], cValue = GNil, SnapshotIndex = 0, SnapshotTerm = 0\<rparr>"

definition zero_entry :: RaftLogEntry where
  "zero_entry = \<lparr>Index = 0, Term = 0, Command = zero_command\<rparr>"

section \<open>Logs\<close>

text \<open>A log is well formed when entry number \<open>i\<close> (from 0) carries index \<open>i + 1\<close>.\<close>

definition log_wf :: "RaftLogEntry list \<Rightarrow> bool" where
  "log_wf es \<longleftrightarrow> (\<forall>i < length es. Index (es ! i) = int i + 1)"

lemma log_wf_Nil [simp]: "log_wf []"
  by (simp add: log_wf_def)

lemma log_wf_take [go_intros]: "log_wf es \<Longrightarrow> log_wf (take n es)"
  by (simp add: log_wf_def)

lemma log_wf_snoc [simp]:
  "log_wf (es @ [e]) \<longleftrightarrow> log_wf es \<and> Index e = int (length es) + 1"
  unfolding log_wf_def
proof (intro iffI conjI allI impI)
  assume a: "\<forall>i < length (es @ [e]). Index ((es @ [e]) ! i) = int i + 1"
  show "Index e = int (length es) + 1" using a [rule_format, of "length es"] by simp
  show "Index (es ! i) = int i + 1" if "i < length es" for i
    using a [rule_format, of i] that by (simp add: nth_append)
next
  fix i
  assume "(\<forall>i < length es. Index (es ! i) = int i + 1) \<and> Index e = int (length es) + 1"
    and "i < length (es @ [e])"
  then show "Index ((es @ [e]) ! i) = int i + 1"
    by (cases "i < length es") (auto simp: nth_append less_Suc_eq)
qed

lemma log_wf_Index: "log_wf es \<Longrightarrow> i < length es \<Longrightarrow> Index (es ! i) = int i + 1"
  by (simp add: log_wf_def)

lemma log_wf_map_Index: "log_wf es \<Longrightarrow> map Index es = map (\<lambda>i. int i + 1) [0..<length es]"
  by (rule nth_equalityI) (auto simp: log_wf_Index)

lemma log_wf_distinct_Index: "log_wf es \<Longrightarrow> distinct (map Index es)"
  by (simp add: log_wf_map_Index distinct_map inj_on_def)

lemma log_wf_sorted_Index: "log_wf es \<Longrightarrow> sorted (map Index es)"
  by (simp add: log_wf_map_Index sorted_iff_nth_mono)

lemma log_wf_last: "log_wf es \<Longrightarrow> es \<noteq> [] \<Longrightarrow> Index (last es) = int (length es)"
  by (simp add: last_conv_nth log_wf_Index of_nat_diff Suc_leI)

end
