(* ===== verification/Kv_Spec.thy ===== *)
theory Kv_Spec
  imports Prelude
begin

text \<open>
  The contract of a key-value state machine, stated once for its two providers in the code: the
  in-memory \<open>OrderedKV\<close> (theory Kv_Group) and the per-group state of the LevelDB storage (theory
  Raft_Storage). \<open>kv_apply\<close> is the abstract effect of one command on a map; the locale
  \<open>kv_store\<close> says a provider refines it, and its client lemmas are about command sequences.
\<close>

datatype kv_cmd = KvPut string goval | KvDel string

fun kv_apply :: "kv_cmd \<Rightarrow> (string \<rightharpoonup> goval) \<Rightarrow> (string \<rightharpoonup> goval)" where
  "kv_apply (KvPut k v) m = m(k \<mapsto> v)"
| "kv_apply (KvDel k) m = m(k := None)"

lemma fold_kv_apply_key:
  "fold kv_apply cs m k = fold kv_apply cs m' k" if "m k = m' k"
  using that
proof (induction cs arbitrary: m m')
  case Nil
  then show ?case by simp
next
  case (Cons c cs)
  have "kv_apply c m k = kv_apply c m' k"
    using Cons.prems by (cases c) auto
  then have "fold kv_apply cs (kv_apply c m) k = fold kv_apply cs (kv_apply c m') k"
    by (rule Cons.IH [of "kv_apply c m" "kv_apply c m'"])
  then show ?case by simp
qed

locale kv_store =
  fixes inv :: "'s \<Rightarrow> bool"
    and abs :: "'s \<Rightarrow> string \<rightharpoonup> goval"
    and put :: "string \<Rightarrow> goval \<Rightarrow> 's \<Rightarrow> 's option"
    and del :: "string \<Rightarrow> 's \<Rightarrow> 's option"
    and get :: "string \<Rightarrow> 's \<Rightarrow> goval option"
  assumes put_ok: "inv s \<Longrightarrow> \<exists>t. put k v s = Some t \<and> inv t \<and> abs t = (abs s)(k \<mapsto> v)"
    and del_ok: "inv s \<Longrightarrow> \<exists>t. del k s = Some t \<and> inv t \<and> abs t = (abs s)(k := None)"
    and get_ok: "inv s \<Longrightarrow> get k s = abs s k"
begin

primrec exec :: "kv_cmd \<Rightarrow> 's \<Rightarrow> 's option" where
  "exec (KvPut k v) s = put k v s"
| "exec (KvDel k) s = del k s"

lemma exec_refines:
  "inv s \<Longrightarrow> \<exists>t. exec c s = Some t \<and> inv t \<and> abs t = kv_apply c (abs s)"
  by (cases c) (auto dest: put_ok del_ok)

lemma run_refines:
  "inv s \<Longrightarrow> \<exists>t. foldM exec cs s = Some t \<and> inv t \<and> abs t = fold kv_apply cs (abs s)"
proof (induction cs arbitrary: s)
  case Nil
  then show ?case by simp
next
  case (Cons c cs)
  from exec_refines [OF Cons.prems] obtain u where
    u: "exec c s = Some u" "inv u" "abs u = kv_apply c (abs s)" by blast
  from Cons.IH [OF u(2)] u show ?case by auto
qed

lemma run_get:
  assumes "inv s"
  shows "\<exists>t. foldM exec cs s = Some t \<and> get k t = fold kv_apply cs (abs s) k"
  using run_refines [OF assms, of cs] get_ok by auto

lemma get_after_put:
  assumes "inv s"
  shows "\<exists>t. put k v s = Some t \<and> (\<forall>k'. get k' t = (if k' = k then Some v else get k' s))"
  using put_ok [OF assms, of k v] get_ok assms by fastforce

end

end
