(* ===== verification/Raft_Storage.thy ===== *)
theory Raft_Storage
  imports Raft_Types Kv_Spec "HOL-Library.Multiset"
begin

text \<open>
  core/RaftStorage.go: logs, metadata and state of every Raft group in one LevelDB, under keys
  \<open>node:ID:group:G:category:key\<close>.

  LevelDB is a third-party package, so its operations are a parameter \<open>L\<close> of every definition
  here, and \<open>leveldb_ok L\<close> is its documented behaviour. A stored document is the JSON value the
  code marshals, a \<open>goval\<close>. \<open>db = None\<close> is the in-memory fallback (\<open>s.db == nil\<close>).
\<close>

section \<open>The database\<close>

record 'd leveldb =
  db_Put :: "string \<Rightarrow> goval \<Rightarrow> 'd \<Rightarrow> 'd"
  db_Delete :: "string \<Rightarrow> 'd \<Rightarrow> 'd"
  db_Get :: "string \<Rightarrow> 'd \<Rightarrow> goval option"
  db_Iter :: "'d \<Rightarrow> (string \<times> goval) list"

definition leveldb_ok :: "'d leveldb \<Rightarrow> bool" where
  "leveldb_ok L \<longleftrightarrow>
     (\<forall>k v d k'. db_Get L k' (db_Put L k v d) = (if k' = k then Some v else db_Get L k' d)) \<and>
     (\<forall>k d k'. db_Get L k' (db_Delete L k d) = (if k' = k then None else db_Get L k' d)) \<and>
     (\<forall>d. distinct (map fst (db_Iter L d))) \<and>
     (\<forall>d k. map_of (db_Iter L d) k = db_Get L k d)"

lemma leveldb_okD:
  assumes "leveldb_ok L"
  shows "db_Get L k' (db_Put L k v d) = (if k' = k then Some v else db_Get L k' d)"
    and "db_Get L k' (db_Delete L k d) = (if k' = k then None else db_Get L k' d)"
    and "distinct (map fst (db_Iter L d))"
    and "map_of (db_Iter L d) k = db_Get L k d"
  using assms by (auto simp: leveldb_ok_def)

text \<open>A concrete database with this behaviour: an association list.\<close>

definition alist_db :: "(string \<times> goval) list leveldb" where
  "alist_db = \<lparr>db_Put = AList.update, db_Delete = AList.delete,
     db_Get = (\<lambda>k d. map_of d k), db_Iter = AList.clearjunk\<rparr>"

lemma alist_db_ok: "leveldb_ok alist_db"
  by (simp add: leveldb_ok_def alist_db_def distinct_clearjunk map_of_clearjunk)

section \<open>JSON documents\<close>

definition jfield :: "goval \<Rightarrow> string \<Rightarrow> goval option" where
  "jfield d f = (case d of GMap m \<Rightarrow> map_of m f | _ \<Rightarrow> None)"

definition jnum :: "goval \<Rightarrow> string \<Rightarrow> int" where
  "jnum d f = (case jfield d f of Some (GNum n) \<Rightarrow> n | _ \<Rightarrow> 0)"

definition jstr :: "goval \<Rightarrow> string \<Rightarrow> string" where
  "jstr d f = (case jfield d f of Some (GStr s) \<Rightarrow> s | _ \<Rightarrow> [])"

definition encode_cmd :: "RaftCommand \<Rightarrow> goval" where
  "encode_cmd c = GMap [(''Op'', GNum (Op c)), (''Key'', GStr (cKey c)), (''Value'', cValue c),
     (''SnapshotIndex'', GNum (SnapshotIndex c)), (''SnapshotTerm'', GNum (SnapshotTerm c))]"

definition decode_cmd :: "goval \<Rightarrow> RaftCommand" where
  "decode_cmd d = \<lparr>Op = jnum d ''Op'', cKey = jstr d ''Key'',
     cValue = (case jfield d ''Value'' of Some v \<Rightarrow> v | None \<Rightarrow> GNil),
     SnapshotIndex = jnum d ''SnapshotIndex'', SnapshotTerm = jnum d ''SnapshotTerm''\<rparr>"

definition encode_log :: "RaftLogEntry \<Rightarrow> goval" where
  "encode_log e = GMap [(''Index'', GNum (Index e)), (''Term'', GNum (Term e)),
     (''Command'', encode_cmd (Command e))]"

definition decode_log :: "goval \<Rightarrow> RaftLogEntry" where
  "decode_log d = \<lparr>Index = jnum d ''Index'', Term = jnum d ''Term'',
     Command = (case jfield d ''Command'' of Some c \<Rightarrow> decode_cmd c | None \<Rightarrow> zero_command)\<rparr>"

lemma decode_encode_log [simp]: "decode_log (encode_log e) = e"
  by (simp add: decode_log_def encode_log_def decode_cmd_def encode_cmd_def jnum_def jstr_def jfield_def)

text \<open>
  A number decoded into an \<open>interface{}\<close> becomes a \<open>float64\<close>: it is rounded to 53 significant
  bits, ties to even, and \<open>int64(f)\<close> converts it back.
\<close>

fun bitlen :: "nat \<Rightarrow> nat" where
  "bitlen n = (if n = 0 then 0 else Suc (bitlen (n div 2)))"

declare bitlen.simps [simp del]

definition round53 :: "nat \<Rightarrow> nat" where
  "round53 n = (if n \<le> 2 ^ 53 then n else
     (let e = bitlen n - 53; q = n div 2 ^ e; r = n mod 2 ^ e; h = 2 ^ (e - 1) in
      (if h < r \<or> (r = h \<and> odd q) then q + 1 else q) * 2 ^ e))"

definition float_i64 :: "int \<Rightarrow> int" where
  "float_i64 i = i64 (sgn i * int (round53 (nat \<bar>i\<bar>)))"

lemma float_i64_exact [simp]:
  assumes "\<bar>i\<bar> \<le> 9007199254740992"
  shows "float_i64 i = i"
proof -
  have "nat \<bar>i\<bar> \<le> 2 ^ 53" using assms by simp
  then have "float_i64 i = i64 (sgn i * int (nat \<bar>i\<bar>))"
    by (simp add: float_i64_def round53_def)
  also have "sgn i * int (nat \<bar>i\<bar>) = i" by (simp add: sgn_mult_abs)
  also have "i64 i = i" using assms by simp
  finally show ?thesis .
qed

section \<open>Keys\<close>

record 'd Storage =
  db :: "'d option"
  NodeId :: string

definition group_prefix :: "'d Storage \<Rightarrow> string \<Rightarrow> string \<Rightarrow> string" where
  "group_prefix s grp category =
     ''node:'' @ NodeId s @ '':group:'' @ grp @ '':'' @ category @ '':''"

definition makeKey :: "'d Storage \<Rightarrow> string \<Rightarrow> string \<Rightarrow> string \<Rightarrow> string" where
  "makeKey s grp category key =
     ''node:'' @ NodeId s @ '':group:'' @ grp @ '':'' @ category @ '':'' @ key"

lemma makeKey_prefix: "makeKey s g c k = group_prefix s g c @ k"
  by (simp add: makeKey_def group_prefix_def)

definition plain_name :: "string \<Rightarrow> bool" where
  "plain_name s \<longleftrightarrow> CHR '':'' \<notin> set s"

lemma group_prefix_plain:
  assumes "prefix (group_prefix s g c) (makeKey s' g' c' k)"
    and "plain_name (NodeId s)" and "plain_name (NodeId s')"
    and "plain_name g" and "plain_name g'" and "plain_name c" and "plain_name c'"
  shows "NodeId s = NodeId s' \<and> g = g' \<and> c = c'"
proof -
  from assms(1) obtain z where z:
    "NodeId s' @ CHR '':'' # (''group:'' @ g' @ '':'' @ c' @ '':'' @ k) =
     NodeId s @ CHR '':'' # (''group:'' @ g @ '':'' @ c @ '':'' @ z)"
    by (auto simp: makeKey_def group_prefix_def elim!: prefixE)
  from append_sep_first [OF z] assms(2,3)
  have "NodeId s' = NodeId s"
    and r: "g' @ CHR '':'' # (c' @ '':'' @ k) = g @ CHR '':'' # (c @ '':'' @ z)"
    by (auto simp: plain_name_def)
  from append_sep_first [OF r] assms(4,5)
  have "g' = g" and r2: "c' @ CHR '':'' # k = c @ CHR '':'' # z" by (auto simp: plain_name_def)
  from append_sep_first [OF r2] assms(6,7) have "c' = c" by (auto simp: plain_name_def)
  with \<open>NodeId s' = NodeId s\<close> \<open>g' = g\<close> show ?thesis by simp
qed

section \<open>Log entries\<close>

definition log_key :: "int \<Rightarrow> string" where
  "log_key i = pad20 i"

definition SaveLog :: "'d leveldb \<Rightarrow> string \<Rightarrow> RaftLogEntry \<Rightarrow> 'd Storage \<Rightarrow> 'd Storage" where
  "SaveLog L grp entry s = (case db s of
       None \<Rightarrow> s
     | Some d \<Rightarrow> s\<lparr>db := Some (db_Put L (makeKey s grp ''log'' (pad20 (Index entry)))
         (encode_log entry) d)\<rparr>)"

definition GetLog :: "'d leveldb \<Rightarrow> string \<Rightarrow> int \<Rightarrow> 'd Storage \<Rightarrow> RaftLogEntry option" where
  "GetLog L grp index s = (case db s of
       None \<Rightarrow> None
     | Some d \<Rightarrow> map_option decode_log (db_Get L (makeKey s grp ''log'' (pad20 index)) d))"

text \<open>
  The shape of the three scan-and-delete loops: every key with the prefix that satisfies the test is
  deleted. The iterator reads a snapshot, so the deletions do not disturb the scan.
\<close>

definition scan_delete ::
  "'d leveldb \<Rightarrow> string \<Rightarrow> (string \<Rightarrow> bool) \<Rightarrow> 'd Storage \<Rightarrow> 'd Storage" where
  "scan_delete L p test s = (case db s of
       None \<Rightarrow> s
     | Some d \<Rightarrow> s\<lparr>db := Some (fold (\<lambda>(k, _) d'. if prefix p k \<and> test (TrimPrefix k p)
         then db_Delete L k d' else d') (db_Iter L d) d)\<rparr>)"

definition DeleteLogsBefore :: "'d leveldb \<Rightarrow> string \<Rightarrow> int \<Rightarrow> 'd Storage \<Rightarrow> 'd Storage" where
  "DeleteLogsBefore L grp index s =
     scan_delete L (group_prefix s grp ''log'') (\<lambda>k. fst (ParseInt k) < index) s"

definition DeleteLogsFrom :: "'d leveldb \<Rightarrow> string \<Rightarrow> int \<Rightarrow> 'd Storage \<Rightarrow> 'd Storage" where
  "DeleteLogsFrom L grp startIndex s =
     scan_delete L (group_prefix s grp ''log'') (\<lambda>k. startIndex \<le> fst (ParseInt k)) s"

definition LoadLogs :: "'d leveldb \<Rightarrow> string \<Rightarrow> 'd Storage \<Rightarrow> RaftLogEntry list" where
  "LoadLogs L grp s = (case db s of
       None \<Rightarrow> []
     | Some d \<Rightarrow> sort_key Index (map (\<lambda>(k, v). decode_log v)
         (filter (\<lambda>(k, _). prefix (group_prefix s grp ''log'') k) (db_Iter L d))))"

section \<open>Metadata\<close>

definition SaveMeta ::
  "'d leveldb \<Rightarrow> string \<Rightarrow> int \<Rightarrow> string \<Rightarrow> int \<Rightarrow> int \<Rightarrow> 'd Storage \<Rightarrow> 'd Storage" where
  "SaveMeta L grp term votedFor commitIndex lastApplied s = (case db s of
       None \<Rightarrow> s
     | Some d \<Rightarrow> s\<lparr>db := Some (db_Put L (makeKey s grp ''meta'' ''info'')
         (GMap [(''term'', GNum term), (''votedFor'', GStr votedFor),
                (''commitIndex'', GNum commitIndex), (''lastApplied'', GNum lastApplied)]) d)\<rparr>)"

text \<open>The type assertions of \<open>LoadMeta\<close>: a missing or ill-typed value panics.\<close>

definition assert_num :: "goval option \<Rightarrow> int option" where
  "assert_num v = (case v of Some (GNum n) \<Rightarrow> Some (float_i64 n) | _ \<Rightarrow> None)"

definition assert_str :: "goval option \<Rightarrow> string option" where
  "assert_str v = (case v of Some (GStr t) \<Rightarrow> Some t | _ \<Rightarrow> None)"

text \<open>Term, vote, commit index, last applied index, and whether the error result is set.\<close>

definition LoadMeta ::
  "'d leveldb \<Rightarrow> string \<Rightarrow> 'd Storage \<Rightarrow> (int \<times> string \<times> int \<times> int \<times> bool) option" where
  "LoadMeta L grp s = (case db s of
       None \<Rightarrow> Some (0, [], 0, 0, False)
     | Some d \<Rightarrow> (case db_Get L (makeKey s grp ''meta'' ''info'') d of
         None \<Rightarrow> Some (0, [], 0, 0, True)
       | Some m \<Rightarrow> do {
           la \<leftarrow> (case jfield m ''lastApplied'' of None \<Rightarrow> Some 0 | v \<Rightarrow> assert_num v);
           t \<leftarrow> assert_num (jfield m ''term'');
           vf \<leftarrow> assert_str (jfield m ''votedFor'');
           ci \<leftarrow> assert_num (jfield m ''commitIndex'');
           Some (t, vf, ci, la, False) }))"

section \<open>State machine\<close>

definition PutState :: "'d leveldb \<Rightarrow> string \<Rightarrow> string \<Rightarrow> goval \<Rightarrow> 'd Storage \<Rightarrow> 'd Storage" where
  "PutState L grp key value s = (case db s of
       None \<Rightarrow> s
     | Some d \<Rightarrow> s\<lparr>db := Some (db_Put L (makeKey s grp ''state'' key) value d)\<rparr>)"

definition DeleteState :: "'d leveldb \<Rightarrow> string \<Rightarrow> string \<Rightarrow> 'd Storage \<Rightarrow> 'd Storage" where
  "DeleteState L grp key s = (case db s of
       None \<Rightarrow> s
     | Some d \<Rightarrow> s\<lparr>db := Some (db_Delete L (makeKey s grp ''state'' key) d)\<rparr>)"

definition GetState :: "'d leveldb \<Rightarrow> string \<Rightarrow> string \<Rightarrow> 'd Storage \<Rightarrow> goval option" where
  "GetState L grp key s = (case db s of
       None \<Rightarrow> None
     | Some d \<Rightarrow> db_Get L (makeKey s grp ''state'' key) d)"

definition GetFullState :: "'d leveldb \<Rightarrow> string \<Rightarrow> 'd Storage \<Rightarrow> (string \<times> goval) list option" where
  "GetFullState L grp s = (case db s of
       None \<Rightarrow> None
     | Some d \<Rightarrow> Some (map (\<lambda>(k, v). (TrimPrefix k (group_prefix s grp ''state''), v))
         (filter (\<lambda>(k, _). prefix (group_prefix s grp ''state'') k) (db_Iter L d))))"

definition clearState :: "'d leveldb \<Rightarrow> string \<Rightarrow> 'd Storage \<Rightarrow> 'd Storage" where
  "clearState L grp s = scan_delete L (group_prefix s grp ''state'') (\<lambda>_. True) s"

definition SetFullState :: "'d leveldb \<Rightarrow> string \<Rightarrow> (string \<times> goval) list \<Rightarrow> 'd Storage \<Rightarrow> 'd Storage" where
  "SetFullState L grp state s = (case db s of
       None \<Rightarrow> s
     | Some _ \<Rightarrow> fold (\<lambda>(k, v). PutState L grp k v) state (clearState L grp s))"

record StateSnapshot =
  ss_Group :: string
  ss_Term :: int
  ss_CommitIndex :: int
  ss_LastApplied :: int
  ss_State :: "(string \<times> goval) list"

text \<open>Outer option: panic in \<open>LoadMeta\<close>; inner option: the error result.\<close>

definition GetStateSnapshot ::
  "'d leveldb \<Rightarrow> string \<Rightarrow> 'd Storage \<Rightarrow> StateSnapshot option option" where
  "GetStateSnapshot L grp s = (case db s of
       None \<Rightarrow> Some None
     | Some d \<Rightarrow> do {
         (t, vf, ci, la, err) \<leftarrow> LoadMeta L grp s;
         if err then Some None
         else Some (map_option (\<lambda>st. \<lparr>ss_Group = grp, ss_Term = t, ss_CommitIndex = ci,
                      ss_LastApplied = la, ss_State = st\<rparr>) (GetFullState L grp s)) })"

section \<open>What the database holds\<close>

definition st_get :: "'d leveldb \<Rightarrow> 'd Storage \<Rightarrow> string \<Rightarrow> goval option" where
  "st_get L s k = (case db s of None \<Rightarrow> None | Some d \<Rightarrow> db_Get L k d)"

named_theorems storage_frame

lemma storage_node [storage_frame, simp]:
  "NodeId (SaveLog L g e s) = NodeId s" "NodeId (scan_delete L p test s) = NodeId s"
  "NodeId (SaveMeta L g t v c a s) = NodeId s" "NodeId (PutState L g k x s) = NodeId s"
  "NodeId (DeleteState L g k s) = NodeId s" "NodeId (DeleteLogsFrom L g i s) = NodeId s"
  "NodeId (DeleteLogsBefore L g i s) = NodeId s" "NodeId (clearState L g s) = NodeId s"
  by (simp_all add: SaveLog_def scan_delete_def SaveMeta_def PutState_def DeleteState_def
      DeleteLogsFrom_def DeleteLogsBefore_def clearState_def split: option.split)

lemma storage_open [storage_frame, simp]:
  "db (SaveLog L g e s) = None \<longleftrightarrow> db s = None" "db (scan_delete L p test s) = None \<longleftrightarrow> db s = None"
  "db (SaveMeta L g t v c a s) = None \<longleftrightarrow> db s = None" "db (PutState L g k x s) = None \<longleftrightarrow> db s = None"
  "db (DeleteState L g k s) = None \<longleftrightarrow> db s = None"
  "db (DeleteLogsFrom L g i s) = None \<longleftrightarrow> db s = None"
  "db (DeleteLogsBefore L g i s) = None \<longleftrightarrow> db s = None" "db (clearState L g s) = None \<longleftrightarrow> db s = None"
  by (simp_all add: SaveLog_def scan_delete_def SaveMeta_def PutState_def DeleteState_def
      DeleteLogsFrom_def DeleteLogsBefore_def clearState_def split: option.split)

lemma storage_open_ex [simp]:
  "(\<exists>y. db (SaveLog L g e s) = Some y) \<longleftrightarrow> (\<exists>y. db s = Some y)"
  "(\<exists>y. db (SaveMeta L g t v c a s) = Some y) \<longleftrightarrow> (\<exists>y. db s = Some y)"
  "(\<exists>y. db (PutState L g k x s) = Some y) \<longleftrightarrow> (\<exists>y. db s = Some y)"
  "(\<exists>y. db (DeleteState L g k s) = Some y) \<longleftrightarrow> (\<exists>y. db s = Some y)"
  "(\<exists>y. db (DeleteLogsFrom L g i s) = Some y) \<longleftrightarrow> (\<exists>y. db s = Some y)"
  "(\<exists>y. db (clearState L g s) = Some y) \<longleftrightarrow> (\<exists>y. db s = Some y)"
  by (simp_all add: not_None_eq [symmetric] del: not_None_eq)

lemma makeKey_node: "NodeId s = NodeId s' \<Longrightarrow> makeKey s = makeKey s'"
  by (simp add: fun_eq_iff makeKey_def)

lemma group_prefix_node: "NodeId s = NodeId s' \<Longrightarrow> group_prefix s = group_prefix s'"
  by (simp add: fun_eq_iff group_prefix_def)

lemma storage_keys [simp]:
  "makeKey (SaveLog L g e s) = makeKey s" "makeKey (scan_delete L p test s) = makeKey s"
  "makeKey (SaveMeta L g t v c a s) = makeKey s" "makeKey (PutState L g k x s) = makeKey s"
  "makeKey (DeleteState L g k s) = makeKey s" "makeKey (DeleteLogsFrom L g i s) = makeKey s"
  "makeKey (clearState L g s) = makeKey s"
  "group_prefix (SaveLog L g e s) = group_prefix s" "group_prefix (scan_delete L p test s) = group_prefix s"
  "group_prefix (SaveMeta L g t v c a s) = group_prefix s"
  "group_prefix (PutState L g k x s) = group_prefix s"
  "group_prefix (DeleteState L g k s) = group_prefix s"
  "group_prefix (DeleteLogsFrom L g i s) = group_prefix s"
  "group_prefix (clearState L g s) = group_prefix s"
  by (rule makeKey_node group_prefix_node; simp)+

lemma makeKey_inject [simp]: "makeKey s g c k = makeKey s g c k' \<longleftrightarrow> k = k'"
  by (simp add: makeKey_prefix)

lemma categories_differ [simp]:
  "makeKey s g ''log'' k \<noteq> makeKey s g ''meta'' k'" "makeKey s g ''meta'' k' \<noteq> makeKey s g ''log'' k"
  "makeKey s g ''state'' k \<noteq> makeKey s g ''meta'' k'" "makeKey s g ''meta'' k' \<noteq> makeKey s g ''state'' k"
  "makeKey s g ''state'' k \<noteq> makeKey s g ''log'' k'" "makeKey s g ''log'' k' \<noteq> makeKey s g ''state'' k"
  "\<not> prefix (group_prefix s g ''log'') (makeKey s g ''meta'' k)"
  "\<not> prefix (group_prefix s g ''log'') (makeKey s g ''state'' k)"
  "\<not> prefix (group_prefix s g ''state'') (makeKey s g ''meta'' k)"
  "\<not> prefix (group_prefix s g ''state'') (makeKey s g ''log'' k)"
  by (simp_all add: makeKey_def group_prefix_def)

lemma own_prefix [simp]: "prefix (group_prefix s g c) (makeKey s g c k)"
  by (simp add: makeKey_prefix)

lemma TrimPrefix_makeKey [simp]: "TrimPrefix (makeKey s g c k) (group_prefix s g c) = k"
  by (simp add: makeKey_prefix)

lemma st_get_SaveLog:
  assumes ok: "leveldb_ok L"
  shows "db s \<noteq> None \<Longrightarrow> st_get L (SaveLog L g e s) k =
     (if k = makeKey s g ''log'' (pad20 (Index e)) then Some (encode_log e) else st_get L s k)"
  by (auto simp: st_get_def SaveLog_def leveldb_okD [OF ok])

lemma st_get_SaveMeta:
  assumes ok: "leveldb_ok L"
  shows "k \<noteq> makeKey s g ''meta'' ''info'' \<Longrightarrow> st_get L (SaveMeta L g t v c a s) k = st_get L s k"
  by (auto simp: st_get_def SaveMeta_def leveldb_okD [OF ok] split: option.split)

lemma st_get_PutState:
  assumes ok: "leveldb_ok L"
  shows "db s \<noteq> None \<Longrightarrow> st_get L (PutState L g key x s) k =
     (if k = makeKey s g ''state'' key then Some x else st_get L s k)"
  by (auto simp: st_get_def PutState_def leveldb_okD [OF ok])

lemma st_get_DeleteState:
  assumes ok: "leveldb_ok L"
  shows "db s \<noteq> None \<Longrightarrow> st_get L (DeleteState L g key s) k =
     (if k = makeKey s g ''state'' key then None else st_get L s k)"
  by (auto simp: st_get_def DeleteState_def leveldb_okD [OF ok])

lemma db_Get_scan:
  assumes ok: "leveldb_ok L"
  shows "db_Get L k (fold (\<lambda>(k, _) d'. if P k then db_Delete L k d' else d') xs d) =
     (if k \<in> fst ` set xs \<and> P k then None else db_Get L k d)"
  by (induction xs arbitrary: d) (auto simp: leveldb_okD [OF ok])

lemma st_get_scan_delete:
  assumes ok: "leveldb_ok L"
  shows "st_get L (scan_delete L p test s) k =
     (if prefix p k \<and> test (TrimPrefix k p) then None else st_get L s k)"
proof (cases "db s")
  case None
  then show ?thesis by (simp add: st_get_def scan_delete_def)
next
  case (Some d)
  have "db_Get L k d = None" if "k \<notin> fst ` set (db_Iter L d)"
    using that leveldb_okD(4) [OF ok, of d k] by (metis map_of_eq_None_iff)
  with Some show ?thesis
    by (auto simp: st_get_def scan_delete_def db_Get_scan [OF ok, where P = "\<lambda>k. prefix p k \<and> test (TrimPrefix k p)"])
qed

lemma Iter_mem:
  assumes ok: "leveldb_ok L"
  shows "(k, v) \<in> set (db_Iter L d) \<longleftrightarrow> db_Get L k d = Some v"
  using leveldb_okD(3,4) [OF ok] by (metis map_of_eq_Some_iff)

section \<open>The log in the database mirrors a log in memory\<close>

text \<open>
  \<open>log_mirror L g log s\<close>: under the log prefix of group \<open>g\<close> the database holds exactly the
  entries of \<open>log\<close>, each under its own index.
\<close>

definition log_mirror :: "'d leveldb \<Rightarrow> string \<Rightarrow> RaftLogEntry list \<Rightarrow> 'd Storage \<Rightarrow> bool" where
  "log_mirror L g es s \<longleftrightarrow> db s \<noteq> None \<and>
     (\<forall>k v. prefix (group_prefix s g ''log'') k \<and> st_get L s k = Some v \<longleftrightarrow>
        (\<exists>e \<in> set es. k = makeKey s g ''log'' (pad20 (Index e)) \<and> v = encode_log e))"

definition small_log :: "RaftLogEntry list \<Rightarrow> bool" where
  "small_log es \<longleftrightarrow> log_wf es \<and> int (length es) < 2 ^ 63 - 1"

lemma small_log_Index: "small_log es \<Longrightarrow> e \<in> set es \<Longrightarrow> in_i64 (Index e) \<and> 1 \<le> Index e"
  by (auto simp: small_log_def in_set_conv_nth log_wf_Index in_i64_def)

lemma log_wf_set_eq: "log_wf es \<Longrightarrow> e \<in> set es \<Longrightarrow> e' \<in> set es \<Longrightarrow> Index e = Index e' \<Longrightarrow> e = e'"
  using log_wf_distinct_Index [of es] by (auto simp: distinct_map inj_on_def)

lemma LoadLogs_mirror:
  assumes ok: "leveldb_ok L" and m: "log_mirror L g es s" and wf: "small_log es"
  shows "LoadLogs L g s = es"
proof -
  from m obtain d where d: "db s = Some d" by (auto simp: log_mirror_def)
  let ?xs = "filter (\<lambda>(k, _). prefix (group_prefix s g ''log'') k) (db_Iter L d)"
  let ?f = "\<lambda>(k :: string, v). decode_log v"
  have set_xs: "(k, v) \<in> set ?xs \<longleftrightarrow>
      (\<exists>e \<in> set es. k = makeKey s g ''log'' (pad20 (Index e)) \<and> v = encode_log e)" for k v
    using m d by (auto simp: Iter_mem [OF ok] log_mirror_def st_get_def)
  have "distinct ?xs"
    using leveldb_okD(3) [OF ok, of d] by (intro distinct_filter) (simp add: distinct_map)
  have "inj_on ?f (set ?xs)"
    by (auto simp: inj_on_def set_xs simp del: set_filter)
  then have "distinct (map ?f ?xs)" using \<open>distinct ?xs\<close> by (simp add: distinct_map del: set_filter)
  moreover have "set (map ?f ?xs) = set es"
  proof (intro equalityI subsetI)
    fix e assume "e \<in> set (map ?f ?xs)"
    then obtain k v where "(k, v) \<in> set ?xs" and "e = decode_log v" by (auto simp del: set_filter)
    then show "e \<in> set es" by (auto simp: set_xs simp del: set_filter)
  next
    fix e assume "e \<in> set es"
    then have "(makeKey s g ''log'' (pad20 (Index e)), encode_log e) \<in> set ?xs"
      by (auto simp: set_xs simp del: set_filter)
    from imageI [OF this, of ?f] show "e \<in> set (map ?f ?xs)" by simp
  qed
  moreover have "distinct es" and inj: "inj_on Index (set es)" and srt: "sorted (map Index es)"
    using wf log_wf_distinct_Index [of es] log_wf_sorted_Index [of es]
    by (auto simp: small_log_def distinct_map)
  ultimately have "mset (map ?f ?xs) = mset es"
    by (subst set_eq_iff_mset_eq_distinct [symmetric]) auto
  then have "sort_key Index (map ?f ?xs) = es"
    using inj srt \<open>set (map ?f ?xs) = set es\<close> by (intro sort_key_inj_key_eq) auto
  then show ?thesis using d by (simp add: LoadLogs_def)
qed

lemma mirror_SaveLog:
  assumes ok: "leveldb_ok L" and m: "log_mirror L g es s" and wf: "small_log (es @ [e])"
  shows "log_mirror L g (es @ [e]) (SaveLog L g e s)"
proof -
  have ne: "pad20 (Index e') \<noteq> pad20 (Index e)" if "e' \<in> set es" for e'
  proof -
    have "Index e \<notin> Index ` set es"
      using log_wf_distinct_Index [of "es @ [e]"] wf unfolding small_log_def by auto
    then have "Index e' \<noteq> Index e" using that by (metis imageI)
    then show ?thesis using small_log_Index [OF wf] that by (simp add: pad20_inject)
  qed
  have db: "db s \<noteq> None" and
    mem: "\<And>k v. prefix (group_prefix s g ''log'') k \<and> st_get L s k = Some v \<longleftrightarrow>
        (\<exists>e \<in> set es. k = makeKey s g ''log'' (pad20 (Index e)) \<and> v = encode_log e)"
    using m by (auto simp: log_mirror_def)
  show ?thesis
    unfolding log_mirror_def storage_keys st_get_SaveLog [OF ok db]
  proof (intro conjI allI)
    show "db (SaveLog L g e s) \<noteq> None" using db by simp
    fix k v
    show "prefix (group_prefix s g ''log'') k \<and>
        (if k = makeKey s g ''log'' (pad20 (Index e)) then Some (encode_log e) else st_get L s k) = Some v \<longleftrightarrow>
      (\<exists>e' \<in> set (es @ [e]). k = makeKey s g ''log'' (pad20 (Index e')) \<and> v = encode_log e')"
    proof (cases "k = makeKey s g ''log'' (pad20 (Index e))")
      case True
      then show ?thesis by (auto dest!: ne)
    next
      case False
      then show ?thesis using mem [of k v] by auto
    qed
  qed
qed

lemma mirror_DeleteLogsFrom:
  assumes ok: "leveldb_ok L" and m: "log_mirror L g es s" and wf: "small_log es" and i: "1 \<le> i"
  shows "log_mirror L g (take (nat (i - 1)) es) (DeleteLogsFrom L g i s)"
proof -
  have db: "db s \<noteq> None" and
    mem: "\<And>k v. prefix (group_prefix s g ''log'') k \<and> st_get L s k = Some v \<longleftrightarrow>
        (\<exists>e \<in> set es. k = makeKey s g ''log'' (pad20 (Index e)) \<and> v = encode_log e)"
    using m by (auto simp: log_mirror_def)
  have wf': "log_wf es" using wf by (simp add: small_log_def)
  have tk: "e \<in> set (take (nat (i - 1)) es) \<longleftrightarrow> e \<in> set es \<and> Index e < i" for e
  proof
    assume "e \<in> set (take (nat (i - 1)) es)"
    then obtain j where "j < length es" "j < nat (i - 1)" "e = es ! j" by (auto simp: in_set_conv_nth)
    then show "e \<in> set es \<and> Index e < i" using log_wf_Index [OF wf'] by auto
  next
    assume a: "e \<in> set es \<and> Index e < i"
    then obtain j where j: "j < length es" "e = es ! j" by (auto simp: in_set_conv_nth)
    then have "j < nat (i - 1)" using a log_wf_Index [OF wf'] by auto
    then show "e \<in> set (take (nat (i - 1)) es)" using j by (auto simp: in_set_conv_nth)
  qed
  have pi: "fst (ParseInt (pad20 (Index e))) = Index e" if "e \<in> set es" for e
    using small_log_Index [OF wf that] by (simp add: ParseInt_pad20)
  show ?thesis
    unfolding log_mirror_def DeleteLogsFrom_def storage_keys st_get_scan_delete [OF ok]
  proof (intro conjI allI)
    show "db (scan_delete L (group_prefix s g ''log'') (\<lambda>k. i \<le> fst (ParseInt k)) s) \<noteq> None"
      using db by simp
    fix k v
    show "prefix (group_prefix s g ''log'') k \<and>
       (if prefix (group_prefix s g ''log'') k \<and>
           i \<le> fst (ParseInt (TrimPrefix k (group_prefix s g ''log''))) then None
        else st_get L s k) = Some v \<longleftrightarrow>
      (\<exists>e \<in> set (take (nat (i - 1)) es). k = makeKey s g ''log'' (pad20 (Index e)) \<and> v = encode_log e)"
      (is "?lhs \<longleftrightarrow> ?rhs")
    proof
      assume lhs: ?lhs
      then obtain e where e: "e \<in> set es" "k = makeKey s g ''log'' (pad20 (Index e))" "v = encode_log e"
        using mem [of k v] by (auto split: if_splits)
      with lhs have "Index e < i" by (auto simp: pi split: if_splits)
      with e show ?rhs by (auto simp: tk)
    next
      assume ?rhs
      then obtain e where e: "e \<in> set es" "Index e < i" "k = makeKey s g ''log'' (pad20 (Index e))"
        "v = encode_log e" by (auto simp: tk)
      then show ?lhs using mem [of k v] by (auto simp: pi)
    qed
  qed
qed

lemma mirror_frame:
  assumes ok: "leveldb_ok L" and m: "log_mirror L g es s"
    and "NodeId s' = NodeId s" and "db s' \<noteq> None"
    and "\<And>k. prefix (group_prefix s g ''log'') k \<Longrightarrow> st_get L s' k = st_get L s k"
  shows "log_mirror L g es s'"
proof -
  have "group_prefix s' = group_prefix s" "makeKey s' = makeKey s"
    by (rule group_prefix_node [OF assms(3)], rule makeKey_node [OF assms(3)])
  moreover have "prefix (group_prefix s g ''log'') k \<and> st_get L s' k = Some v \<longleftrightarrow>
      prefix (group_prefix s g ''log'') k \<and> st_get L s k = Some v" for k v
    by (cases "prefix (group_prefix s g ''log'') k") (simp_all add: assms(5))
  ultimately show ?thesis using m assms(4) by (simp add: log_mirror_def del: not_None_eq)
qed

lemma mirror_other [storage_frame]:
  assumes ok: "leveldb_ok L" and m: "log_mirror L g es s"
  shows "log_mirror L g es (SaveMeta L g t v c a s)"
    and "log_mirror L g es (PutState L g key x s)"
    and "log_mirror L g es (DeleteState L g key s)"
proof -
  have db: "db s \<noteq> None" using m by (simp add: log_mirror_def)
  have "k \<noteq> makeKey s g ''meta'' ''info''" "k \<noteq> makeKey s g ''state'' key"
    if "prefix (group_prefix s g ''log'') k" for k using that by auto
  then show "log_mirror L g es (SaveMeta L g t v c a s)"
    and "log_mirror L g es (PutState L g key x s)"
    and "log_mirror L g es (DeleteState L g key s)"
    using db by (auto intro!: mirror_frame [OF ok m]
      simp: st_get_SaveMeta [OF ok] st_get_PutState [OF ok] st_get_DeleteState [OF ok]
      simp del: not_None_eq)
qed

section \<open>Metadata and state\<close>

lemma LoadMeta_SaveMeta:
  assumes ok: "leveldb_ok L" and "db s \<noteq> None"
  shows "LoadMeta L g (SaveMeta L g t v c a s) =
     Some (float_i64 t, v, float_i64 c, float_i64 a, False)"
proof -
  from assms(2) obtain d where "db s = Some d" by auto
  then show ?thesis
    by (simp add: LoadMeta_def SaveMeta_def makeKey_def leveldb_okD [OF ok] jfield_def assert_num_def
        assert_str_def)
qed

lemma LoadMeta_frame:
  assumes "st_get L s' (makeKey s g ''meta'' ''info'') = st_get L s (makeKey s g ''meta'' ''info'')"
    and "NodeId s' = NodeId s" and "db s' = None \<longleftrightarrow> db s = None"
  shows "LoadMeta L g s' = LoadMeta L g s"
  using assms makeKey_node [OF assms(2)]
  by (auto simp: LoadMeta_def st_get_def split: option.split)

lemma GetState_PutState:
  "leveldb_ok L \<Longrightarrow> db s \<noteq> None \<Longrightarrow>
     GetState L g k' (PutState L g k v s) = (if k' = k then Some v else GetState L g k' s)"
  by (auto simp: GetState_def PutState_def makeKey_def leveldb_okD)

lemma GetState_DeleteState:
  "leveldb_ok L \<Longrightarrow> db s \<noteq> None \<Longrightarrow>
     GetState L g k' (DeleteState L g k s) = (if k' = k then None else GetState L g k' s)"
  by (auto simp: GetState_def DeleteState_def makeKey_def leveldb_okD)

text \<open>The state of a group is a provider of the key-value contract.\<close>

interpretation rst: kv_store "\<lambda>s. leveldb_ok L \<and> db s \<noteq> None" "\<lambda>s k. GetState L g k s"
  "\<lambda>k v s. Some (PutState L g k v s)" "\<lambda>k s. Some (DeleteState L g k s)" "\<lambda>k s. GetState L g k s"
  for L :: "'d leveldb" and g
  by unfold_locales (auto simp: fun_eq_iff GetState_PutState GetState_DeleteState)

section \<open>Snapshots\<close>

lemma map_of_trimmed:
  assumes "distinct (map fst xs)"
  shows "map_of (map (\<lambda>(k, v). (TrimPrefix k p, v)) (filter (\<lambda>(k, _). prefix p k) xs)) key =
    map_of xs (p @ key)"
  using assms
proof (induction xs)
  case Nil
  then show ?case by simp
next
  case (Cons x xs)
  obtain k v where x: "x = (k, v)" by fastforce
  show ?case
  proof (cases "prefix p k")
    case True
    then obtain r where "k = p @ r" by (auto elim: prefixE)
    with Cons x show ?thesis by auto
  next
    case False
    then have "k \<noteq> p @ key" by auto
    with False Cons x show ?thesis by simp
  qed
qed

lemma GetFullState_lookup:
  assumes "leveldb_ok L" and "GetFullState L g s = Some st"
  shows "map_of st key = GetState L g key s"
proof (cases "db s")
  case None
  with assms(2) show ?thesis by (simp add: GetFullState_def)
next
  case (Some d)
  then have "map_of st key = map_of (db_Iter L d) (group_prefix s g ''state'' @ key)"
    using assms(2) map_of_trimmed [OF leveldb_okD(3) [OF assms(1)], of "group_prefix s g ''state''" d key]
    by (auto simp: GetFullState_def)
  with Some show ?thesis
    by (simp add: GetState_def makeKey_prefix leveldb_okD(4) [OF assms(1)])
qed

lemma GetState_st_get: "GetState L g k s = st_get L s (makeKey s g ''state'' k)"
  by (simp add: GetState_def st_get_def)

lemma GetState_fold_PutState:
  assumes "leveldb_ok L"
  shows "db s \<noteq> None \<Longrightarrow> distinct (map fst st) \<Longrightarrow>
    GetState L g k (fold (\<lambda>(k, v). PutState L g k v) st s) =
      (case map_of st k of Some v \<Rightarrow> Some v | None \<Rightarrow> GetState L g k s)"
proof (induction st arbitrary: s)
  case Nil
  then show ?case by simp
next
  case (Cons x st)
  obtain k' v' where x: "x = (k', v')" by fastforce
  have "map_of st k' = None" using Cons.prems(2) x by (auto simp: map_of_eq_None_iff)
  then show ?case
    using Cons.IH [of "PutState L g k' v' s"] Cons.prems x
    by (auto simp: GetState_PutState [OF assms] split: option.split)
qed

lemma fold_PutState_open:
  "db (fold (\<lambda>(k, v). PutState L g k v) st s) = None \<longleftrightarrow> db s = None"
  by (induction st arbitrary: s) (auto simp: split_beta)

lemma SetFullState_GetState:
  assumes "leveldb_ok L" and "db s \<noteq> None" and "distinct (map fst st)"
  shows "GetState L g k (SetFullState L g st s) = map_of st k"
proof -
  have "GetState L g k (clearState L g s) = None"
    by (simp add: GetState_st_get) (simp add: clearState_def st_get_scan_delete [OF assms(1)])
  moreover have "SetFullState L g st s = fold (\<lambda>(k, v). PutState L g k v) st (clearState L g s)"
    using assms(2) by (auto simp: SetFullState_def)
  moreover have "db (clearState L g s) \<noteq> None" using assms(2) by simp
  ultimately show ?thesis
    using GetState_fold_PutState [OF assms(1) _ assms(3), of "clearState L g s" g k]
    by (simp split: option.split)
qed

section \<open>Properties\<close>

text \<open>
  C26: Storing log entries and truncating the stored log: when the database mirrors an in-memory log,
  appending the next entry with \<open>SaveLog\<close> or cutting the log with \<open>DeleteLogsFrom\<close> makes the
  next \<open>LoadLogs\<close> return exactly the new log, in index order.
\<close>

theorem stored_log_roundtrip:
  assumes "leveldb_ok L" and "log_mirror L g es s" and "small_log (es @ [e])" and "1 \<le> i"
  shows "LoadLogs L g (SaveLog L g e s) = es @ [e] \<and>
     LoadLogs L g (DeleteLogsFrom L g i (SaveLog L g e s)) = take (nat (i - 1)) (es @ [e])"
proof -
  have m: "log_mirror L g (es @ [e]) (SaveLog L g e s)"
    by (rule mirror_SaveLog [OF assms(1-3)])
  have m2: "log_mirror L g (take (nat (i - 1)) (es @ [e])) (DeleteLogsFrom L g i (SaveLog L g e s))"
    by (rule mirror_DeleteLogsFrom [OF assms(1) m assms(3,4)])
  have "small_log (take (nat (i - 1)) (es @ [e]))"
    using assms(3) unfolding small_log_def by (auto intro: log_wf_take simp del: take_append)
  from LoadLogs_mirror [OF assms(1) m assms(3)] LoadLogs_mirror [OF assms(1) m2 this]
  show ?thesis by simp
qed

lemma empty_mirror: "log_mirror alist_db g [] \<lparr>db = Some [], NodeId = n\<rparr>"
  by (simp add: log_mirror_def st_get_def alist_db_def)

theorem stored_log_roundtrip_witness:
  "LoadLogs alist_db ''g'' (DeleteLogsFrom alist_db ''g'' 1 (SaveLog alist_db ''g''
     (zero_entry\<lparr>Index := 1, Term := 3\<rparr>) \<lparr>db = Some [], NodeId = ''n''\<rparr>)) = []"
  using stored_log_roundtrip [OF alist_db_ok empty_mirror, of "zero_entry\<lparr>Index := 1, Term := 3\<rparr>" 1 "''g''" "''n''"]
  by (simp add: small_log_def log_wf_def)

text \<open>
  Groups do not see each other's keys as long as neither node nor group names contain a colon: a
  key of one (node, group, category) has the scan prefix of another only if the three agree.
\<close>

theorem scan_prefix_isolated:
  assumes "prefix (group_prefix s g c) (makeKey s' g' c' k)"
    and "plain_name (NodeId s)" and "plain_name (NodeId s')"
    and "plain_name g" and "plain_name g'" and "plain_name c" and "plain_name c'"
  shows "NodeId s = NodeId s' \<and> g = g' \<and> c = c'"
  using assms by (rule group_prefix_plain)

theorem scan_prefix_isolated_witness:
  "NodeId \<lparr>db = Some (), NodeId = ''n1''\<rparr> = ''n1'' \<and>
     prefix (group_prefix \<lparr>db = Some (), NodeId = ''n1''\<rparr> ''g'' ''log'')
       (makeKey \<lparr>db = Some (), NodeId = ''n1''\<rparr> ''g'' ''log'' ''7'')"
proof -
  let ?s = "\<lparr>db = Some (), NodeId = ''n1''\<rparr>"
  have p: "prefix (group_prefix ?s ''g'' ''log'') (makeKey ?s ''g'' ''log'' ''7'')" by simp
  from scan_prefix_isolated [OF p] p show ?thesis by (simp add: plain_name_def)
qed

text \<open>
  With a colon in a group name the isolation fails: a log entry of group \<open>g:log:x\<close> is
  stored under a key that the scan for the log of group \<open>g\<close> picks up, so it is loaded as an
  entry of the other group.
\<close>

theorem colon_in_group_name_leaks:
  "LoadLogs alist_db ''g'' (SaveLog alist_db ''g:log:x'' (zero_entry\<lparr>Index := 1, Term := 9\<rparr>)
     \<lparr>db = Some [], NodeId = ''n''\<rparr>) = [zero_entry\<lparr>Index := 1, Term := 9\<rparr>]"
  by (simp add: LoadLogs_def SaveLog_def alist_db_def group_prefix_def makeKey_def pad20_def Let_def
      nat_dec.simps dec_digit_def)

text \<open>
  A state snapshot taken from one database and installed in another reproduces every key of the
  state machine, and removes the keys the snapshot does not have.
\<close>

theorem snapshot_transfer:
  assumes "leveldb_ok L" and "GetFullState L g s = Some st" and "distinct (map fst st)"
    and "leveldb_ok L'" and "db s' \<noteq> None"
  shows "GetState L' g k (SetFullState L' g st s') = GetState L g k s"
  using SetFullState_GetState [OF assms(4,5,3)] GetFullState_lookup [OF assms(1,2)] by simp

definition snap_src :: "(string \<times> goval) list Storage" where
  "snap_src = PutState alist_db ''g'' ''k'' (GNum 5) \<lparr>db = Some [], NodeId = ''a''\<rparr>"

definition snap_dst :: "(string \<times> goval) list Storage" where
  "snap_dst = PutState alist_db ''g'' ''old'' (GNum 1) \<lparr>db = Some [], NodeId = ''b''\<rparr>"

theorem snapshot_transfer_witness:
  "GetState alist_db ''g'' ''k'' (SetFullState alist_db ''g'' [(''k'', GNum 5)] snap_dst) = Some (GNum 5) \<and>
   GetState alist_db ''g'' ''old'' (SetFullState alist_db ''g'' [(''k'', GNum 5)] snap_dst) = None"
proof -
  have src: "GetFullState alist_db ''g'' snap_src = Some [(''k'', GNum 5)]"
    by (simp add: snap_src_def GetFullState_def PutState_def alist_db_def makeKey_def group_prefix_def
        TrimPrefix_def)
  have dst: "db snap_dst \<noteq> None" by (simp add: snap_dst_def)
  have st: "GetState alist_db ''g'' ''k'' snap_src = Some (GNum 5)"
    "GetState alist_db ''g'' ''old'' snap_src = None"
    by (simp_all add: snap_src_def GetState_def PutState_def alist_db_def makeKey_def)
  show ?thesis
    using snapshot_transfer [OF alist_db_ok src _ alist_db_ok dst] st by simp
qed

text \<open>
  Metadata survive a restart exactly while every number is at most 2^53 in absolute value,
  since they are decoded as floating point numbers.
\<close>

theorem meta_roundtrip:
  assumes "leveldb_ok L" and "db s \<noteq> None"
    and "\<bar>t\<bar> \<le> 2 ^ 53" and "\<bar>c\<bar> \<le> 2 ^ 53" and "\<bar>a\<bar> \<le> 2 ^ 53"
  shows "LoadMeta L g (SaveMeta L g t v c a s) = Some (t, v, c, a, False)"
  using assms by (simp add: LoadMeta_SaveMeta)

theorem meta_roundtrip_witness:
  "LoadMeta alist_db ''g'' (SaveMeta alist_db ''g'' 3 ''n2'' 7 6 \<lparr>db = Some [], NodeId = ''n''\<rparr>) =
     Some (3, ''n2'', 7, 6, False)"
  by (rule meta_roundtrip [OF alist_db_ok]) simp_all

text \<open>
  Above 2^53 the stored term is not the term that comes back: a restart after term 2^53 + 1
  restores term 2^53, an older term.
\<close>

theorem meta_term_loses_precision:
  "LoadMeta alist_db ''g'' (SaveMeta alist_db ''g'' (2 ^ 53 + 1) ''n2'' 0 0 \<lparr>db = Some [], NodeId = ''n''\<rparr>) =
     Some (2 ^ 53, ''n2'', 0, 0, False)"
proof -
  have "bitlen 9007199254740993 = 54" by (simp add: bitlen.simps)
  then have "float_i64 9007199254740993 = 9007199254740992"
    by (simp add: float_i64_def round53_def Let_def)
  then show ?thesis by (simp add: LoadMeta_SaveMeta [OF alist_db_ok])
qed

end
