(* ===== verification/Raft_Core.thy ===== *)
theory Raft_Core
  imports Raft_Storage
begin

text \<open>
  core/Raft.go: the state of one Raft node of one group (\<open>RaftCore\<close>) and every operation on it.

  An operation that holds \<open>rc.Mutex\<close> throughout is one function from the state to the new state and
  the list of its outputs; \<open>None\<close> is a run-time panic. What the code starts with \<open>go\<close> is an output
  (\<open>Spawn...\<close>), whose body is a separate operation, so any interleaving of them is a sequence of
  calls. The clock \<open>now\<close> (milliseconds) and the random part \<open>r\<close> of the election timeout are
  arguments, and so is \<open>pick\<close>, the random choice of \<open>quickSelect\<close>.
\<close>

section \<open>State, messages and outputs\<close>

record 'd RaftCore =
  ID :: string
  rcGroup :: string
  Role :: RaftRole
  CurrentTerm :: int
  VotedFor :: string
  Log :: "RaftLogEntry list"
  CommitIndex :: int
  LastApplied :: int
  NextIndex :: "string \<rightharpoonup> int"
  MatchIndex :: "string \<rightharpoonup> int"
  voteResult :: "(string \<times> bool) list"
  electionTimeout :: int
  heartbeatTimeout :: int
  LeaderHint :: string
  Peers :: "string list"
  store :: "'d Storage"
  invokeCounter :: int
  pending :: "int list"
  Learners :: "string list"

record ClientForwardPayload =
  fwType :: RaftMsgType
  fwCmd :: RaftCommand
  fwForwarded :: bool
  fwOriginId :: string

text \<open>The content of a Raft message: one of the two structs that are marshalled.\<close>

datatype raft_content = CPayload RaftPayload | CForward ClientForwardPayload

datatype raft_out =
    Send string RaftPayload                  \<comment> \<open>\<open>sendToTarget\<close>\<close>
  | SendForward string ClientForwardPayload  \<comment> \<open>\<open>forwardToLeader\<close>\<close>
  | SpawnInvoke string RaftPayload           \<comment> \<open>\<open>go sendWithInvokeId\<close>\<close>
  | SpawnAppend string                       \<comment> \<open>\<open>go sendAppendEntriesTo\<close>\<close>
  | SpawnHeartbeat string int int            \<comment> \<open>\<open>go sendHeartbeat\<close>\<close>
  | SpawnBroadcast                           \<comment> \<open>\<open>go broadcastHeartbeat\<close>\<close>
  | SpawnElection                            \<comment> \<open>\<open>go startElection\<close>\<close>
  | Applied RaftLogEntry                     \<comment> \<open>\<open>ApplyCallback\<close>\<close>

definition map_get :: "(string \<rightharpoonup> int) \<Rightarrow> string \<Rightarrow> int" where
  "map_get m k = (case m k of None \<Rightarrow> 0 | Some v \<Rightarrow> v)"

section \<open>Timers\<close>

definition ELECTION_TIMEOUT_MIN :: int where "ELECTION_TIMEOUT_MIN = 2000"
definition ELECTION_TIMEOUT_MAX :: int where "ELECTION_TIMEOUT_MAX = 3000"
definition HEARTBEAT_INTERVAL :: int where "HEARTBEAT_INTERVAL = 200"

text \<open>\<open>randInt(min, max)\<close> from the nanosecond clock; Go's \<open>%\<close> truncates.\<close>

definition randInt :: "int \<Rightarrow> int \<Rightarrow> int \<Rightarrow> int" where
  "randInt nano lo hi = lo + sgn nano * (\<bar>nano\<bar> mod (hi - lo + 1))"

definition resetElectionTimer :: "int \<Rightarrow> int \<Rightarrow> 'd RaftCore \<Rightarrow> 'd RaftCore" where
  "resetElectionTimer now r rc = rc\<lparr>electionTimeout := i64 (now + (ELECTION_TIMEOUT_MIN +
     randInt r 0 (ELECTION_TIMEOUT_MAX - ELECTION_TIMEOUT_MIN)))\<rparr>"

definition resetHeartbeatTimer :: "int \<Rightarrow> 'd RaftCore \<Rightarrow> 'd RaftCore" where
  "resetHeartbeatTimer now rc = rc\<lparr>heartbeatTimeout := i64 (now + HEARTBEAT_INTERVAL)\<rparr>"

definition disableElectionTimer :: "'d RaftCore \<Rightarrow> 'd RaftCore" where
  "disableElectionTimer rc = rc\<lparr>electionTimeout := MaxInt64\<rparr>"

definition processTimers :: "int \<Rightarrow> 'd RaftCore \<Rightarrow> 'd RaftCore \<times> raft_out list" where
  "processTimers now rc =
     (let o1 = (if Role rc \<noteq> Leader \<and> electionTimeout rc \<le> now then [SpawnElection] else []) in
      if Role rc = Leader \<and> heartbeatTimeout rc \<le> now
      then (resetHeartbeatTimer now rc, o1 @ [SpawnBroadcast]) else (rc, o1))"

section \<open>Persistence, log queries\<close>

definition persistTermAndVote :: "'d leveldb \<Rightarrow> 'd RaftCore \<Rightarrow> 'd RaftCore" where
  "persistTermAndVote L rc = rc\<lparr>store := SaveMeta L (rcGroup rc) (CurrentTerm rc) (VotedFor rc)
     (CommitIndex rc) (LastApplied rc) (store rc)\<rparr>"

definition persistLog :: "'d leveldb \<Rightarrow> 'd RaftCore \<Rightarrow> 'd RaftCore" where
  "persistLog L rc = (if Log rc = [] then rc
     else rc\<lparr>store := SaveLog L (rcGroup rc) (last (Log rc)) (store rc)\<rparr>)"

definition lastLog :: "RaftLogEntry list \<Rightarrow> int \<times> int" where
  "lastLog es = (if es = [] then (0, 0) else (Index (last es), Term (last es)))"

definition getLastLogIndex :: "'d RaftCore \<Rightarrow> int \<times> int" where
  "getLastLogIndex rc = lastLog (Log rc)"

definition isUpToDate :: "int \<Rightarrow> int \<Rightarrow> 'd RaftCore \<Rightarrow> bool" where
  "isUpToDate lastLogIndex lastLogTerm rc =
     (let (myLastIndex, myLastTerm) = getLastLogIndex rc in
      if myLastTerm < lastLogTerm then True
      else if lastLogTerm = myLastTerm \<and> myLastIndex \<le> lastLogIndex then True
      else False)"

definition checkLogMatch :: "int \<Rightarrow> int \<Rightarrow> 'd RaftCore \<Rightarrow> bool" where
  "checkLogMatch prevLogIndex prevLogTerm rc =
     (if prevLogIndex = 0 then True
      else if prevLogIndex < 0 \<or> int (length (Log rc)) < prevLogIndex then False
      else Term (Log rc ! nat (prevLogIndex - 1)) = prevLogTerm)"

text \<open>The loop of \<open>findLastIndexOfTerm\<close> runs from the end of the log.\<close>

fun lastIndexOfTerm :: "int \<Rightarrow> RaftLogEntry list \<Rightarrow> int" where
  "lastIndexOfTerm t [] = 0"
| "lastIndexOfTerm t (e # es) = (if Term e = t then Index e else lastIndexOfTerm t es)"

definition findLastIndexOfTerm :: "int \<Rightarrow> 'd RaftCore \<Rightarrow> int" where
  "findLastIndexOfTerm t rc = lastIndexOfTerm t (rev (Log rc))"

section \<open>Role changes\<close>

definition switchToFollower :: "'d leveldb \<Rightarrow> int \<Rightarrow> int \<Rightarrow> int \<Rightarrow> 'd RaftCore \<Rightarrow> 'd RaftCore" where
  "switchToFollower L now r t rc = resetElectionTimer now r
     (persistTermAndVote L (rc\<lparr>CurrentTerm := t, Role := Follower, VotedFor := []\<rparr>))"

definition switchToCandidate :: "'d leveldb \<Rightarrow> int \<Rightarrow> int \<Rightarrow> 'd RaftCore \<Rightarrow> 'd RaftCore" where
  "switchToCandidate L now r rc = resetElectionTimer now r
     ((persistTermAndVote L (rc\<lparr>Role := Candidate, CurrentTerm := i64 (CurrentTerm rc + 1),
        VotedFor := ID rc\<rparr>))\<lparr>LeaderHint := []\<rparr>)"

text \<open>Setting the replication progress of the given nodes, this node excepted.\<close>

definition initProgress :: "string list \<Rightarrow> int \<Rightarrow> 'd RaftCore \<Rightarrow> 'd RaftCore" where
  "initProgress ns lastIndex rc = fold (\<lambda>n rc. if n = ID rc then rc
     else rc\<lparr>NextIndex := (NextIndex rc)(n \<mapsto> i64 (lastIndex + 1)),
             MatchIndex := (MatchIndex rc)(n \<mapsto> 0)\<rparr>) ns rc"

definition switchToLeader :: "int \<Rightarrow> 'd RaftCore \<Rightarrow> 'd RaftCore \<times> raft_out list" where
  "switchToLeader now rc =
     (let rc1 = resetHeartbeatTimer now (disableElectionTimer (rc\<lparr>Role := Leader\<rparr>));
          (lastIndex, _) = getLastLogIndex rc1;
          rc2 = initProgress (Peers rc1) lastIndex rc1;
          rc3 = initProgress (Learners rc2) lastIndex rc2
      in (rc3, [SpawnBroadcast]))"

section \<open>Elections\<close>

definition resetVoteResult :: "'d RaftCore \<Rightarrow> 'd RaftCore" where
  "resetVoteResult rc = rc\<lparr>voteResult := [(ID rc, True)]\<rparr>"

definition recordVote :: "string \<Rightarrow> bool \<Rightarrow> 'd RaftCore \<Rightarrow> 'd RaftCore" where
  "recordVote voter granted rc = rc\<lparr>voteResult := AList.update voter granted (voteResult rc)\<rparr>"

definition hasMajorityVotes :: "'d RaftCore \<Rightarrow> bool" where
  "hasMajorityVotes rc =
     (length (Peers rc) div 2 + 1 \<le> length (filter snd (voteResult rc)))"

text \<open>
  \<open>startElection\<close> has three separately locked regions; between them other handlers can run.
\<close>

definition startElection_check :: "'d RaftCore \<Rightarrow> bool" where
  "startElection_check rc = (Role rc \<noteq> Leader)"

definition startElection_switch ::
  "'d leveldb \<Rightarrow> int \<Rightarrow> int \<Rightarrow> 'd RaftCore \<Rightarrow> 'd RaftCore \<times> raft_out list" where
  "startElection_switch L now r rc =
     (let rc1 = switchToCandidate L now r rc;
          (lastLogIndex, lastLogTerm) = getLastLogIndex rc1;
          payload = zero_payload\<lparr>pType := RequestVote, pTerm := CurrentTerm rc1, pCandidateId := ID rc1,
            pPrevLogIndex := lastLogIndex, pPrevLogTerm := lastLogTerm, pGroup := rcGroup rc1\<rparr>
      in (rc1, map (\<lambda>peer. SpawnInvoke peer payload) (filter (\<lambda>peer. peer \<noteq> ID rc1) (Peers rc1))))"

text \<open>The three regions run one after the other with nothing in between.\<close>

definition startElection ::
  "'d leveldb \<Rightarrow> int \<Rightarrow> int \<Rightarrow> 'd RaftCore \<Rightarrow> 'd RaftCore \<times> raft_out list" where
  "startElection L now r rc =
     (if startElection_check rc then startElection_switch L now r (resetVoteResult rc) else (rc, []))"

definition handleRequestVote ::
  "'d leveldb \<Rightarrow> int \<Rightarrow> int \<Rightarrow> RaftPayload \<Rightarrow> 'd RaftCore \<Rightarrow> 'd RaftCore \<times> raft_out list" where
  "handleRequestVote L now r p rc =
     (let (rc2, granted) =
        (if pTerm p < CurrentTerm rc then (rc, False)
         else
           let rc1 = (if CurrentTerm rc < pTerm p
                      then persistTermAndVote L
                        (rc\<lparr>CurrentTerm := pTerm p, VotedFor := [], Role := Follower\<rparr>)
                      else rc)
           in if (VotedFor rc1 = [] \<or> VotedFor rc1 = pCandidateId p) \<and>
                 isUpToDate (pPrevLogIndex p) (pPrevLogTerm p) rc1
              then (resetElectionTimer now r
                     (persistTermAndVote L (rc1\<lparr>VotedFor := pCandidateId p\<rparr>)), True)
              else (rc1, False))
      in (rc2, [Send (pCandidateId p) (zero_payload\<lparr>pType := RequestVoteResponse,
            pTerm := CurrentTerm rc2, pVoteGranted := granted, pCandidateId := pCandidateId p,
            pSenderId := ID rc2, pGroup := pGroup p, pInvokeId := pInvokeId p\<rparr>)]))"

definition resolvePending :: "int \<Rightarrow> 'd RaftCore \<Rightarrow> 'd RaftCore" where
  "resolvePending i rc = (if i \<in> set (pending rc) then rc\<lparr>pending := removeAll i (pending rc)\<rparr> else rc)"

definition handleRequestVoteResponse ::
  "'d leveldb \<Rightarrow> int \<Rightarrow> int \<Rightarrow> RaftPayload \<Rightarrow> 'd RaftCore \<Rightarrow> 'd RaftCore \<times> raft_out list" where
  "handleRequestVoteResponse L now r p rc0 =
     (let rc = resolvePending (pInvokeId p) rc0 in
      if pTerm p < CurrentTerm rc then (rc, [])
      else if CurrentTerm rc < pTerm p then
        (resetElectionTimer now r (persistTermAndVote L
           (rc\<lparr>CurrentTerm := pTerm p, VotedFor := [], Role := Follower\<rparr>)), [])
      else
        let rc1 = recordVote (pSenderId p) (pVoteGranted p) rc in
        if Role rc1 = Candidate \<and> hasMajorityVotes rc1 then
          let (rc2, o2) = switchToLeader now rc1;
              (lastIndex, _) = getLastLogIndex rc2
          in (initProgress (Peers rc2) lastIndex rc2, o2)
        else (rc1, []))"

section \<open>Applying committed entries\<close>

definition apply_command :: "'d leveldb \<Rightarrow> RaftCommand \<Rightarrow> 'd RaftCore \<Rightarrow> 'd RaftCore" where
  "apply_command L cmd rc =
     (if Op cmd = op_put then
        rc\<lparr>store := PutState L (rcGroup rc) (cKey cmd) (cValue cmd) (store rc)\<rparr>
      else if Op cmd = op_delOp then
        rc\<lparr>store := DeleteState L (rcGroup rc) (cKey cmd) (store rc)\<rparr>
      else if Op cmd = op_addLearner then
        rc\<lparr>Learners := List.insert (cKey cmd) (Learners rc),
           NextIndex := (NextIndex rc)(cKey cmd \<mapsto> i64 (CommitIndex rc + 1)),
           MatchIndex := (MatchIndex rc)(cKey cmd \<mapsto> 0)\<rparr>
      else if Op cmd = op_addLearnerWithSnapshot then
        rc\<lparr>Learners := List.insert (cKey cmd) (Learners rc),
           NextIndex := (NextIndex rc)(cKey cmd \<mapsto> i64 (SnapshotIndex cmd + 1)),
           MatchIndex := (MatchIndex rc)(cKey cmd \<mapsto> SnapshotIndex cmd)\<rparr>
      else if Op cmd = op_removeLearner then
        rc\<lparr>Learners := removeAll (cKey cmd) (Learners rc),
           NextIndex := (NextIndex rc)(cKey cmd := None),
           MatchIndex := (MatchIndex rc)(cKey cmd := None)\<rparr>
      else rc)"

lemma apply_command_frame [simp]:
  "LastApplied (apply_command L cmd rc) = LastApplied rc"
  "CommitIndex (apply_command L cmd rc) = CommitIndex rc"
  "Log (apply_command L cmd rc) = Log rc" "CurrentTerm (apply_command L cmd rc) = CurrentTerm rc"
  "VotedFor (apply_command L cmd rc) = VotedFor rc" "Role (apply_command L cmd rc) = Role rc"
  "ID (apply_command L cmd rc) = ID rc" "Peers (apply_command L cmd rc) = Peers rc"
  "rcGroup (apply_command L cmd rc) = rcGroup rc" "voteResult (apply_command L cmd rc) = voteResult rc"
  by (simp_all add: apply_command_def)

text \<open>
  One round of the loop: the increment cannot overflow, since \<open>LastApplied < CommitIndex\<close>.
\<close>

definition apply_next :: "'d leveldb \<Rightarrow> 'd RaftCore \<Rightarrow> ('d RaftCore \<times> RaftLogEntry) option" where
  "apply_next L rc = do {
     entry \<leftarrow> go_nth (Log rc) (LastApplied rc);
     let rc1 = apply_command L (Command entry) (rc\<lparr>LastApplied := LastApplied rc + 1\<rparr>);
     Some (persistTermAndVote L rc1, entry) }"

lemma apply_next_frame:
  assumes "apply_next L rc = Some (rc', e)"
  shows "LastApplied rc' = LastApplied rc + 1" "CommitIndex rc' = CommitIndex rc" "Log rc' = Log rc"
    "CurrentTerm rc' = CurrentTerm rc" "VotedFor rc' = VotedFor rc" "Role rc' = Role rc"
    "ID rc' = ID rc" "Peers rc' = Peers rc" "rcGroup rc' = rcGroup rc" "voteResult rc' = voteResult rc"
  using assms by (auto simp: apply_next_def persistTermAndVote_def Let_def split: bind_splits)

function applyLogToStateMachine ::
  "'d leveldb \<Rightarrow> 'd RaftCore \<Rightarrow> ('d RaftCore \<times> raft_out list) option" where
  "applyLogToStateMachine L rc =
     (if LastApplied rc < CommitIndex rc then
        (case apply_next L rc of
           None \<Rightarrow> None
         | Some (rc1, entry) \<Rightarrow>
             map_option (apsnd ((#) (Applied entry))) (applyLogToStateMachine L rc1))
      else Some (rc, []))"
  by pat_completeness auto
termination
proof (relation "measure (\<lambda>(L, rc). nat (CommitIndex rc - LastApplied rc))")
  fix L :: "'d leveldb" and rc x rc1 and entry :: RaftLogEntry
  assume "LastApplied rc < CommitIndex rc" and "apply_next L rc = Some x" and "(rc1, entry) = x"
  then show "((L, rc1), L, rc) \<in> measure (\<lambda>(L, rc). nat (CommitIndex rc - LastApplied rc))"
    using apply_next_frame(1,2) [of L rc rc1 entry] by simp
qed simp

declare applyLogToStateMachine.simps [simp del]

end
