(* ===== verification/Raft_Replication.thy ===== *)
theory Raft_Replication
  imports Raft_Core
begin

text \<open>
  core/Raft.go, log replication: the AppendEntries handler and its reply, the leader's bookkeeping,
  the commit rule with \<open>quickSelect\<close>, and client requests.
\<close>

section \<open>AppendEntries at a follower\<close>

definition replyAppendEntries ::
  "string \<Rightarrow> bool \<Rightarrow> int \<Rightarrow> int \<Rightarrow> int \<Rightarrow> 'd RaftCore \<Rightarrow> raft_out" where
  "replyAppendEntries leaderId success conflictTerm conflictIndex invokeId rc =
     Send leaderId (zero_payload\<lparr>pType := AppendEntriesResponse, pTerm := CurrentTerm rc,
       pSuccess := success, pLeaderId := leaderId, pConflictTerm := conflictTerm,
       pConflictIndex := conflictIndex, pCommitIndex := fst (getLastLogIndex rc),
       pInvokeId := invokeId, pGroup := rcGroup rc\<rparr>)"

text \<open>
  The loop that walks back to the first entry of the conflicting term. It is entered with an index
  whose entry exists, so the reads below it are in range.
\<close>

fun conflict_start :: "RaftLogEntry list \<Rightarrow> int \<Rightarrow> nat \<Rightarrow> nat" where
  "conflict_start es t (Suc (Suc n)) =
     (if Term (es ! n) = t then conflict_start es t (Suc n) else Suc (Suc n))"
| "conflict_start es t n = n"

text \<open>One round of the append loop: the in-memory log, and the log with the database.\<close>

definition log_cut :: "RaftLogEntry \<Rightarrow> RaftLogEntry list \<Rightarrow> RaftLogEntry list option" where
  "log_cut entry es =
     (let logIdx = i64 (Index entry - 1) in
      if logIdx < int (length es) then do {
        x \<leftarrow> go_nth es logIdx;
        if Term x \<noteq> Term entry then go_take es logIdx else Some es }
      else Some es)"

definition core_append ::
  "'d leveldb \<Rightarrow> string \<Rightarrow> RaftLogEntry \<Rightarrow> RaftLogEntry list \<times> 'd Storage \<Rightarrow>
     (RaftLogEntry list \<times> 'd Storage) option" where
  "core_append L g entry = (\<lambda>(es, st). do {
     es1 \<leftarrow> log_cut entry es;
     if int (length es1) < Index entry then Some (es1 @ [entry], SaveLog L g entry st)
     else Some (es1, st) })"

definition advance_commit_to ::
  "'d leveldb \<Rightarrow> int \<Rightarrow> 'd RaftCore \<Rightarrow> ('d RaftCore \<times> raft_out list) option" where
  "advance_commit_to L leaderCommit rc =
     (if CommitIndex rc < leaderCommit then do {
        (rc1, o1) \<leftarrow> applyLogToStateMachine L
          (rc\<lparr>CommitIndex := min leaderCommit (int (length (Log rc)))\<rparr>);
        Some (persistTermAndVote L rc1, o1) }
      else Some (rc, []))"

text \<open>The part of the handler after the consistency checks have passed.\<close>

definition appendEntries_accept ::
  "'d leveldb \<Rightarrow> int \<Rightarrow> int \<Rightarrow> RaftPayload \<Rightarrow> 'd RaftCore \<Rightarrow> ('d RaftCore \<times> raft_out list) option" where
  "appendEntries_accept L now r p rc = do {
     (es, st) \<leftarrow> foldM (core_append L (rcGroup rc)) (pEntries p) (Log rc, store rc);
     (rc1, o1) \<leftarrow> advance_commit_to L (pLeaderCommit p) (rc\<lparr>Log := es, store := st\<rparr>);
     Some (resetElectionTimer now r rc1,
       o1 @ [replyAppendEntries (pLeaderId p) True 0 (fst (getLastLogIndex rc1)) (pInvokeId p) rc1]) }"

definition handleAppendEntries ::
  "'d leveldb \<Rightarrow> int \<Rightarrow> int \<Rightarrow> RaftPayload \<Rightarrow> 'd RaftCore \<Rightarrow> ('d RaftCore \<times> raft_out list) option" where
  "handleAppendEntries L now r p rc =
     (if pTerm p < CurrentTerm rc then
        Some (rc, [replyAppendEntries (pLeaderId p) False 0 0 (pInvokeId p) rc])
      else
        let rc1 = (if CurrentTerm rc < pTerm p then switchToFollower L now r (pTerm p) rc else rc);
            rc2 = rc1\<lparr>LeaderHint := pLeaderId p\<rparr>;
            lastIndex = fst (getLastLogIndex rc2)
        in if lastIndex < pPrevLogIndex p then
             Some (resetElectionTimer now r rc2,
               [replyAppendEntries (pLeaderId p) False 0 (i64 (lastIndex + 1)) (pInvokeId p) rc2])
           else if 0 < pPrevLogIndex p then do {
             e \<leftarrow> go_nth (Log rc2) (pPrevLogIndex p - 1);
             if Term e \<noteq> pPrevLogTerm p then
               let conflictIndex = conflict_start (Log rc2) (Term e) (nat (pPrevLogIndex p));
                   rc3 = rc2\<lparr>Log := take (conflictIndex - 1) (Log rc2),
                     store := DeleteLogsFrom L (rcGroup rc2) (int conflictIndex) (store rc2)\<rparr>
               in Some (resetElectionTimer now r rc3,
                    [replyAppendEntries (pLeaderId p) False (Term e) (int conflictIndex)
                       (pInvokeId p) rc3])
             else appendEntries_accept L now r p rc2 }
           else appendEntries_accept L now r p rc2)"

section \<open>The leader\<close>

definition broadcastHeartbeat :: "'d RaftCore \<Rightarrow> raft_out list" where
  "broadcastHeartbeat rc =
     map (\<lambda>peer. SpawnHeartbeat peer (CurrentTerm rc) (CommitIndex rc))
       (filter (\<lambda>peer. peer \<noteq> ID rc) (Peers rc)) @
     map (\<lambda>l. SpawnHeartbeat l (CurrentTerm rc) (CommitIndex rc)) (Learners rc)"

definition sendHeartbeat :: "string \<Rightarrow> int \<Rightarrow> int \<Rightarrow> 'd RaftCore \<Rightarrow> raft_out" where
  "sendHeartbeat nodeID t commitIdx rc =
     (let prevLogIndex = i64 (map_get (NextIndex rc) nodeID - 1);
          prevLogTerm = (if 0 < prevLogIndex \<and> prevLogIndex \<le> int (length (Log rc))
            then Term (Log rc ! nat (prevLogIndex - 1)) else 0)
      in Send nodeID (zero_payload\<lparr>pType := AppendEntries, pTerm := t, pLeaderId := ID rc,
           pPrevLogIndex := prevLogIndex, pPrevLogTerm := prevLogTerm, pEntries := [],
           pLeaderCommit := commitIdx, pGroup := rcGroup rc\<rparr>))"

definition sendAppendEntriesTo :: "string \<Rightarrow> 'd RaftCore \<Rightarrow> raft_out option" where
  "sendAppendEntriesTo peer rc =
     (let nextIdx = map_get (NextIndex rc) peer; prevLogIndex = i64 (nextIdx - 1) in do {
        entries \<leftarrow> (if nextIdx \<le> int (length (Log rc)) then go_drop (Log rc) prevLogIndex else Some []);
        prevLogTerm \<leftarrow> (if 0 < prevLogIndex
          then map_option Term (go_nth (Log rc) (prevLogIndex - 1)) else Some 0);
        Some (SpawnInvoke peer (zero_payload\<lparr>pType := AppendEntries, pTerm := CurrentTerm rc,
          pLeaderId := ID rc, pPrevLogIndex := prevLogIndex, pPrevLogTerm := prevLogTerm,
          pEntries := entries, pLeaderCommit := CommitIndex rc, pGroup := rcGroup rc\<rparr>)) })"

text \<open>
  \<open>sendWithInvokeId\<close>: a fresh id, the pending entry and the first send; then up to two repeats
  while the role is the one at the start; the pending entry goes at the end.
\<close>

definition sendWithInvokeId_start ::
  "string \<Rightarrow> RaftPayload \<Rightarrow> 'd RaftCore \<Rightarrow> 'd RaftCore \<times> raft_out list \<times> RaftPayload" where
  "sendWithInvokeId_start peer p rc =
     (let i = (invokeCounter rc + 1) mod 2 ^ 64; p1 = p\<lparr>pInvokeId := i\<rparr> in
      (rc\<lparr>invokeCounter := i, pending := i # pending rc\<rparr>, [Send peer p1], p1))"

definition sendWithInvokeId_retry ::
  "RaftRole \<Rightarrow> nat \<Rightarrow> string \<Rightarrow> RaftPayload \<Rightarrow> 'd RaftCore \<Rightarrow> raft_out list" where
  "sendWithInvokeId_retry currentRole retries peer p rc =
     (if retries < 3 \<and> Role rc = currentRole \<and> pInvokeId p \<in> set (pending rc)
      then [Send peer p] else [])"

definition sendWithInvokeId_finish :: "int \<Rightarrow> 'd RaftCore \<Rightarrow> 'd RaftCore" where
  "sendWithInvokeId_finish i rc = rc\<lparr>pending := removeAll i (pending rc)\<rparr>"

text \<open>
  \<open>quickSelect\<close>: \<open>pick arr\<close> is the number drawn by \<open>rand.Intn\<close>, which panics on an empty slice.
\<close>

function quickSelect :: "(int list \<Rightarrow> nat) \<Rightarrow> int list \<Rightarrow> nat \<Rightarrow> int option" where
  "quickSelect pick arr k =
     (if length arr = 1 then Some (arr ! 0)
      else if arr = [] then None
      else
        let pivot = arr ! (pick arr mod length arr);
            lows = filter (\<lambda>v. v < pivot) arr;
            highs = filter (\<lambda>v. pivot < v) arr;
            pivots = filter (\<lambda>v. v = pivot) arr
        in if k < length lows then quickSelect pick lows k
           else if k < length lows + length pivots then Some pivot
           else quickSelect pick highs (k - length lows - length pivots))"
  by pat_completeness auto
termination
proof (relation "measure (\<lambda>(pick, arr, k). length arr)")
  fix pick :: "int list \<Rightarrow> nat" and arr :: "int list" and k :: nat and pivot lows highs pivots
  assume "arr \<noteq> []" and p: "pivot = arr ! (pick arr mod length arr)"
  then have mem: "pivot \<in> set arr" by simp
  show "((pick, lows, k), pick, arr, k) \<in> measure (\<lambda>(pick, arr, k). length arr)"
    if "lows = filter (\<lambda>v. v < pivot) arr"
    using mem that by (auto intro: length_filter_less)
  show "((pick, highs, k - length lows - length pivots), pick, arr, k) \<in>
      measure (\<lambda>(pick, arr, k). length arr)"
    if "highs = filter (\<lambda>v. pivot < v) arr"
    using mem that by (auto intro: length_filter_less)
qed simp

declare quickSelect.simps [simp del]

definition matchIndexes :: "'d RaftCore \<Rightarrow> int list" where
  "matchIndexes rc = fst (getLastLogIndex rc) #
     List.map_filter (MatchIndex rc) (filter (\<lambda>peer. peer \<noteq> ID rc) (Peers rc))"

definition advanceCommitIndex ::
  "'d leveldb \<Rightarrow> (int list \<Rightarrow> nat) \<Rightarrow> 'd RaftCore \<Rightarrow> ('d RaftCore \<times> raft_out list) option" where
  "advanceCommitIndex L pick rc = do {
     N \<leftarrow> quickSelect pick (matchIndexes rc) (length (matchIndexes rc) div 2);
     if CommitIndex rc < N \<and> 0 < N then do {
       e \<leftarrow> go_nth (Log rc) (N - 1);
       if Term e = CurrentTerm rc then applyLogToStateMachine L (rc\<lparr>CommitIndex := N\<rparr>)
       else Some (rc, []) }
     else Some (rc, []) }"

text \<open>The two updates of the progress of the sender: after a success and after a failure.\<close>

definition progress_success :: "string \<Rightarrow> RaftPayload \<Rightarrow> 'd RaftCore \<Rightarrow> 'd RaftCore" where
  "progress_success from1 p rc =
     (if 0 < pCommitIndex p
      then rc\<lparr>MatchIndex := (MatchIndex rc)(from1 \<mapsto> pCommitIndex p),
             NextIndex := (NextIndex rc)(from1 \<mapsto> i64 (pCommitIndex p + 1))\<rparr>
      else let m = i64 (map_get (NextIndex rc) from1 - 1) in
        rc\<lparr>MatchIndex := (MatchIndex rc)(from1 \<mapsto> m),
           NextIndex := (NextIndex rc)(from1 \<mapsto> i64 (m + 1))\<rparr>)"

definition progress_failure :: "string \<Rightarrow> RaftPayload \<Rightarrow> 'd RaftCore \<Rightarrow> 'd RaftCore" where
  "progress_failure from1 p rc =
     (if pConflictTerm p \<noteq> 0 then
        let lastIndexOfTerm = findLastIndexOfTerm (pConflictTerm p) rc in
        if 0 < lastIndexOfTerm
        then rc\<lparr>NextIndex := (NextIndex rc)(from1 \<mapsto> i64 (lastIndexOfTerm + 1))\<rparr>
        else rc\<lparr>NextIndex := (NextIndex rc)(from1 \<mapsto> pConflictIndex p)\<rparr>
      else if 1 < map_get (NextIndex rc) from1
        then rc\<lparr>NextIndex := (NextIndex rc)(from1 \<mapsto> map_get (NextIndex rc) from1 - 1)\<rparr>
        else rc)"

definition handleAppendEntriesResponse ::
  "'d leveldb \<Rightarrow> (int list \<Rightarrow> nat) \<Rightarrow> int \<Rightarrow> int \<Rightarrow> string \<Rightarrow> RaftPayload \<Rightarrow> 'd RaftCore \<Rightarrow>
     ('d RaftCore \<times> raft_out list) option" where
  "handleAppendEntriesResponse L pick now r from1 p rc0 =
     (let rc = resolvePending (pInvokeId p) rc0 in
      if CurrentTerm rc < pTerm p then Some (switchToFollower L now r (pTerm p) rc, [])
      else if Role rc \<noteq> Leader \<or> pTerm p \<noteq> CurrentTerm rc then Some (rc, [])
      else if pSuccess p then advanceCommitIndex L pick (progress_success from1 p rc)
      else Some (progress_failure from1 p rc, [SpawnAppend from1]))"

section \<open>Client requests\<close>

definition ProposeCommand ::
  "'d leveldb \<Rightarrow> RaftCommand \<Rightarrow> 'd RaftCore \<Rightarrow> 'd RaftCore \<times> raft_out list" where
  "ProposeCommand L cmd rc =
     (if Role rc \<noteq> Leader then (rc, [])
      else
        let entry = \<lparr>Index = i64 (fst (getLastLogIndex rc) + 1), Term = CurrentTerm rc, Command = cmd\<rparr>;
            rc1 = persistLog L (rc\<lparr>Log := Log rc @ [entry]\<rparr>)
        in (rc1, map SpawnAppend (filter (\<lambda>peer. peer \<noteq> ID rc1) (Peers rc1)) @
                 map SpawnAppend (Learners rc1)))"

definition forwardToLeader :: "string \<Rightarrow> RaftCommand \<Rightarrow> bool \<Rightarrow> string \<Rightarrow> raft_out" where
  "forwardToLeader leaderId cmd forwarded originId = SendForward leaderId
     \<lparr>fwType = ClientCommand, fwCmd = cmd, fwForwarded = forwarded, fwOriginId = originId\<rparr>"

definition HandleClientRequest ::
  "'d leveldb \<Rightarrow> RaftCommand \<Rightarrow> 'd RaftCore \<Rightarrow> 'd RaftCore \<times> raft_out list" where
  "HandleClientRequest L cmd rc =
     (if Role rc = Leader then ProposeCommand L cmd rc
      else if LeaderHint rc \<noteq> [] then (rc, [forwardToLeader (LeaderHint rc) cmd False (ID rc)])
      else (rc, []))"

definition AddLearner :: "'d leveldb \<Rightarrow> string \<Rightarrow> 'd RaftCore \<Rightarrow> 'd RaftCore \<times> raft_out list" where
  "AddLearner L nodeID = HandleClientRequest L (zero_command\<lparr>Op := op_addLearner, cKey := nodeID\<rparr>)"

definition AddLearnerWithSnapshot ::
  "'d leveldb \<Rightarrow> string \<Rightarrow> int \<Rightarrow> int \<Rightarrow> 'd RaftCore \<Rightarrow> 'd RaftCore \<times> raft_out list" where
  "AddLearnerWithSnapshot L nodeID si stm = HandleClientRequest L
     (zero_command\<lparr>Op := op_addLearnerWithSnapshot, cKey := nodeID, SnapshotIndex := si, SnapshotTerm := stm\<rparr>)"

definition RemoveLearner :: "'d leveldb \<Rightarrow> string \<Rightarrow> 'd RaftCore \<Rightarrow> 'd RaftCore \<times> raft_out list" where
  "RemoveLearner L nodeID = HandleClientRequest L (zero_command\<lparr>Op := op_removeLearner, cKey := nodeID\<rparr>)"

definition IsLearner :: "'d RaftCore \<Rightarrow> bool" where
  "IsLearner rc = (ID rc \<in> set (Learners rc))"

section \<open>Dispatch\<close>

text \<open>
  Decoding a message: a forwarded command decoded as a \<open>RaftPayload\<close> keeps only the \<open>Type\<close> field the
  two structs share, and a payload decoded as a forwarded command likewise.
\<close>

definition as_payload :: "raft_content \<Rightarrow> RaftPayload" where
  "as_payload c = (case c of CPayload p \<Rightarrow> p | CForward f \<Rightarrow> zero_payload\<lparr>pType := fwType f\<rparr>)"

definition as_forward :: "raft_content \<Rightarrow> ClientForwardPayload" where
  "as_forward c = (case c of CForward f \<Rightarrow> f | CPayload p \<Rightarrow>
     \<lparr>fwType = pType p, fwCmd = zero_command, fwForwarded = False, fwOriginId = []\<rparr>)"

text \<open>\<open>None\<close> as content is a message that does not decode.\<close>

definition onRaftMessage ::
  "'d leveldb \<Rightarrow> (int list \<Rightarrow> nat) \<Rightarrow> int \<Rightarrow> int \<Rightarrow> string \<Rightarrow> raft_content option \<Rightarrow> 'd RaftCore \<Rightarrow>
     ('d RaftCore \<times> raft_out list) option" where
  "onRaftMessage L pick now r from1 content rc = (case content of
       None \<Rightarrow> Some (rc, [])
     | Some c \<Rightarrow> (let payload = as_payload c in
       (case pType payload of
          RequestVote \<Rightarrow> Some (handleRequestVote L now r payload rc)
        | RequestVoteResponse \<Rightarrow> Some (handleRequestVoteResponse L now r payload rc)
        | AppendEntries \<Rightarrow> handleAppendEntries L now r payload rc
        | AppendEntriesResponse \<Rightarrow> handleAppendEntriesResponse L pick now r from1 payload rc
        | ClientCommand \<Rightarrow>
            (let f = as_forward c in
             if Role rc = Leader then Some (ProposeCommand L (fwCmd f) rc)
             else if fwForwarded f then Some (rc, [])
             else if LeaderHint rc \<noteq> []
               then Some (rc, [forwardToLeader (LeaderHint rc) (fwCmd f) True (fwOriginId f)])
             else Some (rc, []))
        | _ \<Rightarrow> Some (rc, []))))"

section \<open>Start\<close>

text \<open>
  \<open>NewRaftClient\<close>; \<open>st\<close> is the opened storage, or the in-memory fallback if opening it failed.
\<close>

definition NewRaftClient ::
  "'d leveldb \<Rightarrow> int \<Rightarrow> int \<Rightarrow> string \<Rightarrow> string \<Rightarrow> string list \<Rightarrow> 'd Storage \<Rightarrow>
     ('d RaftCore \<times> raft_out list) option" where
  "NewRaftClient L now r nodeID g peers st = do {
     (t, vf, ci, la, err) \<leftarrow> LoadMeta L g st;
     let rc = \<lparr>ID = nodeID, rcGroup = g, Role = Follower, CurrentTerm = t, VotedFor = vf,
       Log = LoadLogs L g st, CommitIndex = ci, LastApplied = la, NextIndex = Map.empty,
       MatchIndex = Map.empty, voteResult = [], electionTimeout = 0, heartbeatTimeout = 0,
       LeaderHint = [], Peers = peers, store = st, invokeCounter = 0, pending = [], Learners = []\<rparr>;
     (rc1, o1) \<leftarrow> (if la < ci then applyLogToStateMachine L rc else Some (rc, []));
     Some (resetElectionTimer now r rc1, o1) }"

end
