(* ===== verification/Raft_Commit.thy ===== *)
theory Raft_Commit
  imports Raft_Replication
begin

text \<open>
  The commit rule of core/Raft.go: \<open>quickSelect\<close> against sorting, what \<open>advanceCommitIndex\<close> guarantees
  about the nodes that hold the committed entry, and the apply loop.
\<close>

section \<open>quickSelect\<close>

lemma sort_three_way:
  fixes xs :: "'a :: linorder list"
  shows "sort xs = sort (filter (\<lambda>v. v < p) xs) @ filter (\<lambda>v. v = p) xs @ sort (filter (\<lambda>v. p < v) xs)"
proof (rule properties_for_sort)
  have "sorted (filter (\<lambda>v. v = p) ys)" for ys :: "'a list"
    by (induction ys) auto
  then show "sorted (sort (filter (\<lambda>v. v < p) xs) @ filter (\<lambda>v. v = p) xs @ sort (filter (\<lambda>v. p < v) xs))"
    by (auto simp: sorted_append)
  show "mset (sort (filter (\<lambda>v. v < p) xs) @ filter (\<lambda>v. v = p) xs @ sort (filter (\<lambda>v. p < v) xs)) = mset xs"
    by (induction xs) auto
qed

lemma nth_filter_eq: "i < length (filter (\<lambda>v. v = p) xs) \<Longrightarrow> filter (\<lambda>v. v = p) xs ! i = p"
  using nth_mem [of i "filter (\<lambda>v. v = p) xs"] by auto

lemma quickSelect_sort: "k < length arr \<Longrightarrow> quickSelect pick arr k = Some (sort arr ! k)"
proof (induction pick arr k rule: quickSelect.induct)
  case (1 pick arr k)
  show ?case
  proof (cases "length arr = 1")
    case True
    then obtain x where "arr = [x]" by (auto simp: length_Suc_conv)
    with 1 show ?thesis by (subst quickSelect.simps) simp
  next
    case False
    have ne: "arr \<noteq> []" using "1.prems" by auto
    define pivot where "pivot = arr ! (pick arr mod length arr)"
    define lows pivots highs where "lows = filter (\<lambda>v. v < pivot) arr"
      and "pivots = filter (\<lambda>v. v = pivot) arr" and "highs = filter (\<lambda>v. pivot < v) arr"
    have unfold: "quickSelect pick arr k =
        (if k < length lows then quickSelect pick lows k
         else if k < length lows + length pivots then Some pivot
         else quickSelect pick highs (k - length lows - length pivots))"
      using False ne by (subst quickSelect.simps) (simp add: pivot_def lows_def pivots_def highs_def Let_def)
    have sort: "sort arr = sort lows @ pivots @ sort highs"
      unfolding lows_def pivots_def highs_def by (rule sort_three_way)
    have len: "length arr = length lows + length pivots + length highs"
      using arg_cong [OF sort, of length] by simp
    consider "k < length lows" | "length lows \<le> k" "k < length lows + length pivots"
      | "length lows + length pivots \<le> k" by linarith
    then show ?thesis
    proof cases
      case a: 1
      then have "quickSelect pick lows k = Some (sort lows ! k)"
        using 1(1) [OF False ne pivot_def lows_def highs_def pivots_def] by simp
      with a show ?thesis by (simp add: unfold sort nth_append)
    next
      case 2
      then have "pivots ! (k - length lows) = pivot"
        unfolding pivots_def by (intro nth_filter_eq) (simp add: pivots_def)
      moreover have "k - length lows < length pivots" using 2 by linarith
      ultimately show ?thesis using 2 by (simp add: unfold sort nth_append)
    next
      case 3
      then have "quickSelect pick highs (k - length lows - length pivots) =
          Some (sort highs ! (k - length lows - length pivots))"
        using 1(2) [OF False ne pivot_def lows_def highs_def pivots_def] "1.prems" len by simp
      moreover have "\<not> k < length lows" "\<not> k - length lows < length pivots"
        "\<not> k < length lows + length pivots" using 3 by linarith+
      ultimately show ?thesis by (simp add: unfold sort nth_append)
    qed
  qed
qed

lemma length_filter_sort: "length (filter P (sort xs)) = length (filter P xs)"
  by (metis mset_filter mset_sort size_mset)

lemma count_ge_sort_nth:
  fixes xs :: "'a :: linorder list"
  assumes "k < length xs"
  shows "length xs - k \<le> length (filter (\<lambda>x. sort xs ! k \<le> x) xs)"
proof -
  let ?P = "\<lambda>x. sort xs ! k \<le> x"
  have "sort xs ! k \<le> x" if "x \<in> set (drop k (sort xs))" for x
  proof -
    from that obtain i where i: "i < length xs - k" and x: "x = sort xs ! (k + i)"
      by (auto simp: in_set_conv_nth)
    then have "k + i < length (sort xs)" by simp
    with sorted_nth_mono [of "sort xs" k "k + i"] x show ?thesis by simp
  qed
  then have "filter ?P (drop k (sort xs)) = drop k (sort xs)" by (simp add: filter_id_conv)
  moreover have "filter ?P (sort xs) = filter ?P (take k (sort xs)) @ filter ?P (drop k (sort xs))"
    by (metis append_take_drop_id filter_append)
  ultimately have "length (drop k (sort xs)) \<le> length (filter ?P (sort xs))" by simp
  then show ?thesis by (simp add: length_filter_sort)
qed

section \<open>The apply loop\<close>

lemma applyLog_frame:
  assumes "applyLogToStateMachine L rc = Some (rc', o1)"
  shows "CommitIndex rc' = CommitIndex rc \<and> LastApplied rc' = max (LastApplied rc) (CommitIndex rc) \<and>
    Log rc' = Log rc \<and> CurrentTerm rc' = CurrentTerm rc \<and> VotedFor rc' = VotedFor rc \<and>
    Role rc' = Role rc \<and> ID rc' = ID rc \<and> Peers rc' = Peers rc \<and> rcGroup rc' = rcGroup rc \<and>
    voteResult rc' = voteResult rc"
  using assms
proof (induction L rc arbitrary: o1 rule: applyLogToStateMachine.induct)
  case (1 L rc)
  show ?case
  proof (cases "LastApplied rc < CommitIndex rc")
    case False
    with "1.prems" show ?thesis by (auto simp: applyLogToStateMachine.simps [of L rc])
  next
    case True
    with "1.prems" obtain rc1 e o2 where a: "apply_next L rc = Some (rc1, e)"
      and b: "applyLogToStateMachine L rc1 = Some (rc', o2)"
      by (auto simp: applyLogToStateMachine.simps [of L rc] split: option.splits)
    from "1.IH" [OF True a refl b] apply_next_frame [OF a] True show ?thesis by auto
  qed
qed

lemma applyLog_total:
  assumes "0 \<le> LastApplied rc" and "CommitIndex rc \<le> int (length (Log rc))"
  shows "\<exists>rc' o1. applyLogToStateMachine L rc = Some (rc', o1)"
  using assms
proof (induction L rc rule: applyLogToStateMachine.induct)
  case (1 L rc)
  show ?case
  proof (cases "LastApplied rc < CommitIndex rc")
    case False
    then show ?thesis by (simp add: applyLogToStateMachine.simps [of L rc])
  next
    case True
    with "1.prems" obtain rc1 e where a: "apply_next L rc = Some (rc1, e)"
      by (auto simp: apply_next_def Let_def)
    from "1.IH" [OF True a refl] "1.prems" apply_next_frame [OF a] True
    show ?thesis by (auto simp: applyLogToStateMachine.simps [of L rc] a)
  qed
qed

text \<open>The loop hands the committed entries to the callback in log order, each exactly once.\<close>

lemma applyLog_outputs:
  assumes "applyLogToStateMachine L rc = Some (rc', o1)" and "0 \<le> LastApplied rc"
  shows "o1 = map Applied (take (nat (CommitIndex rc - LastApplied rc)) (drop (nat (LastApplied rc)) (Log rc)))"
  using assms
proof (induction L rc arbitrary: o1 rule: applyLogToStateMachine.induct)
  case (1 L rc)
  show ?case
  proof (cases "LastApplied rc < CommitIndex rc")
    case False
    with "1.prems" show ?thesis by (auto simp: applyLogToStateMachine.simps [of L rc])
  next
    case True
    with "1.prems" obtain rc1 e o2 where a: "apply_next L rc = Some (rc1, e)"
      and b: "applyLogToStateMachine L rc1 = Some (rc', o2)" and o1: "o1 = Applied e # o2"
      by (auto simp: applyLogToStateMachine.simps [of L rc] split: option.splits)
    from a have e: "go_nth (Log rc) (LastApplied rc) = Some e"
      by (auto simp: apply_next_def Let_def split: bind_splits)
    let ?n = "nat (LastApplied rc)"
    have len: "?n < length (Log rc)" and e': "e = Log rc ! ?n" using go_nth_SomeD [OF e] by auto
    have "o2 = map Applied (take (nat (CommitIndex rc - (LastApplied rc + 1))) (drop (Suc ?n) (Log rc)))"
      using "1.IH" [OF True a refl b] apply_next_frame [OF a] "1.prems"(2) by (simp add: nat_add_distrib)
    moreover have "nat (CommitIndex rc - LastApplied rc) = Suc (nat (CommitIndex rc - (LastApplied rc + 1)))"
      using True by simp
    ultimately show ?thesis using o1 e' len by (simp add: Cons_nth_drop_Suc [symmetric])
  qed
qed

section \<open>Replication counts\<close>

text \<open>What the leader believes of a peer: that it holds the log up to \<open>N\<close>.\<close>

definition replicated :: "'d RaftCore \<Rightarrow> int \<Rightarrow> string \<Rightarrow> bool" where
  "replicated rc N peer = (if peer = ID rc then N \<le> fst (getLastLogIndex rc)
     else case MatchIndex rc peer of Some i \<Rightarrow> N \<le> i | None \<Rightarrow> False)"

lemma filter_map_filter_match:
  "length (filter (\<lambda>m. N \<le> m) (List.map_filter (MatchIndex rc) (filter (\<lambda>p. p \<noteq> ID rc) ps))) =
     length (filter (replicated rc N) (filter (\<lambda>p. p \<noteq> ID rc) ps))"
  by (induction ps) (auto simp: replicated_def map_filter_simps split: option.split)

lemma filter_remove_self:
  assumes "distinct ps" and "x \<in> set ps"
  shows "length (filter P ps) = (if P x then 1 else 0) + length (filter P (filter (\<lambda>p. p \<noteq> x) ps))"
proof -
  obtain as bs where ps: "ps = as @ x # bs" using split_list [OF assms(2)] by blast
  then have "filter (\<lambda>p. p \<noteq> x) as = as" "filter (\<lambda>p. p \<noteq> x) bs = bs"
    using assms(1) by (auto simp: filter_id_conv)
  then show ?thesis using ps by simp
qed

lemma count_matchIndexes:
  assumes "distinct (Peers rc)" and "ID rc \<in> set (Peers rc)"
  shows "length (filter (\<lambda>m. N \<le> m) (matchIndexes rc)) = length (filter (replicated rc N) (Peers rc))"
  using filter_remove_self [OF assms, of "replicated rc N"] filter_map_filter_match [of N rc "Peers rc"]
  by (simp add: matchIndexes_def replicated_def)

lemma length_matchIndexes:
  assumes "distinct (Peers rc)" and "ID rc \<in> set (Peers rc)"
    and "\<And>p. p \<in> set (Peers rc) \<Longrightarrow> p \<noteq> ID rc \<Longrightarrow> MatchIndex rc p \<noteq> None"
  shows "length (matchIndexes rc) = length (Peers rc)"
proof -
  have "length (List.map_filter (MatchIndex rc) ps) = length ps"
    if "\<forall>p \<in> set ps. MatchIndex rc p \<noteq> None" for ps
    using that by (induction ps) (auto simp: map_filter_simps)
  moreover have "length (Peers rc) = 1 + length (filter (\<lambda>p. p \<noteq> ID rc) (Peers rc))"
    using filter_remove_self [OF assms(1,2), of "\<lambda>_. True"] by simp
  ultimately show ?thesis using assms(3) by (simp add: matchIndexes_def)
qed

lemma advanceCommitIndex_cases:
  assumes "advanceCommitIndex L pick rc = Some (rc', o1)" and "CommitIndex rc' \<noteq> CommitIndex rc"
  shows "CommitIndex rc' = sort (matchIndexes rc) ! (length (matchIndexes rc) div 2) \<and>
    CommitIndex rc < CommitIndex rc' \<and> 0 < CommitIndex rc' \<and>
    CommitIndex rc' \<le> int (length (Log rc)) \<and>
    Term (Log rc ! nat (CommitIndex rc' - 1)) = CurrentTerm rc"
proof -
  let ?m = "matchIndexes rc" and ?k = "length (matchIndexes rc) div 2"
  have "?k < length ?m" by (simp add: matchIndexes_def)
  then have q: "quickSelect pick ?m ?k = Some (sort ?m ! ?k)" by (rule quickSelect_sort)
  let ?N = "sort ?m ! ?k"
  have n: "CommitIndex rc < ?N \<and> 0 < ?N"
    using assms q by (auto simp: advanceCommitIndex_def split: if_splits)
  then obtain e where e: "go_nth (Log rc) (?N - 1) = Some e"
    and t: "Term e = CurrentTerm rc"
    and ap: "applyLogToStateMachine L (rc\<lparr>CommitIndex := ?N\<rparr>) = Some (rc', o1)"
    using assms q by (auto simp: advanceCommitIndex_def split: bind_splits if_splits)
  have "CommitIndex rc' = ?N" using applyLog_frame [OF ap] by simp
  with n t go_nth_SomeD [OF e] show ?thesis by auto
qed

section \<open>Properties\<close>

text \<open>
  C28: \<open>quickSelect\<close> returns the element of rank \<open>k\<close> of the sorted slice, whatever the random pivots
  are, and always terminates.
\<close>

theorem quickSelect_correct:
  assumes "k < length arr"
  shows "quickSelect pick arr k = Some (sort arr ! k)"
  using assms by (rule quickSelect_sort)

theorem quickSelect_correct_witness:
  "quickSelect (\<lambda>xs. 7) [5, 1, 4, 1] 2 = Some 4"
  using quickSelect_correct [of 2 "[5, 1, 4, 1]" "\<lambda>xs. 7"] by simp

text \<open>
  C24: In a cluster with an odd number of nodes, the leader's commit index only moves up to an index
  that, by its own match indexes, a majority of the nodes has reached, inside its own log, and whose
  entry is of the leader's current term.
\<close>

theorem commit_needs_majority:
  assumes "advanceCommitIndex L pick rc = Some (rc', o1)" and "CommitIndex rc' \<noteq> CommitIndex rc"
    and "distinct (Peers rc)" and "ID rc \<in> set (Peers rc)" and "odd (length (Peers rc))"
    and "\<forall>p \<in> set (Peers rc). p \<noteq> ID rc \<longrightarrow> MatchIndex rc p \<noteq> None"
  shows "CommitIndex rc < CommitIndex rc' \<and>
    length (Peers rc) div 2 < length (filter (replicated rc (CommitIndex rc')) (Peers rc)) \<and>
    CommitIndex rc' \<le> int (length (Log rc)) \<and>
    Term (Log rc ! nat (CommitIndex rc' - 1)) = CurrentTerm rc"
proof -
  note c = advanceCommitIndex_cases [OF assms(1,2)]
  have len: "length (matchIndexes rc) = length (Peers rc)"
    using length_matchIndexes [OF assms(3,4)] assms(6) by blast
  have "length (matchIndexes rc) - length (matchIndexes rc) div 2 \<le>
      length (filter (\<lambda>m. CommitIndex rc' \<le> m) (matchIndexes rc))"
    using count_ge_sort_nth [of "length (matchIndexes rc) div 2" "matchIndexes rc"] c
    by (simp add: matchIndexes_def)
  then have "length (Peers rc) - length (Peers rc) div 2 \<le>
      length (filter (replicated rc (CommitIndex rc')) (Peers rc))"
    using len by (simp add: count_matchIndexes [OF assms(3,4)])
  moreover have "length (Peers rc) div 2 < length (Peers rc) - length (Peers rc) div 2"
    using assms(5) by presburger
  ultimately show ?thesis using c by auto
qed

definition ex_entry :: "int \<Rightarrow> int \<Rightarrow> RaftLogEntry" where
  "ex_entry i t = \<lparr>Index = i, Term = t, Command = zero_command\<lparr>cKey := ''k''\<rparr>\<rparr>"

definition ex_core :: "string list \<Rightarrow> (string \<times> int) list \<Rightarrow> RaftLogEntry list \<Rightarrow> int \<Rightarrow>
    (string \<times> goval) list RaftCore" where
  "ex_core ps ms es t = \<lparr>ID = ''a'', rcGroup = ''g'', Role = Leader, CurrentTerm = t, VotedFor = ''a'',
     Log = es, CommitIndex = 0, LastApplied = 0, NextIndex = Map.empty, MatchIndex = map_of ms,
     voteResult = [], electionTimeout = 0, heartbeatTimeout = 0, LeaderHint = ''a'', Peers = ps,
     store = \<lparr>db = None, NodeId = ''a''\<rparr>, invokeCounter = 0, pending = [], Learners = []\<rparr>"

lemma ex_core_advance:
  assumes "quickSelect pick (matchIndexes (ex_core ps ms [ex_entry 1 t] t))
     (length (matchIndexes (ex_core ps ms [ex_entry 1 t] t)) div 2) = Some 1"
  shows "\<exists>rc' o1. advanceCommitIndex L pick (ex_core ps ms [ex_entry 1 t] t) = Some (rc', o1) \<and>
    CommitIndex rc' = 1"
proof -
  let ?rc = "ex_core ps ms [ex_entry 1 t] t"
  have "\<exists>rc' o1. applyLogToStateMachine L (?rc\<lparr>CommitIndex := 1\<rparr>) = Some (rc', o1)"
    by (rule applyLog_total) (simp_all add: ex_core_def)
  then obtain rc' o1 where a: "applyLogToStateMachine L (?rc\<lparr>CommitIndex := 1\<rparr>) = Some (rc', o1)" by blast
  then have "CommitIndex rc' = 1" using applyLog_frame [OF a] by simp
  moreover have "advanceCommitIndex L pick ?rc = Some (rc', o1)"
    using assms a by (simp add: advanceCommitIndex_def) (simp add: ex_core_def ex_entry_def)
  ultimately show ?thesis by blast
qed

lemma ex_core_matchIndexes:
  "matchIndexes (ex_core ps ms es t) = fst (lastLog es) # List.map_filter (map_of ms) (filter (\<lambda>p. p \<noteq> ''a'') ps)"
  by (simp add: matchIndexes_def getLastLogIndex_def ex_core_def)

theorem commit_needs_majority_witness:
  "\<exists>rc'. (\<exists>o1. advanceCommitIndex alist_db (\<lambda>_. 0)
       (ex_core [''a'', ''b'', ''c''] [(''b'', 1), (''c'', 0)] [ex_entry 1 2] 2) = Some (rc', o1)) \<and>
     1 < length (filter (replicated (ex_core [''a'', ''b'', ''c''] [(''b'', 1), (''c'', 0)] [ex_entry 1 2] 2)
       (CommitIndex rc')) [''a'', ''b'', ''c''])"
proof -
  let ?rc = "ex_core [''a'', ''b'', ''c''] [(''b'', 1), (''c'', 0)] [ex_entry 1 2] 2"
  have m: "matchIndexes ?rc = [1, 1, 0]"
    by (simp add: ex_core_matchIndexes lastLog_def ex_entry_def map_filter_simps)
  have "quickSelect (\<lambda>_. 0) (matchIndexes ?rc) (length (matchIndexes ?rc) div 2) = Some 1"
    unfolding m by (subst quickSelect_sort) simp_all
  from ex_core_advance [OF this] obtain rc' o1 where
    a: "advanceCommitIndex alist_db (\<lambda>_. 0) ?rc = Some (rc', o1)" and "CommitIndex rc' = 1" by blast
  have f: "CommitIndex ?rc = 0" "Peers ?rc = [''a'', ''b'', ''c'']" "ID ?rc = ''a''"
    "MatchIndex ?rc = map_of [(''b'', 1), (''c'', 0)]" by (simp_all add: ex_core_def)
  have "CommitIndex rc' \<noteq> CommitIndex ?rc" using \<open>CommitIndex rc' = 1\<close> f by simp
  from commit_needs_majority [OF a this]
  have "length (Peers ?rc) div 2 < length (filter (replicated ?rc (CommitIndex rc')) (Peers ?rc))"
    unfolding f by simp
  then have "1 < length (filter (replicated ?rc (CommitIndex rc')) (Peers ?rc))" unfolding f(2) by simp
  with a show ?thesis unfolding f(2) by blast
qed

text \<open>
  With an even number of nodes the rule commits too early: in a cluster of four, an entry that
  only the leader and one follower hold becomes committed, which is not a majority.
\<close>

theorem commit_without_majority_even:
  "\<exists>rc' o1. advanceCommitIndex alist_db (\<lambda>_. 0)
       (ex_core [''a'', ''b'', ''c'', ''d''] [(''b'', 1), (''c'', 0), (''d'', 0)] [ex_entry 1 2] 2) = Some (rc', o1) \<and>
     CommitIndex rc' = 1 \<and>
     \<not> 4 div 2 < length (filter (replicated (ex_core [''a'', ''b'', ''c'', ''d'']
         [(''b'', 1), (''c'', 0), (''d'', 0)] [ex_entry 1 2] 2) 1) [''a'', ''b'', ''c'', ''d''])"
proof -
  let ?rc = "ex_core [''a'', ''b'', ''c'', ''d''] [(''b'', 1), (''c'', 0), (''d'', 0)] [ex_entry 1 2] 2"
  have m: "matchIndexes ?rc = [1, 1, 0, 0]"
    by (simp add: ex_core_matchIndexes lastLog_def ex_entry_def map_filter_simps)
  have "quickSelect (\<lambda>_. 0) (matchIndexes ?rc) (length (matchIndexes ?rc) div 2) = Some 1"
    unfolding m by (subst quickSelect_sort) simp_all
  from ex_core_advance [OF this] show ?thesis
    by (auto simp: replicated_def ex_core_def)
qed

text \<open>
  C25: Applying committed entries: as long as the commit index is inside the log, the loop ends
  without a panic, moves \<open>LastApplied\<close> to \<open>CommitIndex\<close>, leaves log, term and vote alone, and hands
  the newly committed entries to the callback in log order, each once.
\<close>

theorem apply_loop_correct:
  assumes "0 \<le> LastApplied rc" and "CommitIndex rc \<le> int (length (Log rc))"
  shows "\<exists>rc'. applyLogToStateMachine L rc = Some (rc', map Applied
       (take (nat (CommitIndex rc - LastApplied rc)) (drop (nat (LastApplied rc)) (Log rc)))) \<and>
     LastApplied rc' = max (LastApplied rc) (CommitIndex rc) \<and> CommitIndex rc' = CommitIndex rc \<and>
     Log rc' = Log rc \<and> CurrentTerm rc' = CurrentTerm rc \<and> VotedFor rc' = VotedFor rc"
proof -
  from applyLog_total [OF assms, of L] obtain rc' o1 where
    a: "applyLogToStateMachine L rc = Some (rc', o1)" by blast
  from applyLog_outputs [OF a assms(1)] applyLog_frame [OF a] a show ?thesis by auto
qed

theorem apply_loop_correct_witness:
  "\<exists>rc'. applyLogToStateMachine alist_db ((ex_core [''a''] [] [ex_entry 1 2, ex_entry 2 2] 2)\<lparr>CommitIndex := 2\<rparr>) =
     Some (rc', [Applied (ex_entry 1 2), Applied (ex_entry 2 2)]) \<and> LastApplied rc' = 2"
proof -
  let ?rc = "(ex_core [''a''] [] [ex_entry 1 2, ex_entry 2 2] 2)\<lparr>CommitIndex := 2\<rparr>"
  have "LastApplied ?rc = 0" "CommitIndex ?rc = 2" "Log ?rc = [ex_entry 1 2, ex_entry 2 2]"
    by (simp_all add: ex_core_def)
  with apply_loop_correct [of ?rc alist_db] show ?thesis by auto
qed

end
