(* ===== verification/Raft_Follower.thy ===== *)
theory Raft_Follower
  imports Raft_Commit
begin

text \<open>
  The AppendEntries handler of core/Raft.go: its in-memory effect against a reference merge of the two
  logs, absence of panics on well-formed messages, and the commit rule of the follower.
\<close>

section \<open>The append loop as a merge\<close>

text \<open>Reference: walk down both logs and take over the rest of the message at the first difference.\<close>

fun merge_log :: "RaftLogEntry list \<Rightarrow> RaftLogEntry list \<Rightarrow> RaftLogEntry list" where
  "merge_log [] ys = ys"
| "merge_log xs [] = xs"
| "merge_log (x # xs) (y # ys) = (if Term x = Term y then x # merge_log xs ys else y # ys)"

definition entries_from :: "nat \<Rightarrow> RaftLogEntry list \<Rightarrow> bool" where
  "entries_from n ents \<longleftrightarrow> (\<forall>i < length ents. Index (ents ! i) = int (n + i) + 1) \<and>
     int (n + length ents) < 2 ^ 63 - 1"

lemma entries_from_Nil [simp]: "entries_from n [] \<longleftrightarrow> int n < 2 ^ 63 - 1"
  by (simp add: entries_from_def)

lemma entries_from_Cons:
  "entries_from n (y # ys) \<Longrightarrow> Index y = int n + 1 \<and> entries_from (Suc n) ys"
  by (auto simp: entries_from_def)

lemma merge_log_Nil2 [simp]: "merge_log xs [] = xs"
  by (cases xs) auto

lemma length_merge_log: "length ys \<le> length (merge_log xs ys)"
  by (induction xs ys rule: merge_log.induct) auto

lemma merge_log_Term: "i < length ys \<Longrightarrow> Term (merge_log xs ys ! i) = Term (ys ! i)"
  by (induction xs ys arbitrary: i rule: merge_log.induct) (auto simp: nth_Cons split: nat.split)

lemma merge_log_from:
  "entries_from n xs \<Longrightarrow> entries_from n ys \<Longrightarrow> entries_from n (merge_log xs ys)"
proof (induction xs ys arbitrary: n rule: merge_log.induct)
  case (3 x xs y ys)
  show ?case
  proof (cases "Term x = Term y")
    case False
    with 3 show ?thesis by simp
  next
    case True
    have "entries_from (Suc n) (merge_log xs ys)"
      using 3 True entries_from_Cons by blast
    moreover have "Index x = int n + 1" using "3.prems"(1) by (rule entries_from_Cons [THEN conjunct1])
    ultimately show ?thesis using True
      by (auto simp: entries_from_def nth_Cons split: nat.split)
  qed
qed auto

lemma log_wf_entries_from:
  "log_wf es \<and> int (length es) < 2 ^ 63 - 1 \<longleftrightarrow> entries_from 0 es"
  by (simp add: log_wf_def entries_from_def)

lemma entries_from_append:
  assumes "entries_from n xs" and "entries_from (n + length xs) ys"
  shows "entries_from n (xs @ ys)"
  using assms by (auto simp: entries_from_def nth_append)

lemma entries_from_drop: "entries_from n xs \<Longrightarrow> k \<le> length xs \<Longrightarrow> entries_from (n + k) (drop k xs)"
  by (auto simp: entries_from_def ac_simps)

lemma small_log_merge:
  assumes "small_log es" and "n \<le> length es" and "entries_from n ents"
  shows "small_log (take n es @ merge_log (drop n es) ents)"
proof -
  have e: "entries_from 0 es" using assms(1) by (simp add: small_log_def log_wf_entries_from [symmetric])
  have "entries_from n (merge_log (drop n es) ents)"
    using entries_from_drop [OF e assms(2)] assms(3) by (intro merge_log_from) simp_all
  moreover have "entries_from 0 (take n es)" using e by (auto simp: entries_from_def)
  ultimately have "entries_from 0 (take n es @ merge_log (drop n es) ents)"
    using assms(2) by (intro entries_from_append) simp_all
  then show ?thesis by (simp add: small_log_def log_wf_entries_from [symmetric])
qed

text \<open>One round of the loop on a well-formed log.\<close>

lemma log_cut_eq:
  assumes "small_log es" and "Index y = int n + 1" and "n \<le> length es"
  shows "log_cut y es = Some (if n < length es \<and> Term (es ! n) \<noteq> Term y then take n es else es)"
proof -
  have "int n < 2 ^ 63 - 1" using assms by (simp add: small_log_def)
  then have "i64 (Index y - 1) = int n" using assms(2) by simp
  then show ?thesis by (auto simp: log_cut_def Let_def)
qed

lemma append_loop_merge:
  assumes "small_log es" and "n \<le> length es" and "entries_from n ents"
  shows "\<exists>st'. foldM (core_append L g) ents (es, st) =
     Some (take n es @ merge_log (drop n es) ents, st')"
  using assms
proof (induction ents arbitrary: n es st)
  case Nil
  then show ?case by simp
next
  case (Cons y ys)
  have y: "Index y = int n + 1" and ys: "entries_from (Suc n) ys"
    using entries_from_Cons [OF Cons.prems(3)] by auto
  note cut = log_cut_eq [OF Cons.prems(1) y Cons.prems(2)]
  show ?case
  proof (cases "n < length es \<and> Term (es ! n) = Term y")
    case True
    then have "core_append L g y (es, st) = Some (es, st)" using cut y by (simp add: core_append_def)
    moreover obtain st' where "foldM (core_append L g) ys (es, st) =
        Some (take (Suc n) es @ merge_log (drop (Suc n) es) ys, st')"
      using Cons.IH [OF Cons.prems(1) _ ys] True by auto
    moreover have "drop n es = es ! n # drop (Suc n) es" using True by (simp add: Cons_nth_drop_Suc)
    ultimately show ?thesis using True by (simp add: take_Suc_conv_app_nth)
  next
    case False
    have es1: "log_cut y es = Some (take n es)"
      using cut False Cons.prems(2) by auto
    let ?es = "take n es @ [y]"
    have step: "core_append L g y (es, st) = Some (?es, SaveLog L g y st)"
      using es1 y Cons.prems(2) by (simp add: core_append_def)
    have "small_log ?es"
      using small_log_merge [OF _ _ Cons.prems(3), of "take n es"] Cons.prems(1,2) y ys
      by (auto simp: small_log_def log_wf_take entries_from_def)
    from Cons.IH [OF this _ ys, of "SaveLog L g y st"] Cons.prems(2) obtain st' where
      "foldM (core_append L g) ys (?es, SaveLog L g y st) = Some (?es @ ys, st')" by auto
    moreover have "merge_log (drop n es) (y # ys) = y # ys"
    proof (cases "drop n es")
      case (Cons a as)
      then have "n < length es" "a = es ! n" by (auto simp: drop_eq_Nil2 nth_via_drop not_le[symmetric])
      with False Cons show ?thesis by simp
    qed simp
    ultimately show ?thesis using step by simp
  qed
qed

section \<open>The conflict scan\<close>

lemma conflict_start_bounds: "1 \<le> n \<Longrightarrow> 1 \<le> conflict_start es t n \<and> conflict_start es t n \<le> n"
  by (induction es t n rule: conflict_start.induct) auto

lemma conflict_start_block:
  assumes "1 \<le> n" and "Term (es ! (n - 1)) = t" and "conflict_start es t n \<le> i + 1" and "i < n"
  shows "Term (es ! i) = t"
  using assms
proof (induction es t n rule: conflict_start.induct)
  case (1 es t n)
  then show ?case by (cases "i = Suc n") (auto split: if_splits)
qed auto

lemma conflict_start_first:
  "2 \<le> conflict_start es t n \<Longrightarrow> Term (es ! (conflict_start es t n - 2)) \<noteq> t"
  by (induction es t n rule: conflict_start.induct) (auto split: if_splits)

section \<open>The handler\<close>

definition reply_of :: "raft_out list \<Rightarrow> RaftPayload option" where
  "reply_of os = (case rev os of Send _ p # _ \<Rightarrow> Some p | _ \<Rightarrow> None)"

lemma reply_of_simps [simp]:
  "reply_of [Send d p] = Some p" "reply_of (os @ [Send d p]) = Some p"
  by (simp_all add: reply_of_def)

text \<open>The log the handler leaves, written over the two logs only.\<close>

definition follower_log :: "RaftPayload \<Rightarrow> int \<Rightarrow> RaftLogEntry list \<Rightarrow> RaftLogEntry list" where
  "follower_log p t es =
     (let n = nat (pPrevLogIndex p) in
      if pTerm p < t \<or> length es < n then es
      else if 0 < n \<and> Term (es ! (n - 1)) \<noteq> pPrevLogTerm p
        then take (conflict_start es (Term (es ! (n - 1))) n - 1) es
      else take n es @ merge_log (drop n es) (pEntries p))"

text \<open>The consistency check: the message is current and the log has the entry before its entries.\<close>

definition log_accepts :: "RaftPayload \<Rightarrow> int \<Rightarrow> RaftLogEntry list \<Rightarrow> bool" where
  "log_accepts p t es =
     (let n = nat (pPrevLogIndex p) in
      t \<le> pTerm p \<and> n \<le> length es \<and> (n = 0 \<or> Term (es ! (n - 1)) = pPrevLogTerm p))"

definition payload_wf :: "RaftPayload \<Rightarrow> bool" where
  "payload_wf p \<longleftrightarrow> 0 \<le> pPrevLogIndex p \<and> entries_from (nat (pPrevLogIndex p)) (pEntries p)"

lemma small_log_take: "small_log es \<Longrightarrow> small_log (take n es)"
  by (auto simp: small_log_def log_wf_take)

lemma small_log_follower:
  assumes "small_log es" and "payload_wf p"
  shows "small_log (follower_log p t es)"
proof -
  have "small_log (take (nat (pPrevLogIndex p)) es @ merge_log (drop (nat (pPrevLogIndex p)) es) (pEntries p))"
    if "\<not> length es < nat (pPrevLogIndex p)"
    using that assms by (intro small_log_merge) (simp_all add: payload_wf_def)
  then show ?thesis using assms(1) small_log_take by (simp add: follower_log_def Let_def)
qed

lemma advance_commit_to_ok:
  assumes "0 \<le> LastApplied rc"
  shows "\<exists>rc' o1. advance_commit_to L c rc = Some (rc', o1) \<and> Log rc' = Log rc \<and>
    LastApplied rc \<le> LastApplied rc' \<and> CurrentTerm rc' = CurrentTerm rc \<and> VotedFor rc' = VotedFor rc \<and>
    Role rc' = Role rc \<and> rcGroup rc' = rcGroup rc \<and> ID rc' = ID rc \<and>
    CommitIndex rc' = (if CommitIndex rc < c then min c (int (length (Log rc))) else CommitIndex rc)"
proof (cases "CommitIndex rc < c")
  case False
  then show ?thesis by (simp add: advance_commit_to_def)
next
  case True
  let ?rc = "rc\<lparr>CommitIndex := min c (int (length (Log rc)))\<rparr>"
  obtain rc1 o1 where a: "applyLogToStateMachine L ?rc = Some (rc1, o1)"
    using applyLog_total [of ?rc L] assms by auto
  from applyLog_frame [OF a] True show ?thesis
    by (simp add: advance_commit_to_def a persistTermAndVote_def)
qed

lemma core_fields [simp]:
  "Log (resetElectionTimer now r rc) = Log rc" "LastApplied (resetElectionTimer now r rc) = LastApplied rc"
  "CommitIndex (resetElectionTimer now r rc) = CommitIndex rc"
  "CurrentTerm (resetElectionTimer now r rc) = CurrentTerm rc"
  "VotedFor (resetElectionTimer now r rc) = VotedFor rc" "Role (resetElectionTimer now r rc) = Role rc"
  "store (resetElectionTimer now r rc) = store rc" "rcGroup (resetElectionTimer now r rc) = rcGroup rc"
  "ID (resetElectionTimer now r rc) = ID rc" "voteResult (resetElectionTimer now r rc) = voteResult rc"
  "Peers (resetElectionTimer now r rc) = Peers rc"
  "Log (switchToFollower L now r t rc) = Log rc"
  "LastApplied (switchToFollower L now r t rc) = LastApplied rc"
  "CommitIndex (switchToFollower L now r t rc) = CommitIndex rc"
  "CurrentTerm (switchToFollower L now r t rc) = t" "VotedFor (switchToFollower L now r t rc) = []"
  "Role (switchToFollower L now r t rc) = Follower" "rcGroup (switchToFollower L now r t rc) = rcGroup rc"
  "ID (switchToFollower L now r t rc) = ID rc" "Peers (switchToFollower L now r t rc) = Peers rc"
  "voteResult (switchToFollower L now r t rc) = voteResult rc"
  by (simp_all add: resetElectionTimer_def switchToFollower_def persistTermAndVote_def)

lemma lastLog_small [simp]: "small_log es \<Longrightarrow> fst (lastLog es) = int (length es)"
  by (simp add: lastLog_def small_log_def log_wf_last)

lemma appendEntries_accept_ok:
  assumes "small_log (Log rc)" and "0 \<le> LastApplied rc" and "payload_wf p"
    and "nat (pPrevLogIndex p) \<le> length (Log rc)"
  shows "\<exists>rc' o1 q. appendEntries_accept L now r p rc = Some (rc', o1) \<and> reply_of o1 = Some q \<and>
    Log rc' = take (nat (pPrevLogIndex p)) (Log rc) @
      merge_log (drop (nat (pPrevLogIndex p)) (Log rc)) (pEntries p) \<and>
    small_log (Log rc') \<and> LastApplied rc \<le> LastApplied rc' \<and>
    pSuccess q \<and> pTerm q = CurrentTerm rc \<and> pCommitIndex q = int (length (Log rc'))"
proof -
  let ?n = "nat (pPrevLogIndex p)"
  let ?es = "take ?n (Log rc) @ merge_log (drop ?n (Log rc)) (pEntries p)"
  have wf: "entries_from ?n (pEntries p)" using assms(3) by (simp add: payload_wf_def)
  obtain st where f: "foldM (core_append L (rcGroup rc)) (pEntries p) (Log rc, store rc) = Some (?es, st)"
    using append_loop_merge [OF assms(1,4) wf] by blast
  have small: "small_log ?es" by (rule small_log_merge [OF assms(1,4) wf])
  obtain rc1 o1 where a: "advance_commit_to L (pLeaderCommit p) (rc\<lparr>Log := ?es, store := st\<rparr>) = Some (rc1, o1)"
    and l: "Log rc1 = ?es" "LastApplied rc \<le> LastApplied rc1" "CurrentTerm rc1 = CurrentTerm rc"
    using advance_commit_to_ok [of "rc\<lparr>Log := ?es, store := st\<rparr>" L "pLeaderCommit p"] assms(2) by auto
  show ?thesis
    using small l by (simp add: appendEntries_accept_def f a replyAppendEntries_def getLastLogIndex_def)
qed

section \<open>Properties\<close>


definition ex_append :: RaftPayload where
  "ex_append = zero_payload\<lparr>pType := AppendEntries, pTerm := 2, pLeaderId := ''b'',
     pPrevLogIndex := 1, pPrevLogTerm := 1, pEntries := [ex_entry 2 2], pLeaderCommit := 1\<rparr>"


text \<open>
  Leader a of term 2 has committed nothing beyond index 1 and is the only node with its entry 2;
  follower b holds another entry 2 of term 1. The heartbeat built from \<open>NextIndex b = 2\<close> is one the
  leader sends after it was elected with a log of length 1.
\<close>

definition ex_leader :: "(string \<times> goval) list RaftCore" where
  "ex_leader = (ex_core [''a'', ''b'', ''c''] [(''b'', 0), (''c'', 0)] [ex_entry 1 1, ex_entry 2 2] 2)
     \<lparr>NextIndex := [''b'' \<mapsto> 2, ''c'' \<mapsto> 2], CommitIndex := 1, LastApplied := 1\<rparr>"

definition ex_follower :: "(string \<times> goval) list RaftCore" where
  "ex_follower = (ex_core [''a'', ''b'', ''c''] [] [ex_entry 1 1, ex_entry 2 1] 2)
     \<lparr>ID := ''b'', Role := Follower, VotedFor := []\<rparr>"


definition ex_stored :: "(string \<times> goval) list RaftCore" where
  "ex_stored = (ex_core [''a'', ''b''] [] [ex_entry 1 1, ex_entry 2 1, ex_entry 3 1] 2)
     \<lparr>Role := Follower, store := fold (SaveLog alist_db ''g'')
       [ex_entry 1 1, ex_entry 2 1, ex_entry 3 1] \<lparr>db = Some [], NodeId = ''a''\<rparr>\<rparr>"

lemma pad20_small:
  "pad20 1 = ''00000000000000000001''" "pad20 2 = ''00000000000000000002''" "pad20 3 = ''00000000000000000003''"
  by code_simp+

text \<open>
  The append loop cuts the log in memory but not the stored log: a follower with three stored entries of
  term 1 that takes over entry 2 of term 2 has two entries in memory, but a restart loads three, the
  last of them the entry of term 1 that was cut.
\<close>

theorem truncated_entries_come_back:
  "\<exists>rc' os. handleAppendEntries alist_db 0 0 (ex_append\<lparr>pLeaderCommit := 0\<rparr>) ex_stored = Some (rc', os) \<and>
     Log rc' = [ex_entry 1 1, ex_entry 2 2] \<and>
     LoadLogs alist_db ''g'' (store rc') = [ex_entry 1 1, ex_entry 2 2, ex_entry 3 1]"
proof -
  let ?es = "[ex_entry 1 1, ex_entry 2 1, ex_entry 3 1]"
  define st where "st = fold (SaveLog alist_db ''g'') ?es \<lparr>db = Some [], NodeId = ''a''\<rparr>"
  have idx: "Index (ex_entry i t) = i" "Term (ex_entry i t) = t" for i t by (simp_all add: ex_entry_def)
  have f: "Log ex_stored = ?es" "CurrentTerm ex_stored = 2" "CommitIndex ex_stored = 0"
    "store ex_stored = st" "rcGroup ex_stored = ''g''"
    by (simp_all add: ex_stored_def ex_core_def st_def)
  have p: "pTerm (ex_append\<lparr>pLeaderCommit := 0\<rparr>) = 2" "pPrevLogIndex (ex_append\<lparr>pLeaderCommit := 0\<rparr>) = 1"
    "pPrevLogTerm (ex_append\<lparr>pLeaderCommit := 0\<rparr>) = 1" "pEntries (ex_append\<lparr>pLeaderCommit := 0\<rparr>) = [ex_entry 2 2]"
    "pLeaderCommit (ex_append\<lparr>pLeaderCommit := 0\<rparr>) = 0"
    by (simp_all add: ex_append_def zero_payload_def)
  have "core_append alist_db ''g'' (ex_entry 2 2) (?es, st) =
      Some ([ex_entry 1 1, ex_entry 2 2], SaveLog alist_db ''g'' (ex_entry 2 2) st)"
    by (simp add: core_append_def log_cut_def idx)
  then have h: "\<exists>rc' os. handleAppendEntries alist_db 0 0 (ex_append\<lparr>pLeaderCommit := 0\<rparr>) ex_stored = Some (rc', os) \<and>
      Log rc' = [ex_entry 1 1, ex_entry 2 2] \<and> store rc' = SaveLog alist_db ''g'' (ex_entry 2 2) st"
    by (simp add: handleAppendEntries_def appendEntries_accept_def advance_commit_to_def f p idx
        getLastLogIndex_def lastLog_def Let_def)
  have "LoadLogs alist_db ''g'' (SaveLog alist_db ''g'' (ex_entry 2 2) st) =
      [ex_entry 1 1, ex_entry 2 2, ex_entry 3 1]"
    by (simp add: st_def LoadLogs_def SaveLog_def alist_db_def idx pad20_small makeKey_def group_prefix_def)
  with h show ?thesis by metis
qed

end
