(* ===== verification/Raft_Learner.thy ===== *)
theory Raft_Learner
  imports Raft_Follower
begin

text \<open>
  core/Learner.go: the learner, a node that only receives the log. Its handler also repairs the stored
  log when it cuts its log, which the handler of core/Raft.go does not.
\<close>

section \<open>State\<close>

record 'd RaftLearner =
  lcID :: string
  lcGroup :: string
  lcCurrentTerm :: int
  lcLog :: "RaftLogEntry list"
  lcCommitIndex :: int
  lcLastApplied :: int
  lcLeaderHint :: string
  lcStorage :: "'d Storage"
  IsSnapshotLearner :: bool
  lcSnapshotIndex :: int
  lcSnapshotTerm :: int
  MaxAppliedIndex :: int

section \<open>Operations\<close>

definition learner_reply :: "string \<Rightarrow> bool \<Rightarrow> int \<Rightarrow> int \<Rightarrow> int \<Rightarrow> 'd RaftLearner \<Rightarrow> raft_out" where
  "learner_reply leaderId success conflictTerm conflictIndex invokeId lc =
     Send leaderId (zero_payload\<lparr>pType := AppendEntriesResponse, pTerm := lcCurrentTerm lc,
       pSuccess := success, pLeaderId := leaderId, pConflictTerm := conflictTerm,
       pConflictIndex := conflictIndex, pCommitIndex := int (length (lcLog lc)), pInvokeId := invokeId\<rparr>)"

definition learner_save_meta :: "'d leveldb \<Rightarrow> 'd RaftLearner \<Rightarrow> 'd RaftLearner" where
  "learner_save_meta L lc = lc\<lparr>lcStorage := SaveMeta L (lcGroup lc) (lcCurrentTerm lc) [] (lcCommitIndex lc)
     (lcLastApplied lc) (lcStorage lc)\<rparr>"

definition learner_apply_next :: "'d leveldb \<Rightarrow> 'd RaftLearner \<Rightarrow> ('d RaftLearner \<times> RaftLogEntry) option" where
  "learner_apply_next L lc = do {
     entry \<leftarrow> go_nth (lcLog lc) (lcLastApplied lc);
     let cmd = Command entry;
     let lc1 = lc\<lparr>lcLastApplied := lcLastApplied lc + 1\<rparr>;
     let lc2 = (if Op cmd = op_put
         then lc1\<lparr>lcStorage := PutState L (lcGroup lc1) (cKey cmd) (cValue cmd) (lcStorage lc1)\<rparr>
         else if Op cmd = op_delOp
         then lc1\<lparr>lcStorage := DeleteState L (lcGroup lc1) (cKey cmd) (lcStorage lc1)\<rparr>
         else lc1);
     Some (lc2, entry) }"

text \<open>The loop runs \<open>CommitIndex - LastApplied\<close> rounds, which is the first argument.\<close>

fun learner_apply_loop :: "nat \<Rightarrow> 'd leveldb \<Rightarrow> 'd RaftLearner \<Rightarrow> ('d RaftLearner \<times> raft_out list) option" where
  "learner_apply_loop 0 L lc = Some (lc, [])"
| "learner_apply_loop (Suc n) L lc = do {
     (lc1, entry) \<leftarrow> learner_apply_next L lc;
     (lc2, os) \<leftarrow> learner_apply_loop n L lc1;
     Some (lc2, Applied entry # os) }"

definition learner_applyLog :: "'d leveldb \<Rightarrow> 'd RaftLearner \<Rightarrow> ('d RaftLearner \<times> raft_out list) option" where
  "learner_applyLog L lc = do {
     (lc1, os) \<leftarrow> learner_apply_loop (nat (lcCommitIndex lc - lcLastApplied lc)) L lc;
     Some (learner_save_meta L lc1, os) }"

definition learner_append ::
  "'d leveldb \<Rightarrow> string \<Rightarrow> RaftLogEntry \<Rightarrow> RaftLogEntry list \<times> 'd Storage \<Rightarrow>
     (RaftLogEntry list \<times> 'd Storage) option" where
  "learner_append L g entry = (\<lambda>(es, st). do {
     let logIdx = i64 (Index entry - 1);
     (es1, st1) \<leftarrow> (if logIdx < int (length es) then do {
         x \<leftarrow> go_nth es logIdx;
         if Term x \<noteq> Term entry then do {
           es' \<leftarrow> go_take es logIdx;
           Some (es', DeleteLogsFrom L g (Index entry) st) }
         else Some (es, st) }
       else Some (es, st));
     if int (length es1) < Index entry then Some (es1 @ [entry], SaveLog L g entry st1)
     else Some (es1, st1) })"

definition snapshot_append ::
  "'d leveldb \<Rightarrow> RaftLogEntry \<Rightarrow> 'd RaftLearner \<Rightarrow> 'd RaftLearner option" where
  "snapshot_append L entry lc =
     (if lcSnapshotIndex lc < Index entry then do {
        (es, st) \<leftarrow> learner_append L (lcGroup lc) entry (lcLog lc, lcStorage lc);
        Some (lc\<lparr>lcLog := es, lcStorage := st, MaxAppliedIndex := max (MaxAppliedIndex lc) (Index entry)\<rparr>) }
      else Some lc)"

definition learner_handleForSnapshot ::
  "'d leveldb \<Rightarrow> RaftPayload \<Rightarrow> 'd RaftLearner \<Rightarrow> ('d RaftLearner \<times> raft_out list) option" where
  "learner_handleForSnapshot L p lc = do {
     lc1 \<leftarrow> foldM (snapshot_append L) (pEntries p) lc;
     let lc2 = (if lcCommitIndex lc1 < pLeaderCommit p
         then learner_save_meta L (lc1\<lparr>lcCommitIndex := pLeaderCommit p\<rparr>) else lc1);
     let replyIndex = (if MaxAppliedIndex lc2 = 0 then lcSnapshotIndex lc2 else MaxAppliedIndex lc2);
     Some (lc2, [learner_reply (pLeaderId p) True 0 replyIndex (pInvokeId p) lc2]) }"

definition learner_accept ::
  "'d leveldb \<Rightarrow> RaftPayload \<Rightarrow> 'd RaftLearner \<Rightarrow> ('d RaftLearner \<times> raft_out list) option" where
  "learner_accept L p lc = do {
     (es, st) \<leftarrow> foldM (learner_append L (lcGroup lc)) (pEntries p) (lcLog lc, lcStorage lc);
     let lc1 = lc\<lparr>lcLog := es, lcStorage := st\<rparr>;
     (lc2, os) \<leftarrow> (if lcCommitIndex lc1 < pLeaderCommit p then do {
         (lc2, os) \<leftarrow> learner_applyLog L
           (lc1\<lparr>lcCommitIndex := min (pLeaderCommit p) (int (length (lcLog lc1)))\<rparr>);
         Some (learner_save_meta L lc2, os) }
       else Some (lc1, []));
     Some (lc2, os @ [learner_reply (pLeaderId p) True 0 (int (length (lcLog lc2))) (pInvokeId p) lc2]) }"

definition learner_handleAppendEntries ::
  "'d leveldb \<Rightarrow> RaftPayload \<Rightarrow> 'd RaftLearner \<Rightarrow> ('d RaftLearner \<times> raft_out list) option" where
  "learner_handleAppendEntries L p lc0 =
     (let lc = (if lcCurrentTerm lc0 \<le> pTerm p
                then lc0\<lparr>lcCurrentTerm := pTerm p, lcLeaderHint := pLeaderId p\<rparr> else lc0);
          lastIndex = int (length (lcLog lc))
      in if IsSnapshotLearner lc then learner_handleForSnapshot L p lc
         else if lastIndex < pPrevLogIndex p then
           Some (lc, [learner_reply (pLeaderId p) False 0 (i64 (lastIndex + 1)) (pInvokeId p) lc])
         else if 0 < pPrevLogIndex p then do {
           e \<leftarrow> go_nth (lcLog lc) (pPrevLogIndex p - 1);
           if Term e \<noteq> pPrevLogTerm p then
             let conflictIndex = conflict_start (lcLog lc) (Term e) (nat (pPrevLogIndex p));
                 lc1 = lc\<lparr>lcLog := take (conflictIndex - 1) (lcLog lc),
                   lcStorage := DeleteLogsFrom L (lcGroup lc) (int conflictIndex) (lcStorage lc)\<rparr>
             in Some (lc1, [learner_reply (pLeaderId p) False (Term e) (int conflictIndex) (pInvokeId p) lc1])
           else learner_accept L p lc }
         else learner_accept L p lc)"

definition learner_onRaftMessage ::
  "'d leveldb \<Rightarrow> raft_content option \<Rightarrow> 'd RaftLearner \<Rightarrow> ('d RaftLearner \<times> raft_out list) option" where
  "learner_onRaftMessage L content lc = (case content of
       None \<Rightarrow> Some (lc, [])
     | Some c \<Rightarrow> if pType (as_payload c) = AppendEntries
         then learner_handleAppendEntries L (as_payload c) lc else Some (lc, []))"

definition NewLearnerClient ::
  "'d leveldb \<Rightarrow> string \<Rightarrow> string \<Rightarrow> 'd Storage \<Rightarrow> ('d RaftLearner \<times> raft_out list) option" where
  "NewLearnerClient L nodeID g st = do {
     (t, vf, ci, la, err) \<leftarrow> LoadMeta L g st;
     let lc = \<lparr>lcID = nodeID, lcGroup = g, lcCurrentTerm = t, lcLog = LoadLogs L g st, lcCommitIndex = ci,
       lcLastApplied = la, lcLeaderHint = [], lcStorage = st, IsSnapshotLearner = False,
       lcSnapshotIndex = 0, lcSnapshotTerm = 0, MaxAppliedIndex = 0\<rparr>;
     if la < ci then learner_applyLog L lc else Some (lc, []) }"

section \<open>The stored log follows the log in memory\<close>

lemma learner_append_step:
  assumes ok: "leveldb_ok L" and "small_log es" and m: "log_mirror L g es st"
    and y: "Index y = int n + 1" and n: "n \<le> length es" and b: "int (Suc n) < 2 ^ 63 - 1"
  shows "\<exists>st'. learner_append L g y (es, st) =
      Some (if n < length es \<and> Term (es ! n) = Term y then es else take n es @ [y], st') \<and>
    log_mirror L g (if n < length es \<and> Term (es ! n) = Term y then es else take n es @ [y]) st'"
proof -
  have idx: "i64 (Index y - 1) = int n" "i64 (int n) = int n" using y b by simp_all
  have small: "small_log (take n es @ [y])"
    using assms by (auto simp: small_log_def log_wf_take min_absorb2)
  consider (same) "n < length es" "Term (es ! n) = Term y" | (cut) "n < length es" "Term (es ! n) \<noteq> Term y"
    | (extend) "n = length es" using n by linarith
  then show ?thesis
  proof cases
    case same
    then show ?thesis using m y by (simp add: learner_append_def idx Let_def)
  next
    case cut
    have "log_mirror L g (take n es) (DeleteLogsFrom L g (Index y) st)"
      using mirror_DeleteLogsFrom [OF ok m assms(2), of "Index y"] y by simp
    from mirror_SaveLog [OF ok this small] cut y n show ?thesis
      by (simp add: learner_append_def idx Let_def)
  next
    case extend
    with mirror_SaveLog [OF ok m, of y] small y idx(2) show ?thesis by (simp add: learner_append_def Let_def)
  qed
qed

lemma learner_loop_merge:
  assumes ok: "leveldb_ok L" and "small_log es" and "n \<le> length es" and "entries_from n ents"
    and "log_mirror L g es st"
  shows "\<exists>st'. foldM (learner_append L g) ents (es, st) =
      Some (take n es @ merge_log (drop n es) ents, st') \<and>
    log_mirror L g (take n es @ merge_log (drop n es) ents) st'"
  using assms(2-)
proof (induction ents arbitrary: n es st)
  case Nil
  then show ?case by simp
next
  case (Cons y ys)
  have y: "Index y = int n + 1" and ys: "entries_from (Suc n) ys"
    using entries_from_Cons [OF Cons.prems(3)] by auto
  have b: "int (Suc n) < 2 ^ 63 - 1" using Cons.prems(3) by (simp add: entries_from_def)
  obtain st1 where step: "learner_append L g y (es, st) =
      Some (if n < length es \<and> Term (es ! n) = Term y then es else take n es @ [y], st1)"
    and m1: "log_mirror L g (if n < length es \<and> Term (es ! n) = Term y then es else take n es @ [y]) st1"
    using learner_append_step [OF ok Cons.prems(1,4) y Cons.prems(2) b] by blast
  show ?case
  proof (cases "n < length es \<and> Term (es ! n) = Term y")
    case True
    with m1 have m2: "log_mirror L g es st1" by simp
    from True have "Suc n \<le> length es" by simp
    from Cons.IH [OF Cons.prems(1) this ys m2] True step show ?thesis
      by (simp add: Cons_nth_drop_Suc [symmetric] take_Suc_conv_app_nth)
  next
    case False
    let ?es = "take n es @ [y]"
    have "small_log ?es"
      using Cons.prems(1,2) y b by (auto simp: small_log_def log_wf_take min_absorb2)
    moreover have "Suc n \<le> length ?es" "log_mirror L g ?es st1" using False m1 Cons.prems(2) by (auto split: if_splits)
    ultimately have "\<exists>st'. foldM (learner_append L g) ys (?es, st1) = Some (?es @ ys, st') \<and>
        log_mirror L g (?es @ ys) st'"
      using Cons.IH [of ?es "Suc n" st1] ys Cons.prems(2) by simp
    moreover have "merge_log (drop n es) (y # ys) = y # ys"
    proof (cases "n < length es")
      case True
      then show ?thesis using False by (simp add: Cons_nth_drop_Suc [symmetric])
    qed simp
    ultimately show ?thesis using step False by simp
  qed
qed

section \<open>The apply loop\<close>

lemma learner_apply_next_ok:
  assumes "leveldb_ok L" and "0 \<le> lcLastApplied lc" and "lcLastApplied lc < int (length (lcLog lc))"
    and "log_mirror L (lcGroup lc) (lcLog lc) (lcStorage lc)"
  shows "\<exists>lc1 e. learner_apply_next L lc = Some (lc1, e) \<and> lcLog lc1 = lcLog lc \<and> lcGroup lc1 = lcGroup lc \<and>
    lcLastApplied lc1 = lcLastApplied lc + 1 \<and> lcCommitIndex lc1 = lcCommitIndex lc \<and>
    lcCurrentTerm lc1 = lcCurrentTerm lc \<and> log_mirror L (lcGroup lc1) (lcLog lc1) (lcStorage lc1)"
  using assms(2,3) mirror_other [OF assms(1,4)] assms(4) by (simp add: learner_apply_next_def Let_def)

lemma learner_apply_loop_ok:
  assumes "leveldb_ok L"
  shows "0 \<le> lcLastApplied lc \<Longrightarrow> (0 < n \<Longrightarrow> lcLastApplied lc + int n \<le> int (length (lcLog lc))) \<Longrightarrow>
    log_mirror L (lcGroup lc) (lcLog lc) (lcStorage lc) \<Longrightarrow>
    \<exists>lc1 os. learner_apply_loop n L lc = Some (lc1, os) \<and> lcLog lc1 = lcLog lc \<and> lcGroup lc1 = lcGroup lc \<and>
      lcCommitIndex lc1 = lcCommitIndex lc \<and> lcLastApplied lc1 = lcLastApplied lc + int n \<and>
      log_mirror L (lcGroup lc1) (lcLog lc1) (lcStorage lc1)"
proof (induction n arbitrary: lc)
  case 0
  then show ?case by simp
next
  case (Suc n)
  then obtain lc1 e where 1: "learner_apply_next L lc = Some (lc1, e)" "lcLog lc1 = lcLog lc"
    "lcGroup lc1 = lcGroup lc" "lcLastApplied lc1 = lcLastApplied lc + 1" "lcCommitIndex lc1 = lcCommitIndex lc"
    "log_mirror L (lcGroup lc1) (lcLog lc1) (lcStorage lc1)"
    using learner_apply_next_ok [OF assms, of lc] by auto
  with Suc.IH [of lc1] Suc.prems show ?case by auto
qed

lemma learner_save_meta_fields [simp]:
  "lcLog (learner_save_meta L lc) = lcLog lc" "lcGroup (learner_save_meta L lc) = lcGroup lc"
  "lcCommitIndex (learner_save_meta L lc) = lcCommitIndex lc"
  "lcLastApplied (learner_save_meta L lc) = lcLastApplied lc"
  by (simp_all add: learner_save_meta_def)

lemma learner_save_meta_mirror:
  "leveldb_ok L \<Longrightarrow> log_mirror L g es (lcStorage lc) \<Longrightarrow> lcGroup lc = g \<Longrightarrow>
     log_mirror L g es (lcStorage (learner_save_meta L lc))"
  by (auto simp: learner_save_meta_def mirror_other(1))

lemma learner_accept_ok:
  assumes ok: "leveldb_ok L" and "small_log (lcLog lc)" and "payload_wf p"
    and "nat (pPrevLogIndex p) \<le> length (lcLog lc)" and "0 \<le> lcLastApplied lc"
    and m: "log_mirror L (lcGroup lc) (lcLog lc) (lcStorage lc)"
  shows "\<exists>lc' os q. learner_accept L p lc = Some (lc', os) \<and> reply_of os = Some q \<and> pSuccess q \<and>
    lcLog lc' = take (nat (pPrevLogIndex p)) (lcLog lc) @
      merge_log (drop (nat (pPrevLogIndex p)) (lcLog lc)) (pEntries p) \<and>
    log_mirror L (lcGroup lc) (lcLog lc') (lcStorage lc') \<and> lcGroup lc' = lcGroup lc"
proof -
  let ?n = "nat (pPrevLogIndex p)"
  let ?es = "take ?n (lcLog lc) @ merge_log (drop ?n (lcLog lc)) (pEntries p)"
  have "entries_from ?n (pEntries p)" using assms(3) by (simp add: payload_wf_def)
  from learner_loop_merge [OF ok assms(2,4) this m] obtain st where
    f: "foldM (learner_append L (lcGroup lc)) (pEntries p) (lcLog lc, lcStorage lc) = Some (?es, st)"
    and m1: "log_mirror L (lcGroup lc) ?es st" by blast
  define lc1 where "lc1 = lc\<lparr>lcLog := ?es, lcStorage := st\<rparr>"
  show ?thesis
  proof (cases "lcCommitIndex lc < pLeaderCommit p")
    case False
    with f m1 show ?thesis by (simp add: learner_accept_def learner_reply_def Let_def)
  next
    case True
    define lc2 where "lc2 = lc1\<lparr>lcCommitIndex := min (pLeaderCommit p) (int (length ?es))\<rparr>"
    have bound: "0 < nat (lcCommitIndex lc2 - lcLastApplied lc2) \<Longrightarrow> lcLastApplied lc2 + int (nat (lcCommitIndex lc2 - lcLastApplied lc2)) \<le> int (length (lcLog lc2))"
      using True by (auto simp: lc2_def lc1_def min_def)
    obtain lc3 os where a: "learner_apply_loop (nat (lcCommitIndex lc2 - lcLastApplied lc2)) L lc2 = Some (lc3, os)"
      "lcLog lc3 = ?es" "lcGroup lc3 = lcGroup lc" "log_mirror L (lcGroup lc) ?es (lcStorage lc3)"
      using learner_apply_loop_ok [OF ok _ bound] assms(5) m1 by (auto simp: lc2_def lc1_def)
    have "learner_applyLog L lc2 = Some (learner_save_meta L lc3, os)" by (simp add: learner_applyLog_def a)
    with f True have "learner_accept L p lc = Some (learner_save_meta L (learner_save_meta L lc3),
        os @ [learner_reply (pLeaderId p) True 0 (int (length ?es)) (pInvokeId p)
          (learner_save_meta L (learner_save_meta L lc3))])"
      by (simp add: learner_accept_def lc2_def lc1_def a Let_def)
    then show ?thesis
      using a learner_save_meta_mirror [OF ok] by (simp add: learner_reply_def)
  qed
qed

section \<open>Properties\<close>


definition ex_learner :: "bool \<Rightarrow> int \<Rightarrow> (string \<times> goval) list RaftLearner" where
  "ex_learner snap si = \<lparr>lcID = ''l'', lcGroup = ''g'', lcCurrentTerm = 2, lcLog = [], lcCommitIndex = si,
     lcLastApplied = 0, lcLeaderHint = [], lcStorage = \<lparr>db = Some [], NodeId = ''l''\<rparr>,
     IsSnapshotLearner = snap, lcSnapshotIndex = si, lcSnapshotTerm = 0, MaxAppliedIndex = 0\<rparr>"

definition ex_entries :: "RaftLogEntry list \<Rightarrow> int \<Rightarrow> int \<Rightarrow> int \<Rightarrow> RaftPayload" where
  "ex_entries ents prev prevTerm c = zero_payload\<lparr>pType := AppendEntries, pTerm := 2, pLeaderId := ''a'',
     pPrevLogIndex := prev, pPrevLogTerm := prevTerm, pEntries := ents, pLeaderCommit := c, pGroup := ''g''\<rparr>"

lemma ex_entries_fields [simp]:
  "pEntries (ex_entries es i t c) = es" "pPrevLogIndex (ex_entries es i t c) = i"
  "pPrevLogTerm (ex_entries es i t c) = t" "pTerm (ex_entries es i t c) = 2"
  "pLeaderCommit (ex_entries es i t c) = c" "pLeaderId (ex_entries es i t c) = ''a''"
  by (simp_all add: ex_entries_def zero_payload_def)


text \<open>
  A snapshot learner appends a repeated entry again: after a snapshot at index 5, receiving the
  committed entry 6 twice leaves two copies of it in the log, and neither copy is ever applied
  although the learner's commit index is 6.
\<close>

theorem snapshot_learner_repeats_and_skips:
  "\<exists>lc1 lc2 q1 q2. learner_handleAppendEntries alist_db (ex_entries [ex_entry 6 2] 5 2 6) (ex_learner True 5) =
       Some (lc1, [Send ''a'' q1]) \<and>
     learner_handleAppendEntries alist_db (ex_entries [ex_entry 6 2] 5 2 6) lc1 = Some (lc2, [Send ''a'' q2]) \<and>
     lcLog lc2 = [ex_entry 6 2, ex_entry 6 2] \<and> lcCommitIndex lc2 = 6 \<and> lcLastApplied lc2 = 0"
proof -
  have a: "learner_append alist_db ''g'' (ex_entry 6 2) (es, st) =
      Some (es @ [ex_entry 6 2], SaveLog alist_db ''g'' (ex_entry 6 2) st)" if "length es < 5" for es st
    using that by (simp add: learner_append_def ex_entry_def Let_def)
  have "Index (ex_entry 6 2) = 6" by (simp add: ex_entry_def)
  with a show ?thesis
    by (simp add: learner_handleAppendEntries_def learner_handleForSnapshot_def snapshot_append_def
        ex_learner_def learner_reply_def Let_def learner_save_meta_def)
qed

end
