(* ===== verification/Net_Types.thy ===== *)
theory Net_Types
  imports Raft_Learner "HOL-Library.Word"
begin

text \<open>
  The data of the overlay network: core/Message.go, the structs of core/Link.go, core/Channel.go,
  core/RPC.go and core/RaftManager.go, and the state of a node (\<open>Node\<close> in core/Node.go).

  \<^item> \<open>Message.Data\<close> is a string that holds the JSON or MessagePack text of a value. It is modelled by
    the value itself, a \<open>Payload\<close>; unmarshalling a payload of another type is the error branch.
  \<^item> Times are integers (nanoseconds, milliseconds in core/Elect.go), read as an argument \<open>now\<close>.
  \<^item> A function value (a subscription or RPC callback) is a handle, an \<open>int\<close>; the function it
    stands for is a parameter of the operation that calls it.
  \<^item> \<open>go f()\<close> is an output \<open>Go\<close> with the call; running the call is a separate operation, so that
    every interleaving of the goroutines is a sequence of operations.
\<close>

section \<open>Messages\<close>

datatype MessageType =
    HeartBeat | CostRequest | CostAck | Quit | Hello | TcpRegister | Other | TopicInit | TopicExit
  | TopicPublish | TopicSubscribeFlood | RpcRequest | RpcResponse | RpcServiceFlood | P2PMessage
  | FRPData | FRPAck | FRPClose | FRPResendRequest | RaftTopicInit | RaftTopicExit
  | RaftTopicPublish | RaftTopicSubscribeFlood | RaftMessage | RaftLearnerJoin

text \<open>The value of each constant of the enumeration (\<open>iota\<close>).\<close>

primrec type_num :: "MessageType \<Rightarrow> nat" where
  "type_num HeartBeat = 0"
| "type_num CostRequest = 1"
| "type_num CostAck = 2"
| "type_num Quit = 3"
| "type_num Hello = 4"
| "type_num TcpRegister = 5"
| "type_num Other = 6"
| "type_num TopicInit = 7"
| "type_num TopicExit = 8"
| "type_num TopicPublish = 9"
| "type_num TopicSubscribeFlood = 10"
| "type_num RpcRequest = 11"
| "type_num RpcResponse = 12"
| "type_num RpcServiceFlood = 13"
| "type_num P2PMessage = 14"
| "type_num FRPData = 15"
| "type_num FRPAck = 16"
| "type_num FRPClose = 17"
| "type_num FRPResendRequest = 18"
| "type_num RaftTopicInit = 19"
| "type_num RaftTopicExit = 20"
| "type_num RaftTopicPublish = 21"
| "type_num RaftTopicSubscribeFlood = 22"
| "type_num RaftMessage = 23"
| "type_num RaftLearnerJoin = 24"

lemma type_num_inject: "type_num s = type_num t \<longleftrightarrow> s = t"
  by (cases s; cases t) simp_all

definition checkBroadCast :: "MessageType \<Rightarrow> bool" where
  "checkBroadCast t \<longleftrightarrow> t = HeartBeat \<or> t = Hello \<or> t = TopicInit \<or> t = TopicExit \<or>
     t = TopicPublish \<or> t = TopicSubscribeFlood \<or> t = RpcServiceFlood"

record Link =
  Source :: string
  Target :: string
  Cost :: int
  Version :: int
  lkChannel :: string
  LastUpdateTime :: int

type_synonym LinkSet = "(string \<times> (string \<times> Link) list) list"

type_synonym params = "(string \<times> goval) list"

datatype Payload =
    Text string                                        \<comment> \<open>text that is used as it is\<close>
  | LinksJson LinkSet                                  \<comment> \<open>\<open>LinkSetType\<close>\<close>
  | SubsJson string "string list"                      \<comment> \<open>\<open>SubscriptionInfo\<close>: node, topics\<close>
  | RaftSubsJson string "string list"                  \<comment> \<open>\<open>RaftSubscriptionInfo\<close>: node, groups\<close>
  | RpcsJson string "(string \<times> string) list"           \<comment> \<open>\<open>RpcServiceInfo\<close>: node, functions\<close>
  | RpcReqJson string params                           \<comment> \<open>\<open>RPC_Request\<close>: function, parameters\<close>
  | RpcRespJson string goval string                    \<comment> \<open>\<open>RPC_Resp\<close>: function, result, error\<close>
  | RaftJson RaftPayload                               \<comment> \<open>\<open>RaftPayload\<close>\<close>
  | ObjJson params                                     \<comment> \<open>any other object\<close>

record Message =
  mType :: MessageType
  mData :: Payload
  BundleTo :: "string list"
  Entity :: string
  mFrom :: string
  mTo :: string
  mRoute :: string
  mTTL :: "16 word"
  Lost :: bool
  VersionSeq :: "64 word"
  LastSender :: string
  mInvokeId :: int

text \<open>The zero value of the struct, on which composite literals are built.\<close>

definition zero_message :: Message where
  "zero_message = \<lparr>mType = HeartBeat, mData = Text [], BundleTo = [], Entity = [], mFrom = [],
     mTo = [], mRoute = [], mTTL = 0, Lost = False, VersionSeq = 0, LastSender = [], mInvokeId = 0\<rparr>"

definition isImportant :: "Message \<Rightarrow> bool" where
  "isImportant m = (if mType m = Other then False else True)"

definition isFrp :: "Message \<Rightarrow> bool" where
  "isFrp m = (case mType m of FRPData \<Rightarrow> True | FRPAck \<Rightarrow> True | FRPClose \<Rightarrow> True
     | FRPResendRequest \<Rightarrow> True | _ \<Rightarrow> False)"

text \<open>\<open>fmt.Sprintf("%s-%d-%d", From, VersionSeq, Type)\<close>, the key of the duplicate check.\<close>

definition generateMsgKey :: "Message \<Rightarrow> string" where
  "generateMsgKey m = mFrom m @ ''-'' @ nat_dec (unat (VersionSeq m)) @ ''-'' @ nat_dec (type_num (mType m))"

lemma generateMsgKey_eq:
  "generateMsgKey m = generateMsgKey m' \<longleftrightarrow>
     mFrom m = mFrom m' \<and> VersionSeq m = VersionSeq m' \<and> mType m = mType m'"
proof
  assume k: "generateMsgKey m = generateMsgKey m'"
  have e: "generateMsgKey x = (mFrom x @ CHR ''-'' # nat_dec (unat (VersionSeq x))) @
      CHR ''-'' # nat_dec (type_num (mType x))" for x
    by (simp add: generateMsgKey_def)
  have nd: "CHR ''-'' \<notin> set (nat_dec n)" for n by (simp add: nat_dec_no_sep)
  from append_sep_last [OF k [unfolded e] nd nd]
  have 1: "mFrom m @ CHR ''-'' # nat_dec (unat (VersionSeq m)) =
      mFrom m' @ CHR ''-'' # nat_dec (unat (VersionSeq m'))" and 2: "mType m = mType m'"
    by (simp_all add: type_num_inject)
  from append_sep_last [OF 1 nd nd] 2
  show "mFrom m = mFrom m' \<and> VersionSeq m = VersionSeq m' \<and> mType m = mType m'"
    by (simp add: word_unat_eq_iff)
qed (simp add: generateMsgKey_def)

section \<open>Channels\<close>

record Connection =
  LastRecvTime :: int
  LastSendTime :: int

text \<open>\<open>HNode\<close> and \<open>Worker\<close> are the node that owns the channel and the transport behind it.\<close>

record Channel =
  chID :: string
  ChannelPeers :: "(string \<times> Connection) list"

section \<open>Remote procedure calls\<close>

record RPC_Func =
  fnNote :: string
  fnCallback :: "int option"

record RPC_Stub =
  stTarget :: string
  stParams :: params
  stFun :: string

section \<open>Raft groups of a node\<close>

record 'd RaftManager =
  RaftGroup :: "string list"
  RaftStubs :: "string \<rightharpoonup> 'd RaftCore"
  LearnerStubs :: "string \<rightharpoonup> 'd RaftLearner"
  RaftPeers :: "(string \<times> string list) list"

definition NewRaftManager :: "'d RaftManager" where
  "NewRaftManager = \<lparr>RaftGroup = [], RaftStubs = Map.empty, LearnerStubs = Map.empty, RaftPeers = []\<rparr>"

section \<open>Nodes\<close>

datatype NodeStatus = Active | Inactive

record NodePeer =
  LastActiveTime :: int
  Status :: NodeStatus

record RouteEntry =
  LocalChannelID :: string
  nextHopNodeID :: string

type_synonym RoutingTable = "(string \<times> RouteEntry list) list"

text \<open>
  \<open>TotalSubs\<close> is \<open>None\<close> when the Go map is nil. The registry of HTTP proxies, the web servers, the FRP
  stubs and the election manager (\<open>Elect\<close>) are the state of other components.
\<close>

record 'd Node =
  nID :: string
  NodePeers :: "(string \<times> NodePeer) list"
  nRoutes :: RoutingTable
  nLinks :: LinkSet
  Channels :: "(string \<times> Channel) list"
  RetryQueue :: "Message list"
  ReceivedMsgs :: "string list"
  MessageVersionCounter :: int
  MyLinksVersion :: int
  MySubs :: "(string \<times> (string \<times> int) list) list"
  TotalSubs :: "(string \<times> string list) list option"
  InvokedId :: int
  ActiveStubs :: "int \<rightharpoonup> RPC_Stub"
  RpcFuncs :: "(string \<times> (string \<times> RPC_Func) list) list"
  ReceivedRpcCache :: "(string \<times> int) list"
  TotalRpcs :: "(string \<times> (string \<times> string) list) list"
  ClientIDs :: "string list"
  nRaft :: "'d RaftManager"

definition NewNode :: "string \<Rightarrow> 'd Node" where
  "NewNode i = \<lparr>nID = i, NodePeers = [], nRoutes = [], nLinks = [], Channels = [], RetryQueue = [],
     ReceivedMsgs = [], MessageVersionCounter = 0, MyLinksVersion = 0, MySubs = [], TotalSubs = Some [],
     InvokedId = 0, ActiveStubs = Map.empty, RpcFuncs = [], ReceivedRpcCache = [], TotalRpcs = [],
     ClientIDs = [], nRaft = NewRaftManager\<rparr>"

definition NewNodeWithChannel :: "string \<Rightarrow> (string \<times> Channel) list \<Rightarrow> 'd Node" where
  "NewNodeWithChannel i chs = (NewNode i)\<lparr>Channels := chs\<rparr>"

section \<open>Outputs and spawned calls\<close>

datatype task =
    T_handleHeartbeat Message
  | T_handleTopicInit Message
  | T_handleTopicExit Message
  | T_handleSubscribeFlood Message
  | T_handleRpcServiceFlood Message
  | T_handleRaftSubscribeFlood Message
  | T_handleFrpMessages Message
  | T_removePeer string
  | T_handleBundle Message string string
  | T_handleRaftBundle Message string string
  | T_handleRpcRequest Message
  | T_handleRpcResponse Message
  | T_addToRetryQueue Message
  | T_sendTo string Message
  | T_floodRpcServices
  | T_onRaftMessage string string Payload       \<comment> \<open>group, sender, content: the Raft node\<close>
  | T_onLearnerMessage string string Payload    \<comment> \<open>the learner of the group\<close>
  | T_linkUpdateFromChannel Link
  | T_onRecv string Message
  | T_updateTotalRpcs string "(string \<times> string) list"
  | T_checkCost string
  | T_channelCostRequest string string Message  \<comment> \<open>\<open>channel.handleCostRequest\<close>: channel, source\<close>
  | T_channelCostAck string string Message
  | T_channelHello string string Message
  | T_channelHeartbeat string string Message
  | T_buildRoutingTable
  | T_checkOutOfDateLinks
  | T_electMainLoop string               \<comment> \<open>the loop of the candidate of a group\<close>

datatype net_out =
    Broadcast string Message           \<comment> \<open>\<open>go channel.broadCast(msg)\<close> on the channel with this key\<close>
  | SendOn string string Message       \<comment> \<open>\<open>go channel.send(nextHop, msg)\<close> on the channel\<close>
  | WorkerSend string string Message   \<comment> \<open>\<open>go channel.Worker.sendTo(nextHop, msg)\<close>\<close>
  | WorkerBroadcast string Message     \<comment> \<open>\<open>go channel.Worker.broadCast(msg)\<close>\<close>
  | CallSub int string string string string  \<comment> \<open>\<open>go cb(topic, from, to, content)\<close>\<close>
  | ClientPackage string string goval  \<comment> \<open>a package for a client: client, source node, message\<close>
  | StubResult int goval               \<comment> \<open>a value sent to the result channel of an RPC stub\<close>
  | RaftOut string raft_out            \<comment> \<open>an output of the Raft node of the group\<close>
  | Go task

definition addMessageCounter :: "'d Node \<Rightarrow> 'd Node" where
  "addMessageCounter n = n\<lparr>MessageVersionCounter := i64 (MessageVersionCounter n + 1)\<rparr>"

definition addGlobalLinkVersion :: "'d Node \<Rightarrow> 'd Node" where
  "addGlobalLinkVersion n = n\<lparr>MyLinksVersion := i64 (MyLinksVersion n + 1)\<rparr>"

definition addInvokedId :: "'d Node \<Rightarrow> 'd Node" where
  "addInvokedId n = n\<lparr>InvokedId := i64 (InvokedId n + 1)\<rparr>"

definition setGlobalLinkVersion :: "int \<Rightarrow> 'd Node \<Rightarrow> 'd Node" where
  "setGlobalLinkVersion v n = n\<lparr>MyLinksVersion := i64 (MyLinksVersion n + v)\<rparr>"

text \<open>Setting \<open>VersionSeq\<close> from the counter of the node and advancing the counter.\<close>

definition stamp :: "Message \<Rightarrow> 'd Node \<Rightarrow> Message \<times> 'd Node" where
  "stamp m n = (m\<lparr>VersionSeq := word_of_int (MessageVersionCounter n)\<rparr>, addMessageCounter n)"

definition broadcast_all :: "Message \<Rightarrow> 'd Node \<Rightarrow> net_out list" where
  "broadcast_all m n = map (\<lambda>(c, _). Broadcast c m) (Channels n)"

lemma addMessageCounter_simps [simp]:
  "nID (addMessageCounter n) = nID n" "nRoutes (addMessageCounter n) = nRoutes n"
  "Channels (addMessageCounter n) = Channels n" "MySubs (addMessageCounter n) = MySubs n"
  "TotalSubs (addMessageCounter n) = TotalSubs n" "nLinks (addMessageCounter n) = nLinks n"
  "ReceivedMsgs (addMessageCounter n) = ReceivedMsgs n" "RetryQueue (addMessageCounter n) = RetryQueue n"
  "nRaft (addMessageCounter n) = nRaft n"
  by (simp_all add: addMessageCounter_def)

end
