(* ===== verification/Web_Client.thy ===== *)
theory Web_Client
  imports Net_Types
begin

text \<open>
  api/MajulaClient.go: the library with which a program uses a node over a WebSocket, and the packages that
  both ends exchange.

  \<^item> A package on the wire is modelled by the package itself.
  \<^item> A channel for a result has room for one value, and outlives its entry in the table, because the caller
    waits on it: \<open>resultChans\<close> is the store of these channels, and the table has positions in it.
  \<^item> Functions are handles, and calling one is an output.
  \<^item> Queueing a package waits while the queue is full: the result is then \<open>None\<close>, and the operation can
    only be tried again.
  \<^item> An operation that waits for a result is split: \<open>_begin\<close> asks, \<open>call_wait\<close> is the rest.
\<close>

section \<open>State\<close>

record MajulaPackage =
  pkMethod :: string
  pkTopic :: string
  pkFun :: string
  pkArgs :: params
  pkInvokeId :: int
  pkResult :: goval

text \<open>The zero value with a method.\<close>

definition package :: "string \<Rightarrow> MajulaPackage" where
  "package m = \<lparr>pkMethod = m, pkTopic = [], pkFun = [], pkArgs = [], pkInvokeId = 0, pkResult = GNil\<rparr>"

record RpcMeta =
  rmParameters :: goval
  rmResults :: goval
  rmNote :: string

record MajulaClient =
  mcAddr :: string
  mcEntity :: string
  mcConnected :: bool
  mcCancelled :: bool
  mcInvokeId :: int
  SendQueue :: "MajulaPackage list"
  RpcResult :: "(int \<times> nat) list"
  resultChans :: "goval option list"
  wrRpcFuncs :: "(string \<times> int) list"
  wrSubFuncs :: "(string \<times> int) list"

datatype client_out =
    GoRpcHandler int string params int   \<comment> \<open>handle, function, arguments, id of the call\<close>
  | GoPrivateHandler int params
  | LogPrivate params
  | CallSubHandler int string params
  | Wire MajulaPackage
  | CloseWire

definition NewMajulaClient :: "string \<Rightarrow> string \<Rightarrow> MajulaClient" where
  "NewMajulaClient addr entity = \<lparr>mcAddr = addr, mcEntity = entity, mcConnected = False, mcCancelled = False,
     mcInvokeId = 0, SendQueue = [], RpcResult = [], resultChans = [], wrRpcFuncs = [], wrSubFuncs = []\<rparr>"

section \<open>Sending and connecting\<close>

definition cl_Send :: "MajulaPackage \<Rightarrow> MajulaClient \<Rightarrow> MajulaClient option" where
  "cl_Send msg c = (if length (SendQueue c) < 1024 then Some (c\<lparr>SendQueue := SendQueue c @ [msg]\<rparr>) else None)"

definition formatWsUrl :: "MajulaClient \<Rightarrow> string" where
  "formatWsUrl c =
     (let url = (if take 7 (mcAddr c) = ''http://'' then ''ws://'' @ drop 7 (mcAddr c)
        else if take 8 (mcAddr c) = ''https://'' then ''wss://'' @ drop 8 (mcAddr c)
        else mcAddr c)
      in url @ ''/majula/ws/'' @ mcEntity c)"

definition RegisterClientID :: "MajulaClient \<Rightarrow> MajulaClient option" where
  "RegisterClientID c = cl_Send ((package ''REGISTER_CLIENT'')\<lparr>pkArgs := [(''client_id'', GStr (mcEntity c))]\<rparr>) c"

text \<open>The range loops over the two tables, in the order of the association lists.\<close>

definition RestoreState :: "MajulaClient \<Rightarrow> MajulaClient option" where
  "RestoreState c = do {
     c1 \<leftarrow> foldM (\<lambda>(topic, _). cl_Send ((package ''SUBSCRIBE'')\<lparr>pkTopic := topic\<rparr>)) (wrSubFuncs c) c;
     foldM (\<lambda>(fun, _). cl_Send ((package ''REGISTER_RPC'')\<lparr>pkFun := fun\<rparr>)) (wrRpcFuncs c) c1 }"

text \<open>
  A round of \<open>mainLoop\<close>: the connection is made, or the number of failures and the delay in milliseconds.
  After a connection the loop only waits for the end of the client.
\<close>

definition dial_delay :: "int \<Rightarrow> int" where
  "dial_delay failures = min 3000 (100 + failures * 100)"

definition mainLoop_round :: "bool \<Rightarrow> int \<Rightarrow> MajulaClient \<Rightarrow> (int \<times> int + MajulaClient) option" where
  "mainLoop_round dialed failures c =
     (if dialed then do {
        c1 \<leftarrow> RegisterClientID (c\<lparr>mcConnected := True\<rparr>);
        c2 \<leftarrow> RestoreState c1;
        Some (Inr c2) }
      else Some (Inl (failures + 1, dial_delay (failures + 1))))"

definition mainLoop_end :: "client_out list" where
  "mainLoop_end = [CloseWire]"

text \<open>A round of \<open>sendLoop\<close>: whether it goes on. With a message and the end both ready, either may be taken.\<close>

definition sendLoop_round :: "bool \<Rightarrow> bool \<Rightarrow> MajulaClient \<Rightarrow> (bool \<times> MajulaClient \<times> client_out list) option" where
  "sendLoop_round take_end write_ok c =
     (if \<not> mcConnected c then Some (False, c, [])
      else if mcCancelled c \<and> take_end then Some (False, c\<lparr>mcConnected := False\<rparr>, [])
      else (case SendQueue c of
        [] \<Rightarrow> None
      | msg # rest \<Rightarrow>
          if write_ok then Some (True, c\<lparr>SendQueue := rest\<rparr>, [Wire msg])
          else Some (False, c\<lparr>SendQueue := rest, mcConnected := False\<rparr>, [])))"

section \<open>Receiving\<close>

definition fill_chan :: "nat \<Rightarrow> goval \<Rightarrow> MajulaClient \<Rightarrow> MajulaClient" where
  "fill_chan a v c = (if resultChans c ! a = None then c\<lparr>resultChans := (resultChans c)[a := Some v]\<rparr> else c)"

text \<open>The text of the five cases of responses is the same.\<close>

definition deliver_result :: "MajulaPackage \<Rightarrow> MajulaClient \<Rightarrow> MajulaClient" where
  "deliver_result msg c = (case map_of (RpcResult c) (pkInvokeId msg) of
       None \<Rightarrow> c
     | Some a \<Rightarrow> (fill_chan a (pkResult msg) c)\<lparr>RpcResult := AList.delete (pkInvokeId msg) (RpcResult c)\<rparr>)"

definition is_response :: "MajulaPackage \<Rightarrow> bool" where
  "is_response msg \<longleftrightarrow> pkInvokeId msg \<noteq> 0 \<and> (pkMethod msg = ''RPC_RESULT'' \<or> pkMethod msg = ''PUT_IN_GROUP_RESPONSE'' \<or>
     pkMethod msg = ''DELETE_FROM_GROUP_RESPONSE'' \<or> pkMethod msg = ''GET_FROM_GROUP_RESPONSE'' \<or>
     pkMethod msg = ''CONNECT_TO_NODE_RESPONSE'')"

definition cl_handleMessage :: "MajulaPackage \<Rightarrow> MajulaClient \<Rightarrow> MajulaClient \<times> client_out list" where
  "cl_handleMessage msg c =
     (if pkMethod msg = ''RPC_CALL_FROM_REMOTE'' then (c, case map_of (wrRpcFuncs c) (pkFun msg) of
          None \<Rightarrow> [] | Some h \<Rightarrow> [GoRpcHandler h (pkFun msg) (pkArgs msg) (pkInvokeId msg)])
      else if is_response msg then (deliver_result msg c, [])
      else if pkMethod msg = ''PRIVATE_MESSAGE'' then (c, case map_of (wrSubFuncs c) ''__private__'' of
          None \<Rightarrow> [LogPrivate (pkArgs msg)] | Some h \<Rightarrow> [GoPrivateHandler h (pkArgs msg)])
      else if pkMethod msg = ''SUB_RESULT'' then (c, case map_of (wrSubFuncs c) (pkTopic msg) of
          None \<Rightarrow> [] | Some h \<Rightarrow> [CallSubHandler h (pkTopic msg) (pkArgs msg)])
      else (c, []))"

text \<open>The goroutine of a call from remote, when the handler has returned.\<close>

definition return_result :: "string \<Rightarrow> int \<Rightarrow> goval \<Rightarrow> MajulaClient \<Rightarrow> MajulaClient option" where
  "return_result fun invokeId res = cl_Send ((package ''RETURN_RESULT'')\<lparr>pkFun := fun, pkInvokeId := invokeId, pkResult := res\<rparr>)"

text \<open>A round of \<open>readLoop\<close>: \<open>Inl\<close> is a read error, \<open>Inr None\<close> a text that is no package.\<close>

definition cl_readLoop_round :: "unit + MajulaPackage option \<Rightarrow> MajulaClient \<Rightarrow> bool \<times> MajulaClient \<times> client_out list" where
  "cl_readLoop_round read c =
     (if \<not> mcConnected c then (False, c, [])
      else (case read of
        Inl _ \<Rightarrow> (False, c\<lparr>mcConnected := False, mcCancelled := True\<rparr>, [])
      | Inr None \<Rightarrow> (True, c, [])
      | Inr (Some msg) \<Rightarrow> (True, cl_handleMessage msg c)))"

section \<open>Functions and topics\<close>

definition RegisterRpc :: "string \<Rightarrow> int \<Rightarrow> RpcMeta option \<Rightarrow> MajulaClient \<Rightarrow> MajulaClient option" where
  "RegisterRpc fun handler meta c =
     cl_Send ((package ''REGISTER_RPC'')\<lparr>pkFun := fun, pkArgs := (case meta of None \<Rightarrow> []
         | Some m \<Rightarrow> [(''parameters'', rmParameters m), (''results'', rmResults m), (''note'', GStr (rmNote m))])\<rparr>)
       (c\<lparr>wrRpcFuncs := AList.update fun handler (wrRpcFuncs c)\<rparr>)"

definition UnregisterRpc :: "string \<Rightarrow> MajulaClient \<Rightarrow> MajulaClient option" where
  "UnregisterRpc fun c = cl_Send ((package ''UNREGISTER_RPC'')\<lparr>pkFun := fun\<rparr>)
     (c\<lparr>wrRpcFuncs := AList.delete fun (wrRpcFuncs c)\<rparr>)"

definition cl_Subscribe :: "string \<Rightarrow> int \<Rightarrow> MajulaClient \<Rightarrow> MajulaClient option" where
  "cl_Subscribe topic cb c = cl_Send ((package ''SUBSCRIBE'')\<lparr>pkTopic := topic\<rparr>)
     (c\<lparr>wrSubFuncs := AList.update topic cb (wrSubFuncs c)\<rparr>)"

definition cl_Unsubscribe :: "string \<Rightarrow> MajulaClient \<Rightarrow> MajulaClient option" where
  "cl_Unsubscribe topic c = cl_Send ((package ''UNSUBSCRIBE'')\<lparr>pkTopic := topic\<rparr>)
     (c\<lparr>wrSubFuncs := AList.delete topic (wrSubFuncs c)\<rparr>)"

definition cl_Publish :: "string \<Rightarrow> params \<Rightarrow> MajulaClient \<Rightarrow> MajulaClient option" where
  "cl_Publish topic content = cl_Send ((package ''PUBLISH'')\<lparr>pkTopic := topic, pkArgs := content\<rparr>)"

definition OnPrivateMessage :: "int \<Rightarrow> MajulaClient \<Rightarrow> MajulaClient" where
  "OnPrivateMessage cb c = c\<lparr>wrSubFuncs := AList.update ''__private__'' cb (wrSubFuncs c)\<rparr>"

definition SendPrivateMessage :: "(params \<Rightarrow> string) \<Rightarrow> string \<Rightarrow> string \<Rightarrow> params \<Rightarrow> MajulaClient \<Rightarrow> MajulaClient option" where
  "SendPrivateMessage marshal targetNode targetClient payload = cl_Send ((package ''SEND'')\<lparr>pkArgs :=
     [(''target_node'', GStr targetNode), (''content'', GStr (marshal [(''payload'', GMap payload)])),
      (''target_client'', GStr targetClient)]\<rparr>)"

definition cl_heartbeat_tick :: "int \<Rightarrow> MajulaClient \<Rightarrow> MajulaClient option" where
  "cl_heartbeat_tick unix_now c = cl_Send ((package ''HEARTBEAT'')\<lparr>pkArgs :=
     [(''client_id'', GStr (mcEntity c)), (''time_stamp'', GNum unix_now)]\<rparr>) c"

definition cl_Quit :: "MajulaClient \<Rightarrow> MajulaClient option" where
  "cl_Quit c = map_option (\<lambda>c1. c1\<lparr>mcCancelled := True\<rparr>)
     (cl_Send ((package ''QUIT'')\<lparr>pkArgs := [(''client_id'', GStr (mcEntity c))]\<rparr>) c)"

section \<open>Calls\<close>

text \<open>The beginning of every call: a fresh id, and a channel for its result.\<close>

definition new_call :: "MajulaClient \<Rightarrow> int \<times> nat \<times> MajulaClient" where
  "new_call c = (let invokeId = i64 (mcInvokeId c + 1); a = length (resultChans c)
     in (invokeId, a, c\<lparr>mcInvokeId := invokeId, resultChans := resultChans c @ [None],
       RpcResult := AList.update invokeId a (RpcResult c)\<rparr>))"

definition call_begin :: "(int \<Rightarrow> MajulaPackage) \<Rightarrow> MajulaClient \<Rightarrow> (int \<times> nat \<times> MajulaClient) option" where
  "call_begin pkg c = (let (invokeId, a, c1) = new_call c
     in map_option (\<lambda>c2. (invokeId, a, c2)) (cl_Send (pkg invokeId) c1))"

text \<open>The waiting: the result and whether there is one, or \<open>None\<close> while there is neither a result nor the timeout.\<close>

definition call_wait :: "bool \<Rightarrow> nat \<Rightarrow> MajulaClient \<Rightarrow> (goval \<times> bool) option" where
  "call_wait timeout a c = (case resultChans c ! a of
       Some v \<Rightarrow> Some (if timeout then (GNil, False) else (v, True))
     | None \<Rightarrow> if timeout then Some (GNil, False) else None)"

definition CallRpc_begin :: "string \<Rightarrow> string \<Rightarrow> string \<Rightarrow> params \<Rightarrow> MajulaClient \<Rightarrow> (int \<times> nat \<times> MajulaClient) option" where
  "CallRpc_begin fun targetNode provider args = call_begin (\<lambda>i. (package ''RPC'')\<lparr>pkFun := fun,
     pkArgs := AList.update ''_provider'' (GStr provider) (AList.update ''_target_node'' (GStr targetNode) args), pkInvokeId := i\<rparr>)"

text \<open>\<open>CallRpcAsync\<close> begins the same way; when the wait is over the entry is removed.\<close>

definition CallRpcAsync_finish :: "bool \<Rightarrow> int \<Rightarrow> nat \<Rightarrow> MajulaClient \<Rightarrow> ((goval \<times> bool) \<times> MajulaClient) option" where
  "CallRpcAsync_finish timeout invokeId a c =
     map_option (\<lambda>r. (r, c\<lparr>RpcResult := AList.delete invokeId (RpcResult c)\<rparr>)) (call_wait timeout a c)"

definition group_args :: "string \<Rightarrow> params" where
  "group_args groupName = (if groupName \<noteq> [] then [(''group'', GStr groupName)] else [])"

definition PutInGroup_begin :: "string \<Rightarrow> string \<Rightarrow> goval \<Rightarrow> MajulaClient \<Rightarrow> (int \<times> nat \<times> MajulaClient) option" where
  "PutInGroup_begin groupName key value = call_begin (\<lambda>i. (package ''PUT_IN_GROUP'')\<lparr>
     pkArgs := group_args groupName @ [(''key'', GStr key), (''value'', value)], pkInvokeId := i\<rparr>)"

definition DeleteFromGroup_begin :: "string \<Rightarrow> string \<Rightarrow> MajulaClient \<Rightarrow> (int \<times> nat \<times> MajulaClient) option" where
  "DeleteFromGroup_begin groupName key = call_begin (\<lambda>i. (package ''DELETE_FROM_GROUP'')\<lparr>
     pkArgs := group_args groupName @ [(''key'', GStr key)], pkInvokeId := i\<rparr>)"

definition GetFromGroup_begin :: "string \<Rightarrow> string \<Rightarrow> MajulaClient \<Rightarrow> (int \<times> nat \<times> MajulaClient) option" where
  "GetFromGroup_begin groupName key = call_begin (\<lambda>i. (package ''GET_FROM_GROUP'')\<lparr>
     pkArgs := group_args groupName @ [(''key'', GStr key)], pkInvokeId := i\<rparr>)"

definition ConnectToNode_begin :: "string \<Rightarrow> MajulaClient \<Rightarrow> (int \<times> nat \<times> MajulaClient) option" where
  "ConnectToNode_begin targetNodeID = call_begin (\<lambda>i. (package ''CONNECT_TO_NODE'')\<lparr>
     pkArgs := [(''target_node_id'', GStr targetNodeID)], pkInvokeId := i\<rparr>)"

section \<open>Forwarding, files, learners, elections\<close>

definition cl_RegisterFRP :: "string \<Rightarrow> string \<Rightarrow> string \<Rightarrow> string \<Rightarrow> MajulaClient \<Rightarrow> MajulaClient option" where
  "cl_RegisterFRP code localAddr remoteNode remoteAddr = cl_Send ((package ''REGISTER_FRP'')\<lparr>pkArgs :=
     [(''code'', GStr code), (''local_addr'', GStr localAddr), (''remote_node'', GStr remoteNode),
      (''remote_addr'', GStr remoteAddr)]\<rparr>)"

definition RegisterFRPWithAddr :: "string \<Rightarrow> string \<Rightarrow> string \<Rightarrow> MajulaClient \<Rightarrow> MajulaClient option" where
  "RegisterFRPWithAddr localAddr remoteNode remoteAddr = cl_Send ((package ''REGISTER_FRP_WITH_ADDR'')\<lparr>pkArgs :=
     [(''local_addr'', GStr localAddr), (''remote_node'', GStr remoteNode), (''remote_addr'', GStr remoteAddr)]\<rparr>)"

definition StartFRPWithRegistration :: "string \<Rightarrow> MajulaClient \<Rightarrow> MajulaClient option" where
  "StartFRPWithRegistration code = cl_Send ((package ''START_FRP_LISTENER_WITH_REGISTRATION'')\<lparr>pkArgs := [(''code'', GStr code)]\<rparr>)"

definition StartFRPWithoutRegistration :: "string \<Rightarrow> string \<Rightarrow> string \<Rightarrow> MajulaClient \<Rightarrow> MajulaClient option" where
  "StartFRPWithoutRegistration localAddr remoteNode remoteAddr =
     cl_Send ((package ''START_FRP_LISTENER_WITHOUT_REGISTRATION'')\<lparr>pkArgs :=
       [(''local_addr'', GStr localAddr), (''remote_node'', GStr remoteNode), (''remote_addr'', GStr remoteAddr)]\<rparr>)"

definition StartFRPWithLocalAddr :: "string \<Rightarrow> MajulaClient \<Rightarrow> MajulaClient option" where
  "StartFRPWithLocalAddr localAddr = cl_Send ((package ''START_FRP_LISTENER_WITH_LOCAL_ADDR'')\<lparr>pkArgs :=
     [(''local_addr'', GStr localAddr)]\<rparr>)"

text \<open>\<open>marshal\<close> encodes the additional arguments.\<close>

definition nginx_args :: "((string \<times> string) list \<Rightarrow> string) \<Rightarrow> string \<Rightarrow> string \<Rightarrow> string \<Rightarrow> (string \<times> string) list \<Rightarrow> params" where
  "nginx_args marshal mappedAddr remoteNode hostAddr extraArgs =
     [(''mapped_path'', GStr mappedAddr), (''remote_node'', GStr remoteNode), (''remote_url'', GStr hostAddr),
      (''extra_args'', GStr (marshal extraArgs))]"

definition RegisterNginxFRPAndRun ::
  "((string \<times> string) list \<Rightarrow> string) \<Rightarrow> string \<Rightarrow> string \<Rightarrow> string \<Rightarrow> (string \<times> string) list \<Rightarrow> MajulaClient \<Rightarrow> MajulaClient option" where
  "RegisterNginxFRPAndRun marshal mappedAddr remoteNode hostAddr extraArgs = cl_Send ((package ''REGISTER_NGINX_FRP_AND_RUN'')\<lparr>pkArgs :=
     nginx_args marshal mappedAddr remoteNode hostAddr extraArgs\<rparr>)"

definition RemoveNginxFRP ::
  "((string \<times> string) list \<Rightarrow> string) \<Rightarrow> string \<Rightarrow> string \<Rightarrow> string \<Rightarrow> (string \<times> string) list \<Rightarrow> MajulaClient \<Rightarrow> MajulaClient option" where
  "RemoveNginxFRP marshal mappedAddr remoteNode hostAddr extraArgs = cl_Send ((package ''UNREGISTER_NGINX_FRP'')\<lparr>pkArgs :=
     nginx_args marshal mappedAddr remoteNode hostAddr extraArgs\<rparr>)"

definition TransferFileToRemote :: "string \<Rightarrow> string \<Rightarrow> string \<Rightarrow> MajulaClient \<Rightarrow> MajulaClient option" where
  "TransferFileToRemote remoteNode localPath remotePath = cl_Send ((package ''UPLOAD_FILE'')\<lparr>pkArgs :=
     [(''remote_node'', GStr remoteNode), (''local_path'', GStr localPath), (''remote_path'', GStr remotePath)]\<rparr>)"

definition DownloadFileFromRemote :: "string \<Rightarrow> string \<Rightarrow> string \<Rightarrow> MajulaClient \<Rightarrow> MajulaClient option" where
  "DownloadFileFromRemote remoteNode remotePath localPath = cl_Send ((package ''DOWNLOAD_FILE'')\<lparr>pkArgs :=
     [(''remote_node'', GStr remoteNode), (''remote_path'', GStr remotePath), (''local_path'', GStr localPath)]\<rparr>)"

definition JoinRaftGroupAsLearner :: "string \<Rightarrow> string \<Rightarrow> MajulaClient \<Rightarrow> MajulaClient option" where
  "JoinRaftGroupAsLearner g dbPath = cl_Send ((package ''JOIN_RAFT_LEARNER'')\<lparr>pkArgs :=
     [(''group'', GStr g), (''dbpath'', GStr dbPath)]\<rparr>)"

definition JoinRaftGroupAsLearnerWithFastSync :: "string \<Rightarrow> string \<Rightarrow> MajulaClient \<Rightarrow> MajulaClient option" where
  "JoinRaftGroupAsLearnerWithFastSync g dbPath = cl_Send ((package ''JOIN_RAFT_LEARNER_WITH_FAST_SYNC'')\<lparr>pkArgs :=
     [(''group'', GStr g), (''dbpath'', GStr dbPath)]\<rparr>)"

definition LeaveRaftGroupAsLearner :: "string \<Rightarrow> MajulaClient \<Rightarrow> MajulaClient option" where
  "LeaveRaftGroupAsLearner g = cl_Send ((package ''LEAVE_RAFT_LEARNER'')\<lparr>pkArgs := [(''group'', GStr g)]\<rparr>)"

definition JoinElection :: "string \<Rightarrow> int \<Rightarrow> MajulaClient \<Rightarrow> MajulaClient option" where
  "JoinElection groupName baseOvertimeT = cl_Send ((package ''JOIN_ELECTION'')\<lparr>pkArgs :=
     [(''group'', GStr groupName), (''base_overtime_t'', GNum baseOvertimeT)]\<rparr>)"

definition GiveUpElection :: "string \<Rightarrow> MajulaClient \<Rightarrow> MajulaClient option" where
  "GiveUpElection groupName = cl_Send ((package ''GIVEUP_ELECTION'')\<lparr>pkArgs := [(''group'', GStr groupName)]\<rparr>)"

definition LeaveElection :: "string \<Rightarrow> MajulaClient \<Rightarrow> MajulaClient option" where
  "LeaveElection groupName = cl_Send ((package ''LEAVE_ELECTION'')\<lparr>pkArgs := [(''group'', GStr groupName)]\<rparr>)"

definition GetElectionStatus :: "string \<Rightarrow> MajulaClient \<Rightarrow> MajulaClient option" where
  "GetElectionStatus groupName = cl_Send ((package ''GET_ELECTION_STATUS'')\<lparr>pkArgs := group_args groupName\<rparr>)"

section \<open>Every response goes to its call\<close>

text \<open>
  What a client goes through; operations that only change the tables of handlers and queue a package are
  one rule.
\<close>

inductive mc_reach :: "MajulaClient \<Rightarrow> bool" where
  mc_new: "mc_reach (NewMajulaClient addr entity)"
| mc_send: "mc_reach c \<Longrightarrow> cl_Send msg (c\<lparr>wrRpcFuncs := fs, wrSubFuncs := ss\<rparr>) = Some c1 \<Longrightarrow> mc_reach c1"
| mc_private: "mc_reach c \<Longrightarrow> mc_reach (OnPrivateMessage cb c)"
| mc_main: "mc_reach c \<Longrightarrow> mainLoop_round dialed failures c = Some (Inr c1) \<Longrightarrow> mc_reach c1"
| mc_write: "mc_reach c \<Longrightarrow> sendLoop_round e ok c = Some (b, c1, os) \<Longrightarrow> mc_reach c1"
| mc_read: "mc_reach c \<Longrightarrow> cl_readLoop_round read c = (b, c1, os) \<Longrightarrow> mc_reach c1"
| mc_call: "mc_reach c \<Longrightarrow> call_begin pkg c = Some (i, a, c1) \<Longrightarrow> mc_reach c1"
| mc_async: "mc_reach c \<Longrightarrow> CallRpcAsync_finish timeout i a c = Some (r, c1) \<Longrightarrow> mc_reach c1"
| mc_quit: "mc_reach c \<Longrightarrow> cl_Quit c = Some c1 \<Longrightarrow> mc_reach c1"

definition calls_wf :: "(int \<times> nat) list \<Rightarrow> goval option list \<Rightarrow> bool" where
  "calls_wf rs chans \<longleftrightarrow> distinct (map fst rs) \<and> distinct (map snd rs) \<and>
     (\<forall>(i, a) \<in> set rs. a < length chans \<and> chans ! a = None)"

lemma calls_wf_D:
  "calls_wf rs chans \<Longrightarrow> map_of rs i = Some a \<Longrightarrow> a < length chans \<and> chans ! a = None"
  by (auto simp: calls_wf_def dest!: map_of_SomeD)

lemma set_delete: "set (AList.delete k al) \<subseteq> set al"
  by (induction al) auto

lemma distinct_snd_delete: "distinct (map snd al) \<Longrightarrow> distinct (map snd (AList.delete k al))"
  by (induction al) (auto dest: subsetD [OF set_delete])

lemma calls_wf_delete: "calls_wf rs chans \<Longrightarrow> calls_wf (AList.delete i rs) chans"
  unfolding calls_wf_def
  using set_delete [of i rs] by (auto simp: distinct_delete distinct_snd_delete)

lemma distinct_snd_update:
  "distinct (map snd al) \<Longrightarrow> v \<notin> snd ` set al \<Longrightarrow> distinct (map snd (AList.update k v al))"
proof (induction al)
  case (Cons x xs)
  have "snd x \<notin> snd ` set (AList.update k v xs)"
    using Cons.prems set_update_subset [of k v xs] by auto
  then show ?case using Cons by auto
qed simp

lemma calls_wf_new: "calls_wf rs chans \<Longrightarrow> calls_wf (AList.update i (length chans) rs) (chans @ [None])"
proof -
  assume wf: "calls_wf rs chans"
  then have "length chans \<notin> snd ` set rs" by (auto simp: calls_wf_def)
  then have "distinct (map snd (AList.update i (length chans) rs))"
    using wf by (intro distinct_snd_update) (simp_all add: calls_wf_def)
  moreover have "\<forall>(j, a) \<in> set (AList.update i (length chans) rs). a < length (chans @ [None]) \<and> (chans @ [None]) ! a = None"
    using wf set_update_subset [of i "length chans" rs] by (fastforce simp: calls_wf_def nth_append)
  ultimately show ?thesis using wf by (simp add: calls_wf_def distinct_update)
qed

lemma calls_wf_deliver:
  assumes wf: "calls_wf rs chans" and m: "map_of rs i = Some a"
  shows "calls_wf (AList.delete i rs) (chans[a := Some v])"
proof -
  have "b \<noteq> a" if "(j, b) \<in> set (AList.delete i rs)" for j b
  proof
    assume "b = a"
    from that have j: "(j, b) \<in> set rs" "j \<noteq> i" using set_delete [of i rs] by (auto simp: AList.delete_eq)
    have "(i, a) \<in> set rs" using m by (rule map_of_SomeD)
    moreover have "inj_on snd (set rs)" using wf by (simp add: calls_wf_def distinct_map)
    ultimately show False using j \<open>b = a\<close> inj_onD [of snd "set rs" "(i, a)" "(j, b)"] by simp
  qed
  with calls_wf_delete [OF wf, of i] show ?thesis by (fastforce simp: calls_wf_def)
qed

lemma cl_Send_frame:
  "cl_Send m c = Some c1 \<Longrightarrow> RpcResult c1 = RpcResult c \<and> resultChans c1 = resultChans c"
  by (auto simp: cl_Send_def split: if_splits)

lemma foldM_cl_Send:
  assumes "foldM (\<lambda>x. cl_Send (f x)) xs c = Some c1"
  shows "RpcResult c1 = RpcResult c \<and> resultChans c1 = resultChans c"
  by (rule foldM_invariant [OF assms]) (auto dest: cl_Send_frame)

lemma deliver_wf:
  assumes "calls_wf (RpcResult c) (resultChans c)"
  shows "calls_wf (RpcResult (deliver_result msg c)) (resultChans (deliver_result msg c))"
  using assms calls_wf_D [OF assms, of "pkInvokeId msg"] calls_wf_deliver [OF assms, of "pkInvokeId msg"]
  by (auto simp: deliver_result_def fill_chan_def split: option.split)

lemma mc_reach_wf: "mc_reach c \<Longrightarrow> calls_wf (RpcResult c) (resultChans c)"
proof (induction rule: mc_reach.induct)
  case (mc_new addr entity)
  show ?case by (simp add: NewMajulaClient_def calls_wf_def)
next
  case (mc_send c msg fs ss c1)
  then show ?case using cl_Send_frame [OF mc_send(2)] by simp
next
  case (mc_private c cb)
  then show ?case by (simp add: OnPrivateMessage_def)
next
  case (mc_main c dialed failures c1)
  then show ?case
    by (auto simp: mainLoop_round_def RegisterClientID_def RestoreState_def case_prod_unfold
        split: if_splits bind_splits dest!: cl_Send_frame foldM_cl_Send)
next
  case (mc_write c e ok b c1 os)
  then show ?case by (auto simp: sendLoop_round_def split: if_splits list.splits)
next
  case (mc_read c read b c1 os)
  then show ?case
    by (auto simp: cl_readLoop_round_def cl_handleMessage_def deliver_wf split: if_splits sum.splits option.splits)
next
  case (mc_call c pkg i a c1)
  then show ?case
    using calls_wf_new by (auto simp: call_begin_def new_call_def Let_def dest!: cl_Send_frame)
next
  case (mc_async c timeout i a r c1)
  then show ?case by (auto simp: CallRpcAsync_finish_def calls_wf_delete)
next
  case (mc_quit c c1)
  then show ?case by (auto simp: cl_Quit_def dest!: cl_Send_frame)
qed


definition ex_calling :: MajulaClient where
  "ex_calling = snd (snd (the (CallRpc_begin ''f'' ''n'' ''p'' [] (snd (snd (the (CallRpc_begin ''g'' ''n'' ''p'' []
     (NewMajulaClient ''http://h'' ''me''))))))))"

lemma ex_calling_reach: "mc_reach ex_calling" and ex_calling_calls: "RpcResult ex_calling = [(1, 0), (2, 1)]"
proof -
  let ?c = "NewMajulaClient ''http://h'' ''me''"
  have i: "i64 1 = 1" "i64 2 = 2" by (simp_all add: i64_def)
  obtain c1 where 1: "CallRpc_begin ''g'' ''n'' ''p'' [] ?c = Some (1, 0, c1)" "RpcResult c1 = [(1, 0)]"
    "mcInvokeId c1 = 1" "length (SendQueue c1) = 1" "length (resultChans c1) = 1"
    by (simp add: CallRpc_begin_def call_begin_def new_call_def cl_Send_def NewMajulaClient_def i)
  obtain c2 where 2: "CallRpc_begin ''f'' ''n'' ''p'' [] c1 = Some (2, 1, c2)" "RpcResult c2 = [(1, 0), (2, 1)]"
    using 1 by (simp add: CallRpc_begin_def call_begin_def new_call_def cl_Send_def i)
  have "mc_reach c1" using mc_call [OF mc_new] 1(1) unfolding CallRpc_begin_def by blast
  then have "mc_reach c2" using mc_call 2(1) unfolding CallRpc_begin_def by blast
  then show "mc_reach ex_calling" "RpcResult ex_calling = [(1, 0), (2, 1)]" by (simp_all add: ex_calling_def 1 2)
qed


end
