(* ===== verification/Signal_Server.thy ===== *)
theory Signal_Server
  imports Net_Types
begin

text \<open>
  server/SignalingServer.go: nodes register over a WebSocket, keep themselves alive by heartbeats, and ask
  the server to pass a request for a direct connection on to another node, and its answer back.

  A connection is a handle; what is sent on it is an output. The maps are association lists, because the
  cleaning loops range over them. A handler returns the text of its error, if any. Whether a write succeeds
  is not known to the state, so it is left out of the results.
\<close>

section \<open>State\<close>

record NodeInfo =
  niID :: string
  niName :: string
  niStatus :: string
  niLastSeen :: int

record SignalingMessage =
  sgType :: string
  sgFrom :: string
  sgTo :: string
  sgData :: params
  sgTimestamp :: int

record SignalingConfig =
  sgPort :: int
  sgUDPPort :: int
  sgReadTimeout :: int
  sgWriteTimeout :: int
  sgPingInterval :: int
  sgPongWait :: int
  sgMaxMessageSize :: int
  sgCleanupInterval :: int

record SignalingServer =
  ssNodes :: "(string \<times> NodeInfo) list"
  ssConnections :: "(string \<times> nat) list"
  ssConfig :: SignalingConfig

record PublicAddressResponse =
  paNodeID :: string
  paLocalPort :: int
  paPublicIP :: string
  paPublicPort :: int
  paPublicAddr :: string
  paSuccess :: bool
  paErrorMessage :: string

datatype sig_out = SigSend nat SignalingMessage | SigPing nat | SigClose nat

definition NewSignalingServer :: "SignalingConfig option \<Rightarrow> SignalingServer" where
  "NewSignalingServer config = \<lparr>ssNodes = [], ssConnections = [], ssConfig = (case config of Some c \<Rightarrow> c
     | None \<Rightarrow> \<lparr>sgPort = 8080, sgUDPPort = 8081, sgReadTimeout = 60000000000, sgWriteTimeout = 10000000000,
         sgPingInterval = 54000000000, sgPongWait = 60000000000, sgMaxMessageSize = 512, sgCleanupInterval = 30000000000\<rparr>)\<rparr>"

section \<open>Registration\<close>

definition sig_str :: "params \<Rightarrow> string \<Rightarrow> string option" where
  "sig_str d k = (case map_of d k of Some (GStr s) \<Rightarrow> Some s | _ \<Rightarrow> None)"

definition server_message :: "string \<Rightarrow> string \<Rightarrow> params \<Rightarrow> int \<Rightarrow> SignalingMessage" where
  "server_message ty to data now = \<lparr>sgType = ty, sgFrom = ''server'', sgTo = to, sgData = data, sgTimestamp = now\<rparr>"

definition handleRegister ::
  "int \<Rightarrow> nat \<Rightarrow> SignalingMessage \<Rightarrow> SignalingServer \<Rightarrow> string option \<times> SignalingServer \<times> sig_out list" where
  "handleRegister now conn msg s = (case sig_str (sgData msg) ''node_id'' of
       None \<Rightarrow> (Some ''missing node_id in register message'', s, [])
     | Some nodeID \<Rightarrow>
         (None, s\<lparr>ssNodes := AList.update nodeID \<lparr>niID = nodeID,
              niName = (case sig_str (sgData msg) ''name'' of Some n \<Rightarrow> n | None \<Rightarrow> []), niStatus = ''online'', niLastSeen = now\<rparr> (ssNodes s),
            ssConnections := AList.update nodeID conn (ssConnections s)\<rparr>,
          [SigSend conn (server_message ''register_response'' nodeID [(''status'', GStr ''success'')] now)]))"

text \<open>Seconds of a time in nanoseconds.\<close>

definition unix :: "int \<Rightarrow> int" where
  "unix t = t div 1000000000"

definition mark_node :: "string \<Rightarrow> string \<Rightarrow> int \<Rightarrow> SignalingServer \<Rightarrow> SignalingServer" where
  "mark_node nodeID status now s = (case map_of (ssNodes s) nodeID of
       None \<Rightarrow> s
     | Some n \<Rightarrow> s\<lparr>ssNodes := AList.update nodeID (n\<lparr>niStatus := status, niLastSeen := now\<rparr>) (ssNodes s)\<rparr>)"

definition sig_handleHeartbeat ::
  "int \<Rightarrow> nat \<Rightarrow> SignalingMessage \<Rightarrow> SignalingServer \<Rightarrow> string option \<times> SignalingServer \<times> sig_out list" where
  "sig_handleHeartbeat now conn msg s =
     (None, mark_node (sgFrom msg) ''online'' now s,
      [SigSend conn (server_message ''heartbeat_response'' (sgFrom msg) [(''timestamp'', GNum (unix now))] now)])"

definition drop_connection :: "string \<Rightarrow> int \<Rightarrow> SignalingServer \<Rightarrow> SignalingServer" where
  "drop_connection nodeID now s = (let s1 = mark_node nodeID ''offline'' now s
     in s1\<lparr>ssConnections := AList.delete nodeID (ssConnections s1)\<rparr>)"

definition handleDisconnect ::
  "int \<Rightarrow> nat \<Rightarrow> SignalingMessage \<Rightarrow> SignalingServer \<Rightarrow> string option \<times> SignalingServer \<times> sig_out list" where
  "handleDisconnect now conn msg s = (None, drop_connection (sgFrom msg) now s, [])"

text \<open>Only the first node that the connection belongs to: the loop breaks.\<close>

definition cleanupDisconnectedConnections :: "int \<Rightarrow> nat \<Rightarrow> SignalingServer \<Rightarrow> SignalingServer" where
  "cleanupDisconnectedConnections now conn s = (case find (\<lambda>(_, c). c = conn) (ssConnections s) of
       None \<Rightarrow> s
     | Some (nodeID, _) \<Rightarrow> drop_connection nodeID now s)"

text \<open>Five minutes in nanoseconds.\<close>

definition cleanupOfflineNodes :: "int \<Rightarrow> SignalingServer \<Rightarrow> SignalingServer" where
  "cleanupOfflineNodes now s = s\<lparr>ssNodes := filter (\<lambda>(_, n).
     \<not> (niStatus n = ''offline'' \<and> 300000000000 < now - niLastSeen n)) (ssNodes s)\<rparr>"

section \<open>Requests for connections\<close>

definition handleRequestKCPConnection ::
  "int \<Rightarrow> nat \<Rightarrow> SignalingMessage \<Rightarrow> SignalingServer \<Rightarrow> string option \<times> SignalingServer \<times> sig_out list" where
  "handleRequestKCPConnection now conn msg s = (case sig_str (sgData msg) ''to_node_id'' of
       None \<Rightarrow> (Some ''missing to_node_id in request_kcp_connection message'', s, [])
     | Some toNodeID \<Rightarrow> (case sig_str (sgData msg) ''invoke_id'' of
         None \<Rightarrow> (Some ''missing invoke_id in request_kcp_connection message'', s, [])
       | Some invokeID \<Rightarrow> (case map_of (ssConnections s) toNodeID of
           None \<Rightarrow> (None, s, [SigSend conn (server_message ''kcp_connection_response'' (sgFrom msg)
             [(''error'', GStr ''target node not found''), (''invoke_id'', GStr invokeID)] now)])
         | Some targetConn \<Rightarrow> (None, s, [SigSend targetConn \<lparr>sgType = ''request_kcp_connection'', sgFrom = sgFrom msg,
             sgTo = toNodeID, sgData = [(''from_node_id'', GStr (sgFrom msg)), (''to_node_id'', GStr toNodeID),
               (''invoke_id'', GStr invokeID)], sgTimestamp = now\<rparr>]))))"

definition handleKCPConnectionResponse ::
  "int \<Rightarrow> nat \<Rightarrow> SignalingMessage \<Rightarrow> SignalingServer \<Rightarrow> string option \<times> SignalingServer \<times> sig_out list" where
  "handleKCPConnectionResponse now conn msg s = (case sig_str (sgData msg) ''invoke_id'' of
       None \<Rightarrow> (Some ''missing invoke_id in kcp_connection_response message'', s, [])
     | Some invokeID \<Rightarrow> (case map_of (ssConnections s) (sgFrom msg) of
         None \<Rightarrow> (None, s, [])
       | Some initiatorConn \<Rightarrow> (None, s, [SigSend initiatorConn \<lparr>sgType = ''kcp_connection_response'', sgFrom = sgFrom msg,
           sgTo = sgFrom msg, sgData = sgData msg, sgTimestamp = now\<rparr>])))"

definition sig_processMessage ::
  "int \<Rightarrow> nat \<Rightarrow> SignalingMessage \<Rightarrow> SignalingServer \<Rightarrow> string option \<times> SignalingServer \<times> sig_out list" where
  "sig_processMessage now conn msg s =
     (if sgType msg = ''register'' then handleRegister now conn msg s
      else if sgType msg = ''heartbeat'' then sig_handleHeartbeat now conn msg s
      else if sgType msg = ''disconnect'' then handleDisconnect now conn msg s
      else if sgType msg = ''request_kcp_connection'' then handleRequestKCPConnection now conn msg s
      else if sgType msg = ''kcp_connection_response'' then handleKCPConnectionResponse now conn msg s
      else (Some (''unknown message type: '' @ sgType msg), s, []))"

text \<open>A round of the loop of a connection; its end.\<close>

definition connection_round ::
  "(string \<Rightarrow> SignalingMessage option) \<Rightarrow> int \<Rightarrow> nat \<Rightarrow> string \<Rightarrow> SignalingServer \<Rightarrow> SignalingServer \<times> sig_out list" where
  "connection_round unmarshal now conn text s = (case unmarshal text of
       None \<Rightarrow> (s, [])
     | Some msg \<Rightarrow> snd (sig_processMessage now conn msg s))"

definition connection_end :: "int \<Rightarrow> nat \<Rightarrow> SignalingServer \<Rightarrow> SignalingServer \<times> sig_out list" where
  "connection_end now conn s = (cleanupDisconnectedConnections now conn s, [SigClose conn])"

definition startHeartbeat_tick :: "nat \<Rightarrow> sig_out list" where
  "startHeartbeat_tick conn = [SigPing conn]"

section \<open>Addresses and status\<close>

definition handleUDPPublicAddressRequest :: "string \<Rightarrow> int \<Rightarrow> string \<Rightarrow> int \<Rightarrow> PublicAddressResponse" where
  "handleUDPPublicAddressRequest nodeID port remoteIP remotePort = \<lparr>paNodeID = nodeID, paLocalPort = port,
     paPublicIP = remoteIP, paPublicPort = remotePort, paPublicAddr = remoteIP @ '':'' @ itoa remotePort,
     paSuccess = True, paErrorMessage = []\<rparr>"

definition handleGetNodesGin :: "SignalingServer \<Rightarrow> NodeInfo list \<times> nat" where
  "handleGetNodesGin s = (map snd (ssNodes s), length (ssNodes s))"

definition handleHealthGin :: "SignalingServer \<Rightarrow> nat \<times> nat" where
  "handleHealthGin s = (length (ssNodes s), length (filter (\<lambda>(_, n). niStatus n = ''online'') (ssNodes s)))"

section \<open>Connected nodes are known and online\<close>

inductive sig_reach :: "SignalingServer \<Rightarrow> bool" where
  sig_init: "sig_reach (NewSignalingServer config)"
| sig_message: "sig_reach s \<Longrightarrow> sig_processMessage now conn msg s = (e, s1, os) \<Longrightarrow> sig_reach s1"
| sig_end: "sig_reach s \<Longrightarrow> sig_reach (fst (connection_end now conn s))"
| sig_cleanup: "sig_reach s \<Longrightarrow> sig_reach (cleanupOfflineNodes now s)"

definition sig_inv :: "SignalingServer \<Rightarrow> bool" where
  "sig_inv s \<longleftrightarrow> distinct (map fst (ssNodes s)) \<and> distinct (map fst (ssConnections s)) \<and>
     (\<forall>i c. map_of (ssConnections s) i = Some c \<longrightarrow> (\<exists>n. map_of (ssNodes s) i = Some n \<and> niStatus n = ''online''))"

lemma sig_inv_I:
  assumes "distinct (map fst ns)" "distinct (map fst cs)"
    and "\<And>i c. map_of cs i = Some c \<Longrightarrow> \<exists>n. map_of ns i = Some n \<and> niStatus n = ''online''"
  shows "sig_inv (s\<lparr>ssNodes := ns, ssConnections := cs\<rparr>)"
  using assms by (auto simp: sig_inv_def)

lemma sig_inv_D:
  assumes "sig_inv s"
  shows "distinct (map fst (ssNodes s))" "distinct (map fst (ssConnections s))"
    and "map_of (ssConnections s) i = Some c \<Longrightarrow> \<exists>n. map_of (ssNodes s) i = Some n \<and> niStatus n = ''online''"
  using assms by (simp_all add: sig_inv_def del: map_of_eq_Some_iff)

text \<open>A node that goes online, and one that loses its connection.\<close>

lemma online_inv:
  assumes "sig_inv s" and "niStatus n = ''online''"
  shows "sig_inv (s\<lparr>ssNodes := AList.update i n (ssNodes s)\<rparr>)"
    and "sig_inv (s\<lparr>ssNodes := AList.update i n (ssNodes s), ssConnections := AList.update i c (ssConnections s)\<rparr>)"
proof -
  have "\<exists>m. map_of (AList.update i n (ssNodes s)) j = Some m \<and> niStatus m = ''online''"
    if "j = i \<or> map_of (ssConnections s) j = Some d" for j d
    using that sig_inv_D(3) [OF assms(1), of j d] assms(2) by (auto simp: update_conv' simp del: map_of_eq_Some_iff)
  note on = this
  show "sig_inv (s\<lparr>ssNodes := AList.update i n (ssNodes s), ssConnections := AList.update i c (ssConnections s)\<rparr>)"
  proof (rule sig_inv_I)
    fix j d assume "map_of (AList.update i c (ssConnections s)) j = Some d"
    then have "j = i \<or> map_of (ssConnections s) j = Some d"
      by (simp add: update_conv' del: map_of_eq_Some_iff split: if_splits)
    then show "\<exists>m. map_of (AList.update i n (ssNodes s)) j = Some m \<and> niStatus m = ''online''" by (rule on)
  qed (simp_all add: sig_inv_D [OF assms(1)] distinct_update)
  have "sig_inv (s\<lparr>ssNodes := AList.update i n (ssNodes s), ssConnections := ssConnections s\<rparr>)"
  proof (rule sig_inv_I)
    fix j d assume "map_of (ssConnections s) j = Some d"
    then show "\<exists>m. map_of (AList.update i n (ssNodes s)) j = Some m \<and> niStatus m = ''online''" by (intro on disjI2)
  qed (simp_all add: sig_inv_D [OF assms(1)] distinct_update)
  then show "sig_inv (s\<lparr>ssNodes := AList.update i n (ssNodes s)\<rparr>)" by simp
qed

lemma drop_connection_inv:
  assumes "sig_inv s" shows "sig_inv (drop_connection i now s)"
proof -
  have gone: "map_of (AList.delete i (ssConnections s)) j = Some c \<Longrightarrow> j \<noteq> i \<and> map_of (ssConnections s) j = Some c" for j c
    by (simp add: delete_conv' del: map_of_eq_Some_iff split: if_splits)
  show ?thesis
  proof (cases "map_of (ssNodes s) i")
    case None
    have "sig_inv (s\<lparr>ssNodes := ssNodes s, ssConnections := AList.delete i (ssConnections s)\<rparr>)"
    proof (rule sig_inv_I)
      fix j c assume "map_of (AList.delete i (ssConnections s)) j = Some c"
      then have "map_of (ssConnections s) j = Some c" by (rule gone [THEN conjunct2])
      then show "\<exists>m. map_of (ssNodes s) j = Some m \<and> niStatus m = ''online''" by (rule sig_inv_D(3) [OF assms])
    qed (simp_all add: sig_inv_D [OF assms] distinct_delete)
    then show ?thesis by (simp add: drop_connection_def mark_node_def None)
  next
    case (Some n)
    have "sig_inv (s\<lparr>ssNodes := AList.update i (n\<lparr>niStatus := ''offline'', niLastSeen := now\<rparr>) (ssNodes s),
        ssConnections := AList.delete i (ssConnections s)\<rparr>)"
    proof (rule sig_inv_I)
      fix j c assume "map_of (AList.delete i (ssConnections s)) j = Some c"
      then have "j \<noteq> i" "map_of (ssConnections s) j = Some c" using gone by blast+
      then show "\<exists>m. map_of (AList.update i (n\<lparr>niStatus := ''offline'', niLastSeen := now\<rparr>) (ssNodes s)) j = Some m \<and>
          niStatus m = ''online''"
        using sig_inv_D(3) [OF assms, of j c] by (simp add: update_conv' del: map_of_eq_Some_iff)
    qed (simp_all add: sig_inv_D [OF assms] distinct_update distinct_delete)
    then show ?thesis by (simp add: drop_connection_def mark_node_def Some)
  qed
qed

lemma filter_map_of:
  "distinct (map fst xs) \<Longrightarrow> map_of xs i = Some n \<Longrightarrow> P (i, n) \<Longrightarrow> map_of (filter P xs) i = Some n"
  by (simp add: distinct_map_filter)

lemma cleanup_keeps_online:
  assumes "sig_inv s" "map_of (ssNodes s) i = Some n" "niStatus n = ''online''"
  shows "map_of (ssNodes (cleanupOfflineNodes now s)) i = Some n"
proof -
  have "map_of (filter (\<lambda>(_, n). \<not> (niStatus n = ''offline'' \<and> 300000000000 < now - niLastSeen n)) (ssNodes s)) i = Some n"
    by (rule filter_map_of [OF sig_inv_D(1) [OF assms(1)] assms(2)]) (simp add: assms(3))
  then show ?thesis by (simp add: cleanupOfflineNodes_def del: map_of_eq_Some_iff)
qed

lemma sig_step_inv:
  assumes inv: "sig_inv s" and step: "sig_processMessage now conn msg s = (e, s1, os)"
  shows "sig_inv s1"
proof -
  have "sig_inv (fst (snd (handleRegister now conn msg s)))"
    using inv by (simp add: handleRegister_def online_inv split: option.split)
  moreover have "sig_inv (fst (snd (sig_handleHeartbeat now conn msg s)))"
    using inv by (simp add: sig_handleHeartbeat_def mark_node_def online_inv split: option.split)
  moreover have "sig_inv (fst (snd (handleDisconnect now conn msg s)))"
    by (simp add: handleDisconnect_def drop_connection_inv [OF inv])
  moreover have "fst (snd (handleRequestKCPConnection now conn msg s)) = s"
    "fst (snd (handleKCPConnectionResponse now conn msg s)) = s"
    by (simp_all add: handleRequestKCPConnection_def handleKCPConnectionResponse_def split: option.split)
  ultimately have "sig_inv (fst (snd (sig_processMessage now conn msg s)))"
    using inv by (simp add: sig_processMessage_def)
  then show ?thesis by (simp add: step)
qed

lemma sig_reach_inv: "sig_reach s \<Longrightarrow> sig_inv s"
proof (induction rule: sig_reach.induct)
  case (sig_init config)
  show ?case by (simp add: sig_inv_def NewSignalingServer_def)
next
  case (sig_message s now conn msg e s1 os)
  then show ?case by (blast intro: sig_step_inv)
next
  case (sig_end s now conn)
  then show ?case
    by (simp add: connection_end_def cleanupDisconnectedConnections_def drop_connection_inv split: option.split prod.split)
next
  case (sig_cleanup s now)
  have "sig_inv (s\<lparr>ssNodes := ssNodes (cleanupOfflineNodes now s), ssConnections := ssConnections s\<rparr>)"
  proof (rule sig_inv_I)
    show "distinct (map fst (ssNodes (cleanupOfflineNodes now s)))"
      using sig_inv_D(1) [OF sig_cleanup(2)] by (simp add: cleanupOfflineNodes_def distinct_map_filter)
    show "\<exists>n. map_of (ssNodes (cleanupOfflineNodes now s)) i = Some n \<and> niStatus n = ''online''"
      if "map_of (ssConnections s) i = Some c" for i c
      using sig_inv_D(3) [OF sig_cleanup(2) that] cleanup_keeps_online [OF sig_cleanup(2)] by blast
  qed (rule sig_inv_D(2) [OF sig_cleanup(2)])
  then show ?case by (simp add: cleanupOfflineNodes_def)
qed

text \<open>
  C40: In every reachable state of the signaling server each node with a connection is listed and online, so
  that the cleaning of offline nodes never removes a connected one; and it never removes any other node that
  is online.
\<close>

theorem connected_nodes_are_online:
  assumes "sig_reach s"
  shows "(\<forall>i c. map_of (ssConnections s) i = Some c \<longrightarrow> (\<exists>n. map_of (ssNodes s) i = Some n \<and> niStatus n = ''online'')) \<and>
    (\<forall>now i n. map_of (ssNodes s) i = Some n \<longrightarrow> niStatus n = ''online'' \<longrightarrow>
      map_of (ssNodes (cleanupOfflineNodes now s)) i = Some n)"
  using sig_reach_inv [OF assms] cleanup_keeps_online sig_inv_D(3) by blast

definition ex_register :: "string \<Rightarrow> SignalingMessage" where
  "ex_register i = \<lparr>sgType = ''register'', sgFrom = i, sgTo = [], sgData = [(''node_id'', GStr i)], sgTimestamp = 0\<rparr>"

definition ex_signal :: SignalingServer where
  "ex_signal = fst (snd (sig_processMessage 2 20 (ex_register ''B'') (fst (snd (sig_processMessage 1 10 (ex_register ''A'')
     (NewSignalingServer None))))))"

lemma ex_signal_reach: "sig_reach ex_signal"
  unfolding ex_signal_def by (metis prod.collapse sig_init sig_message)

lemma ex_signal_connections: "ssConnections ex_signal = [(''A'', 10), (''B'', 20)]"
  by (simp add: ex_signal_def sig_processMessage_def ex_register_def handleRegister_def sig_str_def NewSignalingServer_def)

theorem connected_nodes_are_online_witness:
  "\<exists>n. map_of (ssNodes ex_signal) ''A'' = Some n \<and> niStatus n = ''online''"
  using connected_nodes_are_online [OF ex_signal_reach] by (simp add: ex_signal_connections)

end
