(* ===== verification/Worker_Frame.thy ===== *)
theory Worker_Frame
  imports Prelude "HOL-Library.Word"
begin

text \<open>
  Framing in core/TCPChannelWorker.go (and, the same text, core/KCPChannelWorker.go): \<open>wrapToDataFrame\<close>
  cuts the bytes of a message into frames with a head of four bytes (the type: 4 for more to come, 2 for the
  last; and the length in three bytes), and the loop of \<open>ReadThread\<close> puts them together. A connection is
  the list of the pieces in which its bytes arrive; \<open>None\<close> of a reader is waiting for more.

  The locale \<open>stream_codec\<close> is the contract the workers rely on: messages written one after the other
  are read one after the other. It is interpreted on the two functions.
\<close>

type_synonym byte = "8 word"

locale stream_codec =
  fixes put :: "'m \<Rightarrow> 'b list" and read_all :: "'b list \<Rightarrow> 'm list" and sendable :: "'m \<Rightarrow> bool"
  assumes read_none: "read_all [] = []"
    and read_next: "sendable m \<Longrightarrow> read_all (put m @ rest) = m # read_all rest"
begin

lemma read_stream: "\<forall>m \<in> set ms. sendable m \<Longrightarrow> read_all (concat (map put ms) @ rest) = ms @ read_all rest"
  by (induction ms) (simp_all add: read_next)

lemma read_stream_all: "\<forall>m \<in> set ms. sendable m \<Longrightarrow> read_all (concat (map put ms)) = ms"
  using read_stream [of ms "[]"] by (simp add: read_none)

lemma put_inject:
  assumes "\<forall>m \<in> set ms. sendable m" and "\<forall>m \<in> set ms'. sendable m"
    and "concat (map put ms) = concat (map put ms')"
  shows "ms = ms'"
  using read_stream_all [OF assms(1)] read_stream_all [OF assms(2)] unfolding assms(3) by simp

end

section \<open>Writing\<close>

definition frame_head :: "byte \<Rightarrow> nat \<Rightarrow> byte list" where
  "frame_head t n = [t, word_of_nat (n div 2 ^ 16), word_of_nat (n div 2 ^ 8), word_of_nat n]"

text \<open>The loop, with \<open>maxDataSize\<close>; a slice with a negative bound panics.\<close>

function wrap_loop :: "int \<Rightarrow> byte list \<Rightarrow> byte list option" where
  "wrap_loop m data =
     (if data = [] then Some []
      else if int (length data) > m then
        (if m \<le> 0 then None
         else map_option (\<lambda>r. frame_head 4 (nat m) @ take (nat m) data @ r) (wrap_loop m (drop (nat m) data)))
      else Some (frame_head 2 (length data) @ data))"
  by pat_completeness auto
termination by (relation "measure (\<lambda>(m, data). length data)") auto

declare wrap_loop.simps [simp del]

text \<open>
  \<open>make\<close> divides by \<open>maxDataSize\<close> and panics on a negative capacity. (With \<open>maxDataSize = 0\<close> the
  division panics before the loop could run for ever.)
\<close>

definition max_data_size :: "32 word \<Rightarrow> int" where
  "max_data_size maxFrameSize = uint maxFrameSize - 4"

definition go_quot :: "int \<Rightarrow> int \<Rightarrow> int" where
  "go_quot a b = sgn a * sgn b * (\<bar>a\<bar> div \<bar>b\<bar>)"

definition wrapToDataFrame :: "32 word \<Rightarrow> byte list \<Rightarrow> byte list option" where
  "wrapToDataFrame maxFrameSize data =
     (let m = max_data_size maxFrameSize; n = int (length data) in
      if m = 0 \<or> n + go_quot (n + m - 1) m * 4 < 0 then None else wrap_loop m data)"

section \<open>Reading\<close>

text \<open>The loop that calls \<open>Read\<close> until \<open>n\<close> bytes are there; a piece that is longer stays buffered.\<close>

fun read_full :: "nat \<Rightarrow> 'b list list \<Rightarrow> ('b list \<times> 'b list list) option" where
  "read_full n [] = (if n = 0 then Some ([], []) else None)"
| "read_full n (c # cs) =
     (if n = 0 then Some ([], c # cs)
      else if length c \<le> n then map_option (\<lambda>(r, cs'). (c @ r, cs')) (read_full (n - length c) cs)
      else Some (take n c, drop n c # cs))"

definition frame_length :: "byte list \<Rightarrow> nat" where
  "frame_length head = unat (head ! 1) * 2 ^ 16 + unat (head ! 2) * 2 ^ 8 + unat (head ! 3)"

text \<open>One round of \<open>ReadThread\<close> with \<open>toBeContinueBuffer\<close>: the buffer, the data of a complete message, the rest.\<close>

definition read_round :: "byte list \<Rightarrow> byte list list \<Rightarrow> (byte list \<times> byte list option \<times> byte list list) option" where
  "read_round buf cs = do {
     (head, cs1) \<leftarrow> read_full 4 cs;
     (ba, cs2) \<leftarrow> read_full (frame_length head) cs1;
     Some (if head ! 0 = 2 then ([], Some (buf @ ba), cs2) else (buf @ ba, None, cs2)) }"

lemma read_full_bytes:
  "read_full n cs = Some (r, cs') \<Longrightarrow> r = take n (concat cs) \<and> concat cs' = drop n (concat cs) \<and> n \<le> length (concat cs)"
  by (induction n cs arbitrary: r cs' rule: read_full.induct) (fastforce split: if_splits)+

lemma read_full_enough: "n \<le> length (concat cs) \<Longrightarrow> \<exists>r cs'. read_full n cs = Some (r, cs')"
  by (induction n cs rule: read_full.induct) fastforce+

lemma read_full_ends: "length (concat cs) < n \<Longrightarrow> read_full n cs = None"
  using read_full_bytes by (cases "read_full n cs") fastforce+

declare read_full.simps [simp del]

lemma read_full_cong:
  assumes "concat cs = concat ds"
  shows "(case read_full n cs of None \<Rightarrow> read_full n ds = None
    | Some (r, cs') \<Rightarrow> \<exists>ds'. read_full n ds = Some (r, ds') \<and> concat cs' = concat ds')"
proof (cases "n \<le> length (concat cs)")
  case True
  with assms obtain r cs' s ds' where "read_full n cs = Some (r, cs')" "read_full n ds = Some (s, ds')"
    by (metis read_full_enough)
  then show ?thesis using assms by (auto dest!: read_full_bytes)
next
  case False
  then show ?thesis using assms by (simp add: read_full_ends)
qed

lemma read_round_shorter:
  assumes "read_round buf cs = Some (b, p, cs')"
  shows "length (concat cs') + 4 \<le> length (concat cs)"
proof -
  from assms obtain head cs1 ba where 1: "read_full 4 cs = Some (head, cs1)"
    and 2: "read_full (frame_length head) cs1 = Some (ba, cs')"
    by (auto simp: read_round_def bind_eq_Some_conv split: if_splits)
  from read_full_bytes [OF 1] have 3: "length (concat cs1) + 4 = length (concat cs)" by auto
  from read_full_bytes [OF 2] have "length (concat cs') \<le> length (concat cs1)" by auto
  with 3 show ?thesis by linarith
qed

text \<open>All complete messages of a connection, in order; the round that has to wait ends the list.\<close>

function read_loop :: "byte list \<Rightarrow> byte list list \<Rightarrow> byte list list" where
  "read_loop buf cs = (case read_round buf cs of None \<Rightarrow> []
     | Some (b, p, cs') \<Rightarrow> (case p of None \<Rightarrow> read_loop b cs' | Some d \<Rightarrow> d # read_loop b cs'))"
  by pat_completeness auto
termination by (relation "measure (\<lambda>(buf, cs). length (concat cs))") (auto dest!: read_round_shorter)

declare read_loop.simps [simp del]

section \<open>The pieces do not matter\<close>

lemma read_round_cong:
  assumes "concat cs = concat ds"
  shows "(case read_round buf cs of None \<Rightarrow> read_round buf ds = None
    | Some (b, p, cs') \<Rightarrow> \<exists>ds'. read_round buf ds = Some (b, p, ds') \<and> concat cs' = concat ds')"
proof (cases "read_full 4 cs")
  case None
  then show ?thesis using read_full_cong [OF assms, of 4] by (simp add: read_round_def)
next
  case (Some x)
  then obtain head cs1 where 1: "read_full 4 cs = Some (head, cs1)" by (cases x) simp
  then obtain ds1 where 2: "read_full 4 ds = Some (head, ds1)" and eq: "concat cs1 = concat ds1"
    using read_full_cong [OF assms, of 4] by auto
  show ?thesis using read_full_cong [OF eq, of "frame_length head"]
    by (cases "read_full (frame_length head) cs1") (auto simp: read_round_def 1 2)
qed

lemma read_loop_cong: "concat cs = concat ds \<Longrightarrow> read_loop buf cs = read_loop buf ds"
proof (induction buf cs arbitrary: ds rule: read_loop.induct)
  case (1 buf cs)
  show ?case
  proof (cases "read_round buf cs")
    case None
    with read_round_cong [OF 1(3), of buf] show ?thesis by (simp add: read_loop.simps [of buf])
  next
    case (Some x)
    then obtain b p cs' where c: "read_round buf cs = Some (b, p, cs')" by (cases x) auto
    with read_round_cong [OF 1(3), of buf] obtain ds' where d: "read_round buf ds = Some (b, p, ds')"
      and eq: "concat cs' = concat ds'" by auto
    have "read_loop b cs' = read_loop b ds'"
      using 1(1) [OF c refl refl _ eq] 1(2) [OF c refl refl _ eq] by (cases p) auto
    with c d show ?thesis by (simp add: read_loop.simps [of buf] split: option.split)
  qed
qed

section \<open>The round trip\<close>

lemma three_bytes:
  assumes "n < 2 ^ 24"
  shows "n div 2 ^ 16 mod 256 * 2 ^ 16 + n div 2 ^ 8 mod 256 * 2 ^ 8 + n mod 256 = (n :: nat)"
proof -
  define q x y z where "q = n div 256" and "x = q div 256" and "y = q mod 256" and "z = n mod 256"
  have sum: "x * 65536 + y * 256 + z = n"
    using div_mult_mod_eq [of q 256] div_mult_mod_eq [of n 256]
    unfolding x_def [symmetric] y_def [symmetric] z_def [symmetric] q_def [symmetric] by linarith
  have "n div 65536 = x" using div_mult2_eq [of n 256 256] by (simp add: x_def q_def)
  moreover have "x mod 256 = x" using assms calculation by simp
  ultimately have "n div 2 ^ 16 mod 256 * 2 ^ 16 + n div 2 ^ 8 mod 256 * 2 ^ 8 + n mod 256 = x * 65536 + y * 256 + z"
    by (simp only: y_def z_def q_def power_numeral Num.pow.simps Num.sqr.simps numeral_times_numeral)
  also note sum
  finally show ?thesis .
qed

lemma unat_byte: "unat (word_of_nat k :: byte) = k mod 256"
  by (simp add: unat_of_nat)

lemma frame_head_nth: "frame_head t n ! 0 = t" "frame_head t n ! 1 = word_of_nat (n div 2 ^ 16)"
  "frame_head t n ! 2 = word_of_nat (n div 2 ^ 8)" "frame_head t n ! 3 = word_of_nat n" "length (frame_head t n) = 4"
  unfolding frame_head_def by (simp_all only: nth_Cons_0 One_nat_def numeral_2_eq_2 numeral_3_eq_3 nth_Cons_Suc list.size)

lemma frame_head_length: "n < 2 ^ 24 \<Longrightarrow> frame_length (frame_head t n) = n"
  unfolding frame_length_def frame_head_nth unat_byte by (rule three_bytes)

lemma read_loop_frame:
  assumes "length d < 2 ^ 24"
  shows "read_loop buf [frame_head t (length d) @ d @ rest] =
    (if t = 2 then (buf @ d) # read_loop [] [rest] else read_loop (buf @ d) [rest])"
proof -
  let ?s = "frame_head t (length d) @ d @ rest"
  obtain head cs1 where 1: "read_full 4 [?s] = Some (head, cs1)"
    using read_full_enough [of 4 "[?s]"] by (auto simp: frame_head_nth)
  from read_full_bytes [OF 1] have hd: "head = frame_head t (length d)" and c1: "concat cs1 = d @ rest"
    by (simp_all add: frame_head_nth)
  obtain ba cs2 where 2: "read_full (length d) cs1 = Some (ba, cs2)"
    using read_full_enough [of "length d" cs1] c1 by auto
  from read_full_bytes [OF 2] c1 have ba: "ba = d" and c2: "concat cs2 = concat [rest]" by simp_all
  have "read_round buf [?s] = Some (if t = 2 then ([], Some (buf @ d), cs2) else (buf @ d, None, cs2))"
    unfolding read_round_def 1 by (simp add: hd frame_head_length [OF assms] 2 ba frame_head_nth(1))
  then show ?thesis
    using read_loop_cong [OF c2] by (subst read_loop.simps) simp
qed

lemma read_loop_wrapped:
  assumes "0 < m" and "m < 2 ^ 24" and "data \<noteq> []"
  shows "\<exists>s. wrap_loop m data = Some s \<and> (\<forall>buf rest. read_loop buf [s @ rest] = (buf @ data) # read_loop [] [rest])"
  using assms
proof (induction m data rule: wrap_loop.induct)
  case (1 m data)
  show ?case
  proof (cases "int (length data) > m")
    case False
    then have "int (length data) < int (2 ^ 24)" using 1(3) by simp
    then have "length data < 2 ^ 24" by (simp only: of_nat_less_iff)
    with False 1(4) show ?thesis
      using read_loop_frame [of data _ 2] by (subst wrap_loop.simps) simp
  next
    case True
    define d r where "d = take (nat m) data" and "r = drop (nat m) data"
    have data: "data = d @ r" "length d = nat m" "r \<noteq> []" "length d < 2 ^ 24"
      using True 1(2,3) by (auto simp: d_def r_def)
    obtain s where s: "wrap_loop m r = Some s"
      and rd: "\<And>buf rest. read_loop buf [s @ rest] = (buf @ r) # read_loop [] [rest]"
      using 1(1) [OF 1(4) True] 1(2,3) data(3) by (auto simp: r_def)
    have "wrap_loop m data = Some (frame_head 4 (length d) @ d @ s)"
      using True 1(2,4) s data(2) by (subst wrap_loop.simps) (simp add: d_def [symmetric] r_def [symmetric])
    moreover have "read_loop buf [(frame_head 4 (length d) @ d @ s) @ rest] = (buf @ data) # read_loop [] [rest]" for buf rest
      using read_loop_frame [OF data(4), of buf 4 "s @ rest"] rd [of "buf @ d" rest] data(1) by simp
    ultimately show ?thesis by blast
  qed
qed

text \<open>For the frame sizes in use, the length fits into the head and nothing panics.\<close>

definition frame_size_ok :: "32 word \<Rightarrow> bool" where
  "frame_size_ok maxFrameSize \<longleftrightarrow> 0 < max_data_size maxFrameSize \<and> max_data_size maxFrameSize < 2 ^ 24"

lemma wrapToDataFrame_ok:
  assumes "frame_size_ok w"
  shows "wrapToDataFrame w data = wrap_loop (max_data_size w) data"
proof -
  let ?m = "max_data_size w"
  have m: "0 < ?m" using assms by (simp add: frame_size_ok_def)
  then have "0 \<le> go_quot (int (length data) + ?m - 1) ?m"
    by (simp add: go_quot_def sgn_if pos_imp_zdiv_nonneg_iff)
  with m show ?thesis by (simp add: wrapToDataFrame_def Let_def)
qed

interpretation frames: stream_codec "\<lambda>d. the (wrapToDataFrame w d)" "\<lambda>s. read_loop [] [s]"
    "\<lambda>d. d \<noteq> [] \<and> frame_size_ok w" for w
proof unfold_locales
  show "read_loop [] [[]] = []" by (simp add: read_loop.simps read_round_def read_full.simps)
next
  fix d rest :: "byte list" assume "d \<noteq> [] \<and> frame_size_ok w"
  then show "read_loop [] [the (wrapToDataFrame w d) @ rest] = d # read_loop [] [rest]"
    using read_loop_wrapped [of "max_data_size w" d] by (auto simp: wrapToDataFrame_ok frame_size_ok_def)
qed

text \<open>
  Messages written to a connection one after the other, each cut into frames, arrive as the same
  messages in the same order, in whatever pieces the connection delivers the bytes, for every frame size
  from 5 to 2^24 + 3 bytes; no call panics, and a partly received message adds nothing.
\<close>

theorem framing_roundtrip:
  assumes "frame_size_ok w" and "\<forall>m \<in> set ms. m \<noteq> []"
    and "concat pieces = concat (map (\<lambda>m. the (wrapToDataFrame w m)) ms) @ partial" and "length partial < 4"
  shows "(\<forall>m \<in> set ms. wrapToDataFrame w m \<noteq> None) \<and> read_loop [] pieces = ms"
proof -
  have ok: "\<forall>m \<in> set ms. m \<noteq> [] \<and> frame_size_ok w" using assms(1,2) by simp
  have "read_loop [] pieces = read_loop [] [concat (map (\<lambda>m. the (wrapToDataFrame w m)) ms) @ partial]"
    by (rule read_loop_cong) (simp add: assms(3))
  also have "\<dots> = ms @ read_loop [] [partial]" by (rule frames.read_stream [OF ok])
  also have "read_loop [] [partial] = []"
    using read_full_ends [of "[partial]" 4] assms(4) by (simp add: read_loop.simps read_round_def)
  finally have "read_loop [] pieces = ms" by simp
  moreover have "\<forall>m \<in> set ms. wrapToDataFrame w m \<noteq> None"
    using read_loop_wrapped [of "max_data_size w"] assms(1,2) by (fastforce simp: wrapToDataFrame_ok frame_size_ok_def)
  ultimately show ?thesis by blast
qed

theorem framing_roundtrip_witness:
  "read_loop [] [[4, 0], [0, 1, 10, 2], [0, 0, 1, 20, 2], [0, 0, 1, 30, 4]] = [[10, 20], [30]]"
proof -
  have ok: "frame_size_ok 5" by (simp add: frame_size_ok_def max_data_size_def)
  have e: "the (wrapToDataFrame 5 [10, 20]) = [4, 0, 0, 1, 10, 2, 0, 0, 1, 20]" "the (wrapToDataFrame 5 [30]) = [2, 0, 0, 1, 30]"
    by (simp_all add: wrapToDataFrame_ok [OF ok] max_data_size_def wrap_loop.simps frame_head_def)
  show ?thesis
    using framing_roundtrip [OF ok, of "[[10, 20], [30]]" "[[4, 0], [0, 1, 10, 2], [0, 0, 1, 20, 2], [0, 0, 1, 30, 4]]" "[4]"]
    by (simp add: e)
qed

end
