(* ===== verification/Net_Link.thy ===== *)
theory Net_Link
  imports Net_Types "HOL-Library.Option_ord"
begin

text \<open>
  core/Link.go and the link-state half of core/Node.go: the table of known links, the gossip that
  spreads it (\<open>heartbeat\<close>, \<open>handleHeartbeat\<close>), the measurements of the own links
  (\<open>linkUpdateFromChannel\<close>) and the expiry of old links (\<open>checkOutOfDateLinks\<close>).

  A link table is a map of maps; the code ranges over it, so it is an association list of
  association lists. \<open>ls_get\<close> is its meaning as a map.
\<close>

section \<open>Links (core/Link.go)\<close>

definition costEqual :: "int \<Rightarrow> int \<Rightarrow> bool" where
  "costEqual a b = (a = b)"

definition setCost :: "int \<Rightarrow> Link \<Rightarrow> Link" where
  "setCost c l = l\<lparr>Cost := c\<rparr>"

definition addVersion :: "Link \<Rightarrow> Link" where
  "addVersion l = l\<lparr>Version := i64 (Version l + 1)\<rparr>"

definition updateVersion :: "int \<Rightarrow> Link \<Rightarrow> Link" where
  "updateVersion v l = l\<lparr>Version := v\<rparr>"

definition setLastUpdateTime :: "int \<Rightarrow> Link \<Rightarrow> Link" where
  "setLastUpdateTime now l = l\<lparr>LastUpdateTime := now\<rparr>"

definition checkOutOfTime :: "int \<Rightarrow> Link \<Rightarrow> bool" where
  "checkOutOfTime now l \<longleftrightarrow> 10 * 10 ^ 9 < now - LastUpdateTime l"

section \<open>The link table\<close>

definition ls_row :: "LinkSet \<Rightarrow> string \<Rightarrow> (string \<times> Link) list" where
  "ls_row ls s = (case map_of ls s of None \<Rightarrow> [] | Some m \<Rightarrow> m)"

definition ls_get :: "LinkSet \<Rightarrow> string \<Rightarrow> string \<Rightarrow> Link option" where
  "ls_get ls s t = map_of (ls_row ls s) t"

text \<open>\<open>if \<not>exists { LinkSet[s] = make(...) }\<close> and \<open>LinkSet[s][t] = l\<close>.\<close>

definition ls_ensure :: "string \<Rightarrow> LinkSet \<Rightarrow> LinkSet" where
  "ls_ensure s ls = (case map_of ls s of None \<Rightarrow> AList.update s [] ls | Some _ \<Rightarrow> ls)"

definition ls_put :: "string \<Rightarrow> string \<Rightarrow> Link \<Rightarrow> LinkSet \<Rightarrow> LinkSet" where
  "ls_put s t l ls = AList.update s (AList.update t l (ls_row ls s)) ls"

definition ls_wf :: "LinkSet \<Rightarrow> bool" where
  "ls_wf ls \<longleftrightarrow> distinct (map fst ls) \<and> (\<forall>(s, m) \<in> set ls. distinct (map fst m))"

lemma ls_get_put [simp]:
  "ls_get (ls_put s t l ls) s' t' = (if s' = s \<and> t' = t then Some l else ls_get ls s' t')"
  by (simp add: ls_get_def ls_put_def ls_row_def)

lemma ls_get_ensure [simp]: "ls_get (ls_ensure s ls) s' t' = ls_get ls s' t'"
  by (simp add: ls_get_def ls_ensure_def ls_row_def split: option.split)

lemma ls_wf_row: "ls_wf ls \<Longrightarrow> distinct (map fst (ls_row ls s))"
  by (auto simp: ls_wf_def ls_row_def split: option.split dest: map_of_SomeD)

lemma ls_wf_put [go_intros]: "ls_wf ls \<Longrightarrow> ls_wf (ls_put s t l ls)"
  using ls_wf_row [of ls s] set_update_subset [of s "AList.update t l (ls_row ls s)" ls]
  by (fastforce simp: ls_wf_def ls_put_def intro: distinct_update)

lemma ls_wf_ensure [go_intros]: "ls_wf ls \<Longrightarrow> ls_wf (ls_ensure s ls)"
  using set_update_subset [of s "[]" ls]
  by (fastforce simp: ls_wf_def ls_ensure_def intro: distinct_update split: option.split)

lemma map_of_filter: "distinct (map fst al) \<Longrightarrow>
    map_of (filter P al) k = (case map_of al k of None \<Rightarrow> None | Some v \<Rightarrow> if P (k, v) then Some v else None)"
proof (induction al)
  case (Cons x al)
  then show ?case by (cases x) (auto split: option.splits simp: map_of_eq_None_iff)
qed simp

section \<open>Gossip\<close>

definition serializeLinkSet :: "'d Node \<Rightarrow> Payload" where
  "serializeLinkSet n = LinksJson (map (\<lambda>(s, m). (s, filter (\<lambda>(_, l). Cost l \<noteq> -1) m)) (nLinks n))"

definition deserializeLinkSet :: "Payload \<Rightarrow> LinkSet option" where
  "deserializeLinkSet p = (case p of LinksJson ls \<Rightarrow> Some ls | _ \<Rightarrow> None)"

text \<open>One tick of the goroutine \<open>heartbeat\<close>; the message is not stamped with a version.\<close>

definition heartbeat_message :: "'d Node \<Rightarrow> Message" where
  "heartbeat_message n = zero_message\<lparr>mType := HeartBeat, mData := serializeLinkSet n,
     mFrom := nID n, mTTL := 1, LastSender := nID n\<rparr>"

definition heartbeat_tick :: "'d Node \<Rightarrow> net_out list" where
  "heartbeat_tick n = broadcast_all (heartbeat_message n) n"

definition merge_link :: "int \<Rightarrow> string \<Rightarrow> string \<times> Link \<Rightarrow> LinkSet \<Rightarrow> LinkSet" where
  "merge_link now source = (\<lambda>(target, link) ls. (case ls_get ls source target of
       None \<Rightarrow> ls_put source target (setLastUpdateTime now link) ls
     | Some existing \<Rightarrow>
         if Version existing < Version link then ls_put source target (setLastUpdateTime now link) ls
         else ls_put source target (setLastUpdateTime now existing) ls))"

definition merge_links :: "int \<Rightarrow> LinkSet \<Rightarrow> LinkSet \<Rightarrow> LinkSet" where
  "merge_links now received = fold (\<lambda>(source, links) ls.
     fold (merge_link now source) links (ls_ensure source ls)) received"

definition touch_peer :: "int \<Rightarrow> string \<Rightarrow> 'd Node \<Rightarrow> 'd Node" where
  "touch_peer now p n = n\<lparr>NodePeers := AList.update p \<lparr>LastActiveTime = now, Status = Active\<rparr> (NodePeers n)\<rparr>"

definition handleHeartbeat :: "int \<Rightarrow> Message \<Rightarrow> 'd Node \<Rightarrow> 'd Node" where
  "handleHeartbeat now m n =
     (let n1 = touch_peer now (mFrom m) n in
      case deserializeLinkSet (mData m) of
        None \<Rightarrow> n1
      | Some received \<Rightarrow> n1\<lparr>nLinks := merge_links now received (nLinks n1)\<rparr>)"

section \<open>Own links\<close>

definition linkUpdateFromChannel :: "int \<Rightarrow> Link \<Rightarrow> 'd Node \<Rightarrow> 'd Node" where
  "linkUpdateFromChannel now link n =
     (let ls = ls_ensure (Source link) (nLinks n);
          fresh = ls_put (Source link) (Target link) (setLastUpdateTime now link) ls
      in case ls_get ls (Source link) (Target link) of
           None \<Rightarrow> n\<lparr>nLinks := fresh\<rparr>
         | Some l \<Rightarrow>
             if \<not> costEqual (Cost l) (Cost link) then n\<lparr>nLinks := fresh\<rparr>
             else let l1 = (if Version l < Version link then updateVersion (Version link) l else l)
                  in n\<lparr>nLinks := ls_put (Source link) (Target link) (setLastUpdateTime now l1) ls\<rparr>)"

definition updateLinkCost :: "string \<Rightarrow> int \<Rightarrow> 'd Node \<Rightarrow> string + 'd Node" where
  "updateLinkCost peerId cost n = (case map_of (nLinks n) (nID n) of
       None \<Rightarrow> Inl (''LinkSet for Node '' @ nID n @ '' does not exist'')
     | Some m \<Rightarrow> (case map_of m peerId of
           None \<Rightarrow> Inl (''Link from '' @ nID n @ '' to '' @ peerId @ '' does not exist'')
         | Some link \<Rightarrow> Inr (n\<lparr>nLinks := ls_put (nID n) peerId (setCost cost link) (nLinks n)\<rparr>)))"

definition collect_peer :: "string \<Rightarrow> string \<Rightarrow> 'd Node \<Rightarrow> 'd Node" where
  "collect_peer channelID peerID n =
     (let n1 = (case map_of (NodePeers n) peerID of
            None \<Rightarrow> n\<lparr>NodePeers := AList.update peerID \<lparr>LastActiveTime = 0, Status = Active\<rparr> (NodePeers n)\<rparr>
          | Some _ \<Rightarrow> n);
          link = \<lparr>Source = nID n, Target = peerID, Cost = -1, Version = 0, lkChannel = channelID,
                  LastUpdateTime = 0\<rparr>;
          ls = ls_ensure (nID n) (nLinks n1)
      in n1\<lparr>nLinks := (case ls_get ls (nID n) peerID of
                           None \<Rightarrow> ls_put (nID n) peerID link ls | Some _ \<Rightarrow> ls)\<rparr>)"

definition collectLinkPaths :: "'d Node \<Rightarrow> 'd Node" where
  "collectLinkPaths n = fold (\<lambda>(channelID, ch). fold (\<lambda>(peerID, _). collect_peer channelID peerID)
     (ChannelPeers ch)) (Channels n) n"

section \<open>Expiry\<close>

text \<open>
  The two halves of \<open>checkOutOfDateLinks\<close>: what is to be deleted is collected under the read lock and
  deleted under the write lock, after the lock was free in between.
\<close>

definition expired_links :: "int \<Rightarrow> 'd Node \<Rightarrow> (string \<times> string list) list" where
  "expired_links now n = filter (\<lambda>(_, ks). ks \<noteq> [])
     (map (\<lambda>(s, m). (s, map fst (filter (\<lambda>(_, l). checkOutOfTime now l) m))) (nLinks n))"

definition delete_row :: "string \<times> string list \<Rightarrow> LinkSet \<Rightarrow> LinkSet" where
  "delete_row = (\<lambda>(s, ks) ls.
     (let row = fold AList.delete ks (ls_row ls s) in
      if row = [] then AList.delete s ls
      else AList.update s row ls))"

definition delete_links :: "(string \<times> string list) list \<Rightarrow> 'd Node \<Rightarrow> 'd Node" where
  "delete_links keys n = n\<lparr>nLinks := fold delete_row keys (nLinks n)\<rparr>"

definition checkOutOfDateLinks :: "int \<Rightarrow> 'd Node \<Rightarrow> 'd Node" where
  "checkOutOfDateLinks now n = (let keys = expired_links now n in
     if keys = [] then n else delete_links keys n)"

text \<open>A tick of the goroutines \<open>buildUp\<close> (with its alternating flag) and \<open>collectAndCheckPeers\<close>.\<close>

definition buildUp_tick :: "bool \<Rightarrow> bool \<times> net_out list" where
  "buildUp_tick isCheckLinks =
     (\<not> isCheckLinks, if isCheckLinks then [Go T_checkOutOfDateLinks] else [Go T_buildRoutingTable])"

definition CheckPeersNew :: "'d Node \<Rightarrow> net_out list" where
  "CheckPeersNew n = map (\<lambda>(c, _). Go (T_checkCost c)) (Channels n)"

definition collectAndCheckPeers_tick :: "'d Node \<Rightarrow> 'd Node \<times> net_out list" where
  "collectAndCheckPeers_tick n = (let n1 = addGlobalLinkVersion n in (n1, CheckPeersNew n1))"

section \<open>The newest version wins\<close>

definition link_version :: "LinkSet \<Rightarrow> string \<Rightarrow> string \<Rightarrow> int option" where
  "link_version ls s t = map_option Version (ls_get ls s t)"

lemma max_None [simp]:
  fixes x :: "'a :: linorder option"
  shows "max x None = x" and "max None x = x"
  by (cases x; simp add: max_def)+

lemma ls_get_merge_link:
  "ls_get (merge_link now s (t, l) ls) s' t' =
     (if s' = s \<and> t' = t
      then Some (setLastUpdateTime now (case ls_get ls s t of
          None \<Rightarrow> l | Some e \<Rightarrow> if Version e < Version l then l else e))
      else ls_get ls s' t')"
  by (auto simp: merge_link_def split: option.split)

text \<open>Merging one received link into one known link.\<close>

definition newer :: "Link option \<Rightarrow> Link option \<Rightarrow> Link option" where
  "newer known received = (case received of None \<Rightarrow> known | Some l \<Rightarrow> (case known of
       None \<Rightarrow> Some l | Some e \<Rightarrow> Some (if Version e < Version l then l else e)))"

lemma ls_get_merge_row:
  assumes "distinct (map fst row)"
  shows "ls_get (fold (merge_link now s) row ls) s' t' =
    (if s' = s \<and> map_of row t' \<noteq> None
     then map_option (setLastUpdateTime now) (newer (ls_get ls s' t') (map_of row t'))
     else ls_get ls s' t')"
  using assms
proof (induction row arbitrary: ls)
  case (Cons x row)
  obtain t l where x: "x = (t, l)" by (cases x)
  have d: "distinct (map fst row)" and nt: "map_of row t = None"
    using Cons.prems x by (auto simp: map_of_eq_None_iff)
  show ?case
    using nt by (auto simp: x Cons.IH [OF d] ls_get_merge_link newer_def split: option.split)
qed simp

lemma ls_get_merge_links:
  assumes "ls_wf rs"
  shows "ls_get (merge_links now rs ls) s t = (case ls_get rs s t of
      None \<Rightarrow> ls_get ls s t
    | Some l \<Rightarrow> map_option (setLastUpdateTime now) (newer (ls_get ls s t) (Some l)))"
  using assms
proof (induction rs arbitrary: ls)
  case Nil
  then show ?case by (simp add: merge_links_def ls_get_def ls_row_def)
next
  case (Cons x rs)
  obtain s0 row where x: "x = (s0, row)" by (cases x)
  have wf: "ls_wf rs" and d: "distinct (map fst row)" and n: "map_of rs s0 = None"
    using Cons.prems x by (auto simp: ls_wf_def map_of_eq_None_iff)
  have step: "merge_links now (x # rs) ls =
      merge_links now rs (fold (merge_link now s0) row (ls_ensure s0 ls))"
    by (simp add: merge_links_def x)
  have r: "ls_get (x # rs) s t = (if s = s0 then map_of row t else ls_get rs s t)"
    by (auto simp: ls_get_def ls_row_def x)
  have n0: "ls_get rs s0 t = None" using n by (simp add: ls_get_def ls_row_def)
  show ?case
    using n0 by (auto simp: step Cons.IH [OF wf] r ls_get_merge_row [OF d] split: option.split)
qed

lemma link_version_merge:
  "ls_wf rs \<Longrightarrow> link_version (merge_links now rs ls) s t = max (link_version ls s t) (link_version rs s t)"
  by (cases "ls_get ls s t"; cases "ls_get rs s t")
    (simp_all add: link_version_def ls_get_merge_links newer_def setLastUpdateTime_def max_def)

definition message_links :: "Message \<Rightarrow> LinkSet" where
  "message_links m = (case deserializeLinkSet (mData m) of None \<Rightarrow> [] | Some ls \<Rightarrow> ls)"

definition heartbeats :: "(int \<times> Message) list \<Rightarrow> 'd Node \<Rightarrow> 'd Node" where
  "heartbeats ms = fold (\<lambda>(now, m). handleHeartbeat now m) ms"

lemma nLinks_handleHeartbeat:
  "nLinks (handleHeartbeat now m n) = merge_links now (message_links m) (nLinks n)"
  by (simp add: handleHeartbeat_def Let_def touch_peer_def message_links_def merge_links_def
      split: option.split)

lemma version_heartbeats:
  assumes "\<forall>(now, m) \<in> set ms. ls_wf (message_links m)"
  shows "link_version (nLinks (heartbeats ms n)) s t =
    fold max (map (\<lambda>(_, m). link_version (message_links m) s t) ms) (link_version (nLinks n) s t)"
  using assms
proof (induction ms arbitrary: n)
  case (Cons x ms)
  then show ?case
    by (cases x) (simp add: heartbeats_def nLinks_handleHeartbeat link_version_merge max.commute)
qed (simp add: heartbeats_def)

lemma link_of_heartbeats:
  assumes "\<forall>(now, m) \<in> set ms. ls_wf (message_links m)" and "ls_get (nLinks (heartbeats ms n)) s t = Some l"
  shows "\<exists>l0. (ls_get (nLinks n) s t = Some l0 \<or>
      (\<exists>(now, m) \<in> set ms. ls_get (message_links m) s t = Some l0)) \<and>
    l = l0\<lparr>LastUpdateTime := LastUpdateTime l\<rparr>"
  using assms
proof (induction ms arbitrary: n)
  case Nil
  then show ?case by (auto simp: heartbeats_def)
next
  case (Cons x ms)
  obtain now m where x: "x = (now, m)" by (cases x)
  let ?n = "handleHeartbeat now m n"
  have wf: "ls_wf (message_links m)" using Cons.prems x by simp
  have "ls_get (nLinks (heartbeats ms ?n)) s t = Some l"
    using Cons.prems(2) by (simp add: heartbeats_def x)
  with Cons obtain l0 where l0: "ls_get (nLinks ?n) s t = Some l0 \<or>
      (\<exists>(now, m) \<in> set ms. ls_get (message_links m) s t = Some l0)"
    "l = l0\<lparr>LastUpdateTime := LastUpdateTime l\<rparr>" by fastforce
  from l0(1) show ?case
  proof
    assume "ls_get (nLinks ?n) s t = Some l0"
    then obtain l1 where "ls_get (nLinks n) s t = Some l1 \<or> ls_get (message_links m) s t = Some l1"
      "l0 = l1 \<or> l0 = setLastUpdateTime now l1"
      by (auto simp: nLinks_handleHeartbeat ls_get_merge_links [OF wf] newer_def
          split: option.splits if_splits)
    with l0(2) have "l = l1\<lparr>LastUpdateTime := LastUpdateTime l\<rparr>" by (auto simp: setLastUpdateTime_def)
    with \<open>ls_get (nLinks n) s t = Some l1 \<or> _\<close> show ?thesis by (auto simp: x)
  qed (use l0(2) in \<open>auto simp: x\<close>)
qed

section \<open>What expires\<close>

lemma map_of_fold_delete: "map_of (fold AList.delete ks al) t = (if t \<in> set ks then None else map_of al t)"
  by (induction ks arbitrary: al) auto

lemma ls_get_delete_row:
  "ls_get (delete_row (s0, ks) ls) s t = (if s = s0 \<and> t \<in> set ks then None else ls_get ls s t)"
proof -
  have "ls_row (delete_row (s0, ks) ls) s = (if s = s0 then fold AList.delete ks (ls_row ls s0) else ls_row ls s)"
    by (auto simp: ls_row_def delete_row_def Let_def)
  then show ?thesis by (simp add: ls_get_def map_of_fold_delete)
qed

lemma ls_get_delete_rows:
  "ls_get (fold delete_row keys ls) s t =
     (if \<exists>ks. (s, ks) \<in> set keys \<and> t \<in> set ks then None else ls_get ls s t)"
proof (induction keys arbitrary: ls)
  case (Cons x keys)
  then show ?case by (cases x) (auto simp: ls_get_delete_row)
qed simp

lemma expired_links_iff:
  assumes "ls_wf (nLinks n)"
  shows "(\<exists>ks. (s, ks) \<in> set (expired_links now n) \<and> t \<in> set ks) \<longleftrightarrow>
    (\<exists>l. ls_get (nLinks n) s t = Some l \<and> checkOutOfTime now l)"
proof -
  have d: "distinct (map fst (nLinks n))" using assms by (simp add: ls_wf_def)
  have rows: "(s, m) \<in> set (nLinks n) \<Longrightarrow> ls_row (nLinks n) s = m \<and> distinct (map fst m)" for m
    using assms by (auto simp: ls_row_def ls_wf_def map_of_is_SomeI [OF d])
  show ?thesis
  proof
    assume "\<exists>ks. (s, ks) \<in> set (expired_links now n) \<and> t \<in> set ks"
    then obtain ks where ks: "(s, ks) \<in> set (expired_links now n)" "t \<in> set ks" by blast
    from ks(1) have "(s, ks) \<in> (\<lambda>(s, m). (s, map fst (filter (\<lambda>(_, l). checkOutOfTime now l) m))) ` set (nLinks n)"
      unfolding expired_links_def by simp
    then obtain m where m: "(s, m) \<in> set (nLinks n)"
      and "ks = map fst (filter (\<lambda>(_, l). checkOutOfTime now l) m)" by auto
    with ks(2) have "t \<in> set (map fst (filter (\<lambda>(_, l). checkOutOfTime now l) m))" by simp
    then obtain l where l: "(t, l) \<in> set m" "checkOutOfTime now l" by auto
    with rows [OF m] show "\<exists>l. ls_get (nLinks n) s t = Some l \<and> checkOutOfTime now l"
      by (auto simp: ls_get_def intro!: map_of_is_SomeI)
  next
    assume "\<exists>l. ls_get (nLinks n) s t = Some l \<and> checkOutOfTime now l"
    then obtain l where l: "map_of (ls_row (nLinks n) s) t = Some l" "checkOutOfTime now l"
      by (auto simp: ls_get_def)
    then obtain m where "map_of (nLinks n) s = Some m" by (auto simp: ls_row_def split: option.splits)
    then have m: "(s, m) \<in> set (nLinks n)" by (rule map_of_SomeD)
    with rows l have "(t, l) \<in> set m" by (auto dest: map_of_SomeD)
    let ?ks = "map fst (filter (\<lambda>(_, l). checkOutOfTime now l) m)"
    from \<open>(t, l) \<in> set m\<close> l have t: "t \<in> set ?ks" by force
    have "(s, ?ks) \<in> set (map (\<lambda>(s, m). (s, map fst (filter (\<lambda>(_, l). checkOutOfTime now l) m))) (nLinks n))"
      unfolding set_map by (rule rev_image_eqI [OF m]) simp
    moreover have "?ks \<noteq> []" using t by force
    ultimately have "(s, ?ks) \<in> set (expired_links now n)" unfolding expired_links_def set_filter by blast
    with t show "\<exists>ks. (s, ks) \<in> set (expired_links now n) \<and> t \<in> set ks" by blast
  qed
qed

lemma ls_get_checkOutOfDateLinks:
  assumes "ls_wf (nLinks n)"
  shows "ls_get (nLinks (checkOutOfDateLinks now n)) s t = (case ls_get (nLinks n) s t of
      None \<Rightarrow> None | Some l \<Rightarrow> if checkOutOfTime now l then None else Some l)"
proof -
  have "nLinks (checkOutOfDateLinks now n) = fold delete_row (expired_links now n) (nLinks n)"
    by (simp add: checkOutOfDateLinks_def delete_links_def Let_def)
  then show ?thesis
    by (auto simp: ls_get_delete_rows expired_links_iff [OF assms] split: option.split)
qed

lemma ls_get_serialize:
  assumes "ls_wf (nLinks n)" and "ls_get (nLinks n) s t = Some l" and "Cost l \<noteq> -1"
  shows "ls_get (message_links (heartbeat_message n)) s t = Some l"
proof -
  let ?f = "filter (\<lambda>(_, l). Cost l \<noteq> -1)"
  have m: "map_of (map (\<lambda>(s, m). (s, ?f m)) al) s = map_option ?f (map_of al s)" for al
    by (induction al) auto
  have "ls_row (message_links (heartbeat_message n)) s = ?f (ls_row (nLinks n) s)"
    unfolding message_links_def heartbeat_message_def serializeLinkSet_def deserializeLinkSet_def
    by (cases "map_of (nLinks n) s") (simp_all add: ls_row_def m)
  then show ?thesis
    using assms ls_wf_row [OF assms(1), of s] by (simp add: ls_get_def map_of_filter)
qed

section \<open>Well-formed tables\<close>

lemma ls_wf_merge_links:
  assumes "ls_wf ls"
  shows "ls_wf (merge_links now rs ls)"
proof -
  have link: "ls_wf ls \<Longrightarrow> ls_wf (merge_link now s x ls)" for s x ls
    by (cases x) (auto simp: merge_link_def split: option.split intro!: go_intros)
  have row: "ls_wf ls \<Longrightarrow> ls_wf (fold (merge_link now s) r ls)" for s r ls
    by (induction r arbitrary: ls) (simp_all add: link)
  show ?thesis
    using assms unfolding merge_links_def
    by (induction rs arbitrary: ls) (auto intro!: row go_intros)
qed

lemma ls_wf_handleHeartbeat [go_intros]: "ls_wf (nLinks n) \<Longrightarrow> ls_wf (nLinks (handleHeartbeat now m n))"
  by (simp add: nLinks_handleHeartbeat ls_wf_merge_links)

lemma ls_wf_message [go_intros]: "ls_wf (nLinks n) \<Longrightarrow> ls_wf (message_links (heartbeat_message n))"
  by (auto simp: ls_wf_def message_links_def heartbeat_message_def serializeLinkSet_def
      deserializeLinkSet_def comp_def case_prod_unfold intro: distinct_map_filter)

lemma distinct_fold_delete: "distinct (map fst al) \<Longrightarrow> distinct (map fst (fold AList.delete ks al))"
  by (induction ks arbitrary: al) (auto intro: go_intros)

lemma set_delete_subset: "set (AList.delete k al) \<subseteq> set al"
  by (auto simp: AList.delete_eq)

lemma ls_wf_delete_row: "ls_wf ls \<Longrightarrow> ls_wf (delete_row x ls)"
  using ls_wf_row [of ls "fst x"] set_delete_subset [of "fst x" ls]
    set_update_subset [of "fst x" "fold AList.delete (snd x) (ls_row ls (fst x))" ls]
  by (cases x) (fastforce simp: ls_wf_def delete_row_def Let_def intro: go_intros distinct_fold_delete)

lemma ls_wf_checkOutOfDateLinks [go_intros]:
  assumes "ls_wf (nLinks n)"
  shows "ls_wf (nLinks (checkOutOfDateLinks now n))"
proof -
  have "ls_wf ls \<Longrightarrow> ls_wf (fold delete_row keys ls)" for keys ls
    by (induction keys arbitrary: ls) (auto intro: ls_wf_delete_row)
  with assms show ?thesis by (simp add: checkOutOfDateLinks_def delete_links_def Let_def)
qed

lemma ls_wf_linkUpdate [go_intros]: "ls_wf (nLinks n) \<Longrightarrow> ls_wf (nLinks (linkUpdateFromChannel now l n))"
  by (auto simp: linkUpdateFromChannel_def Let_def split: option.split intro!: go_intros)

section \<open>Properties\<close>


definition ex_link :: "string \<Rightarrow> string \<Rightarrow> int \<Rightarrow> int \<Rightarrow> Link" where
  "ex_link s t c v = \<lparr>Source = s, Target = t, Cost = c, Version = v, lkChannel = s @ ''-1'', LastUpdateTime = 0\<rparr>"

definition ex_gossip :: "string \<Rightarrow> LinkSet \<Rightarrow> Message" where
  "ex_gossip from1 ls = zero_message\<lparr>mType := HeartBeat, mData := LinksJson ls, mFrom := from1, mTTL := 1\<rparr>"


text \<open>
  Two neighbours that exchange heartbeats: each handles the heartbeat of the other, and both remove
  expired links some time later.
\<close>

definition exchange :: "int \<times> int \<times> int \<Rightarrow> 'd Node \<times> 'd Node \<Rightarrow> 'd Node \<times> 'd Node" where
  "exchange = (\<lambda>(now, ta, tb) (a, b).
     (checkOutOfDateLinks ta (handleHeartbeat now (heartbeat_message b) a),
      checkOutOfDateLinks tb (handleHeartbeat now (heartbeat_message a) b)))"

definition has_link :: "string \<Rightarrow> string \<Rightarrow> 'd Node \<Rightarrow> bool" where
  "has_link s t n \<longleftrightarrow> ls_wf (nLinks n) \<and> (\<exists>l. ls_get (nLinks n) s t = Some l \<and> Cost l \<noteq> -1)"

lemma has_link_refreshed:
  assumes "has_link s t a" and "has_link s t b" and "t0 \<le> now + 10 * 10 ^ 9"
  shows "has_link s t (checkOutOfDateLinks t0 (handleHeartbeat now (heartbeat_message b) a))"
proof -
  obtain l where l: "ls_get (nLinks b) s t = Some l" "Cost l \<noteq> -1" and wb: "ls_wf (nLinks b)"
    using assms(2) by (auto simp: has_link_def)
  obtain e where e: "ls_get (nLinks a) s t = Some e" "Cost e \<noteq> -1" and wa: "ls_wf (nLinks a)"
    using assms(1) by (auto simp: has_link_def)
  let ?a = "handleHeartbeat now (heartbeat_message b) a"
  have g: "ls_get (nLinks ?a) s t = Some (setLastUpdateTime now (if Version e < Version l then l else e))"
    using ls_get_merge_links [OF ls_wf_message [OF wb]] ls_get_serialize [OF wb l] e
    by (simp add: nLinks_handleHeartbeat newer_def)
  have "ls_wf (nLinks ?a)" by (rule ls_wf_handleHeartbeat [OF wa])
  moreover from ls_get_checkOutOfDateLinks [OF this, of t0 s t] g l e assms(3)
  have "ls_get (nLinks (checkOutOfDateLinks t0 ?a)) s t =
      Some (setLastUpdateTime now (if Version e < Version l then l else e))"
    by (simp add: checkOutOfTime_def setLastUpdateTime_def)
  ultimately show ?thesis
    using l e by (auto simp: has_link_def setLastUpdateTime_def intro: ls_wf_checkOutOfDateLinks)
qed

text \<open>
  A dead link never expires: as long as two neighbours that both know a link exchange heartbeats
  and look for expired links within ten seconds of the last one, the link stays in both tables,
  whether or not its own endpoints still exist. Handling a heartbeat refreshes a link even when the
  received version is not newer, so the ten seconds of \<open>checkOutOfTime\<close> never pass.
\<close>

theorem dead_link_never_expires:
  assumes "has_link s t a" and "has_link s t b"
    and "\<forall>(now, ta, tb) \<in> set rounds. ta \<le> now + 10 * 10 ^ 9 \<and> tb \<le> now + 10 * 10 ^ 9"
    and "fold exchange rounds (a, b) = (a', b')"
  shows "has_link s t a' \<and> has_link s t b'"
  using assms
proof (induction rounds arbitrary: a b)
  case (Cons r rounds)
  obtain now ta tb where r: "r = (now, ta, tb)" by (cases r)
  show ?case
    using Cons.prems
    by (intro Cons.IH [OF has_link_refreshed [OF Cons.prems(1,2)] has_link_refreshed [OF Cons.prems(2,1)]])
      (auto simp: r exchange_def)
qed simp

definition ex_knows_dead :: "string \<Rightarrow> unit Node" where
  "ex_knows_dead i = (NewNode i)\<lparr>nLinks := [(''dead'', [(''x'', ex_link ''dead'' ''x'' 5 7)])]\<rparr>"

theorem dead_link_never_expires_witness:
  "has_link ''dead'' ''x'' (fst (fold exchange (map (\<lambda>i. (i * 10 ^ 9, i * 10 ^ 9 + 1, i * 10 ^ 9 + 1)) [1..3600])
     (ex_knows_dead ''a'', ex_knows_dead ''b'')))"
proof -
  have h: "has_link ''dead'' ''x'' (ex_knows_dead i)" for i
    by (simp add: has_link_def ls_wf_def ex_knows_dead_def ls_get_def ls_row_def ex_link_def)
  let ?rs = "map (\<lambda>i. (i * 10 ^ 9, i * 10 ^ 9 + 1, i * 10 ^ 9 + 1)) [1..3600]"
  obtain a' b' where e: "fold exchange ?rs (ex_knows_dead ''a'', ex_knows_dead ''b'') = (a', b')" by fastforce
  have "\<forall>(now, ta, tb) \<in> set ?rs. ta \<le> now + 10 * 10 ^ 9 \<and> tb \<le> now + 10 * 10 ^ 9"
    by auto
  from dead_link_never_expires [OF h h this e] e show ?thesis by simp
qed

end
