(* ===== verification/Net_Send.thy ===== *)
theory Net_Send
  imports Net_Link "HOL-Library.Multiset"
begin

text \<open>
  Sending, retrying and grouping of messages in core/Node.go: \<open>sendTo\<close> and the retry queue, the
  greetings and farewells of a node, its channels and clients, and the grouping of targets by next
  hop that \<open>publishOnTopic\<close>, \<open>handleBundle\<close> and their Raft counterparts share.

  \<open>ord\<close> is the order in which a range loop over a map visits the entries.
\<close>

section \<open>Sending\<close>

text \<open>The optional last argument of \<open>sendTo\<close> is a list of channel ids.\<close>

definition sendTo :: "string \<Rightarrow> Message \<Rightarrow> string list \<Rightarrow> 'd Node \<Rightarrow> 'd Node \<times> net_out list" where
  "sendTo targetId msg channelID n =
     (let (m1, n1) = stamp msg n; m2 = m1\<lparr>mTo := targetId\<rparr> in
      case map_of (nRoutes n1) targetId of
        None \<Rightarrow> (n1, [Go (T_addToRetryQueue (m2\<lparr>Lost := True\<rparr>))])
      | Some [] \<Rightarrow> (n1, [Go (T_addToRetryQueue (m2\<lparr>Lost := True\<rparr>))])
      | Some (r # _) \<Rightarrow>
          (let localChannelID = (case channelID of [] \<Rightarrow> LocalChannelID r | c # _ \<Rightarrow> c);
               m3 = m2\<lparr>mRoute := nextHopNodeID r\<rparr>
           in case map_of (Channels n1) localChannelID of
                None \<Rightarrow> (n1, [Go (T_addToRetryQueue (m3\<lparr>Lost := True\<rparr>))])
              | Some _ \<Rightarrow> (n1, [SendOn localChannelID (nextHopNodeID r) m3])))"

definition addToRetryQueue :: "Message \<Rightarrow> 'd Node \<Rightarrow> 'd Node" where
  "addToRetryQueue msg n = n\<lparr>RetryQueue := RetryQueue n @ [msg]\<rparr>"

text \<open>One round of \<open>startRetryLoop\<close>.\<close>

definition retry_tick :: "'d Node \<Rightarrow> 'd Node \<times> net_out list" where
  "retry_tick n = (case RetryQueue n of
       [] \<Rightarrow> (n, [])
     | msg # rest \<Rightarrow> sendTo (mTo msg) msg [] (n\<lparr>RetryQueue := rest\<rparr>))"

definition cleanup_tick :: "'d Node \<Rightarrow> 'd Node" where
  "cleanup_tick n = n\<lparr>ReceivedMsgs := []\<rparr>"

section \<open>Greetings and farewells\<close>

definition hello :: "'d Node \<Rightarrow> 'd Node \<times> net_out list" where
  "hello n = (let (msg, n1) = stamp (zero_message\<lparr>mType := Hello, mData := Text (nID n), mFrom := nID n,
       mTTL := 1, LastSender := nID n\<rparr>) n
     in (n1, broadcast_all msg n1))"

definition sendQuitRequest :: "string \<Rightarrow> 'd Node \<Rightarrow> 'd Node \<times> net_out list" where
  "sendQuitRequest peerId n = sendTo peerId (zero_message\<lparr>mType := Quit, mData := Text peerId,
     mFrom := nID n, mTo := peerId, mRoute := peerId, mTTL := 1, LastSender := nID n\<rparr>) [] n"

text \<open>Running an operation for every element and collecting the outputs.\<close>

fun each :: "('a \<Rightarrow> 's \<Rightarrow> 's \<times> 'o list) \<Rightarrow> 'a list \<Rightarrow> 's \<Rightarrow> 's \<times> 'o list" where
  "each f [] s = (s, [])"
| "each f (x # xs) s = (let (s1, o1) = f x s; (s2, o2) = each f xs s1 in (s2, o1 @ o2))"

definition sendQuit :: "'d Node \<Rightarrow> 'd Node \<times> net_out list" where
  "sendQuit n = each (\<lambda>(peerId, _). sendQuitRequest peerId) (NodePeers n) n"

section \<open>Channels and clients of a node\<close>

definition AddChannel :: "Channel \<Rightarrow> 'd Node \<Rightarrow> 'd Node" where
  "AddChannel ch n = (let channelID = nID n @ ''-'' @ itoa (int (length (Channels n)) + 1)
     in n\<lparr>Channels := AList.update channelID (ch\<lparr>chID := channelID\<rparr>) (Channels n)\<rparr>)"

definition GetChannel :: "string \<Rightarrow> 'd Node \<Rightarrow> Channel option" where
  "GetChannel channelID n = map_of (Channels n) channelID"

definition AddClient :: "string \<Rightarrow> 'd Node \<Rightarrow> 'd Node" where
  "AddClient clientID n = (if clientID \<in> set (ClientIDs n) then n
     else n\<lparr>ClientIDs := ClientIDs n @ [clientID]\<rparr>)"

definition GetClientIDs :: "'d Node \<Rightarrow> string list" where
  "GetClientIDs n = ClientIDs n"

section \<open>Grouping targets by next hop\<close>

definition next_hop :: "RoutingTable \<Rightarrow> string \<Rightarrow> string option" where
  "next_hop rt t = (case map_of rt t of None \<Rightarrow> None | Some [] \<Rightarrow> None | Some (r # _) \<Rightarrow> Some (nextHopNodeID r))"

definition group_add :: "string \<Rightarrow> string \<Rightarrow> (string \<times> string list) list \<Rightarrow> (string \<times> string list) list" where
  "group_add hop t g = AList.update hop ((case map_of g hop of None \<Rightarrow> [] | Some ts \<Rightarrow> ts) @ [t]) g"

definition group_targets :: "RoutingTable \<Rightarrow> string list \<Rightarrow> (string \<times> string list) list" where
  "group_targets rt targets = fold (\<lambda>t g. (case next_hop rt t of
       None \<Rightarrow> g | Some hop \<Rightarrow> group_add hop t g)) targets []"

lemma group_targets_snoc:
  "group_targets rt (ts @ [t]) = (case next_hop rt t of None \<Rightarrow> group_targets rt ts
     | Some hop \<Rightarrow> group_add hop t (group_targets rt ts))"
  by (simp add: group_targets_def split: option.split)

lemma mset_values_group_add:
  assumes "distinct (map fst g)"
  shows "mset (concat (map snd (group_add hop t g))) = add_mset t (mset (concat (map snd g)))"
proof -
  have "mset (concat (map snd (AList.update hop ((case map_of g hop of None \<Rightarrow> [] | Some ts \<Rightarrow> ts) @ [t]) g))) =
      add_mset t (mset (concat (map snd g)))"
    using assms by (induction g) (auto split: option.splits)
  then show ?thesis by (simp add: group_add_def)
qed

text \<open>Every routed target is in exactly one group, the group of its next hop.\<close>

lemma group_targets_ok:
  "distinct (map fst (group_targets rt ts)) \<and>
   mset (concat (map snd (group_targets rt ts))) = mset (filter (\<lambda>t. next_hop rt t \<noteq> None) ts) \<and>
   (\<forall>(hop, g) \<in> set (group_targets rt ts). g \<noteq> [] \<and> (\<forall>t \<in> set g. next_hop rt t = Some hop))"
proof (induction ts rule: rev_induct)
  case Nil
  then show ?case by (simp add: group_targets_def)
next
  case (snoc t ts)
  show ?case
  proof (cases "next_hop rt t")
    case None
    with snoc show ?thesis by (simp add: group_targets_snoc)
  next
    case (Some hop)
    let ?g = "group_targets rt ts"
    let ?old = "case map_of ?g hop of None \<Rightarrow> [] | Some l \<Rightarrow> l"
    have e: "group_targets rt (ts @ [t]) = group_add hop t ?g" using Some by (simp add: group_targets_snoc)
    have "distinct (map fst (group_add hop t ?g))" using snoc by (simp add: group_add_def distinct_update)
    moreover have "mset (concat (map snd (group_add hop t ?g))) = mset (filter (\<lambda>t. next_hop rt t \<noteq> None) (ts @ [t]))"
      using snoc Some mset_values_group_add [of ?g hop t] by simp
    moreover have "g \<noteq> [] \<and> (\<forall>t \<in> set g. next_hop rt t = Some h)" if "(h, g) \<in> set (group_add hop t ?g)" for h g
    proof (cases "(h, g) \<in> set ?g")
      case True with snoc show ?thesis by auto
    next
      case False
      with that have hg: "h = hop" "g = ?old @ [t]"
        using set_update_subset [of hop "?old @ [t]" ?g] by (auto simp: group_add_def)
      have "\<forall>t \<in> set ?old. next_hop rt t = Some hop"
        using snoc by (auto split: option.split dest!: map_of_SomeD)
      with hg Some show ?thesis by auto
    qed
    ultimately show ?thesis unfolding e by auto
  qed
qed

section \<open>What is sent\<close>

text \<open>The message of an output, whether it leaves on a channel or waits for a retry.\<close>

definition out_message :: "net_out \<Rightarrow> Message option" where
  "out_message out = (case out of SendOn _ _ m \<Rightarrow> Some m | Go (T_addToRetryQueue m) \<Rightarrow> Some m | _ \<Rightarrow> None)"

definition sent_messages :: "net_out list \<Rightarrow> Message list" where
  "sent_messages os = List.map_filter out_message os"

lemma sent_messages_simps [simp]:
  "sent_messages [] = []"
  "sent_messages (a # os) = (case out_message a of None \<Rightarrow> sent_messages os | Some m \<Rightarrow> m # sent_messages os)"
  "sent_messages (as @ os) = sent_messages as @ sent_messages os"
  by (simp_all add: sent_messages_def List.map_filter_def split: option.split)

text \<open>
  \<open>sendTo\<close> produces one message, with the given target and the version of this node, and advances the
  counter; everything else in the message but its route and the lost mark is kept.
\<close>

definition restamped :: "int \<Rightarrow> string \<Rightarrow> Message \<Rightarrow> Message \<Rightarrow> bool" where
  "restamped v t m m' \<longleftrightarrow> VersionSeq m' = word_of_int v \<and> mTo m' = t \<and> mType m' = mType m \<and>
     mData m' = mData m \<and> BundleTo m' = BundleTo m \<and> mFrom m' = mFrom m \<and> mTTL m' = mTTL m \<and>
     Entity m' = Entity m \<and> mInvokeId m' = mInvokeId m \<and> LastSender m' = LastSender m"

lemma sendTo_sent:
  shows "fst (sendTo t m c n) = addMessageCounter n"
    and "\<exists>m'. sent_messages (snd (sendTo t m c n)) = [m'] \<and> restamped (MessageVersionCounter n) t m m'"
  by (auto simp: sendTo_def stamp_def Let_def out_message_def restamped_def split: option.split list.split)

lemma counter_addMessageCounter: "MessageVersionCounter (addMessageCounter n) = i64 (MessageVersionCounter n + 1)"
  by (simp add: addMessageCounter_def)

text \<open>Sending one message for every element of a list.\<close>

lemma each_sendTo:
  assumes "\<And>x n'. nID n' = nID n \<Longrightarrow> f x n' = sendTo (to x) (msg x) [] n'"
  shows "\<exists>ms. sent_messages (snd (each f xs n)) = ms \<and> list_all2 (\<lambda>x m. \<exists>v. restamped v (to x) (msg x) m) xs ms"
    and "nID (fst (each f xs n)) = nID n \<and> nRoutes (fst (each f xs n)) = nRoutes n"
proof -
  have "(\<exists>ms. sent_messages (snd (each f xs n')) = ms \<and> list_all2 (\<lambda>x m. \<exists>v. restamped v (to x) (msg x) m) xs ms) \<and>
      nID (fst (each f xs n')) = nID n' \<and> nRoutes (fst (each f xs n')) = nRoutes n'"
    if "nID n' = nID n" for n'
    using that
  proof (induction xs arbitrary: n')
    case (Cons x xs)
    have e: "f x n' = sendTo (to x) (msg x) [] n'" using assms Cons.prems by blast
    obtain m where m: "sent_messages (snd (f x n')) = [m]" "restamped (MessageVersionCounter n') (to x) (msg x) m"
      using sendTo_sent(2) [of "to x" "msg x" "[]" n'] e by auto
    have n1: "fst (f x n') = addMessageCounter n'" using sendTo_sent(1) e by simp
    from Cons.IH [of "addMessageCounter n'"] Cons.prems m n1 show ?case
      by (auto simp: Let_def split_beta)
  qed simp
  from this [of n] show "\<exists>ms. sent_messages (snd (each f xs n)) = ms \<and> list_all2 (\<lambda>x m. \<exists>v. restamped v (to x) (msg x) m) xs ms"
    and "nID (fst (each f xs n)) = nID n \<and> nRoutes (fst (each f xs n)) = nRoutes n" by simp_all
qed

end
