(* ===== verification/Net_PubSub.thy ===== *)
theory Net_PubSub
  imports Net_Send
begin

text \<open>
  Topic subscriptions of core/Node.go and the Raft group subscriptions of core/RaftSub.go: the local
  subscriptions of the clients of a node, the table of all subscriptions that the floods build, and
  the publication of a message to every subscribed node, grouped by next hop.

  A result \<open>None\<close> is the panic of an assignment to a nil map.
\<close>

section \<open>Local subscriptions\<close>

definition row_of :: "(string \<times> 'a list) list \<Rightarrow> string \<Rightarrow> 'a list" where
  "row_of al k = (case map_of al k of None \<Rightarrow> [] | Some r \<Rightarrow> r)"

definition addLocalSub :: "string \<Rightarrow> string \<Rightarrow> int \<Rightarrow> 'd Node \<Rightarrow> 'd Node \<times> net_out list" where
  "addLocalSub pTopic pClientName cb n = (case map_of (MySubs n) pTopic of
       Some subs \<Rightarrow> (n\<lparr>MySubs := AList.update pTopic (AList.update pClientName cb subs) (MySubs n)\<rparr>, [])
     | None \<Rightarrow>
         (let n1 = n\<lparr>MySubs := AList.update pTopic [(pClientName, cb)] (MySubs n)\<rparr>;
              (msg, n2) = stamp (zero_message\<lparr>mType := TopicInit, mData := Text pTopic, mFrom := nID n,
                mTTL := 1, LastSender := nID n\<rparr>) n1
          in (n2, broadcast_all msg n2)))"

definition removeLocalSub :: "string \<Rightarrow> string \<Rightarrow> 'd Node \<Rightarrow> 'd Node \<times> net_out list" where
  "removeLocalSub pTopic pClientName n = (case map_of (MySubs n) pTopic of
       None \<Rightarrow> (n, [])
     | Some subs \<Rightarrow>
         (let subscribers = AList.delete pClientName subs in
          if subscribers = [] then
            (let n1 = n\<lparr>MySubs := AList.delete pTopic (MySubs n)\<rparr>;
                 (msg, n2) = stamp (zero_message\<lparr>mType := TopicExit, mData := Text pTopic, mFrom := nID n,
                   mTTL := 1, LastSender := nID n\<rparr>) n1
             in (n2, broadcast_all msg n2))
          else (n\<lparr>MySubs := AList.update pTopic subscribers (MySubs n)\<rparr>, [])))"

definition clearSubClient :: "string \<Rightarrow> 'd Node \<Rightarrow> 'd Node \<times> net_out list" where
  "clearSubClient clientID n =
     (let topics = map fst (filter (\<lambda>(_, subs). map_of subs clientID \<noteq> None) (MySubs n))
      in each (\<lambda>topic. removeLocalSub topic clientID) topics n)"

section \<open>The table of all subscriptions\<close>

text \<open>The message as the flooding handlers pass it on.\<close>

definition relayed :: "Message \<Rightarrow> 'd Node \<Rightarrow> Message" where
  "relayed msg n = msg\<lparr>LastSender := nID n, mTTL := 1\<rparr>"

definition topic_text :: "Payload \<Rightarrow> string" where
  "topic_text p = (case p of Text s \<Rightarrow> s | _ \<Rightarrow> [])"

text \<open>\<open>append\<close> unless present: the search loops of the three handlers.\<close>

definition add_peer :: "string \<Rightarrow> string \<Rightarrow> (string \<times> string list) list \<Rightarrow> (string \<times> string list) list" where
  "add_peer peer key al = (if peer \<in> set (row_of al key) then al
     else AList.update key (row_of al key @ [peer]) al)"

definition handleTopicInit :: "Message \<Rightarrow> 'd Node \<Rightarrow> 'd Node \<times> net_out list" where
  "handleTopicInit msg n =
     (let ts = (case TotalSubs n of None \<Rightarrow> [] | Some ts \<Rightarrow> ts);
          n1 = n\<lparr>TotalSubs := Some (add_peer (mFrom msg) (topic_text (mData msg)) ts)\<rparr>
      in (n1, broadcast_all (relayed msg n1) n1))"

definition handleTopicExit :: "Message \<Rightarrow> 'd Node \<Rightarrow> 'd Node \<times> net_out list" where
  "handleTopicExit msg n =
     (let topic = topic_text (mData msg);
          n1 = (case TotalSubs n of None \<Rightarrow> n | Some ts \<Rightarrow> (case map_of ts topic of
              None \<Rightarrow> n
            | Some subs \<Rightarrow>
                (let newSubs = filter (\<lambda>sub. sub \<noteq> mFrom msg) subs in
                 n\<lparr>TotalSubs := Some (if newSubs = [] then AList.delete topic ts
                     else AList.update topic newSubs ts)\<rparr>)))
      in (n1, broadcast_all (relayed msg n1) n1))"

definition floodAllSubscriptions :: "'d Node \<Rightarrow> 'd Node \<times> net_out list" where
  "floodAllSubscriptions n =
     (let topics = map fst (MySubs n) in
      if topics = [] then (n, [])
      else let (msg, n1) = stamp (zero_message\<lparr>mType := TopicSubscribeFlood,
               mData := SubsJson (nID n) topics, mFrom := nID n, mTTL := 1, LastSender := nID n\<rparr>) n
           in (n1, broadcast_all msg n1))"

definition handleSubscribeFlood :: "Message \<Rightarrow> 'd Node \<Rightarrow> ('d Node \<times> net_out list) option" where
  "handleSubscribeFlood msg n = (case mData msg of
       SubsJson node topics \<Rightarrow> do {
         n1 \<leftarrow> (case TotalSubs n of
             Some ts \<Rightarrow> Some (n\<lparr>TotalSubs := Some (fold (add_peer node) topics ts)\<rparr>)
           | None \<Rightarrow> if topics = [] then Some n else None);
         Some (n1, broadcast_all (relayed msg n1) n1) }
     | _ \<Rightarrow> Some (n, []))"

section \<open>Publishing\<close>

text \<open>The message for one group: addressed to the only target, or bundled for the next hop.\<close>

definition group_message :: "MessageType \<Rightarrow> string \<Rightarrow> string \<Rightarrow> string list \<Rightarrow> 'd Node \<Rightarrow> string \<times> Message" where
  "group_message ty data nextHop toList n = (case toList of
       [t] \<Rightarrow> (t, zero_message\<lparr>mType := ty, mData := Text data, mFrom := nID n, mTTL := 100,
            LastSender := nID n, mTo := t\<rparr>)
     | _ \<Rightarrow> (nextHop, zero_message\<lparr>mType := ty, mData := Text data, BundleTo := toList, mFrom := nID n,
            mTTL := 1, LastSender := nID n\<rparr>))"

definition send_groups ::
  "MessageType \<Rightarrow> string \<Rightarrow> (string \<times> string list) list \<Rightarrow> 'd Node \<Rightarrow> 'd Node \<times> net_out list" where
  "send_groups ty data groups = each (\<lambda>(nextHop, toList) n.
     (let (to1, msg) = group_message ty data nextHop toList n in sendTo to1 msg [] n)) groups"

definition call_subs :: "string \<Rightarrow> string \<Rightarrow> string \<Rightarrow> 'd Node \<Rightarrow> net_out list" where
  "call_subs topic from1 payload n =
     map (\<lambda>(_, cb). CallSub cb topic from1 (nID n) payload) (row_of (MySubs n) topic)"

text \<open>
  With a nil \<open>TotalSubs\<close> the function returns without releasing the read lock it has just taken, so
  every later writer of the table blocks. No constructor leaves the map nil.
\<close>

definition publishOnTopic ::
  "((string \<times> string list) list \<Rightarrow> (string \<times> string list) list) \<Rightarrow> string \<Rightarrow> string \<Rightarrow> 'd Node \<Rightarrow>
     'd Node \<times> net_out list" where
  "publishOnTopic ord pTopic pMessage n =
     (let o1 = call_subs pTopic (nID n) pMessage n in
      case TotalSubs n of
        None \<Rightarrow> (n, o1)
      | Some ts \<Rightarrow> (case map_of ts pTopic of
          None \<Rightarrow> (n, o1)
        | Some targets \<Rightarrow>
            if targets = [] then (n, o1)
            else apsnd ((@) o1) (send_groups TopicPublish (topicMessage pTopic pMessage)
                   (ord (group_targets (nRoutes n) targets)) n)))"

definition forward_bundles ::
  "Message \<Rightarrow> (string \<times> string list) list \<Rightarrow> 'd Node \<Rightarrow> 'd Node \<times> net_out list" where
  "forward_bundles originalMsg groups = each (\<lambda>(nextHop, targets) n.
     sendTo nextHop (originalMsg\<lparr>mTo := [], mRoute := [], BundleTo := targets\<rparr>) [] n) groups"

definition handleBundle ::
  "((string \<times> string list) list \<Rightarrow> (string \<times> string list) list) \<Rightarrow> Message \<Rightarrow> string \<Rightarrow> string \<Rightarrow> 'd Node \<Rightarrow>
     'd Node \<times> net_out list" where
  "handleBundle ord originalMsg topic payload n =
     (let here = filter (\<lambda>realTo. realTo = nID n) (BundleTo originalMsg);
          groups = group_targets (nRoutes n) (filter (\<lambda>realTo. realTo \<noteq> nID n) (BundleTo originalMsg));
          o1 = concat (map (\<lambda>_. call_subs topic (mFrom originalMsg) payload n) here)
      in apsnd ((@) o1) (forward_bundles originalMsg (ord groups) n))"

section \<open>Raft group subscriptions (core/RaftSub.go)\<close>

definition getRaftStub :: "string \<Rightarrow> 'd Node \<Rightarrow> 'd RaftCore option" where
  "getRaftStub g n = RaftStubs (nRaft n) g"

definition getLearnerStub :: "string \<Rightarrow> 'd Node \<Rightarrow> 'd RaftLearner option" where
  "getLearnerStub g n = LearnerStubs (nRaft n) g"

definition floodRaftGroupInfo :: "'d Node \<Rightarrow> 'd Node \<times> net_out list" where
  "floodRaftGroupInfo n =
     (let groups = RaftGroup (nRaft n) in
      if groups = [] then (n, [])
      else let (msg, n1) = stamp (zero_message\<lparr>mType := RaftTopicSubscribeFlood,
               mData := RaftSubsJson (nID n) groups, mFrom := nID n, mTTL := 1, LastSender := nID n\<rparr>) n
           in (n1, broadcast_all msg n1))"

definition handleRaftSubscribeFlood :: "Message \<Rightarrow> 'd Node \<Rightarrow> 'd Node \<times> net_out list" where
  "handleRaftSubscribeFlood msg n = (case mData msg of
       RaftSubsJson node groups \<Rightarrow>
         (let n1 = n\<lparr>nRaft := (nRaft n)\<lparr>RaftPeers := fold (add_peer node) groups (RaftPeers (nRaft n))\<rparr>\<rparr>
          in (n1, broadcast_all (relayed msg n1) n1))
     | _ \<Rightarrow> (n, []))"

definition publishOnRaftTopic ::
  "((string \<times> string list) list \<Rightarrow> (string \<times> string list) list) \<Rightarrow> string \<Rightarrow> string \<Rightarrow> 'd Node \<Rightarrow>
     'd Node \<times> net_out list" where
  "publishOnRaftTopic ord g pMessage n =
     (let o1 = (case getRaftStub g n of None \<Rightarrow> [] | Some _ \<Rightarrow> [Go (T_onRaftMessage g (nID n) (Text pMessage))]) in
      case map_of (RaftPeers (nRaft n)) g of
        None \<Rightarrow> (n, o1)
      | Some targetNodes \<Rightarrow>
          if targetNodes = [] then (n, o1)
          else apsnd ((@) o1) (send_groups RaftTopicPublish (topicMessage g pMessage)
                 (ord (group_targets (nRoutes n) (filter (\<lambda>i. i \<noteq> nID n) targetNodes))) n))"

definition handleRaftBundle ::
  "((string \<times> string list) list \<Rightarrow> (string \<times> string list) list) \<Rightarrow> Message \<Rightarrow> string \<Rightarrow> string \<Rightarrow> 'd Node \<Rightarrow>
     'd Node \<times> net_out list" where
  "handleRaftBundle ord originalMsg g payload n =
     (let here = filter (\<lambda>realTo. realTo = nID n) (BundleTo originalMsg);
          groups = group_targets (nRoutes n) (filter (\<lambda>realTo. realTo \<noteq> nID n) (BundleTo originalMsg));
          o1 = concat (map (\<lambda>_. case getRaftStub g n of None \<Rightarrow> []
                 | Some _ \<Rightarrow> [Go (T_onRaftMessage g (mFrom originalMsg) (Text payload))]) here)
      in apsnd ((@) o1) (forward_bundles originalMsg (ord groups) n))"

section \<open>What the subscription table means\<close>

text \<open>The nodes known to subscribe to each topic, and the effect of each message on them.\<close>

definition subscribed :: "'d Node \<Rightarrow> string \<Rightarrow> string set" where
  "subscribed n t = (case TotalSubs n of None \<Rightarrow> {} | Some ts \<Rightarrow> set (row_of ts t))"

definition subs_wf :: "'d Node \<Rightarrow> bool" where
  "subs_wf n \<longleftrightarrow> (\<forall>ts. TotalSubs n = Some ts \<longrightarrow> (\<forall>t. distinct (row_of ts t)))"

datatype sub_event = Init string string | Exit string string | Flood string "string list"

fun sub_spec :: "sub_event \<Rightarrow> (string \<Rightarrow> string set) \<Rightarrow> (string \<Rightarrow> string set)" where
  "sub_spec (Init p t) S = S(t := insert p (S t))"
| "sub_spec (Exit p t) S = S(t := S t - {p})"
| "sub_spec (Flood p ts) S = (\<lambda>t. if t \<in> set ts then insert p (S t) else S t)"

fun event_message :: "sub_event \<Rightarrow> Message \<Rightarrow> bool" where
  "event_message (Init p t) m \<longleftrightarrow> mType m = TopicInit \<and> mFrom m = p \<and> mData m = Text t"
| "event_message (Exit p t) m \<longleftrightarrow> mType m = TopicExit \<and> mFrom m = p \<and> mData m = Text t"
| "event_message (Flood p ts) m \<longleftrightarrow> mType m = TopicSubscribeFlood \<and> mData m = SubsJson p ts"

definition sub_handler :: "Message \<Rightarrow> 'd Node \<Rightarrow> ('d Node \<times> net_out list) option" where
  "sub_handler m n = (case mType m of TopicInit \<Rightarrow> Some (handleTopicInit m n)
     | TopicExit \<Rightarrow> Some (handleTopicExit m n) | TopicSubscribeFlood \<Rightarrow> handleSubscribeFlood m n
     | _ \<Rightarrow> None)"

lemma row_of_update: "row_of (AList.update k r al) t = (if t = k then r else row_of al t)"
  by (simp add: row_of_def)

lemma row_of_delete: "row_of (AList.delete k al) t = (if t = k then [] else row_of al t)"
  by (simp add: row_of_def)

lemma set_add_peer: "set (row_of (add_peer p k al) t) = (if t = k then insert p (set (row_of al t)) else set (row_of al t))"
  by (auto simp: add_peer_def row_of_update)

lemma distinct_add_peer: "distinct (row_of al t) \<Longrightarrow> distinct (row_of (add_peer p k al) t)"
  by (auto simp: add_peer_def row_of_update)

lemma set_fold_add_peer: "set (row_of (fold (add_peer p) ks al) t) =
    (if t \<in> set ks then insert p (set (row_of al t)) else set (row_of al t))"
  by (induction ks arbitrary: al) (auto simp: set_add_peer)

lemma distinct_fold_add_peer: "distinct (row_of al t) \<Longrightarrow> distinct (row_of (fold (add_peer p) ks al) t)"
  by (induction ks arbitrary: al) (auto intro: distinct_add_peer)

section \<open>Properties\<close>

lemma sub_handler_refines:
  assumes "event_message e m" and "TotalSubs n \<noteq> None" and "subs_wf n"
  shows "\<exists>n' os. sub_handler m n = Some (n', os) \<and> TotalSubs n' \<noteq> None \<and> subs_wf n' \<and>
    subscribed n' = sub_spec e (subscribed n) \<and>
    os = map (\<lambda>(c, _). Broadcast c (m\<lparr>LastSender := nID n, mTTL := 1\<rparr>)) (Channels n)"
proof -
  obtain ts where ts: "TotalSubs n = Some ts" using assms(2) by blast
  have wf: "distinct (row_of ts t)" for t using assms(3) ts by (simp add: subs_wf_def)
  show ?thesis
  proof (cases e)
    case (Init p t)
    with assms(1) ts wf show ?thesis
      by (auto simp: sub_handler_def handleTopicInit_def Let_def subs_wf_def topic_text_def subscribed_def
          set_add_peer fun_eq_iff broadcast_all_def relayed_def intro: distinct_add_peer)
  next
    case (Exit p t)
    define new where "new = filter (\<lambda>s. s \<noteq> p) (row_of ts t)"
    define ts' where "ts' = (case map_of ts t of None \<Rightarrow> ts
      | Some subs \<Rightarrow> if new = [] then AList.delete t ts else AList.update t new ts)"
    have r: "row_of ts' x = (if x = t then new else row_of ts x)" for x
      by (cases "map_of ts t") (auto simp: ts'_def row_of_update row_of_delete, simp_all add: row_of_def new_def)
    have "TotalSubs (fst (handleTopicExit m n)) = Some ts'"
      using assms(1) Exit ts
      by (cases "map_of ts t") (simp_all add: handleTopicExit_def Let_def topic_text_def ts'_def new_def row_of_def)
    moreover have "snd (handleTopicExit m n) = broadcast_all (relayed m n) n"
      using ts by (auto simp: handleTopicExit_def Let_def broadcast_all_def relayed_def split: option.split)
    moreover have "mType m = TopicExit" using assms(1) Exit by simp
    ultimately show ?thesis
      using wf ts Exit by (auto simp: sub_handler_def subs_wf_def r new_def subscribed_def fun_eq_iff
          broadcast_all_def relayed_def intro!: exI [of _ "fst (handleTopicExit m n)"] prod_eqI)
  next
    case (Flood p ts')
    with assms(1) ts wf show ?thesis
      by (auto simp: sub_handler_def handleSubscribeFlood_def Let_def subs_wf_def subscribed_def
          set_fold_add_peer fun_eq_iff broadcast_all_def relayed_def intro: distinct_fold_add_peer)
  qed
qed


definition ex_sub_messages :: "Message list" where
  "ex_sub_messages = [zero_message\<lparr>mType := TopicInit, mFrom := ''b'', mData := Text ''t''\<rparr>,
      zero_message\<lparr>mType := TopicSubscribeFlood, mData := SubsJson ''c'' [''t'', ''u'']\<rparr>,
      zero_message\<lparr>mType := TopicExit, mFrom := ''b'', mData := Text ''t''\<rparr>]"


text \<open>The nodes a publication message is meant for.\<close>

definition final_targets :: "Message \<Rightarrow> string list" where
  "final_targets m = (if BundleTo m = [] then [mTo m] else BundleTo m)"

lemma sent_call_subs [simp]: "sent_messages (call_subs t f p n) = []"
proof -
  have "sent_messages (map (\<lambda>(_, cb). CallSub cb t f (nID n) p) l) = []" for l :: "(string \<times> int) list"
    by (induction l) (auto simp: out_message_def)
  then show ?thesis by (simp add: call_subs_def)
qed

lemma sent_concat: "(\<And>x. sent_messages (f x) = []) \<Longrightarrow> sent_messages (concat (map f xs)) = []"
  by (induction xs) simp_all

lemma list_all2_all: "list_all2 (\<lambda>x y. R x y \<and> P y) xs ys \<Longrightarrow> \<forall>y \<in> set ys. P y"
  by (induction rule: list_all2_induct) auto

lemma concat_filter_replicate:
  "concat (map (\<lambda>_. c) (filter (\<lambda>x. x = a) l)) = concat (replicate (count (mset l) a) c)"
  by (induction l) auto

lemma mset_concat_snd: "mset gs = mset gs' \<Longrightarrow> mset (concat (map snd gs)) = mset (concat (map snd gs'))"
proof -
  have "mset (concat (map snd l)) = sum_mset (image_mset (\<lambda>x. mset (snd x)) (mset l))" for l :: "('a \<times> 'b list) list"
    by (induction l) auto
  then show "mset gs = mset gs' \<Longrightarrow> ?thesis" by simp
qed

lemma group_message_same: "nID n' = nID n \<Longrightarrow> group_message ty d h ts n' = group_message ty d h ts n"
  by (simp add: group_message_def split: list.split)

definition proper_group :: "MessageType \<Rightarrow> string \<Rightarrow> 'd Node \<Rightarrow> Message \<Rightarrow> bool" where
  "proper_group ty data n m \<longleftrightarrow> mType m = ty \<and> mData m = Text data \<and> mFrom m = nID n \<and>
     (BundleTo m = [] \<and> mTTL m = 100 \<or>
      BundleTo m \<noteq> [] \<and> mTTL m = 1 \<and> (\<forall>t \<in> set (BundleTo m). next_hop (nRoutes n) t = Some (mTo m)))"

lemma group_message_proper:
  assumes "restamped v (fst (group_message ty d h g n)) (snd (group_message ty d h g n)) m"
    and "g \<noteq> []" and "\<forall>t \<in> set g. next_hop (nRoutes n) t = Some h"
  shows "proper_group ty d n m" and "final_targets m = g"
  using assms
  by (auto simp: group_message_def restamped_def proper_group_def final_targets_def zero_message_def
      split: list.splits)

lemma send_groups_ok:
  fixes n :: "'b Node"
  assumes "mset gs = mset (group_targets (nRoutes n) ts)"
  shows "mset (concat (map final_targets (sent_messages (snd (send_groups ty d gs n))))) =
      mset (filter (\<lambda>t. next_hop (nRoutes n) t \<noteq> None) ts)"
    and "\<forall>m \<in> set (sent_messages (snd (send_groups ty d gs n))). proper_group ty d n m"
proof -
  have gs: "g \<noteq> [] \<and> (\<forall>t \<in> set g. next_hop (nRoutes n) t = Some h)" if "(h, g) \<in> set gs" for h g
    using group_targets_ok [of "nRoutes n" ts] mset_eq_setD [OF assms] that by auto
  let ?to = "\<lambda>(h, g). fst (group_message ty d h g n)" and ?msg = "\<lambda>(h, g). snd (group_message ty d h g n)"
  let ?ms = "sent_messages (snd (send_groups ty d gs n))"
  let ?f = "\<lambda>(nextHop, toList) n. (let (to1, msg) = group_message ty d nextHop toList n in sendTo to1 msg [] n)"
  have "?f x n' = sendTo (?to x) (?msg x) [] n'" if "nID n' = nID n" for x and n' :: "'b Node"
    using group_message_same [OF that, of ty d "fst x" "snd x"] by (simp add: split_beta Let_def)
  from each_sendTo(1) [of n ?f ?to ?msg, OF this, of gs]
  have "list_all2 (\<lambda>x m. \<exists>v. restamped v (?to x) (?msg x) m) gs ?ms"
    unfolding send_groups_def by simp
  then have a: "list_all2 (\<lambda>x m. proper_group ty d n m \<and> final_targets m = snd x) gs ?ms"
  proof (rule list.rel_mono_strong)
    fix x m assume x: "x \<in> set gs" and "\<exists>v. restamped v (?to x) (?msg x) m"
    then obtain v where "restamped v (fst (group_message ty d (fst x) (snd x) n))
        (snd (group_message ty d (fst x) (snd x) n)) m" by (auto simp: split_beta)
    from group_message_proper [OF this] gs [of "fst x" "snd x"] x
    show "proper_group ty d n m \<and> final_targets m = snd x" by simp
  qed
  then have "map final_targets ?ms = map snd gs"
    by (induction rule: list_all2_induct) auto
  then have "mset (concat (map final_targets ?ms)) = mset (concat (map snd gs))" by simp
  also have "\<dots> = mset (concat (map snd (group_targets (nRoutes n) ts)))" by (rule mset_concat_snd [OF assms])
  finally show "mset (concat (map final_targets ?ms)) = mset (filter (\<lambda>t. next_hop (nRoutes n) t \<noteq> None) ts)"
    using group_targets_ok [of "nRoutes n" ts] by simp
  from a show "\<forall>m \<in> set ?ms. proper_group ty d n m"
    by (induction rule: list_all2_induct) auto
qed


definition ex_publisher :: "unit Node" where
  "ex_publisher = (NewNode ''a'')\<lparr>TotalSubs := Some [(''t'', [''b'', ''c'', ''d'', ''e''])],
     nRoutes := [(''b'', [\<lparr>LocalChannelID = ''a-1'', nextHopNodeID = ''b''\<rparr>]),
       (''c'', [\<lparr>LocalChannelID = ''a-1'', nextHopNodeID = ''b''\<rparr>]),
       (''d'', [\<lparr>LocalChannelID = ''a-2'', nextHopNodeID = ''d''\<rparr>])]\<rparr>"


text \<open>
  A node that receives a bundle calls its own subscribers once for every time it is listed and
  splits the rest: the targets of the bundles it sends on are, as a multiset, the other listed nodes
  that have a route, each bundle goes to the next hop of its targets, and type, content and sender
  are those of the received message.
\<close>

theorem handle_bundle_splits:
  assumes "\<And>gs. mset (ord gs) = mset gs"
  shows "mset (concat (map BundleTo (sent_messages (snd (handleBundle ord m t p n))))) =
      mset (filter (\<lambda>x. x \<noteq> nID n \<and> next_hop (nRoutes n) x \<noteq> None) (BundleTo m)) \<and>
    (\<forall>m' \<in> set (sent_messages (snd (handleBundle ord m t p n))). BundleTo m' \<noteq> [] \<and>
       (\<forall>x \<in> set (BundleTo m'). next_hop (nRoutes n) x = Some (mTo m')) \<and>
       mType m' = mType m \<and> mData m' = mData m \<and> mFrom m' = mFrom m) \<and>
    (\<exists>sent. snd (handleBundle ord m t p n) =
       concat (replicate (count (mset (BundleTo m)) (nID n)) (call_subs t (mFrom m) p n)) @ sent)"
proof -
  let ?ts = "filter (\<lambda>x. x \<noteq> nID n) (BundleTo m)"
  let ?gs = "ord (group_targets (nRoutes n) ?ts)"
  let ?o1 = "concat (map (\<lambda>_. call_subs t (mFrom m) p n) (filter (\<lambda>x. x = nID n) (BundleTo m)))"
  have gs: "g \<noteq> [] \<and> (\<forall>t \<in> set g. next_hop (nRoutes n) t = Some h)" if "(h, g) \<in> set ?gs" for h g
    using group_targets_ok [of "nRoutes n" ?ts] mset_eq_setD [OF assms] that by auto
  have snd: "snd (handleBundle ord m t p n) = ?o1 @ snd (forward_bundles m ?gs n)"
    by (simp add: handleBundle_def Let_def)
  have "sent_messages ?o1 = []" by (rule sent_concat) simp
  then have sent: "sent_messages (snd (handleBundle ord m t p n)) = sent_messages (snd (forward_bundles m ?gs n))"
    (is "_ = ?ms") by (simp add: snd)
  have "list_all2 (\<lambda>x m'. \<exists>v. restamped v (fst x) (m\<lparr>mTo := [], mRoute := [], BundleTo := snd x\<rparr>) m') ?gs ?ms"
    unfolding forward_bundles_def
    using each_sendTo(1) [of n "\<lambda>(nextHop, targets) n. sendTo nextHop (m\<lparr>mTo := [], mRoute := [], BundleTo := targets\<rparr>) [] n"
        fst "\<lambda>x. m\<lparr>mTo := [], mRoute := [], BundleTo := snd x\<rparr>" ?gs]
    by (auto simp: split_beta)
  then have a: "list_all2 (\<lambda>x m'. BundleTo m' = snd x \<and> BundleTo m' \<noteq> [] \<and>
       (\<forall>x \<in> set (BundleTo m'). next_hop (nRoutes n) x = Some (mTo m')) \<and>
       mType m' = mType m \<and> mData m' = mData m \<and> mFrom m' = mFrom m) ?gs ?ms"
    by (rule list.rel_mono_strong) (use gs in \<open>auto simp: restamped_def\<close>)
  then have "map BundleTo ?ms = map snd ?gs" by (induction rule: list_all2_induct) auto
  then have "mset (concat (map BundleTo ?ms)) = mset (concat (map snd ?gs))" by simp
  also have "\<dots> = mset (concat (map snd (group_targets (nRoutes n) ?ts)))" by (rule mset_concat_snd [OF assms])
  finally have 1: "mset (concat (map BundleTo ?ms)) =
      mset (filter (\<lambda>x. x \<noteq> nID n \<and> next_hop (nRoutes n) x \<noteq> None) (BundleTo m))"
    using group_targets_ok [of "nRoutes n" ?ts] by (simp add: conj_commute)
  have 2: "\<forall>m' \<in> set ?ms. BundleTo m' \<noteq> [] \<and>
       (\<forall>x \<in> set (BundleTo m'). next_hop (nRoutes n) x = Some (mTo m')) \<and>
       mType m' = mType m \<and> mData m' = mData m \<and> mFrom m' = mFrom m"
    by (rule list_all2_all [OF a])
  have 3: "?o1 = concat (replicate (count (mset (BundleTo m)) (nID n)) (call_subs t (mFrom m) p n))"
    by (rule concat_filter_replicate)
  have "\<exists>sent. snd (handleBundle ord m t p n) =
       concat (replicate (count (mset (BundleTo m)) (nID n)) (call_subs t (mFrom m) p n)) @ sent"
    by (rule exI) (rule snd [unfolded 3])
  with 1 2 show ?thesis by (simp only: sent)
qed

theorem handle_bundle_splits_witness:
  "mset (concat (map BundleTo (sent_messages (snd (handleBundle id
     (zero_message\<lparr>mType := TopicPublish, mFrom := ''z'', BundleTo := [''a'', ''b'', ''c'', ''d'']\<rparr>) ''t'' ''hi'' ex_publisher))))) =
     {#''b'', ''c'', ''d''#}"
  using handle_bundle_splits [of id "zero_message\<lparr>mType := TopicPublish, mFrom := ''z'',
      BundleTo := [''a'', ''b'', ''c'', ''d'']\<rparr>" "''t''" "''hi''" ex_publisher]
  by (simp add: ex_publisher_def next_hop_def NewNode_def)

end
