(* ===== verification/Worker_Tcp.thy ===== *)
theory Worker_Tcp
  imports Worker_Frame Net_PubSub "HOL-Library.Sublist"
begin

text \<open>
  core/TCPChannelWorker.go: the TCP transport of a channel, with its links, their registration, sending,
  receiving and cleaning up.

  \<^item> A connection is a handle with its remote address and the names in its TLS certificates. A link is an
    object: the table of links maps remote addresses to positions of \<open>linkHeap\<close>, and the threads of a
    link keep its position.
  \<^item> Resolving, listening, dialing, handshakes, the rate limiter, MD5 and SHA-256 are parameters, and so
    is the encoding of messages (\<open>marshal\<close>, \<open>unmarshal\<close>).
  \<^item> What is done outside is an output. A write into a queue (\<open>Write\<close>) may have to wait, so running it is
    an operation of its own (\<open>WriteTo\<close>). \<open>None\<close> as the result of a worker operation is a panic.
\<close>

section \<open>State\<close>

record Conn =
  connId :: nat
  connAddr :: string
  connCerts :: "string list"

record TcpLink =
  LinkConn :: Conn
  StartTime :: int
  HasSendRegister :: bool
  HasRecvRegister :: bool
  Accepted :: bool
  ImportantWriteChan :: "byte list list"
  NormalWriteChan :: "byte list list"
  NormalCap :: nat
  DropNormalPkgOnQueueFull :: bool
  TlsServerName :: "string list"

record TcpWorker =
  wkName :: string
  LinksAddrFromPeer :: "string \<rightharpoonup> string list"
  TcpLinks :: "(string \<times> nat) list"
  TcpLinkLastActiveTimes :: "string \<rightharpoonup> int"
  linkHeap :: "TcpLink list"
  MaxFrameSize :: "32 word"
  RecvPackagesChan :: "(string \<times> byte list) list"
  wkClosed :: bool
  wkUser :: "string option"
  ipWhitelist :: "string list"
  Token :: string
  MaxSendQueueSize :: int
  MaxConnectionPerSecond :: int
  MaxInactiveTime :: int
  MaxRegistrationTime :: int

datatype wk_out =
    CloseConn Conn | CloseListener | ConnectChanged bool
  | Write nat "byte list" bool | WriteConn Conn "byte list" | UserRecv string Message

definition ChannelQueueSizeSmall :: nat where
  "ChannelQueueSizeSmall = 64"

text \<open>The worker before its threads start; \<open>None\<close> is the \<open>nil\<close> that is returned on an error.\<close>

definition NewTcpConnection ::
  "bool \<Rightarrow> bool \<Rightarrow> bool \<Rightarrow> (string \<Rightarrow> string option) \<Rightarrow> string \<Rightarrow> bool \<Rightarrow> string list \<Rightarrow> int \<Rightarrow> int \<Rightarrow> int \<Rightarrow> int \<Rightarrow>
     string \<Rightarrow> TcpWorker option" where
  "NewTcpConnection localResolves listens remoteResolves resolveIP name isClient whitelist maxFrameSize maxInactiveDlt
       maxSendQueueSize maxConnectionPerSeconds pToken =
     (if \<not> localResolves \<and> \<not> isClient then None
      else if \<not> isClient \<and> \<not> listens then None
      else if isClient \<and> \<not> remoteResolves then None
      else Some \<lparr>wkName = name, LinksAddrFromPeer = Map.empty, TcpLinks = [], TcpLinkLastActiveTimes = Map.empty,
        linkHeap = [], MaxFrameSize = word_of_int maxFrameSize, RecvPackagesChan = [], wkClosed = False, wkUser = None,
        ipWhitelist = List.map_filter resolveIP whitelist, Token = pToken, MaxSendQueueSize = maxSendQueueSize,
        MaxConnectionPerSecond = maxConnectionPerSeconds, MaxInactiveTime = maxInactiveDlt, MaxRegistrationTime = 10\<rparr>)"

definition at_link :: "nat \<Rightarrow> (TcpLink \<Rightarrow> TcpLink) \<Rightarrow> TcpWorker \<Rightarrow> TcpWorker" where
  "at_link a f w = (if a < length (linkHeap w) then w\<lparr>linkHeap := (linkHeap w)[a := f (linkHeap w ! a)]\<rparr> else w)"

section \<open>Links\<close>

definition new_link :: "int \<Rightarrow> Conn \<Rightarrow> bool \<Rightarrow> TcpWorker \<Rightarrow> TcpLink" where
  "new_link now conn accepted w = \<lparr>LinkConn = conn, StartTime = now, HasSendRegister = False, HasRecvRegister = False,
     Accepted = accepted, ImportantWriteChan = [], NormalWriteChan = [],
     NormalCap = (if MaxSendQueueSize w \<le> 0 then ChannelQueueSizeSmall else nat (MaxSendQueueSize w)),
     DropNormalPkgOnQueueFull = 0 < MaxSendQueueSize w, TlsServerName = connCerts conn\<rparr>"

definition RegisterTcpLink :: "int \<Rightarrow> Conn \<Rightarrow> bool \<Rightarrow> TcpWorker \<Rightarrow> nat \<times> TcpWorker \<times> wk_out list" where
  "RegisterTcpLink now conn accepted w =
     (let a = length (linkHeap w) in
      (a, w\<lparr>linkHeap := linkHeap w @ [new_link now conn accepted w],
            TcpLinks := AList.update (connAddr conn) a (TcpLinks w),
            TcpLinkLastActiveTimes := (TcpLinkLastActiveTimes w)(connAddr conn \<mapsto> now)\<rparr>,
       case map_of (TcpLinks w) (connAddr conn) of None \<Rightarrow> [] | Some b \<Rightarrow> [CloseConn (LinkConn (linkHeap w ! b))]))"

definition UnregisterTcpLink :: "Conn \<Rightarrow> TcpWorker \<Rightarrow> TcpWorker \<times> wk_out list" where
  "UnregisterTcpLink conn w = (case map_of (TcpLinks w) (connAddr conn) of
       None \<Rightarrow> (w, [])
     | Some b \<Rightarrow> (w\<lparr>TcpLinks := AList.delete (connAddr conn) (TcpLinks w)\<rparr>, [CloseConn (LinkConn (linkHeap w ! b))]))"

definition TouchLink :: "int \<Rightarrow> Conn \<Rightarrow> TcpWorker \<Rightarrow> TcpWorker" where
  "TouchLink now conn w = w\<lparr>TcpLinkLastActiveTimes := (TcpLinkLastActiveTimes w)(connAddr conn \<mapsto> now)\<rparr>"

definition GetAllConns :: "TcpWorker \<Rightarrow> nat list" where
  "GetAllConns w = map snd (TcpLinks w)"

text \<open>Inactive or unregistered links, which a tick of the cleaning thread deletes and closes.\<close>

definition inactive :: "int \<Rightarrow> TcpWorker \<Rightarrow> string \<Rightarrow> nat \<Rightarrow> bool" where
  "inactive now w k a \<longleftrightarrow>
     (case TcpLinkLastActiveTimes w k of Some t \<Rightarrow> i64 (t + MaxInactiveTime w) < now | None \<Rightarrow> False) \<or>
     \<not> HasRecvRegister (linkHeap w ! a) \<and> i64 (StartTime (linkHeap w ! a) + MaxRegistrationTime w) < now"

definition drop_links :: "(string \<Rightarrow> nat \<Rightarrow> bool) \<Rightarrow> TcpWorker \<Rightarrow> Conn list \<times> TcpWorker" where
  "drop_links P w = (map (\<lambda>(_, a). LinkConn (linkHeap w ! a)) (filter (\<lambda>(k, a). P k a) (TcpLinks w)),
     w\<lparr>TcpLinks := filter (\<lambda>(k, a). \<not> P k a) (TcpLinks w),
       TcpLinkLastActiveTimes := (\<lambda>k. case map_of (TcpLinks w) k of
          Some a \<Rightarrow> if P k a then None else TcpLinkLastActiveTimes w k | None \<Rightarrow> TcpLinkLastActiveTimes w k)\<rparr>)"

definition DeleteInactiveLink :: "int \<Rightarrow> TcpWorker \<Rightarrow> Conn list \<times> TcpWorker" where
  "DeleteInactiveLink now w = drop_links (inactive now w) w"

definition link_cleanup_tick :: "int \<Rightarrow> TcpWorker \<Rightarrow> TcpWorker \<times> wk_out list" where
  "link_cleanup_tick now w = (let (cs, w1) = DeleteInactiveLink now w in (w1, map CloseConn cs))"

definition DeleteInactiveLinkForce :: "TcpWorker \<Rightarrow> Conn list \<times> TcpWorker" where
  "DeleteInactiveLinkForce w = drop_links (\<lambda>_ _. True) w"

text \<open>\<open>close(this.Done)\<close> panics on the second call.\<close>

definition worker_Close :: "bool \<Rightarrow> TcpWorker \<Rightarrow> (TcpWorker \<times> wk_out list) option" where
  "worker_Close hasListener w =
     (if wkClosed w then None
      else let (cs, w1) = DeleteInactiveLinkForce (w\<lparr>wkClosed := True\<rparr>)
           in Some (w1, (if hasListener then [CloseListener] else []) @ map CloseConn cs))"

section \<open>Accepting and connecting\<close>

text \<open>
  One accepted connection; \<open>allow\<close> is the answer of the rate limiter, \<open>handshake\<close> whether the TLS
  handshake succeeds, if there is one. The second component tells whether the reading thread is started.
\<close>

definition whitelisted :: "TcpWorker \<Rightarrow> Conn \<Rightarrow> bool" where
  "whitelisted w conn \<longleftrightarrow> ipWhitelist w = [] \<or> (\<exists>ip \<in> set (ipWhitelist w). prefix ip (connAddr conn))"

definition accept_round :: "bool \<Rightarrow> bool option \<Rightarrow> Conn \<Rightarrow> TcpWorker \<Rightarrow> wk_out list \<times> bool" where
  "accept_round allow handshake conn w =
     (if \<not> whitelisted w conn then ([CloseConn conn], False)
      else if 0 < MaxConnectionPerSecond w \<and> \<not> allow then ([CloseConn conn], False)
      else if handshake = Some False then ([CloseConn conn], False)
      else (if wkUser w \<noteq> None then [ConnectChanged True] else [], True))"

text \<open>
  One round of the connecting thread: the connection (of a link or dialed), and how long to sleep
  (nanoseconds). \<open>fails\<close> is at most 50; the shift and the product wrap around.
\<close>

definition backoff :: "int \<Rightarrow> int" where
  "backoff fails =
     (if 0 < fails then let b = i64 (i64 (i64 (2 ^ nat fails) * 100) * 1000000) in if b > 10000000000 then 10000000000 else b
      else 100000000)"

definition count_failure :: "bool \<Rightarrow> int \<Rightarrow> int" where
  "count_failure connected fails = (if connected then 0 else if fails < 50 then fails + 1 else fails)"

definition connect_round ::
  "(string \<Rightarrow> Conn option) \<Rightarrow> string \<Rightarrow> int \<Rightarrow> TcpWorker \<Rightarrow> string \<times> int \<times> int \<times> Conn option \<times> wk_out list" where
  "connect_round dial raddr fails w =
     (let (conn, start) = (case map_of (TcpLinks w) raddr of
          Some a \<Rightarrow> (Some (LinkConn (linkHeap w ! a)), None)
        | None \<Rightarrow> (dial raddr, dial raddr));
        fails1 = count_failure (conn \<noteq> None) fails
      in (case conn of Some c \<Rightarrow> connAddr c | None \<Rightarrow> raddr, fails1, backoff fails1, start,
          if start \<noteq> None \<and> wkUser w \<noteq> None then [ConnectChanged True] else []))"

section \<open>Writing\<close>

text \<open>Entering the queue of a link: \<open>None\<close> has to wait. A packet that is dropped counts as written.\<close>

definition WriteTo :: "byte list \<Rightarrow> bool \<Rightarrow> TcpLink \<Rightarrow> TcpLink option" where
  "WriteTo ba important l =
     (if important then
        (if length (ImportantWriteChan l) < ChannelQueueSizeSmall
         then Some (l\<lparr>ImportantWriteChan := ImportantWriteChan l @ [ba]\<rparr>) else None)
      else if length (NormalWriteChan l) < NormalCap l then Some (l\<lparr>NormalWriteChan := NormalWriteChan l @ [ba]\<rparr>)
      else if DropNormalPkgOnQueueFull l then Some l else None)"

text \<open>
  A round of the writing thread. Either \<open>select\<close> has the same two cases, and takes any that is ready;
  \<open>pick\<close> says which one when both are.
\<close>

definition take_queue :: "bool \<Rightarrow> TcpLink \<Rightarrow> (bool \<times> byte list \<times> TcpLink) option" where
  "take_queue pick l = (case (ImportantWriteChan l, NormalWriteChan l) of
       (i # is, ns) \<Rightarrow> (case ns of
           n # ns' \<Rightarrow> if pick then Some (True, i, l\<lparr>ImportantWriteChan := is\<rparr>) else Some (False, n, l\<lparr>NormalWriteChan := ns'\<rparr>)
         | [] \<Rightarrow> Some (True, i, l\<lparr>ImportantWriteChan := is\<rparr>))
     | ([], n # ns') \<Rightarrow> Some (False, n, l\<lparr>NormalWriteChan := ns'\<rparr>)
     | ([], []) \<Rightarrow> None)"

definition importantQuota :: int where
  "importantQuota = 5"

definition write_thread_round :: "bool \<Rightarrow> int \<Rightarrow> TcpLink \<Rightarrow> (int \<times> TcpLink \<times> wk_out list) option" where
  "write_thread_round pick importantCount l = (case take_queue pick l of
       None \<Rightarrow> None
     | Some (imp, ba, l1) \<Rightarrow>
         Some (if importantCount < importantQuota \<and> imp then importantCount + 1 else 0, l1, [WriteConn (LinkConn l) ba]))"

section \<open>Sending\<close>

definition may_send :: "Message \<Rightarrow> TcpLink \<Rightarrow> bool" where
  "may_send msg l \<longleftrightarrow> HasRecvRegister l \<or> mType msg = TcpRegister"

definition tcp_sendTo :: "(Message \<Rightarrow> byte list) \<Rightarrow> string \<Rightarrow> Message \<Rightarrow> TcpWorker \<Rightarrow> wk_out list option" where
  "tcp_sendTo marshal nextHopNodeId msg w = (case LinksAddrFromPeer w nextHopNodeId of
       None \<Rightarrow> Some []
     | Some ras \<Rightarrow> do {
         ba \<leftarrow> wrapToDataFrame (MaxFrameSize w) (marshal msg);
         Some (concat (map (\<lambda>ra. case map_of (TcpLinks w) ra of
             None \<Rightarrow> []
           | Some a \<Rightarrow> if may_send msg (linkHeap w ! a) \<and> ba \<noteq> [] then [Write a ba (isImportant msg)] else []) ras)) })"

definition tcp_broadCast :: "(Message \<Rightarrow> byte list) \<Rightarrow> Message \<Rightarrow> TcpWorker \<Rightarrow> wk_out list option" where
  "tcp_broadCast marshal msg w = do {
     ba \<leftarrow> wrapToDataFrame (MaxFrameSize w) (marshal msg);
     Some (if ba = [] then []
       else concat (map (\<lambda>a. if may_send msg (linkHeap w ! a) then [Write a ba (isImportant msg)] else []) (GetAllConns w))) }"

text \<open>The message that registers this node with the other end of a link, sent once per link.\<close>

definition signed_text :: "(string \<Rightarrow> string \<Rightarrow> string) \<Rightarrow> string \<Rightarrow> string \<Rightarrow> string \<Rightarrow> string \<Rightarrow> string" where
  "signed_text hmac token nodeID timestamp nonce =
     (let d = nodeID @ ''|'' @ timestamp @ ''|'' @ nonce in d @ ''|'' @ hmac d token)"

definition register_message :: "(string \<Rightarrow> string \<Rightarrow> string) \<Rightarrow> int \<Rightarrow> int \<Rightarrow> string \<Rightarrow> string \<Rightarrow> Message" where
  "register_message hmac now nonce token nodeID = zero_message\<lparr>mType := TcpRegister,
     mData := Text (signed_text hmac token nodeID (itoa now) (itoa nonce)), mFrom := nodeID\<rparr>"

definition trySendRegisterMessage ::
  "(Message \<Rightarrow> byte list) \<Rightarrow> (string \<Rightarrow> string \<Rightarrow> string) \<Rightarrow> int \<Rightarrow> int \<Rightarrow> nat \<Rightarrow> TcpWorker \<Rightarrow> (TcpWorker \<times> wk_out list) option" where
  "trySendRegisterMessage marshal hmac now nonce a w = (case wkUser w of
       None \<Rightarrow> Some (w, [])
     | Some nodeID \<Rightarrow>
         if HasSendRegister (linkHeap w ! a) then Some (w, [])
         else do {
           ba \<leftarrow> wrapToDataFrame (MaxFrameSize w) (marshal (register_message hmac now nonce (Token w) nodeID));
           Some (at_link a (\<lambda>l. l\<lparr>HasSendRegister := True\<rparr>) w, [Write a ba True]) })"

section \<open>Receiving\<close>

text \<open>
  A round of the reading thread of the link at \<open>a\<close>: registration, then a frame (with a log call that asks
  the user for its id, and panics when there is none); the connection is touched, and a complete message is
  queued. \<open>Some None\<close> has to wait for bytes. At its end the thread removes the link.
\<close>

definition read_thread_round ::
  "(Message \<Rightarrow> byte list) \<Rightarrow> (string \<Rightarrow> string \<Rightarrow> string) \<Rightarrow> int \<Rightarrow> int \<Rightarrow> nat \<Rightarrow> Conn \<Rightarrow> byte list \<Rightarrow> byte list list \<Rightarrow> TcpWorker \<Rightarrow>
     (byte list \<times> byte list list \<times> TcpWorker \<times> wk_out list) option option" where
  "read_thread_round marshal hmac now nonce a conn buf bytes w = do {
     (w1, os) \<leftarrow> trySendRegisterMessage marshal hmac now nonce a w;
     (if wkUser w = None then None
      else Some (case read_round buf bytes of
          None \<Rightarrow> None
        | Some (buf1, data, bytes1) \<Rightarrow>
            let w2 = TouchLink now conn w1 in
            Some (buf1, bytes1, (case data of
                Some d \<Rightarrow> if wkClosed w2 then w2 else w2\<lparr>RecvPackagesChan := RecvPackagesChan w2 @ [(connAddr conn, d)]\<rparr>
              | None \<Rightarrow> w2), os))) }"

definition read_thread_end :: "Conn \<Rightarrow> TcpWorker \<Rightarrow> TcpWorker \<times> wk_out list" where
  "read_thread_end conn w = (let (w1, os) = UnregisterTcpLink conn w in
     (w1, os @ (if wkUser w1 \<noteq> None then [ConnectChanged False] else [])))"

fun go_split :: "char \<Rightarrow> string \<Rightarrow> string list" where
  "go_split c [] = [[]]"
| "go_split c (x # xs) = (if x = c then [] # go_split c xs else (x # hd (go_split c xs)) # tl (go_split c xs))"

definition HMACMD5Verify :: "(string \<Rightarrow> string \<Rightarrow> string) \<Rightarrow> string \<Rightarrow> string \<Rightarrow> string \<Rightarrow> bool" where
  "HMACMD5Verify hmac d token sig \<longleftrightarrow> hmac d token = sig"

definition checkHash :: "(string \<Rightarrow> string) \<Rightarrow> Message \<Rightarrow> TcpWorker \<Rightarrow> bool" where
  "checkHash sha256 msg w \<longleftrightarrow> sha256 (mFrom msg @ Token w) = topic_text (mData msg)"

definition close_at_addr :: "string \<Rightarrow> TcpWorker \<Rightarrow> wk_out list" where
  "close_at_addr pra w = (case map_of (TcpLinks w) pra of None \<Rightarrow> [] | Some a \<Rightarrow> [CloseConn (LinkConn (linkHeap w ! a))])"

definition handleRegisterMessage ::
  "(string \<Rightarrow> string \<Rightarrow> string) \<Rightarrow> string \<Rightarrow> Message \<Rightarrow> TcpWorker \<Rightarrow> (TcpWorker \<times> wk_out list) option" where
  "handleRegisterMessage hmac pra msg w =
     (if mType msg \<noteq> TcpRegister then Some (w, [])
      else let parts = go_split (CHR ''|'') (topic_text (mData msg)) in
        if length parts \<noteq> 4 then Some (w, close_at_addr pra w)
        else if \<not> HMACMD5Verify hmac (parts ! 0 @ ''|'' @ parts ! 1 @ ''|'' @ parts ! 2) (Token w) (parts ! 3)
          then Some (w, close_at_addr pra w)
        else (case wkUser w of
          None \<Rightarrow> None
        | Some own \<Rightarrow>
            if mFrom msg = own then Some (w, close_at_addr pra w)
            else (case map_of (TcpLinks w) pra of
                None \<Rightarrow> Some (w, [])
              | Some a \<Rightarrow>
                  if mFrom msg \<notin> set (TlsServerName (linkHeap w ! a)) \<and> TlsServerName (linkHeap w ! a) \<noteq> []
                  then Some (w, [CloseConn (LinkConn (linkHeap w ! a))])
                  else Some (at_link a (\<lambda>l. l\<lparr>HasRecvRegister := True\<rparr>) w, []))))"

text \<open>The address a message came from moves to the front, by a swap with the first.\<close>

fun index_of :: "'a \<Rightarrow> 'a list \<Rightarrow> nat option" where
  "index_of x [] = None"
| "index_of x (y # ys) = (if y = x then Some 0 else map_option Suc (index_of x ys))"

definition to_front :: "string \<Rightarrow> string list \<Rightarrow> string list" where
  "to_front pra ras = (case index_of pra ras of
       None \<Rightarrow> pra # ras
     | Some i \<Rightarrow> if i \<noteq> 0 then (ras[i := ras ! 0])[0 := pra] else ras)"

definition handleNormalMessage :: "string \<Rightarrow> Message \<Rightarrow> TcpWorker \<Rightarrow> TcpWorker \<times> wk_out list" where
  "handleNormalMessage pra msg w =
     (let peerId = LastSender msg;
          ras = (case LinksAddrFromPeer w peerId of None \<Rightarrow> [] | Some ras \<Rightarrow> ras)
      in (w\<lparr>LinksAddrFromPeer := (LinksAddrFromPeer w)(peerId \<mapsto> to_front pra ras)\<rparr>,
          if wkUser w \<noteq> None then [UserRecv peerId msg] else []))"

definition processPackage ::
  "(byte list \<Rightarrow> Message option) \<Rightarrow> (string \<Rightarrow> string \<Rightarrow> string) \<Rightarrow> string \<times> byte list \<Rightarrow> TcpWorker \<Rightarrow>
     (TcpWorker \<times> wk_out list) option" where
  "processPackage unmarshal hmac pkg w = (let (pra, d) = pkg in
     if d = [] then Some (w, [])
     else (case unmarshal d of
         None \<Rightarrow> Some (w, [])
       | Some msg \<Rightarrow>
           if wkUser w = None then None
           else if mType msg = TcpRegister then handleRegisterMessage hmac pra msg w
           else Some (handleNormalMessage pra msg w)))"

definition message_processor_round ::
  "(byte list \<Rightarrow> Message option) \<Rightarrow> (string \<Rightarrow> string \<Rightarrow> string) \<Rightarrow> TcpWorker \<Rightarrow> (TcpWorker \<times> wk_out list) option" where
  "message_processor_round unmarshal hmac w = (case RecvPackagesChan w of
       [] \<Rightarrow> Some (w, [])
     | pkg # pkgs \<Rightarrow> processPackage unmarshal hmac pkg (w\<lparr>RecvPackagesChan := pkgs\<rparr>))"

end
