(* ===== verification/Worker_Links.thy ===== *)
theory Worker_Links
  imports Worker_Tcp
begin

text \<open>
  What the TCP transport guarantees: the table of links stays well formed, a link counts as registered only
  after a signed message has come over it, messages leave only over registered links and arrive as they
  were sent; and what it does not: a signature can be replayed, an unregistered link is heard, the end of a
  replaced connection takes its successor with it, and after fifty failures the reconnecting thread spins.
\<close>

section \<open>Well-formed tables\<close>

definition links_wf :: "TcpWorker \<Rightarrow> bool" where
  "links_wf w \<longleftrightarrow> distinct (map fst (TcpLinks w)) \<and>
     (\<forall>k a. map_of (TcpLinks w) k = Some a \<longrightarrow> a < length (linkHeap w) \<and> connAddr (LinkConn (linkHeap w ! a)) = k)"

lemma links_wfD:
  assumes "links_wf w" and "map_of (TcpLinks w) k = Some a"
  shows "a < length (linkHeap w)" and "connAddr (LinkConn (linkHeap w ! a)) = k"
  using assms by (auto simp: links_wf_def)

lemma at_link_fields [simp]:
  "TcpLinks (at_link a f w) = TcpLinks w" "wkUser (at_link a f w) = wkUser w" "Token (at_link a f w) = Token w"
  "length (linkHeap (at_link a f w)) = length (linkHeap w)"
  by (simp_all add: at_link_def)

lemma at_link_nth:
  "b < length (linkHeap w) \<Longrightarrow> linkHeap (at_link a f w) ! b = (if b = a then f (linkHeap w ! b) else linkHeap w ! b)"
  by (simp add: at_link_def)

text \<open>The operations, with the packages a worker has processed.\<close>

inductive wk_reach ::
  "(Message \<Rightarrow> byte list) \<Rightarrow> (byte list \<Rightarrow> Message option) \<Rightarrow> (string \<Rightarrow> string \<Rightarrow> string) \<Rightarrow> TcpWorker \<Rightarrow>
     (string \<times> byte list) list \<Rightarrow> TcpWorker \<Rightarrow> bool"
  for marshal unmarshal hmac w0 where
  wk_init: "wk_reach marshal unmarshal hmac w0 [] w0"
| wk_register: "wk_reach marshal unmarshal hmac w0 ps w \<Longrightarrow> RegisterTcpLink now conn acc w = (a, w1, os) \<Longrightarrow>
    wk_reach marshal unmarshal hmac w0 ps w1"
| wk_touch: "wk_reach marshal unmarshal hmac w0 ps w \<Longrightarrow> wk_reach marshal unmarshal hmac w0 ps (TouchLink now conn w)"
| wk_end: "wk_reach marshal unmarshal hmac w0 ps w \<Longrightarrow> wk_reach marshal unmarshal hmac w0 ps (fst (read_thread_end conn w))"
| wk_cleanup: "wk_reach marshal unmarshal hmac w0 ps w \<Longrightarrow> wk_reach marshal unmarshal hmac w0 ps (fst (link_cleanup_tick now w))"
| wk_close: "wk_reach marshal unmarshal hmac w0 ps w \<Longrightarrow> worker_Close l w = Some (w1, os) \<Longrightarrow>
    wk_reach marshal unmarshal hmac w0 ps w1"
| wk_hello: "wk_reach marshal unmarshal hmac w0 ps w \<Longrightarrow>
    trySendRegisterMessage marshal hmac now nonce a w = Some (w1, os) \<Longrightarrow> wk_reach marshal unmarshal hmac w0 ps w1"
| wk_read: "wk_reach marshal unmarshal hmac w0 ps w \<Longrightarrow>
    read_thread_round marshal hmac now nonce a conn buf bytes w = Some (Some (buf1, bytes1, w1, os)) \<Longrightarrow>
    wk_reach marshal unmarshal hmac w0 ps w1"
| wk_write: "wk_reach marshal unmarshal hmac w0 ps w \<Longrightarrow> a < length (linkHeap w) \<Longrightarrow>
    WriteTo ba imp (linkHeap w ! a) = Some l \<Longrightarrow> wk_reach marshal unmarshal hmac w0 ps (at_link a (\<lambda>_. l) w)"
| wk_written: "wk_reach marshal unmarshal hmac w0 ps w \<Longrightarrow> a < length (linkHeap w) \<Longrightarrow>
    write_thread_round pick c (linkHeap w ! a) = Some (c1, l, os) \<Longrightarrow> wk_reach marshal unmarshal hmac w0 ps (at_link a (\<lambda>_. l) w)"
| wk_process: "wk_reach marshal unmarshal hmac w0 ps w \<Longrightarrow> RecvPackagesChan w = p # rest \<Longrightarrow>
    message_processor_round unmarshal hmac w = Some (w1, os) \<Longrightarrow> wk_reach marshal unmarshal hmac w0 (p # ps) w1"

text \<open>A package that registers: a signed text that another node (by its own account) has sent.\<close>

definition signed_by_token :: "(string \<Rightarrow> string \<Rightarrow> string) \<Rightarrow> string \<Rightarrow> string \<Rightarrow> bool" where
  "signed_by_token hmac token s \<longleftrightarrow> (\<exists>n t r. go_split (CHR ''|'') s = [n, t, r, hmac (n @ ''|'' @ t @ ''|'' @ r) token])"

definition registering ::
  "(byte list \<Rightarrow> Message option) \<Rightarrow> (string \<Rightarrow> string \<Rightarrow> string) \<Rightarrow> string \<Rightarrow> string \<Rightarrow> byte list \<Rightarrow> bool" where
  "registering unmarshal hmac token own d \<longleftrightarrow> (\<exists>msg. unmarshal d = Some msg \<and> mType msg = TcpRegister \<and>
     mFrom msg \<noteq> own \<and> signed_by_token hmac token (topic_text (mData msg)))"

lemma length_four: "length xs = 4 \<longleftrightarrow> (\<exists>a b c d. xs = [a, b, c, d])"
  by (auto simp: numeral_eq_Suc length_Suc_conv)

lemma handleRegister_cases:
  assumes "handleRegisterMessage hmac pra msg w = Some (w1, os)"
  shows "w1 = w \<or> (\<exists>a own. map_of (TcpLinks w) pra = Some a \<and> wkUser w = Some own \<and> mFrom msg \<noteq> own \<and>
    mType msg = TcpRegister \<and> signed_by_token hmac (Token w) (topic_text (mData msg)) \<and>
    (TlsServerName (linkHeap w ! a) = [] \<or> mFrom msg \<in> set (TlsServerName (linkHeap w ! a))) \<and>
    w1 = at_link a (\<lambda>l. l\<lparr>HasRecvRegister := True\<rparr>) w)"
  using assms by (auto simp: handleRegisterMessage_def HMACMD5Verify_def signed_by_token_def Let_def length_four
      split: if_splits option.splits)

text \<open>An operation that registers no link: old links keep their connection, new ones are unregistered.\<close>

definition quiet :: "TcpWorker \<Rightarrow> TcpWorker \<Rightarrow> bool" where
  "quiet w w1 \<longleftrightarrow> wkUser w1 = wkUser w \<and> Token w1 = Token w \<and> length (linkHeap w) \<le> length (linkHeap w1) \<and>
     (\<forall>a < length (linkHeap w1). HasRecvRegister (linkHeap w1 ! a) \<longrightarrow> a < length (linkHeap w) \<and> HasRecvRegister (linkHeap w ! a)) \<and>
     (\<forall>a < length (linkHeap w). LinkConn (linkHeap w1 ! a) = LinkConn (linkHeap w ! a))"

lemma quiet_same: "linkHeap w1 = linkHeap w \<Longrightarrow> wkUser w1 = wkUser w \<Longrightarrow> Token w1 = Token w \<Longrightarrow> quiet w w1"
  by (simp add: quiet_def)

lemma quiet_trans: "quiet w w1 \<Longrightarrow> quiet w1 w2 \<Longrightarrow> quiet w w2"
  by (fastforce simp: quiet_def)

lemma quiet_at_link:
  assumes "\<And>l. LinkConn (f l) = LinkConn l" and "\<And>l. HasRecvRegister (f l) = HasRecvRegister l"
  shows "quiet w (at_link a f w)"
  using assms by (auto simp: quiet_def at_link_nth split: if_splits)

lemma quiet_set_link:
  assumes "LinkConn l = LinkConn (linkHeap w ! a)" and "HasRecvRegister l = HasRecvRegister (linkHeap w ! a)"
  shows "quiet w (at_link a (\<lambda>_. l) w)"
  using assms by (auto simp: quiet_def at_link_nth split: if_splits)

lemma links_wf_quiet:
  assumes "links_wf w" and "quiet w w1" and "TcpLinks w1 = TcpLinks w"
  shows "links_wf w1"
  using assms unfolding links_wf_def quiet_def by (metis order_less_le_trans)

lemma links_wf_fewer:
  assumes "links_wf w" and "linkHeap w1 = linkHeap w" and "distinct (map fst (TcpLinks w1))"
    and "map_of (TcpLinks w1) \<subseteq>\<^sub>m map_of (TcpLinks w)"
  shows "links_wf w1"
  using assms unfolding links_wf_def map_le_def by (metis domI)

lemma map_of_filter_le: "distinct (map fst xs) \<Longrightarrow> map_of (filter P xs) \<subseteq>\<^sub>m map_of xs"
  by (auto simp: map_le_def dom_map_of_conv_image_fst map_of_eq_Some_iff distinct_map_filter dest!: map_of_SomeD)

lemma distinct_filter_fst: "distinct (map fst xs) \<Longrightarrow> distinct (map fst (filter P xs))"
  by (simp add: distinct_map_filter)

text \<open>What every operation keeps.\<close>

lemma Register_keeps:
  assumes "RegisterTcpLink now conn acc w = (a, w1, os)"
  shows "quiet w w1" and "links_wf w \<Longrightarrow> links_wf w1"
proof -
  have w1: "w1 = w\<lparr>linkHeap := linkHeap w @ [new_link now conn acc w], TcpLinks := AList.update (connAddr conn) (length (linkHeap w)) (TcpLinks w),
      TcpLinkLastActiveTimes := (TcpLinkLastActiveTimes w)(connAddr conn \<mapsto> now)\<rparr>"
    using assms by (auto simp: RegisterTcpLink_def Let_def)
  show "quiet w w1" by (auto simp: quiet_def w1 nth_append new_link_def less_Suc_eq split: if_splits)
  show "links_wf w1" if "links_wf w"
    using that by (auto simp: links_wf_def w1 nth_append new_link_def less_Suc_eq distinct_update split: if_splits)
qed

lemma end_keeps: "quiet w (fst (read_thread_end conn w))" "links_wf w \<Longrightarrow> links_wf (fst (read_thread_end conn w))"
proof -
  show "quiet w (fst (read_thread_end conn w))"
    by (rule quiet_same) (simp_all add: read_thread_end_def UnregisterTcpLink_def split: option.split)
  show "links_wf (fst (read_thread_end conn w))" if wf: "links_wf w"
    by (rule links_wf_fewer [OF wf])
      (use wf in \<open>simp_all add: read_thread_end_def UnregisterTcpLink_def links_wf_def delete_conv' map_le_def
        distinct_delete split: option.split\<close>)
qed

lemma drop_keeps: "quiet w (snd (drop_links P w))" "links_wf w \<Longrightarrow> links_wf (snd (drop_links P w))"
proof -
  show "quiet w (snd (drop_links P w))" by (rule quiet_same) (simp_all add: drop_links_def)
  show "links_wf (snd (drop_links P w))" if wf: "links_wf w"
  proof (rule links_wf_fewer [OF wf])
    have d: "distinct (map fst (TcpLinks w))" using wf by (simp add: links_wf_def)
    then show "distinct (map fst (TcpLinks (snd (drop_links P w))))"
      "map_of (TcpLinks (snd (drop_links P w))) \<subseteq>\<^sub>m map_of (TcpLinks w)"
      by (simp_all add: drop_links_def distinct_filter_fst map_of_filter_le)
  qed (simp add: drop_links_def)
qed

lemma close_keeps:
  assumes "worker_Close l w = Some (w1, os)"
  shows "quiet w w1" and "links_wf w \<Longrightarrow> links_wf w1"
proof -
  have w1: "w1 = snd (drop_links (\<lambda>_ _. True) (w\<lparr>wkClosed := True\<rparr>))"
    using assms by (auto simp: worker_Close_def DeleteInactiveLinkForce_def split_beta Let_def split: if_splits)
  have "quiet w (w\<lparr>wkClosed := True\<rparr>)" by (rule quiet_same) simp_all
  then show "quiet w w1" unfolding w1 by (rule quiet_trans [OF _ drop_keeps(1)])
  show "links_wf w1" if "links_wf w"
    unfolding w1 by (rule drop_keeps(2)) (use that in \<open>simp add: links_wf_def\<close>)
qed

lemma hello_keeps:
  assumes "trySendRegisterMessage marshal hmac now nonce a w = Some (w1, os)"
  shows "quiet w w1" and "TcpLinks w1 = TcpLinks w"
  using assms
  by (auto simp: trySendRegisterMessage_def bind_eq_Some_conv quiet_same intro: quiet_at_link split: option.splits if_splits)

lemma read_keeps:
  assumes "read_thread_round marshal hmac now nonce a conn buf bytes w = Some (Some (buf1, bytes1, w1, os))"
  shows "quiet w w1" and "TcpLinks w1 = TcpLinks w"
proof -
  from assms obtain w2 o2 where h: "trySendRegisterMessage marshal hmac now nonce a w = Some (w2, o2)"
    by (auto simp: read_thread_round_def bind_eq_Some_conv)
  with assms have "linkHeap w1 = linkHeap w2 \<and> wkUser w1 = wkUser w2 \<and> Token w1 = Token w2 \<and> TcpLinks w1 = TcpLinks w2"
    by (auto simp: read_thread_round_def TouchLink_def Let_def split: if_splits option.splits)
  then show "quiet w w1" "TcpLinks w1 = TcpLinks w"
    using quiet_trans [OF hello_keeps(1) [OF h] quiet_same] hello_keeps(2) [OF h] by simp_all
qed

lemma WriteTo_keeps: "WriteTo ba imp l = Some l1 \<Longrightarrow> LinkConn l1 = LinkConn l \<and> HasRecvRegister l1 = HasRecvRegister l"
  by (auto simp: WriteTo_def split: if_splits)

lemma write_round_keeps:
  "write_thread_round pick c l = Some (c1, l1, os) \<Longrightarrow> LinkConn l1 = LinkConn l \<and> HasRecvRegister l1 = HasRecvRegister l"
  by (auto simp: write_thread_round_def take_queue_def split: option.splits list.splits if_splits)

definition links_inv ::
  "(byte list \<Rightarrow> Message option) \<Rightarrow> (string \<Rightarrow> string \<Rightarrow> string) \<Rightarrow> TcpWorker \<Rightarrow> (string \<times> byte list) list \<Rightarrow> TcpWorker \<Rightarrow> bool" where
  "links_inv unmarshal hmac w0 ps w \<longleftrightarrow> links_wf w \<and> wkUser w = wkUser w0 \<and> Token w = Token w0 \<and>
     (\<forall>a < length (linkHeap w). HasRecvRegister (linkHeap w ! a) \<longrightarrow> (\<exists>own d. wkUser w0 = Some own \<and>
        (connAddr (LinkConn (linkHeap w ! a)), d) \<in> set ps \<and> registering unmarshal hmac (Token w0) own d))"

lemma links_inv_wf: "links_inv unmarshal hmac w0 ps w \<Longrightarrow> links_wf w"
  by (simp add: links_inv_def)

lemma links_inv_more: "links_inv unmarshal hmac w0 ps w \<Longrightarrow> links_inv unmarshal hmac w0 (p # ps) w"
  unfolding links_inv_def by (metis list.set_intros(2))

lemma links_inv_quiet:
  "links_inv unmarshal hmac w0 ps w \<Longrightarrow> quiet w w1 \<Longrightarrow> links_wf w1 \<Longrightarrow> links_inv unmarshal hmac w0 ps w1"
  unfolding links_inv_def quiet_def by metis

lemma links_inv_step:
  "links_inv unmarshal hmac w0 ps w \<Longrightarrow> quiet w w1 \<Longrightarrow> (links_wf w \<Longrightarrow> links_wf w1) \<Longrightarrow>
    links_inv unmarshal hmac w0 ps w1"
  by (rule links_inv_quiet) (simp_all add: links_inv_wf)

lemma links_inv_same:
  assumes "links_inv unmarshal hmac w0 ps w" and "quiet w w1" and "TcpLinks w1 = TcpLinks w"
  shows "links_inv unmarshal hmac w0 ps w1"
  by (rule links_inv_step [OF assms(1,2) links_wf_quiet [OF _ assms(2,3)]])

lemma process_keeps:
  assumes inv: "links_inv unmarshal hmac w0 ps w" and pk: "RecvPackagesChan w = p # rest"
    and step: "message_processor_round unmarshal hmac w = Some (w1, os)"
  shows "links_inv unmarshal hmac w0 (p # ps) w1"
proof -
  obtain pra d where p: "p = (pra, d)" by (cases p)
  define v where "v = w\<lparr>RecvPackagesChan := rest\<rparr>"
  have inv1: "links_inv unmarshal hmac w0 (p # ps) v"
    using links_inv_more [OF inv] by (simp add: links_inv_def links_wf_def v_def)
  have pp: "processPackage unmarshal hmac (pra, d) v = Some (w1, os)"
    using step pk p by (simp add: message_processor_round_def v_def)
  consider "w1 = v" | msg where "unmarshal d = Some msg" "handleRegisterMessage hmac pra msg v = Some (w1, os)"
    | msg where "handleNormalMessage pra msg v = (w1, os)"
    using pp by (auto simp: processPackage_def split: if_splits option.splits)
  then show ?thesis
  proof cases
    case 1 with inv1 show ?thesis by simp
  next
    case 3
    then have w1: "w1 = fst (handleNormalMessage pra msg v)" by simp
    have "quiet v w1" unfolding w1 by (rule quiet_same) (simp_all add: handleNormalMessage_def Let_def)
    moreover have "links_wf w1" using inv1 unfolding w1 by (simp add: links_inv_def links_wf_def handleNormalMessage_def Let_def)
    ultimately show ?thesis by (rule links_inv_quiet [OF inv1])
  next
    case 2
    from handleRegister_cases [OF 2(2)] consider (same) "w1 = v"
      | (reg) a own where "map_of (TcpLinks v) pra = Some a" "wkUser v = Some own" "mFrom msg \<noteq> own" "mType msg = TcpRegister"
        "signed_by_token hmac (Token v) (topic_text (mData msg))" "w1 = at_link a (\<lambda>l. l\<lparr>HasRecvRegister := True\<rparr>) v"
      by blast
    then show ?thesis
    proof cases
      case same with inv1 show ?thesis by simp
    next
      case (reg a own)
      note a = reg(1-5) and w1 = reg(6)
      have wf: "links_wf v" and u: "wkUser v = wkUser w0" "Token v = Token w0" using inv1 by (simp_all add: links_inv_def)
      have addr: "connAddr (LinkConn (linkHeap v ! a)) = pra" by (rule links_wfD(2) [OF wf a(1)])
      have reg: "registering unmarshal hmac (Token w0) own d"
        using a 2(1) u by (auto simp: registering_def)
      have "links_wf w1" using wf by (auto simp: links_wf_def w1 at_link_nth)
      moreover have "\<exists>own d. wkUser w0 = Some own \<and> (connAddr (LinkConn (linkHeap w1 ! b)), d) \<in> set (p # ps) \<and>
          registering unmarshal hmac (Token w0) own d"
        if "b < length (linkHeap w1)" "HasRecvRegister (linkHeap w1 ! b)" for b
      proof (cases "b = a")
        case True
        then have "connAddr (LinkConn (linkHeap w1 ! b)) = pra" using that addr by (simp add: w1 at_link_nth)
        with reg a(2) u p show ?thesis by auto
      next
        case False
        with that have "HasRecvRegister (linkHeap v ! b)" "LinkConn (linkHeap w1 ! b) = LinkConn (linkHeap v ! b)"
          by (simp_all add: w1 at_link_nth)
        with inv1 that(1) show ?thesis by (simp add: links_inv_def w1)
      qed
      ultimately show ?thesis using u by (simp add: links_inv_def w1)
    qed
  qed
qed

lemma links_inv_reach:
  assumes "wk_reach marshal unmarshal hmac w0 ps w" and "links_wf w0" and "\<forall>l \<in> set (linkHeap w0). \<not> HasRecvRegister l"
  shows "links_inv unmarshal hmac w0 ps w"
  using assms(1)
proof (induction rule: wk_reach.induct)
  case wk_init
  then show ?case using assms(2,3) by (simp add: links_inv_def)
next
  case (wk_register ps w now conn acc a w1 os)
  show ?case by (rule links_inv_step [OF wk_register(3) Register_keeps [OF wk_register(2)]])
next
  case (wk_touch ps w now conn)
  show ?case by (rule links_inv_same [OF wk_touch(2) quiet_same]) (simp_all add: TouchLink_def)
next
  case (wk_end ps w conn)
  show ?case by (rule links_inv_step [OF wk_end(2) end_keeps])
next
  case (wk_cleanup ps w now)
  have "fst (link_cleanup_tick now w) = snd (drop_links (inactive now w) w)"
    by (simp add: link_cleanup_tick_def DeleteInactiveLink_def split_beta Let_def)
  then show ?case using links_inv_step [OF wk_cleanup(2) drop_keeps] by simp
next
  case (wk_close ps w l w1 os)
  show ?case by (rule links_inv_step [OF wk_close(3) close_keeps [OF wk_close(2)]])
next
  case (wk_hello ps w now nonce a w1 os)
  show ?case by (rule links_inv_same [OF wk_hello(3) hello_keeps [OF wk_hello(2)]])
next
  case (wk_read ps w now nonce a conn buf bytes buf1 bytes1 w1 os)
  show ?case by (rule links_inv_same [OF wk_read(3) read_keeps [OF wk_read(2)]])
next
  case (wk_write ps w a ba imp l)
  show ?case
    by (rule links_inv_same [OF wk_write(4) quiet_set_link]) (use WriteTo_keeps [OF wk_write(3)] in simp_all)
next
  case (wk_written ps w a pick c c1 l os)
  show ?case
    by (rule links_inv_same [OF wk_written(4) quiet_set_link]) (use write_round_keeps [OF wk_written(3)] in simp_all)
next
  case (wk_process ps w p rest w1 os)
  then show ?case by (blast intro: process_keeps)
qed

section \<open>Registration\<close>

text \<open>
  C16: In every reachable state of a TCP worker the table of links has one entry per address, which leads to
  a link whose connection has this address; and a link is registered only if a package that came from its
  address has been processed which decodes to a registration, not from this node, whose text is signed with
  the worker's token.
\<close>

theorem link_registered_only_by_signature:
  assumes "NewTcpConnection lr li rr resolve name cl wl mf mi mq mc token = Some w0"
    and "wk_reach marshal unmarshal hmac (w0\<lparr>wkUser := Some own\<rparr>) ps w"
  shows "distinct (map fst (TcpLinks w)) \<and>
    (\<forall>k a. map_of (TcpLinks w) k = Some a \<longrightarrow> a < length (linkHeap w) \<and> connAddr (LinkConn (linkHeap w ! a)) = k \<and>
      (HasRecvRegister (linkHeap w ! a) \<longrightarrow> (\<exists>d. (k, d) \<in> set ps \<and> registering unmarshal hmac token own d)))"
proof -
  have w0: "linkHeap w0 = []" "TcpLinks w0 = []" "Token w0 = token"
    using assms(1) by (auto simp: NewTcpConnection_def split: if_splits)
  then have "links_wf (w0\<lparr>wkUser := Some own\<rparr>)" by (simp add: links_wf_def)
  then have inv: "links_inv unmarshal hmac (w0\<lparr>wkUser := Some own\<rparr>) ps w"
    using links_inv_reach [OF assms(2)] w0 by simp
  note wf = links_inv_wf [OF inv]
  have "\<exists>d. (k, d) \<in> set ps \<and> registering unmarshal hmac token own d"
    if "map_of (TcpLinks w) k = Some a" "HasRecvRegister (linkHeap w ! a)" for k a
    using inv links_wfD [OF wf that(1)] that(2) w0(3) by (auto simp: links_inv_def)
  then show ?thesis using wf links_wfD [OF wf] by (auto simp: links_wf_def)
qed

text \<open>
  A signed text that has once registered a link registers any other link too, whoever sends it and
  whenever: neither the sender, nor the time, nor the random part in the text is compared with anything,
  and the id in the text is not compared with the sender of the message.
\<close>

theorem registration_can_be_replayed:
  assumes seen: "handleRegisterMessage hmac pra msg w = Some (w1, os)" and new: "w1 \<noteq> w"
    and other: "map_of (TcpLinks v) pra' = Some b" "b < length (linkHeap v)" "TlsServerName (linkHeap v ! b) = []"
      "Token v = Token w" "wkUser v = Some own'" "from' \<noteq> own'"
  shows "\<exists>v1. handleRegisterMessage hmac pra' (msg\<lparr>mFrom := from'\<rparr>) v = Some (v1, []) \<and> HasRecvRegister (linkHeap v1 ! b)"
proof -
  from handleRegister_cases [OF seen] new have t: "mType msg = TcpRegister"
    and "signed_by_token hmac (Token w) (topic_text (mData msg))" by auto
  then obtain n t' r where "go_split (CHR ''|'') (topic_text (mData msg)) =
      [n, t', r, hmac (n @ ''|'' @ t' @ ''|'' @ r) (Token w)]"
    by (auto simp: signed_by_token_def)
  with t other show ?thesis
    by (simp add: handleRegisterMessage_def HMACMD5Verify_def at_link_nth)
qed

section \<open>Delivery\<close>

text \<open>
  What a worker hands to a connection are frames of the message, and only on links that have
  registered (or the message is a registration): for a peer, on every such link that a message of the peer
  has come over; for a broadcast, on every such link.
\<close>

theorem sends_only_on_registered_links:
  assumes "frame_size_ok (MaxFrameSize w)" and "marshal msg \<noteq> []"
  shows "\<exists>ba. wrapToDataFrame (MaxFrameSize w) (marshal msg) = Some ba \<and>
    (\<exists>os. tcp_sendTo marshal peer msg w = Some os \<and>
      set os = {Write a ba (isImportant msg) | a ras ra. LinksAddrFromPeer w peer = Some ras \<and> ra \<in> set ras \<and>
        map_of (TcpLinks w) ra = Some a \<and> (HasRecvRegister (linkHeap w ! a) \<or> mType msg = TcpRegister)}) \<and>
    (\<exists>os. tcp_broadCast marshal msg w = Some os \<and>
      set os = {Write a ba (isImportant msg) | a. a \<in> snd ` set (TcpLinks w) \<and>
        (HasRecvRegister (linkHeap w ! a) \<or> mType msg = TcpRegister)})"
proof -
  have m: "0 < max_data_size (MaxFrameSize w)" "max_data_size (MaxFrameSize w) < 2 ^ 24"
    using assms(1) by (simp_all only: frame_size_ok_def)
  from read_loop_wrapped [OF m assms(2)] obtain ba where
    "wrap_loop (max_data_size (MaxFrameSize w)) (marshal msg) = Some ba"
    and r: "read_loop [] [ba @ []] = ([] @ marshal msg) # read_loop [] [[]]" by blast
  then have ba: "wrapToDataFrame (MaxFrameSize w) (marshal msg) = Some ba"
    by (simp only: wrapToDataFrame_ok [OF assms(1)])
  have ne: "ba \<noteq> []" using r by (auto simp: frames.read_none)
  have one: "set (case x of None \<Rightarrow> [] | Some a \<Rightarrow> if may_send msg (linkHeap w ! a) \<and> ba \<noteq> [] then [Write a ba i] else []) =
      {Write a ba i | a. x = Some a \<and> may_send msg (linkHeap w ! a)}" for x i
    by (cases x) (simp_all add: ne)
  have send: "\<exists>os. tcp_sendTo marshal peer msg w = Some os \<and>
      set os = {Write a ba (isImportant msg) | a ras ra. LinksAddrFromPeer w peer = Some ras \<and> ra \<in> set ras \<and>
        map_of (TcpLinks w) ra = Some a \<and> may_send msg (linkHeap w ! a)}"
  proof (cases "LinksAddrFromPeer w peer")
    case None then show ?thesis by (simp add: tcp_sendTo_def)
  next
    case (Some ras)
    let ?f = "\<lambda>ra. case map_of (TcpLinks w) ra of None \<Rightarrow> []
      | Some a \<Rightarrow> if may_send msg (linkHeap w ! a) \<and> ba \<noteq> [] then [Write a ba (isImportant msg)] else []"
    have 1: "tcp_sendTo marshal peer msg w = Some (concat (map ?f ras))" by (simp add: tcp_sendTo_def Some ba)
    have 2: "set (concat (map ?f ras)) = (\<Union>ra \<in> set ras. {Write a ba (isImportant msg) | a.
        map_of (TcpLinks w) ra = Some a \<and> may_send msg (linkHeap w ! a)})"
      by (simp only: set_concat set_map image_image one)
    show ?thesis by (rule exI, rule conjI, rule 1, subst 2) (auto simp: Some)
  qed
  have bcast: "\<exists>os. tcp_broadCast marshal msg w = Some os \<and>
      set os = {Write a ba (isImportant msg) | a. a \<in> snd ` set (TcpLinks w) \<and> may_send msg (linkHeap w ! a)}"
  proof -
    let ?f = "\<lambda>a. if may_send msg (linkHeap w ! a) then [Write a ba (isImportant msg)] else []"
    have 1: "tcp_broadCast marshal msg w = Some (concat (map ?f (GetAllConns w)))" by (simp add: tcp_broadCast_def ba ne)
    have "set (?f a) = (if may_send msg (linkHeap w ! a) then {Write a ba (isImportant msg)} else {})" for a by simp
    then have "set (concat (map ?f (GetAllConns w))) = {Write a ba (isImportant msg) | a.
        a \<in> snd ` set (TcpLinks w) \<and> may_send msg (linkHeap w ! a)}"
      by (simp only: set_concat set_map image_image GetAllConns_def) (auto split: if_splits)
    with 1 show ?thesis by (intro exI conjI)
  qed
  show ?thesis using ba send [unfolded may_send_def] bcast [unfolded may_send_def] by (intro exI [of _ ba] conjI)
qed

text \<open>Packages of a list processed one after the other: the outputs.\<close>

fun process_all ::
  "(byte list \<Rightarrow> Message option) \<Rightarrow> (string \<Rightarrow> string \<Rightarrow> string) \<Rightarrow> string \<Rightarrow> byte list list \<Rightarrow> TcpWorker \<Rightarrow> wk_out list option" where
  "process_all unmarshal hmac pra [] w = Some []"
| "process_all unmarshal hmac pra (d # ds) w = do {
     (w1, os) \<leftarrow> processPackage unmarshal hmac (pra, d) w;
     os' \<leftarrow> process_all unmarshal hmac pra ds w1;
     Some (os @ os') }"


section \<open>Connections that are replaced\<close>

text \<open>
  When a connection is replaced by a new one with the same remote address, the old connection is closed;
  when its reading thread ends, it removes the link of the new connection from the table and closes it.
\<close>

theorem replaced_connection_removes_successor:
  assumes "RegisterTcpLink t1 old acc w = (a1, w1, os1)" and "RegisterTcpLink t2 new acc' w1 = (a2, w2, os2)"
    and "connAddr new = connAddr old"
  shows "CloseConn old \<in> set os2 \<and> map_of (TcpLinks w2) (connAddr new) = Some a2 \<and>
    (\<exists>w3 os. read_thread_end old w2 = (w3, os) \<and> CloseConn new \<in> set os \<and> map_of (TcpLinks w3) (connAddr new) = None)"
proof -
  have h: "map_of (TcpLinks w1) (connAddr old) = Some a1" "a1 < length (linkHeap w1)" "LinkConn (linkHeap w1 ! a1) = old"
    using assms(1) by (auto simp: RegisterTcpLink_def Let_def new_link_def)
  have "os2 = [CloseConn old]" "map_of (TcpLinks w2) (connAddr new) = Some a2" "LinkConn (linkHeap w2 ! a2) = new"
    using assms(2,3) h by (auto simp: RegisterTcpLink_def Let_def new_link_def)
  then show ?thesis
    by (simp add: read_thread_end_def UnregisterTcpLink_def assms(3) delete_conv split_beta)
qed

section \<open>Reconnecting\<close>

text \<open>The rounds of a connecting thread that never gets a connection: failures and waits.\<close>

fun failing_rounds :: "nat \<Rightarrow> string \<Rightarrow> int \<Rightarrow> TcpWorker \<Rightarrow> int list" where
  "failing_rounds 0 raddr fails w = []"
| "failing_rounds (Suc n) raddr fails w =
     (let (raddr1, fails1, wait, start, os) = connect_round (\<lambda>_. None) raddr fails w in wait # failing_rounds n raddr1 fails1 w)"

lemma connect_round_fails:
  "map_of (TcpLinks w) raddr = None \<Longrightarrow>
    connect_round (\<lambda>_. None) raddr fails w = (raddr, count_failure False fails, backoff (count_failure False fails), None, [])"
  by (simp add: connect_round_def Let_def)

lemma failing_rounds_nth:
  assumes "map_of (TcpLinks w) raddr = None" and "0 \<le> fails" and "fails \<le> 50" and "k < n"
  shows "failing_rounds n raddr fails w ! k = backoff (min (fails + int k + 1) 50)"
  using assms
proof (induction n arbitrary: fails k)
  case (Suc n)
  have c: "count_failure False fails = min (fails + 1) 50" using Suc.prems(3) by (simp add: count_failure_def)
  show ?case
  proof (cases k)
    case 0 then show ?thesis by (simp add: connect_round_fails Suc.prems(1) c)
  next
    case (Suc j)
    then have "failing_rounds n raddr (min (fails + 1) 50) w ! j = backoff (min (min (fails + 1) 50 + int j + 1) 50)"
      using Suc.IH [of "min (fails + 1) 50" j] Suc.prems by simp
    moreover have "min (min (fails + 1) 50 + int j + 1) 50 = min (fails + int k + 1) 50" using Suc by auto
    ultimately show ?thesis by (simp add: connect_round_fails Suc.prems(1) c Suc)
  qed
qed simp

lemma wait_exact:
  assumes "0 \<le> x" and "x \<le> 34359738368"
  shows "i64 (i64 (i64 (2 * x) * 100) * 1000000) = 200000000 * x"
proof -
  have "i64 (2 * x) = 2 * x" "i64 (2 * x * 100) = 2 * x * 100" "i64 (2 * x * 100 * 1000000) = 2 * x * 100 * 1000000"
    using assms by (auto intro!: i64_id)
  then show ?thesis by simp
qed

text \<open>
  While a server is unreachable, the client waits 0.2 s, 0.4 s and so on up to 10 s between attempts. At
  the 37th failure the computation of the wait overflows; from the 47th on (where the count stops at 50) it
  is negative for ever, the sleep returns at once and the client dials in a loop without a pause.
\<close>

theorem reconnect_backoff_overflows:
  assumes "map_of (TcpLinks w) raddr = None" and "k < n"
  shows "(k < 36 \<longrightarrow> failing_rounds n raddr 0 w ! k = min (200000000 * 2 ^ k) 10000000000) \<and>
    (k = 36 \<or> 46 \<le> k \<longrightarrow> failing_rounds n raddr 0 w ! k < 0)"
proof -
  have f: "failing_rounds n raddr 0 w ! k = backoff (min (int k + 1) 50)"
    using failing_rounds_nth [of w raddr 0 k n] assms by simp
  have "backoff (int k + 1) = min (200000000 * 2 ^ k) 10000000000" if "k < 36"
  proof -
    have "(2 :: int) ^ k \<le> 2 ^ 35" using that by (intro power_increasing) simp_all
    then have b: "(2 :: int) ^ k \<le> 34359738368" by simp
    have p: "(0 :: int) \<le> 2 ^ k" by simp
    have n: "nat (int k + 1) = Suc k" by simp
    show ?thesis using wait_exact [OF p b] by (simp add: backoff_def n Let_def)
  qed
  moreover have "backoff 37 < 0" "backoff 47 < 0" "backoff 48 < 0" "backoff 49 < 0" "backoff 50 < 0"
    by (simp_all add: backoff_def i64_def)
  moreover have "min (int k + 1) 50 \<in> {47, 48, 49, 50}" if "46 \<le> k" using that by auto
  ultimately show ?thesis using f by auto
qed

section \<open>Concrete workers\<close>

definition ex_conn :: "string \<Rightarrow> nat \<Rightarrow> Conn" where
  "ex_conn addr i = \<lparr>connId = i, connAddr = addr, connCerts = []\<rparr>"

definition ex_worker :: TcpWorker where
  "ex_worker = (the (NewTcpConnection True True True Some ''w'' False [] 4096 10 0 5 ''k''))\<lparr>wkUser := Some ''me''\<rparr>"

text \<open>A stand-in for HMAC-MD5, and for the encoding of one registration.\<close>

definition ex_hmac :: "string \<Rightarrow> string \<Rightarrow> string" where
  "ex_hmac d t = t"

definition ex_registration :: Message where
  "ex_registration = register_message ex_hmac 7 9 ''k'' ''you''"

definition ex_unmarshal :: "byte list \<Rightarrow> Message option" where
  "ex_unmarshal d = (if d = [1] then Some ex_registration else if d = [2] then Some (zero_message\<lparr>LastSender := ''p''\<rparr>) else None)"

definition ex_marshal :: "Message \<Rightarrow> byte list" where
  "ex_marshal m = (if mType m = TcpRegister then [1] else [2])"

lemma ex_worker_eq: "ex_worker = \<lparr>wkName = ''w'', LinksAddrFromPeer = Map.empty, TcpLinks = [], TcpLinkLastActiveTimes = Map.empty,
    linkHeap = [], MaxFrameSize = 4096, RecvPackagesChan = [], wkClosed = False, wkUser = Some ''me'',
    ipWhitelist = [], Token = ''k'', MaxSendQueueSize = 0, MaxConnectionPerSecond = 5, MaxInactiveTime = 10, MaxRegistrationTime = 10\<rparr>"
  by (simp add: ex_worker_def NewTcpConnection_def List.map_filter_def)

text \<open>After accepting a connection; and after reading the frame of the registration.\<close>

definition ex_linked :: TcpWorker where
  "ex_linked = fst (snd (RegisterTcpLink 5 (ex_conn ''a:1'' 1) False ex_worker))"

definition ex_read :: TcpWorker where
  "ex_read = (TouchLink 6 (ex_conn ''a:1'' 1) (at_link 0 (\<lambda>l. l\<lparr>HasSendRegister := True\<rparr>) ex_linked))\<lparr>
     RecvPackagesChan := [(''a:1'', [1])]\<rparr>"

lemma ex_linked_fields: "TcpLinks ex_linked = [(''a:1'', 0)]" "length (linkHeap ex_linked) = 1"
  "linkHeap ex_linked ! 0 = new_link 5 (ex_conn ''a:1'' 1) False ex_worker" "Token ex_linked = ''k''"
  "wkUser ex_linked = Some ''me''" "LinksAddrFromPeer ex_linked = Map.empty" "MaxFrameSize ex_linked = 4096"
  "RecvPackagesChan ex_linked = []" "wkClosed ex_linked = False"
  by (simp_all add: ex_linked_def RegisterTcpLink_def ex_worker_eq Let_def ex_conn_def)

lemma ex_signed: "go_split (CHR ''|'') (signed_text ex_hmac ''k'' ''you'' (itoa 7) (itoa 9)) = [''you'', ''7'', ''9'', ''k'']"
  by code_simp

lemma ex_registration_fields: "mType ex_registration = TcpRegister" "mFrom ex_registration = ''you''"
  "topic_text (mData ex_registration) = signed_text ex_hmac ''k'' ''you'' (itoa 7) (itoa 9)"
  by (simp_all add: ex_registration_def register_message_def topic_text_def)

lemma ex_registers:
  assumes "map_of (TcpLinks w) pra = Some a" and "TlsServerName (linkHeap w ! a) = []" and "Token w = ''k''" and "wkUser w = Some ''me''"
  shows "handleRegisterMessage ex_hmac pra ex_registration w = Some (at_link a (\<lambda>l. l\<lparr>HasRecvRegister := True\<rparr>) w, [])"
  using assms by (simp add: handleRegisterMessage_def ex_registration_fields ex_signed HMACMD5Verify_def ex_hmac_def)

lemma ex_frame: "frame_size_ok 4096" "max_data_size 4096 = 4092"
  by (simp_all add: frame_size_ok_def max_data_size_def)

lemma ex_frame1: "wrapToDataFrame 4096 [b] = Some [2, 0, 0, 1, b]"
  by (simp add: wrapToDataFrame_ok [OF ex_frame(1)] ex_frame(2) wrap_loop.simps frame_head_def)

theorem link_registered_only_by_signature_witness:
  "\<exists>d. (''a:1'', d) \<in> set [(''a:1'', [1])] \<and> registering ex_unmarshal ex_hmac ''k'' ''me'' d"
proof -
  define w0 where "w0 = ex_worker\<lparr>wkUser := None\<rparr>"
  have new: "NewTcpConnection True True True Some ''w'' False [] 4096 10 0 5 ''k'' = Some w0"
    by (simp add: NewTcpConnection_def w0_def ex_worker_eq List.map_filter_def)
  have w0: "w0\<lparr>wkUser := Some ''me''\<rparr> = ex_worker" by (simp add: w0_def ex_worker_eq)
  have 1: "wk_reach ex_marshal ex_unmarshal ex_hmac ex_worker [] ex_linked"
    by (rule wk_register [OF wk_init, where os = "[]" and a = 0 and conn = "ex_conn ''a:1'' 1" and now = 5 and acc = False])
      (simp add: ex_linked_def RegisterTcpLink_def ex_worker_eq Let_def)
  have hello: "trySendRegisterMessage ex_marshal ex_hmac 6 9 0 ex_linked =
      Some (at_link 0 (\<lambda>l. l\<lparr>HasSendRegister := True\<rparr>) ex_linked, [Write 0 [2, 0, 0, 1, 1] True])"
    by (simp add: trySendRegisterMessage_def ex_linked_fields new_link_def ex_marshal_def register_message_def ex_frame1)
  have rd: "read_round [] [[2, 0, 0, 1, 1]] = Some ([], Some [1], [])"
    by (simp add: read_round_def read_full.simps frame_length_def)
  have 2: "wk_reach ex_marshal ex_unmarshal ex_hmac ex_worker [] ex_read"
    by (rule wk_read [OF 1, where now = 6 and nonce = 9 and a = 0 and conn = "ex_conn ''a:1'' 1" and buf = "[]" and
        bytes = "[[2, 0, 0, 1, 1]]"])
      (simp add: read_thread_round_def hello rd ex_linked_fields ex_read_def TouchLink_def at_link_def Let_def ex_conn_def)
  define v where "v = ex_read\<lparr>RecvPackagesChan := []\<rparr>"
  have v: "TcpLinks v = [(''a:1'', 0)]" "TlsServerName (linkHeap v ! 0) = []" "Token v = ''k''" "wkUser v = Some ''me''"
    "length (linkHeap v) = 1"
    by (simp_all add: v_def ex_read_def TouchLink_def at_link_def ex_linked_fields new_link_def ex_conn_def)
  define w3 where "w3 = at_link 0 (\<lambda>l. l\<lparr>HasRecvRegister := True\<rparr>) v"
  have 3: "wk_reach ex_marshal ex_unmarshal ex_hmac ex_worker [(''a:1'', [1])] w3"
  proof (rule wk_process [OF 2])
    show "RecvPackagesChan ex_read = (''a:1'', [1]) # []" by (simp add: ex_read_def)
    show "message_processor_round ex_unmarshal ex_hmac ex_read = Some (w3, [])"
      using ex_registers [of v "''a:1''" 0] v
      by (simp add: message_processor_round_def ex_read_def processPackage_def ex_unmarshal_def ex_registration_fields(1)
          w3_def) (simp add: v_def ex_read_def)
  qed
  have "map_of (TcpLinks w3) ''a:1'' = Some 0" "HasRecvRegister (linkHeap w3 ! 0)"
    using v by (simp_all add: w3_def at_link_nth)
  with link_registered_only_by_signature [OF new 3 [folded w0]] show ?thesis by blast
qed

theorem registration_can_be_replayed_witness:
  "\<exists>v1. handleRegisterMessage ex_hmac ''a:1'' (ex_registration\<lparr>mFrom := ''eve''\<rparr>) ex_linked = Some (v1, []) \<and>
    HasRecvRegister (linkHeap v1 ! 0)"
proof -
  have h: "handleRegisterMessage ex_hmac ''a:1'' ex_registration ex_linked =
      Some (at_link 0 (\<lambda>l. l\<lparr>HasRecvRegister := True\<rparr>) ex_linked, [])"
    by (rule ex_registers) (simp_all add: ex_linked_fields new_link_def ex_conn_def)
  have "linkHeap (at_link 0 (\<lambda>l. l\<lparr>HasRecvRegister := True\<rparr>) ex_linked) ! 0 \<noteq> linkHeap ex_linked ! 0"
    by (simp add: at_link_nth ex_linked_fields new_link_def)
  then have "at_link 0 (\<lambda>l. l\<lparr>HasRecvRegister := True\<rparr>) ex_linked \<noteq> ex_linked" by metis
  from registration_can_be_replayed [OF h this, of ex_linked "''a:1''" 0 "''me''" "''eve''"]
  show ?thesis by (simp add: ex_linked_fields new_link_def ex_conn_def)
qed

theorem sends_only_on_registered_links_witness:
  "\<exists>os. tcp_broadCast ex_marshal zero_message ex_linked = Some os \<and> set os = {}"
proof -
  have "frame_size_ok (MaxFrameSize ex_linked)" "ex_marshal zero_message \<noteq> []"
    by (simp_all add: ex_linked_fields ex_frame ex_marshal_def)
  from sends_only_on_registered_links [where w = ex_linked and marshal = ex_marshal and msg = zero_message
      and peer = "''p''", OF this]
  obtain ba os where b: "tcp_broadCast ex_marshal zero_message ex_linked = Some os"
    and os: "set os = {Write a ba (isImportant zero_message) | a. a \<in> snd ` set (TcpLinks ex_linked) \<and>
        (HasRecvRegister (linkHeap ex_linked ! a) \<or> mType zero_message = TcpRegister)}"
    by (elim exE conjE) (rule that)
  have "set os = {}" unfolding os by (simp add: ex_linked_fields new_link_def zero_message_def)
  with b show ?thesis by simp
qed


theorem replaced_connection_removes_successor_witness:
  "\<exists>w3 os. read_thread_end (ex_conn ''a:1'' 1) (fst (snd (RegisterTcpLink 8 (ex_conn ''a:1'' 2) False ex_linked))) = (w3, os) \<and>
    CloseConn (ex_conn ''a:1'' 2) \<in> set os"
proof -
  obtain a1 o1 where 1: "RegisterTcpLink 5 (ex_conn ''a:1'' 1) False ex_worker = (a1, ex_linked, o1)"
    unfolding ex_linked_def by (metis prod.collapse)
  obtain a2 w2 o2 where 2: "RegisterTcpLink 8 (ex_conn ''a:1'' 2) False ex_linked = (a2, w2, o2)"
    by (metis prod.collapse)
  have "fst (snd (RegisterTcpLink 8 (ex_conn ''a:1'' 2) False ex_linked)) = w2" by (simp add: 2)
  with replaced_connection_removes_successor [OF 1 2] show ?thesis by (auto simp: ex_conn_def)
qed

theorem reconnect_backoff_overflows_witness: "failing_rounds 60 ''s:1'' 0 ex_worker ! 46 < 0"
  using reconnect_backoff_overflows [of ex_worker "''s:1''" 46 60] by (simp add: ex_worker_eq)

end
