(* ===== verification/Worker_Kcp.thy ===== *)
theory Worker_Kcp
  imports Worker_Links
begin

text \<open>
  core/KCPChannelWorker.go: the same transport over KCP sessions (reliable UDP, a third-party package), in
  large parts the same text as core/TCPChannelWorker.go. A session is a connection without certificates, and
  the two structs have the fields of \<open>TcpWorker\<close> and \<open>TcpLink\<close>. Operations whose text is the same are the
  operations of theory \<open>Worker_Tcp\<close>; the others are defined here:

  \<^item> the white list compares addresses after cutting off the port;
  \<^item> the queues have a fixed capacity, and unregistered links are removed after 30 seconds;
  \<^item> a message that registers is sent to a peer only over a registered link;
  \<^item> there is no TLS, and the address that is dialed never changes;
  \<^item> processing a package asks for the user only when it registers.
\<close>

type_synonym KcpWorker = TcpWorker
type_synonym KcpLink = TcpLink

definition NewKcpConnection ::
  "bool \<Rightarrow> string \<Rightarrow> bool \<Rightarrow> string list \<Rightarrow> int \<Rightarrow> int \<Rightarrow> int \<Rightarrow> int \<Rightarrow> string \<Rightarrow> KcpWorker option" where
  "NewKcpConnection listens name isClient whitelist maxFrameSize maxInactiveDlt maxSendQueueSize maxConnectionPerSeconds token =
     (if \<not> isClient \<and> \<not> listens then None
      else Some \<lparr>wkName = name, LinksAddrFromPeer = Map.empty, TcpLinks = [], TcpLinkLastActiveTimes = Map.empty,
        linkHeap = [], MaxFrameSize = word_of_int maxFrameSize, RecvPackagesChan = [], wkClosed = False, wkUser = None,
        ipWhitelist = whitelist, Token = token, MaxSendQueueSize = maxSendQueueSize,
        MaxConnectionPerSecond = maxConnectionPerSeconds, MaxInactiveTime = maxInactiveDlt, MaxRegistrationTime = 30\<rparr>)"

section \<open>Accepting and connecting\<close>

text \<open>The address without its port, for ports of one, two and four digits.\<close>

definition colon_at :: "nat \<Rightarrow> string \<Rightarrow> bool" where
  "colon_at k s \<longleftrightarrow> k < length s \<and> s ! (length s - k) = CHR '':''"

definition remote_ip :: "string \<Rightarrow> string" where
  "remote_ip addr =
     (if colon_at 2 addr then take (length addr - 2) addr
      else if colon_at 3 addr then take (length addr - 3) addr
      else if colon_at 5 addr then take (length addr - 5) addr
      else addr)"

definition kcp_whitelisted :: "KcpWorker \<Rightarrow> Conn \<Rightarrow> bool" where
  "kcp_whitelisted w sess \<longleftrightarrow> ipWhitelist w = [] \<or> remote_ip (connAddr sess) \<in> set (ipWhitelist w)"

definition kcp_accept_round :: "bool \<Rightarrow> Conn \<Rightarrow> KcpWorker \<Rightarrow> wk_out list \<times> bool" where
  "kcp_accept_round allow sess w =
     (if \<not> kcp_whitelisted w sess then ([CloseConn sess], False)
      else if 0 < MaxConnectionPerSecond w \<and> \<not> allow then ([CloseConn sess], False)
      else (if wkUser w \<noteq> None then [ConnectChanged True] else [], True))"

definition kcp_connect_round ::
  "(string \<Rightarrow> Conn option) \<Rightarrow> string \<Rightarrow> int \<Rightarrow> KcpWorker \<Rightarrow> int \<times> int \<times> Conn option \<times> wk_out list" where
  "kcp_connect_round dial remoteAddr fails w =
     (let (sess, start) = (case map_of (TcpLinks w) remoteAddr of
          Some a \<Rightarrow> (Some (LinkConn (linkHeap w ! a)), None)
        | None \<Rightarrow> (dial remoteAddr, dial remoteAddr));
        fails1 = count_failure (sess \<noteq> None) fails
      in (fails1, backoff fails1, start, if start \<noteq> None \<and> wkUser w \<noteq> None then [ConnectChanged True] else []))"

section \<open>Links\<close>

definition kcp_new_link :: "int \<Rightarrow> Conn \<Rightarrow> bool \<Rightarrow> KcpWorker \<Rightarrow> KcpLink" where
  "kcp_new_link now sess accepted w = \<lparr>LinkConn = sess, StartTime = now, HasSendRegister = False, HasRecvRegister = False,
     Accepted = accepted, ImportantWriteChan = [], NormalWriteChan = [], NormalCap = 128,
     DropNormalPkgOnQueueFull = 0 < MaxSendQueueSize w, TlsServerName = []\<rparr>"

definition RegisterKcpLink :: "int \<Rightarrow> Conn \<Rightarrow> bool \<Rightarrow> KcpWorker \<Rightarrow> nat \<times> KcpWorker \<times> wk_out list" where
  "RegisterKcpLink now sess accepted w =
     (let a = length (linkHeap w) in
      (a, w\<lparr>linkHeap := linkHeap w @ [kcp_new_link now sess accepted w],
            TcpLinks := AList.update (connAddr sess) a (TcpLinks w),
            TcpLinkLastActiveTimes := (TcpLinkLastActiveTimes w)(connAddr sess \<mapsto> now)\<rparr>,
       case map_of (TcpLinks w) (connAddr sess) of None \<Rightarrow> [] | Some b \<Rightarrow> [CloseConn (LinkConn (linkHeap w ! b))]))"

definition UnregisterKcpLink :: "Conn \<Rightarrow> KcpWorker \<Rightarrow> KcpWorker \<times> wk_out list" where
  "UnregisterKcpLink = UnregisterTcpLink"

definition TouchKcpLink :: "int \<Rightarrow> Conn \<Rightarrow> KcpWorker \<Rightarrow> KcpWorker" where
  "TouchKcpLink = TouchLink"

definition DeleteInactiveKcpLink :: "int \<Rightarrow> KcpWorker \<Rightarrow> Conn list \<times> KcpWorker" where
  "DeleteInactiveKcpLink = DeleteInactiveLink"

definition DeleteInactiveKcpLinkForce :: "KcpWorker \<Rightarrow> Conn list \<times> KcpWorker" where
  "DeleteInactiveKcpLinkForce = DeleteInactiveLinkForce"

definition kcp_cleanup_tick :: "int \<Rightarrow> KcpWorker \<Rightarrow> KcpWorker \<times> wk_out list" where
  "kcp_cleanup_tick now w = (let (cs, w1) = DeleteInactiveKcpLink now w in (w1, map CloseConn cs))"

definition kcp_Close :: "bool \<Rightarrow> KcpWorker \<Rightarrow> (KcpWorker \<times> wk_out list) option" where
  "kcp_Close = worker_Close"

definition kcp_GetAllConns :: "KcpWorker \<Rightarrow> nat list" where
  "kcp_GetAllConns = GetAllConns"

section \<open>Writing and sending\<close>

definition kcp_wrapToDataFrame :: "32 word \<Rightarrow> byte list \<Rightarrow> byte list option" where
  "kcp_wrapToDataFrame = wrapToDataFrame"

definition kcp_WriteTo :: "byte list \<Rightarrow> bool \<Rightarrow> KcpLink \<Rightarrow> KcpLink option" where
  "kcp_WriteTo ba important l =
     (if important then
        (if length (ImportantWriteChan l) < 128 then Some (l\<lparr>ImportantWriteChan := ImportantWriteChan l @ [ba]\<rparr>) else None)
      else if length (NormalWriteChan l) < NormalCap l then Some (l\<lparr>NormalWriteChan := NormalWriteChan l @ [ba]\<rparr>)
      else if DropNormalPkgOnQueueFull l then Some l else None)"

definition kcp_write_thread_round :: "bool \<Rightarrow> int \<Rightarrow> KcpLink \<Rightarrow> (int \<times> KcpLink \<times> wk_out list) option" where
  "kcp_write_thread_round = write_thread_round"

definition kcp_sendTo :: "(Message \<Rightarrow> byte list) \<Rightarrow> string \<Rightarrow> Message \<Rightarrow> KcpWorker \<Rightarrow> wk_out list option" where
  "kcp_sendTo marshal nextHopNodeId msg w = (case LinksAddrFromPeer w nextHopNodeId of
       None \<Rightarrow> Some []
     | Some ras \<Rightarrow> do {
         ba \<leftarrow> kcp_wrapToDataFrame (MaxFrameSize w) (marshal msg);
         Some (concat (map (\<lambda>ra. case map_of (TcpLinks w) ra of
             None \<Rightarrow> []
           | Some a \<Rightarrow> if HasRecvRegister (linkHeap w ! a) \<and> ba \<noteq> [] then [Write a ba (isImportant msg)] else []) ras)) })"

definition kcp_broadCast :: "(Message \<Rightarrow> byte list) \<Rightarrow> Message \<Rightarrow> KcpWorker \<Rightarrow> wk_out list option" where
  "kcp_broadCast = tcp_broadCast"

definition kcp_trySendRegisterMessage ::
  "(Message \<Rightarrow> byte list) \<Rightarrow> (string \<Rightarrow> string \<Rightarrow> string) \<Rightarrow> int \<Rightarrow> int \<Rightarrow> nat \<Rightarrow> KcpWorker \<Rightarrow> (KcpWorker \<times> wk_out list) option" where
  "kcp_trySendRegisterMessage = trySendRegisterMessage"

section \<open>Receiving\<close>

definition kcp_read_thread_round ::
  "(Message \<Rightarrow> byte list) \<Rightarrow> (string \<Rightarrow> string \<Rightarrow> string) \<Rightarrow> int \<Rightarrow> int \<Rightarrow> nat \<Rightarrow> Conn \<Rightarrow> byte list \<Rightarrow> byte list list \<Rightarrow> KcpWorker \<Rightarrow>
     (byte list \<times> byte list list \<times> KcpWorker \<times> wk_out list) option option" where
  "kcp_read_thread_round marshal hmac now nonce a sess buf bytes w = do {
     (w1, os) \<leftarrow> kcp_trySendRegisterMessage marshal hmac now nonce a w;
     Some (case read_round buf bytes of
          None \<Rightarrow> None
        | Some (buf1, data, bytes1) \<Rightarrow>
            let w2 = TouchKcpLink now sess w1 in
            Some (buf1, bytes1, (case data of
                Some d \<Rightarrow> if wkClosed w2 then w2 else w2\<lparr>RecvPackagesChan := RecvPackagesChan w2 @ [(connAddr sess, d)]\<rparr>
              | None \<Rightarrow> w2), os)) }"

definition kcp_checkHash :: "(string \<Rightarrow> string) \<Rightarrow> Message \<Rightarrow> KcpWorker \<Rightarrow> bool" where
  "kcp_checkHash = checkHash"

definition kcp_handleRegisterMessage ::
  "(string \<Rightarrow> string \<Rightarrow> string) \<Rightarrow> string \<Rightarrow> Message \<Rightarrow> KcpWorker \<Rightarrow> (KcpWorker \<times> wk_out list) option" where
  "kcp_handleRegisterMessage hmac pra msg w =
     (if mType msg \<noteq> TcpRegister then Some (w, [])
      else let parts = go_split (CHR ''|'') (topic_text (mData msg)) in
        if length parts \<noteq> 4 then Some (w, close_at_addr pra w)
        else if \<not> HMACMD5Verify hmac (parts ! 0 @ ''|'' @ parts ! 1 @ ''|'' @ parts ! 2) (Token w) (parts ! 3)
          then Some (w, close_at_addr pra w)
        else (case wkUser w of
          None \<Rightarrow> None
        | Some own \<Rightarrow>
            if mFrom msg = own then Some (w, close_at_addr pra w)
            else (case map_of (TcpLinks w) pra of
                None \<Rightarrow> Some (w, [])
              | Some a \<Rightarrow> Some (at_link a (\<lambda>l. l\<lparr>HasRecvRegister := True\<rparr>) w, []))))"

definition kcp_handleNormalMessage :: "string \<Rightarrow> Message \<Rightarrow> KcpWorker \<Rightarrow> KcpWorker \<times> wk_out list" where
  "kcp_handleNormalMessage = handleNormalMessage"

definition kcp_processPackage ::
  "(byte list \<Rightarrow> Message option) \<Rightarrow> (string \<Rightarrow> string \<Rightarrow> string) \<Rightarrow> string \<times> byte list \<Rightarrow> KcpWorker \<Rightarrow>
     (KcpWorker \<times> wk_out list) option" where
  "kcp_processPackage unmarshal hmac pkg w = (let (pra, d) = pkg in
     if d = [] then Some (w, [])
     else (case unmarshal d of
         None \<Rightarrow> Some (w, [])
       | Some msg \<Rightarrow>
           if mType msg = TcpRegister then kcp_handleRegisterMessage hmac pra msg w
           else Some (kcp_handleNormalMessage pra msg w)))"

definition kcp_message_processor_round ::
  "(byte list \<Rightarrow> Message option) \<Rightarrow> (string \<Rightarrow> string \<Rightarrow> string) \<Rightarrow> KcpWorker \<Rightarrow> (KcpWorker \<times> wk_out list) option" where
  "kcp_message_processor_round unmarshal hmac w = (case RecvPackagesChan w of
       [] \<Rightarrow> Some (w, [])
     | pkg # pkgs \<Rightarrow> kcp_processPackage unmarshal hmac pkg (w\<lparr>RecvPackagesChan := pkgs\<rparr>))"

section \<open>White lists\<close>

lemma colon_at_port:
  assumes "list_all is_digit port" and "0 < k" and "k \<le> length port"
  shows "\<not> colon_at k (ip @ CHR '':'' # port)"
proof -
  have "length (ip @ CHR '':'' # port) - k = length ip + Suc (length port - k)" using assms(2,3) by simp
  then have "(ip @ CHR '':'' # port) ! (length (ip @ CHR '':'' # port) - k) = port ! (length port - k)"
    by (simp only: nth_append_length_plus nth_Cons_Suc)
  moreover have "is_digit (port ! (length port - k))"
    using assms by (simp add: list_all_length)
  ultimately show ?thesis by (metis colon_at_def not_digit(1))
qed

lemma colon_at_end: "ip \<noteq> [] \<Longrightarrow> colon_at (Suc (length port)) (ip @ CHR '':'' # port)"
  by (simp add: colon_at_def nth_append)

text \<open>
  An address on the white list of a KCP worker is admitted when its port has one, two or four digits and
  refused when it has three or five, as the ports that operating systems give to clients have. The white list
  of a TCP worker compares beginnings: it also admits every address that begins with a listed one.
\<close>

theorem whitelists_misjudge:
  assumes digits: "list_all is_digit port" and conn: "connAddr conn = ip @ '':'' @ port"
    and ip: "ip \<noteq> []" "last ip \<noteq> CHR '':''" and whole: "connAddr conn \<notin> set (ipWhitelist w)"
    and listed: "listed \<in> set (ipWhitelist w)" "ip = listed @ rest"
  shows "whitelisted w conn \<and>
    (rest = [] \<and> length port \<in> {1, 2, 4} \<longrightarrow> kcp_whitelisted w conn) \<and>
    (length port \<in> {3, 5} \<longrightarrow> \<not> kcp_whitelisted w conn)"
proof -
  let ?addr = "ip @ CHR '':'' # port"
  have addr: "connAddr conn = ?addr" using conn by simp
  note no = colon_at_port [OF digits, of _ ip]
  have cut: "remote_ip ?addr = ip" if l: "length port \<in> {1, 2, 4}"
  proof -
    consider "length port = 1" | "length port = 2" | "length port = 4" using l by auto
    then show ?thesis
    proof cases
      case 1 then show ?thesis using colon_at_end [OF ip(1), of port] by (simp add: remote_ip_def numeral_2_eq_2)
    next
      case 2 then show ?thesis using colon_at_end [OF ip(1), of port] no [of 2] by (simp add: remote_ip_def numeral_3_eq_3)
    next
      case 3 then show ?thesis
        using colon_at_end [OF ip(1), of port] no [of 2] no [of 3] by (simp add: remote_ip_def)
    qed
  qed
  have keep: "remote_ip ?addr = ?addr" if l: "length port \<in> {3, 5}"
  proof -
    consider "length port = 3" | "length port = 5" using l by auto
    then show ?thesis
    proof cases
      case 1
      have "?addr ! (length ?addr - 5) = last ip"
        using 1 ip(1) by (simp add: nth_append last_conv_nth)
      then have "\<not> colon_at 5 ?addr" using ip(2) by (simp add: colon_at_def)
      then show ?thesis using 1 no [of 2] no [of 3] by (simp add: remote_ip_def)
    next
      case 2
      then show ?thesis using no [of 2] no [of 3] no [of 5] by (simp add: remote_ip_def)
    qed
  qed
  have "prefix listed (connAddr conn)" using listed(2) addr by simp
  then have "whitelisted w conn" using listed(1) unfolding whitelisted_def by blast
  moreover have "kcp_whitelisted w conn" if "rest = []" "length port \<in> {1, 2, 4}"
    using cut [OF that(2)] that(1) listed addr by (simp add: kcp_whitelisted_def)
  moreover have "\<not> kcp_whitelisted w conn" if l: "length port \<in> {3, 5}"
    using keep [OF l] whole listed(1) addr by (auto simp: kcp_whitelisted_def)
  ultimately show ?thesis by blast
qed

theorem whitelists_misjudge_witness:
  "whitelisted (ex_worker\<lparr>ipWhitelist := [''10.0.0.1'']\<rparr>) (ex_conn ''10.0.0.15:50000'' 1) \<and>
   \<not> kcp_whitelisted (ex_worker\<lparr>ipWhitelist := [''10.0.0.1'']\<rparr>) (ex_conn ''10.0.0.1:50000'' 1)"
proof -
  let ?w = "ex_worker\<lparr>ipWhitelist := [''10.0.0.1'']\<rparr>"
  have p: "list_all is_digit ''50000''" "length ''50000'' \<in> {3, 5 :: nat}" by (simp_all add: is_digit_def)
  have a1: "connAddr (ex_conn ''10.0.0.15:50000'' 1) = ''10.0.0.15'' @ '':'' @ ''50000''"
    "connAddr (ex_conn ''10.0.0.1:50000'' 1) = ''10.0.0.1'' @ '':'' @ ''50000''"
    "connAddr (ex_conn ''10.0.0.15:50000'' 1) \<notin> set (ipWhitelist ?w)"
    "connAddr (ex_conn ''10.0.0.1:50000'' 1) \<notin> set (ipWhitelist ?w)" "''10.0.0.1'' \<in> set (ipWhitelist ?w)"
    by (simp_all add: ex_conn_def)
  have a2: "''10.0.0.15'' \<noteq> []" "last ''10.0.0.15'' \<noteq> CHR '':''" "''10.0.0.15'' = ''10.0.0.1'' @ ''5''"
    "''10.0.0.1'' \<noteq> []" "last ''10.0.0.1'' \<noteq> CHR '':''" "''10.0.0.1'' = ''10.0.0.1'' @ []"
    by simp_all
  from whitelists_misjudge [OF p(1) a1(1) a2(1,2) a1(3,5) a2(3)]
    whitelists_misjudge [OF p(1) a1(2) a2(4,5) a1(4,5) a2(6)] p(2)
  show ?thesis by (elim conjE) (intro conjI, assumption, blast)
qed

end
