(* ===== verification/Net_Channel.thy ===== *)
theory Net_Channel
  imports Net_Send
begin

text \<open>
  core/Channel.go: a channel of a node, the peers it hears and the measurement of link costs; and
  core/SimpleChannelWorker.go, the in-process transport. The transport behind a channel is a
  parameter: what is handed to it is an output (\<open>WorkerSend\<close>, \<open>WorkerBroadcast\<close>).
\<close>

section \<open>Channels\<close>

definition NewChannel :: Channel where
  "NewChannel = \<lparr>chID = [], ChannelPeers = []\<rparr>"

definition NewChannelFull :: "string \<Rightarrow> Channel" where
  "NewChannelFull pId = \<lparr>chID = pId, ChannelPeers = []\<rparr>"

definition updateSendTime :: "int \<Rightarrow> string \<Rightarrow> Channel \<Rightarrow> Channel" where
  "updateSendTime now peerID ch = ch\<lparr>ChannelPeers := AList.update peerID
     (case map_of (ChannelPeers ch) peerID of
        Some conn \<Rightarrow> conn\<lparr>LastSendTime := now\<rparr>
      | None \<Rightarrow> \<lparr>LastRecvTime = now, LastSendTime = now\<rparr>) (ChannelPeers ch)\<rparr>"

definition updateRecvTime :: "int \<Rightarrow> string \<Rightarrow> Channel \<Rightarrow> Channel" where
  "updateRecvTime now peerID ch = ch\<lparr>ChannelPeers := AList.update peerID
     (case map_of (ChannelPeers ch) peerID of
        Some conn \<Rightarrow> conn\<lparr>LastRecvTime := now\<rparr>
      | None \<Rightarrow> \<lparr>LastRecvTime = now, LastSendTime = now\<rparr>) (ChannelPeers ch)\<rparr>"

definition addChannelPeer :: "int \<Rightarrow> string \<Rightarrow> Channel \<Rightarrow> Channel" where
  "addChannelPeer now peerId ch = ch\<lparr>ChannelPeers := AList.update peerId
     \<lparr>LastRecvTime = now, LastSendTime = now\<rparr> (ChannelPeers ch)\<rparr>"

definition ch_broadCast :: "int \<Rightarrow> Message \<Rightarrow> Channel \<Rightarrow> Channel \<times> net_out list" where
  "ch_broadCast now msg ch = (fold (updateSendTime now) (map fst (ChannelPeers ch)) ch,
     [WorkerBroadcast (chID ch) msg])"

definition ch_send :: "int \<Rightarrow> string \<Rightarrow> Message \<Rightarrow> Channel \<Rightarrow> Channel \<times> net_out list" where
  "ch_send now nextHopNodeId msg ch =
     (updateSendTime now nextHopNodeId ch, [WorkerSend (chID ch) nextHopNodeId msg])"

text \<open>\<open>hostID\<close> is the id of the node that owns the channel.\<close>

definition ch_onRecv :: "string \<Rightarrow> int \<Rightarrow> string \<Rightarrow> Message \<Rightarrow> Channel \<Rightarrow> Channel \<times> net_out list" where
  "ch_onRecv hostID now sourceNodeId msg ch =
     (if sourceNodeId = hostID then (ch, [])
      else (updateRecvTime now sourceNodeId ch,
        [Go (case mType msg of
            CostRequest \<Rightarrow> T_channelCostRequest (chID ch) sourceNodeId msg
          | CostAck \<Rightarrow> T_channelCostAck (chID ch) sourceNodeId msg
          | Hello \<Rightarrow> T_channelHello (chID ch) sourceNodeId msg
          | HeartBeat \<Rightarrow> T_channelHeartbeat (chID ch) sourceNodeId msg
          | _ \<Rightarrow> T_onRecv sourceNodeId msg)]))"

definition ch_handleHeartbeat :: "string \<Rightarrow> Message \<Rightarrow> net_out list" where
  "ch_handleHeartbeat sourceNodeId msg = [Go (T_onRecv sourceNodeId msg)]"

section \<open>Measuring costs\<close>

text \<open>The \<open>CostRequest\<close> that \<open>handleHello\<close> and \<open>checkCost\<close> build.\<close>

definition costRequest :: "string \<Rightarrow> int \<Rightarrow> string \<Rightarrow> Message" where
  "costRequest hostID timestamp peerID = zero_message\<lparr>mType := CostRequest, mData := Text (itoa timestamp),
     mFrom := hostID, mTo := peerID, mRoute := peerID, mTTL := 1, LastSender := hostID\<rparr>"

definition handleHello :: "string \<Rightarrow> int \<Rightarrow> string \<Rightarrow> Message \<Rightarrow> Channel \<Rightarrow> Channel \<times> net_out list" where
  "handleHello hostID now sourceNodeId msg ch =
     (addChannelPeer now sourceNodeId ch,
      [Go (T_onRecv sourceNodeId msg), SendOn (chID ch) sourceNodeId (costRequest hostID now sourceNodeId)])"

definition CostCheckTimePeriod :: int where "CostCheckTimePeriod = 1000000000"

definition peer_expired :: "int \<Rightarrow> Connection \<Rightarrow> bool" where
  "peer_expired now conn \<longleftrightarrow> CostCheckTimePeriod * 20 < now - LastRecvTime conn"

definition checkCost :: "string \<Rightarrow> int \<Rightarrow> Channel \<Rightarrow> Channel \<times> net_out list" where
  "checkCost hostID now ch =
     (let expiredPeers = map fst (filter (\<lambda>(_, conn). peer_expired now conn) (ChannelPeers ch));
          ch1 = ch\<lparr>ChannelPeers := fold AList.delete expiredPeers (ChannelPeers ch)\<rparr>
      in (ch1, map (\<lambda>(peerID, _). SendOn (chID ch) peerID (costRequest hostID now peerID)) (ChannelPeers ch1)))"

definition handleCostRequest :: "string \<Rightarrow> string \<Rightarrow> Message \<Rightarrow> Channel \<Rightarrow> net_out list" where
  "handleCostRequest hostID source msg ch = [SendOn (chID ch) source
     (zero_message\<lparr>mType := CostAck, mData := mData msg, mFrom := hostID, mTo := source, mRoute := source,
        mTTL := 1, LastSender := hostID\<rparr>)]"

definition handleCostAck :: "'d Node \<Rightarrow> int \<Rightarrow> string \<Rightarrow> Message \<Rightarrow> Channel \<Rightarrow> net_out list" where
  "handleCostAck hNode now source msg ch = (case mData msg of
       Text s \<Rightarrow>
         (let (costTime, err) = ParseInt s in
          if err then []
          else [Go (T_linkUpdateFromChannel \<lparr>Source = nID hNode, Target = source, Cost = i64 (now - costTime),
                 Version = MyLinksVersion hNode, lkChannel = chID ch, LastUpdateTime = 0\<rparr>)])
     | _ \<Rightarrow> [])"

definition onConnectChanged :: "string \<Rightarrow> bool \<Rightarrow> Channel \<Rightarrow> net_out list" where
  "onConnectChanged hostID connected ch = (if connected
     then [WorkerBroadcast (chID ch) (zero_message\<lparr>mType := Hello, mData := Text hostID, mFrom := hostID,
        mTTL := 1, LastSender := hostID\<rparr>)]
     else [])"

section \<open>The in-process transport (core/SimpleChannelWorker.go)\<close>

text \<open>
  The users are the node ids of the channels that share the worker. A delivery is the call
  \<open>user.onRecv(msg.From, msg)\<close> after the simulated delay: the source it reports is the origin of the
  message, also when a neighbour has forwarded it.
\<close>

record SimpleChannelWorker =
  ChannelUsers :: "string list"

definition newSimpleChannelWorker :: SimpleChannelWorker where
  "newSimpleChannelWorker = \<lparr>ChannelUsers = []\<rparr>"

definition addChannelUser :: "string \<Rightarrow> SimpleChannelWorker \<Rightarrow> SimpleChannelWorker" where
  "addChannelUser pNodeId w = w\<lparr>ChannelUsers := List.insert pNodeId (ChannelUsers w)\<rparr>"

definition simple_sendTo :: "string \<Rightarrow> Message \<Rightarrow> SimpleChannelWorker \<Rightarrow> (string \<times> string \<times> Message) list" where
  "simple_sendTo nextHopNodeId msg w =
     (if nextHopNodeId \<in> set (ChannelUsers w) then [(nextHopNodeId, mFrom msg, msg)] else [])"

definition simple_broadCast :: "Message \<Rightarrow> SimpleChannelWorker \<Rightarrow> (string \<times> string \<times> Message) list" where
  "simple_broadCast msg w = map (\<lambda>user. (user, mFrom msg, msg)) (ChannelUsers w)"

section \<open>Properties\<close>

text \<open>
  The cost of a link is the measured round trip: a request sent by \<open>checkCost\<close> (or \<open>handleHello\<close>)
  at time \<open>t0\<close>, answered by the peer and acknowledged at \<open>t1\<close>, makes \<open>linkUpdateFromChannel\<close> store a link
  from this node to the peer over this channel with cost \<open>t1 - t0\<close>, and changes no other link.
  When the cost differs from the stored one the new link replaces it with its version, even a lower one.
\<close>

theorem link_cost_is_round_trip:
  assumes "in_i64 t0" and "in_i64 (t1 - t0)"
  shows "\<exists>l ack. handleCostRequest peer (nID n) (costRequest (nID n) t0 peer) chp = [SendOn (chID chp) (nID n) ack] \<and>
    handleCostAck n t1 peer ack ch = [Go (T_linkUpdateFromChannel l)] \<and>
    (\<exists>l'. ls_get (nLinks (linkUpdateFromChannel t2 l n)) (nID n) peer = Some l' \<and>
       Cost l' = t1 - t0 \<and> LastUpdateTime l' = t2 \<and>
       ((\<forall>e. ls_get (nLinks n) (nID n) peer = Some e \<longrightarrow> Cost e \<noteq> t1 - t0) \<longrightarrow>
          Version l' = MyLinksVersion n \<and> lkChannel l' = chID ch)) \<and>
    (\<forall>s t. (s, t) \<noteq> (nID n, peer) \<longrightarrow>
       ls_get (nLinks (linkUpdateFromChannel t2 l n)) s t = ls_get (nLinks n) s t)"
proof -
  let ?ack = "zero_message\<lparr>mType := CostAck, mData := Text (itoa t0), mFrom := peer, mTo := nID n,
     mRoute := nID n, mTTL := 1, LastSender := peer\<rparr>"
  let ?l = "\<lparr>Source = nID n, Target = peer, Cost = t1 - t0, Version = MyLinksVersion n, lkChannel = chID ch,
     LastUpdateTime = 0\<rparr>"
  have "handleCostRequest peer (nID n) (costRequest (nID n) t0 peer) chp = [SendOn (chID chp) (nID n) ?ack]"
    by (simp add: handleCostRequest_def costRequest_def)
  moreover have "handleCostAck n t1 peer ?ack ch = [Go (T_linkUpdateFromChannel ?l)]"
    using assms by (simp add: handleCostAck_def ParseInt_itoa in_i64_def)
  moreover have "\<exists>l'. ls_get (nLinks (linkUpdateFromChannel t2 ?l n)) (nID n) peer = Some l' \<and>
       Cost l' = t1 - t0 \<and> LastUpdateTime l' = t2 \<and>
       ((\<forall>e. ls_get (nLinks n) (nID n) peer = Some e \<longrightarrow> Cost e \<noteq> t1 - t0) \<longrightarrow>
          Version l' = MyLinksVersion n \<and> lkChannel l' = chID ch)"
    by (auto simp: linkUpdateFromChannel_def Let_def costEqual_def setLastUpdateTime_def updateVersion_def
        split: option.split)
  moreover have "\<forall>s t. (s, t) \<noteq> (nID n, peer) \<longrightarrow>
       ls_get (nLinks (linkUpdateFromChannel t2 ?l n)) s t = ls_get (nLinks n) s t"
    by (auto simp: linkUpdateFromChannel_def Let_def split: option.split)
  ultimately show ?thesis by blast
qed

theorem link_cost_is_round_trip_witness:
  "\<exists>l. ls_get (nLinks (linkUpdateFromChannel 190 l (NewNode ''a'' :: unit Node))) ''a'' ''b'' =
     Some \<lparr>Source = ''a'', Target = ''b'', Cost = 80, Version = 0, lkChannel = ''a-1'', LastUpdateTime = 190\<rparr>"
proof -
  let ?n = "NewNode ''a'' :: unit Node"
  have i: "in_i64 100" "in_i64 (180 - 100)" by (simp_all add: in_i64_def)
  from link_cost_is_round_trip [OF i, of "''b''" ?n "NewChannelFull ''b-1''" "NewChannelFull ''a-1''" 190]
  obtain l l' where "ls_get (nLinks (linkUpdateFromChannel 190 l ?n)) ''a'' ''b'' = Some l'"
      and a: "[Go (T_linkUpdateFromChannel l)] = handleCostAck ?n 180 ''b'' (zero_message\<lparr>mType := CostAck,
        mData := Text (itoa 100), mFrom := ''b'', mTo := ''a'', mRoute := ''a'', mTTL := 1, LastSender := ''b''\<rparr>)
        (NewChannelFull ''a-1'')"
    by (auto simp: NewNode_def handleCostRequest_def costRequest_def)
  then have "l = \<lparr>Source = ''a'', Target = ''b'', Cost = 80, Version = 0, lkChannel = ''a-1'', LastUpdateTime = 0\<rparr>"
    using i by (simp add: handleCostAck_def ParseInt_itoa NewNode_def NewChannelFull_def)
  then show ?thesis
    by (intro exI [of _ l]) (simp add: linkUpdateFromChannel_def Let_def NewNode_def ls_get_def ls_row_def
        ls_ensure_def ls_put_def setLastUpdateTime_def)
qed

end
