(* ===== verification/Signal_Client.thy ===== *)
theory Signal_Client
  imports Signal_Server Worker_Kcp Net_Channel
begin

text \<open>
  core/SignalingClient.go: the client of the signaling server, which asks other nodes for direct connections
  and answers their requests.

  \<^item> Its state has a read-wr mutex, which is not reentrant. Whether it is locked for writing is a field
    (\<open>scLocked\<close>), and an operation returns, waits for the mutex in the state it has reached, or panics
    (\<open>act\<close>). A section that only reads calls nothing, so that readers need no field.
  \<^item> Dialing, writing, probing ports and UDP are parameters; what is sent or started is an output.
  \<^item> A channel for the answer to a request has room for one answer.
\<close>

section \<open>State\<close>

record SignalingClientConfig =
  ccSignalingURL :: string
  ccSignalingUDPPort :: int
  ccReconnectInterval :: int
  ccHeartbeatInterval :: int
  ccReadTimeout :: int
  ccWriteTimeout :: int
  ccMaxMessageSize :: int

record PublicAddressRequest =
  prNodeID :: string
  prPort :: int

record KCPConnectionResponse =
  krInvokeID :: string
  krFromNodeID :: string
  krToNodeID :: string
  krPublicAddr :: string
  krSuccess :: bool
  krErrorMsg :: string

record SignalingClient =
  scLocked :: bool
  scNodeID :: string
  scNodeName :: string
  scLocalPort :: int
  scLocalAddresses :: "string list"
  scMetadata :: "(string \<times> string) list"
  scURL :: string
  scConn :: "nat option"
  scConnected :: bool
  scReconnect :: bool
  scConfig :: SignalingClientConfig
  scStopped :: bool
  scDone :: bool
  invokeChannels :: "(string \<times> KCPConnectionResponse option) list"
  scNode :: "string option"

datatype cli_out =
    WsSend nat SignalingMessage
  | WsClose nat
  | GoHandleMessages | GoHeartbeat | GoMonitor
  | NodeAddChannel string Channel KcpWorker

datatype 'a act =
    Returns 'a SignalingClient "cli_out list"
  | Waits SignalingClient "cli_out list"
  | Panics

fun act_bind :: "'a act \<Rightarrow> ('a \<Rightarrow> SignalingClient \<Rightarrow> 'b act) \<Rightarrow> 'b act" where
  "act_bind (Returns a c os) f = (case f a c of
       Returns b c1 os1 \<Rightarrow> Returns b c1 (os @ os1) | Waits c1 os1 \<Rightarrow> Waits c1 (os @ os1) | Panics \<Rightarrow> Panics)"
| "act_bind (Waits c os) f = Waits c os"
| "act_bind Panics f = Panics"

text \<open>\<open>Lock\<close> with a deferred \<open>Unlock\<close>, and \<open>RLock\<close> around a read.\<close>

definition with_lock :: "(SignalingClient \<Rightarrow> 'a act) \<Rightarrow> SignalingClient \<Rightarrow> 'a act" where
  "with_lock f c = (if scLocked c then Waits c []
     else act_bind (f (c\<lparr>scLocked := True\<rparr>)) (\<lambda>a c1. Returns a (c1\<lparr>scLocked := False\<rparr>) []))"

definition with_rlock :: "(SignalingClient \<Rightarrow> 'a) \<Rightarrow> SignalingClient \<Rightarrow> 'a act" where
  "with_rlock f c = (if scLocked c then Waits c [] else Returns (f c) c [])"

section \<open>Construction and queries\<close>

definition isPrivateIP :: "string \<Rightarrow> bool" where
  "isPrivateIP ip \<longleftrightarrow> (\<exists>p \<in> set ([''10.'', ''192.168.''] @ map (\<lambda>k. ''172.'' @ itoa k @ ''.'') [16..31]).
     length p \<le> length ip \<and> take (length p) ip = p)"

text \<open>An interface: whether it is up and not a loop-back, and its addresses, if it can list them.\<close>

definition discoverLocalAddresses :: "(bool \<times> string list option) list option \<Rightarrow> string list \<Rightarrow> string list" where
  "discoverLocalAddresses interfaces known = (case interfaces of
       None \<Rightarrow> known
     | Some ifs \<Rightarrow>
         (let found = known @ concat (map (\<lambda>(up, addrs). if \<not> up then []
             else (case addrs of None \<Rightarrow> [] | Some as \<Rightarrow> filter (\<lambda>ip. \<not> isPrivateIP ip) as)) ifs)
          in if found = [] then [''127.0.0.1''] else found))"

definition NewSignalingClient ::
  "(bool \<times> string list option) list option \<Rightarrow> string \<Rightarrow> string \<Rightarrow> int \<Rightarrow> SignalingClientConfig option \<Rightarrow> SignalingClient" where
  "NewSignalingClient interfaces nodeID nodeName localPort config =
     (let cfg = (case config of Some c \<Rightarrow> c
        | None \<Rightarrow> \<lparr>ccSignalingURL = ''ws://localhost:8080/ws'', ccSignalingUDPPort = 8081, ccReconnectInterval = 5000000000,
            ccHeartbeatInterval = 30000000000, ccReadTimeout = 60000000000, ccWriteTimeout = 10000000000, ccMaxMessageSize = 512\<rparr>)
      in \<lparr>scLocked = False, scNodeID = nodeID, scNodeName = nodeName, scLocalPort = localPort,
          scLocalAddresses = discoverLocalAddresses interfaces [], scMetadata = [], scURL = ccSignalingURL cfg,
          scConn = None, scConnected = False, scReconnect = False, scConfig = cfg, scStopped = False, scDone = False,
          invokeChannels = [], scNode = None\<rparr>)"

definition SetNode :: "string \<Rightarrow> SignalingClient \<Rightarrow> unit act" where
  "SetNode n = with_lock (\<lambda>c. Returns () (c\<lparr>scNode := Some n\<rparr>) [])"

definition IsConnected :: "SignalingClient \<Rightarrow> bool act" where
  "IsConnected = with_rlock scConnected"

definition GetNodeInfo :: "SignalingClient \<Rightarrow> (string \<times> string \<times> int \<times> string list \<times> (string \<times> string) list \<times> bool) act" where
  "GetNodeInfo = with_rlock (\<lambda>c. (scNodeID c, scNodeName c, scLocalPort c, scLocalAddresses c, scMetadata c, scConnected c))"

definition GetLocalAddresses :: "SignalingClient \<Rightarrow> string list act" where
  "GetLocalAddresses = with_rlock scLocalAddresses"

definition GetLocalPort :: "SignalingClient \<Rightarrow> int act" where
  "GetLocalPort = with_rlock scLocalPort"

definition findAvailablePort :: "(int \<Rightarrow> bool) \<Rightarrow> SignalingClient \<Rightarrow> string + int" where
  "findAvailablePort free c = (case find free [scLocalPort c .. scLocalPort c + 99] of
       Some port \<Rightarrow> Inr port
     | None \<Rightarrow> Inl (''no available port found in range '' @ itoa (scLocalPort c) @ ''-'' @ itoa (scLocalPort c + 100)))"

section \<open>Sending and connecting\<close>

text \<open>\<open>wr\<close> encodes and writes: the text of the error, if any.\<close>

definition cli_sendMessage ::
  "(nat \<Rightarrow> SignalingMessage \<Rightarrow> string option) \<Rightarrow> SignalingMessage \<Rightarrow> SignalingClient \<Rightarrow> string option act" where
  "cli_sendMessage wr msg c = act_bind (with_rlock (\<lambda>c. if \<not> scConnected c then None else scConn c) c) (\<lambda>conn c.
     (case conn of
       None \<Rightarrow> Returns (Some ''not connected to signaling server'') c []
     | Some k \<Rightarrow> Returns (wr k msg) c [WsSend k msg]))"

definition client_message :: "string \<Rightarrow> params \<Rightarrow> int \<Rightarrow> SignalingClient \<Rightarrow> SignalingMessage" where
  "client_message ty data now c = \<lparr>sgType = ty, sgFrom = scNodeID c, sgTo = [], sgData = data, sgTimestamp = now\<rparr>"

definition cli_register ::
  "(nat \<Rightarrow> SignalingMessage \<Rightarrow> string option) \<Rightarrow> int \<Rightarrow> SignalingClient \<Rightarrow> string option act" where
  "cli_register wr now c = cli_sendMessage wr
     (client_message ''register'' [(''node_id'', GStr (scNodeID c)), (''name'', GStr (scNodeName c))] now c) c"

definition cli_Connect ::
  "(string \<Rightarrow> string + string) \<Rightarrow> (string \<Rightarrow> string + nat) \<Rightarrow> (nat \<Rightarrow> SignalingMessage \<Rightarrow> string option) \<Rightarrow>
     int \<Rightarrow> SignalingClient \<Rightarrow> string option act" where
  "cli_Connect parse dial wr now = with_lock (\<lambda>c.
     if scConnected c then Returns (Some ''already connected'') c []
     else (case parse (scURL c) of
       Inl e \<Rightarrow> Returns (Some (''invalid signaling URL: '' @ e)) c []
     | Inr u \<Rightarrow> (case dial u of
         Inl e \<Rightarrow> Returns (Some (''failed to connect to signaling server: '' @ e)) c []
       | Inr conn \<Rightarrow> act_bind (Returns () (c\<lparr>scConn := Some conn, scConnected := True\<rparr>) [GoHandleMessages, GoHeartbeat, GoMonitor])
           (\<lambda>_. cli_register wr now))))"

definition cli_Disconnect ::
  "(nat \<Rightarrow> SignalingMessage \<Rightarrow> string option) \<Rightarrow> int \<Rightarrow> SignalingClient \<Rightarrow> string option act" where
  "cli_Disconnect wr now = with_lock (\<lambda>c.
     if \<not> scConnected c then Returns None c []
     else act_bind (cli_sendMessage wr (client_message ''disconnect'' [] now c) c) (\<lambda>_ c.
       if scStopped c then Panics
       else Returns None (c\<lparr>scConnected := False, scStopped := True\<rparr>)
         (case scConn c of None \<Rightarrow> [] | Some k \<Rightarrow> [WsClose k])))"

definition cli_heartbeat_tick ::
  "(nat \<Rightarrow> SignalingMessage \<Rightarrow> string option) \<Rightarrow> int \<Rightarrow> SignalingClient \<Rightarrow> string option act" where
  "cli_heartbeat_tick wr now c = cli_sendMessage wr (client_message ''heartbeat'' [(''timestamp'', GNum (unix now))] now c) c"

text \<open>A round of reconnecting: whether the loop ends.\<close>

definition cli_reconnect_round ::
  "(string \<Rightarrow> string + string) \<Rightarrow> (string \<Rightarrow> string + nat) \<Rightarrow> (nat \<Rightarrow> SignalingMessage \<Rightarrow> string option) \<Rightarrow>
     int \<Rightarrow> SignalingClient \<Rightarrow> bool act" where
  "cli_reconnect_round parse dial wr now c =
     (if scStopped c then Returns True c []
      else act_bind (cli_Connect parse dial wr now c) (\<lambda>e c. Returns (e = None) c []))"

text \<open>Waiting for a signal: whether the loop goes on with reconnecting; nothing while there is no signal.\<close>

definition monitorConnection_round :: "SignalingClient \<Rightarrow> (bool \<times> SignalingClient) option" where
  "monitorConnection_round c =
     (if scReconnect c then Some (True, c\<lparr>scReconnect := False\<rparr>)
      else if scStopped c then Some (False, c) else None)"

section \<open>The public address\<close>

text \<open>
  The parameters read an address, resolve one, open the connection, and exchange a request for an answer;
  each returns the text of its error or its result. The answer is a value of its JSON text.
\<close>

definition DetectPublicAddress ::
  "(string \<Rightarrow> string + string) \<Rightarrow> (string \<Rightarrow> string + 'a) \<Rightarrow> ('a \<Rightarrow> 'a \<Rightarrow> string option) \<Rightarrow>
   (PublicAddressRequest \<Rightarrow> string + string) \<Rightarrow> (string \<Rightarrow> string + PublicAddressResponse) \<Rightarrow>
   int \<Rightarrow> SignalingClient \<Rightarrow> string + PublicAddressResponse" where
  "DetectPublicAddress hostname resolve dialUDP ask unmarshal localPort c = (case hostname (scURL c) of
       Inl e \<Rightarrow> Inl (''invalid signaling URL: '' @ e)
     | Inr host \<Rightarrow> (case resolve (host @ '':'' @ itoa (ccSignalingUDPPort (scConfig c))) of
         Inl e \<Rightarrow> Inl (''failed to resolve UDP address: '' @ e)
       | Inr udpAddr \<Rightarrow> (case resolve ('':'' @ itoa localPort) of
           Inl e \<Rightarrow> Inl (''failed to resolve local UDP address: '' @ e)
         | Inr localAddr \<Rightarrow> (case dialUDP localAddr udpAddr of
             Some e \<Rightarrow> Inl (''failed to create UDP connection: '' @ e)
           | None \<Rightarrow> (case ask \<lparr>prNodeID = scNodeID c, prPort = localPort\<rparr> of
               Inl e \<Rightarrow> Inl e
             | Inr text \<Rightarrow> (case unmarshal text of
                 Inl e \<Rightarrow> Inl (''failed to unmarshal UDP response: '' @ e)
               | Inr r \<Rightarrow> if \<not> paSuccess r then Inl (''public address detection failed: '' @ paErrorMessage r)
                   else Inr r))))))"

section \<open>Requesting a connection\<close>

definition forget_invoke :: "string \<Rightarrow> SignalingClient \<Rightarrow> SignalingClient" where
  "forget_invoke invokeID c = c\<lparr>invokeChannels := AList.delete invokeID (invokeChannels c)\<rparr>"

text \<open>Until the request is sent: its id, or an error.\<close>

definition RequestKCPConnection_begin ::
  "(nat \<Rightarrow> SignalingMessage \<Rightarrow> string option) \<Rightarrow> int \<Rightarrow> string \<Rightarrow> SignalingClient \<Rightarrow> (string + string) act" where
  "RequestKCPConnection_begin wr now toNodeID c =
     (let invokeID = scNodeID c @ ''-'' @ toNodeID @ ''-'' @ itoa now;
        c1 = c\<lparr>invokeChannels := AList.update invokeID None (invokeChannels c)\<rparr>
      in act_bind (cli_sendMessage wr (client_message ''request_kcp_connection''
           [(''to_node_id'', GStr toNodeID), (''invoke_id'', GStr invokeID)] now c1) c1) (\<lambda>e c.
        (case e of
          Some e \<Rightarrow> Returns (Inl (''failed to send KCP connection request: '' @ e)) (forget_invoke invokeID c) []
        | None \<Rightarrow> Returns (Inr invokeID) c [])))"

text \<open>
  The waiting: an answer is taken from the channel, or the time of 30 seconds has passed (\<open>timeout\<close>).
  \<open>None\<close> while neither has happened.
\<close>

definition RequestKCPConnection_finish ::
  "bool \<Rightarrow> string \<Rightarrow> string \<Rightarrow> SignalingClient \<Rightarrow> (string + KCPConnectionResponse) act option" where
  "RequestKCPConnection_finish timeout toNodeID invokeID c =
     (if timeout then Some (Returns (Inl ''KCP connection request timeout'') (forget_invoke invokeID c) [])
      else (case map_of (invokeChannels c) invokeID of
        Some (Some r) \<Rightarrow> Some
          (if \<not> krSuccess r then Returns (Inr r) (forget_invoke invokeID c) []
           else (case NewKcpConnection True toNodeID True [] 4096 10 1000 5 ''default_token'' of
             None \<Rightarrow> Returns (Inr (r\<lparr>krSuccess := False, krErrorMsg := ''Failed to create KCP client worker''\<rparr>)) (forget_invoke invokeID c) []
           | Some worker \<Rightarrow> act_bind (with_rlock scNode c) (\<lambda>node c. (case node of
               None \<Rightarrow> Returns (Inr (r\<lparr>krSuccess := False, krErrorMsg := ''Node instance not set''\<rparr>)) (forget_invoke invokeID c) []
             | Some n \<Rightarrow>
                 (let channelID = scNodeID c @ ''-to-'' @ toNodeID
                  in Returns (Inr r) (forget_invoke invokeID c)
                    [NodeAddChannel n (NewChannelFull channelID) (worker\<lparr>wkUser := Some channelID\<rparr>)])))))
      | _ \<Rightarrow> None))"

section \<open>Answering\<close>

definition kcp_failure ::
  "(nat \<Rightarrow> SignalingMessage \<Rightarrow> string option) \<Rightarrow> int \<Rightarrow> string \<Rightarrow> string \<Rightarrow> string \<Rightarrow> SignalingClient \<Rightarrow> string option act" where
  "kcp_failure wr now invokeID fromNodeID e c = cli_sendMessage wr (client_message ''kcp_connection_response''
     [(''invoke_id'', GStr invokeID), (''from_node_id'', GStr fromNodeID), (''to_node_id'', GStr (scNodeID c)),
      (''success'', GBool False), (''error_msg'', GStr e)] now c) c"

definition cli_handleRequestKCPConnection ::
  "(nat \<Rightarrow> SignalingMessage \<Rightarrow> string option) \<Rightarrow> (int \<Rightarrow> bool) \<Rightarrow> (int \<Rightarrow> SignalingClient \<Rightarrow> string + PublicAddressResponse) \<Rightarrow>
   (string \<Rightarrow> bool) \<Rightarrow> int \<Rightarrow> SignalingMessage \<Rightarrow> SignalingClient \<Rightarrow> string option act" where
  "cli_handleRequestKCPConnection wr free detect listens now msg c = (case sig_str (sgData msg) ''invoke_id'' of
       None \<Rightarrow> Returns (Some ''missing invoke_id in request_kcp_connection message'') c []
     | Some invokeID \<Rightarrow>
         (let fail = kcp_failure wr now invokeID (sgFrom msg) in
          case findAvailablePort free c of
            Inl e \<Rightarrow> fail (''Failed to find available port: '' @ e) c
          | Inr localPort \<Rightarrow> (case detect localPort c of
              Inl e \<Rightarrow> fail (''Failed to detect public address: '' @ e) c
            | Inr pa \<Rightarrow> (case NewKcpConnection (listens ('':'' @ itoa localPort)) (sgFrom msg) False [] 4096 10 1000 5 ''default_token'' of
                None \<Rightarrow> fail ''Failed to create KCP server worker'' c
              | Some worker \<Rightarrow> act_bind (with_rlock scNode c) (\<lambda>node c. (case node of
                  None \<Rightarrow> fail ''Node instance not set'' c
                | Some n \<Rightarrow>
                    (let channelID = scNodeID c @ ''-from-'' @ sgFrom msg in
                     act_bind (Returns () c [NodeAddChannel n (NewChannelFull channelID) (worker\<lparr>wkUser := Some channelID\<rparr>)])
                       (\<lambda>_ c. cli_sendMessage wr (client_message ''kcp_connection_response''
                          [(''invoke_id'', GStr invokeID), (''from_node_id'', GStr (sgFrom msg)), (''to_node_id'', GStr (scNodeID c)),
                           (''public_addr'', GStr (paPublicAddr pa)), (''success'', GBool True), (''error_msg'', GStr [])] now c) c))))))))"

text \<open>A type assertion on a field that is missing or of another type panics.\<close>

definition cli_handleKCPConnectionResponse :: "SignalingMessage \<Rightarrow> SignalingClient \<Rightarrow> string option act" where
  "cli_handleKCPConnectionResponse msg c = (case sig_str (sgData msg) ''invoke_id'' of
       None \<Rightarrow> Returns (Some ''missing invoke_id in kcp_connection_response message'') c []
     | Some invokeID \<Rightarrow> (case map_of (invokeChannels c) invokeID of
         None \<Rightarrow> Returns (Some (''invoke_id not found: '' @ invokeID)) c []
       | Some waiting \<Rightarrow>
           (case (sig_str (sgData msg) ''from_node_id'', sig_str (sgData msg) ''to_node_id'',
               sig_str (sgData msg) ''public_addr'', map_of (sgData msg) ''success'') of
             (Some f, Some t, Some a, Some (GBool b)) \<Rightarrow>
               (let r = \<lparr>krInvokeID = invokeID, krFromNodeID = f, krToNodeID = t, krPublicAddr = a, krSuccess = b,
                  krErrorMsg = (case sig_str (sgData msg) ''error_msg'' of Some e \<Rightarrow> e | None \<Rightarrow> [])\<rparr>
                in Returns None (if waiting = None then c\<lparr>invokeChannels := AList.update invokeID (Some r) (invokeChannels c)\<rparr> else c) [])
           | _ \<Rightarrow> Panics)))"

definition cli_processMessage ::
  "(nat \<Rightarrow> SignalingMessage \<Rightarrow> string option) \<Rightarrow> (int \<Rightarrow> bool) \<Rightarrow> (int \<Rightarrow> SignalingClient \<Rightarrow> string + PublicAddressResponse) \<Rightarrow>
   (string \<Rightarrow> bool) \<Rightarrow> int \<Rightarrow> SignalingMessage \<Rightarrow> SignalingClient \<Rightarrow> string option act" where
  "cli_processMessage wr free detect listens now msg c =
     (if sgType msg = ''register_response'' \<or> sgType msg = ''heartbeat_response'' then Returns None c []
      else if sgType msg = ''request_kcp_connection'' then cli_handleRequestKCPConnection wr free detect listens now msg c
      else if sgType msg = ''kcp_connection_response'' then cli_handleKCPConnectionResponse msg c
      else Returns (Some (''unknown message type: '' @ sgType msg)) c [])"

text \<open>A round of the receiving loop: whether it goes on. What is read is a text, or nothing after an error.\<close>

definition handleMessages_end :: "SignalingClient \<Rightarrow> bool act" where
  "handleMessages_end c = act_bind (with_lock (\<lambda>c. Returns () (c\<lparr>scConnected := False\<rparr>) []) c) (\<lambda>_ c.
     if scDone c then Panics else Returns False (c\<lparr>scDone := True\<rparr>) [])"

definition handleMessages_round ::
  "(nat \<Rightarrow> SignalingMessage \<Rightarrow> string option) \<Rightarrow> (int \<Rightarrow> bool) \<Rightarrow> (int \<Rightarrow> SignalingClient \<Rightarrow> string + PublicAddressResponse) \<Rightarrow>
   (string \<Rightarrow> bool) \<Rightarrow> (string \<Rightarrow> SignalingMessage option) \<Rightarrow> int \<Rightarrow> string option \<Rightarrow> SignalingClient \<Rightarrow> bool act" where
  "handleMessages_round wr free detect listens unmarshal now read c =
     (if scStopped c then handleMessages_end c
      else (case read of
        None \<Rightarrow> handleMessages_end (c\<lparr>scReconnect := True\<rparr>)
      | Some text \<Rightarrow> (case unmarshal text of
          None \<Rightarrow> Returns True c []
        | Some msg \<Rightarrow> act_bind (cli_processMessage wr free detect listens now msg c) (\<lambda>_ c. Returns True c []))))"

section \<open>Connecting deadlocks\<close>

definition reaches :: "'a act \<Rightarrow> SignalingClient \<Rightarrow> cli_out list \<Rightarrow> bool" where
  "reaches r c os \<longleftrightarrow> (case r of Returns _ c1 os1 \<Rightarrow> c1 = c \<and> os1 = os | Waits c1 os1 \<Rightarrow> c1 = c \<and> os1 = os | Panics \<Rightarrow> False)"

text \<open>What a client can do, in any order, and all that it has put out.\<close>

inductive cli_run :: "SignalingClient \<Rightarrow> cli_out list \<Rightarrow> bool" where
  run_new: "cli_run (NewSignalingClient interfaces nodeID nodeName localPort config) []"
| run_node: "cli_run c os \<Longrightarrow> reaches (SetNode n c) c1 os1 \<Longrightarrow> cli_run c1 (os @ os1)"
| run_connect: "cli_run c os \<Longrightarrow> reaches (cli_Connect parse dial wr now c) c1 os1 \<Longrightarrow> cli_run c1 (os @ os1)"
| run_reconnect: "cli_run c os \<Longrightarrow> reaches (cli_reconnect_round parse dial wr now c) c1 os1 \<Longrightarrow> cli_run c1 (os @ os1)"
| run_disconnect: "cli_run c os \<Longrightarrow> reaches (cli_Disconnect wr now c) c1 os1 \<Longrightarrow> cli_run c1 (os @ os1)"
| run_heartbeat: "cli_run c os \<Longrightarrow> reaches (cli_heartbeat_tick wr now c) c1 os1 \<Longrightarrow> cli_run c1 (os @ os1)"
| run_monitor: "cli_run c os \<Longrightarrow> monitorConnection_round c = Some (b, c1) \<Longrightarrow> cli_run c1 os"
| run_receive: "cli_run c os \<Longrightarrow> reaches (handleMessages_round wr free detect listens unmarshal now read c) c1 os1 \<Longrightarrow>
    cli_run c1 (os @ os1)"
| run_request: "cli_run c os \<Longrightarrow> reaches (RequestKCPConnection_begin wr now n c) c1 os1 \<Longrightarrow> cli_run c1 (os @ os1)"
| run_answer: "cli_run c os \<Longrightarrow> RequestKCPConnection_finish timeout n i c = Some r \<Longrightarrow> reaches r c1 os1 \<Longrightarrow> cli_run c1 (os @ os1)"

definition mute :: "SignalingClient \<Rightarrow> bool" where
  "mute c \<longleftrightarrow> scConnected c \<longrightarrow> scLocked c"

definition sends :: "cli_out list \<Rightarrow> bool" where
  "sends os \<longleftrightarrow> (\<exists>k m. WsSend k m \<in> set os)"

definition quiet :: "'a act \<Rightarrow> bool" where
  "quiet r \<longleftrightarrow> (\<forall>c os. reaches r c os \<longrightarrow> mute c \<and> \<not> sends os)"

lemma quiet_simps [simp]:
  "quiet (Returns a c os) \<longleftrightarrow> mute c \<and> \<not> sends os" "quiet (Waits c os) \<longleftrightarrow> mute c \<and> \<not> sends os" "quiet Panics"
  by (auto simp: quiet_def reaches_def)

lemma sends_simps [simp]:
  "\<not> sends []" "sends (os @ os') \<longleftrightarrow> sends os \<or> sends os'" "sends (x # os) \<longleftrightarrow> (\<exists>k m. x = WsSend k m) \<or> sends os"
  by (auto simp: sends_def)

lemma quiet_bind: "quiet r \<Longrightarrow> (\<And>a c. mute c \<Longrightarrow> quiet (f a c)) \<Longrightarrow> quiet (act_bind r f)"
proof (cases r)
  case (Returns a c os)
  assume "quiet r" "\<And>a c. mute c \<Longrightarrow> quiet (f a c)"
  with Returns show ?thesis by (cases "f a c") (auto, metis quiet_simps(1), metis quiet_simps(1), metis quiet_simps(2), metis quiet_simps(2))
qed simp_all

lemma quiet_rlock: "mute c \<Longrightarrow> quiet (with_rlock f c)"
  by (simp add: with_rlock_def)

lemma quiet_lock:
  assumes "mute c" and "\<not> scLocked c \<Longrightarrow> case f (c\<lparr>scLocked := True\<rparr>) of
      Returns _ c1 os \<Rightarrow> \<not> scConnected c1 \<and> \<not> sends os | Waits c1 os \<Rightarrow> mute c1 \<and> \<not> sends os | Panics \<Rightarrow> True"
  shows "quiet (with_lock f c)"
  using assms by (cases "f (c\<lparr>scLocked := True\<rparr>)") (auto simp: with_lock_def mute_def)

lemma quiet_send: "mute c \<Longrightarrow> quiet (cli_sendMessage wr msg c)"
  by (auto simp: cli_sendMessage_def with_rlock_def mute_def split: option.split)

lemma mute_fields [simp]:
  "mute (c\<lparr>invokeChannels := x\<rparr>) = mute c" "mute (c\<lparr>scReconnect := b\<rparr>) = mute c" "mute (forget_invoke i c) = mute c"
  "mute (c\<lparr>scDone := b\<rparr>) = mute c" "mute (c\<lparr>scNode := n\<rparr>) = mute c"
  by (simp_all add: mute_def forget_invoke_def)

lemma send_locked: "scLocked c \<Longrightarrow> cli_sendMessage wr msg c = Waits c []"
  by (simp add: cli_sendMessage_def with_rlock_def)

lemma quiet_connect: "mute c \<Longrightarrow> quiet (cli_Connect parse dial wr now c)"
  unfolding cli_Connect_def
  by (rule quiet_lock) (auto simp: cli_register_def send_locked mute_def split: sum.split)

lemma quiet_handler:
  assumes "mute c" shows "quiet (cli_processMessage wr free detect listens now msg c)"
proof -
  have "quiet (cli_handleRequestKCPConnection wr free detect listens now msg c)"
    unfolding cli_handleRequestKCPConnection_def kcp_failure_def Let_def using assms
    by (auto intro!: quiet_bind quiet_send quiet_rlock simp del: act_bind.simps split: option.split sum.split)
  moreover have "quiet (cli_handleKCPConnectionResponse msg c)"
    using assms by (auto simp: cli_handleKCPConnectionResponse_def Let_def split: option.split goval.split)
  ultimately show ?thesis using assms by (simp add: cli_processMessage_def)
qed

lemma quiet_round:
  assumes "mute c" shows "quiet (handleMessages_round wr free detect listens unmarshal now read c)"
proof -
  have e: "quiet (handleMessages_end c)" if "mute c" for c
    unfolding handleMessages_end_def using that by (auto intro!: quiet_bind quiet_lock)
  show ?thesis
    using assms by (auto simp: handleMessages_round_def e intro!: quiet_bind quiet_handler split: option.split)
qed

lemma cli_run_mute: "cli_run c os \<Longrightarrow> mute c \<and> \<not> sends os"
proof (induction rule: cli_run.induct)
  case (run_new interfaces nodeID nodeName localPort config)
  show ?case by (simp add: NewSignalingClient_def Let_def mute_def)
next
  case (run_node c os n c1 os1)
  moreover have "quiet (SetNode n c)" unfolding SetNode_def
    by (rule quiet_lock) (insert run_node, auto simp: mute_def)
  ultimately show ?case by (auto simp: quiet_def)
next
  case (run_connect c os parse dial wr now c1 os1)
  then show ?case using quiet_connect [of c parse dial wr now] by (auto simp: quiet_def)
next
  case (run_reconnect c os parse dial wr now c1 os1)
  moreover have "quiet (cli_reconnect_round parse dial wr now c)"
    using run_reconnect by (auto simp: cli_reconnect_round_def intro!: quiet_bind quiet_connect)
  ultimately show ?case by (auto simp: quiet_def)
next
  case (run_disconnect c os wr now c1 os1)
  moreover have "quiet (cli_Disconnect wr now c)" unfolding cli_Disconnect_def
    by (rule quiet_lock) (insert run_disconnect, auto simp: mute_def send_locked)
  ultimately show ?case by (auto simp: quiet_def)
next
  case (run_heartbeat c os wr now c1 os1)
  then show ?case using quiet_send [of c wr] by (auto simp: quiet_def cli_heartbeat_tick_def)
next
  case (run_monitor c os b c1)
  then show ?case by (auto simp: monitorConnection_round_def split: if_splits)
next
  case (run_receive c os wr free detect listens unmarshal now read c1 os1)
  then show ?case using quiet_round [of c wr free detect listens unmarshal now read] by (auto simp: quiet_def)
next
  case (run_request c os wr now n c1 os1)
  moreover have "quiet (RequestKCPConnection_begin wr now n c)"
    using run_request by (auto simp: RequestKCPConnection_begin_def Let_def intro!: quiet_bind quiet_send split: option.split)
  ultimately show ?case by (auto simp: quiet_def)
next
  case (run_answer c os timeout n i r c1 os1)
  moreover have "quiet r"
    using run_answer(2,4)
    by (auto simp: RequestKCPConnection_finish_def Let_def intro!: quiet_bind quiet_rlock split: if_splits option.splits)
  ultimately show ?case by (auto simp: quiet_def)
qed

text \<open>
  Connecting to the signaling server never returns once the server has been reached: the mutex is held while
  the registration is sent, and sending waits for the mutex. From then on every operation of the client that
  needs the mutex waits as well. Whatever a client does, in whatever order, it sends nothing to the server.
\<close>

theorem connect_never_returns:
  assumes "cli_run c os"
  shows "(\<forall>k m. WsSend k m \<notin> set os) \<and>
    (\<not> scLocked c \<longrightarrow> parse (scURL c) = Inr u \<longrightarrow> dial u = Inr conn \<longrightarrow>
      (\<exists>c1. cli_Connect parse dial wr now c = Waits c1 [GoHandleMessages, GoHeartbeat, GoMonitor] \<and>
        scConnected c1 \<and> IsConnected c1 = Waits c1 [] \<and> SetNode n c1 = Waits c1 [] \<and>
        cli_heartbeat_tick wr t c1 = Waits c1 [] \<and> cli_Disconnect wr t c1 = Waits c1 [] \<and>
        cli_Connect parse dial wr t c1 = Waits c1 [] \<and> handleMessages_end c1 = Waits c1 []))"
proof (intro conjI impI)
  show "\<forall>k m. WsSend k m \<notin> set os" using cli_run_mute [OF assms] by (simp add: sends_def)
  assume a: "\<not> scLocked c" "parse (scURL c) = Inr u" "dial u = Inr conn"
  then have "\<not> scConnected c" using cli_run_mute [OF assms] by (simp add: mute_def)
  let ?c1 = "c\<lparr>scLocked := True, scConn := Some conn, scConnected := True\<rparr>"
  have "cli_Connect parse dial wr now c = Waits ?c1 [GoHandleMessages, GoHeartbeat, GoMonitor]"
    using a \<open>\<not> scConnected c\<close> by (simp add: cli_Connect_def with_lock_def cli_register_def send_locked)
  then show "\<exists>c1. cli_Connect parse dial wr now c = Waits c1 [GoHandleMessages, GoHeartbeat, GoMonitor] \<and>
        scConnected c1 \<and> IsConnected c1 = Waits c1 [] \<and> SetNode n c1 = Waits c1 [] \<and>
        cli_heartbeat_tick wr t c1 = Waits c1 [] \<and> cli_Disconnect wr t c1 = Waits c1 [] \<and>
        cli_Connect parse dial wr t c1 = Waits c1 [] \<and> handleMessages_end c1 = Waits c1 []"
    by (intro exI [of _ ?c1] conjI)
      (simp_all add: IsConnected_def SetNode_def cli_heartbeat_tick_def cli_Disconnect_def handleMessages_end_def
        with_lock_def with_rlock_def send_locked cli_Connect_def [of parse dial wr t])
qed

definition ex_sig_client :: SignalingClient where
  "ex_sig_client = NewSignalingClient None ''A'' ''a'' 9000 None"

theorem connect_never_returns_witness:
  "\<exists>c1. cli_Connect Inr (\<lambda>_. Inr 7) (\<lambda>_ _. None) 5 ex_sig_client = Waits c1 [GoHandleMessages, GoHeartbeat, GoMonitor] \<and>
     IsConnected c1 = Waits c1 []"
proof -
  have run: "cli_run ex_sig_client []" unfolding ex_sig_client_def by (rule run_new)
  have 1: "\<not> scLocked ex_sig_client" by (simp add: ex_sig_client_def NewSignalingClient_def Let_def)
  from connect_never_returns [OF run, of Inr "scURL ex_sig_client" "\<lambda>_. Inr 7" 7 "\<lambda>_ _. None" 5] 1
  show ?thesis by auto
qed

section \<open>A request by way of the server\<close>

text \<open>These hold of clients that are connected and not locked, as they would be if connecting returned.\<close>

lemma begin_sends:
  assumes "RequestKCPConnection_begin wr now n c = Returns (Inr i) c1 os" and "WsSend k m \<in> set os"
  shows "m = client_message ''request_kcp_connection'' [(''to_node_id'', GStr n), (''invoke_id'', GStr i)] now c"
    and "map_of (invokeChannels c1) i = Some None"
  using assms
  by (auto simp: RequestKCPConnection_begin_def Let_def cli_sendMessage_def with_rlock_def client_message_def
      split: option.splits if_splits)

lemma send_keeps:
  assumes "cli_sendMessage wr msg c = Returns e c1 os"
  shows "c1 = c \<and> (WsSend k m \<in> set os \<longrightarrow> m = msg)"
  using assms by (auto simp: cli_sendMessage_def with_rlock_def split: if_splits option.splits)

definition answers :: "SignalingMessage \<Rightarrow> SignalingClient \<Rightarrow> SignalingMessage \<Rightarrow> bool" where
  "answers msg c m \<longleftrightarrow> sgType m = ''kcp_connection_response'' \<and> sgFrom m = scNodeID c \<and>
     sig_str (sgData m) ''invoke_id'' = sig_str (sgData msg) ''invoke_id''"

lemma answers_built:
  "sig_str (sgData msg) ''invoke_id'' = Some i \<Longrightarrow>
    answers msg c (client_message ''kcp_connection_response'' ((''invoke_id'', GStr i) # rest) now c)"
  by (simp add: answers_def client_message_def) (simp add: sig_str_def)

lemma failure_answers:
  assumes "kcp_failure wr now i f e c = Returns r c1 os" and "sig_str (sgData msg) ''invoke_id'' = Some i"
  shows "c1 = c \<and> (WsSend k m \<in> set os \<longrightarrow> answers msg c m)"
  using send_keeps [OF assms(1) [unfolded kcp_failure_def], of k m] answers_built [OF assms(2)] by auto

lemma handler_answers:
  assumes "cli_handleRequestKCPConnection wr free detect listens now msg c = Returns e c1 os"
  shows "c1 = c \<and> (WsSend k m \<in> set os \<longrightarrow> answers msg c m)"
proof (cases "sig_str (sgData msg) ''invoke_id''")
  case None
  then show ?thesis using assms by (simp add: cli_handleRequestKCPConnection_def)
next
  case (Some i)
  note fa = failure_answers [OF _ Some]
  show ?thesis
  proof (cases "\<exists>x. kcp_failure wr now i (sgFrom msg) x c = Returns e c1 os")
    case True
    then show ?thesis using fa by blast
  next
    case False
    obtain lp pa w n where f: "findAvailablePort free c = Inr lp" "detect lp c = Inr pa" "scNode c = Some n" "\<not> scLocked c"
      "NewKcpConnection (listens ('':'' @ itoa lp)) (sgFrom msg) False [] 4096 10 1000 5 ''default_token'' = Some w"
      using assms Some False
      by (auto simp: cli_handleRequestKCPConnection_def Let_def with_rlock_def split: sum.splits option.splits if_splits act.splits)
    let ?m = "client_message ''kcp_connection_response'' [(''invoke_id'', GStr i), (''from_node_id'', GStr (sgFrom msg)),
      (''to_node_id'', GStr (scNodeID c)), (''public_addr'', GStr (paPublicAddr pa)), (''success'', GBool True),
      (''error_msg'', GStr [])] now c"
    from assms Some f obtain os1 where "cli_sendMessage wr ?m c = Returns e c1 os1"
      and "WsSend k m \<in> set os \<longrightarrow> WsSend k m \<in> set os1"
      by (auto simp: cli_handleRequestKCPConnection_def Let_def with_rlock_def split: act.splits)
    with send_keeps [of wr ?m c e c1 os1 k m] answers_built [OF Some] show ?thesis by auto
  qed
qed

text \<open>
  A request between two nodes by way of the server never completes. The server passes it on, and the target
  answers; but the server sends the answer back to the target, which has made no such request and rejects
  it, and the node that asked still waits.
\<close>

theorem kcp_answer_goes_astray:
  assumes "RequestKCPConnection_begin wr now (scNodeID cB) cA = Returns (Inr i) cA1 os" and "WsSend kA m \<in> set os"
    and "map_of (ssConnections s) (scNodeID cB) = Some connB" and "map_of (invokeChannels cB) i = None"
  shows "\<exists>m1. sig_processMessage t1 connA m s = (None, s, [SigSend connB m1]) \<and>
    (\<forall>e cB1 osB kB m2. cli_processMessage wr free detect listens t2 m1 cB = Returns e cB1 osB \<longrightarrow> WsSend kB m2 \<in> set osB \<longrightarrow>
      (\<exists>m3. sig_processMessage t3 connB m2 s = (None, s, [SigSend connB m3]) \<and>
        cli_processMessage wr free detect listens t4 m3 cB1 = Returns (Some (''invoke_id not found: '' @ i)) cB1 [])) \<and>
    RequestKCPConnection_finish False (scNodeID cB) i cA1 = None"
proof -
  note b = begin_sends [OF assms(1,2)]
  define m1 where "m1 = \<lparr>sgType = ''request_kcp_connection'', sgFrom = scNodeID cA, sgTo = scNodeID cB,
    sgData = [(''from_node_id'', GStr (scNodeID cA)), (''to_node_id'', GStr (scNodeID cB)), (''invoke_id'', GStr i)],
    sgTimestamp = t1\<rparr>"
  have 1: "sig_processMessage t1 connA m s = (None, s, [SigSend connB m1])"
    by (simp add: b(1) m1_def sig_processMessage_def handleRequestKCPConnection_def sig_str_def client_message_def assms(3)
        del: map_of_eq_Some_iff)
  have 2: "\<exists>m3. sig_processMessage t3 connB m2 s = (None, s, [SigSend connB m3]) \<and>
      cli_processMessage wr free detect listens t4 m3 cB1 = Returns (Some (''invoke_id not found: '' @ i)) cB1 []"
    if p: "cli_processMessage wr free detect listens t2 m1 cB = Returns e cB1 osB" and o: "WsSend kB m2 \<in> set osB"
    for e cB1 osB kB m2
  proof -
    from p have "cli_handleRequestKCPConnection wr free detect listens t2 m1 cB = Returns e cB1 osB"
      by (simp add: cli_processMessage_def m1_def)
    from handler_answers [OF this] o have c: "cB1 = cB" and a: "answers m1 cB m2" by auto
    then have d: "sgType m2 = ''kcp_connection_response''" "sgFrom m2 = scNodeID cB" "sig_str (sgData m2) ''invoke_id'' = Some i"
      by (simp_all add: answers_def m1_def sig_str_def)
    let ?m3 = "\<lparr>sgType = ''kcp_connection_response'', sgFrom = sgFrom m2, sgTo = sgFrom m2, sgData = sgData m2, sgTimestamp = t3\<rparr>"
    have "sig_processMessage t3 connB m2 s = (None, s, [SigSend connB ?m3])"
      using d assms(3) by (simp add: sig_processMessage_def handleKCPConnectionResponse_def)
    moreover have "cli_processMessage wr free detect listens t4 ?m3 cB1 = Returns (Some (''invoke_id not found: '' @ i)) cB1 []"
      using d assms(4) by (simp add: c cli_processMessage_def cli_handleKCPConnectionResponse_def)
    ultimately show ?thesis by blast
  qed
  have 3: "RequestKCPConnection_finish False (scNodeID cB) i cA1 = None"
    by (simp add: RequestKCPConnection_finish_def b(2) del: map_of_eq_Some_iff)
  show ?thesis by (rule exI [of _ m1]) (intro conjI allI impI 1 2 3; assumption)
qed

text \<open>
  Asking for a node that is not connected to the server crashes the one who asks: the answer of the server
  has an error and the id of the request, and the client reads the other fields without checking for them.
\<close>

theorem offline_target_panics_requester:
  assumes "RequestKCPConnection_begin wr now n c = Returns (Inr i) c1 os" and "WsSend k m \<in> set os"
    and "map_of (ssConnections s) n = None"
  shows "\<exists>m1. sig_processMessage t1 conn m s = (None, s, [SigSend conn m1]) \<and>
    cli_processMessage wr free detect listens t2 m1 c1 = Panics"
proof -
  note b = begin_sends [OF assms(1,2)]
  let ?m1 = "server_message ''kcp_connection_response'' (scNodeID c) [(''error'', GStr ''target node not found''), (''invoke_id'', GStr i)] t1"
  have "sig_processMessage t1 conn m s = (None, s, [SigSend conn ?m1])"
    by (simp add: b(1) sig_processMessage_def handleRequestKCPConnection_def sig_str_def client_message_def assms(3))
  moreover have "cli_processMessage wr free detect listens t2 ?m1 c1 = Panics"
    by (simp add: cli_processMessage_def cli_handleKCPConnectionResponse_def server_message_def sig_str_def b(2) del: map_of_eq_Some_iff)
  ultimately show ?thesis by blast
qed

text \<open>Two clients as they would be after connecting.\<close>

definition ex_client_A :: SignalingClient where
  "ex_client_A = ex_sig_client\<lparr>scConn := Some 1, scConnected := True\<rparr>"

definition ex_client_B :: SignalingClient where
  "ex_client_B = (NewSignalingClient None ''B'' ''b'' 9000 None)\<lparr>scConn := Some 2, scConnected := True\<rparr>"

lemma ex_begin:
  "\<exists>i c1 m. RequestKCPConnection_begin (\<lambda>_ _. None) 3 n ex_client_A = Returns (Inr i) c1 [WsSend 1 m]"
  by (simp add: RequestKCPConnection_begin_def Let_def cli_sendMessage_def with_rlock_def ex_client_A_def ex_sig_client_def
      NewSignalingClient_def)

theorem kcp_answer_goes_astray_witness:
  "\<exists>i c1 m m1. RequestKCPConnection_begin (\<lambda>_ _. None) 3 ''B'' ex_client_A = Returns (Inr i) c1 [WsSend 1 m] \<and>
     sig_processMessage 4 10 m ex_signal = (None, ex_signal, [SigSend 20 m1]) \<and>
     RequestKCPConnection_finish False ''B'' i c1 = None"
proof -
  obtain i c1 m where r: "RequestKCPConnection_begin (\<lambda>_ _. None) 3 ''B'' ex_client_A = Returns (Inr i) c1 [WsSend 1 m]"
    using ex_begin by blast
  have B: "scNodeID ex_client_B = ''B''" by (simp add: ex_client_B_def NewSignalingClient_def Let_def)
  have "map_of (ssConnections ex_signal) (scNodeID ex_client_B) = Some 20" "map_of (invokeChannels ex_client_B) i = None"
    by (simp_all add: B ex_signal_connections) (simp add: ex_client_B_def NewSignalingClient_def Let_def)
  from kcp_answer_goes_astray [OF r [folded B] _ this, of 1 m 4 10 "\<lambda>_. True" "\<lambda>_ _. Inl []" "\<lambda>_. True" 5 6 7] r B
  show ?thesis by auto
qed

theorem offline_target_panics_requester_witness:
  "\<exists>i c1 m m1. RequestKCPConnection_begin (\<lambda>_ _. None) 3 ''C'' ex_client_A = Returns (Inr i) c1 [WsSend 1 m] \<and>
     sig_processMessage 4 10 m ex_signal = (None, ex_signal, [SigSend 10 m1]) \<and>
     cli_processMessage (\<lambda>_ _. None) (\<lambda>_. True) (\<lambda>_ _. Inl []) (\<lambda>_. True) 5 m1 c1 = Panics"
proof -
  obtain i c1 m where r: "RequestKCPConnection_begin (\<lambda>_ _. None) 3 ''C'' ex_client_A = Returns (Inr i) c1 [WsSend 1 m]"
    using ex_begin by blast
  have "map_of (ssConnections ex_signal) ''C'' = None" by (simp add: ex_signal_connections)
  from offline_target_panics_requester [OF r _ this, of 1 m 4 10 "\<lambda>_. True" "\<lambda>_ _. Inl []" "\<lambda>_. True" 5] r
  show ?thesis by auto
qed

end
