(* ===== verification/Net_Node.thy ===== *)
theory Net_Node
  imports Net_PubSub Net_Channel
begin

text \<open>
  The receiving side of a node (\<open>onRecv\<close> in core/Node.go): the check for duplicates, the dispatch of
  the messages addressed to this node, and the forwarding of the others.
\<close>

section \<open>Receiving\<close>

definition recv_hello :: "int \<Rightarrow> string \<Rightarrow> 'd Node \<Rightarrow> 'd Node" where
  "recv_hello now sender n = (case map_of (NodePeers n) sender of
       Some _ \<Rightarrow> n
     | None \<Rightarrow> n\<lparr>NodePeers := AList.update sender \<lparr>LastActiveTime = now, Status = Active\<rparr> (NodePeers n)\<rparr>)"

definition recv_quit :: "string \<Rightarrow> 'd Node \<Rightarrow> 'd Node" where
  "recv_quit quitId n = n\<lparr>NodePeers := AList.delete quitId (NodePeers n)\<rparr>"

definition recv_topic :: "Message \<Rightarrow> 'd Node \<Rightarrow> net_out list" where
  "recv_topic msg n = (case parseTopicMessage (topic_text (mData msg)) of
       None \<Rightarrow> []
     | Some (topic, payload) \<Rightarrow>
         if BundleTo msg \<noteq> [] then [Go (T_handleBundle msg topic payload)]
         else call_subs topic (mFrom msg) payload n)"

definition recv_raft_topic :: "Message \<Rightarrow> 'd Node \<Rightarrow> net_out list" where
  "recv_raft_topic msg n = (case parseTopicMessage (topic_text (mData msg)) of
       None \<Rightarrow> []
     | Some (topic, payload) \<Rightarrow>
         if BundleTo msg \<noteq> [] then [Go (T_handleRaftBundle msg topic payload)]
         else (case getRaftStub topic n of None \<Rightarrow> []
           | Some _ \<Rightarrow> [Go (T_onRaftMessage topic (mFrom msg) (Text payload))]))"

definition recv_raft :: "Message \<Rightarrow> 'd Node \<Rightarrow> net_out list" where
  "recv_raft msg n = (case mData msg of
       RaftJson p \<Rightarrow> (case getRaftStub (pGroup p) n of
           Some _ \<Rightarrow> [Go (T_onRaftMessage (pGroup p) (mFrom msg) (mData msg))]
         | None \<Rightarrow> (case getLearnerStub (pGroup p) n of
               Some _ \<Rightarrow> [Go (T_onLearnerMessage (pGroup p) (mFrom msg) (mData msg))]
             | None \<Rightarrow> []))
     | _ \<Rightarrow> [])"

text \<open>The web servers are tried in turn until one has the client; this is their part.\<close>

definition recv_p2p :: "Message \<Rightarrow> net_out list" where
  "recv_p2p msg = (case mData msg of
       ObjJson payload \<Rightarrow> (case map_of payload ''target_client'' of
           Some (GStr targetClientID) \<Rightarrow> [ClientPackage targetClientID (mFrom msg)
             (case map_of payload ''payload'' of None \<Rightarrow> GNil | Some v \<Rightarrow> v)]
         | _ \<Rightarrow> [])
     | _ \<Rightarrow> [])"

text \<open>A message whose \<open>To\<close> is this node.\<close>

definition recv_local :: "Message \<Rightarrow> 'd Node \<Rightarrow> net_out list" where
  "recv_local msg n = (if isFrp msg then [Go (T_handleFrpMessages msg)]
     else (case mType msg of
         Quit \<Rightarrow> [Go (T_removePeer (mFrom msg))]
       | TopicPublish \<Rightarrow> recv_topic msg n
       | RaftTopicPublish \<Rightarrow> recv_raft_topic msg n
       | RpcRequest \<Rightarrow> [Go (T_handleRpcRequest msg)]
       | RpcResponse \<Rightarrow> [Go (T_handleRpcResponse msg)]
       | P2PMessage \<Rightarrow> recv_p2p msg
       | RaftMessage \<Rightarrow> recv_raft msg n
       | _ \<Rightarrow> []))"

text \<open>A message routed over this node.\<close>

definition recv_forward :: "Message \<Rightarrow> 'd Node \<Rightarrow> net_out list" where
  "recv_forward msg n =
     (let m1 = msg\<lparr>mTTL := mTTL msg - 1\<rparr> in
      if sint (mTTL m1) \<le> 0 then []
      else (case map_of (nRoutes n) (mTo m1) of
          None \<Rightarrow> [Go (T_addToRetryQueue (m1\<lparr>Lost := True\<rparr>))]
        | Some [] \<Rightarrow> [Go (T_addToRetryQueue (m1\<lparr>Lost := True\<rparr>))]
        | Some (r # _) \<Rightarrow>
            (let m2 = m1\<lparr>mRoute := nextHopNodeID r\<rparr> in
             case map_of (Channels n) (LocalChannelID r) of
               None \<Rightarrow> [Go (T_addToRetryQueue (m2\<lparr>Lost := True\<rparr>))]
             | Some _ \<Rightarrow> [SendOn (LocalChannelID r) (nextHopNodeID r) (m2\<lparr>LastSender := nID n\<rparr>)])))"

text \<open>The broadcasts that are checked for duplicates.\<close>

definition recv_flood :: "Message \<Rightarrow> task option" where
  "recv_flood msg = (case mType msg of
       TopicInit \<Rightarrow> Some (T_handleTopicInit msg)
     | TopicExit \<Rightarrow> Some (T_handleTopicExit msg)
     | TopicSubscribeFlood \<Rightarrow> Some (T_handleSubscribeFlood msg)
     | RpcServiceFlood \<Rightarrow> Some (T_handleRpcServiceFlood msg)
     | RaftTopicSubscribeFlood \<Rightarrow> Some (T_handleRaftSubscribeFlood msg)
     | _ \<Rightarrow> None)"

definition onRecv :: "int \<Rightarrow> Message \<Rightarrow> 'd Node \<Rightarrow> 'd Node \<times> net_out list" where
  "onRecv now msg n =
     (if mType msg = Hello then (recv_hello now (mFrom msg) n, [])
      else if mType msg = HeartBeat then (n, [Go (T_handleHeartbeat msg)])
      else if generateMsgKey msg \<in> set (ReceivedMsgs n) then (n, [])
      else
        let n1 = n\<lparr>ReceivedMsgs := generateMsgKey msg # ReceivedMsgs n\<rparr> in
        case recv_flood msg of
          Some task \<Rightarrow> (n1, [Go task])
        | None \<Rightarrow>
            if mTo msg = nID n1 then (n1, recv_local msg n1)
            else if mRoute msg = nID n1 then (n1, recv_forward msg n1)
            else (n1, []))"

text \<open>The first steps of \<open>Register\<close>; then the loops start.\<close>

definition Register :: "'d Node \<Rightarrow> 'd Node \<times> net_out list" where
  "Register n = (let (n1, o1) = hello n in (n1, o1 @ CheckPeersNew n1))"

section \<open>Duplicates\<close>

definition checked :: "Message \<Rightarrow> bool" where
  "checked m \<longleftrightarrow> mType m \<noteq> Hello \<and> mType m \<noteq> HeartBeat"

fun recv_run :: "(int \<times> Message) list \<Rightarrow> 'd Node \<Rightarrow> net_out list list" where
  "recv_run [] n = []"
| "recv_run ((now, m) # ms) n = (let (n1, os) = onRecv now m n in os # recv_run ms n1)"

lemma received_onRecv:
  "set (ReceivedMsgs (fst (onRecv now m n))) =
     (if checked m then insert (generateMsgKey m) (set (ReceivedMsgs n)) else set (ReceivedMsgs n))"
  by (auto simp: onRecv_def checked_def recv_hello_def Let_def split: option.split)

lemma onRecv_duplicate:
  "checked m \<Longrightarrow> generateMsgKey m \<in> set (ReceivedMsgs n) \<Longrightarrow> onRecv now m n = (n, [])"
  by (simp add: onRecv_def checked_def)

lemma length_recv_run [simp]: "length (recv_run ms n) = length ms"
proof (induction ms arbitrary: n)
  case (Cons x ms)
  then show ?case by (cases x) (simp add: split_beta)
qed simp

lemma recv_run_silent:
  assumes "i < length ms" and "checked (snd (ms ! i))" and "generateMsgKey (snd (ms ! i)) \<in> set (ReceivedMsgs n)"
  shows "recv_run ms n ! i = []"
  using assms
proof (induction ms n arbitrary: i rule: recv_run.induct)
  case (2 now m ms n)
  show ?case
  proof (cases i)
    case 0
    with 2 onRecv_duplicate [of m n now] show ?thesis by simp
  next
    case (Suc j)
    then have k: "j < length ms" "checked (snd (ms ! j))"
      "generateMsgKey (snd (ms ! j)) \<in> set (ReceivedMsgs (fst (onRecv now m n)))"
      using 2(2-4) by (auto simp: received_onRecv)
    have "recv_run ms (fst (onRecv now m n)) ! j = []"
      by (rule 2(1) [OF refl _ k]) (simp add: prod_eq_iff)
    with Suc show ?thesis by (simp add: split_beta)
  qed
qed simp

text \<open>
  C8: Between two cleanups of the table of received messages, a node acts at most once on messages
  with the same origin, version and type: of two such messages the later one has no effect at all
  (greetings and heartbeats, which are not checked, excepted). The key text is unambiguous, so
  messages that differ in one of the three are never taken for duplicates.
\<close>

theorem duplicates_have_no_effect:
  assumes "i < j" and "j < length ms" and "checked (snd (ms ! i))" and "checked (snd (ms ! j))"
    and "mFrom (snd (ms ! i)) = mFrom (snd (ms ! j))" and "mType (snd (ms ! i)) = mType (snd (ms ! j))"
    and "VersionSeq (snd (ms ! i)) = VersionSeq (snd (ms ! j))"
  shows "recv_run ms n ! j = [] \<and>
    (generateMsgKey m = generateMsgKey m' \<longleftrightarrow>
       mFrom m = mFrom m' \<and> VersionSeq m = VersionSeq m' \<and> mType m = mType m')"
proof
  have "generateMsgKey (snd (ms ! i)) = generateMsgKey (snd (ms ! j))"
    using assms(5-7) by (simp add: generateMsgKey_eq)
  with assms(1-4) show "recv_run ms n ! j = []"
  proof (induction ms n arbitrary: i j rule: recv_run.induct)
    case (2 now m ms n)
    obtain j' where j: "j = Suc j'" using 2(2) by (cases j) auto
    show ?case
    proof (cases i)
      case 0
      have "recv_run ms (fst (onRecv now m n)) ! j' = []"
        using 2(3-6) 0 j by (intro recv_run_silent) (auto simp: received_onRecv)
      then show ?thesis by (simp add: j split_beta)
    next
      case (Suc i')
      have "recv_run ms (fst (onRecv now m n)) ! j' = []"
        using 2(2-6) Suc j by (intro 2(1) [OF refl, of _ _ i']) (auto simp: prod_eq_iff)
      then show ?thesis by (simp add: j split_beta)
    qed
  qed simp
qed (rule generateMsgKey_eq)

definition ex_message :: "MessageType \<Rightarrow> string \<Rightarrow> string \<Rightarrow> nat \<Rightarrow> Message" where
  "ex_message ty from1 to1 v = zero_message\<lparr>mType := ty, mFrom := from1, mTo := to1, mTTL := 100,
     VersionSeq := of_nat v\<rparr>"

theorem duplicates_have_no_effect_witness:
  "recv_run [(0, ex_message RpcRequest ''a'' ''b'' 1), (1, ex_message RpcRequest ''a'' ''b'' 2),
     (2, ex_message RpcRequest ''a'' ''b'' 1)] (NewNode ''b'' :: unit Node) ! 2 = []"
  by (rule conjunct1 [OF duplicates_have_no_effect [of 0]])
    (simp_all add: checked_def ex_message_def)

section \<open>Retried messages\<close>

text \<open>
  A message that a forwarding node has to retry is sent under the name of its origin with the
  version counter of the forwarder, although versions are only unique per origin: a receiver that has
  acted on it ignores the origin's own message of the same type whose version happens to be that
  number.
\<close>

theorem retried_message_hides_another:
  assumes "RetryQueue b = m # rest" and "retry_tick b = (b', os)" and "sent_messages os = [sent]"
    and "checked m" and "checked m2" and "mFrom m2 = mFrom m" and "mType m2 = mType m"
    and "VersionSeq m2 = word_of_int (MessageVersionCounter b)"
  shows "mFrom sent = mFrom m \<and> VersionSeq sent = word_of_int (MessageVersionCounter b) \<and>
    onRecv t2 m2 (fst (onRecv t1 sent c)) = (fst (onRecv t1 sent c), [])"
proof -
  have "retry_tick b = sendTo (mTo m) m [] (b\<lparr>RetryQueue := rest\<rparr>)"
    using assms(1) by (simp add: retry_tick_def)
  with sendTo_sent(2) [of "mTo m" m "[]" "b\<lparr>RetryQueue := rest\<rparr>"] assms(2,3)
  have r: "restamped (MessageVersionCounter b) (mTo m) m sent" by auto
  then have s: "mFrom sent = mFrom m" "VersionSeq sent = word_of_int (MessageVersionCounter b)" "checked sent"
    using assms(4) by (auto simp: restamped_def checked_def)
  have "generateMsgKey m2 = generateMsgKey sent"
    using s r assms(6-8) by (simp add: generateMsgKey_eq restamped_def)
  then have "onRecv t2 m2 (fst (onRecv t1 sent c)) = (fst (onRecv t1 sent c), [])"
    using s(3) assms(5) by (intro onRecv_duplicate) (auto simp: received_onRecv)
  with s show ?thesis by simp
qed

theorem retried_message_hides_another_witness:
  "\<exists>sent. sent_messages (snd (retry_tick ((NewNode ''b'' :: unit Node)\<lparr>MessageVersionCounter := 7,
      RetryQueue := [ex_message RpcRequest ''a'' ''c'' 3]\<rparr>))) = [sent] \<and>
    snd (onRecv 1 (ex_message RpcRequest ''a'' ''c'' 7) (fst (onRecv 0 sent (NewNode ''c'' :: unit Node)))) = []"
proof -
  let ?m = "ex_message RpcRequest ''a'' ''c'' 3"
  let ?b = "(NewNode ''b'' :: unit Node)\<lparr>MessageVersionCounter := 7, RetryQueue := [?m]\<rparr>"
  obtain b' os where r: "retry_tick ?b = (b', os)" by fastforce
  obtain sent where s: "sent_messages os = [sent]"
    using sendTo_sent(2) [of "mTo ?m" ?m "[]" "?b\<lparr>RetryQueue := []\<rparr>"] r by (auto simp: retry_tick_def)
  have "RetryQueue ?b = ?m # []" by simp
  from retried_message_hides_another [OF this r s, of "ex_message RpcRequest ''a'' ''c'' 7" 1 0 "NewNode ''c'' :: unit Node"]
  have "snd (onRecv 1 (ex_message RpcRequest ''a'' ''c'' 7) (fst (onRecv 0 sent (NewNode ''c'' :: unit Node)))) = []"
    by (simp add: ex_message_def checked_def)
  with r s show ?thesis by auto
qed

end
