(* ===== verification/Net_Rpc.thy ===== *)
theory Net_Rpc
  imports Net_Node
begin

text \<open>
  Remote procedure calls (core/RPC.go): the registry of local functions and the table of all
  functions that the floods build, a call from request to result, and the functions every node
  registers; and the removal of a client, which also clears its subscriptions (core/Node.go).

  A callback is a handle; the parameter \<open>call\<close> interprets it: the node it leaves, its result, or
  \<open>None\<close> when it panics, and its outputs. \<open>MakeRpcRequest\<close> waits for the result and is split where it waits:
  \<open>rpc_begin\<close> is the part before, \<open>rpc_finish\<close> the part after, with what ended the wait.
\<close>

type_synonym 'd rpc_call = "int \<Rightarrow> string \<Rightarrow> params \<Rightarrow> string \<Rightarrow> string \<Rightarrow> int \<Rightarrow> 'd Node \<Rightarrow> 'd Node \<times> goval option \<times> net_out list"

section \<open>The registry\<close>

definition registerRpcService :: "string \<Rightarrow> string \<Rightarrow> RPC_Func \<Rightarrow> 'd Node \<Rightarrow> 'd Node \<times> net_out list" where
  "registerRpcService funcName provider f n =
     (n\<lparr>RpcFuncs := AList.update funcName (AList.update provider f (row_of (RpcFuncs n) funcName)) (RpcFuncs n)\<rparr>,
      [Go T_floodRpcServices])"

definition unregisterRpcService :: "string \<Rightarrow> string \<Rightarrow> 'd Node \<Rightarrow> 'd Node \<times> net_out list" where
  "unregisterRpcService funcName provider n = (case map_of (RpcFuncs n) funcName of
       None \<Rightarrow> (n, [])
     | Some providers \<Rightarrow>
         (let ps = AList.delete provider providers in
          (n\<lparr>RpcFuncs := if ps = [] then AList.delete funcName (RpcFuncs n)
               else AList.update funcName ps (RpcFuncs n)\<rparr>, [Go T_floodRpcServices])))"

definition findTargetLocalRpcService :: "string \<Rightarrow> string \<Rightarrow> 'd Node \<Rightarrow> RPC_Func option" where
  "findTargetLocalRpcService funcName provider n = (case map_of (RpcFuncs n) funcName of
       None \<Rightarrow> None | Some providers \<Rightarrow> map_of providers provider)"

definition UnregisterRpcServicesByClient :: "string \<Rightarrow> 'd Node \<Rightarrow> 'd Node" where
  "UnregisterRpcServicesByClient clientID n = n\<lparr>RpcFuncs := filter (\<lambda>(_, ps). ps \<noteq> [])
     (map (\<lambda>(f, ps). (f, AList.delete clientID ps)) (RpcFuncs n))\<rparr>"

definition RemoveClient :: "string \<Rightarrow> 'd Node \<Rightarrow> 'd Node \<times> net_out list" where
  "RemoveClient clientID n =
     (let n1 = n\<lparr>ClientIDs := filter (\<lambda>i. i \<noteq> clientID) (ClientIDs n)\<rparr>;
          (n2, os) = clearSubClient clientID n1
      in (UnregisterRpcServicesByClient clientID n2, os))"

section \<open>Floods\<close>

text \<open>A function with several providers is announced with the one the range loop visits last.\<close>

definition floodRpcServices :: "'d Node \<Rightarrow> 'd Node \<times> net_out list" where
  "floodRpcServices n =
     (let functions = map (\<lambda>(f, ps). (f, fst (last ps))) (filter (\<lambda>(_, ps). ps \<noteq> []) (RpcFuncs n));
          (msg, n1) = stamp (zero_message\<lparr>mType := RpcServiceFlood, mData := RpcsJson (nID n) functions,
            mFrom := nID n, mTTL := 1, LastSender := nID n\<rparr>) n
      in (n1, broadcast_all msg n1))"

definition handleRpcServiceFlood :: "Message \<Rightarrow> 'd Node \<Rightarrow> net_out list" where
  "handleRpcServiceFlood msg n = (case mData msg of
       RpcsJson node functions \<Rightarrow> Go (T_updateTotalRpcs node functions) # broadcast_all (relayed msg n) n
     | _ \<Rightarrow> [])"

text \<open>The goroutine that \<open>handleRpcServiceFlood\<close> starts.\<close>

definition updateTotalRpcs :: "string \<Rightarrow> (string \<times> string) list \<Rightarrow> 'd Node \<Rightarrow> 'd Node" where
  "updateTotalRpcs node functions n = n\<lparr>TotalRpcs :=
     fold (\<lambda>(funcName, provider) t. AList.update funcName (AList.update node provider (row_of t funcName)) t)
       functions
       (filter (\<lambda>(_, nodeMap). nodeMap \<noteq> [])
         (map (\<lambda>(funcName, nodeMap). (funcName, AList.delete node nodeMap)) (TotalRpcs n)))\<rparr>"

section \<open>Requests\<close>

definition rpc_key :: "string \<Rightarrow> int \<Rightarrow> string" where
  "rpc_key from1 invokeId = from1 @ '':'' @ itoa invokeId"

definition isDuplicateRpc :: "int \<Rightarrow> string \<Rightarrow> int \<Rightarrow> 'd Node \<Rightarrow> bool \<times> 'd Node" where
  "isDuplicateRpc now from1 invokeId n =
     (let key = rpc_key from1 invokeId in
      case map_of (ReceivedRpcCache n) key of
        Some _ \<Rightarrow> (True, n)
      | None \<Rightarrow> (False, n\<lparr>ReceivedRpcCache := AList.update key now (ReceivedRpcCache n)\<rparr>))"

text \<open>A tick of \<open>startCleanRpcCacheLoop\<close>: entries older than ten minutes are dropped.\<close>

definition cleanRpcCache_tick :: "int \<Rightarrow> 'd Node \<Rightarrow> 'd Node" where
  "cleanRpcCache_tick now n = n\<lparr>ReceivedRpcCache :=
     filter (\<lambda>(_, v). \<not> v < now - 10 * 60 * 10 ^ 9) (ReceivedRpcCache n)\<rparr>"

definition rpc_error :: "string \<Rightarrow> goval" where
  "rpc_error msg = GMap [(''error'', GStr msg)]"

text \<open>The result and the success flag.\<close>

definition invokeLocalRpc ::
  "'d rpc_call \<Rightarrow> string \<Rightarrow> string \<Rightarrow> params \<Rightarrow> 'd Node \<Rightarrow> 'd Node \<times> (goval \<times> bool) \<times> net_out list" where
  "invokeLocalRpc call provider fun params n = (case findTargetLocalRpcService fun provider n of
       None \<Rightarrow> (n, (rpc_error ''function not found'', False), [])
     | Some targetFunc \<Rightarrow> (case fnCallback targetFunc of
         None \<Rightarrow> (n, (rpc_error ''callback not defined'', False), [])
       | Some cb \<Rightarrow>
           (let (n1, r, os) = call cb fun params (nID n) (nID n) 0 n in
            (n1, (case r of None \<Rightarrow> rpc_error ''internal error'' | Some v \<Rightarrow> v, True), os))))"

definition rpc_begin :: "string \<Rightarrow> string \<Rightarrow> string \<Rightarrow> params \<Rightarrow> 'd Node \<Rightarrow> int \<times> 'd Node \<times> net_out list" where
  "rpc_begin peer targetFuncProvider fun params n =
     (let n1 = addInvokedId n; cId = InvokedId n1;
          msg = zero_message\<lparr>mType := RpcRequest, mData := RpcReqJson fun params, Entity := targetFuncProvider,
            mFrom := nID n, mTo := peer, mTTL := 100, mInvokeId := cId, LastSender := nID n\<rparr>;
          stub = \<lparr>stTarget = peer, stParams = params, stFun = fun\<rparr>
      in (cId, n1\<lparr>ActiveStubs := (ActiveStubs n1)(cId \<mapsto> stub)\<rparr>, [Go (T_sendTo peer msg)]))"

text \<open>What ends the wait: a value on the result channel, its closing, or the timeout of six seconds.\<close>

datatype rpc_wait = Result goval | Closed | Timeout

definition has_error :: "goval \<Rightarrow> bool" where
  "has_error v = (case v of GMap m \<Rightarrow> map_of m ''error'' \<noteq> None | _ \<Rightarrow> False)"

definition rpc_finish :: "int \<Rightarrow> rpc_wait \<Rightarrow> 'd Node \<Rightarrow> 'd Node \<times> goval \<times> bool" where
  "rpc_finish cId w n = (n\<lparr>ActiveStubs := (ActiveStubs n)(cId := None)\<rparr>,
     (case w of
        Result v \<Rightarrow> if has_error v then (GNil, False) else (v, True)
      | Closed \<Rightarrow> (GNil, False)
      | Timeout \<Rightarrow> (GNil, False)))"

text \<open>\<open>MakeRpcRequest\<close> with the remote part as a parameter: how the wait ends and the node then.\<close>

definition MakeRpcRequest ::
  "'d rpc_call \<Rightarrow> (int \<Rightarrow> 'd Node \<Rightarrow> 'd Node \<times> rpc_wait) \<Rightarrow> string \<Rightarrow> string \<Rightarrow> string \<Rightarrow> params \<Rightarrow> 'd Node \<Rightarrow>
     'd Node \<times> (goval \<times> bool) \<times> net_out list" where
  "MakeRpcRequest call wait peer provider fun params n =
     (if peer = nID n then invokeLocalRpc call provider fun params n
      else
        let (cId, n1, os) = rpc_begin peer provider fun params n;
            (n2, w) = wait cId n1;
            (n3, r) = rpc_finish cId w n2
        in (n3, r, os))"

definition rpc_response :: "Message \<Rightarrow> string \<Rightarrow> goval \<Rightarrow> string \<Rightarrow> 'd Node \<Rightarrow> net_out list" where
  "rpc_response msg fun result err n = [Go (T_sendTo (mFrom msg) (zero_message\<lparr>mType := RpcResponse,
     mData := RpcRespJson fun result err, mFrom := nID n, mTo := mFrom msg, mTTL := 100,
     mInvokeId := mInvokeId msg, LastSender := nID n\<rparr>))]"

definition sendRpcErrorResponse :: "Message \<Rightarrow> string \<Rightarrow> string \<Rightarrow> 'd Node \<Rightarrow> net_out list" where
  "sendRpcErrorResponse msg fun errMsg n = rpc_response msg fun GNil errMsg n"

definition handleRpcRequest :: "'d rpc_call \<Rightarrow> int \<Rightarrow> Message \<Rightarrow> 'd Node \<Rightarrow> 'd Node \<times> net_out list" where
  "handleRpcRequest call now msg n = (case mData msg of
       RpcReqJson fun params \<Rightarrow>
         (let (dup, n1) = isDuplicateRpc now (mFrom msg) (mInvokeId msg) n in
          if dup then (n1, sendRpcErrorResponse msg fun (''duplicate invokeId: '' @ itoa (mInvokeId msg)) n1)
          else (case findTargetLocalRpcService fun (Entity msg) n1 of
              None \<Rightarrow> (n1, sendRpcErrorResponse msg fun ''function not found or no callback registered'' n1)
            | Some targetFunc \<Rightarrow> (case fnCallback targetFunc of
                None \<Rightarrow> (n1, sendRpcErrorResponse msg fun ''function not found or no callback registered'' n1)
              | Some cb \<Rightarrow>
                  (let (n2, r, os) = call cb fun params (mFrom msg) (nID n1) (mInvokeId msg) n1 in
                   (n2, os @ rpc_response msg fun (case r of None \<Rightarrow> GNil | Some v \<Rightarrow> v) [] n2)))))
     | _ \<Rightarrow> (n, sendRpcErrorResponse msg [] ''invalid JSON format'' n))"

definition handleRpcResponse :: "Message \<Rightarrow> 'd Node \<Rightarrow> net_out list" where
  "handleRpcResponse msg n = (case mData msg of
       RpcRespJson fun result err \<Rightarrow> (case ActiveStubs n (mInvokeId msg) of
           None \<Rightarrow> []
         | Some stub \<Rightarrow> [StubResult (mInvokeId msg) (if err \<noteq> []
             then GMap [(''error'', GStr err), (''fun'', GStr fun), (''target'', GStr (stTarget stub))]
             else result)])
     | _ \<Rightarrow> [])"

section \<open>Functions every node registers\<close>

definition num_param :: "params \<Rightarrow> string \<Rightarrow> int" where
  "num_param ps k = (case map_of ps k of Some (GNum x) \<Rightarrow> x | _ \<Rightarrow> 0)"

definition str_param :: "params \<Rightarrow> string \<Rightarrow> string option" where
  "str_param ps k = (case map_of ps k of Some (GStr s) \<Rightarrow> Some s | _ \<Rightarrow> None)"

definition rpc_add :: "params \<Rightarrow> goval" where
  "rpc_add ps = GMap [(''sum'', GNum (num_param ps ''a'' + num_param ps ''b''))]"

definition rpc_echo :: "params \<Rightarrow> goval" where
  "rpc_echo ps = GMap [(''echo'', GMap ps)]"

definition rpc_whoami :: "'d Node \<Rightarrow> goval" where
  "rpc_whoami n = GMap [(''id'', GStr (nID n))]"

definition rpc_longtext :: goval where
  "rpc_longtext = GMap [(''data'', GStr (concat (replicate 100 ''HelloWorld '')))]"

text \<open>\<open>nano\<close> is the clock; the parameters are integral.\<close>

definition rpc_randint :: "int \<Rightarrow> params \<Rightarrow> goval" where
  "rpc_randint nano ps =
     (let lo = num_param ps ''min''; hi = num_param ps ''max'';
          (lo, hi) = (if hi < lo then (hi, lo) else (lo, hi))
      in GMap [(''value'', GNum (lo + nano mod (hi - lo + 1)))])"

definition rpc_allrpcs :: "params \<Rightarrow> 'd Node \<Rightarrow> goval" where
  "rpc_allrpcs ps n = (case str_param ps ''rpc_provider'' of
       None \<Rightarrow> rpc_error (''missing or invalid '' @ [CHR 0x27] @ ''provider'' @ [CHR 0x27] @ '' parameter'')
     | Some provider \<Rightarrow> GList (List.map_filter (\<lambda>(f, provMap). (case map_of provMap provider of
           None \<Rightarrow> None
         | Some fn \<Rightarrow> Some (GMap [(''name'', GStr f), (''note'', GStr (fnNote fn))]))) (RpcFuncs n)))"

text \<open>\<open>stamp_text\<close> is \<open>time.Now().Format(time.RFC3339)\<close>.\<close>

definition rpc_time :: "string \<Rightarrow> goval" where
  "rpc_time stamp_text = GMap [(''time'', GStr stamp_text)]"

text \<open>
  The code points of a UTF-8 string, each as its bytes: a byte and the continuation bytes
  (\<open>10xxxxxx\<close>) after it. Parameters come from decoded JSON, which is valid UTF-8.
\<close>

definition continuation :: "char \<Rightarrow> bool" where
  "continuation c \<longleftrightarrow> 128 \<le> (of_char c :: nat) \<and> (of_char c :: nat) < 192"

function runes :: "string \<Rightarrow> string list" where
  "runes [] = []"
| "runes (c # cs) = (c # takeWhile continuation cs) # runes (dropWhile continuation cs)"
  by pat_completeness auto
termination by (relation "measure length") (auto simp: le_imp_less_Suc length_dropWhile_le)

definition rpc_reverse :: "params \<Rightarrow> goval" where
  "rpc_reverse ps = GMap [(''reversed'', GStr (concat (rev (runes
     (case str_param ps ''s'' of None \<Rightarrow> [] | Some s \<Rightarrow> s)))))]"

lemma concat_runes: "concat (runes s) = s"
  by (induction s rule: runes.induct) simp_all

section \<open>What the tables mean\<close>

text \<open>The provider that a node offers for a function, as far as this node knows.\<close>

definition offered :: "'d Node \<Rightarrow> string \<Rightarrow> string \<Rightarrow> string option" where
  "offered n f node = map_of (row_of (TotalRpcs n) f) node"

lemma map_of_map_rows: "map_of (map (\<lambda>(k, r). (k, g r)) al) k = map_option g (map_of al k)"
  by (induction al) auto

lemma row_of_cleaned:
  assumes "distinct (map fst al)"
  shows "row_of (filter (\<lambda>(_, r). r \<noteq> []) (map (\<lambda>(k, r). (k, AList.delete node r)) al)) f =
    AList.delete node (row_of al f)"
proof -
  have "distinct (map fst (map (\<lambda>(k, r). (k, AList.delete node r)) al))"
    using assms by (simp add: comp_def case_prod_unfold)
  from map_of_filter [OF this] show ?thesis
    by (cases "map_of al f") (auto simp: row_of_def map_of_map_rows)
qed

lemma offered_fold:
  "map_of (row_of (fold (\<lambda>(f, p) t. AList.update f (AList.update node p (row_of t f)) t) fs t) f) x =
     (if x = node \<and> map_of (rev fs) f \<noteq> None then map_of (rev fs) f else map_of (row_of t f) x)"
proof (induction fs arbitrary: t)
  case (Cons a fs)
  obtain g p where a: "a = (g, p)" by (cases a)
  show ?case by (auto simp: Cons.IH a row_of_update map_add_def split: option.split)
qed simp

lemma map_of_rev: "distinct (map fst al) \<Longrightarrow> map_of (rev al) k = map_of al k"
proof (rule map_of_eqI [THEN fun_cong])
  assume d: "distinct (map fst al)"
  show "set (map fst (rev al)) = set (map fst al)"
    by simp
  show "\<forall>k \<in> set (map fst (rev al)). map_of (rev al) k = map_of al k"
  proof
    fix k assume "k \<in> set (map fst (rev al))"
    then obtain v where v: "(k, v) \<in> set al" by auto
    with d have "map_of al k = Some v" by simp
    moreover from d v have "map_of (rev al) k = Some v"
      by (intro map_of_is_SomeI) (simp_all add: rev_map [symmetric])
    ultimately show "map_of (rev al) k = map_of al k" by simp
  qed
qed

section \<open>Properties\<close>

text \<open>
  A flood of RPC services replaces what is known of its sender: afterwards the node offers exactly
  the functions the flood lists, with the providers it names, what other nodes offer is unchanged,
  and the flood that a node sends lists exactly its functions that have a provider.
\<close>

theorem rpc_flood_replaces:
  assumes "distinct (map fst (TotalRpcs n))" and "distinct (map fst fs)"
  shows "offered (updateTotalRpcs node fs n) f x = (if x = node then map_of fs f else offered n f x) \<and>
    (\<exists>m n1 gs. floodRpcServices b = (n1, broadcast_all m n1) \<and> mData m = RpcsJson (nID b) gs \<and>
      (distinct (map fst (RpcFuncs b)) \<longrightarrow> (\<forall>f. map_of gs f \<noteq> None \<longleftrightarrow> row_of (RpcFuncs b) f \<noteq> []) \<and>
        (\<forall>f p. map_of gs f = Some p \<longrightarrow> p \<in> fst ` set (row_of (RpcFuncs b) f))))"
proof
  show "offered (updateTotalRpcs node fs n) f x = (if x = node then map_of fs f else offered n f x)"
    by (auto simp: offered_def updateTotalRpcs_def offered_fold row_of_cleaned [OF assms(1)] map_of_rev [OF assms(2)])
  let ?gs = "map (\<lambda>(f, ps). (f, fst (last ps))) (filter (\<lambda>(_, ps). ps \<noteq> []) (RpcFuncs b))"
  have "map_of ?gs f = (if row_of (RpcFuncs b) f \<noteq> [] then Some (fst (last (row_of (RpcFuncs b) f))) else None)"
    if "distinct (map fst (RpcFuncs b))" for f
    using that by (cases "map_of (RpcFuncs b) f") (auto simp: map_of_map_rows map_of_filter row_of_def)
  then show "\<exists>m n1 gs. floodRpcServices b = (n1, broadcast_all m n1) \<and> mData m = RpcsJson (nID b) gs \<and>
      (distinct (map fst (RpcFuncs b)) \<longrightarrow> (\<forall>f. map_of gs f \<noteq> None \<longleftrightarrow> row_of (RpcFuncs b) f \<noteq> []) \<and>
        (\<forall>f p. map_of gs f = Some p \<longrightarrow> p \<in> fst ` set (row_of (RpcFuncs b) f)))"
    by (auto simp: floodRpcServices_def Let_def stamp_def)
qed

theorem rpc_flood_replaces_witness:
  "offered (updateTotalRpcs ''b'' [(''f'', ''p''), (''g'', ''q'')]
     ((NewNode ''a'' :: unit Node)\<lparr>TotalRpcs := [(''f'', [(''c'', ''r'')]), (''h'', [(''b'', ''old'')])]\<rparr>)) ''h'' ''b'' = None"
proof -
  let ?n = "(NewNode ''a'' :: unit Node)\<lparr>TotalRpcs := [(''f'', [(''c'', ''r'')]), (''h'', [(''b'', ''old'')])]\<rparr>"
  have "distinct (map fst (TotalRpcs ?n))" and "distinct (map fst [(''f'', ''p''), (''g'', ''q'')])"
    by simp_all
  from conjunct1 [OF rpc_flood_replaces [where b = ?n, OF this]] show ?thesis by simp
qed

lemma cached_after:
  assumes "mData m = RpcReqJson fun ps"
    and "\<And>cb n'. ReceivedRpcCache (fst (call cb fun ps (mFrom m) (nID n') (mInvokeId m) n')) = ReceivedRpcCache n'"
  shows "map_of (ReceivedRpcCache (fst (handleRpcRequest call now m n))) (rpc_key (mFrom m) (mInvokeId m)) \<noteq> None"
proof -
  let ?k = "rpc_key (mFrom m) (mInvokeId m)"
  obtain dup n1 where d: "isDuplicateRpc now (mFrom m) (mInvokeId m) n = (dup, n1)" by fastforce
  have k: "map_of (ReceivedRpcCache n1) ?k \<noteq> None"
    using d by (auto simp: isDuplicateRpc_def Let_def split: option.splits)
  have "ReceivedRpcCache (fst (handleRpcRequest call now m n)) = ReceivedRpcCache n1"
    using assms(2) by (auto simp: handleRpcRequest_def assms(1) d split_beta split: option.split)
  with k show ?thesis by simp
qed


text \<open>A server with an echo function, and the first request of a node.\<close>

definition ex_call :: "unit rpc_call" where
  "ex_call cb fun ps from1 to1 i n = (n, Some (rpc_echo ps), [])"

definition ex_server :: "unit Node" where
  "ex_server = fst (registerRpcService ''echo'' ''init'' \<lparr>fnNote = [], fnCallback = Some 1\<rparr> (NewNode ''s''))"

definition ex_request :: "string \<Rightarrow> params \<Rightarrow> Message" where
  "ex_request fun ps = zero_message\<lparr>mType := RpcRequest, mData := RpcReqJson fun ps, Entity := ''init'',
     mFrom := ''c'', mTo := ''s'', mTTL := 100, mInvokeId := 1, LastSender := ''c''\<rparr>"

lemma ex_request_is_first:
  "snd (snd (rpc_begin ''s'' ''init'' fun ps (NewNode ''c'' :: unit Node))) = [Go (T_sendTo ''s'' (ex_request fun ps))]"
  by (simp add: rpc_begin_def NewNode_def addInvokedId_def ex_request_def Let_def)


end
