(* ===== verification/Net_Client.thy ===== *)
theory Net_Client
  imports Net_Rpc
begin

text \<open>
  core/SimpleClient.go: a client attached to a node, and what the node keeps of it. The pointer to the
  node is the id of the node; the operations take the node it points to and return it changed.
\<close>

section \<open>Clients\<close>

record Client =
  ClientId :: string
  TargetNode :: "string option"

definition NewClient :: "string \<Rightarrow> Client" where
  "NewClient clientId = \<lparr>ClientId = clientId, TargetNode = None\<rparr>"

definition not_connected :: "Client \<Rightarrow> string" where
  "not_connected c = ''client '' @ ClientId c @ '' not connected to any Node''"

definition client_Connect :: "'d Node \<Rightarrow> Client \<Rightarrow> string + Client \<times> 'd Node" where
  "client_Connect n c = (case TargetNode c of
       Some i \<Rightarrow> Inl (''client '' @ ClientId c @ '' is already connected to Node '' @ i)
     | None \<Rightarrow> Inr (c\<lparr>TargetNode := Some (nID n)\<rparr>, AddClient (ClientId c) n))"

definition client_Disconnect :: "'d Node \<Rightarrow> Client \<Rightarrow> Client \<times> 'd Node \<times> net_out list" where
  "client_Disconnect n c = (case TargetNode c of
       None \<Rightarrow> (c, n, [])
     | Some _ \<Rightarrow> (c\<lparr>TargetNode := None\<rparr>, RemoveClient (ClientId c) n))"

definition client_Subscribe :: "string \<Rightarrow> int \<Rightarrow> 'd Node \<Rightarrow> Client \<Rightarrow> string + 'd Node \<times> net_out list" where
  "client_Subscribe topic cb n c = (case TargetNode c of
       None \<Rightarrow> Inl (not_connected c)
     | Some _ \<Rightarrow> Inr (addLocalSub topic (ClientId c) cb n))"

definition client_Unsubscribe :: "string \<Rightarrow> 'd Node \<Rightarrow> Client \<Rightarrow> string + 'd Node \<times> net_out list" where
  "client_Unsubscribe topic n c = (case TargetNode c of
       None \<Rightarrow> Inl (not_connected c)
     | Some _ \<Rightarrow> Inr (removeLocalSub topic (ClientId c) n))"

definition client_Publish ::
  "((string \<times> string list) list \<Rightarrow> (string \<times> string list) list) \<Rightarrow> string \<Rightarrow> string \<Rightarrow> 'd Node \<Rightarrow> Client \<Rightarrow>
     string + 'd Node \<times> net_out list" where
  "client_Publish ord topic message n c = (case TargetNode c of
       None \<Rightarrow> Inl (not_connected c)
     | Some _ \<Rightarrow> Inr (publishOnTopic ord topic message n))"

section \<open>What a node keeps of a client\<close>

definition sub_of :: "'d Node \<Rightarrow> string \<Rightarrow> string \<Rightarrow> int option" where
  "sub_of n t c = map_of (row_of (MySubs n) t) c"

definition func_of :: "'d Node \<Rightarrow> string \<Rightarrow> string \<Rightarrow> RPC_Func option" where
  "func_of n f c = map_of (row_of (RpcFuncs n) f) c"

lemma sub_of_add: "sub_of (fst (addLocalSub t c cb n)) t' c' = (if t' = t \<and> c' = c then Some cb else sub_of n t' c')"
  by (auto simp: sub_of_def addLocalSub_def row_of_def stamp_def addMessageCounter_def Let_def split: option.split)

lemma sub_of_remove: "sub_of (fst (removeLocalSub t c n)) t' c' = (if t' = t \<and> c' = c then None else sub_of n t' c')"
proof (cases "map_of (MySubs n) t")
  case None
  then show ?thesis by (auto simp: sub_of_def removeLocalSub_def row_of_def)
next
  case (Some subs)
  have d: "map_of subs c' = None" if "AList.delete c subs = []" "c' \<noteq> c" for c'
    using that map_of_delete [of c subs] by (metis fun_upd_apply map_of.simps(1))
  from Some show ?thesis
    by (auto simp: sub_of_def removeLocalSub_def row_of_def stamp_def addMessageCounter_def Let_def d)
qed

lemma removeLocalSub_frame [simp]:
  "RpcFuncs (fst (removeLocalSub t c n)) = RpcFuncs n" "ClientIDs (fst (removeLocalSub t c n)) = ClientIDs n"
  "nID (fst (removeLocalSub t c n)) = nID n"
  by (simp_all add: removeLocalSub_def stamp_def addMessageCounter_def Let_def split: option.split)

lemma each_removeLocalSub:
  "RpcFuncs (fst (each (\<lambda>t. removeLocalSub t c) ts n)) = RpcFuncs n \<and>
   ClientIDs (fst (each (\<lambda>t. removeLocalSub t c) ts n)) = ClientIDs n \<and>
   sub_of (fst (each (\<lambda>t. removeLocalSub t c) ts n)) t' c' =
     (if t' \<in> set ts \<and> c' = c then None else sub_of n t' c')"
proof (induction ts arbitrary: n)
  case (Cons t ts)
  obtain n1 o1 where 1: "removeLocalSub t c n = (n1, o1)" by fastforce
  obtain n2 o2 where 2: "each (\<lambda>t. removeLocalSub t c) ts n1 = (n2, o2)" by fastforce
  have "sub_of n1 t' c' = (if t' = t \<and> c' = c then None else sub_of n t' c')"
    "RpcFuncs n1 = RpcFuncs n" "ClientIDs n1 = ClientIDs n"
    using sub_of_remove [of t c n t' c'] removeLocalSub_frame [of t c n] 1 by simp_all
  with Cons.IH [of n1] 1 2 show ?case by auto
qed simp

lemma func_of_unregister:
  assumes "distinct (map fst (RpcFuncs n))"
  shows "func_of (UnregisterRpcServicesByClient c n) f c' = (if c' = c then None else func_of n f c')"
  using row_of_cleaned [OF assms, of c f] by (simp add: func_of_def UnregisterRpcServicesByClient_def)

lemma clear_topics:
  "sub_of n t c \<noteq> None \<Longrightarrow> t \<in> set (map fst (filter (\<lambda>(_, subs). map_of subs c \<noteq> None) (MySubs n)))"
proof -
  assume a: "sub_of n t c \<noteq> None"
  then obtain subs where m: "map_of (MySubs n) t = Some subs" and "map_of subs c \<noteq> None"
    by (auto simp: sub_of_def row_of_def split: option.splits)
  with map_of_SomeD [OF m] show ?thesis by (force simp: image_iff)
qed

lemma RemoveClient_clears:
  assumes "distinct (map fst (RpcFuncs n))"
  shows "ClientIDs (fst (RemoveClient i n)) = filter (\<lambda>x. x \<noteq> i) (ClientIDs n)"
    and "sub_of (fst (RemoveClient i n)) t x = (if x = i then None else sub_of n t x)"
    and "func_of (fst (RemoveClient i n)) f x = (if x = i then None else func_of n f x)"
proof -
  let ?n0 = "n\<lparr>ClientIDs := filter (\<lambda>x. x \<noteq> i) (ClientIDs n)\<rparr>"
  let ?ts = "map fst (filter (\<lambda>(_, subs). map_of subs i \<noteq> None) (MySubs n))"
  let ?n2 = "fst (each (\<lambda>t. removeLocalSub t i) ?ts ?n0)"
  have r: "fst (RemoveClient i n) = UnregisterRpcServicesByClient i ?n2"
    by (auto simp: RemoveClient_def clearSubClient_def Let_def split: prod.splits)
  note e = each_removeLocalSub [of i ?ts ?n0]
  have s0: "sub_of ?n0 t x = sub_of n t x" for t x by (simp add: sub_of_def)
  have "sub_of (fst (RemoveClient i n)) t x = sub_of ?n2 t x" by (simp add: r sub_of_def UnregisterRpcServicesByClient_def)
  also have "\<dots> = (if t \<in> set ?ts \<and> x = i then None else sub_of n t x)" using e s0 by auto
  also have "\<dots> = (if x = i then None else sub_of n t x)" using clear_topics [of n t i] by (cases "sub_of n t i = None") simp_all
  finally show "sub_of (fst (RemoveClient i n)) t x = (if x = i then None else sub_of n t x)" .
  show "func_of (fst (RemoveClient i n)) f x = (if x = i then None else func_of n f x)"
    using func_of_unregister [of ?n2 i f x] e assms by (simp add: r func_of_def)
  show "ClientIDs (fst (RemoveClient i n)) = filter (\<lambda>x. x \<noteq> i) (ClientIDs n)"
    using e by (simp add: r UnregisterRpcServicesByClient_def)
qed

text \<open>
  Disconnecting a client removes every trace of it from the node, its entry, its subscriptions on
  every topic and the functions it provides, and nothing of any other client; the client can connect
  again, and until then subscribing, unsubscribing and publishing are errors.
\<close>

theorem disconnect_removes_client:
  assumes "TargetNode c = Some i" and "client_Disconnect n c = (c1, n1, os)"
    and "distinct (map fst (RpcFuncs n))"
  shows "ClientId c \<notin> set (ClientIDs n1) \<and> (\<forall>x. x \<noteq> ClientId c \<longrightarrow> (x \<in> set (ClientIDs n1) \<longleftrightarrow> x \<in> set (ClientIDs n))) \<and>
    (\<forall>t x. sub_of n1 t x = (if x = ClientId c then None else sub_of n t x)) \<and>
    (\<forall>f x. func_of n1 f x = (if x = ClientId c then None else func_of n f x)) \<and>
    (\<exists>c2 n2. client_Connect n1 c1 = Inr (c2, n2) \<and> ClientId c \<in> set (ClientIDs n2)) \<and>
    client_Subscribe t cb n1 c1 = Inl (not_connected c) \<and> client_Unsubscribe t n1 c1 = Inl (not_connected c) \<and>
    client_Publish ord t msg n1 c1 = Inl (not_connected c)"
proof -
  have "c1 = c\<lparr>TargetNode := None\<rparr>" "n1 = fst (RemoveClient (ClientId c) n)"
    using assms(1,2) by (auto simp: client_Disconnect_def split: prod.splits)
  then show ?thesis
    by (simp add: RemoveClient_clears [OF assms(3)] client_Connect_def client_Subscribe_def client_Unsubscribe_def
        client_Publish_def not_connected_def AddClient_def)
qed

text \<open>Two clients on one topic.\<close>

definition ex_client_node :: "unit Node" where
  "ex_client_node = (NewNode ''n'')\<lparr>ClientIDs := [''a'', ''b''], MySubs := [(''t'', [(''a'', 1), (''b'', 2)])],
     RpcFuncs := [(''f'', [(''a'', \<lparr>fnNote = [], fnCallback = None\<rparr>)])]\<rparr>"

theorem disconnect_removes_client_witness:
  "\<exists>c1 n1 os. client_Disconnect ex_client_node \<lparr>ClientId = ''a'', TargetNode = Some ''n''\<rparr> = (c1, n1, os) \<and>
     sub_of n1 ''t'' ''a'' = None \<and> sub_of n1 ''t'' ''b'' = Some 2 \<and> func_of n1 ''f'' ''a'' = None"
proof -
  let ?c = "\<lparr>ClientId = ''a'', TargetNode = Some ''n''\<rparr>"
  obtain c1 n1 os where d: "client_Disconnect ex_client_node ?c = (c1, n1, os)" by (metis prod_cases3)
  have 1: "TargetNode ?c = Some ''n''" "distinct (map fst (RpcFuncs ex_client_node))"
    by (simp_all add: ex_client_node_def)
  note r = disconnect_removes_client [OF 1(1) d 1(2), where ord = id]
  have "sub_of ex_client_node ''t'' ''b'' = Some 2" by (simp add: sub_of_def row_of_def ex_client_node_def)
  with r d show ?thesis by simp
qed

end
