(* ===== verification/Frp_Window.thy ===== *)
theory Frp_Window
  imports Prelude
begin

text \<open>
  core/FRPStreamStub.go, \<open>WindowBuffer\<close>: a ring of \<open>size\<close> cells that holds the packets with sequence
  numbers \<open>startSeq .. startSeq + size - 1\<close>, each in cell \<open>seq % size\<close>. The contract of a sliding
  window is the locale \<open>sliding_window\<close>: a finite map from sequence numbers to packets.
  \<open>None\<close> as the result of an operation is a run-time panic (division by zero, index out of range).
\<close>

section \<open>The contract\<close>

locale sliding_window =
  fixes inv :: "'w \<Rightarrow> bool" and start :: "'w \<Rightarrow> int" and width :: "'w \<Rightarrow> int"
    and content :: "'w \<Rightarrow> int \<Rightarrow> 'd option"
    and put :: "int \<Rightarrow> 'd \<Rightarrow> 'w \<Rightarrow> ('w \<times> bool) option" and remove :: "int \<Rightarrow> 'w \<Rightarrow> 'w option"
  assumes content_range: "inv w \<Longrightarrow> content w s = Some d \<Longrightarrow> start w \<le> s \<and> s < start w + width w"
    and put_in: "inv w \<Longrightarrow> start w \<le> s \<Longrightarrow> s < start w + width w \<Longrightarrow>
      \<exists>w'. put s d w = Some (w', True) \<and> inv w' \<and> start w' = start w \<and> width w' = width w \<and>
        content w' = (content w)(s \<mapsto> d)"
    and put_out: "inv w \<Longrightarrow> s < start w \<or> start w + width w \<le> s \<Longrightarrow> put s d w = Some (w, False)"
    and remove_up: "inv w \<Longrightarrow> start w - 1 \<le> a \<Longrightarrow> a < start w + width w \<Longrightarrow> a + width w < MaxInt64 \<Longrightarrow>
      \<exists>w'. remove a w = Some w' \<and> inv w' \<and> start w' = a + 1 \<and> width w' = width w \<and>
        content w' = (\<lambda>s. if s \<le> a then None else content w s)"
begin

text \<open>A window filled with a stream: what is in the window is the stream at that position.\<close>

definition holds_stream :: "(int \<Rightarrow> 'd) \<Rightarrow> 'w \<Rightarrow> bool" where
  "holds_stream str w \<longleftrightarrow> inv w \<and> (\<forall>s d. content w s = Some d \<longrightarrow> d = str s)"

lemma holds_put:
  assumes "holds_stream str w" and "put s (str s) w = Some (w', b)"
  shows "holds_stream str w' \<and> start w' = start w \<and> width w' = width w"
proof (cases "start w \<le> s \<and> s < start w + width w")
  case True
  with put_in [of w s "str s"] assms show ?thesis by (auto simp: holds_stream_def)
next
  case False
  with put_out [of w s "str s"] assms show ?thesis by (auto simp: holds_stream_def)
qed

lemma holds_remove:
  assumes "holds_stream str w" and "start w - 1 \<le> a" and "a < start w + width w" and "a + width w < MaxInt64"
  shows "\<exists>w'. remove a w = Some w' \<and> holds_stream str w' \<and> start w' = a + 1 \<and> width w' = width w"
  using remove_up [of w a] assms by (fastforce simp: holds_stream_def split: if_splits)

end

section \<open>The ring buffer\<close>

record WindowBuffer =
  startSeq :: int
  wsize :: int
  wdata :: "string list"
  wfilled :: "bool list"
  retryCount :: "int list"
  sendTime :: "int list"

definition NewWindowBuffer :: "int \<Rightarrow> nat \<Rightarrow> WindowBuffer" where
  "NewWindowBuffer start n = \<lparr>startSeq = start, wsize = int n, wdata = replicate n [],
     wfilled = replicate n False, retryCount = replicate n 0, sendTime = replicate n 0\<rparr>"

text \<open>\<open>int(seq % int64(wb.size))\<close> as an index: Go's remainder has the sign of \<open>seq\<close>.\<close>

definition ring_index :: "int \<Rightarrow> WindowBuffer \<Rightarrow> nat option" where
  "ring_index s wb =
     (if wsize wb = 0 then None
      else let r = sgn s * (\<bar>s\<bar> mod \<bar>wsize wb\<bar>) in
        if 0 \<le> r \<and> r < int (length (wfilled wb)) then Some (nat r) else None)"

definition in_window :: "int \<Rightarrow> WindowBuffer \<Rightarrow> bool" where
  "in_window s wb \<longleftrightarrow> startSeq wb \<le> s \<and> s < i64 (startSeq wb + wsize wb)"

definition wb_Put :: "int \<Rightarrow> int \<Rightarrow> string \<Rightarrow> WindowBuffer \<Rightarrow> (WindowBuffer \<times> bool) option" where
  "wb_Put now s v wb =
     (if \<not> in_window s wb then Some (wb, False)
      else do {
        i \<leftarrow> ring_index s wb;
        Some (wb\<lparr>wdata := (wdata wb)[i := v], wfilled := (wfilled wb)[i := True],
          retryCount := (retryCount wb)[i := 0], sendTime := (sendTime wb)[i := now]\<rparr>, True) })"

definition wb_GetWithMeta :: "int \<Rightarrow> WindowBuffer \<Rightarrow> (string \<times> int \<times> int) option option" where
  "wb_GetWithMeta s wb =
     (if \<not> in_window s wb then Some None
      else do {
        i \<leftarrow> ring_index s wb;
        if \<not> wfilled wb ! i then Some None
        else Some (Some (wdata wb ! i, retryCount wb ! i, sendTime wb ! i)) })"

definition wb_Get :: "int \<Rightarrow> WindowBuffer \<Rightarrow> string option option" where
  "wb_Get s wb =
     (if \<not> in_window s wb then Some None
      else do {
        i \<leftarrow> ring_index s wb;
        if \<not> wfilled wb ! i then Some None else Some (Some (wdata wb ! i)) })"

definition wb_IsFilled :: "int \<Rightarrow> WindowBuffer \<Rightarrow> bool option" where
  "wb_IsFilled s wb =
     (let offset = i64 (s - startSeq wb) in
      if offset < 0 \<or> wsize wb \<le> offset then Some False
      else do { i \<leftarrow> ring_index s wb; Some (wfilled wb ! i) })"

definition wb_CanPut :: "int \<Rightarrow> WindowBuffer \<Rightarrow> bool" where
  "wb_CanPut s wb = in_window s wb"

definition wb_Advance :: "WindowBuffer \<Rightarrow> (WindowBuffer \<times> bool) option" where
  "wb_Advance wb = do {
     i \<leftarrow> ring_index (startSeq wb) wb;
     if \<not> wfilled wb ! i then Some (wb, False)
     else Some (wb\<lparr>wdata := (wdata wb)[i := []], wfilled := (wfilled wb)[i := False],
       startSeq := i64 (startSeq wb + 1)\<rparr>, True) }"

text \<open>Clearing a cell, the body shared by \<open>BundleAdvanceUpTo\<close> and \<open>RemoveUpTo\<close>.\<close>

definition clear_cell :: "nat \<Rightarrow> WindowBuffer \<Rightarrow> WindowBuffer" where
  "clear_cell i wb = wb\<lparr>wdata := (wdata wb)[i := []], wfilled := (wfilled wb)[i := False],
     retryCount := (retryCount wb)[i := 0], sendTime := (sendTime wb)[i := 0]\<rparr>"

text \<open>
  The loop of \<open>BundleAdvanceUpTo\<close>. Its first argument bounds the rounds: every round empties a
  filled cell, so the number of cells is enough (\<open>bundle_advance_fuel\<close>).
\<close>

fun bundle_advance :: "nat \<Rightarrow> int \<Rightarrow> WindowBuffer \<Rightarrow> (WindowBuffer \<times> int) option" where
  "bundle_advance 0 maxSeq wb = Some (wb, 0)"
| "bundle_advance (Suc n) maxSeq wb =
     (if startSeq wb \<le> maxSeq then do {
        i \<leftarrow> ring_index (startSeq wb) wb;
        if \<not> wfilled wb ! i then Some (wb, 0)
        else do {
          (wb', k) \<leftarrow> bundle_advance n maxSeq (clear_cell i (wb\<lparr>startSeq := i64 (startSeq wb + 1)\<rparr>));
          Some (wb', k + 1) } }
      else Some (wb, 0))"

definition wb_BundleAdvanceUpTo :: "int \<Rightarrow> WindowBuffer \<Rightarrow> (WindowBuffer \<times> int) option" where
  "wb_BundleAdvanceUpTo maxSeq wb = bundle_advance (Suc (length (wfilled wb))) maxSeq wb"

definition wb_IncrementRetry :: "int \<Rightarrow> int \<Rightarrow> WindowBuffer \<Rightarrow> WindowBuffer option" where
  "wb_IncrementRetry now s wb =
     (if \<not> in_window s wb then Some wb
      else do {
        i \<leftarrow> ring_index s wb;
        Some (wb\<lparr>retryCount := (retryCount wb)[i := i64 (retryCount wb ! i + 1)],
          sendTime := (sendTime wb)[i := now]\<rparr>) })"

text \<open>\<open>RemoveUpTo\<close> clears the cells of \<open>startSeq .. seq\<close> and moves the start, in either direction.\<close>

definition wb_RemoveUpTo :: "int \<Rightarrow> WindowBuffer \<Rightarrow> WindowBuffer option" where
  "wb_RemoveUpTo s wb = do {
     wb' \<leftarrow> foldM (\<lambda>k w. do { i \<leftarrow> ring_index k w; Some (clear_cell i w) }) [startSeq wb..s] wb;
     Some (wb'\<lparr>startSeq := i64 (s + 1)\<rparr>) }"

definition wb_Count :: "WindowBuffer \<Rightarrow> nat" where
  "wb_Count wb = length (filter id (wfilled wb))"

section \<open>The window as a map\<close>

definition win_inv :: "WindowBuffer \<Rightarrow> bool" where
  "win_inv wb \<longleftrightarrow> 0 < wsize wb \<and> 0 \<le> startSeq wb \<and> startSeq wb + wsize wb \<le> MaxInt64 \<and>
     int (length (wdata wb)) = wsize wb \<and> length (wfilled wb) = length (wdata wb) \<and>
     length (retryCount wb) = length (wdata wb) \<and> length (sendTime wb) = length (wdata wb)"

definition win_content :: "WindowBuffer \<Rightarrow> int \<Rightarrow> string option" where
  "win_content wb s = (if startSeq wb \<le> s \<and> s < startSeq wb + wsize wb \<and> wfilled wb ! nat (s mod wsize wb)
     then Some (wdata wb ! nat (s mod wsize wb)) else None)"

lemma win_invD:
  assumes "win_inv wb"
  shows "0 < wsize wb" "0 \<le> startSeq wb" "startSeq wb + wsize wb \<le> MaxInt64"
    "int (length (wdata wb)) = wsize wb" "int (length (wfilled wb)) = wsize wb"
    "int (length (retryCount wb)) = wsize wb" "int (length (sendTime wb)) = wsize wb"
  using assms by (auto simp: win_inv_def)

lemma in_window_inv: "win_inv wb \<Longrightarrow> in_window s wb \<longleftrightarrow> startSeq wb \<le> s \<and> s < startSeq wb + wsize wb"
  using win_invD [of wb] by (simp add: in_window_def)

lemma ring_index_inv:
  assumes "win_inv wb" and "0 \<le> s"
  shows "ring_index s wb = Some (nat (s mod wsize wb))"
proof -
  have "sgn s * (\<bar>s\<bar> mod \<bar>wsize wb\<bar>) = s mod wsize wb"
    using assms(2) win_invD(1) [OF assms(1)] by (cases "s = 0") auto
  moreover have "0 \<le> s mod wsize wb" "s mod wsize wb < wsize wb" using win_invD(1) [OF assms(1)] by simp_all
  ultimately show ?thesis using win_invD [OF assms(1)] by (simp add: ring_index_def Let_def)
qed

text \<open>Two sequence numbers of one window share a cell only if they are equal.\<close>

lemma cell_inject:
  fixes s t n :: int
  assumes "0 < n" and "a \<le> s" and "s < a + n" and "a \<le> t" and "t < a + n"
  shows "nat (s mod n) = nat (t mod n) \<longleftrightarrow> s = t"
proof
  assume "nat (s mod n) = nat (t mod n)"
  then have "s mod n = t mod n" using assms(1) by (simp add: eq_nat_nat_iff)
  then obtain q where q: "s - t = n * q" by (metis mod_eq_dvd_iff dvdE)
  have "\<bar>s - t\<bar> < n" using assms by linarith
  then have "\<bar>n * q\<bar> < n * 1" by (simp add: q)
  then have "\<bar>q\<bar> < 1" using assms(1) by (simp add: abs_mult)
  then show "s = t" using q by simp
qed simp

lemma cell_bound: "win_inv wb \<Longrightarrow> nat (s mod wsize wb) < length (wdata wb)"
  using win_invD(1,4) [of wb] pos_mod_bound [of "wsize wb" s] pos_mod_sign [of "wsize wb" s]
  by (simp add: nat_less_iff)

lemma cell_bound_filled: "win_inv wb \<Longrightarrow> nat (s mod wsize wb) < length (wfilled wb)"
  using cell_bound [of wb s] by (simp add: win_inv_def)

lemma wb_Get_content:
  assumes "win_inv wb"
  shows "wb_Get s wb = Some (win_content wb s)"
  using assms win_invD(2) [OF assms]
  by (auto simp: wb_Get_def in_window_inv ring_index_inv win_content_def)

lemma wb_GetWithMeta_content:
  assumes "win_inv wb"
  shows "wb_GetWithMeta s wb = Some (case win_content wb s of None \<Rightarrow> None
     | Some d \<Rightarrow> Some (d, retryCount wb ! nat (s mod wsize wb), sendTime wb ! nat (s mod wsize wb)))"
  using assms win_invD(2) [OF assms]
  by (auto simp: wb_GetWithMeta_def in_window_inv ring_index_inv win_content_def)

lemma wb_IsFilled_content:
  assumes "win_inv wb" and "startSeq wb \<le> s" and "s \<le> MaxInt64"
  shows "wb_IsFilled s wb = Some (win_content wb s \<noteq> None)"
proof -
  have "i64 (s - startSeq wb) = s - startSeq wb"
    using assms win_invD [OF assms(1)] by (simp add: in_i64_def)
  then show ?thesis using assms win_invD(2) [OF assms(1)]
    by (auto simp: wb_IsFilled_def ring_index_inv win_content_def Let_def)
qed

lemma wb_Put_in:
  assumes "win_inv wb" and "startSeq wb \<le> s" and "s < startSeq wb + wsize wb"
  shows "\<exists>wb'. wb_Put now s v wb = Some (wb', True) \<and> win_inv wb' \<and> startSeq wb' = startSeq wb \<and>
    wsize wb' = wsize wb \<and> win_content wb' = (win_content wb)(s \<mapsto> v)"
proof -
  let ?i = "nat (s mod wsize wb)"
  let ?wb = "wb\<lparr>wdata := (wdata wb)[?i := v], wfilled := (wfilled wb)[?i := True],
    retryCount := (retryCount wb)[?i := 0], sendTime := (sendTime wb)[?i := now]\<rparr>"
  have "0 \<le> s" using assms win_invD(2) [OF assms(1)] by simp
  then have "wb_Put now s v wb = Some (?wb, True)"
    using assms by (simp add: wb_Put_def in_window_inv ring_index_inv)
  moreover have "win_inv ?wb" using assms(1) by (simp add: win_inv_def)
  moreover have "win_content ?wb t = ((win_content wb)(s \<mapsto> v)) t" for t
    using assms cell_inject [OF win_invD(1) [OF assms(1)] assms(2,3), of t]
      cell_bound [OF assms(1), of s] cell_bound_filled [OF assms(1), of s]
    by (auto simp: win_content_def nth_list_update)
  ultimately show ?thesis by (intro exI [of _ ?wb]) (simp add: fun_eq_iff)
qed

lemma wb_Put_out:
  "win_inv wb \<Longrightarrow> s < startSeq wb \<or> startSeq wb + wsize wb \<le> s \<Longrightarrow> wb_Put now s v wb = Some (wb, False)"
  by (auto simp: wb_Put_def in_window_inv)

section \<open>Emptying the front of the window\<close>

lemma clear_cell_fields [simp]:
  "startSeq (clear_cell i wb) = startSeq wb" "wsize (clear_cell i wb) = wsize wb"
  "length (wdata (clear_cell i wb)) = length (wdata wb)"
  "length (wfilled (clear_cell i wb)) = length (wfilled wb)"
  by (simp_all add: clear_cell_def)

lemma clear_cell_inv: "win_inv wb \<Longrightarrow> win_inv (clear_cell i wb)"
  by (simp add: win_inv_def clear_cell_def)

lemma clear_cell_content:
  assumes "win_inv wb" and "startSeq wb \<le> s" and "s < startSeq wb + wsize wb"
  shows "win_content (clear_cell (nat (s mod wsize wb)) wb) = (win_content wb)(s := None)"
proof
  fix t
  show "win_content (clear_cell (nat (s mod wsize wb)) wb) t = ((win_content wb)(s := None)) t"
    using assms cell_inject [OF win_invD(1) [OF assms(1)] assms(2,3), of t] cell_bound_filled [OF assms(1), of s]
    by (auto simp: win_content_def clear_cell_def nth_list_update)
qed

text \<open>Moving the start forward does not change what the remaining numbers map to.\<close>

lemma win_content_forward:
  assumes "win_inv wb" and "startSeq wb \<le> b" and "b \<le> startSeq wb + wsize wb" and "b + wsize wb \<le> MaxInt64"
    and "\<And>s. s < b \<Longrightarrow> win_content wb s = None"
  shows "win_inv (wb\<lparr>startSeq := b\<rparr>) \<and> win_content (wb\<lparr>startSeq := b\<rparr>) = win_content wb"
proof -
  have n: "0 < wsize wb" and a: "0 \<le> startSeq wb" using win_invD [OF assms(1)] by simp_all
  have "win_content (wb\<lparr>startSeq := b\<rparr>) s = win_content wb s" for s
  proof -
    consider "s < b" | "b \<le> s" "s < startSeq wb + wsize wb" | "startSeq wb + wsize wb \<le> s" "s < b + wsize wb"
      | "b + wsize wb \<le> s" by linarith
    then show ?thesis
    proof cases
      case 1
      then show ?thesis using assms(5) [of s] by (simp add: win_content_def)
    next
      case 3
      then have "startSeq wb \<le> s - wsize wb" "s - wsize wb < b" using assms(2) by simp_all
      moreover have "(s - wsize wb) mod wsize wb = s mod wsize wb" by simp
      ultimately have "\<not> wfilled wb ! nat (s mod wsize wb)"
        using assms(5) [of "s - wsize wb"] assms(3) by (auto simp: win_content_def split: if_splits)
      then show ?thesis using 3 by (simp add: win_content_def)
    qed (use assms(2,3) in \<open>auto simp: win_content_def\<close>)
  qed
  moreover have "win_inv (wb\<lparr>startSeq := b\<rparr>)" using assms(1,2,4) a by (simp add: win_inv_def)
  ultimately show ?thesis by auto
qed

lemma wb_Advance_ok:
  assumes "win_inv wb" and "startSeq wb + wsize wb < MaxInt64"
  shows "case win_content wb (startSeq wb) of
      None \<Rightarrow> wb_Advance wb = Some (wb, False)
    | Some d \<Rightarrow> \<exists>wb'. wb_Advance wb = Some (wb', True) \<and> startSeq wb' = startSeq wb + 1 \<and>
        wsize wb' = wsize wb \<and> win_inv wb' \<and> win_content wb' = (win_content wb)(startSeq wb := None)"
proof -
  let ?s = "startSeq wb" and ?i = "nat (startSeq wb mod wsize wb)"
  note inv = win_invD [OF assms(1)]
  have r: "ring_index ?s wb = Some ?i" using ring_index_inv [OF assms(1) inv(2)] .
  show ?thesis
  proof (cases "wfilled wb ! ?i")
    case False
    then show ?thesis using r inv by (simp add: win_content_def wb_Advance_def)
  next
    case True
    let ?w = "wb\<lparr>wdata := (wdata wb)[?i := []], wfilled := (wfilled wb)[?i := False]\<rparr>"
    have "win_inv ?w" using assms(1) by (simp add: win_inv_def)
    moreover have c: "win_content ?w = (win_content wb)(?s := None)"
    proof
      fix t
      show "win_content ?w t = ((win_content wb)(?s := None)) t"
        using inv cell_inject [OF inv(1), of ?s ?s t] cell_bound_filled [OF assms(1), of ?s]
        by (auto simp: win_content_def nth_list_update)
    qed
    ultimately have "win_inv (?w\<lparr>startSeq := ?s + 1\<rparr>) \<and>
        win_content (?w\<lparr>startSeq := ?s + 1\<rparr>) = win_content ?w"
      using assms inv by (intro win_content_forward) (auto simp: win_content_def)
    moreover have "i64 (?s + 1) = ?s + 1" using inv by simp
    ultimately show ?thesis
      using True r inv c by (simp add: wb_Advance_def win_content_def)
  qed
qed

text \<open>The clearing loop of \<open>RemoveUpTo\<close>.\<close>

definition clear_loop :: "int list \<Rightarrow> WindowBuffer \<Rightarrow> WindowBuffer option" where
  "clear_loop ks wb = foldM (\<lambda>k w. do { i \<leftarrow> ring_index k w; Some (clear_cell i w) }) ks wb"

lemma clear_loop_ok:
  assumes "win_inv wb" and "\<forall>k \<in> set ks. startSeq wb \<le> k \<and> k < startSeq wb + wsize wb"
  shows "\<exists>wb'. clear_loop ks wb = Some wb' \<and> win_inv wb' \<and> startSeq wb' = startSeq wb \<and> wsize wb' = wsize wb \<and>
    win_content wb' = (\<lambda>s. if s \<in> set ks then None else win_content wb s)"
  using assms
proof (induction ks arbitrary: wb)
  case Nil
  then show ?case by (simp add: clear_loop_def)
next
  case (Cons k ks)
  let ?w = "clear_cell (nat (k mod wsize wb)) wb"
  have k: "startSeq wb \<le> k" "k < startSeq wb + wsize wb" using Cons.prems(2) by simp_all
  have r: "ring_index k wb = Some (nat (k mod wsize wb))"
    using Cons.prems(1) k win_invD(2) [OF Cons.prems(1)] by (intro ring_index_inv) auto
  have "\<exists>wb'. clear_loop ks ?w = Some wb' \<and> win_inv wb' \<and> startSeq wb' = startSeq ?w \<and> wsize wb' = wsize ?w \<and>
      win_content wb' = (\<lambda>s. if s \<in> set ks then None else win_content ?w s)"
    using Cons.prems by (intro Cons.IH clear_cell_inv) simp_all
  then show ?case
    using r clear_cell_content [OF Cons.prems(1) k] by (auto simp: clear_loop_def fun_eq_iff)
qed

lemma wb_RemoveUpTo_ok:
  assumes "win_inv wb" and "startSeq wb - 1 \<le> a" and "a < startSeq wb + wsize wb" and "a + wsize wb < MaxInt64"
  shows "\<exists>wb'. wb_RemoveUpTo a wb = Some wb' \<and> win_inv wb' \<and> startSeq wb' = a + 1 \<and> wsize wb' = wsize wb \<and>
    win_content wb' = (\<lambda>s. if s \<le> a then None else win_content wb s)"
proof -
  note inv = win_invD [OF assms(1)]
  have "\<forall>k \<in> set [startSeq wb..a]. startSeq wb \<le> k \<and> k < startSeq wb + wsize wb" using assms(3) by auto
  from clear_loop_ok [OF assms(1) this] obtain w where
    w: "clear_loop [startSeq wb..a] wb = Some w" "win_inv w" "startSeq w = startSeq wb" "wsize w = wsize wb"
    and c: "win_content w = (\<lambda>s. if s \<in> set [startSeq wb..a] then None else win_content wb s)" by blast
  have c': "win_content w = (\<lambda>s. if s \<le> a then None else win_content wb s)"
    unfolding c by (auto simp: fun_eq_iff win_content_def)
  have "i64 (a + 1) = a + 1" using assms inv by (simp add: in_i64_def)
  moreover have "win_inv (w\<lparr>startSeq := a + 1\<rparr>) \<and> win_content (w\<lparr>startSeq := a + 1\<rparr>) = win_content w"
    using assms inv w c' by (intro win_content_forward) simp_all
  ultimately show ?thesis
    using w c' by (simp add: wb_RemoveUpTo_def clear_loop_def [symmetric])
qed

text \<open>The ring buffer is a sliding window.\<close>

interpretation wb: sliding_window win_inv startSeq wsize win_content "wb_Put now" wb_RemoveUpTo for now
proof unfold_locales
  fix w s d assume "win_inv w" "win_content w s = Some d"
  then show "startSeq w \<le> s \<and> s < startSeq w + wsize w" by (auto simp: win_content_def split: if_splits)
qed (auto intro: wb_Put_in wb_Put_out wb_RemoveUpTo_ok)

section \<open>Advancing over a filled front\<close>

lemma bundle_advance_ok:
  assumes "win_inv wb" and "startSeq wb - 1 \<le> m" and "m < startSeq wb + wsize wb"
    and "m + wsize wb < MaxInt64" and "\<forall>s. startSeq wb \<le> s \<and> s \<le> m \<longrightarrow> win_content wb s \<noteq> None"
    and "nat (m - startSeq wb + 1) < n"
  shows "\<exists>wb'. bundle_advance n m wb = Some (wb', m - startSeq wb + 1) \<and> win_inv wb' \<and> startSeq wb' = m + 1 \<and>
    wsize wb' = wsize wb \<and> win_content wb' = (\<lambda>s. if s \<le> m then None else win_content wb s)"
  using assms
proof (induction n arbitrary: wb)
  case 0
  then show ?case by simp
next
  case (Suc n)
  note inv = win_invD [OF Suc.prems(1)]
  show ?case
  proof (cases "startSeq wb \<le> m")
    case False
    then have "m = startSeq wb - 1" using Suc.prems(2) by simp
    then show ?thesis using Suc.prems(1) by (auto simp: win_content_def fun_eq_iff)
  next
    case True
    let ?s = "startSeq wb" and ?i = "nat (startSeq wb mod wsize wb)"
    let ?w = "clear_cell ?i wb"
    have r: "ring_index ?s wb = Some ?i" using ring_index_inv [OF Suc.prems(1) inv(2)] .
    have filled: "wfilled wb ! ?i" using Suc.prems(5) True inv by (auto simp: win_content_def split: if_splits)
    have c: "win_content ?w = (win_content wb)(?s := None)"
      using clear_cell_content [OF Suc.prems(1), of ?s] inv by simp
    have f: "win_inv (?w\<lparr>startSeq := ?s + 1\<rparr>) \<and> win_content (?w\<lparr>startSeq := ?s + 1\<rparr>) = win_content ?w"
      using Suc.prems(1,4) True inv c clear_cell_inv
      by (intro win_content_forward) (auto simp: win_content_def)
    let ?v = "clear_cell ?i (wb\<lparr>startSeq := i64 (?s + 1)\<rparr>)"
    have v: "?v = ?w\<lparr>startSeq := ?s + 1\<rparr>"
      using inv by (simp add: clear_cell_def in_i64_def)
    have "\<exists>wb'. bundle_advance n m ?v = Some (wb', m - startSeq ?v + 1) \<and> win_inv wb' \<and> startSeq wb' = m + 1 \<and>
      wsize wb' = wsize ?v \<and> win_content wb' = (\<lambda>s. if s \<le> m then None else win_content ?v s)"
      using Suc.prems True f c unfolding v by (intro Suc.IH) auto
    then show ?thesis
      using True r filled f c unfolding v by (auto simp: v fun_eq_iff)
  qed
qed

lemma wb_BundleAdvanceUpTo_ok:
  assumes "win_inv wb" and "startSeq wb - 1 \<le> m" and "m < startSeq wb + wsize wb"
    and "m + wsize wb < MaxInt64" and "\<forall>s. startSeq wb \<le> s \<and> s \<le> m \<longrightarrow> win_content wb s \<noteq> None"
  shows "\<exists>wb'. wb_BundleAdvanceUpTo m wb = Some (wb', m - startSeq wb + 1) \<and> win_inv wb' \<and>
    startSeq wb' = m + 1 \<and> wsize wb' = wsize wb \<and>
    win_content wb' = (\<lambda>s. if s \<le> m then None else win_content wb s)"
proof -
  have "nat (m - startSeq wb + 1) < Suc (length (wfilled wb))"
    using assms(2,3) win_invD(5) [OF assms(1)] by linarith
  from bundle_advance_ok [OF assms this] show ?thesis unfolding wb_BundleAdvanceUpTo_def .
qed

lemma NewWindowBuffer_ok:
  assumes "0 < n" and "0 \<le> a" and "a + int n \<le> MaxInt64"
  shows "win_inv (NewWindowBuffer a n) \<and> startSeq (NewWindowBuffer a n) = a \<and>
    wsize (NewWindowBuffer a n) = int n \<and> win_content (NewWindowBuffer a n) = Map.empty"
proof -
  have "nat (s mod int n) < n" for s using assms(1) by (simp add: nat_less_iff)
  then show ?thesis using assms by (auto simp: NewWindowBuffer_def win_inv_def win_content_def fun_eq_iff)
qed

end
