(* ===== verification/Frp_Stream.thy ===== *)
theory Frp_Stream
  imports Frp_Window
begin

text \<open>
  core/FRPStreamStub.go, \<open>StreamStub\<close>: one endpoint of a forwarded stream. The sender keeps
  unacknowledged packets in a window, the receiver reorders packets in another and hands them in
  order to the write queue. Packets, acknowledgements and requests are outputs; \<open>None\<close> is a panic.
  Times are nanoseconds.
\<close>

section \<open>Constants and state\<close>

definition MaxSendWindowSize :: nat where "MaxSendWindowSize = 7024"
definition MaxRetryCount :: int where "MaxRetryCount = 5"
definition AckTimeout :: int where "AckTimeout = 5000000000"
definition RecvAckThreshold :: int where "RecvAckThreshold = 128"
definition RecvAckTimeout :: int where "RecvAckTimeout = 200000000"
definition SendResendTimeout :: int where "SendResendTimeout = 200000000"
definition MaxResendPerCall :: nat where "MaxResendPerCall = 100"
definition ChannelQueueSizeLarge :: nat where "ChannelQueueSizeLarge = 1024"

record StreamStub =
  myId :: string
  sendSeq :: int
  lastAckedSeq :: int
  recvWindow :: WindowBuffer
  recvSeq :: int
  sendWindow :: WindowBuffer
  ackMode :: string
  recvSinceLastAck :: int
  lastAckTime :: int
  resendRequestedAt :: "int \<rightharpoonup> int"
  writeChan :: "string list"
  lastActivityTime :: int
  fastConnect :: bool
  delayedResend :: bool
  delayedResendRequest :: bool
  lazyClosing :: bool
  closed :: bool

datatype frp_out =
    OutData int string        \<comment> \<open>\<open>sendData\<close>\<close>
  | OutAck int                \<comment> \<open>\<open>sendAck\<close>\<close>
  | OutResendRequest int      \<comment> \<open>\<open>sendResendRequest\<close>\<close>
  | OutClose                  \<comment> \<open>\<open>doClose\<close>\<close>
  | OutWrite string           \<comment> \<open>\<open>conn.Write\<close>\<close>
  | OutDrop string            \<comment> \<open>\<open>enqueueWrite\<close> found the queue full\<close>

definition NewStreamStub :: "int \<Rightarrow> string \<Rightarrow> StreamStub" where
  "NewStreamStub now sid = \<lparr>myId = sid, sendSeq = 0, lastAckedSeq = 0,
     recvWindow = NewWindowBuffer 1 MaxSendWindowSize, recvSeq = 0,
     sendWindow = NewWindowBuffer 1 MaxSendWindowSize, ackMode = ''immediate'', recvSinceLastAck = 0,
     lastAckTime = now, resendRequestedAt = Map.empty, writeChan = [], lastActivityTime = now,
     fastConnect = False, delayedResend = False, delayedResendRequest = False, lazyClosing = False,
     closed = False\<rparr>"

section \<open>Receiving\<close>

definition enqueueWrite :: "string \<Rightarrow> StreamStub \<Rightarrow> StreamStub \<times> frp_out list" where
  "enqueueWrite d stub =
     (if length (writeChan stub) < ChannelQueueSizeLarge
      then (stub\<lparr>writeChan := writeChan stub @ [d]\<rparr>, []) else (stub, [OutDrop d]))"

text \<open>The delivery loop: at most \<open>MaxSendWindowSize\<close> rounds, the first argument.\<close>

fun deliver_loop :: "nat \<Rightarrow> int \<Rightarrow> StreamStub \<Rightarrow> (StreamStub \<times> frp_out list) option" where
  "deliver_loop 0 s stub = Some (stub, [])"
| "deliver_loop (Suc n) s stub = do {
     r \<leftarrow> wb_Get s (recvWindow stub);
     (case r of
        None \<Rightarrow> Some (stub, [])
      | Some d \<Rightarrow> do {
          let (stub1, o1) = enqueueWrite d stub;
          (stub2, o2) \<leftarrow> deliver_loop n (i64 (s + 1)) (stub1\<lparr>recvSeq := s\<rparr>);
          Some (stub2, o1 @ o2) }) }"

definition sendResendRequest :: "int \<Rightarrow> int \<Rightarrow> StreamStub \<Rightarrow> StreamStub \<times> frp_out list" where
  "sendResendRequest now s stub =
     (let stub1 = stub\<lparr>lastActivityTime := now\<rparr> in
      if delayedResendRequest stub \<and>
         (case resendRequestedAt stub s of Some t \<Rightarrow> now - t < SendResendTimeout | None \<Rightarrow> False)
      then (stub1, [])
      else (stub1\<lparr>resendRequestedAt := (resendRequestedAt stub)(s \<mapsto> now)\<rparr>, [OutResendRequest s]))"

text \<open>The gap loop: the missing numbers below the packet, at most \<open>MaxResendPerCall\<close> of them.\<close>

fun gap_loop :: "int \<Rightarrow> nat \<Rightarrow> int list \<Rightarrow> StreamStub \<Rightarrow> (StreamStub \<times> frp_out list) option" where
  "gap_loop now sent [] stub = Some (stub, [])"
| "gap_loop now sent (s # ss) stub =
     (if sent < MaxResendPerCall then do {
        f \<leftarrow> wb_IsFilled s (recvWindow stub);
        if f then gap_loop now sent ss stub
        else do {
          let (stub1, o1) = sendResendRequest now s stub;
          (stub2, o2) \<leftarrow> gap_loop now (Suc sent) ss stub1;
          Some (stub2, o1 @ o2) } }
      else Some (stub, []))"

definition sendAck :: "int \<Rightarrow> StreamStub \<Rightarrow> StreamStub \<times> frp_out list" where
  "sendAck now stub = (stub\<lparr>lastActivityTime := now\<rparr>, [OutAck (recvSeq stub)])"

definition acknowledge :: "int \<Rightarrow> StreamStub \<Rightarrow> StreamStub \<times> frp_out list" where
  "acknowledge now stub =
     (if ackMode stub = ''delayed'' then
        let stub1 = stub\<lparr>recvSinceLastAck := i64 (recvSinceLastAck stub + 1)\<rparr> in
        if RecvAckThreshold \<le> recvSinceLastAck stub1 \<or> RecvAckTimeout \<le> now - lastAckTime stub1
        then let (stub2, o2) = sendAck now stub1 in (stub2\<lparr>recvSinceLastAck := 0, lastAckTime := now\<rparr>, o2)
        else (stub1, [])
      else sendAck now stub)"

text \<open>\<open>target\<close> is the addressed stub, \<open>None\<close> when the payload does not decode.\<close>

definition onData :: "int \<Rightarrow> string option \<Rightarrow> int \<Rightarrow> string \<Rightarrow> StreamStub \<Rightarrow> (StreamStub \<times> frp_out list) option" where
  "onData now target s d stub0 =
     (let stub = stub0\<lparr>lastActivityTime := now\<rparr> in
      if target \<noteq> Some (myId stub) then Some (stub, [])
      else do {
        (w, b) \<leftarrow> wb_Put now s d (recvWindow stub);
        if \<not> b then Some (stub, [])
        else do {
          let stub1 = stub\<lparr>recvWindow := w\<rparr>;
          (stub2, o1) \<leftarrow> deliver_loop MaxSendWindowSize (i64 (recvSeq stub1 + 1)) stub1;
          let progress = (recvSeq stub2 \<noteq> recvSeq stub1);
          (stub3, o2) \<leftarrow>
            (if progress then do {
               (w', _) \<leftarrow> wb_BundleAdvanceUpTo (recvSeq stub2) (recvWindow stub2);
               Some (stub2\<lparr>recvWindow := w'\<rparr>, []) }
             else gap_loop now 0 [recvSeq stub2 + 1..s - 1] stub2);
          let (stub4, o3) = acknowledge now stub3;
          Some (stub4, o1 @ o2 @ o3) } })"

text \<open>One round of \<open>writeLoop\<close> whose write succeeds, and one whose write fails.\<close>

definition lazyClose :: "StreamStub \<Rightarrow> StreamStub" where
  "lazyClose stub = stub\<lparr>lazyClosing := True\<rparr>"

definition doClose :: "int \<Rightarrow> StreamStub \<Rightarrow> StreamStub \<times> frp_out list" where
  "doClose now stub = (lazyClose (stub\<lparr>lastActivityTime := now\<rparr>), [OutClose])"

definition write_round :: "int \<Rightarrow> bool \<Rightarrow> StreamStub \<Rightarrow> StreamStub \<times> frp_out list" where
  "write_round now good stub = (case writeChan stub of
       [] \<Rightarrow> (stub, [])
     | d # ds \<Rightarrow> (if good then (stub\<lparr>writeChan := ds, lastActivityTime := now\<rparr>, [OutWrite d])
                 else doClose now (stub\<lparr>writeChan := ds\<rparr>)))"

section \<open>Sending\<close>

text \<open>
  \<open>sendDataLoop\<close> takes the next number, then waits until the window has room for it: the first
  operation, then the second until it does not wait.
\<close>

datatype send_result = Sent | Aborted | Waiting

definition send_begin :: "int \<Rightarrow> StreamStub \<Rightarrow> StreamStub \<times> int" where
  "send_begin now stub =
     (let stub1 = stub\<lparr>lastActivityTime := now, sendSeq := i64 (sendSeq stub + 1)\<rparr> in (stub1, sendSeq stub1))"

definition sendData :: "int \<Rightarrow> int \<Rightarrow> string \<Rightarrow> StreamStub \<Rightarrow> StreamStub \<times> frp_out list" where
  "sendData now s d stub = (stub\<lparr>lastActivityTime := now\<rparr>, [OutData s d])"

definition send_try :: "int \<Rightarrow> int \<Rightarrow> string \<Rightarrow> StreamStub \<Rightarrow> (StreamStub \<times> frp_out list \<times> send_result) option" where
  "send_try now s d stub =
     (if wb_CanPut s (sendWindow stub) then do {
        (w, _) \<leftarrow> wb_Put now s d (sendWindow stub);
        let (stub1, o1) = sendData now s d (stub\<lparr>sendWindow := w\<rparr>);
        Some (stub1, o1, Sent) }
      else if s < startSeq (sendWindow stub) then
        let (stub1, o1) = doClose now stub in Some (stub1, o1, Aborted)
      else Some (stub, [], Waiting))"

definition onAck :: "int \<Rightarrow> string option \<Rightarrow> int \<Rightarrow> StreamStub \<Rightarrow> StreamStub option" where
  "onAck now target a stub0 =
     (let stub = stub0\<lparr>lastActivityTime := now\<rparr> in
      if target \<noteq> Some (myId stub) then Some stub
      else do {
        w \<leftarrow> wb_RemoveUpTo a (sendWindow stub);
        Some (stub\<lparr>sendWindow := w, lastAckedSeq := a\<rparr>) })"

fun resend_loop :: "int \<Rightarrow> int list \<Rightarrow> StreamStub \<Rightarrow> (StreamStub \<times> frp_out list) option" where
  "resend_loop now [] stub = Some (stub, [])"
| "resend_loop now (s # ss) stub0 =
     (let stub = stub0\<lparr>lastActivityTime := now\<rparr> in do {
        m \<leftarrow> wb_GetWithMeta s (sendWindow stub);
        (case m of
           None \<Rightarrow> resend_loop now ss stub
         | Some (d, retries, sentAt) \<Rightarrow>
             if fastConnect stub \<and> MaxRetryCount \<le> retries then Some (doClose now stub)
             else if delayedResend stub \<and> now - sentAt < AckTimeout then resend_loop now ss stub
             else do {
               w \<leftarrow> wb_IncrementRetry now s (sendWindow stub);
               let (stub1, o1) = sendData now s d (stub\<lparr>sendWindow := w\<rparr>);
               (stub2, o2) \<leftarrow> resend_loop now ss stub1;
               Some (stub2, o1 @ o2) }) })"

definition resendUnackedData :: "int \<Rightarrow> StreamStub \<Rightarrow> (StreamStub \<times> frp_out list) option" where
  "resendUnackedData now stub = resend_loop now [startSeq (sendWindow stub)..sendSeq stub - 1] stub"

definition onResendRequest :: "int \<Rightarrow> string option \<Rightarrow> int \<Rightarrow> StreamStub \<Rightarrow> (StreamStub \<times> frp_out list) option" where
  "onResendRequest now target s stub0 =
     (let stub = stub0\<lparr>lastActivityTime := now\<rparr> in
      if target \<noteq> Some (myId stub) then Some (stub, [])
      else do {
        m \<leftarrow> wb_GetWithMeta s (sendWindow stub);
        (case m of
           None \<Rightarrow> Some (stub, [])
         | Some (d, _, sentAt) \<Rightarrow>
             if delayedResend stub \<and> now - sentAt < AckTimeout then Some (stub, [])
             else Some (sendData now s d stub)) })"

section \<open>Closing\<close>

text \<open>One tick of the goroutine that \<open>lazyClose\<close> starts, and of \<open>idleMonitorLoop\<close>.\<close>

definition lazyClose_tick :: "int \<Rightarrow> StreamStub \<Rightarrow> StreamStub" where
  "lazyClose_tick now stub =
     (if lazyClosing stub \<and> AckTimeout < now - lastActivityTime stub then stub\<lparr>closed := True\<rparr> else stub)"

definition idle_tick :: "int \<Rightarrow> StreamStub \<Rightarrow> StreamStub \<times> frp_out list" where
  "idle_tick now stub =
     (if fastConnect stub \<and> 30000000000 < now - lastActivityTime stub then doClose now stub else (stub, []))"

definition onClose :: "StreamStub \<Rightarrow> StreamStub" where
  "onClose stub = lazyClose stub"

text \<open>\<open>frpMessageInLoop\<close>: the message types a stream handles; others are logged.\<close>

datatype frp_message =
    FData "string option" int string
  | FAck "string option" int
  | FResend "string option" int
  | FClose
  | FOther

fun frp_dispatch :: "int \<Rightarrow> frp_message \<Rightarrow> StreamStub \<Rightarrow> (StreamStub \<times> frp_out list) option" where
  "frp_dispatch now (FData t s d) stub = onData now t s d stub"
| "frp_dispatch now (FAck t a) stub = map_option (\<lambda>x. (x, [])) (onAck now t a stub)"
| "frp_dispatch now (FResend t s) stub = onResendRequest now t s stub"
| "frp_dispatch now FClose stub = Some (onClose stub, [])"
| "frp_dispatch now FOther stub = Some (stub, [])"

section \<open>The receiver\<close>

lemma upto_shift: "map f [s..s + int k - 1] = map (\<lambda>i. f (s + int i)) [0..<k]"
proof (induction k)
  case (Suc k)
  have "[s..s + int (Suc k) - 1] = [s..s + int k - 1] @ [s + int k]"
    using upto_rec2 [of s "s + int k"] by simp
  with Suc show ?case by simp
qed simp

definition run_data :: "WindowBuffer \<Rightarrow> int \<Rightarrow> nat \<Rightarrow> string list" where
  "run_data w s k = map (\<lambda>i. the (win_content w (s + int i))) [0..<k]"

lemma run_data_Suc: "run_data w s (Suc k) = the (win_content w s) # run_data w (s + 1) k"
  by (rule nth_equalityI) (auto simp: run_data_def nth_Cons ac_simps simp del: upt_Suc split: nat.split)

text \<open>
  The loop takes the longest run of filled numbers from \<open>s\<close> on (at most \<open>n\<close>) and queues as much of
  it as the write queue has room for; the rest is dropped.
\<close>

lemma deliver_loop_ok:
  assumes "win_inv (recvWindow stub)" and "s + int n \<le> MaxInt64" and "startSeq (recvWindow stub) \<le> s"
    and "length (writeChan stub) \<le> ChannelQueueSizeLarge"
  shows "\<exists>k os. k \<le> n \<and> (\<forall>i < k. win_content (recvWindow stub) (s + int i) \<noteq> None) \<and>
    (k < n \<longrightarrow> win_content (recvWindow stub) (s + int k) = None) \<and>
    deliver_loop n s stub = Some (stub\<lparr>recvSeq := (if k = 0 then recvSeq stub else s + int k - 1),
      writeChan := writeChan stub @ take (ChannelQueueSizeLarge - length (writeChan stub))
        (run_data (recvWindow stub) s k)\<rparr>, os) \<and>
    set os \<subseteq> range OutDrop \<and> (os = [] \<longleftrightarrow> length (writeChan stub) + k \<le> ChannelQueueSizeLarge)"
  using assms
proof (induction n arbitrary: s stub)
  case 0
  then show ?case by (intro exI [of _ 0]) (simp add: run_data_def)
next
  case (Suc n)
  let ?w = "recvWindow stub"
  show ?case
  proof (cases "win_content ?w s")
    case None
    then show ?thesis using Suc.prems(1,4)
      by (intro exI [of _ 0] exI [of _ "[]"]) (simp add: wb_Get_content run_data_def)
  next
    case (Some d)
    obtain stub1 o1 where e: "enqueueWrite d stub = (stub1, o1)" by fastforce
    let ?cap = ChannelQueueSizeLarge
    have wc: "stub1 = stub\<lparr>writeChan := writeChan stub @ take (?cap - length (writeChan stub)) [d]\<rparr>"
      and o1: "set o1 \<subseteq> range OutDrop" "o1 = [] \<longleftrightarrow> length (writeChan stub) + 1 \<le> ?cap"
      using e Suc.prems(4) by (auto simp: enqueueWrite_def split: if_splits)
    define st1 where "st1 = stub1\<lparr>recvSeq := s\<rparr>"
    have f1: "recvWindow st1 = ?w" "recvSeq st1 = s"
      "writeChan st1 = writeChan stub @ take (?cap - length (writeChan stub)) [d]"
      by (simp_all add: st1_def wc)
    have len: "length (writeChan st1) = min ?cap (length (writeChan stub) + 1)"
      using Suc.prems(4) by (auto simp: f1 min_def)
    have i64: "i64 (s + 1) = s + 1"
      using Suc.prems(2,3) win_invD(2) [OF Suc.prems(1)] by (simp add: in_i64_def)
    have rs: "(if k = 0 then s else s + 1 + int k - 1) = s + int k" for k by simp
    have "win_inv (recvWindow st1)" "s + 1 + int n \<le> MaxInt64" "startSeq (recvWindow st1) \<le> s + 1"
      "length (writeChan st1) \<le> ?cap" using Suc.prems len by (simp_all add: f1(1))
    from Suc.IH [OF this, unfolded f1(1,2) rs] obtain k os where k: "k \<le> n"
      "\<forall>i < k. win_content ?w (s + 1 + int i) \<noteq> None" "k < n \<longrightarrow> win_content ?w (s + 1 + int k) = None"
      and d: "deliver_loop n (s + 1) st1 = Some (st1\<lparr>recvSeq := s + int k,
        writeChan := writeChan st1 @ take (?cap - length (writeChan st1)) (run_data ?w (s + 1) k)\<rparr>, os)"
      and os: "set os \<subseteq> range OutDrop" "os = [] \<longleftrightarrow> length (writeChan st1) + k \<le> ?cap"
      by blast
    have filled: "\<forall>i < Suc k. win_content ?w (s + int i) \<noteq> None"
      using k(2) Some by (auto simp: less_Suc_eq_0_disj ac_simps)
    have q: "writeChan st1 @ take (?cap - length (writeChan st1)) (run_data ?w (s + 1) k) =
        writeChan stub @ take (?cap - length (writeChan stub)) (run_data ?w s (Suc k))"
      using Suc.prems(4) Some
      by (cases "length (writeChan stub) < ?cap") (simp_all add: f1(3) run_data_Suc take_Cons')
    have "deliver_loop (Suc n) s stub = Some (stub\<lparr>recvSeq := s + int k,
        writeChan := writeChan stub @ take (?cap - length (writeChan stub)) (run_data ?w s (Suc k))\<rparr>, o1 @ os)"
      using d Suc.prems(1) Some e i64 by (simp add: wb_Get_content st1_def [symmetric] q) (simp add: st1_def wc)
    moreover have "o1 @ os = [] \<longleftrightarrow> length (writeChan stub) + Suc k \<le> ?cap"
      using o1(2) os(2) len by auto
    moreover have "Suc k \<le> Suc n" "Suc k < Suc n \<longrightarrow> win_content ?w (s + int (Suc k)) = None"
      using k(1,3) by (simp_all add: ac_simps)
    moreover have "set (o1 @ os) \<subseteq> range OutDrop" using o1(1) os(1) by simp
    moreover have "s + int (Suc k) - 1 = s + int k" by simp
    ultimately show ?thesis
      using filled by (intro exI [of _ "Suc k"] exI [of _ "o1 @ os"]) (simp only: if_False nat.simps simp_thms)
  qed
qed

definition same_recv :: "StreamStub \<Rightarrow> StreamStub \<Rightarrow> bool" where
  "same_recv a b \<longleftrightarrow> recvWindow b = recvWindow a \<and> recvSeq b = recvSeq a \<and> writeChan b = writeChan a \<and> myId b = myId a \<and>
     ackMode b = ackMode a"

lemma gap_loop_ok:
  assumes "win_inv (recvWindow stub)" and "\<forall>s \<in> set ss. startSeq (recvWindow stub) \<le> s \<and> s \<le> MaxInt64"
  shows "\<exists>stub' os. gap_loop now sent ss stub = Some (stub', os) \<and> same_recv stub stub' \<and>
    set os \<subseteq> OutResendRequest ` set ss"
  using assms
proof (induction ss arbitrary: sent stub)
  case Nil
  then show ?case by (simp add: same_recv_def)
next
  case (Cons s ss)
  have f: "wb_IsFilled s (recvWindow stub) = Some (win_content (recvWindow stub) s \<noteq> None)"
    using Cons.prems by (intro wb_IsFilled_content) auto
  show ?case
  proof (cases "sent < MaxResendPerCall")
    case False
    then show ?thesis by (simp add: same_recv_def)
  next
    case True
    obtain stub1 o1 where r: "sendResendRequest now s stub = (stub1, o1)" by fastforce
    then have s1: "same_recv stub stub1" "set o1 \<subseteq> {OutResendRequest s}"
      by (auto simp: sendResendRequest_def Let_def same_recv_def split: if_splits)
    have "\<exists>stub' os. gap_loop now (Suc sent) ss stub1 = Some (stub', os) \<and> same_recv stub1 stub' \<and>
        set os \<subseteq> OutResendRequest ` set ss"
      using Cons.prems s1 by (intro Cons.IH) (auto simp: same_recv_def)
    moreover have "\<exists>stub' os. gap_loop now sent ss stub = Some (stub', os) \<and> same_recv stub stub' \<and>
        set os \<subseteq> OutResendRequest ` set ss"
      using Cons.prems by (intro Cons.IH) auto
    ultimately show ?thesis using True f r s1 by (auto simp: same_recv_def)
  qed
qed

lemma acknowledge_ok:
  "acknowledge now stub = (stub', os) \<Longrightarrow> same_recv stub stub' \<and> set os \<subseteq> {OutAck (recvSeq stub)} \<and>
     (ackMode stub \<noteq> ''delayed'' \<longrightarrow> os = [OutAck (recvSeq stub)])"
  by (auto simp: acknowledge_def sendAck_def same_recv_def Let_def split: if_splits)

text \<open>
  Invariant of the receiver for a stream \<open>str\<close> (packet number to content): the window starts right
  after the last delivered packet, which is missing, and holds packets of the stream only.
\<close>

definition recv_ok :: "(int \<Rightarrow> string) \<Rightarrow> StreamStub \<Rightarrow> bool" where
  "recv_ok str stub \<longleftrightarrow> wb.holds_stream str (recvWindow stub) \<and>
     startSeq (recvWindow stub) = recvSeq stub + 1 \<and> wsize (recvWindow stub) = int MaxSendWindowSize \<and>
     win_content (recvWindow stub) (recvSeq stub + 1) = None \<and> 0 \<le> recvSeq stub \<and> recvSeq stub < 2 ^ 62 \<and>
     (\<forall>s. win_content (recvWindow stub) s \<noteq> None \<longrightarrow> s < 2 ^ 62) \<and>
     length (writeChan stub) \<le> ChannelQueueSizeLarge"

lemma recv_ok_cong: "same_recv a b \<Longrightarrow> recv_ok str b = recv_ok str a"
  by (simp add: recv_ok_def same_recv_def)

lemma run_data_stream:
  assumes "wb.holds_stream str w" and "\<forall>i < k. win_content w (s + int i) \<noteq> None"
  shows "run_data w s k = map str [s..s + int k - 1]"
  using assms unfolding upto_shift run_data_def wb.holds_stream_def by (intro map_cong) auto

lemma onData_ok:
  assumes ok: "recv_ok str stub" and s: "s < 2 ^ 62" and t: "target = Some (myId stub)"
  shows "\<exists>stub' os. onData now target s (str s) stub = Some (stub', os) \<and> recv_ok str stub' \<and>
    recvSeq stub \<le> recvSeq stub' \<and> myId stub' = myId stub \<and>
    writeChan stub' = writeChan stub @ take (ChannelQueueSizeLarge - length (writeChan stub))
      (map str [recvSeq stub + 1..recvSeq stub']) \<and>
    (\<forall>a. OutAck a \<in> set os \<longrightarrow> a = recvSeq stub') \<and> (\<forall>d. OutWrite d \<notin> set os) \<and>
    ((\<exists>d. OutDrop d \<in> set os) \<longleftrightarrow>
       ChannelQueueSizeLarge < length (writeChan stub) + nat (recvSeq stub' - recvSeq stub)) \<and>
    (s = recvSeq stub + 1 \<longrightarrow> recvSeq stub < recvSeq stub' \<and>
       (ackMode stub \<noteq> ''delayed'' \<longrightarrow> OutAck (recvSeq stub') \<in> set os)) \<and>
    (\<forall>x. recvSeq stub' < x \<and> (win_content (recvWindow stub) x \<noteq> None \<or>
         x = s \<and> recvSeq stub < s \<and> s \<le> recvSeq stub + int MaxSendWindowSize) \<longrightarrow>
       win_content (recvWindow stub') x \<noteq> None) \<and>
    (\<forall>x. win_content (recvWindow stub') x \<noteq> None \<or> recvSeq stub < x \<and> x \<le> recvSeq stub' \<longrightarrow>
       win_content (recvWindow stub) x \<noteq> None \<or> x = s) \<and>
    (\<forall>x d. OutData x d \<notin> set os) \<and> (\<forall>x. OutResendRequest x \<in> set os \<longrightarrow> x < s)"
proof -
  define st where "st = stub\<lparr>lastActivityTime := now\<rparr>"
  have f: "recvWindow st = recvWindow stub" "recvSeq st = recvSeq stub" "writeChan st = writeChan stub"
    "myId st = myId stub" "ackMode st = ackMode stub" by (simp_all add: st_def)
  let ?w = "recvWindow stub" and ?r = "recvSeq stub"
  have inv: "win_inv ?w" and str: "wb.holds_stream str ?w"
    and start: "startSeq ?w = ?r + 1" and size: "wsize ?w = int MaxSendWindowSize"
    and r: "0 \<le> ?r" "?r < 2 ^ 62" and len: "length (writeChan stub) \<le> ChannelQueueSizeLarge"
    and empty: "win_content ?w (?r + 1) = None"
    and bnd: "\<And>s. win_content ?w s \<noteq> None \<Longrightarrow> s < 2 ^ 62"
    using ok by (auto simp: recv_ok_def wb.holds_stream_def)
  have N: "int MaxSendWindowSize = 7024" by (simp add: MaxSendWindowSize_def)
  show ?thesis
  proof (cases "startSeq ?w \<le> s \<and> s < startSeq ?w + wsize ?w")
    case False
    then have "wb_Put now s (str s) ?w = Some (?w, False)" using inv by (intro wb_Put_out) auto
    then have "onData now target s (str s) stub = Some (st, [])"
      using t f by (simp add: onData_def st_def [symmetric] Let_def)
    moreover have "s \<noteq> ?r + 1" using False start size N by auto
    moreover have "\<not> (?r < s \<and> s \<le> ?r + int MaxSendWindowSize)" using False start size by auto
    ultimately show ?thesis using ok f len recv_ok_cong [of stub st str]
      by (auto simp: same_recv_def)
  next
    case True
    with wb_Put_in [OF inv, of s now "str s"] obtain w where p: "wb_Put now s (str s) ?w = Some (w, True)"
      and w: "win_inv w" "startSeq w = ?r + 1" "wsize w = int MaxSendWindowSize"
      and c: "win_content w = (win_content ?w)(s \<mapsto> str s)" using start size by auto
    have strw: "wb.holds_stream str w" using str w(1) c by (auto simp: wb.holds_stream_def)
    define st1 where "st1 = st\<lparr>recvWindow := w\<rparr>"
    have f1: "recvWindow st1 = w" "recvSeq st1 = ?r" "writeChan st1 = writeChan stub" "ackMode st1 = ackMode stub"
      "myId st1 = myId stub" by (simp_all add: st1_def f)
    have i64: "i64 (?r + 1) = ?r + 1" using r by (simp add: in_i64_def)
    have "win_inv (recvWindow st1)" "?r + 1 + int MaxSendWindowSize \<le> MaxInt64"
      "startSeq (recvWindow st1) \<le> ?r + 1" "length (writeChan st1) \<le> ChannelQueueSizeLarge"
      using w r len by (simp_all add: f1 N)
    from deliver_loop_ok [OF this, unfolded f1] obtain k os where
      k: "k \<le> MaxSendWindowSize" "\<forall>i < k. win_content w (?r + 1 + int i) \<noteq> None"
        "k < MaxSendWindowSize \<longrightarrow> win_content w (?r + 1 + int k) = None"
      and d: "deliver_loop MaxSendWindowSize (?r + 1) st1 = Some (st1\<lparr>recvSeq := (if k = 0 then ?r else ?r + 1 + int k - 1),
        writeChan := writeChan stub @ take (ChannelQueueSizeLarge - length (writeChan stub)) (run_data w (?r + 1) k)\<rparr>, os)"
      and os: "set os \<subseteq> range OutDrop" "os = [] \<longleftrightarrow> length (writeChan stub) + k \<le> ChannelQueueSizeLarge"
      by blast
    have rd: "run_data w (?r + 1) k = map str [?r + 1..?r + int k]"
      using run_data_stream [OF strw k(2)] by (simp add: add.commute add.left_commute)
    define st2 where "st2 = st1\<lparr>recvSeq := ?r + int k,
      writeChan := writeChan stub @ take (ChannelQueueSizeLarge - length (writeChan stub)) (map str [?r + 1..?r + int k])\<rparr>"
    have d2: "deliver_loop MaxSendWindowSize (?r + 1) st1 = Some (st2, os)"
    proof -
      have "(if k = 0 then ?r else ?r + 1 + int k - 1) = ?r + int k" by simp
      with d show ?thesis unfolding st2_def rd by simp
    qed
    have f2: "recvWindow st2 = w" "recvSeq st2 = ?r + int k" "myId st2 = myId stub" "ackMode st2 = ackMode stub"
      by (simp_all add: st2_def f1)
    have next_None: "win_content w (?r + 1 + int k) = None"
    proof (cases "k < MaxSendWindowSize")
      case True
      with k(3) show ?thesis by simp
    next
      case False
      then show ?thesis using w k(1) by (simp add: win_content_def)
    qed
    have below: "\<forall>x. ?r + 1 \<le> x \<and> x \<le> ?r + int k \<longrightarrow> win_content w x \<noteq> None"
    proof (intro allI impI)
      fix x assume x: "?r + 1 \<le> x \<and> x \<le> ?r + int k"
      then have "nat (x - ?r - 1) < k" "?r + 1 + int (nat (x - ?r - 1)) = x" by auto
      with k(2) show "win_content w x \<noteq> None" by metis
    qed
    have bndw: "x < 2 ^ 62" if "win_content w x \<noteq> None" for x
      using that bnd [of x] s by (auto simp: c split: if_splits)
    have rk: "?r + int k < 2 ^ 62"
    proof (cases "k = 0")
      case False
      then show ?thesis using below bndw [of "?r + int k"] by auto
    qed (use r in simp)
    have tail: "\<exists>st3 o2. (if recvSeq st2 \<noteq> recvSeq st1
        then do { (w', _) \<leftarrow> wb_BundleAdvanceUpTo (recvSeq st2) (recvWindow st2); Some (st2\<lparr>recvWindow := w'\<rparr>, []) }
        else gap_loop now 0 [recvSeq st2 + 1..s - 1] st2) = Some (st3, o2) \<and> set o2 \<subseteq> OutResendRequest ` {..<s} \<and>
      recv_ok str st3 \<and> recvSeq st3 = ?r + int k \<and> writeChan st3 = writeChan st2 \<and> myId st3 = myId stub \<and>
      ackMode st3 = ackMode stub \<and> (\<forall>x. ?r + int k < x \<longrightarrow> win_content (recvWindow st3) x = win_content w x)"
      (is "\<exists>st3 o2. ?tail = _ \<and> ?P st3 o2")
    proof (cases "k = 0")
      case False
      have "startSeq w - 1 \<le> ?r + int k" "?r + int k < startSeq w + wsize w" "?r + int k + wsize w < MaxInt64"
        "\<forall>x. startSeq w \<le> x \<and> x \<le> ?r + int k \<longrightarrow> win_content w x \<noteq> None"
        using w k(1) rk below by (simp_all add: N MaxSendWindowSize_def)
      from wb_BundleAdvanceUpTo_ok [OF w(1) this] obtain w' n where
        b: "wb_BundleAdvanceUpTo (?r + int k) w = Some (w', n)" "win_inv w'" "startSeq w' = ?r + int k + 1"
          "wsize w' = wsize w" and c': "win_content w' = (\<lambda>x. if x \<le> ?r + int k then None else win_content w x)"
        by blast
      have "recv_ok str (st2\<lparr>recvWindow := w'\<rparr>)"
        using b c' strw w next_None rk r bndw len
        by (auto simp: recv_ok_def wb.holds_stream_def f2 add.commute add.left_commute)
          (auto simp: st2_def min_def)
      then show ?thesis using False b(1) c' by (simp add: f1 f2)
    next
      case True
      have "\<forall>x \<in> set [recvSeq st2 + 1..s - 1]. startSeq (recvWindow st2) \<le> x \<and> x \<le> MaxInt64"
        using s w by (simp add: f2 True)
      from gap_loop_ok [OF _ this, of now 0] w(1) obtain st3 o2 where
        g: "gap_loop now 0 [recvSeq st2 + 1..s - 1] st2 = Some (st3, o2)" "same_recv st2 st3"
          "set o2 \<subseteq> OutResendRequest ` set [recvSeq st2 + 1..s - 1]" by (auto simp: f2)
      have "OutResendRequest ` set [recvSeq st2 + 1..s - 1] \<subseteq> OutResendRequest ` {..<s}"
        by (intro image_mono) auto
      with g(3) have "set o2 \<subseteq> OutResendRequest ` {..<s}" by (rule subset_trans)
      note g = g(1,2) this
      have "recv_ok str st2"
        using strw w next_None r rk bndw len by (auto simp: recv_ok_def f2 True) (simp add: st2_def True)
      then show ?thesis using g True recv_ok_cong [OF g(2)] by (simp add: same_recv_def f1 f2)
    qed
    from tail obtain st3 o2 where t3: "?tail = Some (st3, o2)"
      and p3: "set o2 \<subseteq> OutResendRequest ` {..<s}" "recv_ok str st3" "recvSeq st3 = ?r + int k"
        "writeChan st3 = writeChan st2" "myId st3 = myId stub" "ackMode st3 = ackMode stub"
        "\<forall>x. ?r + int k < x \<longrightarrow> win_content (recvWindow st3) x = win_content w x" by blast
    obtain st4 o3 where a: "acknowledge now st3 = (st4, o3)" by fastforce
    note ack = acknowledge_ok [OF a]
    have res: "onData now target s (str s) stub = Some (st4, os @ o2 @ o3)"
      using t p d2 t3 a i64 f by (simp add: onData_def st_def [symmetric] st1_def [symmetric] f1 f2 split: if_splits)
    have drop: "(\<exists>d. OutDrop d \<in> set (os @ o2 @ o3)) \<longleftrightarrow> os \<noteq> []"
    proof
      assume "os \<noteq> []"
      then obtain x where "x \<in> set os" by (cases os) auto
      with os(1) show "\<exists>d. OutDrop d \<in> set (os @ o2 @ o3)" by auto
    qed (use ack p3(1) in \<open>auto dest!: subsetD\<close>)
    have acks: "\<forall>x. OutAck x \<in> set (os @ o2 @ o3) \<longrightarrow> x = ?r + int k" "\<forall>d. OutWrite d \<notin> set (os @ o2 @ o3)"
      using ack p3 os(1) by (auto dest!: subsetD)
    have k0: "s = ?r + 1 \<longrightarrow> 0 < k"
      using next_None c by (cases "k = 0") auto
    have rq: "recvSeq st4 = ?r + int k" "myId st4 = myId stub" "writeChan st4 = writeChan st2" "recv_ok str st4"
      using ack p3 recv_ok_cong [of st3 st4 str] by (auto simp: same_recv_def)
    show ?thesis
    proof (intro exI conjI)
      show "onData now target s (str s) stub = Some (st4, os @ o2 @ o3)" by (rule res)
      show "recv_ok str st4" by (rule rq)
      show "?r \<le> recvSeq st4" using rq by simp
      show "myId st4 = myId stub" by (rule rq)
      show "writeChan st4 = writeChan stub @ take (ChannelQueueSizeLarge - length (writeChan stub))
          (map str [?r + 1..recvSeq st4])" by (simp add: rq(1,3) st2_def)
      show "\<forall>a. OutAck a \<in> set (os @ o2 @ o3) \<longrightarrow> a = recvSeq st4" using acks(1) rq(1) by simp
      show "\<forall>d. OutWrite d \<notin> set (os @ o2 @ o3)" by (rule acks(2))
      show "(\<exists>d. OutDrop d \<in> set (os @ o2 @ o3)) \<longleftrightarrow>
          ChannelQueueSizeLarge < length (writeChan stub) + nat (recvSeq st4 - ?r)"
        unfolding drop using os(2) rq(1) by auto
      show "s = ?r + 1 \<longrightarrow> ?r < recvSeq st4 \<and>
          (ackMode stub \<noteq> ''delayed'' \<longrightarrow> OutAck (recvSeq st4) \<in> set (os @ o2 @ o3))"
        using k0 rq(1) ack p3 by auto
      have "recvWindow st4 = recvWindow st3" using ack by (simp add: same_recv_def)
      then show "\<forall>x. recvSeq st4 < x \<and> (win_content ?w x \<noteq> None \<or>
          x = s \<and> ?r < s \<and> s \<le> ?r + int MaxSendWindowSize) \<longrightarrow> win_content (recvWindow st4) x \<noteq> None"
        using p3(7) by (auto simp: rq(1) c)
      show "\<forall>x. win_content (recvWindow st4) x \<noteq> None \<or> ?r < x \<and> x \<le> recvSeq st4 \<longrightarrow>
          win_content ?w x \<noteq> None \<or> x = s"
      proof (intro allI impI)
        fix x assume x: "win_content (recvWindow st4) x \<noteq> None \<or> ?r < x \<and> x \<le> recvSeq st4"
        have "startSeq (recvWindow st4) = ?r + int k + 1" using rq(1,4) by (simp add: recv_ok_def)
        then have "win_content (recvWindow st4) x \<noteq> None \<Longrightarrow> ?r + int k < x" by (auto simp: win_content_def split: if_splits)
        with x p3(7) ack below have "win_content w x \<noteq> None" by (auto simp: same_recv_def rq(1))
        then show "win_content ?w x \<noteq> None \<or> x = s" by (simp add: c split: if_splits)
      qed
      show "\<forall>x d. OutData x d \<notin> set (os @ o2 @ o3)" "\<forall>x. OutResendRequest x \<in> set (os @ o2 @ o3) \<longrightarrow> x < s"
        using ack p3(1) os(1) by (auto dest!: subsetD)
    qed
  qed
qed

section \<open>Runs of the receiver\<close>

datatype recv_event = Arrive int int | Drain int

fun recv_run :: "(int \<Rightarrow> string) \<Rightarrow> recv_event list \<Rightarrow> StreamStub \<Rightarrow> (StreamStub \<times> frp_out list) option" where
  "recv_run str [] stub = Some (stub, [])"
| "recv_run str (e # es) stub = do {
     (stub1, o1) \<leftarrow> (case e of
         Arrive now s \<Rightarrow> onData now (Some (myId stub)) s (str s) stub
       | Drain now \<Rightarrow> Some (write_round now True stub));
     (stub2, o2) \<leftarrow> recv_run str es stub1;
     Some (stub2, o1 @ o2) }"

definition written :: "frp_out list \<Rightarrow> string list" where
  "written os = List.map_filter (\<lambda>x. case x of OutWrite d \<Rightarrow> Some d | _ \<Rightarrow> None) os"

lemma written_simps [simp]:
  "written [] = []" "written (OutWrite d # os) = d # written os"
  by (simp_all add: written_def map_filter_simps)

lemma written_append [simp]: "written (xs @ ys) = written xs @ written ys"
  by (induction xs) (auto simp: written_def map_filter_simps split: option.split)

lemma written_none: "\<forall>d. OutWrite d \<notin> set os \<Longrightarrow> written os = []"
  by (induction os) (auto simp: written_def map_filter_simps split: frp_out.split)

definition no_drop :: "frp_out list \<Rightarrow> bool" where
  "no_drop os \<longleftrightarrow> (\<forall>d. OutDrop d \<notin> set os)"

definition arrived :: "recv_event list \<Rightarrow> int set" where
  "arrived es = {s. \<exists>now. Arrive now s \<in> set es}"

lemma map_upto_split:
  "a \<le> b \<Longrightarrow> b \<le> c \<Longrightarrow> map f [a + 1..b] @ map f [b + 1..c] = map f [a + 1..c]"
proof -
  assume ab: "a \<le> b" "b \<le> c"
  have "[a + 1..c] = [a + 1..b] @ [b + 1..c]"
  proof (cases "b = c")
    case False
    with ab show ?thesis using upto_split1 [of "a + 1" "b + 1" c] by simp
  qed simp
  then show ?thesis by simp
qed

lemma write_round_ok:
  assumes "recv_ok str stub" and "write_round now True stub = (stub', os)"
  shows "recv_ok str stub' \<and> recvSeq stub' = recvSeq stub \<and> recvWindow stub' = recvWindow stub \<and>
    written os @ writeChan stub' = writeChan stub \<and> no_drop os \<and> (\<forall>a. OutAck a \<notin> set os)"
  using assms by (auto simp: write_round_def recv_ok_def no_drop_def split: list.splits)

definition accepted :: "StreamStub \<Rightarrow> int set \<Rightarrow> bool" where
  "accepted stub S \<longleftrightarrow> (\<forall>s \<in> S. 1 \<le> s \<and> s \<le> int MaxSendWindowSize \<longrightarrow>
     s \<le> recvSeq stub \<or> win_content (recvWindow stub) s \<noteq> None)"

lemma recv_run_ok:
  assumes "recv_ok str stub" and "\<forall>s \<in> arrived es. s < 2 ^ 62" and "accepted stub S"
  shows "\<exists>stub' os. recv_run str es stub = Some (stub', os) \<and> recv_ok str stub' \<and> recvSeq stub \<le> recvSeq stub' \<and>
    (no_drop os \<longrightarrow> written os @ writeChan stub' = writeChan stub @ map str [recvSeq stub + 1..recvSeq stub']) \<and>
    (\<forall>a. OutAck a \<in> set os \<longrightarrow> a \<le> recvSeq stub') \<and> accepted stub' (S \<union> arrived es)"
  using assms
proof (induction es arbitrary: stub S)
  case Nil
  then show ?case by (simp add: arrived_def)
next
  case (Cons e es)
  have later: "\<forall>s \<in> arrived es. s < 2 ^ 62" using Cons.prems(2) by (auto simp: arrived_def)
  show ?case
  proof (cases e)
    case (Drain now)
    obtain stub1 o1 where w: "write_round now True stub = (stub1, o1)" by fastforce
    note r = write_round_ok [OF Cons.prems(1) w]
    have "accepted stub1 S" using Cons.prems(3) r by (simp add: accepted_def)
    from Cons.IH [OF _ later this] r obtain stub' os where
      "recv_run str es stub1 = Some (stub', os)" "recv_ok str stub'" "recvSeq stub1 \<le> recvSeq stub'"
      "no_drop os \<longrightarrow> written os @ writeChan stub' = writeChan stub1 @ map str [recvSeq stub1 + 1..recvSeq stub']"
      "\<forall>a. OutAck a \<in> set os \<longrightarrow> a \<le> recvSeq stub'" "accepted stub' (S \<union> arrived es)" by blast
    moreover have "arrived (e # es) = arrived es" by (auto simp: arrived_def Drain)
    moreover have "written (o1 @ os) @ writeChan stub' =
        writeChan stub @ map str [recvSeq stub + 1..recvSeq stub']" if "no_drop (o1 @ os)"
    proof -
      from that have "no_drop os" by (simp add: no_drop_def)
      then have "written os @ writeChan stub' = writeChan stub1 @ map str [recvSeq stub + 1..recvSeq stub']"
        using calculation(4) r by simp
      then have "written (o1 @ os) @ writeChan stub' =
          (written o1 @ writeChan stub1) @ map str [recvSeq stub + 1..recvSeq stub']" by simp
      then show ?thesis using r by simp
    qed
    ultimately show ?thesis using r Drain w
      by (intro exI [of _ stub'] exI [of _ "o1 @ os"]) auto
  next
    case (Arrive now s)
    have "s < 2 ^ 62" using Cons.prems(2) Arrive by (auto simp: arrived_def)
    from onData_ok [OF Cons.prems(1) this refl, of now] obtain stub1 o1 where
      d: "onData now (Some (myId stub)) s (str s) stub = Some (stub1, o1)" and ok1: "recv_ok str stub1"
      and mono: "recvSeq stub \<le> recvSeq stub1"
      and wc: "writeChan stub1 = writeChan stub @ take (ChannelQueueSizeLarge - length (writeChan stub))
        (map str [recvSeq stub + 1..recvSeq stub1])"
      and ack: "\<forall>a. OutAck a \<in> set o1 \<longrightarrow> a = recvSeq stub1" and nw: "\<forall>d. OutWrite d \<notin> set o1"
      and drop: "(\<exists>d. OutDrop d \<in> set o1) \<longleftrightarrow>
        ChannelQueueSizeLarge < length (writeChan stub) + nat (recvSeq stub1 - recvSeq stub)"
      and win: "\<forall>x. recvSeq stub1 < x \<and> (win_content (recvWindow stub) x \<noteq> None \<or>
         x = s \<and> recvSeq stub < s \<and> s \<le> recvSeq stub + int MaxSendWindowSize) \<longrightarrow>
         win_content (recvWindow stub1) x \<noteq> None"
      by (elim exE conjE) (rule that; assumption)
    have pos: "0 \<le> recvSeq stub" using Cons.prems(1) by (simp add: recv_ok_def)
    have "accepted stub1 (insert s S)"
      unfolding accepted_def
    proof (intro ballI impI)
      fix x assume x: "x \<in> insert s S" and b: "1 \<le> x \<and> x \<le> int MaxSendWindowSize"
      show "x \<le> recvSeq stub1 \<or> win_content (recvWindow stub1) x \<noteq> None"
      proof (cases "x \<le> recvSeq stub1")
        case False
        then have "win_content (recvWindow stub) x \<noteq> None \<or>
            x = s \<and> recvSeq stub < s \<and> s \<le> recvSeq stub + int MaxSendWindowSize"
          using x b Cons.prems(3) mono pos by (auto simp: accepted_def)
        with False win show ?thesis by auto
      qed simp
    qed
    from Cons.IH [OF ok1 later this] obtain stub' os where
      ih: "recv_run str es stub1 = Some (stub', os)" "recv_ok str stub'" "recvSeq stub1 \<le> recvSeq stub'"
      "no_drop os \<longrightarrow> written os @ writeChan stub' = writeChan stub1 @ map str [recvSeq stub1 + 1..recvSeq stub']"
      "\<forall>a. OutAck a \<in> set os \<longrightarrow> a \<le> recvSeq stub'" "accepted stub' (insert s S \<union> arrived es)" by blast
    have "arrived (e # es) = insert s (arrived es)" by (auto simp: arrived_def Arrive)
    moreover have "written (o1 @ os) @ writeChan stub' =
        writeChan stub @ map str [recvSeq stub + 1..recvSeq stub']" if "no_drop (o1 @ os)"
    proof -
      from that have "no_drop os" "\<not> (\<exists>d. OutDrop d \<in> set o1)" by (auto simp: no_drop_def)
      with drop have "writeChan stub1 = writeChan stub @ map str [recvSeq stub + 1..recvSeq stub1]"
        unfolding wc by simp
      with ih(4) \<open>no_drop os\<close> written_none [OF nw] map_upto_split [OF mono ih(3)] show ?thesis by simp
    qed
    ultimately show ?thesis using d ih ack mono Arrive
      by (intro exI [of _ stub'] exI [of _ "o1 @ os"]) (auto simp: insert_commute)
  qed
qed

lemma NewStreamStub_recv_ok: "recv_ok str (NewStreamStub now sid)"
  using NewWindowBuffer_ok [of MaxSendWindowSize 1]
  by (simp add: recv_ok_def NewStreamStub_def wb.holds_stream_def MaxSendWindowSize_def)

section \<open>Properties\<close>

text \<open>
  However the network loses, repeats and reorders the packets of a stream, the receiver never
  panics, and as long as the write queue does not overflow, what it has written to the connection
  plus what is queued is exactly the stream up to \<open>recvSeq\<close>, in order and without gap or repetition;
  it never acknowledges beyond that. When every packet of a first window has arrived, all of it
  has been delivered.
\<close>

theorem frp_in_order_delivery:
  assumes "\<forall>s \<in> arrived es. s < 2 ^ 62"
  shows "\<exists>stub os. recv_run str es (NewStreamStub now sid) = Some (stub, os) \<and>
    (no_drop os \<longrightarrow> written os @ writeChan stub = map str [1..recvSeq stub]) \<and>
    (\<forall>a. OutAck a \<in> set os \<longrightarrow> a \<le> recvSeq stub) \<and>
    (\<forall>n \<le> int MaxSendWindowSize. {1..n} \<subseteq> arrived es \<longrightarrow> n \<le> recvSeq stub)"
proof -
  let ?s0 = "NewStreamStub now sid"
  have a0: "accepted ?s0 {}" by (simp add: accepted_def)
  from recv_run_ok [OF NewStreamStub_recv_ok [of str] assms a0] obtain stub os where
    r: "recv_run str es ?s0 = Some (stub, os)" "recv_ok str stub"
      "no_drop os \<longrightarrow> written os @ writeChan stub = writeChan ?s0 @ map str [recvSeq ?s0 + 1..recvSeq stub]"
      "\<forall>a. OutAck a \<in> set os \<longrightarrow> a \<le> recvSeq stub" "accepted stub (arrived es)" by auto
  have "n \<le> recvSeq stub" if n: "n \<le> int MaxSendWindowSize" "{1..n} \<subseteq> arrived es" for n
  proof (rule ccontr)
    assume "\<not> n \<le> recvSeq stub"
    moreover have "0 \<le> recvSeq stub" "win_content (recvWindow stub) (recvSeq stub + 1) = None"
      using r(2) by (simp_all add: recv_ok_def)
    moreover have "recvSeq stub + 1 \<in> arrived es"
      using calculation n(2) by (intro subsetD [OF n(2)]) auto
    ultimately show False using r(5) n(1) unfolding accepted_def by fastforce
  qed
  then show ?thesis using r(1,3,4) by (simp add: NewStreamStub_def)
qed

theorem frp_in_order_delivery_witness:
  "\<exists>stub os. recv_run (\<lambda>s. if s = 1 then ''he'' else ''llo'') [Arrive 0 2, Arrive 0 2, Arrive 0 1, Arrive 0 1]
       (NewStreamStub 0 ''s'') = Some (stub, os) \<and> 2 \<le> recvSeq stub"
proof -
  let ?es = "[Arrive 0 2, Arrive 0 2, Arrive 0 1, Arrive 0 1]"
  have a: "arrived ?es = {1, 2}" by (auto simp: arrived_def)
  then have "\<forall>s \<in> arrived ?es. s < 2 ^ 62" by simp
  from frp_in_order_delivery [OF this, of "\<lambda>s. if s = 1 then ''he'' else ''llo''" 0 "''s''"] obtain stub os where
    "recv_run (\<lambda>s. if s = 1 then ''he'' else ''llo'') ?es (NewStreamStub 0 ''s'') = Some (stub, os)"
    "\<forall>n \<le> int MaxSendWindowSize. {1..n} \<subseteq> arrived ?es \<longrightarrow> n \<le> recvSeq stub" by blast
  moreover have "{1..2::int} \<subseteq> arrived ?es" unfolding a by auto
  ultimately show ?thesis by (auto simp: MaxSendWindowSize_def)
qed

text \<open>
  When the write queue is full, data is lost for good: the next packet of the stream is thrown
  away by \<open>enqueueWrite\<close>, yet \<open>recvSeq\<close> moves past it and the packet is acknowledged, so the
  sender will not send it again.
\<close>

theorem full_queue_loses_acknowledged_data:
  assumes "recv_ok str stub" and "recvSeq stub + 1 < 2 ^ 62"
    and "length (writeChan stub) = ChannelQueueSizeLarge" and "ackMode stub = ''immediate''"
  shows "\<exists>stub' os. onData now (Some (myId stub)) (recvSeq stub + 1) (str (recvSeq stub + 1)) stub = Some (stub', os) \<and>
    writeChan stub' = writeChan stub \<and> (\<exists>d. OutDrop d \<in> set os) \<and>
    recvSeq stub < recvSeq stub' \<and> OutAck (recvSeq stub') \<in> set os"
proof -
  from onData_ok [OF assms(1,2) refl, of now] obtain stub' os where
    "onData now (Some (myId stub)) (recvSeq stub + 1) (str (recvSeq stub + 1)) stub = Some (stub', os)"
    "writeChan stub' = writeChan stub @ take (ChannelQueueSizeLarge - length (writeChan stub))
      (map str [recvSeq stub + 1..recvSeq stub'])"
    "(\<exists>d. OutDrop d \<in> set os) \<longleftrightarrow>
       ChannelQueueSizeLarge < length (writeChan stub) + nat (recvSeq stub' - recvSeq stub)"
    "recvSeq stub + 1 = recvSeq stub + 1 \<longrightarrow> recvSeq stub < recvSeq stub' \<and>
       (ackMode stub \<noteq> ''delayed'' \<longrightarrow> OutAck (recvSeq stub') \<in> set os)"
    by (elim exE conjE) (rule that; assumption)
  with assms(3,4) show ?thesis by simp
qed

theorem full_queue_loses_acknowledged_data_witness:
  "\<exists>stub' os. onData 0 (Some ''s'') 1 ''x''
       ((NewStreamStub 0 ''s'')\<lparr>writeChan := replicate 1024 ''old''\<rparr>) = Some (stub', os) \<and>
     (\<exists>d. OutDrop d \<in> set os) \<and> OutAck (recvSeq stub') \<in> set os"
proof -
  let ?stub = "(NewStreamStub 0 ''s'')\<lparr>writeChan := replicate 1024 ''old''\<rparr>"
  have ok: "recv_ok (\<lambda>_. ''x'') ?stub"
    using NewStreamStub_recv_ok [of "\<lambda>_. ''x''" 0 "''s''"] by (simp add: recv_ok_def ChannelQueueSizeLarge_def)
  have f: "recvSeq ?stub = 0" "ackMode ?stub = ''immediate''" "myId ?stub = ''s''"
    "length (writeChan ?stub) = ChannelQueueSizeLarge"
    by (simp_all add: NewStreamStub_def ChannelQueueSizeLarge_def)
  have "recvSeq ?stub + 1 < 2 ^ 62" using f(1) by simp
  from full_queue_loses_acknowledged_data [OF ok this f(4,2), of 0] show ?thesis
    unfolding f(1,3) by auto
qed

section \<open>The sender\<close>

text \<open>
  Invariant of the sender between sends: the window starts after the last acknowledged packet and
  holds exactly the packets sent since.
\<close>

definition send_ok :: "(int \<Rightarrow> string) \<Rightarrow> StreamStub \<Rightarrow> bool" where
  "send_ok str stub \<longleftrightarrow> win_inv (sendWindow stub) \<and> wsize (sendWindow stub) = int MaxSendWindowSize \<and>
     startSeq (sendWindow stub) = lastAckedSeq stub + 1 \<and> 0 \<le> lastAckedSeq stub \<and>
     lastAckedSeq stub \<le> sendSeq stub \<and> sendSeq stub < 2 ^ 62 \<and>
     sendSeq stub \<le> lastAckedSeq stub + int MaxSendWindowSize \<and>
     win_content (sendWindow stub) =
       (\<lambda>s. if lastAckedSeq stub < s \<and> s \<le> sendSeq stub then Some (str s) else None)"

datatype send_event = SendNext int | AckUpTo int int

text \<open>
  A run of the sender: data that finds no room waits (the run is stuck there), an acknowledgement is
  handled as it comes.
\<close>

fun send_step :: "(int \<Rightarrow> string) \<Rightarrow> send_event \<Rightarrow> StreamStub \<Rightarrow> (StreamStub \<times> frp_out list \<times> send_result) option" where
  "send_step str (SendNext now) stub =
     (let (stub1, s) = send_begin now stub in send_try now s (str s) stub1)"
| "send_step str (AckUpTo now a) stub =
     map_option (\<lambda>x. (x, [], Sent)) (onAck now (Some (myId stub)) a stub)"

lemma send_step_ok:
  assumes ok: "send_ok str stub" and "sendSeq stub + 1 < 2 ^ 62"
    and "case e of AckUpTo _ a \<Rightarrow> lastAckedSeq stub \<le> a \<and> a \<le> sendSeq stub | SendNext _ \<Rightarrow>
      sendSeq stub < lastAckedSeq stub + int MaxSendWindowSize"
  shows "\<exists>stub' os. send_step str e stub = Some (stub', os, Sent) \<and> send_ok str stub' \<and>
    (case e of AckUpTo _ a \<Rightarrow> lastAckedSeq stub' = a \<and> sendSeq stub' = sendSeq stub \<and> os = []
     | SendNext _ \<Rightarrow> lastAckedSeq stub' = lastAckedSeq stub \<and> sendSeq stub' = sendSeq stub + 1 \<and>
         os = [OutData (sendSeq stub + 1) (str (sendSeq stub + 1))])"
proof (cases e)
  case (SendNext now)
  let ?w = "sendWindow stub" and ?s = "sendSeq stub + 1"
  have inv: "win_inv ?w" and f: "startSeq ?w \<le> ?s" "?s < startSeq ?w + wsize ?w"
    using ok assms(3) SendNext by (auto simp: send_ok_def)
  have i64: "i64 ?s = ?s" using ok assms(2) by (simp add: in_i64_def send_ok_def)
  from wb_Put_in [OF inv f, of now "str ?s"] obtain w where p: "wb_Put now ?s (str ?s) ?w = Some (w, True)"
    and w: "win_inv w" "startSeq w = startSeq ?w" "wsize w = wsize ?w"
      "win_content w = (win_content ?w)(?s \<mapsto> str ?s)" by blast
  have c: "wb_CanPut ?s ?w" using f by (simp add: wb_CanPut_def in_window_inv [OF inv])
  let ?stub = "stub\<lparr>lastActivityTime := now, sendSeq := ?s, sendWindow := w\<rparr>"
  have "send_step str e stub = Some (?stub, [OutData ?s (str ?s)], Sent)"
    using p c i64 by (simp add: SendNext send_begin_def send_try_def sendData_def Let_def)
  moreover have "send_ok str ?stub"
    using ok assms(2,3) w SendNext by (auto simp: send_ok_def fun_eq_iff)
  ultimately show ?thesis by (simp add: SendNext)
next
  case (AckUpTo now a)
  let ?w = "sendWindow stub"
  have inv: "win_inv ?w" and f: "startSeq ?w - 1 \<le> a" "a < startSeq ?w + wsize ?w" "a + wsize ?w < MaxInt64"
    using ok assms(3) AckUpTo by (auto simp: send_ok_def MaxSendWindowSize_def)
  from wb_RemoveUpTo_ok [OF inv f] obtain w where r: "wb_RemoveUpTo a ?w = Some w"
    and w: "win_inv w" "startSeq w = a + 1" "wsize w = wsize ?w"
      "win_content w = (\<lambda>s. if s \<le> a then None else win_content ?w s)" by blast
  let ?stub = "stub\<lparr>lastActivityTime := now, sendWindow := w, lastAckedSeq := a\<rparr>"
  have "send_step str e stub = Some (?stub, [], Sent)" using r by (simp add: AckUpTo onAck_def Let_def)
  moreover have "send_ok str ?stub" using ok assms(3) w AckUpTo by (auto simp: send_ok_def fun_eq_iff)
  ultimately show ?thesis by (simp add: AckUpTo)
qed

lemma NewStreamStub_send_ok: "send_ok str (NewStreamStub now sid)"
  using NewWindowBuffer_ok [of MaxSendWindowSize 1]
  by (auto simp: send_ok_def NewStreamStub_def MaxSendWindowSize_def fun_eq_iff)

text \<open>
  As long as acknowledgements do not go backwards, the send window holds exactly the
  unacknowledged packets: any of them is sent again unchanged on request, and nothing else is.
\<close>

theorem sender_resends_exactly_unacked:
  assumes "send_ok str stub" and "sendSeq stub + 1 < 2 ^ 62" and "\<not> delayedResend stub"
    and "case e of AckUpTo _ a \<Rightarrow> lastAckedSeq stub \<le> a \<and> a \<le> sendSeq stub | SendNext _ \<Rightarrow>
      sendSeq stub < lastAckedSeq stub + int MaxSendWindowSize"
  shows "\<exists>stub' os. send_step str e stub = Some (stub', os, Sent) \<and> send_ok str stub' \<and>
    (\<forall>now s. \<exists>stub2. onResendRequest now (Some (myId stub)) s stub = Some (stub2,
       if lastAckedSeq stub < s \<and> s \<le> sendSeq stub then [OutData s (str s)] else []))"
proof -
  have "win_inv (sendWindow stub)" and "win_content (sendWindow stub) =
       (\<lambda>s. if lastAckedSeq stub < s \<and> s \<le> sendSeq stub then Some (str s) else None)"
    using assms(1) by (auto simp: send_ok_def)
  then have "\<exists>stub2. onResendRequest now (Some (myId stub)) s stub = Some (stub2,
       if lastAckedSeq stub < s \<and> s \<le> sendSeq stub then [OutData s (str s)] else [])" for now s
    using assms(3) by (auto simp: onResendRequest_def Let_def wb_GetWithMeta_content sendData_def)
  moreover from send_step_ok [OF assms(1,2,4)] have "\<exists>stub' os. send_step str e stub = Some (stub', os, Sent) \<and>
    send_ok str stub'" by blast
  ultimately show ?thesis by blast
qed

theorem sender_resends_exactly_unacked_witness:
  "\<exists>stub' os. send_step (\<lambda>s. ''d'') (SendNext 0) (NewStreamStub 0 ''s'') = Some (stub', os, Sent) \<and>
     send_ok (\<lambda>s. ''d'') stub'"
proof -
  let ?stub = "NewStreamStub 0 ''s''"
  have f: "sendSeq ?stub + 1 < 2 ^ 62" "\<not> delayedResend ?stub"
    "sendSeq ?stub < lastAckedSeq ?stub + int MaxSendWindowSize"
    by (simp_all add: NewStreamStub_def MaxSendWindowSize_def)
  from sender_resends_exactly_unacked [OF NewStreamStub_send_ok f(1,2), of "SendNext 0" "\<lambda>s. ''d''"] f(3)
  show ?thesis by auto
qed

text \<open>
  A delayed acknowledgement moves the send window back, and then old numbers name new packets: in
  a window of two cells that acknowledged packets 1 and 2 and holds packet 3, an acknowledgement of
  0 that arrives late makes the window return packet 3 as packet 1.
\<close>

theorem late_ack_renames_packets:
  "(do { (w1, _) \<leftarrow> wb_Put 0 1 ''a'' (NewWindowBuffer 1 2); (w2, _) \<leftarrow> wb_Put 0 2 ''b'' w1;
         w3 \<leftarrow> wb_RemoveUpTo 2 w2; (w4, _) \<leftarrow> wb_Put 0 3 ''c'' w3;
         before \<leftarrow> wb_Get 1 w4; w5 \<leftarrow> wb_RemoveUpTo 0 w4; after \<leftarrow> wb_Get 1 w5;
         Some (before, after) }) = Some (None, Some ''c'')"
  by code_simp

text \<open>
  The timer that repeats unacknowledged packets stops one short: with only the last packet
  outstanding it repeats nothing, however long that packet stays unacknowledged.
\<close>

theorem timer_never_repeats_last_packet:
  "startSeq (sendWindow stub) = sendSeq stub \<Longrightarrow> resendUnackedData now stub = Some (stub, [])"
  by (simp add: resendUnackedData_def)

theorem timer_never_repeats_last_packet_witness:
  "\<exists>stub'. send_step (\<lambda>s. ''d'') (SendNext 0) (NewStreamStub 0 ''s'') = Some (stub', [OutData 1 ''d''], Sent) \<and>
     resendUnackedData 9000000000 stub' = Some (stub', [])"
proof -
  let ?stub = "NewStreamStub 0 ''s''"
  have f: "sendSeq ?stub = 0" "lastAckedSeq ?stub = 0" by (simp_all add: NewStreamStub_def)
  from send_step_ok [OF NewStreamStub_send_ok [of "\<lambda>s. ''d''" 0 "''s''"], of "SendNext 0"] f obtain stub' where
    "send_step (\<lambda>s. ''d'') (SendNext 0) ?stub = Some (stub', [OutData 1 ''d''], Sent)"
    "send_ok (\<lambda>s. ''d'') stub'" "lastAckedSeq stub' = 0" "sendSeq stub' = 1"
    by (auto simp: MaxSendWindowSize_def)
  with timer_never_repeats_last_packet [of stub' 9000000000] show ?thesis by (auto simp: send_ok_def)
qed

end
