(* ===== verification/Frp_Manager.thy ===== *)
theory Frp_Manager
  imports Frp_Stream Net_Rpc
begin

text \<open>
  core/FRPStubManager.go: the registry of forwarded connections of a node. Streams are objects: a table
  maps ids to them, and goroutines keep pointers to them. The model has a store \<open>stubHeap\<close> whose
  positions are the addresses, and a table \<open>Stubs\<close> from ids to addresses.

  \<^item> Dialing, listening and opening files are parameters (\<open>Inl\<close> is the text of the error); a connection
    or file is a handle.
  \<^item> A function that makes a remote call is split at the call: \<open>_begin\<close> gives what is asked, \<open>_finish\<close>
    takes the result and whether the call succeeded. \<open>None\<close> is a panic; in a goroutine without
    \<open>recover\<close> it ends the process.
\<close>

section \<open>State\<close>

record FRPConfig =
  fcCode :: string
  fcLocalAddr :: string
  fcRemoteNode :: string
  fcRemoteAddr :: string

text \<open>A stream with the fields that tie it to its peer, the queue of incoming messages, and the loops started.\<close>

record FrpEntry =
  feStub :: StreamStub
  fePeerNode :: string
  fePeerStub :: string
  feConn :: string
  feIn :: "(MessageType \<times> Payload) list"
  feSendLoop :: bool
  feRecvLoop :: bool

record StubManager =
  MyNodeId :: string
  Stubs :: "(string \<times> nat) list"
  stubHeap :: "FrpEntry list"
  StubCounter :: int
  FrpConfigs :: "(string \<times> FRPConfig) list"

datatype frp_error =
    NotRegistered string | DialFailed string | ListenFailed string | OpenFailed string
  | RpcFailed | BadResponse | MissingPeer | InvalidPeer | RemoteOpenFailed | EmptyField

definition NewStubManager :: "string \<Rightarrow> StubManager" where
  "NewStubManager myNodeId = \<lparr>MyNodeId = myNodeId, Stubs = [], stubHeap = [], StubCounter = 0, FrpConfigs = []\<rparr>"

section \<open>Configurations\<close>

definition RegisterFRP :: "FRPConfig \<Rightarrow> StubManager \<Rightarrow> StubManager" where
  "RegisterFRP config sm = sm\<lparr>FrpConfigs := AList.update (fcCode config) config (FrpConfigs sm)\<rparr>"

definition RegisterFRPWithCode ::
  "string \<Rightarrow> string \<Rightarrow> string \<Rightarrow> string \<Rightarrow> StubManager \<Rightarrow> frp_error + StubManager" where
  "RegisterFRPWithCode code localAddr remoteNode remoteAddr sm =
     (if code = [] \<or> localAddr = [] \<or> remoteNode = [] \<or> remoteAddr = [] then Inl EmptyField
      else Inr (RegisterFRP \<lparr>fcCode = code, fcLocalAddr = localAddr, fcRemoteNode = remoteNode,
        fcRemoteAddr = remoteAddr\<rparr> sm))"

definition RegisterFRPSimplified ::
  "string \<Rightarrow> string \<Rightarrow> string \<Rightarrow> bool \<Rightarrow> StubManager \<Rightarrow> frp_error + StubManager" where
  "RegisterFRPSimplified code remoteNode targetAddr isServer sm =
     (if code = [] \<or> remoteNode = [] \<or> targetAddr = [] then Inl EmptyField
      else Inr (RegisterFRP \<lparr>fcCode = code, fcLocalAddr = (if isServer then [] else targetAddr),
        fcRemoteNode = remoteNode, fcRemoteAddr = (if isServer then targetAddr else [])\<rparr> sm))"

definition WrapFRPAddr :: "string \<Rightarrow> string" where
  "WrapFRPAddr localAddr = ''_http_frp_'' @ localAddr"

definition RegisterFRPWithoutCode ::
  "string \<Rightarrow> string \<Rightarrow> string \<Rightarrow> StubManager \<Rightarrow> frp_error + string \<times> StubManager" where
  "RegisterFRPWithoutCode localAddr remoteNode remoteAddr sm =
     (if localAddr = [] \<or> remoteNode = [] \<or> remoteAddr = [] then Inl EmptyField
      else let code = WrapFRPAddr localAddr
           in Inr (code, sm\<lparr>FrpConfigs := AList.update code \<lparr>fcCode = code, fcLocalAddr = localAddr,
                fcRemoteNode = remoteNode, fcRemoteAddr = remoteAddr\<rparr> (FrpConfigs sm)\<rparr>))"

section \<open>The table of streams\<close>

definition at_stub :: "nat \<Rightarrow> (FrpEntry \<Rightarrow> FrpEntry) \<Rightarrow> StubManager \<Rightarrow> StubManager" where
  "at_stub a f sm = (if a < length (stubHeap sm) then sm\<lparr>stubHeap := (stubHeap sm)[a := f (stubHeap sm ! a)]\<rparr> else sm)"

text \<open>The message of each output of a stream.\<close>

definition frp_message_base :: "MessageType \<Rightarrow> Payload \<Rightarrow> FrpEntry \<Rightarrow> StubManager \<Rightarrow> Message" where
  "frp_message_base ty p e sm = zero_message\<lparr>mType := ty, mData := p, mFrom := MyNodeId sm, mTo := fePeerNode e,
     mTTL := 100, LastSender := MyNodeId sm\<rparr>"

definition close_message :: "FrpEntry \<Rightarrow> StubManager \<Rightarrow> Message" where
  "close_message e sm = (frp_message_base FRPClose (Text (myId (feStub e))) e sm)\<lparr>LastSender := []\<rparr>"

definition frp_send :: "FrpEntry \<Rightarrow> StubManager \<Rightarrow> frp_out \<Rightarrow> net_out list" where
  "frp_send e sm x = (case x of
       OutData s d \<Rightarrow> [Go (T_sendTo (fePeerNode e) (frp_message_base FRPData
         (ObjJson [(''stub_id'', GStr (fePeerStub e)), (''seq'', GNum s), (''data'', GStr d)]) e sm))]
     | OutAck a \<Rightarrow> [Go (T_sendTo (fePeerNode e) (frp_message_base FRPAck
         (ObjJson [(''stub_id'', GStr (fePeerStub e)), (''ack'', GNum a)]) e sm))]
     | OutResendRequest s \<Rightarrow> [Go (T_sendTo (fePeerNode e) (frp_message_base FRPResendRequest
         (ObjJson [(''stub_id'', GStr (fePeerStub e)), (''seq'', GNum s)]) e sm))]
     | OutClose \<Rightarrow> [Go (T_sendTo (fePeerNode e) (close_message e sm))]
     | OutWrite d \<Rightarrow> []
     | OutDrop d \<Rightarrow> [])"

text \<open>\<open>stub.doClose()\<close> on the object at an address.\<close>

definition close_at :: "int \<Rightarrow> nat \<Rightarrow> StubManager \<Rightarrow> StubManager \<times> net_out list" where
  "close_at now a sm = (if a < length (stubHeap sm)
     then (let e = stubHeap sm ! a; (s, os) = doClose now (feStub e)
           in (at_stub a (\<lambda>e. e\<lparr>feStub := s\<rparr>) sm, concat (map (frp_send e sm) os)))
     else (sm, []))"

definition CloseStub :: "int \<Rightarrow> string \<Rightarrow> StubManager \<Rightarrow> StubManager \<times> net_out list" where
  "CloseStub now stubId sm = (case map_of (Stubs sm) stubId of None \<Rightarrow> (sm, []) | Some a \<Rightarrow> close_at now a sm)"

definition CloseStubByAddr :: "int \<Rightarrow> string \<Rightarrow> StubManager \<Rightarrow> StubManager \<times> net_out list" where
  "CloseStubByAddr now addr sm = CloseStub now (''_http_frp_'' @ addr) sm"

definition CloseAllStubs :: "int \<Rightarrow> StubManager \<Rightarrow> StubManager \<times> net_out list" where
  "CloseAllStubs now sm = each (\<lambda>(_, a). close_at now a) (Stubs sm) sm"

definition GetStubById :: "string \<Rightarrow> StubManager \<Rightarrow> nat option" where
  "GetStubById stubId sm = map_of (Stubs sm) stubId"

definition DeleteAllStubs :: "StubManager \<Rightarrow> StubManager" where
  "DeleteAllStubs sm = sm\<lparr>Stubs := []\<rparr>"

definition DeleteStubById :: "string \<Rightarrow> StubManager \<Rightarrow> StubManager" where
  "DeleteStubById stubId sm = sm\<lparr>Stubs := AList.delete stubId (Stubs sm)\<rparr>"

text \<open>A tick of the closing goroutine of a stream: when it closes, the entry under its id is deleted.\<close>

definition lazy_close_step :: "int \<Rightarrow> nat \<Rightarrow> StubManager \<Rightarrow> StubManager" where
  "lazy_close_step now a sm = (if a < length (stubHeap sm)
     then (let s = feStub (stubHeap sm ! a); s1 = lazyClose_tick now s; sm1 = at_stub a (\<lambda>e. e\<lparr>feStub := s1\<rparr>) sm
           in if \<not> closed s \<and> closed s1 then DeleteStubById (myId s) sm1 else sm1)
     else sm)"

text \<open>A new stream, registered under its id; the next numbered id.\<close>

definition new_stub :: "int \<Rightarrow> string \<Rightarrow> string \<Rightarrow> string \<Rightarrow> string \<Rightarrow> StubManager \<Rightarrow> nat \<times> StubManager" where
  "new_stub now conn stubId peerNode peerStub sm =
     (length (stubHeap sm),
      sm\<lparr>stubHeap := stubHeap sm @ [\<lparr>feStub = NewStreamStub now stubId, fePeerNode = peerNode,
           fePeerStub = peerStub, feConn = conn, feIn = [], feSendLoop = False, feRecvLoop = False\<rparr>],
         Stubs := AList.update stubId (length (stubHeap sm)) (Stubs sm)\<rparr>)"

definition numbered :: "int \<Rightarrow> string" where
  "numbered c = ''stub-'' @ itoa c"

definition next_stub_id :: "StubManager \<Rightarrow> string \<times> StubManager" where
  "next_stub_id sm = (let c = i64 (StubCounter sm + 1) in (numbered c, sm\<lparr>StubCounter := c\<rparr>))"

definition start_loops :: "bool \<Rightarrow> bool \<Rightarrow> nat \<Rightarrow> StubManager \<Rightarrow> StubManager" where
  "start_loops s r a = at_stub a (\<lambda>e. e\<lparr>feSendLoop := feSendLoop e \<or> s, feRecvLoop := feRecvLoop e \<or> r\<rparr>)"

definition set_peer :: "string \<Rightarrow> nat \<Rightarrow> StubManager \<Rightarrow> StubManager" where
  "set_peer p a = at_stub a (\<lambda>e. e\<lparr>fePeerStub := p\<rparr>)"

section \<open>Connecting\<close>

text \<open>The peer id of a response, or what is wrong with the response.\<close>

definition peer_of :: "goval \<times> bool \<Rightarrow> frp_error + string" where
  "peer_of r = (let (result, ok) = r in
     if \<not> ok \<or> result = GNil then Inl RpcFailed
     else (case result of
         GMap m \<Rightarrow> (case map_of m ''peer_stub_id'' of
             None \<Rightarrow> Inl MissingPeer
           | Some (GStr p) \<Rightarrow> if p = [] then Inl InvalidPeer else Inr p
           | Some _ \<Rightarrow> Inl InvalidPeer)
       | _ \<Rightarrow> Inl BadResponse))"

text \<open>What four functions do with the response: close on an error, else set the peer and start both loops.\<close>

definition connect_finish ::
  "int \<Rightarrow> goval \<times> bool \<Rightarrow> nat \<Rightarrow> StubManager \<Rightarrow> frp_error option \<times> StubManager \<times> net_out list" where
  "connect_finish now r a sm = (case peer_of r of
       Inl e \<Rightarrow> (Some e, close_at now a sm)
     | Inr p \<Rightarrow> (None, start_loops True True a (set_peer p a sm), []))"

text \<open>The begin parts give the address of the new stream, the node to call and the parameters.\<close>

definition RunFRPWithStub_begin ::
  "(string \<Rightarrow> string + string) \<Rightarrow> int \<Rightarrow> string \<Rightarrow> StubManager \<Rightarrow> (frp_error + nat \<times> string \<times> params) \<times> StubManager" where
  "RunFRPWithStub_begin dial now code sm = (case map_of (FrpConfigs sm) code of
       None \<Rightarrow> (Inl (NotRegistered code), sm)
     | Some config \<Rightarrow> (case dial (fcLocalAddr config) of
         Inl e \<Rightarrow> (Inl (DialFailed e), sm)
       | Inr conn \<Rightarrow>
           (let (stubId, sm1) = next_stub_id sm;
                (a, sm2) = new_stub now conn stubId (fcRemoteNode config) [] sm1
            in (Inr (a, fcRemoteNode config, [(''code'', GStr code), (''stub_id'', GStr stubId)]), sm2))))"

definition RunFRPWithStub_finish ::
  "int \<Rightarrow> goval \<times> bool \<Rightarrow> nat \<Rightarrow> StubManager \<Rightarrow> frp_error option \<times> StubManager \<times> net_out list" where
  "RunFRPWithStub_finish = connect_finish"

text \<open>The remote procedures \<open>_frp_connect\<close> and \<open>_frp_dynamic_connect\<close>, called by the node \<open>from1\<close>.\<close>

definition nonempty_param :: "params \<Rightarrow> string \<Rightarrow> goval + string" where
  "nonempty_param ps k = (case str_param ps k of
       Some s \<Rightarrow> if s = [] then Inl (rpc_error (''missing or invalid '' @ [CHR 0x27] @ k @ [CHR 0x27])) else Inr s
     | None \<Rightarrow> Inl (rpc_error (''missing or invalid '' @ [CHR 0x27] @ k @ [CHR 0x27])))"

definition code_missing :: "string \<Rightarrow> goval" where
  "code_missing code = rpc_error (''FRP code '' @ [CHR 0x27] @ code @ [CHR 0x27] @ '' not registered'')"

definition accept_peer :: "int \<Rightarrow> string \<Rightarrow> string \<Rightarrow> string \<Rightarrow> bool \<Rightarrow> bool \<Rightarrow> StubManager \<Rightarrow> string \<times> StubManager" where
  "accept_peer now conn from1 peerStubId snd_loop rcv_loop sm =
     (let (localStubId, sm1) = next_stub_id sm;
          (a, sm2) = new_stub now conn localStubId from1 peerStubId sm1
      in (localStubId, start_loops snd_loop rcv_loop a sm2))"

definition rpc_frp_connect ::
  "(string \<Rightarrow> string + string) \<Rightarrow> int \<Rightarrow> params \<Rightarrow> string \<Rightarrow> StubManager \<Rightarrow> goval \<times> StubManager" where
  "rpc_frp_connect dial now ps from1 sm = (case nonempty_param ps ''code'' of
       Inl e \<Rightarrow> (e, sm)
     | Inr code \<Rightarrow> (case nonempty_param ps ''stub_id'' of
         Inl e \<Rightarrow> (e, sm)
       | Inr peerStubId \<Rightarrow> (case map_of (FrpConfigs sm) code of
           None \<Rightarrow> (code_missing code, sm)
         | Some config \<Rightarrow> (case dial (fcRemoteAddr config) of
             Inl e \<Rightarrow> (rpc_error (''failed to connect to RemoteAddr: '' @ e), sm)
           | Inr conn \<Rightarrow>
               (let (localStubId, sm1) = accept_peer now conn from1 peerStubId True True sm
                in (GMap [(''peer_stub_id'', GStr localStubId)], sm1))))))"

definition rpc_frp_dynamic_connect ::
  "(string \<Rightarrow> string + string) \<Rightarrow> int \<Rightarrow> params \<Rightarrow> string \<Rightarrow> StubManager \<Rightarrow> goval \<times> StubManager" where
  "rpc_frp_dynamic_connect dial now ps from1 sm = (case nonempty_param ps ''tcp_target'' of
       Inl e \<Rightarrow> (e, sm)
     | Inr tcpTarget \<Rightarrow> (case nonempty_param ps ''stub_id'' of
         Inl e \<Rightarrow> (e, sm)
       | Inr peerStubId \<Rightarrow> (case dial tcpTarget of
           Inl e \<Rightarrow> (rpc_error (''failed to connect to tcp_target: '' @ e), sm)
         | Inr conn \<Rightarrow>
             (let (localStubId, sm1) = accept_peer now conn from1 peerStubId True True sm
              in (GMap [(''peer_stub_id'', GStr localStubId)], sm1)))))"

section \<open>Listeners\<close>

text \<open>
  \<open>RunRegisteredFRP\<close> checks the configuration and listens; each accepted connection is handled by a
  goroutine: \<open>accept_registered_begin\<close> and, after the call, \<open>accept_registered_finish\<close>.
\<close>

definition RunRegisteredFRP :: "(string \<Rightarrow> string + unit) \<Rightarrow> string \<Rightarrow> StubManager \<Rightarrow> frp_error option" where
  "RunRegisteredFRP listen code sm = (case map_of (FrpConfigs sm) code of
       None \<Rightarrow> Some (NotRegistered code)
     | Some config \<Rightarrow> (case listen (fcLocalAddr config) of Inl e \<Rightarrow> Some (ListenFailed e) | Inr _ \<Rightarrow> None))"

definition RunFRPWithExistingConn_begin :: "string \<Rightarrow> string \<Rightarrow> StubManager \<Rightarrow> frp_error + string \<times> params" where
  "RunFRPWithExistingConn_begin code stubId sm = (case map_of (FrpConfigs sm) code of
       None \<Rightarrow> Inl (NotRegistered code)
     | Some config \<Rightarrow> Inr (fcRemoteNode config, [(''code'', GStr code), (''stub_id'', GStr stubId)]))"

text \<open>The peer id is asserted to be a string (in a log call) before its presence is checked.\<close>

definition RunFRPWithExistingConn_finish ::
  "goval \<times> bool \<Rightarrow> string \<Rightarrow> StubManager \<Rightarrow> ((frp_error + unit) \<times> StubManager) option" where
  "RunFRPWithExistingConn_finish r stubId sm = (let (result, ok) = r in
     if \<not> ok \<or> result = GNil then Some (Inl RpcFailed, sm)
     else (case result of
         GMap m \<Rightarrow> (case map_of m ''peer_stub_id'' of
             Some (GStr p) \<Rightarrow>
               if p = [] then Some (Inl InvalidPeer, sm)
               else Some (Inr (), (case map_of (Stubs sm) stubId of None \<Rightarrow> sm | Some a \<Rightarrow> set_peer p a sm))
           | _ \<Rightarrow> None)
       | _ \<Rightarrow> Some (Inl BadResponse, sm)))"

definition accept_registered_begin ::
  "int \<Rightarrow> string \<Rightarrow> string \<Rightarrow> StubManager \<Rightarrow> (nat \<times> string \<times> string \<times> params) option \<times> StubManager" where
  "accept_registered_begin now conn code sm =
     (let (stubId, sm1) = next_stub_id sm in
      case map_of (FrpConfigs sm1) code of
        None \<Rightarrow> (None, sm1)
      | Some config \<Rightarrow>
          (let (a, sm2) = new_stub now conn stubId (fcRemoteNode config) [] sm1
           in (Some (a, stubId, fcRemoteNode config, [(''code'', GStr code), (''stub_id'', GStr stubId)]), sm2)))"

definition accept_registered_finish ::
  "int \<Rightarrow> goval \<times> bool \<Rightarrow> nat \<Rightarrow> string \<Rightarrow> StubManager \<Rightarrow> (StubManager \<times> net_out list) option" where
  "accept_registered_finish now r a stubId sm = do {
     (res, sm1) \<leftarrow> RunFRPWithExistingConn_finish r stubId sm;
     Some (case res of Inl _ \<Rightarrow> close_at now a sm1 | Inr _ \<Rightarrow> (start_loops True True a sm1, [])) }"

text \<open>
  The three dynamic listeners accept a connection the same way: the code of the configuration is the id
  of the stream.
\<close>

definition RunFRPDynamicWithRegistration :: "(string \<Rightarrow> string + unit) \<Rightarrow> string \<Rightarrow> StubManager \<Rightarrow> frp_error option" where
  "RunFRPDynamicWithRegistration listen code sm = (case map_of (FrpConfigs sm) code of
       None \<Rightarrow> Some (NotRegistered code)
     | Some config \<Rightarrow> (case listen (fcLocalAddr config) of Inl e \<Rightarrow> Some (ListenFailed e) | Inr _ \<Rightarrow> None))"

definition RunFRPDynamicWithRegistrationLocalAddr ::
  "(string \<Rightarrow> string + unit) \<Rightarrow> string \<Rightarrow> StubManager \<Rightarrow> frp_error option" where
  "RunFRPDynamicWithRegistrationLocalAddr listen localAddr sm = (case map_of (FrpConfigs sm) (WrapFRPAddr localAddr) of
       None \<Rightarrow> Some (NotRegistered (WrapFRPAddr localAddr))
     | Some _ \<Rightarrow> (case listen localAddr of Inl e \<Rightarrow> Some (ListenFailed e) | Inr _ \<Rightarrow> None))"

definition RunFRPDynamicWithoutRegistration :: "(string \<Rightarrow> string + unit) \<Rightarrow> string \<Rightarrow> frp_error option" where
  "RunFRPDynamicWithoutRegistration listen localAddr =
     (case listen localAddr of Inl e \<Rightarrow> Some (ListenFailed e) | Inr _ \<Rightarrow> None)"

definition RegisterFRPAndRun :: "(string \<Rightarrow> string + unit) \<Rightarrow> string \<Rightarrow> string \<Rightarrow> string \<Rightarrow> frp_error option" where
  "RegisterFRPAndRun listen remoteNode localAddr remoteAddr =
     (if remoteNode = [] \<or> localAddr = [] \<or> remoteAddr = [] then Some EmptyField
      else RunFRPDynamicWithoutRegistration listen localAddr)"

definition accept_dynamic_begin ::
  "int \<Rightarrow> string \<Rightarrow> string \<Rightarrow> string \<Rightarrow> string \<Rightarrow> StubManager \<Rightarrow> (nat \<times> params) \<times> StubManager" where
  "accept_dynamic_begin now conn code remoteNode remoteAddr sm =
     (let (a, sm1) = new_stub now conn code remoteNode [] sm
      in ((a, [(''tcp_target'', GStr remoteAddr), (''stub_id'', GStr code)]), sm1))"

definition accept_dynamic_finish :: "int \<Rightarrow> goval \<times> bool \<Rightarrow> nat \<Rightarrow> StubManager \<Rightarrow> StubManager \<times> net_out list" where
  "accept_dynamic_finish now r a sm = snd (connect_finish now r a sm)"

text \<open>The goroutines of the three listeners: with a registered code, with the code of an address, without registration.\<close>

definition with_registration_accept ::
  "int \<Rightarrow> string \<Rightarrow> string \<Rightarrow> FRPConfig \<Rightarrow> StubManager \<Rightarrow> (nat \<times> params) \<times> StubManager" where
  "with_registration_accept now conn code config sm =
     accept_dynamic_begin now conn code (fcRemoteNode config) (fcRemoteAddr config) sm"

definition local_addr_accept ::
  "int \<Rightarrow> string \<Rightarrow> string \<Rightarrow> FRPConfig \<Rightarrow> StubManager \<Rightarrow> (nat \<times> params) \<times> StubManager" where
  "local_addr_accept now conn localAddr config sm =
     accept_dynamic_begin now conn (WrapFRPAddr localAddr) (fcRemoteNode config) (fcRemoteAddr config) sm"

definition local_addr_accept_finish :: "int \<Rightarrow> goval \<times> bool \<Rightarrow> nat \<Rightarrow> StubManager \<Rightarrow> StubManager \<times> net_out list" where
  "local_addr_accept_finish = accept_dynamic_finish"

definition without_registration_accept ::
  "int \<Rightarrow> string \<Rightarrow> string \<Rightarrow> string \<Rightarrow> string \<Rightarrow> StubManager \<Rightarrow> (nat \<times> params) \<times> StubManager" where
  "without_registration_accept now conn localAddr remoteNode remoteAddr sm =
     accept_dynamic_begin now conn (''_http_frp_'' @ localAddr) remoteNode remoteAddr sm"

definition without_registration_accept_finish ::
  "int \<Rightarrow> goval \<times> bool \<Rightarrow> nat \<Rightarrow> StubManager \<Rightarrow> StubManager \<times> net_out list" where
  "without_registration_accept_finish = accept_dynamic_finish"

section \<open>Files\<close>

text \<open>\<open>resultMap["ok"] != true\<close>, and the peer id, which may be missing.\<close>

definition opened :: "goval \<Rightarrow> string option" where
  "opened result = (case result of
       GMap m \<Rightarrow> if map_of m ''ok'' = Some (GBool True)
         then Some (case str_param m ''peer_stub_id'' of None \<Rightarrow> [] | Some p \<Rightarrow> p) else None
     | _ \<Rightarrow> None)"

text \<open>
  Transfers to (\<open>mode\<close> \<open>w\<close>, the local file is opened) and from (\<open>r\<close>, created) a remote node: with a
  registered code, and without. The registered ones count a stream id before they look the code up.
\<close>

definition file_begin ::
  "(string \<Rightarrow> string + string) \<Rightarrow> int \<Rightarrow> string \<Rightarrow> string \<Rightarrow> string \<Rightarrow> string \<Rightarrow> StubManager \<Rightarrow>
     (frp_error + nat \<times> string \<times> params) \<times> StubManager" where
  "file_begin open now code localFilePath remoteFilePath mode sm = (case open localFilePath of
       Inl e \<Rightarrow> (Inl (OpenFailed e), sm)
     | Inr file \<Rightarrow>
         (let (stubId, sm1) = next_stub_id sm in
          case map_of (FrpConfigs sm1) code of
            None \<Rightarrow> (Inl (NotRegistered code), sm1)
          | Some config \<Rightarrow>
              (let (a, sm2) = new_stub now file stubId (fcRemoteNode config) [] sm1
               in (Inr (a, fcRemoteNode config, [(''code'', GStr code), (''stub_id'', GStr stubId),
                    (''filename'', GStr remoteFilePath), (''mode'', GStr mode)]), sm2))))"

text \<open>The registered transfers leave the stream and the file as they are on an error.\<close>

definition file_finish :: "goval \<times> bool \<Rightarrow> bool \<Rightarrow> nat \<Rightarrow> StubManager \<Rightarrow> frp_error option \<times> StubManager" where
  "file_finish r sending a sm = (let (result, ok) = r in
     if \<not> ok then (Some RpcFailed, sm)
     else (case opened result of
         None \<Rightarrow> (Some RemoteOpenFailed, sm)
       | Some p \<Rightarrow> (None, start_loops sending (\<not> sending) a (set_peer p a sm))))"

definition file_dynamic_begin ::
  "(string \<Rightarrow> string + string) \<Rightarrow> int \<Rightarrow> string \<Rightarrow> string \<Rightarrow> string \<Rightarrow> string \<Rightarrow> StubManager \<Rightarrow>
     (frp_error + nat \<times> params) \<times> StubManager" where
  "file_dynamic_begin open now remoteNode localFilePath remoteFilePath mode sm = (case open localFilePath of
       Inl e \<Rightarrow> (Inl (OpenFailed e), sm)
     | Inr file \<Rightarrow>
         (let (stubId, sm1) = next_stub_id sm; (a, sm2) = new_stub now file stubId remoteNode [] sm1
          in (Inr (a, [(''stub_id'', GStr stubId), (''filename'', GStr remoteFilePath), (''mode'', GStr mode)]), sm2)))"

definition file_dynamic_finish ::
  "int \<Rightarrow> goval \<times> bool \<Rightarrow> bool \<Rightarrow> nat \<Rightarrow> StubManager \<Rightarrow> frp_error option \<times> StubManager \<times> net_out list" where
  "file_dynamic_finish now r sending a sm = (let (result, ok) = r in
     if \<not> ok \<or> result = GNil then (Some RpcFailed, close_at now a sm)
     else (case opened result of
         None \<Rightarrow> (Some RemoteOpenFailed, close_at now a sm)
       | Some p \<Rightarrow> (None, start_loops sending (\<not> sending) a (set_peer p a sm), [])))"

text \<open>The four operations; the uploads open the local file and send, the downloads create it and receive.\<close>

definition RegisteredTransferFileToRemote_begin where
  "RegisteredTransferFileToRemote_begin open now code localFilePath remoteFilePath sm =
     file_begin open now code localFilePath remoteFilePath ''w'' sm"

definition RegisteredTransferFileToRemote_finish where
  "RegisteredTransferFileToRemote_finish r a sm = file_finish r True a sm"

definition RegisteredDownloadFileFromRemote_begin where
  "RegisteredDownloadFileFromRemote_begin create now code remoteFilePath localFilePath sm =
     file_begin create now code localFilePath remoteFilePath ''r'' sm"

definition RegisteredDownloadFileFromRemote_finish where
  "RegisteredDownloadFileFromRemote_finish r a sm = file_finish r False a sm"

definition TransferFileToRemoteWithoutRegistration_begin where
  "TransferFileToRemoteWithoutRegistration_begin open now remoteNode localFilePath remoteFilePath sm =
     file_dynamic_begin open now remoteNode localFilePath remoteFilePath ''w'' sm"

definition TransferFileToRemoteWithoutRegistration_finish where
  "TransferFileToRemoteWithoutRegistration_finish now r a sm = file_dynamic_finish now r True a sm"

definition DownloadFileFromRemoteWithoutRegistration_begin where
  "DownloadFileFromRemoteWithoutRegistration_begin create now remoteNode remoteFilePath localFilePath sm =
     file_dynamic_begin create now remoteNode localFilePath remoteFilePath ''r'' sm"

definition DownloadFileFromRemoteWithoutRegistration_finish where
  "DownloadFileFromRemoteWithoutRegistration_finish now r a sm = file_dynamic_finish now r False a sm"

text \<open>The remote procedures for files; \<open>open\<close> takes the mode and the name.\<close>

definition text_param :: "params \<Rightarrow> string \<Rightarrow> string" where
  "text_param ps k = (case str_param ps k of None \<Rightarrow> [] | Some s \<Rightarrow> s)"

definition rpc_open_file_dynamic ::
  "(string \<Rightarrow> string \<Rightarrow> string + string) \<Rightarrow> int \<Rightarrow> params \<Rightarrow> string \<Rightarrow> StubManager \<Rightarrow> goval \<times> StubManager" where
  "rpc_open_file_dynamic open now ps from1 sm =
     (let stubId = text_param ps ''stub_id''; filename = text_param ps ''filename''; mode = text_param ps ''mode'' in
      if filename = [] \<or> stubId = [] \<or> mode \<noteq> ''r'' \<and> mode \<noteq> ''w'' then (rpc_error ''invalid parameters'', sm)
      else (case open mode filename of
          Inl e \<Rightarrow> (rpc_error (''file open error: '' @ e), sm)
        | Inr file \<Rightarrow>
            (let (localStubId, sm1) = accept_peer now file from1 stubId (mode = ''r'') (mode \<noteq> ''r'') sm
             in (GMap [(''ok'', GBool True), (''peer_stub_id'', GStr localStubId)], sm1))))"

definition rpc_open_file ::
  "(string \<Rightarrow> string \<Rightarrow> string + string) \<Rightarrow> int \<Rightarrow> params \<Rightarrow> string \<Rightarrow> StubManager \<Rightarrow> goval \<times> StubManager" where
  "rpc_open_file open now ps from1 sm =
     (let code = text_param ps ''code'' in
      case map_of (FrpConfigs sm) code of
        None \<Rightarrow> (code_missing code, sm)
      | Some _ \<Rightarrow> rpc_open_file_dynamic open now ps from1 sm)"

definition rpc_close_file :: "int \<Rightarrow> params \<Rightarrow> StubManager \<Rightarrow> goval \<times> StubManager \<times> net_out list" where
  "rpc_close_file now ps sm =
     (let stubId = text_param ps ''stub_id'' in
      if stubId = [] then (rpc_error ''missing stub_id'', sm, [])
      else (GMap [(''ok'', GBool True)], CloseStub now stubId sm))"

section \<open>Messages\<close>

text \<open>Decoding an object into a struct: a missing field is its zero value, a field of another type an error.\<close>

definition str_field :: "params \<Rightarrow> string \<Rightarrow> string option" where
  "str_field m k = (case map_of m k of None \<Rightarrow> Some [] | Some GNil \<Rightarrow> Some [] | Some (GStr s) \<Rightarrow> Some s | Some _ \<Rightarrow> None)"

definition int_field :: "params \<Rightarrow> string \<Rightarrow> int option" where
  "int_field m k = (case map_of m k of None \<Rightarrow> Some 0 | Some GNil \<Rightarrow> Some 0 | Some (GNum i) \<Rightarrow> Some i | Some _ \<Rightarrow> None)"

definition decode_data :: "Payload \<Rightarrow> (string \<times> int \<times> string) option" where
  "decode_data p = (case p of
       ObjJson m \<Rightarrow> do { t \<leftarrow> str_field m ''stub_id''; s \<leftarrow> int_field m ''seq''; d \<leftarrow> str_field m ''data''; Some (t, s, d) }
     | _ \<Rightarrow> None)"

definition decode_numbered :: "string \<Rightarrow> Payload \<Rightarrow> (string \<times> int) option" where
  "decode_numbered k p = (case p of
       ObjJson m \<Rightarrow> do { t \<leftarrow> str_field m ''stub_id''; s \<leftarrow> int_field m k; Some (t, s) }
     | _ \<Rightarrow> None)"

definition frp_target :: "Message \<Rightarrow> string option" where
  "frp_target msg = (case mType msg of
       FRPData \<Rightarrow> map_option fst (decode_data (mData msg))
     | FRPAck \<Rightarrow> map_option fst (decode_numbered ''ack'' (mData msg))
     | FRPResendRequest \<Rightarrow> map_option fst (decode_numbered ''seq'' (mData msg))
     | FRPClose \<Rightarrow> Some (topic_text (mData msg))
     | _ \<Rightarrow> None)"

definition handleFrpMessages :: "Message \<Rightarrow> StubManager \<Rightarrow> StubManager" where
  "handleFrpMessages msg sm = (case frp_target msg of
       None \<Rightarrow> sm
     | Some stubId \<Rightarrow> (case GetStubById stubId sm of
         None \<Rightarrow> sm
       | Some a \<Rightarrow> at_stub a (\<lambda>e. if length (feIn e) < ChannelQueueSizeLarge
           then e\<lparr>feIn := feIn e @ [(mType msg, mData msg)]\<rparr> else e) sm))"

text \<open>One message of the queue of a stream (\<open>frpMessageInLoop\<close>).\<close>

definition frp_in :: "MessageType \<times> Payload \<Rightarrow> frp_message" where
  "frp_in x = (let (ty, p) = x in case ty of
       FRPData \<Rightarrow> (case decode_data p of None \<Rightarrow> FData None 0 [] | Some (t, s, d) \<Rightarrow> FData (Some t) s d)
     | FRPAck \<Rightarrow> (case decode_numbered ''ack'' p of None \<Rightarrow> FAck None 0 | Some (t, s) \<Rightarrow> FAck (Some t) s)
     | FRPResendRequest \<Rightarrow> (case decode_numbered ''seq'' p of None \<Rightarrow> FResend None 0 | Some (t, s) \<Rightarrow> FResend (Some t) s)
     | FRPClose \<Rightarrow> FClose
     | _ \<Rightarrow> FOther)"

definition stub_in_step :: "int \<Rightarrow> nat \<Rightarrow> StubManager \<Rightarrow> (StubManager \<times> net_out list) option" where
  "stub_in_step now a sm = (if a < length (stubHeap sm)
     then (let e = stubHeap sm ! a in
       if closed (feStub e) then Some (sm, [])
       else (case feIn e of
         [] \<Rightarrow> Some (sm, [])
       | x # xs \<Rightarrow> do {
           (s, os) \<leftarrow> frp_dispatch now (frp_in x) (feStub e);
           Some (at_stub a (\<lambda>e. e\<lparr>feStub := s, feIn := xs\<rparr>) sm, concat (map (frp_send e sm) os)) }))
     else Some (sm, []))"

section \<open>The registry is well formed\<close>

text \<open>
  Every id in the table leads to a stream with that id; the numbered ids in use are at most the counter.
\<close>

definition sm_wf :: "StubManager \<Rightarrow> bool" where
  "sm_wf sm \<longleftrightarrow> 0 \<le> StubCounter sm \<and>
     (\<forall>i a. map_of (Stubs sm) i = Some a \<longrightarrow> a < length (stubHeap sm) \<and> myId (feStub (stubHeap sm ! a)) = i \<and>
        (\<forall>k. i = numbered k \<longrightarrow> k \<le> StubCounter sm))"

lemma sm_wfD:
  assumes "sm_wf sm" and "map_of (Stubs sm) i = Some a"
  shows "a < length (stubHeap sm)" and "myId (feStub (stubHeap sm ! a)) = i"
  using assms by (auto simp: sm_wf_def)

lemma new_stub_id [simp]: "myId (NewStreamStub now i) = i"
  by (simp add: NewStreamStub_def)

lemma at_stub_fields [simp]:
  "Stubs (at_stub a f sm) = Stubs sm" "StubCounter (at_stub a f sm) = StubCounter sm"
  "MyNodeId (at_stub a f sm) = MyNodeId sm" "FrpConfigs (at_stub a f sm) = FrpConfigs sm"
  "length (stubHeap (at_stub a f sm)) = length (stubHeap sm)"
  by (simp_all add: at_stub_def)

lemma at_stub_nth:
  "b < length (stubHeap sm) \<Longrightarrow> stubHeap (at_stub a f sm) ! b = (if b = a then f (stubHeap sm ! b) else stubHeap sm ! b)"
  by (simp add: at_stub_def)

lemma at_stub_wf:
  assumes "sm_wf sm" and "\<And>e. myId (feStub (f e)) = myId (feStub e)"
  shows "sm_wf (at_stub a f sm)"
  using assms by (auto simp: sm_wf_def at_stub_nth)

lemma wf_operations:
  assumes "sm_wf sm"
  shows "sm_wf (fst (close_at now a sm))" and "sm_wf (start_loops x y a sm)" and "sm_wf (set_peer p a sm)"
    and "sm_wf (handleFrpMessages msg sm)" and "sm_wf (DeleteStubById i sm)"
proof -
  show "sm_wf (start_loops x y a sm)" "sm_wf (set_peer p a sm)"
    using assms by (simp_all add: start_loops_def set_peer_def at_stub_wf)
  show "sm_wf (handleFrpMessages msg sm)"
    using assms by (auto simp: handleFrpMessages_def at_stub_wf split: option.split)
  show "sm_wf (DeleteStubById i sm)"
    using assms by (auto simp: sm_wf_def DeleteStubById_def split: if_splits)
  show "sm_wf (fst (close_at now a sm))"
  proof (cases "a < length (stubHeap sm)")
    case True
    have "myId (fst (doClose now s)) = myId s" for s by (simp add: doClose_def lazyClose_def)
    then have "sm_wf (at_stub a (\<lambda>e. e\<lparr>feStub := fst (doClose now (feStub (stubHeap sm ! a)))\<rparr>) sm)"
      using assms True by (auto simp: sm_wf_def at_stub_nth)
    with True show ?thesis by (simp add: close_at_def split_beta Let_def)
  next
    case False with assms show ?thesis by (simp add: close_at_def)
  qed
qed

lemma numbered_inject [simp]: "numbered i = numbered j \<longleftrightarrow> i = j"
  by (simp add: numbered_def)

lemma numbered_nonempty [simp]: "numbered i \<noteq> []"
  by (simp add: numbered_def)

lemma sm_wf_numbered: "sm_wf sm \<Longrightarrow> map_of (Stubs sm) (numbered k) = Some a \<Longrightarrow> k \<le> StubCounter sm"
  unfolding sm_wf_def by blast

lemma sm_wf_counter:
  assumes "sm_wf sm" and "StubCounter sm \<le> c"
  shows "sm_wf (sm\<lparr>StubCounter := c\<rparr>)"
  using assms by (fastforce simp: sm_wf_def)

text \<open>A new stream may take a numbered id of the past or present, or an id that is not a numbered one.\<close>

lemma new_stub_wf:
  assumes wf: "sm_wf sm" and s: "new_stub now conn sid pn ps sm = (a, sm1)"
    and k: "\<And>k. sid = numbered k \<Longrightarrow> k \<le> StubCounter sm"
  shows "sm_wf sm1"
proof -
  have sm1: "sm1 = sm\<lparr>stubHeap := stubHeap sm @ [\<lparr>feStub = NewStreamStub now sid, fePeerNode = pn,
      fePeerStub = ps, feConn = conn, feIn = [], feSendLoop = False, feRecvLoop = False\<rparr>],
      Stubs := AList.update sid (length (stubHeap sm)) (Stubs sm)\<rparr>"
    using s by (auto simp: new_stub_def)
  show ?thesis
    using wf k by (auto simp: sm_wf_def sm1 nth_append less_Suc_eq split: if_splits)
qed

text \<open>A numbered id is fresh as long as the counter does not overflow.\<close>

lemma register_numbered:
  assumes wf: "sm_wf sm" and c: "StubCounter sm < MaxInt64"
    and n: "next_stub_id sm = (sid, sm1)" and s: "new_stub now conn sid pn ps sm1 = (a, sm2)"
  shows "map_of (Stubs sm) sid = None" and "a = length (stubHeap sm)" and "sid = numbered (StubCounter sm + 1)"
    and "stubHeap sm2 = stubHeap sm @ [\<lparr>feStub = NewStreamStub now sid, fePeerNode = pn, fePeerStub = ps,
      feConn = conn, feIn = [], feSendLoop = False, feRecvLoop = False\<rparr>]"
    and "map_of (Stubs sm2) = (map_of (Stubs sm))(sid \<mapsto> a)" and "sm_wf sm2"
    and "MyNodeId sm2 = MyNodeId sm" and "FrpConfigs sm2 = FrpConfigs sm"
proof -
  have i: "i64 (StubCounter sm + 1) = StubCounter sm + 1"
    using wf c by (simp add: sm_wf_def)
  have sid: "sid = numbered (StubCounter sm + 1)" and sm1: "sm1 = sm\<lparr>StubCounter := StubCounter sm + 1\<rparr>"
    using n by (simp_all add: next_stub_id_def i Let_def)
  show "map_of (Stubs sm) sid = None"
  proof (cases "map_of (Stubs sm) sid")
    case (Some y)
    from sm_wf_numbered [OF wf, of "StubCounter sm + 1" y] this show ?thesis by (simp add: sid)
  qed
  have wf1: "sm_wf sm1" unfolding sm1 by (rule sm_wf_counter [OF wf]) simp
  show "sm_wf sm2" by (rule new_stub_wf [OF wf1 s]) (simp add: sid sm1)
  show "sid = numbered (StubCounter sm + 1)" by (rule sid)
  show "a = length (stubHeap sm)"
    "stubHeap sm2 = stubHeap sm @ [\<lparr>feStub = NewStreamStub now sid, fePeerNode = pn, fePeerStub = ps,
      feConn = conn, feIn = [], feSendLoop = False, feRecvLoop = False\<rparr>]"
    "map_of (Stubs sm2) = (map_of (Stubs sm))(sid \<mapsto> a)"
    "MyNodeId sm2 = MyNodeId sm" "FrpConfigs sm2 = FrpConfigs sm"
    using s by (auto simp: new_stub_def sm1)
qed

section \<open>Reachable registries\<close>

text \<open>
  Everything a node does to its registry, the answers of other nodes and of the operating system being
  arbitrary; the loops of a stream (\<open>step_stream\<close>) change the stream but not its id. The counter does not wrap around, and no forwarding code has the form of a numbered id.
\<close>

inductive sm_step :: "StubManager \<Rightarrow> StubManager \<Rightarrow> bool" where
  step_register: "sm_step sm (RegisterFRP config sm)"
| step_connect: "StubCounter sm < MaxInt64 \<Longrightarrow> sm_step sm (snd (RunFRPWithStub_begin dial now code sm))"
| step_connected: "sm_step sm (fst (snd (connect_finish now r a sm)))"
| step_accept: "StubCounter sm < MaxInt64 \<Longrightarrow> sm_step sm (snd (accept_registered_begin now conn code sm))"
| step_accepted: "accept_registered_finish now r a sid sm = Some (sm1, outs) \<Longrightarrow> sm_step sm sm1"
| step_dynamic: "(\<And>k. code \<noteq> numbered k) \<Longrightarrow> sm_step sm (snd (accept_dynamic_begin now conn code rn ra sm))"
| step_serve: "StubCounter sm < MaxInt64 \<Longrightarrow> sm_step sm (snd (rpc_frp_connect dial now ps from1 sm))"
| step_serve_dynamic: "StubCounter sm < MaxInt64 \<Longrightarrow> sm_step sm (snd (rpc_frp_dynamic_connect dial now ps from1 sm))"
| step_file: "StubCounter sm < MaxInt64 \<Longrightarrow> sm_step sm (snd (file_begin op now code l r m sm))"
| step_file_done: "sm_step sm (snd (file_finish resp x a sm))"
| step_file_dynamic: "StubCounter sm < MaxInt64 \<Longrightarrow> sm_step sm (snd (file_dynamic_begin op now rn l r m sm))"
| step_file_dynamic_done: "sm_step sm (fst (snd (file_dynamic_finish now resp x a sm)))"
| step_open_file: "StubCounter sm < MaxInt64 \<Longrightarrow> sm_step sm (snd (rpc_open_file open2 now ps from1 sm))"
| step_open_file_dynamic: "StubCounter sm < MaxInt64 \<Longrightarrow> sm_step sm (snd (rpc_open_file_dynamic open2 now ps from1 sm))"
| step_close: "sm_step sm (fst (CloseStub now i sm))"
| step_close_all: "sm_step sm (fst (CloseAllStubs now sm))"
| step_lazy: "sm_step sm (lazy_close_step now a sm)"
| step_delete: "sm_step sm (DeleteStubById i sm)"
| step_message: "sm_step sm (handleFrpMessages msg sm)"
| step_delete_all: "sm_step sm (DeleteAllStubs sm)"
| step_stream: "(\<And>e. myId (feStub (f e)) = myId (feStub e)) \<Longrightarrow> sm_step sm (at_stub a f sm)"
| step_in: "stub_in_step now a sm = Some (sm1, outs) \<Longrightarrow> sm_step sm sm1"

inductive sm_reachable :: "string \<Rightarrow> StubManager \<Rightarrow> bool" for nid where
  sm_init: "sm_reachable nid (NewStubManager nid)"
| sm_next: "sm_reachable nid sm \<Longrightarrow> sm_step sm sm1 \<Longrightarrow> sm_reachable nid sm1"

lemma next_stub_id_wf: "sm_wf sm \<Longrightarrow> StubCounter sm < MaxInt64 \<Longrightarrow> sm_wf (snd (next_stub_id sm))"
  using sm_wf_counter [of sm "StubCounter sm + 1"] by (simp add: sm_wf_def next_stub_id_def Let_def)

lemma numbered_wf:
  assumes "sm_wf sm" and "StubCounter sm < MaxInt64"
  shows "sm_wf (snd (new_stub now conn (fst (next_stub_id sm)) pn ps (snd (next_stub_id sm))))"
  by (rule register_numbered(6) [OF assms, where a = "fst (new_stub now conn (fst (next_stub_id sm)) pn ps (snd (next_stub_id sm)))"])
    simp_all

lemmas wf_new = next_stub_id_wf numbered_wf wf_operations

lemma accept_peer_wf: "sm_wf sm \<Longrightarrow> StubCounter sm < MaxInt64 \<Longrightarrow> sm_wf (snd (accept_peer now conn f p x y sm))"
  by (simp add: accept_peer_def split_beta Let_def wf_new)

lemma lazy_close_step_wf:
  assumes wf: "sm_wf sm" shows "sm_wf (lazy_close_step now a sm)"
proof -
  have id: "myId (lazyClose_tick now s) = myId s" for s by (simp add: lazyClose_tick_def)
  have "sm_wf (at_stub a (\<lambda>e. e\<lparr>feStub := lazyClose_tick now (feStub (stubHeap sm ! a))\<rparr>) sm)" if "a < length (stubHeap sm)"
    using wf that by (auto simp: sm_wf_def at_stub_nth id)
  with wf show ?thesis by (simp add: lazy_close_step_def Let_def wf_operations)
qed

lemma CloseAllStubs_wf: "sm_wf sm \<Longrightarrow> sm_wf (fst (CloseAllStubs now sm))"
proof -
  have "sm_wf sm \<Longrightarrow> sm_wf (fst (each (\<lambda>(_, a). close_at now a) xs sm))" for xs
    by (induction xs arbitrary: sm) (auto simp: split_beta Let_def wf_operations)
  then show "sm_wf sm \<Longrightarrow> ?thesis" by (simp add: CloseAllStubs_def)
qed

text \<open>A stream keeps its id whatever it receives.\<close>

lemma deliver_loop_id: "deliver_loop n s stub = Some (stub1, os) \<Longrightarrow> myId stub1 = myId stub"
proof (induction n arbitrary: s stub os)
  case (Suc n)
  show ?case
  proof (cases "wb_Get s (recvWindow stub)")
    case None with Suc.prems show ?thesis by simp
  next
    case (Some r)
    show ?thesis
    proof (cases r)
      case None with Some Suc.prems show ?thesis by simp
    next
      case (Some d)
      define st where "st = fst (enqueueWrite d stub)\<lparr>recvSeq := s\<rparr>"
      have "myId st = myId stub" by (simp add: st_def enqueueWrite_def)
      moreover obtain o2 where "deliver_loop n (i64 (s + 1)) st = Some (stub1, o2)"
        using Suc.prems \<open>wb_Get s (recvWindow stub) = Some r\<close> Some
        by (auto simp: st_def bind_eq_Some_conv split_beta Let_def)
      ultimately show ?thesis using Suc.IH by simp
    qed
  qed
qed simp

lemma gap_loop_id: "gap_loop now k ss stub = Some (stub1, os) \<Longrightarrow> myId stub1 = myId stub"
proof (induction ss arbitrary: k stub os)
  case (Cons s ss)
  show ?case
  proof (cases "k < MaxResendPerCall \<and> wb_IsFilled s (recvWindow stub) = Some False")
    case True
    define st where "st = fst (sendResendRequest now s stub)"
    have "myId st = myId stub" by (simp add: st_def sendResendRequest_def Let_def)
    moreover obtain o2 where "gap_loop now (Suc k) ss st = Some (stub1, o2)"
      using Cons.prems True by (auto simp: st_def bind_eq_Some_conv split_beta Let_def)
    ultimately show ?thesis using Cons.IH by simp
  next
    case False
    then consider "\<not> k < MaxResendPerCall" | "k < MaxResendPerCall" "wb_IsFilled s (recvWindow stub) = None"
      | "k < MaxResendPerCall" "wb_IsFilled s (recvWindow stub) = Some True"
      by (cases "wb_IsFilled s (recvWindow stub)") auto
    then show ?thesis using Cons.prems Cons.IH by cases auto
  qed
qed simp

lemma acknowledge_id: "myId (fst (acknowledge now stub)) = myId stub"
  by (simp add: acknowledge_def sendAck_def Let_def)

lemma onData_id: "onData now t s d stub = Some (stub1, os) \<Longrightarrow> myId stub1 = myId stub"
  by (auto simp: onData_def Let_def bind_eq_Some_conv split_beta acknowledge_id
      split: if_splits dest!: deliver_loop_id gap_loop_id)

lemma onResendRequest_id:
  assumes "onResendRequest now t s stub = Some (stub1, os)"
  shows "myId stub1 = myId stub"
proof (cases "t = Some (myId stub)")
  case True
  then obtain m where m: "wb_GetWithMeta s (sendWindow stub) = Some m"
    using assms by (auto simp: onResendRequest_def Let_def bind_eq_Some_conv)
  show ?thesis
  proof (cases m)
    case None with assms True m show ?thesis by (auto simp: onResendRequest_def Let_def)
  next
    case (Some x)
    with assms True m show ?thesis
      by (cases x) (auto simp: onResendRequest_def sendData_def Let_def split: if_splits)
  qed
next
  case False with assms show ?thesis by (auto simp: onResendRequest_def Let_def)
qed

lemma frp_dispatch_id: "frp_dispatch now x stub = Some (stub1, os) \<Longrightarrow> myId stub1 = myId stub"
  by (cases x) (auto simp: onData_id onResendRequest_id onAck_def onClose_def lazyClose_def Let_def
      bind_eq_Some_conv split: if_splits)

lemma stub_in_step_wf:
  assumes wf: "sm_wf sm" and step: "stub_in_step now a sm = Some (sm1, os)"
  shows "sm_wf sm1"
proof (cases "a < length (stubHeap sm) \<and> \<not> closed (feStub (stubHeap sm ! a)) \<and> feIn (stubHeap sm ! a) \<noteq> []")
  case False
  with step wf show ?thesis by (auto simp: stub_in_step_def Let_def split: if_splits list.splits)
next
  case True
  then obtain x xs where x: "feIn (stubHeap sm ! a) = x # xs" by (cases "feIn (stubHeap sm ! a)") auto
  with True step obtain s o1 where s: "frp_dispatch now (frp_in x) (feStub (stubHeap sm ! a)) = Some (s, o1)"
    and sm1: "sm1 = at_stub a (\<lambda>e. e\<lparr>feStub := s, feIn := xs\<rparr>) sm"
    by (auto simp: stub_in_step_def Let_def bind_eq_Some_conv split_beta)
  from frp_dispatch_id [OF s] wf True show ?thesis by (auto simp: sm_wf_def sm1 at_stub_nth)
qed

lemma connect_finish_wf: "sm_wf sm \<Longrightarrow> sm_wf (fst (snd (connect_finish now r a sm)))"
  by (auto simp: connect_finish_def wf_operations split: sum.split)

lemma existing_finish_wf: "RunFRPWithExistingConn_finish r sid sm = Some (res, sm1) \<Longrightarrow> sm_wf sm \<Longrightarrow> sm_wf sm1"
  by (auto simp: RunFRPWithExistingConn_finish_def Let_def wf_operations
      split: prod.splits if_splits goval.splits option.splits)

lemma accepted_wf:
  assumes "accept_registered_finish now r a sid sm = Some (sm1, outs)" and "sm_wf sm"
  shows "sm_wf sm1"
proof -
  from assms(1) obtain res sm2 where f: "RunFRPWithExistingConn_finish r sid sm = Some (res, sm2)"
    and sm1: "(sm1, outs) = (case res of Inl _ \<Rightarrow> close_at now a sm2 | Inr _ \<Rightarrow> (start_loops True True a sm2, []))"
    by (auto simp: accept_registered_finish_def bind_eq_Some_conv)
  have "sm_wf (fst (sm1, outs))"
    unfolding sm1 using existing_finish_wf [OF f assms(2)] by (auto simp: wf_operations split: sum.split)
  then show ?thesis by simp
qed

lemma sm_step_wf: "sm_step sm sm1 \<Longrightarrow> sm_wf sm \<Longrightarrow> sm_wf sm1"
proof (induction rule: sm_step.induct)
  case (step_register sm config)
  then show ?case by (simp add: sm_wf_def RegisterFRP_def)
next
  case (step_dynamic code sm now conn rn ra)
  then show ?case
    using new_stub_wf [of sm now conn code rn "[]", OF _ surjective_pairing]
    by (simp add: accept_dynamic_begin_def split_beta Let_def)
next
  case (step_delete_all sm)
  then show ?case by (simp add: sm_wf_def DeleteAllStubs_def)
next
  case (step_stream f sm a)
  then show ?case by (blast intro: at_stub_wf)
next
  case (step_accepted now r a sid sm sm1 outs)
  then show ?case by (blast intro: accepted_wf)
next
  case (step_in now a sm sm1 outs)
  then show ?case by (blast intro: stub_in_step_wf)
qed (auto simp: RunFRPWithStub_begin_def accept_registered_begin_def rpc_frp_connect_def rpc_frp_dynamic_connect_def
    file_begin_def file_finish_def file_dynamic_begin_def file_dynamic_finish_def rpc_open_file_def
    rpc_open_file_dynamic_def CloseStub_def split_beta Let_def wf_new accept_peer_wf lazy_close_step_wf
    CloseAllStubs_wf connect_finish_wf split: option.split sum.split)

lemma sm_reachable_wf: "sm_reachable nid sm \<Longrightarrow> sm_wf sm"
proof (induction rule: sm_reachable.induct)
  case sm_init show ?case by (simp add: NewStubManager_def sm_wf_def)
next
  case (sm_next sm sm1) then show ?case by (blast intro: sm_step_wf)
qed



end
