(* ===== verification/Elect.thy ===== *)
theory Elect
  imports Net_PubSub "HOL-Library.Signed_Division"
begin

text \<open>
  Duty election (core/Elect.go): a group of candidates, one per node, of which one is on duty and
  publishes heartbeats on a topic; the others stand by and take over when the heartbeats stop.

  \<^item> Times are milliseconds. \<open>now\<close> is the clock and \<open>r\<close> the random source: \<open>rand.Int63n(n)\<close> is
    \<open>r mod n\<close>, and panics (\<open>None\<close>) when \<open>n\<close> is not positive.
  \<^item> \<open>marshal\<close> and \<open>unmarshal\<close> stand for \<open>common.MarshalAny\<close> of an object and \<open>common.UnmarshalAny\<close> into
    one: encoding/json or, by a flag, the msgpack package.
  \<^item> A candidate holds its node by a pointer; here the operations that use the node return both.
\<close>

section \<open>Candidates\<close>

datatype ElectState = ElectBusy | ElectStandby | ElectDuty

primrec state_num :: "ElectState \<Rightarrow> int" where
  "state_num ElectBusy = 0"
| "state_num ElectStandby = 1"
| "state_num ElectDuty = 2"

definition BASE_OVERTIME_T :: int where
  "BASE_OVERTIME_T = 3000"

record ElectConfig =
  cfgBaseOvertimeT :: int
  cfgGroupName :: string

text \<open>\<open>cancelled\<close> is the state of the context \<open>ctx\<close>; \<open>running\<close> the atomic flag.\<close>

record ElectCandidate =
  ecID :: string
  ecState :: ElectState
  BaseOvertimeT :: int
  GroupName :: string
  waitStandbyTime :: int
  waitDutyTime :: int
  ecHeartbeatTime :: int
  checkHealthTime :: int
  cancelled :: bool
  running :: bool
  heartbeatCount :: int
  stateChangeCount :: int

definition NewElectCandidate :: "string \<Rightarrow> ElectConfig \<Rightarrow> ElectCandidate" where
  "NewElectCandidate nodeID config = \<lparr>ecID = nodeID, ecState = ElectBusy,
     BaseOvertimeT = (if cfgBaseOvertimeT config = 0 then BASE_OVERTIME_T else cfgBaseOvertimeT config),
     GroupName = cfgGroupName config, waitStandbyTime = 0, waitDutyTime = 0, ecHeartbeatTime = 0,
     checkHealthTime = 0, cancelled = False, running = False, heartbeatCount = 0, stateChangeCount = 0\<rparr>"

definition getHeartbeatTopic :: "ElectCandidate \<Rightarrow> string" where
  "getHeartbeatTopic ec = ''election_heartbeat_'' @ GroupName ec"

definition getGiveUpTopic :: "ElectCandidate \<Rightarrow> string" where
  "getGiveUpTopic ec = ''election_giveup_'' @ GroupName ec"

text \<open>\<open>hb\<close> and \<open>gu\<close> are the handles of the two callbacks.\<close>

definition subscribeToElectionTopics ::
  "int \<Rightarrow> int \<Rightarrow> ElectCandidate \<Rightarrow> 'd Node \<Rightarrow> 'd Node \<times> net_out list" where
  "subscribeToElectionTopics hb gu ec n =
     (let (n1, o1) = addLocalSub (getHeartbeatTopic ec) (ecID ec) hb n;
          (n2, o2) = addLocalSub (getGiveUpTopic ec) (ecID ec) gu n1
      in (n2, o1 @ o2))"

definition elect_Start ::
  "int \<Rightarrow> int \<Rightarrow> ElectCandidate \<Rightarrow> 'd Node \<Rightarrow> string + ElectCandidate \<times> 'd Node \<times> net_out list" where
  "elect_Start hb gu ec n =
     (if running ec then Inl ''candidate already running''
      else let (n1, os) = subscribeToElectionTopics hb gu ec n
           in Inr (ec\<lparr>running := True\<rparr>, n1, os @ [Go (T_electMainLoop (GroupName ec))]))"

definition elect_Stop :: "ElectCandidate \<Rightarrow> ElectCandidate" where
  "elect_Stop ec = (if running ec then ec\<lparr>running := False, cancelled := True\<rparr> else ec)"

definition elect_GetState :: "ElectCandidate \<Rightarrow> ElectState" where
  "elect_GetState ec = ecState ec"

definition IsDuty :: "ElectCandidate \<Rightarrow> bool" where
  "IsDuty ec \<longleftrightarrow> elect_GetState ec = ElectDuty"

definition elect_GetStats :: "ElectCandidate \<Rightarrow> goval" where
  "elect_GetStats ec = GMap [(''id'', GStr (ecID ec)), (''state'', GNum (state_num (ecState ec))),
     (''group'', GStr (GroupName ec)), (''heartbeat_count'', GNum (heartbeatCount ec)),
     (''state_changes'', GNum (stateChangeCount ec)), (''is_duty'', GBool (ecState ec = ElectDuty))]"

section \<open>The state machine\<close>

definition Int63n :: "int \<Rightarrow> int \<Rightarrow> int option" where
  "Int63n r n = (if n \<le> 0 then None else Some (r mod n))"

text \<open>The object that \<open>sendHeartbeat\<close> and \<open>GiveUp\<close> publish.\<close>

definition elect_object :: "ElectCandidate \<Rightarrow> int \<Rightarrow> params" where
  "elect_object ec now = [(''id'', GStr (ecID ec)), (''timestamp'', GNum now), (''group'', GStr (GroupName ec))]"

definition same_group :: "(string \<Rightarrow> params option) \<Rightarrow> string \<Rightarrow> ElectCandidate \<Rightarrow> bool" where
  "same_group unmarshal content ec = (case unmarshal content of
       None \<Rightarrow> False
     | Some m \<Rightarrow> (case map_of m ''group'' of Some (GStr g) \<Rightarrow> g = GroupName ec | _ \<Rightarrow> False))"

type_synonym group_order = "(string \<times> string list) list \<Rightarrow> (string \<times> string list) list"

definition elect_sendHeartbeat ::
  "(params \<Rightarrow> string) \<Rightarrow> group_order \<Rightarrow> int \<Rightarrow> ElectCandidate \<Rightarrow> 'd Node \<Rightarrow> ElectCandidate \<times> 'd Node \<times> net_out list" where
  "elect_sendHeartbeat marshal ord now ec n =
     (let (n1, os) = publishOnTopic ord (getHeartbeatTopic ec) (marshal (elect_object ec now)) n
      in (ec\<lparr>heartbeatCount := i64 (heartbeatCount ec + 1)\<rparr>, n1, os))"

definition processBusyState :: "int \<Rightarrow> int \<Rightarrow> int \<Rightarrow> ElectCandidate \<Rightarrow> ElectCandidate option" where
  "processBusyState r1 r2 now ec =
     (if waitStandbyTime ec \<le> now then do {
        randomOffset \<leftarrow> Int63n r1 (BaseOvertimeT ec);
        health \<leftarrow> Int63n r2 (BaseOvertimeT ec);
        Some (ec\<lparr>ecState := ElectStandby, stateChangeCount := i64 (stateChangeCount ec + 1),
          waitDutyTime := i64 (now + BaseOvertimeT ec + randomOffset),
          ecHeartbeatTime := i64 (now + BaseOvertimeT ec sdiv 5),
          checkHealthTime := i64 (now + BaseOvertimeT ec * 3 + health)\<rparr>) }
      else Some ec)"

definition processStandbyState ::
  "(params \<Rightarrow> string) \<Rightarrow> group_order \<Rightarrow> int \<Rightarrow> int \<Rightarrow> ElectCandidate \<Rightarrow> 'd Node \<Rightarrow>
     (ElectCandidate \<times> 'd Node \<times> net_out list) option" where
  "processStandbyState marshal ord r now ec n =
     (if waitDutyTime ec \<le> now then do {
        health \<leftarrow> Int63n r (BaseOvertimeT ec);
        Some (elect_sendHeartbeat marshal ord now (ec\<lparr>ecState := ElectDuty,
          stateChangeCount := i64 (stateChangeCount ec + 1),
          ecHeartbeatTime := i64 (now + BaseOvertimeT ec sdiv 5),
          checkHealthTime := i64 (now + BaseOvertimeT ec * 3 + health)\<rparr>) n) }
      else Some (ec, n, []))"

text \<open>\<open>checkHealth\<close> only logs.\<close>

definition processDutyState ::
  "(params \<Rightarrow> string) \<Rightarrow> group_order \<Rightarrow> int \<Rightarrow> int \<Rightarrow> ElectCandidate \<Rightarrow> 'd Node \<Rightarrow>
     (ElectCandidate \<times> 'd Node \<times> net_out list) option" where
  "processDutyState marshal ord r now ec n =
     (let (ec1, n1, os) = (if ecHeartbeatTime ec \<le> now
            then (let (ec1, n1, os) = elect_sendHeartbeat marshal ord now ec n
                  in (ec1\<lparr>ecHeartbeatTime := i64 (now + BaseOvertimeT ec1 sdiv 5)\<rparr>, n1, os))
            else (ec, n, []))
      in if checkHealthTime ec1 \<le> now then do {
           health \<leftarrow> Int63n r (BaseOvertimeT ec1);
           Some (ec1\<lparr>checkHealthTime := i64 (now + BaseOvertimeT ec1 * 3 + health)\<rparr>, n1, os) }
         else Some (ec1, n1, os))"

definition processState ::
  "(params \<Rightarrow> string) \<Rightarrow> group_order \<Rightarrow> int \<Rightarrow> int \<Rightarrow> int \<Rightarrow> ElectCandidate \<Rightarrow> 'd Node \<Rightarrow>
     (ElectCandidate \<times> 'd Node \<times> net_out list) option" where
  "processState marshal ord r1 r2 now ec n = (case ecState ec of
       ElectBusy \<Rightarrow> map_option (\<lambda>ec1. (ec1, n, [])) (processBusyState r1 r2 now ec)
     | ElectStandby \<Rightarrow> processStandbyState marshal ord r2 now ec n
     | ElectDuty \<Rightarrow> processDutyState marshal ord r2 now ec n)"

text \<open>One round of \<open>mainLoop\<close>; \<open>Inl\<close> when the loop has returned.\<close>

definition mainLoop_tick ::
  "(params \<Rightarrow> string) \<Rightarrow> group_order \<Rightarrow> int \<Rightarrow> int \<Rightarrow> int \<Rightarrow> ElectCandidate \<Rightarrow> 'd Node \<Rightarrow>
     (unit + ElectCandidate \<times> 'd Node \<times> net_out list) option" where
  "mainLoop_tick marshal ord r1 r2 now ec n =
     (if cancelled ec then Some (Inl ()) else map_option Inr (processState marshal ord r1 r2 now ec n))"

definition onHeartbeat ::
  "(string \<Rightarrow> params option) \<Rightarrow> int \<Rightarrow> int \<Rightarrow> string \<Rightarrow> string \<Rightarrow> ElectCandidate \<Rightarrow> ElectCandidate option" where
  "onHeartbeat unmarshal r now from1 content ec =
     (if from1 = ecID ec \<or> \<not> same_group unmarshal content ec then Some ec
      else (case ecState ec of
          ElectDuty \<Rightarrow> do {
            randomOffset \<leftarrow> Int63n r (BaseOvertimeT ec);
            Some (ec\<lparr>ecState := ElectStandby, stateChangeCount := i64 (stateChangeCount ec + 1),
              waitDutyTime := i64 (now + BaseOvertimeT ec + randomOffset)\<rparr>) }
        | ElectStandby \<Rightarrow> do {
            randomOffset \<leftarrow> Int63n r (BaseOvertimeT ec);
            Some (ec\<lparr>waitDutyTime := i64 (now + BaseOvertimeT ec + randomOffset)\<rparr>) }
        | ElectBusy \<Rightarrow> Some ec))"

definition onGiveUp ::
  "(string \<Rightarrow> params option) \<Rightarrow> int \<Rightarrow> string \<Rightarrow> string \<Rightarrow> ElectCandidate \<Rightarrow> ElectCandidate" where
  "onGiveUp unmarshal now from1 content ec =
     (if from1 = ecID ec \<or> \<not> same_group unmarshal content ec then ec
      else if ecState ec = ElectStandby
        then ec\<lparr>waitDutyTime := i64 (now + BaseOvertimeT ec sdiv 2)\<rparr>
      else ec)"

definition elect_GiveUp ::
  "(params \<Rightarrow> string) \<Rightarrow> group_order \<Rightarrow> int \<Rightarrow> int \<Rightarrow> ElectCandidate \<Rightarrow> 'd Node \<Rightarrow>
     (ElectCandidate \<times> 'd Node \<times> net_out list) option" where
  "elect_GiveUp marshal ord r now ec n =
     (if ecState ec = ElectDuty then do {
        let (n1, os) = publishOnTopic ord (getGiveUpTopic ec) (marshal (elect_object ec now)) n;
        randomOffset \<leftarrow> Int63n r (BaseOvertimeT ec);
        Some (ec\<lparr>ecState := ElectStandby, stateChangeCount := i64 (stateChangeCount ec + 1),
          waitDutyTime := i64 (now + BaseOvertimeT ec + randomOffset)\<rparr>, n1, os) }
      else Some (ec, n, []))"

section \<open>The manager\<close>

record ElectManager =
  emNodeID :: string
  candidates :: "(string \<times> ElectCandidate) list"

definition NewElectManager :: "string \<Rightarrow> ElectManager" where
  "NewElectManager nodeID = \<lparr>emNodeID = nodeID, candidates = []\<rparr>"

definition CreateCandidate :: "string \<Rightarrow> ElectConfig \<Rightarrow> ElectManager \<Rightarrow> string + ElectCandidate \<times> ElectManager" where
  "CreateCandidate groupName config em = (case map_of (candidates em) groupName of
       Some _ \<Rightarrow> Inl (''candidate for group '' @ groupName @ '' already exists'')
     | None \<Rightarrow>
         (let candidate = NewElectCandidate (emNodeID em) (config\<lparr>cfgGroupName := groupName\<rparr>)
          in Inr (candidate, em\<lparr>candidates := AList.update groupName candidate (candidates em)\<rparr>)))"

definition GetCandidate :: "string \<Rightarrow> ElectManager \<Rightarrow> ElectCandidate option" where
  "GetCandidate groupName em = map_of (candidates em) groupName"

text \<open>The removed candidate is returned as \<open>Stop\<close> leaves it: others may still hold it.\<close>

definition RemoveCandidate :: "string \<Rightarrow> ElectManager \<Rightarrow> string + ElectCandidate \<times> ElectManager" where
  "RemoveCandidate groupName em = (case map_of (candidates em) groupName of
       None \<Rightarrow> Inl (''candidate for group '' @ groupName @ '' not found'')
     | Some candidate \<Rightarrow> Inr (elect_Stop candidate, em\<lparr>candidates := AList.delete groupName (candidates em)\<rparr>))"

definition GetAllCandidates :: "ElectManager \<Rightarrow> (string \<times> ElectCandidate) list" where
  "GetAllCandidates em = candidates em"

definition manager_GetStats :: "ElectManager \<Rightarrow> goval" where
  "manager_GetStats em = GMap (map (\<lambda>(groupName, candidate). (groupName, elect_GetStats candidate)) (candidates em))"

end
