(* ===== verification/Raft_Rpc.thy ===== *)
theory Raft_Rpc
  imports Net_Rpc
begin

text \<open>
  The remote procedures of core/RPC.go for Raft groups (\<open>RegisterDefaultRPCs\<close>): learners, reads and
  writes, snapshots; and the registration of all default procedures with the callback each stands for.

  \<^item> A callback runs on the node: it returns the node, its result and its outputs; \<open>None\<close> is a panic.
  \<^item> \<open>remote\<close> is \<open>MakeRpcRequest\<close>: peer, function and parameters, all with the provider \<open>raft\<close>.
  \<^item> \<open>gerr\<close> is the text of the error of a LevelDB read that finds nothing.
\<close>

type_synonym 'd remote = "string \<Rightarrow> string \<Rightarrow> params \<Rightarrow> 'd Node \<Rightarrow> 'd Node \<times> goval \<times> bool"
type_synonym 'd callback_result = "('d Node \<times> goval \<times> net_out list) option"

section \<open>Parts the callbacks share\<close>

definition rpc_success :: "string \<Rightarrow> goval" where
  "rpc_success msg = GMap [(''success'', GBool True), (''message'', GStr msg)]"

definition not_leader :: "'d RaftCore \<Rightarrow> goval" where
  "not_leader rc = GMap [(''success'', GBool False), (''redirect_to'', GStr (LeaderHint rc)),
     (''message'', GStr ''not leader'')]"

text \<open>A Raft core is held by a pointer: an operation on it changes the core of the group.\<close>

definition set_stub :: "string \<Rightarrow> 'd RaftCore \<Rightarrow> 'd Node \<Rightarrow> 'd Node" where
  "set_stub g rc n = n\<lparr>nRaft := (nRaft n)\<lparr>RaftStubs := (RaftStubs (nRaft n))(g \<mapsto> rc)\<rparr>\<rparr>"

definition on_stub :: "string \<Rightarrow> 'd RaftCore \<times> raft_out list \<Rightarrow> goval \<Rightarrow> 'd Node \<Rightarrow> 'd Node \<times> goval \<times> net_out list" where
  "on_stub g r v n = (set_stub g (fst r) n, v, map (RaftOut g) (snd r))"

text \<open>A string parameter, or the error that names it.\<close>

definition need_str :: "params \<Rightarrow> string \<Rightarrow> goval + string" where
  "need_str ps k = (case str_param ps k of None \<Rightarrow> Inl (rpc_error (''missing '' @ k)) | Some s \<Rightarrow> Inr s)"

definition need_num :: "params \<Rightarrow> string \<Rightarrow> goval + int" where
  "need_num ps k = (case map_of ps k of Some (GNum i) \<Rightarrow> Inr i | _ \<Rightarrow> Inl (rpc_error (''missing '' @ k)))"

definition group_not_found :: "string \<Rightarrow> goval" where
  "group_not_found g = rpc_error (''raft group '' @ g @ '' not found'')"

section \<open>Learners\<close>

text \<open>The leader part of the three callbacks: \<open>act\<close> on the leader, a redirection otherwise.\<close>

definition at_leader ::
  "string \<Rightarrow> ('d RaftCore \<Rightarrow> 'd RaftCore \<times> raft_out list) \<Rightarrow> string \<Rightarrow> 'd Node \<Rightarrow> 'd Node \<times> goval \<times> net_out list" where
  "at_leader g act msg n = (case RaftStubs (nRaft n) g of
       None \<Rightarrow> (n, group_not_found g, [])
     | Some rc \<Rightarrow> if Role rc \<noteq> Leader then (n, not_leader rc, []) else on_stub g (act rc) (rpc_success msg) n)"

definition rpc_addLearner :: "'d leveldb \<Rightarrow> params \<Rightarrow> 'd Node \<Rightarrow> 'd Node \<times> goval \<times> net_out list" where
  "rpc_addLearner L ps n = (case need_str ps ''group'' of
       Inl e \<Rightarrow> (n, e, [])
     | Inr g \<Rightarrow> (case need_str ps ''learner_id'' of
         Inl e \<Rightarrow> (n, e, [])
       | Inr l \<Rightarrow> at_leader g (AddLearner L l) (''learner '' @ l @ '' added to group '' @ g) n))"

definition rpc_removeLearner :: "'d leveldb \<Rightarrow> params \<Rightarrow> 'd Node \<Rightarrow> 'd Node \<times> goval \<times> net_out list" where
  "rpc_removeLearner L ps n = (case need_str ps ''group'' of
       Inl e \<Rightarrow> (n, e, [])
     | Inr g \<Rightarrow> (case need_str ps ''learner_id'' of
         Inl e \<Rightarrow> (n, e, [])
       | Inr l \<Rightarrow> at_leader g (RemoveLearner L l) (''learner '' @ l @ '' removed from group '' @ g) n))"

definition rpc_addLearnerWithSnapshot :: "'d leveldb \<Rightarrow> params \<Rightarrow> 'd Node \<Rightarrow> 'd Node \<times> goval \<times> net_out list" where
  "rpc_addLearnerWithSnapshot L ps n = (case need_str ps ''group'' of
       Inl e \<Rightarrow> (n, e, [])
     | Inr g \<Rightarrow> (case need_str ps ''learner_id'' of
         Inl e \<Rightarrow> (n, e, [])
       | Inr l \<Rightarrow> (case need_num ps ''snapshot_index'' of
           Inl e \<Rightarrow> (n, e, [])
         | Inr si \<Rightarrow> (case need_num ps ''snapshot_term'' of
             Inl e \<Rightarrow> (n, e, [])
           | Inr st \<Rightarrow> at_leader g (AddLearnerWithSnapshot L l si st)
               (''learner '' @ l @ '' added to group '' @ g @ '' with snapshot (index='' @ itoa si @
                 '', term='' @ itoa st @ '')'') n))))"

section \<open>Writes and reads\<close>

text \<open>The loop over the peers: the first call that succeeds; the node itself is skipped.\<close>

fun try_peers :: "'d remote \<Rightarrow> string \<Rightarrow> params \<Rightarrow> string list \<Rightarrow> 'd Node \<Rightarrow> 'd Node \<times> goval option" where
  "try_peers remote f ps [] n = (n, None)"
| "try_peers remote f ps (peer # peers) n =
     (if peer = nID n then try_peers remote f ps peers n
      else let (n1, result, ok) = remote peer f ps n
           in if ok then (n1, Some result) else try_peers remote f ps peers n1)"

text \<open>\<open>put\<close> and \<open>delete\<close> after their parameters are checked.\<close>

definition rpc_write ::
  "'d leveldb \<Rightarrow> 'd remote \<Rightarrow> string \<Rightarrow> string \<Rightarrow> RaftCommand \<Rightarrow> params \<Rightarrow> 'd Node \<Rightarrow> 'd Node \<times> goval \<times> net_out list" where
  "rpc_write L remote f g cmd ps n = (case RaftStubs (nRaft n) g of
       Some rc \<Rightarrow> on_stub g (HandleClientRequest L cmd rc)
         (rpc_success (f @ '' command sent to local raft group '' @ g)) n
     | None \<Rightarrow> (case map_of (RaftPeers (nRaft n)) g of
         None \<Rightarrow> (n, rpc_error (''no peers found for raft group '' @ g), [])
       | Some peers \<Rightarrow> (case try_peers remote f ps peers n of
           (n1, Some result) \<Rightarrow> (n1, result, [])
         | (n1, None) \<Rightarrow>
             (n1, rpc_error (''failed to forward '' @ f @ '' command to any peer in group '' @ g), []))))"

definition rpc_put :: "'d leveldb \<Rightarrow> 'd remote \<Rightarrow> params \<Rightarrow> 'd Node \<Rightarrow> 'd Node \<times> goval \<times> net_out list" where
  "rpc_put L remote ps n = (case need_str ps ''group'' of
       Inl e \<Rightarrow> (n, e, [])
     | Inr g \<Rightarrow> (case need_str ps ''key'' of
         Inl e \<Rightarrow> (n, e, [])
       | Inr key \<Rightarrow> (case map_of ps ''value'' of
           None \<Rightarrow> (n, rpc_error ''missing value'', [])
         | Some value \<Rightarrow> rpc_write L remote ''put'' g (zero_command\<lparr>Op := op_put, cKey := key, cValue := value\<rparr>) ps n)))"

definition rpc_delete :: "'d leveldb \<Rightarrow> 'd remote \<Rightarrow> params \<Rightarrow> 'd Node \<Rightarrow> 'd Node \<times> goval \<times> net_out list" where
  "rpc_delete L remote ps n = (case need_str ps ''group'' of
       Inl e \<Rightarrow> (n, e, [])
     | Inr g \<Rightarrow> (case need_str ps ''key'' of
         Inl e \<Rightarrow> (n, e, [])
       | Inr key \<Rightarrow> rpc_write L remote ''delete'' g (zero_command\<lparr>Op := op_delOp, cKey := key\<rparr>) ps n))"

text \<open>
  A call passed to the first peer. \<open>peers[0]\<close> of an empty list is a panic. When that peer is the node
  itself the callback calls itself without end, which the parameter \<open>remote\<close> has to stand for.
\<close>

definition ask_first_peer :: "'d remote \<Rightarrow> string \<Rightarrow> string \<Rightarrow> params \<Rightarrow> 'd Node \<Rightarrow> 'd callback_result" where
  "ask_first_peer remote f g ps n = (case map_of (RaftPeers (nRaft n)) g of
       None \<Rightarrow> Some (n, rpc_error (''no peers found for raft group '' @ g), [])
     | Some [] \<Rightarrow> None
     | Some (peer # _) \<Rightarrow>
         (let (n1, result, ok) = remote peer f ps n
          in Some (n1, if ok then result else rpc_error ''RPC call failed'', [])))"

definition rpc_get :: "'d leveldb \<Rightarrow> string \<Rightarrow> 'd remote \<Rightarrow> params \<Rightarrow> 'd Node \<Rightarrow> 'd callback_result" where
  "rpc_get L gerr remote ps n = (case need_str ps ''group'' of
       Inl e \<Rightarrow> Some (n, e, [])
     | Inr g \<Rightarrow> (case need_str ps ''key'' of
         Inl e \<Rightarrow> Some (n, e, [])
       | Inr key \<Rightarrow> (case RaftStubs (nRaft n) g of
           Some rc \<Rightarrow> Some (n, (case GetState L g key (store rc) of
               None \<Rightarrow> rpc_error (if db (store rc) = None then ''no storage available'' else gerr)
             | Some value \<Rightarrow> GMap [(''success'', GBool True), (''value'', value)]), [])
         | None \<Rightarrow> ask_first_peer remote ''get'' g ps n)))"

section \<open>Snapshots\<close>

text \<open>The JSON object of a \<open>StateSnapshot\<close>; \<open>ts\<close> is its time stamp as text.\<close>

definition snapshot_object :: "string \<Rightarrow> StateSnapshot \<Rightarrow> goval" where
  "snapshot_object ts s = GMap [(''group'', GStr (ss_Group s)), (''term'', GNum (ss_Term s)),
     (''commit_index'', GNum (ss_CommitIndex s)), (''last_applied'', GNum (ss_LastApplied s)),
     (''state'', GMap (ss_State s)), (''timestamp'', GStr ts)]"

definition rpc_getStateSnapshot ::
  "'d leveldb \<Rightarrow> string \<Rightarrow> string \<Rightarrow> 'd remote \<Rightarrow> params \<Rightarrow> 'd Node \<Rightarrow> 'd callback_result" where
  "rpc_getStateSnapshot L gerr ts remote ps n = (case need_str ps ''group'' of
       Inl e \<Rightarrow> Some (n, e, [])
     | Inr g \<Rightarrow> (case RaftStubs (nRaft n) g of
         Some rc \<Rightarrow>
           if Role rc \<noteq> Leader then Some (n, not_leader rc, [])
           else do {
             r \<leftarrow> GetStateSnapshot L g (store rc);
             Some (n, (case r of
                 None \<Rightarrow> rpc_error (if db (store rc) = None then ''no storage available'' else gerr)
               | Some s \<Rightarrow> GMap [(''success'', GBool True), (''snapshot'', snapshot_object ts s)]), []) }
       | None \<Rightarrow> ask_first_peer remote ''getStateSnapshot'' g ps n))"

definition num_field :: "params \<Rightarrow> string \<Rightarrow> int option" where
  "num_field m k = (case map_of m k of Some (GNum i) \<Rightarrow> Some i | _ \<Rightarrow> None)"

definition map_field :: "params \<Rightarrow> string \<Rightarrow> params option" where
  "map_field m k = (case map_of m k of Some (GMap x) \<Rightarrow> Some x | _ \<Rightarrow> None)"

definition rpc_setStateSnapshot :: "'d leveldb \<Rightarrow> params \<Rightarrow> 'd Node \<Rightarrow> 'd Node \<times> goval \<times> net_out list" where
  "rpc_setStateSnapshot L ps n = (case need_str ps ''group'' of
       Inl e \<Rightarrow> (n, e, [])
     | Inr g \<Rightarrow> (case map_field ps ''snapshot'' of
         None \<Rightarrow> (n, rpc_error ''missing snapshot data'', [])
       | Some snapshotData \<Rightarrow> (case RaftStubs (nRaft n) g of
           None \<Rightarrow> (n, group_not_found g, [])
         | Some rc \<Rightarrow> (case map_field snapshotData ''state'' of
             None \<Rightarrow> (n, rpc_error ''invalid snapshot state data'', [])
           | Some state \<Rightarrow>
               (let rc1 = rc\<lparr>store := SetFullState L g state (store rc)\<rparr>;
                    rc2 = (case num_field snapshotData ''commit_index'' of None \<Rightarrow> rc1 | Some i \<Rightarrow> rc1\<lparr>CommitIndex := i\<rparr>);
                    rc3 = (case num_field snapshotData ''last_applied'' of None \<Rightarrow> rc2 | Some i \<Rightarrow> rc2\<lparr>LastApplied := i\<rparr>)
                in (set_stub g rc3 n, rpc_success (''state snapshot applied to learner for group '' @ g), []))))))"

section \<open>The default procedures\<close>

text \<open>Function, provider, note, and the handle of the callback.\<close>

definition default_rpcs :: "(string \<times> string \<times> string \<times> int) list" where
  "default_rpcs = [(''add'', ''init'', ''Adds two numbers'', 1), (''echo'', ''init'', ''Echo back parameters'', 2),
     (''time'', ''init'', ''Returns current server time'', 3), (''whoami'', ''init'', ''Returns Node ID'', 4),
     (''longtext'', ''init'', ''Returns long test string'', 5),
     (''randint'', ''init'', ''Returns a random int between min and max'', 6),
     (''reverse'', ''init'', ''Reverses a string'', 7), (''allrpcs'', ''init'', ''List RPCs by provider'', 8),
     (''addLearner'', ''raft'', ''Add a learner to a Raft group'', 9),
     (''removeLearner'', ''raft'', ''Remove a learner from a Raft group'', 10),
     (''addLearnerWithSnapshot'', ''raft'', ''Add a learner with snapshot to a Raft group'', 11),
     (''put'', ''raft'', ''Put a key-value pair to Raft group'', 12),
     (''delete'', ''raft'', ''Delete a key from Raft group'', 13),
     (''get'', ''raft'', ''Get a value from Raft group (read-only operation)'', 14),
     (''getStateSnapshot'', ''raft'', ''Get state machine snapshot for learner fast sync'', 15),
     (''setStateSnapshot'', ''raft'', ''Set state machine snapshot for learner fast sync'', 16)]"

definition RegisterDefaultRPCs :: "'d Node \<Rightarrow> 'd Node \<times> net_out list" where
  "RegisterDefaultRPCs = each (\<lambda>(funcName, provider, note, cb).
     registerRpcService funcName provider \<lparr>fnNote = note, fnCallback = Some cb\<rparr>) default_rpcs"

text \<open>
  The callbacks behind the handles: \<open>nano\<close> and \<open>ts\<close> are the clock as a number and as text. A panic
  leaves the node as it is.
\<close>

definition pure_result :: "goval \<Rightarrow> 'd Node \<Rightarrow> 'd callback_result" where
  "pure_result v n = Some (n, v, [])"

definition default_callback ::
  "'d leveldb \<Rightarrow> string \<Rightarrow> int \<Rightarrow> string \<Rightarrow> 'd remote \<Rightarrow> int \<Rightarrow> params \<Rightarrow> 'd Node \<Rightarrow> 'd callback_result" where
  "default_callback L gerr nano ts remote cb ps n =
     (if cb = 1 then pure_result (rpc_add ps) n
      else if cb = 2 then pure_result (rpc_echo ps) n
      else if cb = 3 then pure_result (rpc_time ts) n
      else if cb = 4 then pure_result (rpc_whoami n) n
      else if cb = 5 then pure_result rpc_longtext n
      else if cb = 6 then pure_result (rpc_randint nano ps) n
      else if cb = 7 then pure_result (rpc_reverse ps) n
      else if cb = 8 then pure_result (rpc_allrpcs ps n) n
      else if cb = 9 then Some (rpc_addLearner L ps n)
      else if cb = 10 then Some (rpc_removeLearner L ps n)
      else if cb = 11 then Some (rpc_addLearnerWithSnapshot L ps n)
      else if cb = 12 then Some (rpc_put L remote ps n)
      else if cb = 13 then Some (rpc_delete L remote ps n)
      else if cb = 14 then rpc_get L gerr remote ps n
      else if cb = 15 then rpc_getStateSnapshot L gerr ts remote ps n
      else if cb = 16 then Some (rpc_setStateSnapshot L ps n)
      else None)"

definition default_call :: "'d leveldb \<Rightarrow> string \<Rightarrow> int \<Rightarrow> string \<Rightarrow> 'd remote \<Rightarrow> 'd rpc_call" where
  "default_call L gerr nano ts remote cb fun ps from1 to1 invokeId n =
     (case default_callback L gerr nano ts remote cb ps n of
        None \<Rightarrow> (n, None, [])
      | Some (n1, v, os) \<Rightarrow> (n1, Some v, os))"

section \<open>Properties\<close>

lemma set_stub_same: "RaftStubs (nRaft n) g = Some rc \<Longrightarrow> set_stub g rc n = n"
  by (simp add: set_stub_def map_upd_triv)

lemma try_peers_find:
  assumes "\<And>p n. remote p f ps n = (n, res p, ok p)"
  shows "try_peers remote f ps peers n = (n, map_option res (List.find (\<lambda>p. p \<noteq> nID n \<and> ok p) peers))"
  by (induction peers) (simp_all add: assms)

lemma GetState_persistLog:
  assumes "leveldb_ok L" and "rcGroup rc = g"
  shows "GetState L g k (store (persistLog L rc)) = GetState L g k (store rc)"
    and "db (store (persistLog L rc)) = None \<longleftrightarrow> db (store rc) = None"
proof -
  have "GetState L g k (SaveLog L g e s) = GetState L g k s" for e s
    using assms(1) by (cases "db s") (simp_all add: GetState_def SaveLog_def leveldb_okD makeKey_def)
  then show "GetState L g k (store (persistLog L rc)) = GetState L g k (store rc)"
    using assms(2) by (simp add: persistLog_def)
  show "db (store (persistLog L rc)) = None \<longleftrightarrow> db (store rc) = None"
    by (simp add: persistLog_def)
qed

text \<open>
  What a \<open>put\<close> does. On a node with a core of the group it always answers success: the leader has
  appended exactly this command as the next entry of its term and stored it, but not committed it; another
  member that knows the leader has forwarded it and not changed; one that knows no leader has dropped it
  without a trace. In every case a \<open>get\<close> on the node still answers what it answered before. A
  node without a core passes the call to the other members in order and answers what the first that
  succeeds answers, or an error.
\<close>

theorem put_outcomes:
  assumes "str_param ps ''group'' = Some g" and "str_param ps ''key'' = Some key" and "map_of ps ''value'' = Some v"
    and ok: "leveldb_ok L"
  shows "(RaftStubs (nRaft n) g = Some rc \<and> rcGroup rc = g \<longrightarrow>
      (\<exists>n1 rc1 os. rpc_put L remote ps n = (n1, rpc_success (''put command sent to local raft group '' @ g), os) \<and>
        RaftStubs (nRaft n1) g = Some rc1 \<and> CommitIndex rc1 = CommitIndex rc \<and> LastApplied rc1 = LastApplied rc \<and>
        (Role rc = Leader \<longrightarrow> Log rc1 = Log rc @ [\<lparr>Index = i64 (fst (getLastLogIndex rc) + 1),
            Term = CurrentTerm rc, Command = zero_command\<lparr>Op := op_put, cKey := key, cValue := v\<rparr>\<rparr>] \<and>
          store rc1 = SaveLog L g (last (Log rc1)) (store rc)) \<and>
        (Role rc \<noteq> Leader \<longrightarrow> n1 = n \<and> os = (if LeaderHint rc = [] then []
          else [RaftOut g (forwardToLeader (LeaderHint rc) (zero_command\<lparr>Op := op_put, cKey := key, cValue := v\<rparr>)
            False (ID rc))])) \<and>
        map_option (fst \<circ> snd) (rpc_get L gerr remote ps n1) = map_option (fst \<circ> snd) (rpc_get L gerr remote ps n))) \<and>
    (RaftStubs (nRaft n) g = None \<and> map_of (RaftPeers (nRaft n)) g = Some peers \<longrightarrow>
      rpc_put L (\<lambda>p f ps n. (n, res p, okp p)) ps n =
        (n, case List.find (\<lambda>p. p \<noteq> nID n \<and> okp p) peers of Some p \<Rightarrow> res p
           | None \<Rightarrow> rpc_error (''failed to forward put command to any peer in group '' @ g), []))"
proof (intro conjI impI)
  let ?cmd = "zero_command\<lparr>Op := op_put, cKey := key, cValue := v\<rparr>"
  assume a: "RaftStubs (nRaft n) g = Some rc \<and> rcGroup rc = g"
  let ?r = "HandleClientRequest L ?cmd rc"
  let ?rc1 = "rc\<lparr>Log := Log rc @ [\<lparr>Index = i64 (fst (getLastLogIndex rc) + 1),
            Term = CurrentTerm rc, Command = ?cmd\<rparr>]\<rparr>"
  let ?n1 = "set_stub g (fst ?r) n"
  have p: "rpc_put L remote ps n = (?n1, rpc_success (''put command sent to local raft group '' @ g), map (RaftOut g) (snd ?r))"
    using a assms(1-3) by (simp add: rpc_put_def need_str_def rpc_write_def on_stub_def)
  have s: "RaftStubs (nRaft ?n1) g = Some (fst ?r)" by (simp add: set_stub_def)
  have g: "GetState L g key (store (fst ?r)) = GetState L g key (store rc)"
    "db (store (fst ?r)) = None \<longleftrightarrow> db (store rc) = None"
    using a GetState_persistLog(1) [OF ok, of ?rc1 g key] GetState_persistLog(2) [OF ok, of ?rc1 g]
    by (simp_all add: HandleClientRequest_def ProposeCommand_def Let_def)
  have get: "rpc_get L gerr remote ps n' = Some (n', (case GetState L g key (store x) of
        None \<Rightarrow> rpc_error (if db (store x) = None then ''no storage available'' else gerr)
      | Some value \<Rightarrow> GMap [(''success'', GBool True), (''value'', value)]), [])"
    if "RaftStubs (nRaft n') g = Some x" for n' x
    using that assms(1,2) by (simp add: rpc_get_def need_str_def)
  have "map_option (fst \<circ> snd) (rpc_get L gerr remote ps ?n1) = map_option (fst \<circ> snd) (rpc_get L gerr remote ps n)"
    by (simp only: get [OF s] get [OF conjunct1 [OF a]] g option.map o_apply fst_conv snd_conv)
  moreover have "CommitIndex (fst ?r) = CommitIndex rc" "LastApplied (fst ?r) = LastApplied rc"
    by (simp_all add: HandleClientRequest_def ProposeCommand_def persistLog_def Let_def)
  moreover have "Log (fst ?r) = Log rc @ [\<lparr>Index = i64 (fst (getLastLogIndex rc) + 1),
            Term = CurrentTerm rc, Command = ?cmd\<rparr>] \<and> store (fst ?r) = SaveLog L g (last (Log (fst ?r))) (store rc)"
    if "Role rc = Leader"
    using that a by (simp add: HandleClientRequest_def ProposeCommand_def persistLog_def Let_def)
  moreover have "?n1 = n \<and> map (RaftOut g) (snd ?r) = (if LeaderHint rc = [] then []
          else [RaftOut g (forwardToLeader (LeaderHint rc) ?cmd False (ID rc))])" if "Role rc \<noteq> Leader"
    using that a by (simp add: HandleClientRequest_def set_stub_same)
  ultimately show "\<exists>n1 rc1 os. rpc_put L remote ps n = (n1, rpc_success (''put command sent to local raft group '' @ g), os) \<and>
        RaftStubs (nRaft n1) g = Some rc1 \<and> CommitIndex rc1 = CommitIndex rc \<and> LastApplied rc1 = LastApplied rc \<and>
        (Role rc = Leader \<longrightarrow> Log rc1 = Log rc @ [\<lparr>Index = i64 (fst (getLastLogIndex rc) + 1),
            Term = CurrentTerm rc, Command = ?cmd\<rparr>] \<and>
          store rc1 = SaveLog L g (last (Log rc1)) (store rc)) \<and>
        (Role rc \<noteq> Leader \<longrightarrow> n1 = n \<and> os = (if LeaderHint rc = [] then []
          else [RaftOut g (forwardToLeader (LeaderHint rc) ?cmd False (ID rc))])) \<and>
        map_option (fst \<circ> snd) (rpc_get L gerr remote ps n1) = map_option (fst \<circ> snd) (rpc_get L gerr remote ps n)"
    using p s by blast
next
  assume "RaftStubs (nRaft n) g = None \<and> map_of (RaftPeers (nRaft n)) g = Some peers"
  then show "rpc_put L (\<lambda>p f ps n. (n, res p, okp p)) ps n =
        (n, case List.find (\<lambda>p. p \<noteq> nID n \<and> okp p) peers of Some p \<Rightarrow> res p
           | None \<Rightarrow> rpc_error (''failed to forward put command to any peer in group '' @ g), [])"
    using assms(1-3)
    by (simp add: rpc_put_def need_str_def rpc_write_def try_peers_find [where res = res and ok = okp] split: option.split)
qed

text \<open>A member that knows no leader.\<close>

definition ex_core :: "(string \<times> goval) list RaftCore" where
  "ex_core = fst (the (NewRaftClient alist_db 0 0 ''a'' ''g'' [''a'', ''b''] \<lparr>db = None, NodeId = ''a''\<rparr>))"

definition ex_raft_node :: "(string \<times> goval) list Node" where
  "ex_raft_node = set_stub ''g'' ex_core (NewNode ''a'')"

lemma ex_core_fields: "Role ex_core = Follower" "LeaderHint ex_core = []" "rcGroup ex_core = ''g''"
  by (simp_all add: ex_core_def NewRaftClient_def LoadMeta_def resetElectionTimer_def)

theorem put_outcomes_witness:
  "rpc_put alist_db (\<lambda>_ _ _ n. (n, GNil, False)) [(''group'', GStr ''g''), (''key'', GStr ''k''), (''value'', GNum 1)] ex_raft_node =
     (ex_raft_node, rpc_success ''put command sent to local raft group g'', [])"
proof -
  let ?remote = "\<lambda>_ _ _ n :: (string \<times> goval) list Node. (n, GNil, False)"
  let ?ps = "[(''group'', GStr ''g''), (''key'', GStr ''k''), (''value'', GNum 1)]"
  have "str_param ?ps ''group'' = Some ''g''" "str_param ?ps ''key'' = Some ''k''" "map_of ?ps ''value'' = Some (GNum 1)"
    by (simp_all add: str_param_def)
  note p = conjunct1 [OF put_outcomes [OF this alist_db_ok, of ex_raft_node ex_core ?remote]]
  have "RaftStubs (nRaft ex_raft_node) ''g'' = Some ex_core" by (simp add: ex_raft_node_def set_stub_def)
  with p obtain n1 os where "rpc_put alist_db ?remote ?ps ex_raft_node =
      (n1, rpc_success (''put command sent to local raft group '' @ ''g''), os)" "n1 = ex_raft_node" "os = []"
    using ex_core_fields by auto
  then show ?thesis by simp
qed

end
