(* ===== verification/Raft_Manager.thy ===== *)
theory Raft_Manager
  imports Raft_Rpc
begin

text \<open>
  core/RaftManager.go: the Raft groups of a node, and how a node becomes and stops being a learner of a
  group through remote calls to its members.

  \<^item> \<open>None\<close> is a panic: the type assertion \<open>result.(map[string]interface{})\<close> on another result, which
    the remote node sends (as null) when its callback panics.
  \<^item> \<open>st\<close> is the storage that opening \<open>dbPath\<close> gives. \<open>CreateLearnerWithFastSync\<close> opens it again when it
    falls back (\<open>st2\<close>); LevelDB locks an open database, so this is then the fallback in memory.
\<close>

section \<open>Groups\<close>

type_synonym 'd manager_result = "((string + 'd RaftLearner) \<times> 'd Node \<times> net_out list) option"

definition CreateRaftGroup ::
  "'d leveldb \<Rightarrow> int \<Rightarrow> int \<Rightarrow> string \<Rightarrow> string list \<Rightarrow> 'd Storage \<Rightarrow> 'd Node \<Rightarrow>
     ((string + 'd RaftCore) \<times> 'd Node \<times> net_out list) option" where
  "CreateRaftGroup L now r g peers st n = (case RaftStubs (nRaft n) g of
       Some _ \<Rightarrow> Some (Inl (''Raft group '' @ g @ '' already exists''), n, [])
     | None \<Rightarrow> do {
         (raftClient, os) \<leftarrow> NewRaftClient L now r (nID n) g peers st;
         Some (Inr raftClient, n\<lparr>nRaft := (nRaft n)\<lparr>RaftStubs := (RaftStubs (nRaft n))(g \<mapsto> raftClient),
             RaftGroup := RaftGroup (nRaft n) @ [g], RaftPeers := AList.update g peers (RaftPeers (nRaft n))\<rparr>\<rparr>,
           map (RaftOut g) os) })"

section \<open>Asking the leader\<close>

definition as_map :: "goval \<Rightarrow> params option" where
  "as_map v = (case v of GMap m \<Rightarrow> Some m | _ \<Rightarrow> None)"

definition is_success :: "params \<Rightarrow> bool" where
  "is_success m = (case map_of m ''success'' of Some (GBool b) \<Rightarrow> b | _ \<Rightarrow> False)"

definition redirect_of :: "params \<Rightarrow> string option" where
  "redirect_of m = (case map_of m ''redirect_to'' of Some (GStr r) \<Rightarrow> if r = [] then None else Some r | _ \<Rightarrow> None)"

text \<open>
  The loop over the peers of four functions: call the peer, and when it redirects, the node it names;
  \<open>acc\<close> is what the function takes from a successful response. The result: the node and what was taken.
\<close>

fun ask_leader ::
  "'d remote \<Rightarrow> (params \<Rightarrow> 'a option) \<Rightarrow> string \<Rightarrow> params \<Rightarrow> string list \<Rightarrow> 'd Node \<Rightarrow> ('d Node \<times> 'a option) option" where
  "ask_leader remote acc f ps [] n = Some (n, None)"
| "ask_leader remote acc f ps (peer # peers) n =
     (let (n1, result, ok) = remote peer f ps n in
      if \<not> ok then ask_leader remote acc f ps peers n1
      else do {
        resp \<leftarrow> as_map result;
        if is_success resp
        then (case acc resp of Some a \<Rightarrow> Some (n1, Some a) | None \<Rightarrow> ask_leader remote acc f ps peers n1)
        else (case redirect_of resp of
            None \<Rightarrow> ask_leader remote acc f ps peers n1
          | Some redirect \<Rightarrow>
              (let (n2, result2, ok2) = remote redirect f ps n1 in
               if \<not> ok2 then ask_leader remote acc f ps peers n2
               else do {
                 resp2 \<leftarrow> as_map result2;
                 (case (if is_success resp2 then acc resp2 else None) of
                    Some a \<Rightarrow> Some (n2, Some a)
                  | None \<Rightarrow> ask_leader remote acc f ps peers n2) })) })"

definition learner_params :: "string \<Rightarrow> 'd Node \<Rightarrow> params" where
  "learner_params g n = [(''group'', GStr g), (''learner_id'', GStr (nID n))]"

definition set_learner :: "string \<Rightarrow> 'd RaftLearner option \<Rightarrow> 'd Node \<Rightarrow> 'd Node" where
  "set_learner g lc n = n\<lparr>nRaft := (nRaft n)\<lparr>LearnerStubs := (LearnerStubs (nRaft n))(g := lc)\<rparr>\<rparr>"

definition group_missing :: "string \<Rightarrow> string" where
  "group_missing g = ''raft group '' @ g @ '' does not exist''"

section \<open>Joining and leaving\<close>

definition CreateLearner :: "'d leveldb \<Rightarrow> 'd remote \<Rightarrow> string \<Rightarrow> 'd Storage \<Rightarrow> 'd Node \<Rightarrow> 'd manager_result" where
  "CreateLearner L remote g st n = (case map_of (RaftPeers (nRaft n)) g of
       None \<Rightarrow> Some (Inl (group_missing g), n, [])
     | Some peers \<Rightarrow> do {
         (n1, found) \<leftarrow> ask_leader remote (\<lambda>_. Some ()) ''addLearner'' (learner_params g n) peers n;
         (case found of
            None \<Rightarrow> Some (Inl ''failed to join as learner'', n1, [])
          | Some _ \<Rightarrow> do {
              (lc, os) \<leftarrow> NewLearnerClient L (nID n) g st;
              Some (Inr lc, set_learner g (Some lc) n1, map (RaftOut g) os) }) })"

definition JoinAsLearner ::
  "'d leveldb \<Rightarrow> 'd remote \<Rightarrow> string \<Rightarrow> 'd Storage \<Rightarrow> 'd Node \<Rightarrow> (string option \<times> 'd Node \<times> net_out list) option" where
  "JoinAsLearner L remote g st n =
     map_option (apfst (case_sum Some (\<lambda>_. None))) (CreateLearner L remote g st n)"

text \<open>\<open>None\<close> inside is the nil error.\<close>

definition rm_RemoveLearner :: "'d remote \<Rightarrow> string \<Rightarrow> 'd Node \<Rightarrow> (string option \<times> 'd Node) option" where
  "rm_RemoveLearner remote g n = (case map_of (RaftPeers (nRaft n)) g of
       None \<Rightarrow> Some (Some (group_missing g), n)
     | Some peers \<Rightarrow> do {
         (n1, found) \<leftarrow> ask_leader remote (\<lambda>_. Some ()) ''removeLearner'' (learner_params g n) peers n;
         Some (case found of
            None \<Rightarrow> (Some (''failed to remove learner from group '' @ g), n1)
          | Some _ \<Rightarrow> (None, set_learner g None n1)) })"

text \<open>The loop of \<open>LeaveAsLearner\<close>, which follows no redirection.\<close>

fun leave_loop :: "'d remote \<Rightarrow> params \<Rightarrow> string list \<Rightarrow> 'd Node \<Rightarrow> ('d Node \<times> bool) option" where
  "leave_loop remote ps [] n = Some (n, False)"
| "leave_loop remote ps (peer # peers) n =
     (let (n1, result, ok) = remote peer ''removeLearner'' ps n in
      if \<not> ok then leave_loop remote ps peers n1
      else do {
        resp \<leftarrow> as_map result;
        if is_success resp then Some (n1, True) else leave_loop remote ps peers n1 })"

definition LeaveAsLearner :: "'d remote \<Rightarrow> string \<Rightarrow> 'd Node \<Rightarrow> (string option \<times> 'd Node) option" where
  "LeaveAsLearner remote g n =
     (let n1 = set_learner g None n in
      case map_of (RaftPeers (nRaft n1)) g of
        None \<Rightarrow> Some (Some (group_missing g), n1)
      | Some peers \<Rightarrow> do {
          (n2, ok) \<leftarrow> leave_loop remote (learner_params g n) peers n1;
          Some (if ok then None else Some (''failed to remove learner from group '' @ g), n2) })"

section \<open>Fast synchronisation\<close>

definition getStateSnapshotFromLeader ::
  "'d remote \<Rightarrow> string \<Rightarrow> string list \<Rightarrow> 'd Node \<Rightarrow> ('d Node \<times> params option) option" where
  "getStateSnapshotFromLeader remote g peers n =
     ask_leader remote (\<lambda>resp. map_field resp ''snapshot'') ''getStateSnapshot'' [(''group'', GStr g)] peers n"

text \<open>
  \<open>Some None\<close> is the error result. \<open>snapshot["group"].(string)\<close> panics without a group, unless the
  state is empty.
\<close>

definition applyStateSnapshotToLearner ::
  "'d leveldb \<Rightarrow> 'd RaftLearner \<Rightarrow> params \<Rightarrow> 'd RaftLearner option option" where
  "applyStateSnapshotToLearner L lc snapshot = (case map_field snapshot ''state'' of
       None \<Rightarrow> Some None
     | Some state \<Rightarrow> do {
         st \<leftarrow> (if state = [] then Some (lcStorage lc)
           else (case str_param snapshot ''group'' of
               None \<Rightarrow> None
             | Some g \<Rightarrow> Some (fold (\<lambda>(key, value). PutState L g key value) state (lcStorage lc))));
         let lc1 = lc\<lparr>lcStorage := st, IsSnapshotLearner := True\<rparr>;
         let lc2 = (case num_field snapshot ''commit_index'' of
             None \<Rightarrow> lc1 | Some i \<Rightarrow> lc1\<lparr>lcSnapshotIndex := i, MaxAppliedIndex := i\<rparr>);
         let lc3 = (case num_field snapshot ''term'' of None \<Rightarrow> lc2 | Some t \<Rightarrow> lc2\<lparr>lcSnapshotTerm := t\<rparr>);
         Some (Some lc3) })"

text \<open>The traditional way, after what the learner that was made first has already put out.\<close>

definition fall_back ::
  "'d leveldb \<Rightarrow> 'd remote \<Rightarrow> string \<Rightarrow> 'd Storage \<Rightarrow> net_out list \<Rightarrow> 'd Node \<Rightarrow> 'd manager_result" where
  "fall_back L remote g st2 os n = map_option (apsnd (apsnd ((@) os))) (CreateLearner L remote g st2 n)"

definition CreateLearnerWithFastSync ::
  "'d leveldb \<Rightarrow> 'd remote \<Rightarrow> string \<Rightarrow> 'd Storage \<Rightarrow> 'd Storage \<Rightarrow> 'd Node \<Rightarrow> 'd manager_result" where
  "CreateLearnerWithFastSync L remote g st st2 n = (case map_of (RaftPeers (nRaft n)) g of
       None \<Rightarrow> Some (Inl (group_missing g), n, [])
     | Some peers \<Rightarrow> do {
         (lc, os) \<leftarrow> NewLearnerClient L (nID n) g st;
         (n1, snap) \<leftarrow> getStateSnapshotFromLeader remote g peers n;
         (case snap of
            None \<Rightarrow> fall_back L remote g st2 (map (RaftOut g) os) n1
          | Some snapshot \<Rightarrow> do {
              r \<leftarrow> applyStateSnapshotToLearner L lc snapshot;
              (case r of
                 None \<Rightarrow> fall_back L remote g st2 (map (RaftOut g) os) n1
               | Some lc1 \<Rightarrow>
                   (case (num_field snapshot ''commit_index'', num_field snapshot ''term'') of
                      (Some si, Some t) \<Rightarrow> do {
                        (n2, found) \<leftarrow> ask_leader remote (\<lambda>_. Some ()) ''addLearnerWithSnapshot''
                          (learner_params g n1 @ [(''snapshot_index'', GNum si), (''snapshot_term'', GNum t)]) peers n1;
                        (case found of
                           None \<Rightarrow> Some (Inl (''failed to add learner to group '' @ g), n2, map (RaftOut g) os)
                         | Some _ \<Rightarrow> Some (Inr lc1, set_learner g (Some lc1) n2, map (RaftOut g) os)) }
                    | _ \<Rightarrow> fall_back L remote g st2 (map (RaftOut g) os) n1)) }) })"

section \<open>Properties\<close>

text \<open>
  Nodes that answer: a call to a node runs its callback for \<open>addLearner\<close>; a result with an error is a
  failed call, and so is a call to a node that does not exist.
\<close>

definition answering :: "'d leveldb \<Rightarrow> (string \<Rightarrow> 'd Node option) \<Rightarrow> 'd remote" where
  "answering L world peer f ps n = (case world peer of
       None \<Rightarrow> (n, GNil, False)
     | Some m \<Rightarrow> (let v = fst (snd (rpc_addLearner L ps m)) in
         if f \<noteq> ''addLearner'' \<or> has_error v then (n, GNil, False) else (n, v, True)))"

definition core_at :: "(string \<Rightarrow> 'd Node option) \<Rightarrow> string \<Rightarrow> string \<Rightarrow> 'd RaftCore option" where
  "core_at world g peer = Option.bind (world peer) (\<lambda>m. RaftStubs (nRaft m) g)"

definition leads :: "(string \<Rightarrow> 'd Node option) \<Rightarrow> string \<Rightarrow> string \<Rightarrow> bool" where
  "leads world g peer \<longleftrightarrow> (\<exists>rc. core_at world g peer = Some rc \<and> Role rc = Leader)"

definition finds_leader :: "(string \<Rightarrow> 'd Node option) \<Rightarrow> string \<Rightarrow> string \<Rightarrow> bool" where
  "finds_leader world g peer \<longleftrightarrow> leads world g peer \<or>
     (\<exists>rc. core_at world g peer = Some rc \<and> Role rc \<noteq> Leader \<and> LeaderHint rc \<noteq> [] \<and> leads world g (LeaderHint rc))"

lemma answering_learner:
  "answering L world peer ''addLearner'' (learner_params g n) n = (case core_at world g peer of
       None \<Rightarrow> (n, GNil, False)
     | Some rc \<Rightarrow> (n, if Role rc = Leader then rpc_success (''learner '' @ nID n @ '' added to group '' @ g)
         else not_leader rc, True))"
  by (auto simp: answering_def core_at_def rpc_addLearner_def learner_params_def need_str_def str_param_def
      at_leader_def on_stub_def group_not_found_def rpc_error_def has_error_def rpc_success_def not_leader_def
      split: option.split)

lemma ask_leader_finds:
  "ask_leader (answering L world) (\<lambda>_. Some ()) ''addLearner'' (learner_params g n) peers n =
     Some (n, if \<exists>p \<in> set peers. finds_leader world g p then Some () else None)"
proof (induction peers)
  case (Cons p ps)
  have s: "is_success [(''success'', GBool True), (''message'', x)]"
    "\<not> is_success [(''success'', GBool False), (''redirect_to'', y), (''message'', x)]" for x y
    by (simp_all add: is_success_def)
  show ?case
  proof (cases "core_at world g p")
    case None
    then show ?thesis
      using Cons by (simp add: answering_learner finds_leader_def leads_def)
  next
    case (Some rc)
    show ?thesis
    proof (cases "Role rc = Leader")
      case True
      with Some show ?thesis
        by (simp add: answering_learner rpc_success_def as_map_def s finds_leader_def leads_def)
    next
      case False
      then have nl: "\<not> leads world g p" using Some by (simp add: leads_def)
      have r: "redirect_of [(''success'', GBool False), (''redirect_to'', GStr h), (''message'', x)] =
          (if h = [] then None else Some h)" for h x
        by (simp add: redirect_of_def)
      show ?thesis
      proof (cases "LeaderHint rc = []")
        case True
        with Some False nl Cons show ?thesis
          by (simp add: answering_learner not_leader_def as_map_def s r finds_leader_def)
      next
        case h: False
        show ?thesis
        proof (cases "core_at world g (LeaderHint rc)")
          case None
          with Some False nl h Cons show ?thesis
            by (simp add: answering_learner not_leader_def as_map_def s r finds_leader_def leads_def)
        next
          case (Some rc2)
          with \<open>core_at world g p = Some rc\<close> False nl h Cons show ?thesis
            by (cases "Role rc2 = Leader")
              (simp_all add: answering_learner not_leader_def rpc_success_def as_map_def s r finds_leader_def leads_def)
        qed
      qed
    qed
  qed
qed simp

text \<open>
  C14: A node becomes a learner exactly when one of the known members of the group is the leader or
  redirects to the leader; then its learner is the one \<open>NewLearnerClient\<close> makes, registered under the
  group, and otherwise nothing changes and an error is returned. But a member whose callback panics
  answers null, which the caller counts as success of the call, and the type assertion on it panics.
\<close>

theorem learner_joins_iff_leader_found:
  assumes "map_of (RaftPeers (nRaft n)) g = Some peers" and "NewLearnerClient L (nID n) g st = Some (lc, os)"
  shows "CreateLearner L (answering L world) g st n = Some
      (if \<exists>p \<in> set peers. finds_leader world g p then (Inr lc, set_learner g (Some lc) n, map (RaftOut g) os)
       else (Inl ''failed to join as learner'', n, [])) \<and>
    (peers = p # ps \<and> snd (rpc_finish cId (Result GNil) m) = r \<and>
       remote p ''addLearner'' (learner_params g n) n = (n1, r) \<longrightarrow> CreateLearner L remote g st n = None)"
  using assms by (auto simp: CreateLearner_def ask_leader_finds rpc_finish_def has_error_def as_map_def)

text \<open>A follower that names the leader, and the leader.\<close>

definition ex_world :: "string \<Rightarrow> (string \<times> goval) list Node option" where
  "ex_world = [''b'' \<mapsto> set_stub ''g'' (ex_core\<lparr>LeaderHint := ''c''\<rparr>) (NewNode ''b''),
     ''c'' \<mapsto> set_stub ''g'' (ex_core\<lparr>Role := Leader\<rparr>) (NewNode ''c'')]"

definition ex_joining :: "(string \<times> goval) list Node" where
  "ex_joining = (NewNode ''d'')\<lparr>nRaft := NewRaftManager\<lparr>RaftPeers := [(''g'', [''x'', ''b''])]\<rparr>\<rparr>"

theorem learner_joins_iff_leader_found_witness:
  "\<exists>lc. CreateLearner alist_db (answering alist_db ex_world) ''g'' \<lparr>db = None, NodeId = ''d''\<rparr> ex_joining =
     Some (Inr lc, set_learner ''g'' (Some lc) ex_joining, [])"
proof -
  obtain lc where lc: "NewLearnerClient alist_db (nID ex_joining) ''g'' \<lparr>db = None, NodeId = ''d''\<rparr> = Some (lc, [])"
    by (simp add: NewLearnerClient_def LoadMeta_def)
  have "finds_leader ex_world ''g'' ''b''"
    by (simp add: finds_leader_def leads_def core_at_def ex_world_def set_stub_def ex_core_fields)
  moreover have "map_of (RaftPeers (nRaft ex_joining)) ''g'' = Some [''x'', ''b'']" by (simp add: ex_joining_def)
  ultimately show ?thesis
    using conjunct1 [OF learner_joins_iff_leader_found [OF _ lc, where world = ex_world]] by simp
qed

lemma GetFullState_distinct:
  assumes ok: "leveldb_ok L" and "GetFullState L g s = Some st"
  shows "distinct (map fst st)"
proof -
  obtain d where d: "db s = Some d" and st: "st = map (\<lambda>(k, v). (TrimPrefix k (group_prefix s g ''state''), v))
      (filter (\<lambda>(k, _). prefix (group_prefix s g ''state'') k) (db_Iter L d))"
    using assms(2) by (auto simp: GetFullState_def split: option.splits)
  let ?p = "group_prefix s g ''state''"
  let ?ks = "filter (prefix ?p) (map fst (db_Iter L d))"
  have "map fst st = map (\<lambda>k. TrimPrefix k ?p) ?ks"
    by (simp add: st filter_map comp_def case_prod_unfold)
  moreover have "inj_on (\<lambda>k. TrimPrefix k ?p) (set ?ks)"
    by (auto simp: inj_on_def elim!: prefixE)
  moreover have "distinct ?ks" using leveldb_okD(3) [OF ok] by simp
  ultimately show ?thesis by (simp add: distinct_map del: filter_map)
qed

text \<open>
  The state that the leader sends for a fast synchronisation reaches the receiver: installed by
  \<open>setStateSnapshot\<close> on another core, every key reads as on the leader and the commit and apply
  indexes are those of its metadata. Applied to a new learner it does not remove what the learner's
  database held: a key that is not in the snapshot keeps its old value.
\<close>

theorem fast_sync_state:
  assumes ok: "leveldb_ok L" and n: "RaftStubs (nRaft n) g = Some rc" "Role rc = Leader" "db (store rc) \<noteq> None"
    and meta: "LoadMeta L g (store rc) = Some (t, vf, ci, la, False)"
    and m: "RaftStubs (nRaft m) g = Some rc2" "db (store rc2) \<noteq> None"
    and lc: "db (lcStorage lc) \<noteq> None"
  shows "\<exists>snap. rpc_getStateSnapshot L gerr ts remote [(''group'', GStr g)] n =
      Some (n, GMap [(''success'', GBool True), (''snapshot'', GMap snap)], []) \<and>
    (\<exists>rc3 v. rpc_setStateSnapshot L [(''group'', GStr g), (''snapshot'', GMap snap)] m = (set_stub g rc3 m, v, []) \<and>
       CommitIndex rc3 = ci \<and> LastApplied rc3 = la \<and> Log rc3 = Log rc2 \<and>
       (\<forall>k. GetState L g k (store rc3) = GetState L g k (store rc))) \<and>
    (\<exists>lc1. applyStateSnapshotToLearner L lc snap = Some (Some lc1) \<and> IsSnapshotLearner lc1 \<and>
       lcSnapshotIndex lc1 = ci \<and> MaxAppliedIndex lc1 = ci \<and> lcSnapshotTerm lc1 = t \<and>
       (\<forall>k. GetState L g k (lcStorage lc1) =
          (case GetState L g k (store rc) of Some v \<Rightarrow> Some v | None \<Rightarrow> GetState L g k (lcStorage lc))))"
proof -
  obtain st where st: "GetFullState L g (store rc) = Some st"
    using n(3) by (auto simp: GetFullState_def)
  define snap where "snap = [(''group'', GStr g), (''term'', GNum t), (''commit_index'', GNum ci), (''last_applied'', GNum la),
    (''state'', GMap st), (''timestamp'', GStr ts)]"
  have look: "map_of st k = GetState L g k (store rc)" for k by (rule GetFullState_lookup [OF ok st])
  have dis: "distinct (map fst st)" by (rule GetFullState_distinct [OF ok st])
  have f: "map_field snap ''state'' = Some st" "num_field snap ''commit_index'' = Some ci"
    "num_field snap ''last_applied'' = Some la" "num_field snap ''term'' = Some t" "str_param snap ''group'' = Some g"
    by (simp_all add: snap_def map_field_def num_field_def str_param_def)
  have 1: "rpc_getStateSnapshot L gerr ts remote [(''group'', GStr g)] n =
      Some (n, GMap [(''success'', GBool True), (''snapshot'', GMap snap)], [])"
    using n meta st by (auto simp: rpc_getStateSnapshot_def need_str_def str_param_def GetStateSnapshot_def snapshot_object_def snap_def)
  define rc3 where "rc3 = rc2\<lparr>store := SetFullState L g st (store rc2), CommitIndex := ci, LastApplied := la\<rparr>"
  have a: "need_str [(''group'', GStr g), (''snapshot'', GMap snap)] ''group'' = Inr g"
    "map_field [(''group'', GStr g), (''snapshot'', GMap snap)] ''snapshot'' = Some snap"
    by (simp_all add: need_str_def str_param_def map_field_def)
  have 2: "rpc_setStateSnapshot L [(''group'', GStr g), (''snapshot'', GMap snap)] m =
      (set_stub g rc3 m, rpc_success (''state snapshot applied to learner for group '' @ g), [])"
    using m(1) by (simp add: rpc_setStateSnapshot_def a f rc3_def Let_def del: append.simps)
  have 3: "GetState L g k (store rc3) = GetState L g k (store rc)" for k
    using SetFullState_GetState [OF ok m(2) dis] look by (simp add: rc3_def)
  define lc1 where "lc1 = lc\<lparr>lcStorage := fold (\<lambda>(key, value). PutState L g key value) st (lcStorage lc),
    IsSnapshotLearner := True, lcSnapshotIndex := ci, MaxAppliedIndex := ci, lcSnapshotTerm := t\<rparr>"
  have 4: "applyStateSnapshotToLearner L lc snap = Some (Some lc1)"
    by (cases "st = []") (simp_all add: applyStateSnapshotToLearner_def f lc1_def Let_def)
  have 5: "GetState L g k (lcStorage lc1) =
      (case GetState L g k (store rc) of Some v \<Rightarrow> Some v | None \<Rightarrow> GetState L g k (lcStorage lc))" for k
    using GetState_fold_PutState [OF ok lc dis, of g k] look by (simp add: lc1_def)
  show ?thesis
    using 1 2 3 4 5
    by (intro exI [of _ snap] conjI exI [of _ rc3] exI [of _ "rpc_success (''state snapshot applied to learner for group '' @ g)"]
        exI [of _ lc1]) (simp_all add: rc3_def lc1_def)
qed

text \<open>A leader with one key, a core and a learner with another.\<close>

definition ex_leader :: "(string \<times> goval) list Node" where
  "ex_leader = set_stub ''g'' (ex_core\<lparr>Role := Leader, store := SaveMeta alist_db ''g'' 3 [] 5 5 snap_src\<rparr>) (NewNode ''a'')"

definition ex_receiver :: "(string \<times> goval) list Node" where
  "ex_receiver = set_stub ''g'' (ex_core\<lparr>store := snap_dst\<rparr>) (NewNode ''b'')"

definition ex_new_learner :: "(string \<times> goval) list RaftLearner" where
  "ex_new_learner = (fst (the (NewLearnerClient alist_db ''b'' ''g'' \<lparr>db = None, NodeId = ''b''\<rparr>)))\<lparr>lcStorage := snap_dst\<rparr>"

theorem fast_sync_state_witness:
  "\<exists>snap rc3 v lc1. rpc_setStateSnapshot alist_db [(''group'', GStr ''g''), (''snapshot'', GMap snap)] ex_receiver =
      (set_stub ''g'' rc3 ex_receiver, v, []) \<and> GetState alist_db ''g'' ''old'' (store rc3) = None \<and>
    applyStateSnapshotToLearner alist_db ex_new_learner snap = Some (Some lc1) \<and>
    GetState alist_db ''g'' ''old'' (lcStorage lc1) = Some (GNum 1)"
proof -
  let ?rc = "ex_core\<lparr>Role := Leader, store := SaveMeta alist_db ''g'' 3 [] 5 5 snap_src\<rparr>"
  let ?rc2 = "ex_core\<lparr>store := snap_dst\<rparr>"
  have open1: "db snap_src \<noteq> None" "db snap_dst \<noteq> None" "db (lcStorage ex_new_learner) \<noteq> None"
    by (simp_all add: snap_src_def snap_dst_def ex_new_learner_def)
  have 1: "RaftStubs (nRaft ex_leader) ''g'' = Some ?rc" "Role ?rc = Leader" "db (store ?rc) \<noteq> None"
    "RaftStubs (nRaft ex_receiver) ''g'' = Some ?rc2" "db (store ?rc2) \<noteq> None"
    using open1 by (simp_all add: ex_leader_def ex_receiver_def set_stub_def)
  have 2: "LoadMeta alist_db ''g'' (store ?rc) = Some (3, [], 5, 5, False)"
    using LoadMeta_SaveMeta [OF alist_db_ok] open1 by simp
  have st: "GetState alist_db ''g'' ''old'' (store ?rc) = None"
    by (simp add: snap_src_def GetState_def PutState_def SaveMeta_def alist_db_def makeKey_def)
  have old: "GetState alist_db ''g'' ''old'' (lcStorage ex_new_learner) = Some (GNum 1)"
    by (simp add: ex_new_learner_def snap_dst_def GetState_def PutState_def alist_db_def makeKey_def)
  obtain snap rc3 v lc1 where
    "rpc_setStateSnapshot alist_db [(''group'', GStr ''g''), (''snapshot'', GMap snap)] ex_receiver =
       (set_stub ''g'' rc3 ex_receiver, v, [])"
    "\<forall>k. GetState alist_db ''g'' k (store rc3) = GetState alist_db ''g'' k (store ?rc)"
    "applyStateSnapshotToLearner alist_db ex_new_learner snap = Some (Some lc1)"
    "\<forall>k. GetState alist_db ''g'' k (lcStorage lc1) = (case GetState alist_db ''g'' k (store ?rc) of
       Some v \<Rightarrow> Some v | None \<Rightarrow> GetState alist_db ''g'' k (lcStorage ex_new_learner))"
    using fast_sync_state [OF alist_db_ok 1(1-3) 2 1(4,5) open1(3), where remote = "\<lambda>_ _ _ n. (n, GNil, False)"]
    by blast
  moreover from this st old have "GetState alist_db ''g'' ''old'' (store rc3) = None"
    "GetState alist_db ''g'' ''old'' (lcStorage lc1) = Some (GNum 1)" by simp_all
  ultimately show ?thesis by blast
qed

end
