(* ===== verification/Web_Server.thy ===== *)
theory Web_Server
  imports Web_Client Signal_Client Net_Client Frp_Manager Elect Raft_Manager
begin

text \<open>
  core/MajulaServer.go, without its HTTP handlers: the server of a node for programs that use the node over
  WebSockets, its registry of clients, and what it does for each package that a client sends.

  \<^item> A connection is an object: the registry has positions of the store \<open>connHeap\<close>, and the loops of a
    connection and the callbacks that send to it keep its position. So do the channels of pending calls
    (\<open>svChans\<close>).
  \<^item> The node, the manager of streams and the manager of elections are separate arguments, because each
    handler uses one of them.
  \<^item> A write to a channel is done, has to wait, or panics on a closed channel (\<open>put\<close>).
  \<^item> The callbacks that the server registers are handles made from the position of the connection.
\<close>

section \<open>State\<close>

record ClientConnection =
  ccID :: string
  ccWs :: bool
  SendCh :: "MajulaPackage list"
  SendCap :: nat
  SendClosed :: bool
  ccCancelled :: bool

record pendingRpcEntry =
  peOrigin :: int
  peFrom :: string
  peChan :: nat

record Server =
  svClients :: "(string \<times> nat) list"
  connHeap :: "ClientConnection list"
  ClientCounter :: int
  svPort :: string
  pendingRpc :: "(int \<times> pendingRpcEntry) list"
  rpcInvokeCounter :: int
  svChans :: "goval option list"

datatype 'a put = Put 'a | Wait | Crash

definition NewServer :: "string \<Rightarrow> Server" where
  "NewServer wport = \<lparr>svClients = [], connHeap = [], ClientCounter = 0, svPort = wport, pendingRpc = [],
     rpcInvokeCounter = 0, svChans = []\<rparr>"

definition nextLocalInvokeId :: "Server \<Rightarrow> int \<times> Server" where
  "nextLocalInvokeId s = (let i = i64 (rpcInvokeCounter s + 1) in (i, s\<lparr>rpcInvokeCounter := i\<rparr>))"

definition generateClientID :: "Server \<Rightarrow> string \<times> Server" where
  "generateClientID s = (let i = i64 (ClientCounter s + 1) in (''client-'' @ itoa i, s\<lparr>ClientCounter := i\<rparr>))"

section \<open>Connections\<close>

definition at_conn :: "nat \<Rightarrow> (ClientConnection \<Rightarrow> ClientConnection) \<Rightarrow> Server \<Rightarrow> Server" where
  "at_conn a f s = s\<lparr>connHeap := (connHeap s)[a := f (connHeap s ! a)]\<rparr>"

definition push :: "MajulaPackage \<Rightarrow> nat \<Rightarrow> Server \<Rightarrow> Server put" where
  "push pkg a s = (if SendClosed (connHeap s ! a) then Crash
     else if length (SendCh (connHeap s ! a)) < SendCap (connHeap s ! a)
       then Put (at_conn a (\<lambda>c. c\<lparr>SendCh := SendCh c @ [pkg]\<rparr>) s)
     else Wait)"

text \<open>A select with a default: whether it was sent.\<close>

definition try_push :: "MajulaPackage \<Rightarrow> nat \<Rightarrow> Server \<Rightarrow> (bool \<times> Server) option" where
  "try_push pkg a s = (case push pkg a s of Put s1 \<Rightarrow> Some (True, s1) | Wait \<Rightarrow> Some (False, s) | Crash \<Rightarrow> None)"

definition client_id :: "string \<Rightarrow> Server \<Rightarrow> string \<times> Server" where
  "client_id target s = (if target = [] \<or> target = ''/'' then generateClientID s else (target, s))"

text \<open>A new connection with its entry, and the end of one: whatever has this id is removed.\<close>

definition attach :: "string \<Rightarrow> nat \<Rightarrow> bool \<Rightarrow> Server \<Rightarrow> 'd Node \<Rightarrow> nat \<times> Server \<times> 'd Node" where
  "attach clientID cap ws s n = (let a = length (connHeap s)
     in (a, s\<lparr>connHeap := connHeap s @ [\<lparr>ccID = clientID, ccWs = ws, SendCh = [], SendCap = cap, SendClosed = False,
            ccCancelled = False\<rparr>],
          svClients := AList.update clientID a (svClients s)\<rparr>, AddClient clientID n))"

definition detach :: "string \<Rightarrow> Server \<Rightarrow> 'd Node \<Rightarrow> Server \<times> 'd Node \<times> net_out list" where
  "detach clientID s n = (s\<lparr>svClients := AList.delete clientID (svClients s)\<rparr>, RemoveClient clientID n)"

definition handleWS :: "string \<Rightarrow> Server \<Rightarrow> 'd Node \<Rightarrow> nat \<times> Server \<times> 'd Node" where
  "handleWS target s n = (let (clientID, s1) = client_id target s in attach clientID 256 True s1 n)"

text \<open>The end of \<open>readLoop\<close>, and a round of \<open>writeLoop\<close>: whether it goes on.\<close>

definition sv_readLoop_end :: "nat \<Rightarrow> Server \<Rightarrow> 'd Node \<Rightarrow> Server \<times> 'd Node \<times> net_out list" where
  "sv_readLoop_end a s n = (let (s1, n1, os) = detach (ccID (connHeap s ! a)) s n
     in (at_conn a (\<lambda>c. c\<lparr>ccCancelled := True\<rparr>) s1, n1, os))"

definition sv_writeLoop_round :: "bool \<Rightarrow> bool \<Rightarrow> nat \<Rightarrow> Server \<Rightarrow> (bool \<times> Server \<times> MajulaPackage option) option" where
  "sv_writeLoop_round take_end write_ok a s =
     (let c = connHeap s ! a in
      if ccCancelled c \<and> take_end then Some (False, s, None)
      else (case SendCh c of
        [] \<Rightarrow> if SendClosed c then Some (False, s, None) else None
      | msg # rest \<Rightarrow>
          (let s1 = at_conn a (\<lambda>c. c\<lparr>SendCh := rest\<rparr>) s in
           if write_ok then Some (True, s1, Some msg)
           else Some (False, at_conn a (\<lambda>c. c\<lparr>ccCancelled := True\<rparr>) s1, None))))"

text \<open>An error only when the channel of the client is full; none when there is no such client.\<close>

definition SendToClient :: "string \<Rightarrow> MajulaPackage \<Rightarrow> Server \<Rightarrow> (string option \<times> Server) option" where
  "SendToClient clientID pkg s = (case map_of (svClients s) clientID of
       None \<Rightarrow> Some (None, s)
     | Some a \<Rightarrow> map_option (\<lambda>(sent, s1). (if sent then None else Some (''client '' @ clientID @ '' send channel full''), s1))
         (try_push pkg a s))"

definition UnregisterClientRpcServices :: "string \<Rightarrow> 'd Node \<Rightarrow> 'd Node" where
  "UnregisterClientRpcServices clientID n = n\<lparr>RpcFuncs := filter (\<lambda>(_, ps). ps \<noteq> [])
     (map (\<lambda>(f, ps). (f, AList.delete clientID ps)) (RpcFuncs n))\<rparr>"

text \<open>\<open>Conn.Close\<close> panics for a client without a WebSocket.\<close>

definition Shutdown :: "Server \<Rightarrow> Server option" where
  "Shutdown s = map_option (\<lambda>s1. s1\<lparr>svClients := []\<rparr>) (foldM (\<lambda>(_, a) s.
     if \<not> ccWs (connHeap s ! a) then None
     else Some (at_conn a (\<lambda>c. c\<lparr>ccCancelled := True, SendClosed := True\<rparr>) s)) (svClients s) s)"

section \<open>Topics and messages\<close>

definition ws_sub :: "nat \<Rightarrow> int" where
  "ws_sub a = 2 * int a"

definition handleClientRegisterPackage :: "nat \<Rightarrow> Server \<Rightarrow> 'd Node \<Rightarrow> 'd Node" where
  "handleClientRegisterPackage a s n = AddClient (ccID (connHeap s ! a)) n"

definition handleSubscribePackage :: "nat \<Rightarrow> MajulaPackage \<Rightarrow> Server \<Rightarrow> 'd Node \<Rightarrow> 'd Node \<times> net_out list" where
  "handleSubscribePackage a pkg s n = (if pkTopic pkg = [] then (n, [])
     else addLocalSub (pkTopic pkg) (ccID (connHeap s ! a)) (ws_sub a) n)"

text \<open>The callback of that subscription; a content that is no object gives no arguments.\<close>

definition ws_sub_callback :: "(string \<Rightarrow> params option) \<Rightarrow> nat \<Rightarrow> string \<Rightarrow> string \<Rightarrow> Server \<Rightarrow> Server put" where
  "ws_sub_callback unmarshal a topic content = push ((package ''SUB_RESULT'')\<lparr>pkTopic := topic,
     pkArgs := (case unmarshal content of None \<Rightarrow> [] | Some args \<Rightarrow> args)\<rparr>) a"

definition handleUnsubscribePackage :: "nat \<Rightarrow> MajulaPackage \<Rightarrow> Server \<Rightarrow> 'd Node \<Rightarrow> 'd Node \<times> net_out list" where
  "handleUnsubscribePackage a pkg s n = (if pkTopic pkg = [] then (n, [])
     else removeLocalSub (pkTopic pkg) (ccID (connHeap s ! a)) n)"

definition handlePublishPackage :: "(params \<Rightarrow> string) \<Rightarrow> group_order \<Rightarrow> MajulaPackage \<Rightarrow> 'd Node \<Rightarrow> 'd Node \<times> net_out list" where
  "handlePublishPackage marshal ord pkg n = publishOnTopic ord (pkTopic pkg) (marshal (pkArgs pkg)) n"

definition p2p_message :: "string \<Rightarrow> goval \<Rightarrow> 'd Node \<Rightarrow> Message" where
  "p2p_message targetClient content n = zero_message\<lparr>mType := P2PMessage,
     mData := ObjJson [(''target_client'', GStr targetClient), (''payload'', content)],
     mFrom := nID n, LastSender := nID n, mTTL := 100\<rparr>"

definition handleSendPackage :: "MajulaPackage \<Rightarrow> 'd Node \<Rightarrow> 'd Node \<times> net_out list" where
  "handleSendPackage pkg n = (case (str_param (pkArgs pkg) ''target_node'', str_param (pkArgs pkg) ''target_client'') of
       (Some targetNode, Some targetClient) \<Rightarrow> sendTo targetNode
         (p2p_message targetClient (case map_of (pkArgs pkg) ''content'' of None \<Rightarrow> GNil | Some v \<Rightarrow> v) n) [] n
     | _ \<Rightarrow> (n, []))"

text \<open>
  The loop over the servers of a node in \<open>onRecv\<close> (core/Node.go), with which a node passes on a
  \<open>ClientPackage\<close>: it stops at the first server that reports no error.
\<close>

definition private_package :: "string \<Rightarrow> goval \<Rightarrow> MajulaPackage" where
  "private_package source payload = (package ''PRIVATE_MESSAGE'')\<lparr>pkArgs :=
     [(''source_node'', GStr source), (''message'', payload)]\<rparr>"

fun send_first :: "string \<Rightarrow> MajulaPackage \<Rightarrow> Server list \<Rightarrow> Server list option" where
  "send_first clientID pkg [] = Some []"
| "send_first clientID pkg (s # ss) = (case SendToClient clientID pkg s of
       None \<Rightarrow> None
     | Some (None, s1) \<Rightarrow> Some (s1 # ss)
     | Some (Some _, s1) \<Rightarrow> map_option ((#) s1) (send_first clientID pkg ss))"

section \<open>Functions\<close>

text \<open>Apart from the handles of \<open>default_rpcs\<close>.\<close>

definition rpc_cb :: "nat \<Rightarrow> int" where
  "rpc_cb a = 100 + int a"

definition handleRPCRegisterPackage :: "nat \<Rightarrow> MajulaPackage \<Rightarrow> Server \<Rightarrow> 'd Node \<Rightarrow> 'd Node \<times> net_out list" where
  "handleRPCRegisterPackage a pkg s n = registerRpcService (pkFun pkg) (ccID (connHeap s ! a))
     \<lparr>fnNote = ''Client registered RPC'', fnCallback = Some (rpc_cb a)\<rparr> n"

text \<open>
  The callback of that function: what it writes to the channel of the client (with \<open>push\<close>), and when the wait
  for the result is over.
\<close>

definition rpc_callback_begin ::
  "string \<Rightarrow> params \<Rightarrow> string \<Rightarrow> int \<Rightarrow> Server \<Rightarrow> int \<times> nat \<times> Server \<times> MajulaPackage" where
  "rpc_callback_begin fun ps from1 originInvokeId s =
     (let (i, s1) = nextLocalInvokeId s; ch = length (svChans s1)
      in (i, ch, s1\<lparr>svChans := svChans s1 @ [None],
          pendingRpc := AList.update i \<lparr>peOrigin = originInvokeId, peFrom = from1, peChan = ch\<rparr> (pendingRpc s1)\<rparr>,
        (package ''RPC_CALL_FROM_REMOTE'')\<lparr>pkFun := fun, pkArgs := ps, pkInvokeId := i\<rparr>))"

definition rpc_callback_finish :: "bool \<Rightarrow> int \<Rightarrow> nat \<Rightarrow> Server \<Rightarrow> (goval \<times> Server) option" where
  "rpc_callback_finish timeout i ch s =
     (let s1 = s\<lparr>pendingRpc := AList.delete i (pendingRpc s)\<rparr> in
      if timeout then Some (rpc_error ''timeout waiting for result'', s1)
      else map_option (\<lambda>v. (v, s1)) (svChans s ! ch))"

definition handleReturnResultPackage :: "MajulaPackage \<Rightarrow> Server \<Rightarrow> Server put" where
  "handleReturnResultPackage pkg s = (case map_of (pendingRpc s) (pkInvokeId pkg) of
       None \<Rightarrow> Put s
     | Some e \<Rightarrow>
         (let s1 = s\<lparr>pendingRpc := AList.delete (pkInvokeId pkg) (pendingRpc s)\<rparr> in
          if svChans s1 ! peChan e = None then Put (s1\<lparr>svChans := (svChans s1)[peChan e := Some (pkResult pkg)]\<rparr>) else Wait))"

definition handleRPCUnregisterPackage :: "nat \<Rightarrow> MajulaPackage \<Rightarrow> Server \<Rightarrow> 'd Node \<Rightarrow> 'd Node \<times> net_out list" where
  "handleRPCUnregisterPackage a pkg s n = removeLocalSub (pkFun pkg) (ccID (connHeap s ! a)) n"

definition handleQuitPackage :: "nat \<Rightarrow> Server \<Rightarrow> 'd Node \<Rightarrow> Server \<times> 'd Node \<times> net_out list" where
  "handleQuitPackage a s n = detach (ccID (connHeap s ! a)) s n"

definition rpc_result :: "MajulaPackage \<Rightarrow> goval \<Rightarrow> MajulaPackage" where
  "rpc_result pkg v = (package ''RPC_RESULT'')\<lparr>pkFun := pkFun pkg, pkInvokeId := pkInvokeId pkg, pkResult := v\<rparr>"

text \<open>A call by a client: the error that is sent at once, or what \<open>MakeRpcRequest\<close> is called with; then the answer.\<close>

definition handleRPCCallPackage_begin ::
  "nat \<Rightarrow> MajulaPackage \<Rightarrow> Server \<Rightarrow> Server put + string \<times> string \<times> string \<times> params" where
  "handleRPCCallPackage_begin a pkg s =
     (case (str_param (pkArgs pkg) ''_target_node'', str_param (pkArgs pkg) ''_provider'') of
       (Some targetNode, Some provider) \<Rightarrow> Inr (targetNode, provider, pkFun pkg,
         AList.delete ''_provider'' (AList.delete ''_target_node'' (pkArgs pkg)))
     | _ \<Rightarrow> Inl (push (rpc_result pkg (rpc_error ''missing target_node or provider in RPC call'')) a s))"

definition handleRPCCallPackage_finish ::
  "string \<Rightarrow> MajulaPackage \<Rightarrow> string \<Rightarrow> string \<Rightarrow> goval \<times> bool \<Rightarrow> Server \<Rightarrow> Server option" where
  "handleRPCCallPackage_finish fromClientId pkg targetNode provider r s =
     (let resp = rpc_result pkg (if snd r then fst r
        else rpc_error (''RPC to '' @ provider @ '' on '' @ targetNode @ '' failed''))
      in (case map_of (svClients s) fromClientId of
        None \<Rightarrow> Some s
      | Some a \<Rightarrow> map_option snd (try_push resp a s)))"

section \<open>Forwarding and files\<close>

definition handleFRPRegisterPackage :: "MajulaPackage \<Rightarrow> StubManager \<Rightarrow> StubManager" where
  "handleFRPRegisterPackage pkg sm =
     (case (str_param (pkArgs pkg) ''code'', str_param (pkArgs pkg) ''local_addr'',
         str_param (pkArgs pkg) ''remote_node'', str_param (pkArgs pkg) ''remote_addr'') of
       (Some code, Some localAddr, Some remoteNode, Some remoteAddr) \<Rightarrow>
         (case RegisterFRPWithCode code localAddr remoteNode remoteAddr sm of Inl _ \<Rightarrow> sm | Inr sm1 \<Rightarrow> sm1)
     | _ \<Rightarrow> sm)"

text \<open>No return after the missing parameter is logged: it is the empty string.\<close>

definition text_or_empty :: "params \<Rightarrow> string \<Rightarrow> string" where
  "text_or_empty ps k = (case str_param ps k of None \<Rightarrow> [] | Some v \<Rightarrow> v)"

definition handleFRPRegisterWithAddrPackage :: "MajulaPackage \<Rightarrow> StubManager \<Rightarrow> StubManager" where
  "handleFRPRegisterWithAddrPackage pkg sm =
     (case RegisterFRPWithoutCode (text_or_empty (pkArgs pkg) ''local_addr'') (text_or_empty (pkArgs pkg) ''remote_node'')
         (text_or_empty (pkArgs pkg) ''remote_addr'') sm of Inl _ \<Rightarrow> sm | Inr (_, sm1) \<Rightarrow> sm1)"

definition handleFRPRegisterTwoSidePackage :: "MajulaPackage \<Rightarrow> StubManager \<Rightarrow> StubManager" where
  "handleFRPRegisterTwoSidePackage pkg sm =
     (case (str_param (pkArgs pkg) ''code'', str_param (pkArgs pkg) ''remote_node'',
         str_param (pkArgs pkg) ''target_addr'', map_of (pkArgs pkg) ''is_server'') of
       (Some code, Some remoteNode, Some targetAddr, Some (GBool isServer)) \<Rightarrow>
         (case RegisterFRPSimplified code remoteNode targetAddr isServer sm of Inl _ \<Rightarrow> sm | Inr sm1 \<Rightarrow> sm1)
     | _ \<Rightarrow> sm)"

text \<open>The three that start a listener: the error, if any; it is only logged.\<close>

definition handleStartFRPWithRegistrationPackage ::
  "(string \<Rightarrow> string + unit) \<Rightarrow> MajulaPackage \<Rightarrow> StubManager \<Rightarrow> frp_error option" where
  "handleStartFRPWithRegistrationPackage listen pkg sm = (case str_param (pkArgs pkg) ''code'' of
       None \<Rightarrow> Some EmptyField
     | Some code \<Rightarrow> RunFRPDynamicWithRegistration listen code sm)"

definition handleStartFRPWithoutRegistrationPackage ::
  "(string \<Rightarrow> string + unit) \<Rightarrow> MajulaPackage \<Rightarrow> StubManager \<Rightarrow> frp_error option \<times> StubManager" where
  "handleStartFRPWithoutRegistrationPackage listen pkg sm =
     (case (str_param (pkArgs pkg) ''local_addr'', str_param (pkArgs pkg) ''remote_addr'', str_param (pkArgs pkg) ''remote_node'') of
       (Some localAddr, Some remoteAddr, Some remoteNode) \<Rightarrow>
         (case RegisterFRPWithoutCode localAddr remoteNode remoteAddr sm of
           Inl e \<Rightarrow> (Some e, sm)
         | Inr (_, sm1) \<Rightarrow> (RunFRPDynamicWithoutRegistration listen localAddr, sm1))
     | _ \<Rightarrow> (Some EmptyField, sm))"

definition handleStartFRPWithLocalAddressPackage ::
  "(string \<Rightarrow> string + unit) \<Rightarrow> MajulaPackage \<Rightarrow> StubManager \<Rightarrow> frp_error option" where
  "handleStartFRPWithLocalAddressPackage listen pkg sm = (case str_param (pkArgs pkg) ''local_addr'' of
       None \<Rightarrow> Some EmptyField
     | Some localAddr \<Rightarrow> RunFRPDynamicWithRegistrationLocalAddr listen localAddr sm)"

text \<open>Transfers, until they ask the remote node; \<open>None\<close> when a parameter is missing.\<close>

definition handleTransferFileToRemotePackage ::
  "(string \<Rightarrow> string + string) \<Rightarrow> int \<Rightarrow> MajulaPackage \<Rightarrow> StubManager \<Rightarrow> (frp_error + nat \<times> params) option \<times> StubManager" where
  "handleTransferFileToRemotePackage open now pkg sm =
     (case (str_param (pkArgs pkg) ''local_path'', str_param (pkArgs pkg) ''remote_node'', str_param (pkArgs pkg) ''remote_path'') of
       (Some localPath, Some remoteNode, Some remotePath) \<Rightarrow>
         apfst Some (TransferFileToRemoteWithoutRegistration_begin open now remoteNode localPath remotePath sm)
     | _ \<Rightarrow> (None, sm))"

definition handleDownloadFileFromRemotePackage ::
  "(string \<Rightarrow> string + string) \<Rightarrow> int \<Rightarrow> MajulaPackage \<Rightarrow> StubManager \<Rightarrow> (frp_error + nat \<times> params) \<times> StubManager" where
  "handleDownloadFileFromRemotePackage create now pkg sm =
     DownloadFileFromRemoteWithoutRegistration_begin create now (text_or_empty (pkArgs pkg) ''remote_node'')
       (text_or_empty (pkArgs pkg) ''remote_path'') (text_or_empty (pkArgs pkg) ''local_path'') sm"

end
