(* ===== verification/Web_Dispatch.thy ===== *)
theory Web_Dispatch
  imports Web_Server
begin

text \<open>
  The rest of the packages of core/MajulaServer.go: Raft groups and their learners, elections, connections to
  other nodes; and the dispatch of a package to its handler.

  \<^item> \<open>call\<close> runs the callback of a function, as in theory \<open>Net_Rpc\<close>. A call to the node itself does not wait,
    so that \<open>MakeRpcRequest\<close> is \<open>invokeLocalRpc\<close>.
  \<^item> \<open>None\<close> is a panic.
\<close>

section \<open>Learners\<close>

definition handleJoinRaftLearnerPackage ::
  "'d leveldb \<Rightarrow> 'd remote \<Rightarrow> (string \<Rightarrow> 'd Storage) \<Rightarrow> MajulaPackage \<Rightarrow> 'd Node \<Rightarrow> ('d Node \<times> net_out list) option" where
  "handleJoinRaftLearnerPackage L remote open pkg n =
     (let g = text_or_empty (pkArgs pkg) ''group''; dbPath = text_or_empty (pkArgs pkg) ''dbpath'' in
      if g = [] \<or> dbPath = [] then Some (n, [])
      else map_option snd (JoinAsLearner L remote g (open dbPath) n))"

definition handleJoinRaftLearnerWithFastSyncPackage ::
  "'d leveldb \<Rightarrow> 'd remote \<Rightarrow> (string \<Rightarrow> 'd Storage) \<Rightarrow> 'd Storage \<Rightarrow> MajulaPackage \<Rightarrow> 'd Node \<Rightarrow>
     ('d Node \<times> net_out list) option" where
  "handleJoinRaftLearnerWithFastSyncPackage L remote open st2 pkg n =
     (let g = text_or_empty (pkArgs pkg) ''group''; dbPath = text_or_empty (pkArgs pkg) ''dbpath'' in
      if g = [] \<or> dbPath = [] then Some (n, [])
      else map_option snd (CreateLearnerWithFastSync L remote g (open dbPath) st2 n))"

definition handleLeaveRaftLearnerPackage :: "'d remote \<Rightarrow> MajulaPackage \<Rightarrow> 'd Node \<Rightarrow> 'd Node option" where
  "handleLeaveRaftLearnerPackage remote pkg n =
     (let g = text_or_empty (pkArgs pkg) ''group'' in
      if g = [] then Some n else map_option snd (LeaveAsLearner remote g n))"

section \<open>Connecting to a node\<close>

definition reply :: "string \<Rightarrow> MajulaPackage \<Rightarrow> goval \<Rightarrow> MajulaPackage" where
  "reply m pkg v = (package m)\<lparr>pkResult := v, pkInvokeId := pkInvokeId pkg\<rparr>"

text \<open>An error at once, or the node that \<open>RequestKCPConnection\<close> is called with; then the answer.\<close>

definition handleConnectToNodePackage_begin ::
  "bool \<Rightarrow> nat \<Rightarrow> MajulaPackage \<Rightarrow> Server \<Rightarrow> (string option \<times> Server) option + string" where
  "handleConnectToNodePackage_begin hasSignaling a pkg s =
     (let target = text_or_empty (pkArgs pkg) ''target_node_id'';
        fail = (\<lambda>e. Inl (SendToClient (ccID (connHeap s ! a)) (reply ''CONNECT_TO_NODE_RESPONSE'' pkg (rpc_error e)) s))
      in if target = [] then fail ''missing target_node_id''
         else if \<not> hasSignaling then fail ''signaling client not available''
         else Inr target)"

definition handleConnectToNodePackage_finish ::
  "nat \<Rightarrow> MajulaPackage \<Rightarrow> string \<Rightarrow> string + KCPConnectionResponse \<Rightarrow> Server \<Rightarrow> (string option \<times> Server) option" where
  "handleConnectToNodePackage_finish a pkg target r s =
     SendToClient (ccID (connHeap s ! a)) (reply ''CONNECT_TO_NODE_RESPONSE'' pkg (GMap (case r of
         Inl e \<Rightarrow> [(''success'', GBool False), (''error'', GStr e)]
       | Inr k \<Rightarrow> [(''success'', GBool (krSuccess k)), (''target_node'', GStr target),
           (''public_addr'', GStr (krPublicAddr k)), (''error_msg'', GStr (krErrorMsg k))]))) s"

section \<open>Elections\<close>

text \<open>A number of JSON, converted to an integer; 0 when it is missing.\<close>

definition overtime_param :: "params \<Rightarrow> int" where
  "overtime_param ps = (let t = num_param ps ''base_overtime_t'' in if t = 0 then 3000 else t)"

text \<open>
  Creating a candidate and starting it: the error of the one or the other. \<open>hb\<close> and \<open>gu\<close> are the handles of
  its callbacks.
\<close>

definition join_election ::
  "int \<Rightarrow> int \<Rightarrow> string \<Rightarrow> int \<Rightarrow> ElectManager \<Rightarrow> 'd Node \<Rightarrow> string option \<times> ElectManager \<times> 'd Node \<times> net_out list" where
  "join_election hb gu groupName overtime em n =
     (case CreateCandidate groupName \<lparr>cfgBaseOvertimeT = overtime, cfgGroupName = groupName\<rparr> em of
       Inl e \<Rightarrow> (Some e, em, n, [])
     | Inr (candidate, em1) \<Rightarrow> (case elect_Start hb gu candidate n of
         Inl e \<Rightarrow> (Some e, em1, n, [])
       | Inr (candidate1, n1, os) \<Rightarrow> (None, em1\<lparr>candidates := AList.update groupName candidate1 (candidates em1)\<rparr>, n1, os)))"

definition handleJoinElectionPackage ::
  "int \<Rightarrow> int \<Rightarrow> MajulaPackage \<Rightarrow> ElectManager \<Rightarrow> 'd Node \<Rightarrow> ElectManager \<times> 'd Node \<times> net_out list" where
  "handleJoinElectionPackage hb gu pkg em n =
     (let groupName = text_or_empty (pkArgs pkg) ''group'' in
      if groupName = [] then (em, n, [])
      else snd (join_election hb gu groupName (overtime_param (pkArgs pkg)) em n))"

definition giveup_election ::
  "(params \<Rightarrow> string) \<Rightarrow> group_order \<Rightarrow> int \<Rightarrow> int \<Rightarrow> string \<Rightarrow> ElectCandidate \<Rightarrow> ElectManager \<Rightarrow> 'd Node \<Rightarrow>
     (ElectManager \<times> 'd Node \<times> net_out list) option" where
  "giveup_election marshal ord r now groupName candidate em n =
     map_option (\<lambda>(c1, n1, os). (em\<lparr>candidates := AList.update groupName c1 (candidates em)\<rparr>, n1, os))
       (elect_GiveUp marshal ord r now candidate n)"

definition handleGiveUpElectionPackage ::
  "(params \<Rightarrow> string) \<Rightarrow> group_order \<Rightarrow> int \<Rightarrow> int \<Rightarrow> MajulaPackage \<Rightarrow> ElectManager \<Rightarrow> 'd Node \<Rightarrow>
     (ElectManager \<times> 'd Node \<times> net_out list) option" where
  "handleGiveUpElectionPackage marshal ord r now pkg em n =
     (let groupName = text_or_empty (pkArgs pkg) ''group'' in
      if groupName = [] then Some (em, n, [])
      else (case GetCandidate groupName em of
        None \<Rightarrow> Some (em, n, [])
      | Some candidate \<Rightarrow> giveup_election marshal ord r now groupName candidate em n))"

definition handleLeaveElectionPackage :: "MajulaPackage \<Rightarrow> ElectManager \<Rightarrow> ElectManager" where
  "handleLeaveElectionPackage pkg em =
     (let groupName = text_or_empty (pkArgs pkg) ''group'' in
      if groupName = [] then em
      else (case RemoveCandidate groupName em of Inl _ \<Rightarrow> em | Inr (_, em1) \<Rightarrow> em1))"

definition handleGetElectionStatusPackage ::
  "nat \<Rightarrow> MajulaPackage \<Rightarrow> ElectManager \<Rightarrow> Server \<Rightarrow> (string option \<times> Server) option" where
  "handleGetElectionStatusPackage a pkg em s =
     (let groupName = text_or_empty (pkArgs pkg) ''group'';
        send = (\<lambda>v. SendToClient (ccID (connHeap s ! a)) (reply ''ELECTION_STATUS_RESULT'' pkg v) s)
      in if groupName = [] then send (manager_GetStats em)
         else (case GetCandidate groupName em of
           None \<Rightarrow> Some (None, s)
         | Some candidate \<Rightarrow> send (elect_GetStats candidate)))"

section \<open>Raft groups\<close>

text \<open>A call of a Raft function of the node itself, and its answer to the client.\<close>

definition value_param :: "params \<Rightarrow> goval" where
  "value_param ps = (case map_of ps ''value'' of None \<Rightarrow> GNil | Some v \<Rightarrow> v)"

definition group_call ::
  "'d rpc_call \<Rightarrow> string \<Rightarrow> params \<Rightarrow> string \<Rightarrow> nat \<Rightarrow> MajulaPackage \<Rightarrow> 'd Node \<Rightarrow> Server \<Rightarrow>
     ('d Node \<times> Server \<times> net_out list) option" where
  "group_call call fun ps response a pkg n s =
     (let (n1, (result, ok), os) = invokeLocalRpc call ''raft'' fun ps n in
      map_option (\<lambda>(_, s1). (n1, s1, os)) (SendToClient (ccID (connHeap s ! a))
        (reply response pkg (if ok then result else rpc_error ''RPC call failed'')) s))"

definition handlePutInGroupPackage ::
  "'d rpc_call \<Rightarrow> nat \<Rightarrow> MajulaPackage \<Rightarrow> 'd Node \<Rightarrow> Server \<Rightarrow> ('d Node \<times> Server \<times> net_out list) option" where
  "handlePutInGroupPackage call a pkg n s =
     (let g = text_or_empty (pkArgs pkg) ''group''; key = text_or_empty (pkArgs pkg) ''key'' in
      if g = [] \<or> key = [] then Some (n, s, [])
      else group_call call ''put'' [(''group'', GStr g), (''key'', GStr key), (''value'', value_param (pkArgs pkg))]
        ''PUT_IN_GROUP_RESPONSE'' a pkg n s)"

definition handleDeleteFromGroupPackage ::
  "'d rpc_call \<Rightarrow> nat \<Rightarrow> MajulaPackage \<Rightarrow> 'd Node \<Rightarrow> Server \<Rightarrow> ('d Node \<times> Server \<times> net_out list) option" where
  "handleDeleteFromGroupPackage call a pkg n s =
     (let g = text_or_empty (pkArgs pkg) ''group''; key = text_or_empty (pkArgs pkg) ''key'' in
      if g = [] \<or> key = [] then Some (n, s, [])
      else group_call call ''delete'' [(''group'', GStr g), (''key'', GStr key)] ''DELETE_FROM_GROUP_RESPONSE'' a pkg n s)"

definition handleGetFromGroupPackage ::
  "'d rpc_call \<Rightarrow> nat \<Rightarrow> MajulaPackage \<Rightarrow> 'd Node \<Rightarrow> Server \<Rightarrow> ('d Node \<times> Server \<times> net_out list) option" where
  "handleGetFromGroupPackage call a pkg n s =
     (let g = text_or_empty (pkArgs pkg) ''group''; key = text_or_empty (pkArgs pkg) ''key'' in
      if g = [] \<or> key = [] then Some (n, s, [])
      else group_call call ''get'' [(''group'', GStr g), (''key'', GStr key)] ''GET_FROM_GROUP_RESPONSE'' a pkg n s)"

section \<open>Dispatch\<close>

text \<open>The handlers of packages; each runs in a goroutine of its own, so that packages of a client may overtake each other.\<close>

datatype pkg_handler =
    H_ClientRegister | H_Subscribe | H_Unsubscribe | H_Publish | H_Send | H_RPCRegister | H_RPCUnregister | H_Quit
  | H_RPCCall | H_ReturnResult | H_FRPRegister | H_FRPRegisterWithAddr | H_FRPRegisterTwoSide
  | H_StartFRPWithRegistration | H_StartFRPWithoutRegistration | H_StartFRPWithLocalAddress
  | H_RegisterNginxFRPAndRun | H_UnregisterNginxFRP | H_TransferFile | H_DownloadFile
  | H_JoinRaftLearner | H_JoinRaftLearnerWithFastSync | H_LeaveRaftLearner | H_ConnectToNode
  | H_JoinElection | H_GiveUpElection | H_LeaveElection | H_GetElectionStatus
  | H_PutInGroup | H_DeleteFromGroup | H_GetFromGroup

definition package_methods :: "(string \<times> pkg_handler) list" where
  "package_methods = [
     (''REGISTER_CLIENT'', H_ClientRegister), (''SUBSCRIBE'', H_Subscribe), (''UNSUBSCRIBE'', H_Unsubscribe),
     (''PUBLISH'', H_Publish), (''SEND'', H_Send), (''REGISTER_RPC'', H_RPCRegister), (''UNREGISTER_RPC'', H_RPCUnregister),
     (''QUIT'', H_Quit), (''RPC'', H_RPCCall), (''RETURN_RESULT'', H_ReturnResult), (''REGISTER_FRP'', H_FRPRegister),
     (''REGISTER_FRP_WITH_ADDR'', H_FRPRegister),
     (''START_FRP_LISTENER_WITH_REGISTRATION'', H_StartFRPWithRegistration),
     (''START_FRP_LISTENER_WITHOUT_REGISTRATION'', H_StartFRPWithoutRegistration),
     (''START_FRP_LISTENER_WITH_LOCAL_ADDR'', H_StartFRPWithLocalAddress),
     (''REGISTER_NGINX_FRP_AND_RUN'', H_RegisterNginxFRPAndRun), (''UNREGISTER_NGINX_FRP'', H_UnregisterNginxFRP),
     (''UPLOAD_FILE'', H_TransferFile), (''DOWNLOAD_FILE'', H_DownloadFile),
     (''JOIN_RAFT_LEARNER'', H_JoinRaftLearner), (''JOIN_RAFT_LEARNER_WITH_FAST_SYNC'', H_JoinRaftLearnerWithFastSync),
     (''LEAVE_RAFT_LEARNER'', H_LeaveRaftLearner), (''CONNECT_TO_NODE'', H_ConnectToNode),
     (''JOIN_ELECTION'', H_JoinElection), (''GIVEUP_ELECTION'', H_GiveUpElection), (''LEAVE_ELECTION'', H_LeaveElection),
     (''GET_ELECTION_STATUS'', H_GetElectionStatus), (''PUT_IN_GROUP'', H_PutInGroup),
     (''DELETE_FROM_GROUP'', H_DeleteFromGroup), (''GET_FROM_GROUP'', H_GetFromGroup)]"

definition handlePackage :: "MajulaPackage \<Rightarrow> pkg_handler option" where
  "handlePackage pkg = map_of package_methods (pkMethod pkg)"

end
