(* ===== verification/Web_Http.thy ===== *)
theory Web_Http
  imports Web_Dispatch
begin

text \<open>
  The HTTP handlers of core/MajulaServer.go. Those of topics, calls and messages make a client for the
  request and remove it later (\<open>detach\<close>); the others act on the node, its streams, groups and elections.

  \<^item> The arguments are what \<open>parseGinParameters\<close> returns. A reply is a status with the fields of its JSON
    object, a stream of events, or nothing.
  \<^item> A handler that waits for a remote call is split there, as in theory \<open>Net_Rpc\<close>.
\<close>

datatype http_reply = Reply int params | Streaming | NoReply

definition bad_request :: "string \<Rightarrow> http_reply" where
  "bad_request e = Reply 400 [(''error'', GStr e)]"

definition server_error :: "string \<Rightarrow> http_reply" where
  "server_error e = Reply 500 [(''error'', GStr e)]"

section \<open>Routes and parameters\<close>

definition registerDualMethod :: "string \<Rightarrow> bool \<Rightarrow> string list" where
  "registerDualMethod path withTarget = path # (if \<not> withTarget then []
     else [(if path \<noteq> [] \<and> last path = CHR ''/'' then path else path @ ''/'') @ '':target''])"

definition SetupRoutes :: "string list" where
  "SetupRoutes = concat (map (\<lambda>(path, withTarget). map ((@) ''/majula'') (registerDualMethod path withTarget))
     [(''/ws'', True), (''/h'', True), (''/sub'', True), (''/pub'', True), (''/rpc'', True), (''/send'', True),
      (''/list_rpc'', True), (''/map'', True), (''/frp'', False), (''/upload'', False), (''/download'', False),
      (''/join_raft_learner'', False), (''/join_raft_learner_with_fast_sync'', False), (''/leave_raft_learner'', False),
      (''/elect/join'', False), (''/elect/giveup'', False), (''/elect/leave'', False), (''/elect/status'', False),
      (''/raft/put'', False), (''/raft/delete'', False), (''/raft/get'', False), (''/connect_to_node'', False)])"

text \<open>The object in the body, if it has one; then the values of the query and the form, which win.\<close>

fun join_spaces :: "string list \<Rightarrow> string" where
  "join_spaces [] = []"
| "join_spaces [v] = v"
| "join_spaces (v # vs) = v @ '' '' @ join_spaces vs"

definition parseGinParameters :: "string \<Rightarrow> params option \<Rightarrow> (string \<times> string list) list \<Rightarrow> string \<times> params" where
  "parseGinParameters target body form =
     ((case target of CHR ''/'' # rest \<Rightarrow> rest | _ \<Rightarrow> target),
      fold (\<lambda>(k, v). AList.update k (GStr (join_spaces v))) form
        (fold (\<lambda>(k, v). AList.update k v) (case body of None \<Rightarrow> [] | Some b \<Rightarrow> b) []))"

section \<open>Clients of a request\<close>

definition temp_client :: "string \<Rightarrow> nat \<Rightarrow> Server \<Rightarrow> 'd Node \<Rightarrow> string \<times> nat \<times> Server \<times> 'd Node" where
  "temp_client target cap s n = (let (clientID, s1) = client_id target s in (clientID, attach clientID cap False s1 n))"

definition handleHTTP :: "string \<Rightarrow> Server \<Rightarrow> 'd Node \<Rightarrow> http_reply \<times> string \<times> nat \<times> Server \<times> 'd Node" where
  "handleHTTP target s n = (Streaming, temp_client target 256 s n)"

definition http_sub :: "nat \<Rightarrow> int" where
  "http_sub a = 2 * int a + 1"

definition handleSubscribe ::
  "string \<Rightarrow> params \<Rightarrow> Server \<Rightarrow> 'd Node \<Rightarrow> http_reply \<times> Server \<times> 'd Node \<times> net_out list" where
  "handleSubscribe target ps s n =
     (let topic = text_or_empty ps ''topic'' in
      if topic = [] then (bad_request ''missing topic'', s, n, [])
      else let (clientID, a, s1, n1) = temp_client target 256 s n; (n2, os) = addLocalSub topic clientID (http_sub a) n1
           in (Streaming, s1, n2, os))"

definition http_sub_callback :: "(string \<Rightarrow> params option) \<Rightarrow> nat \<Rightarrow> string \<Rightarrow> string \<Rightarrow> Server \<Rightarrow> Server option" where
  "http_sub_callback unmarshal a topic content s = map_option snd (try_push ((package ''PUBLISH'')\<lparr>pkTopic := topic,
     pkArgs := (case unmarshal content of None \<Rightarrow> [] | Some args \<Rightarrow> args)\<rparr>) a s)"

definition handlePublish ::
  "group_order \<Rightarrow> string \<Rightarrow> params \<Rightarrow> Server \<Rightarrow> 'd Node \<Rightarrow> http_reply \<times> Server \<times> 'd Node \<times> net_out list" where
  "handlePublish ord target ps s n =
     (let topic = text_or_empty ps ''topic''; message = text_or_empty ps ''msg'' in
      if topic = [] \<or> message = [] then (bad_request ''missing topic or msg'', s, n, [])
      else let (clientID, a, s1, n1) = temp_client target 16 s n; (n2, os) = publishOnTopic ord topic message n1
           in (Reply 200 [(''status'', GStr ''published''), (''topic'', GStr topic), (''client'', GStr clientID),
                (''message'', GStr message)], s1, n2, os))"

text \<open>\<open>unmarshal\<close> reads the arguments from their text. The request is held for three seconds.\<close>

definition handleRpc_begin ::
  "(string \<Rightarrow> params option) \<Rightarrow> string \<Rightarrow> params \<Rightarrow> Server \<Rightarrow> 'd Node \<Rightarrow>
     http_reply \<times> Server + (string \<times> string \<times> string \<times> string \<times> params) \<times> Server \<times> 'd Node" where
  "handleRpc_begin unmarshal target ps s n =
     (let fun = text_or_empty ps ''fun''; targetNode = text_or_empty ps ''target_node''; provider = text_or_empty ps ''provider'' in
      if fun = [] \<or> targetNode = [] \<or> provider = []
      then Inl (bad_request ''missing required fields: fun, targetNode, provider'', s)
      else (case (case str_param ps ''args'' of Some raw \<Rightarrow> unmarshal raw
          | None \<Rightarrow> Some (filter (\<lambda>(k, _). k \<noteq> ''fun'' \<and> k \<noteq> ''target_node'' \<and> k \<noteq> ''provider'') ps)) of
        None \<Rightarrow> Inl (bad_request ''invalid args JSON'', snd (client_id target s))
      | Some args \<Rightarrow> (let (clientID, a, s1, n1) = temp_client target 16 s n
          in Inr ((clientID, targetNode, provider, fun, args), s1, n1))))"

definition handleRpc_finish :: "string \<times> string \<times> string \<times> string \<times> params \<Rightarrow> goval \<times> bool \<Rightarrow> http_reply" where
  "handleRpc_finish q r = (case q of (clientID, targetNode, provider, fun, args) \<Rightarrow>
     Reply 200 ([(''fun'', GStr fun), (''args'', GMap args), (''client'', GStr clientID), (''provider'', GStr provider),
       (''target_node'', GStr targetNode), (''result'', fst r), (''success'', GBool (snd r))] @
       (if snd r then [] else [(''error'', GStr (''RPC to '' @ provider @ '' on '' @ targetNode @ '' failed''))])))"

definition handleSend :: "string \<Rightarrow> params \<Rightarrow> Server \<Rightarrow> 'd Node \<Rightarrow> http_reply \<times> Server \<times> 'd Node \<times> net_out list" where
  "handleSend target ps s n =
     (let targetNode = text_or_empty ps ''target_node''; targetClient = text_or_empty ps ''target_client''; msg = text_or_empty ps ''msg'' in
      if targetNode = [] \<or> targetClient = [] \<or> msg = [] then (bad_request ''missing required fields: to_node, to_client, msg'', s, n, [])
      else let (clientID, a, s1, n1) = temp_client target 16 s n;
             (n2, os) = sendTo targetNode (p2p_message targetClient (GStr msg) n1) [] n1
           in (Reply 200 [(''status'', GStr ''sent''), (''source_client'', GStr clientID), (''target_node'', GStr targetNode),
                (''target_client'', GStr targetClient), (''message'', GStr msg)], s1, n2, os))"

text \<open>The call is \<open>allrpcs\<close> of the provider \<open>init\<close>; the argument is the node, and the parameters.\<close>

definition handleListRpc_begin ::
  "string \<Rightarrow> params \<Rightarrow> Server \<Rightarrow> 'd Node \<Rightarrow> http_reply + (string \<times> string \<times> params) \<times> Server \<times> 'd Node" where
  "handleListRpc_begin target ps s n =
     (let targetNode = text_or_empty ps ''target_node''; provider = text_or_empty ps ''provider'' in
      if targetNode = [] \<or> provider = [] then Inl (bad_request ''missing to_node or provider'')
      else let (clientID, a, s1, n1) = temp_client target 16 s n
           in Inr ((targetNode, provider, [(''rpc_provider'', GStr provider)]), s1, n1))"

definition rpc_names :: "goval \<Rightarrow> goval list" where
  "rpc_names result = (case result of
       GList items \<Rightarrow> List.map_filter (\<lambda>item. (case item of
           GMap m \<Rightarrow> Some (GMap [(''name'', GStr (text_or_empty m ''name'')), (''note'', GStr (text_or_empty m ''note''))])
         | _ \<Rightarrow> None)) items
     | _ \<Rightarrow> [])"

definition handleListRpc_finish :: "string \<Rightarrow> string \<Rightarrow> goval \<times> bool \<Rightarrow> http_reply" where
  "handleListRpc_finish targetNode provider r =
     (if \<not> snd r then server_error ''RPC call failed or timed out''
      else Reply 200 [(''target_node'', GStr targetNode), (''provider'', GStr provider), (''rpcs'', GList (rpc_names (fst r)))])"

section \<open>Forwarding, files, learners\<close>

text \<open>\<open>frp_error_text\<close> is the text of an error of the manager of streams.\<close>

definition handleFrp ::
  "(frp_error \<Rightarrow> string) \<Rightarrow> (string \<Rightarrow> string + unit) \<Rightarrow> params \<Rightarrow> http_reply" where
  "handleFrp frp_error_text listen ps =
     (let localAddr = text_or_empty ps ''local_addr''; remoteNode = text_or_empty ps ''remote_node'';
        remoteAddr = text_or_empty ps ''remote_addr'' in
      if localAddr = [] \<or> remoteNode = [] \<or> remoteAddr = []
      then bad_request ''Missing required parameters: localAddr, remote_node, remote_addr''
      else (case RunFRPDynamicWithoutRegistration listen localAddr of
        Some e \<Rightarrow> server_error (''Failed to start dynamic FRP listener: '' @ frp_error_text e)
      | None \<Rightarrow> Reply 200 [(''status'', GStr ''ok''), (''message'', GStr ''Dynamic FRP listener started''),
          (''local_addr'', GStr localAddr), (''remote_node'', GStr remoteNode), (''remote_addr'', GStr remoteAddr)]))"

text \<open>The reply comes before the transfer, which is a goroutine: remote node, local path and remote path.\<close>

definition file_request :: "string \<Rightarrow> string \<Rightarrow> params \<Rightarrow> http_reply \<times> (string \<times> string \<times> string) option" where
  "file_request missing status ps =
     (let remoteNode = text_or_empty ps ''remote_node''; localPath = text_or_empty ps ''local_path'';
        remotePath = text_or_empty ps ''remote_path'' in
      if remoteNode = [] \<or> localPath = [] \<or> remotePath = [] then (bad_request missing, None)
      else (Reply 200 [(''status'', GStr status), (''remote_node'', GStr remoteNode), (''local_path'', GStr localPath),
          (''remote_path'', GStr remotePath)], Some (remoteNode, localPath, remotePath)))"

definition handleFileUpload :: "params \<Rightarrow> http_reply \<times> (string \<times> string \<times> string) option" where
  "handleFileUpload = file_request ''missing remote_node, local_path, or remote_path'' ''upload dispatched''"

definition handleFileDownload :: "params \<Rightarrow> http_reply \<times> (string \<times> string \<times> string) option" where
  "handleFileDownload = file_request ''missing remote_node, remote_path, or local_path'' ''download dispatched''"

text \<open>The bytes of four Chinese texts: must not be empty; and; no such group; call failed.\<close>

definition text_not_empty :: string where
  "text_not_empty = [CHR 0xE4, CHR 0xB8, CHR 0x8D, CHR 0xE8, CHR 0x83, CHR 0xBD, CHR 0xE4, CHR 0xB8, CHR 0xBA,
     CHR 0xE7, CHR 0xA9, CHR 0xBA]"

definition text_and :: string where
  "text_and = [CHR 0xE5, CHR 0x92, CHR 0x8C]"

definition text_group_missing :: string where
  "text_group_missing = [CHR 0xE9, CHR 0x80, CHR 0x89, CHR 0xE4, CHR 0xB8, CHR 0xBE, CHR 0xE7, CHR 0xBB,
     CHR 0x84, CHR 0xE4, CHR 0xB8, CHR 0x8D, CHR 0xE5, CHR 0xAD, CHR 0x98, CHR 0xE5, CHR 0x9C, CHR 0xA8]"

definition text_call_failed :: string where
  "text_call_failed = [CHR 0xE8, CHR 0xB0, CHR 0x83, CHR 0xE7, CHR 0x94, CHR 0xA8, CHR 0xE5, CHR 0xA4,
     CHR 0xB1, CHR 0xE8, CHR 0xB4, CHR 0xA5]"

definition missing_reply :: "string \<Rightarrow> http_reply" where
  "missing_reply what = bad_request (what @ '' '' @ text_not_empty)"

definition missing_two :: "string \<Rightarrow> string \<Rightarrow> http_reply" where
  "missing_two a b = missing_reply (a @ '' '' @ text_and @ '' '' @ b)"

definition handleJoinRaftLearner ::
  "'d leveldb \<Rightarrow> 'd remote \<Rightarrow> (string \<Rightarrow> 'd Storage) \<Rightarrow> params \<Rightarrow> 'd Node \<Rightarrow> (http_reply \<times> 'd Node \<times> net_out list) option" where
  "handleJoinRaftLearner L remote open ps n =
     (let g = text_or_empty ps ''group''; dbPath = text_or_empty ps ''dbpath'' in
      if g = [] \<or> dbPath = [] then Some (missing_two ''group'' ''dbpath'', n, [])
      else map_option (apfst (\<lambda>e. case e of Some t \<Rightarrow> server_error t
          | None \<Rightarrow> Reply 200 [(''status'', GStr ''ok''), (''group'', GStr g), (''dbpath'', GStr dbPath)]))
        (JoinAsLearner L remote g (open dbPath) n))"

definition handleJoinRaftLearnerWithFastSync ::
  "'d leveldb \<Rightarrow> 'd remote \<Rightarrow> (string \<Rightarrow> 'd Storage) \<Rightarrow> 'd Storage \<Rightarrow> params \<Rightarrow> 'd Node \<Rightarrow>
     (http_reply \<times> 'd Node \<times> net_out list) option" where
  "handleJoinRaftLearnerWithFastSync L remote open st2 ps n =
     (let g = text_or_empty ps ''group''; dbPath = text_or_empty ps ''dbpath'' in
      if g = [] \<or> dbPath = [] then Some (missing_two ''group'' ''dbpath'', n, [])
      else map_option (apfst (\<lambda>r. case r of Inl t \<Rightarrow> server_error t
          | Inr _ \<Rightarrow> Reply 200 [(''status'', GStr ''ok''), (''group'', GStr g), (''dbpath'', GStr dbPath), (''method'', GStr ''fast_sync'')]))
        (CreateLearnerWithFastSync L remote g (open dbPath) st2 n))"

definition handleLeaveRaftLearner :: "'d remote \<Rightarrow> params \<Rightarrow> 'd Node \<Rightarrow> (http_reply \<times> 'd Node) option" where
  "handleLeaveRaftLearner remote ps n =
     (let g = text_or_empty ps ''group'' in
      if g = [] then Some (missing_reply ''group'', n)
      else map_option (apfst (\<lambda>e. case e of Some t \<Rightarrow> server_error t
          | None \<Rightarrow> Reply 200 [(''status'', GStr ''ok''), (''group'', GStr g)])) (LeaveAsLearner remote g n))"

text \<open>The reply, and the node that \<open>RequestKCPConnection\<close> is called with in a goroutine, which only logs the result.\<close>

definition handleConnectToNode :: "bool \<Rightarrow> params \<Rightarrow> http_reply \<times> string option" where
  "handleConnectToNode hasSignaling ps =
     (let target = text_or_empty ps ''target_node_id'' in
      if target = [] then (missing_reply ''target_node_id'', None)
      else if \<not> hasSignaling then (server_error ''signaling client not available'', None)
      else (Reply 200 [(''status'', GStr ''connecting''), (''target_node'', GStr target),
          (''message'', GStr ''Connection request sent, check logs for result'')], Some target))"

section \<open>Elections\<close>

definition handleElectJoin ::
  "int \<Rightarrow> int \<Rightarrow> params \<Rightarrow> ElectManager \<Rightarrow> 'd Node \<Rightarrow> http_reply \<times> ElectManager \<times> 'd Node \<times> net_out list" where
  "handleElectJoin hb gu ps em n =
     (let groupName = text_or_empty ps ''group'' in
      if groupName = [] then (missing_reply ''group'', em, n, [])
      else let (e, em1, n1, os) = join_election hb gu groupName (overtime_param ps) em n
           in (case e of Some t \<Rightarrow> server_error t
               | None \<Rightarrow> Reply 200 [(''status'', GStr ''ok''), (''group'', GStr groupName),
                   (''config'', GMap [(''BaseOvertimeT'', GNum (overtime_param ps)), (''GroupName'', GStr groupName)])],
             em1, n1, os))"

definition no_group :: http_reply where
  "no_group = Reply 404 [(''error'', GStr text_group_missing)]"

definition handleElectGiveUp ::
  "(params \<Rightarrow> string) \<Rightarrow> group_order \<Rightarrow> int \<Rightarrow> int \<Rightarrow> params \<Rightarrow> ElectManager \<Rightarrow> 'd Node \<Rightarrow>
     (http_reply \<times> ElectManager \<times> 'd Node \<times> net_out list) option" where
  "handleElectGiveUp marshal ord r now ps em n =
     (let groupName = text_or_empty ps ''group'' in
      if groupName = [] then Some (missing_reply ''group'', em, n, [])
      else (case GetCandidate groupName em of
        None \<Rightarrow> Some (no_group, em, n, [])
      | Some candidate \<Rightarrow> map_option (Pair (Reply 200 [(''status'', GStr ''ok''), (''group'', GStr groupName), (''action'', GStr ''giveup'')]))
          (giveup_election marshal ord r now groupName candidate em n)))"

definition handleElectLeave :: "params \<Rightarrow> ElectManager \<Rightarrow> http_reply \<times> ElectManager" where
  "handleElectLeave ps em =
     (let groupName = text_or_empty ps ''group'' in
      if groupName = [] then (missing_reply ''group'', em)
      else (case RemoveCandidate groupName em of
        Inl e \<Rightarrow> (server_error e, em)
      | Inr (_, em1) \<Rightarrow> (Reply 200 [(''status'', GStr ''ok''), (''group'', GStr groupName), (''action'', GStr ''leave'')], em1)))"

definition handleElectStatus :: "params \<Rightarrow> ElectManager \<Rightarrow> http_reply" where
  "handleElectStatus ps em =
     (let groupName = text_or_empty ps ''group'' in
      if groupName = [] then Reply 200 [(''status'', GStr ''ok''), (''stats'', manager_GetStats em)]
      else (case GetCandidate groupName em of
        None \<Rightarrow> no_group
      | Some candidate \<Rightarrow> Reply 200 [(''status'', GStr ''ok''), (''group'', GStr groupName), (''stats'', elect_GetStats candidate)]))"

section \<open>Raft groups\<close>

definition group_reply :: "string \<Rightarrow> string \<Rightarrow> goval \<times> bool \<Rightarrow> http_reply" where
  "group_reply g key r =
     (if \<not> snd r then server_error (''RPC'' @ text_call_failed)
      else (case (case fst r of GMap m \<Rightarrow> str_param m ''error'' | _ \<Rightarrow> None) of
        Some e \<Rightarrow> server_error e
      | None \<Rightarrow> Reply 200 [(''status'', GStr ''ok''), (''result'', fst r), (''group'', GStr g), (''key'', GStr key)]))"

definition http_group_call ::
  "'d rpc_call \<Rightarrow> string \<Rightarrow> params \<Rightarrow> params \<Rightarrow> 'd Node \<Rightarrow> http_reply \<times> 'd Node \<times> net_out list" where
  "http_group_call call fun extra ps n =
     (let g = text_or_empty ps ''group''; key = text_or_empty ps ''key'' in
      if g = [] \<or> key = [] then (missing_two ''group'' ''key'', n, [])
      else let (n1, r, os) = invokeLocalRpc call ''raft'' fun ([(''group'', GStr g), (''key'', GStr key)] @ extra) n
           in (group_reply g key r, n1, os))"

definition handleRaftPut :: "'d rpc_call \<Rightarrow> params \<Rightarrow> 'd Node \<Rightarrow> http_reply \<times> 'd Node \<times> net_out list" where
  "handleRaftPut call ps = http_group_call call ''put'' [(''value'', value_param ps)] ps"

definition handleRaftDelete :: "'d rpc_call \<Rightarrow> params \<Rightarrow> 'd Node \<Rightarrow> http_reply \<times> 'd Node \<times> net_out list" where
  "handleRaftDelete call = http_group_call call ''delete'' []"

definition handleRaftGet :: "'d rpc_call \<Rightarrow> params \<Rightarrow> 'd Node \<Rightarrow> http_reply \<times> 'd Node \<times> net_out list" where
  "handleRaftGet call = http_group_call call ''get'' []"

end
