(* ===== verification/Web_Proxy.thy ===== *)
theory Web_Proxy
  imports Web_Http "HOL-Library.List_Lexorder"
begin

text \<open>
  core/Nginx.go: the table of HTTP proxies of a node, with which a path of its web server is mapped to a
  forwarded connection; the middleware that uses it; and the requests that change it.

  \<^item> The table maps paths to tables that map the arguments of a mapping, as one text, to the mapping.
  \<^item> Parsing a URL, choosing and probing ports, listening and the HTTP client are parameters.
\<close>

section \<open>The table of proxies\<close>

record HTTPProxyDefine =
  hpSchema :: string
  hpHostAddr :: string
  hpLocalAddr :: string
  hpMappedAddr :: string
  hpArgs :: "(string \<times> string) list"

type_synonym proxies = "(string \<times> (string \<times> HTTPProxyDefine) list) list"

fun join_with :: "string \<Rightarrow> string list \<Rightarrow> string" where
  "join_with sep [] = []"
| "join_with sep [v] = v"
| "join_with sep (v # vs) = v @ sep @ join_with sep vs"

definition SubKey :: "HTTPProxyDefine \<Rightarrow> string" where
  "SubKey h = (if hpArgs h = [] then [] else join_with '','' (sort (map (\<lambda>(k, v). k @ ''='' @ v) (hpArgs h))))"

definition proxies_at :: "proxies \<Rightarrow> string \<Rightarrow> (string \<times> HTTPProxyDefine) list" where
  "proxies_at ps path = (case map_of ps path of None \<Rightarrow> [] | Some row \<Rightarrow> row)"

definition AddHttpProxy :: "HTTPProxyDefine \<Rightarrow> proxies \<Rightarrow> bool \<times> proxies" where
  "AddHttpProxy tpd ps =
     (let row = proxies_at ps (hpMappedAddr tpd); sbk = SubKey tpd in
      if map_of row sbk = None
      then (True, AList.update (hpMappedAddr tpd) (AList.update sbk tpd row) ps)
      else (False, AList.update (hpMappedAddr tpd) row ps))"

text \<open>The table of a path stays when it becomes empty.\<close>

definition RemoveHttpProxy :: "HTTPProxyDefine \<Rightarrow> proxies \<Rightarrow> HTTPProxyDefine option \<times> proxies" where
  "RemoveHttpProxy tpd ps = (case map_of ps (hpMappedAddr tpd) of
       None \<Rightarrow> (None, ps)
     | Some row \<Rightarrow> (case map_of row (SubKey tpd) of
         None \<Rightarrow> (None, ps)
       | Some stub \<Rightarrow> (Some stub, AList.update (hpMappedAddr tpd) (AList.delete (SubKey tpd) row) ps)))"

definition ListHttpProxy :: "proxies \<Rightarrow> HTTPProxyDefine list" where
  "ListHttpProxy ps = concat (map (\<lambda>(_, row). map snd row) ps)"

section \<open>Finding a proxy\<close>

text \<open>\<open>strings.Split\<close> at one character.\<close>

fun split_at :: "char \<Rightarrow> string \<Rightarrow> string list" where
  "split_at c [] = [[]]"
| "split_at c (x # xs) = (if x = c then [] # split_at c xs
     else (case split_at c xs of [] \<Rightarrow> [[x]] | y # ys \<Rightarrow> (x # y) # ys))"

text \<open>\<open>query\<close> is \<open>queryParams.Get\<close>: the first value, or the empty string.\<close>

definition args_match :: "(string \<Rightarrow> string) \<Rightarrow> (string \<times> string) list \<Rightarrow> bool" where
  "args_match query args \<longleftrightarrow> (\<forall>(k, v) \<in> set args. (case v of
       [] \<Rightarrow> True
     | c # w \<Rightarrow> if c = CHR ''~'' then query k \<noteq> w else query k = v))"

definition best_step ::
  "(string \<Rightarrow> string) \<Rightarrow> HTTPProxyDefine \<Rightarrow> HTTPProxyDefine option \<times> int \<Rightarrow> HTTPProxyDefine option \<times> int" where
  "best_step query stub b =
     (if hpArgs stub = [] then (if 0 \<le> snd b then b else (Some stub, 0))
      else if int (length (hpArgs stub)) \<le> snd b then b
      else if args_match query (hpArgs stub) then (Some stub, int (length (hpArgs stub)))
      else b)"

definition path_prefixes :: "string \<Rightarrow> string list" where
  "path_prefixes path = (let ss = split_at (CHR ''/'') path
     in map (\<lambda>i. join_with ''/'' (take i ss)) (rev [1..<length ss + 1]))"

definition FindHttpProxy :: "string \<Rightarrow> (string \<Rightarrow> string) \<Rightarrow> proxies \<Rightarrow> HTTPProxyDefine option" where
  "FindHttpProxy path query ps = (case find (\<lambda>p. map_of ps p \<noteq> None) (path_prefixes path) of
       None \<Rightarrow> None
     | Some p \<Rightarrow> fst (fold (best_step query) (map snd (proxies_at ps p)) (None, -1)))"

text \<open>
  What the middleware does with a request: nothing (\<open>None\<close>), or the scheme and host it goes to, and its query
  with the arguments of the mapping set.
\<close>

definition ReverseProxy ::
  "string \<Rightarrow> (string \<times> string) list \<Rightarrow> proxies \<Rightarrow> (string \<times> string \<times> (string \<times> string) list) option" where
  "ReverseProxy path query ps =
     map_option (\<lambda>hpd. (hpSchema hpd, hpLocalAddr hpd, fold (\<lambda>(k, v). AList.update k v) (hpArgs hpd) query))
       (FindHttpProxy path (\<lambda>k. case map_of query k of None \<Rightarrow> [] | Some v \<Rightarrow> v) ps)"

section \<open>Requests\<close>

text \<open>The numbers of \<open>rand.Intn\<close>, and whether a port can be listened on.\<close>

definition findValidLocalTcpListenPort :: "int list \<Rightarrow> (int \<Rightarrow> bool) \<Rightarrow> nat \<Rightarrow> int" where
  "findValidLocalTcpListenPort rands free tryTimes =
     (case find free (map (\<lambda>r. r + 30000) (take tryTimes rands)) of None \<Rightarrow> 0 | Some port \<Rightarrow> port)"

definition WrapNginxFRPAddr :: "string \<Rightarrow> string" where
  "WrapNginxFRPAddr localAddr = ''_frp_'' @ localAddr"

definition NginxFRPStarter ::
  "(string \<Rightarrow> string + unit) \<Rightarrow> string \<Rightarrow> string \<Rightarrow> string \<Rightarrow> StubManager \<Rightarrow> frp_error option \<times> StubManager" where
  "NginxFRPStarter listen localAddr remoteNode remoteAddr sm =
     (RunFRPDynamicWithoutRegistration listen localAddr,
      RegisterFRP \<lparr>fcCode = WrapNginxFRPAddr localAddr, fcLocalAddr = localAddr, fcRemoteNode = remoteNode,
        fcRemoteAddr = remoteAddr\<rparr> sm)"

record parsed_url =
  urlScheme :: string
  urlEscapedPath :: string
  urlHostname :: string
  urlPort :: string

datatype proxy_reply = ProxyText int string | ProxyObj params | ProxyList "HTTPProxyDefine list"

definition remote_address :: "parsed_url \<Rightarrow> string option" where
  "remote_address u =
     (if urlPort u \<noteq> [] then Some (urlHostname u @ '':'' @ urlPort u)
      else if urlScheme u = ''http'' then Some (urlHostname u @ '':80'')
      else if urlScheme u = ''https'' then Some (urlHostname u @ '':443'')
      else None)"

text \<open>
  \<open>show_value\<close> prints a value, \<open>port\<close> is the result of \<open>findValidLocalTcpListenPort\<close>. That the table has the
  mapping already is not looked at.
\<close>

definition handleNginxFrp ::
  "(goval \<Rightarrow> string) \<Rightarrow> (string \<Rightarrow> string + parsed_url) \<Rightarrow> int \<Rightarrow> (string \<Rightarrow> string + unit) \<Rightarrow> (frp_error \<Rightarrow> string) \<Rightarrow>
   int \<Rightarrow> string \<Rightarrow> params \<Rightarrow> StubManager \<Rightarrow> proxies \<Rightarrow> proxy_reply \<times> StubManager \<times> proxies \<times> net_out list" where
  "handleNginxFrp show_value parse port listen frp_error_text now action args sm ps =
     (let remoteNode = text_or_empty args ''remote_node'';
        hargs = map (\<lambda>(k, v). (k, show_value v)) (AList.delete ''url'' (AList.delete ''remote_node'' args));
        fail = (\<lambda>e. (ProxyText 400 e, sm, ps, []))
      in if action = ''list'' then (ProxyList (ListHttpProxy ps), sm, ps, [])
         else if remoteNode = [] then fail ''missing remote_node (remote Node id)''
         else (case parse (text_or_empty args ''url'') of
           Inl e \<Rightarrow> fail (''invalid url: '' @ e)
         | Inr u \<Rightarrow> (case remote_address u of
             None \<Rightarrow> fail ''unsupported scheme''
           | Some remoteAddr \<Rightarrow>
               if port = 0 then fail ''no valid local Port''
               else let localAddr = ''127.0.0.1:'' @ itoa port;
                      tpd = \<lparr>hpSchema = urlScheme u, hpHostAddr = remoteAddr, hpLocalAddr = localAddr,
                        hpMappedAddr = urlEscapedPath u, hpArgs = hargs\<rparr>
                    in if action = ''start'' then
                         (let (e, sm1) = NginxFRPStarter listen localAddr remoteNode remoteAddr sm in
                          case e of
                            Some err \<Rightarrow> (ProxyText 400 (''failed to start FRP listener: failed to start dynamic FRP listener: '' @
                              frp_error_text err), sm1, ps, [])
                          | None \<Rightarrow> (ProxyObj [(''ok'', GBool True), (''local'', GStr localAddr)], sm1, snd (AddHttpProxy tpd ps), []))
                       else if action = ''stop'' then
                         (let (stub, ps1) = RemoveHttpProxy tpd ps in
                          case stub of
                            None \<Rightarrow> (ProxyText 400 ''proxy not found'', sm, ps1, [])
                          | Some st \<Rightarrow> (let (sm1, os) = CloseStubByAddr now (hpLocalAddr st) sm
                              in (ProxyObj [(''ok'', GBool True)], sm1, ps1, os)))
                       else fail ''invalid action'')))"

text \<open>
  The server calls its own HTTP handler: \<open>post\<close> takes the address and the object, and returns the error of the
  request, or the status and the body. The result is the error, if any.
\<close>

definition nginx_payload :: "string \<Rightarrow> string \<Rightarrow> string \<Rightarrow> (string \<times> string) list \<Rightarrow> (string \<times> string) list" where
  "nginx_payload mappedPath remoteNode remoteBaseUrl extraArgs = fold (\<lambda>(k, v). AList.update k v) extraArgs
     [(''remote_node'', remoteNode), (''url'', remoteBaseUrl @ mappedPath)]"

definition RegisterNginxFrp ::
  "(string \<Rightarrow> (string \<times> string) list \<Rightarrow> string + int \<times> string) \<Rightarrow> string \<Rightarrow> string \<Rightarrow> string \<Rightarrow> (string \<times> string) list \<Rightarrow>
     Server \<Rightarrow> string option" where
  "RegisterNginxFrp post mappedPath remoteNode remoteBaseUrl extraArgs s =
     (case post (''http://127.0.0.1:'' @ svPort s @ ''/majula/map/start'')
         (nginx_payload mappedPath remoteNode remoteBaseUrl extraArgs) of
       Inl e \<Rightarrow> Some (''HTTP request failed: '' @ e)
     | Inr (status, body) \<Rightarrow> if status \<noteq> 200 then Some (''FRP registration failed: '' @ body) else None)"

definition RemoveNginxFrp ::
  "(string \<Rightarrow> (string \<times> string) list \<Rightarrow> string + int \<times> string) \<Rightarrow> string \<Rightarrow> string \<Rightarrow> string \<Rightarrow> (string \<times> string) list \<Rightarrow>
     Server \<Rightarrow> string option" where
  "RemoveNginxFrp post mappedPath remoteNode remoteBaseUrl extraArgs s =
     (case post (''http://127.0.0.1:'' @ svPort s @ ''/majula/map/stop'')
         (nginx_payload mappedPath remoteNode remoteBaseUrl extraArgs) of
       Inl e \<Rightarrow> Some (''HTTP request failed: '' @ e)
     | Inr (status, body) \<Rightarrow> if status \<noteq> 200 then Some (''FRP removal failed: '' @ body) else None)"

definition ListNginxFrp :: "(string \<Rightarrow> string + string) \<Rightarrow> (string \<Rightarrow> string + 'a) \<Rightarrow> Server \<Rightarrow> string + 'a" where
  "ListNginxFrp get unmarshal s = (case get (''http://127.0.0.1:'' @ svPort s @ ''/majula/map/list'') of
       Inl e \<Rightarrow> Inl (''HTTP request failed: '' @ e)
     | Inr body \<Rightarrow> (case unmarshal body of Inl e \<Rightarrow> Inl (''response parse failed: '' @ e) | Inr r \<Rightarrow> Inr r))"

text \<open>The packages of a WebSocket client for these (core/MajulaServer.go): what the function is called with.\<close>

definition nginx_package ::
  "(string \<Rightarrow> (string \<times> string) list option) \<Rightarrow> MajulaPackage \<Rightarrow> (string \<times> string \<times> string \<times> (string \<times> string) list) option" where
  "nginx_package unmarshal pkg = (case str_param (pkArgs pkg) ''extra_args'' of
       None \<Rightarrow> None
     | Some raw \<Rightarrow> (case unmarshal raw of
         None \<Rightarrow> None
       | Some extraArgs \<Rightarrow> (case (str_param (pkArgs pkg) ''mapped_path'', str_param (pkArgs pkg) ''remote_node'',
             str_param (pkArgs pkg) ''remote_url'') of
           (Some mappedAddr, Some remoteNode, Some hostAddr) \<Rightarrow> Some (mappedAddr, remoteNode, hostAddr, extraArgs)
         | _ \<Rightarrow> None)))"

definition handleRegisterNginxFRPAndRunPackage where
  "handleRegisterNginxFRPAndRunPackage unmarshal post pkg s = (case nginx_package unmarshal pkg of
       None \<Rightarrow> None
     | Some (mappedAddr, remoteNode, hostAddr, extraArgs) \<Rightarrow> RegisterNginxFrp post mappedAddr remoteNode hostAddr extraArgs s)"

definition handleUnregisterNginxFRPPackage where
  "handleUnregisterNginxFRPPackage unmarshal post pkg s = (case nginx_package unmarshal pkg of
       None \<Rightarrow> None
     | Some (mappedAddr, remoteNode, hostAddr, extraArgs) \<Rightarrow> RemoveNginxFrp post mappedAddr remoteNode hostAddr extraArgs s)"

section \<open>Which proxy is found\<close>

lemma best_fold:
  assumes "fold (best_step query) xs (None, -1) = (r, k)"
  shows "(r = None \<longrightarrow> k = -1 \<and> (\<forall>x \<in> set xs. \<not> args_match query (hpArgs x))) \<and>
    (\<forall>st. r = Some st \<longrightarrow> st \<in> set xs \<and> args_match query (hpArgs st) \<and> k = int (length (hpArgs st)) \<and>
      (\<forall>x \<in> set xs. args_match query (hpArgs x) \<longrightarrow> length (hpArgs x) \<le> length (hpArgs st)))"
  using assms
proof (induction xs arbitrary: r k rule: rev_induct)
  case (snoc x xs)
  obtain r1 k1 where f: "fold (best_step query) xs (None, -1) = (r1, k1)" by fastforce
  have e: "args_match query []" by (simp add: args_match_def)
  have step: "(r, k) = best_step query x (r1, k1)" using snoc.prems f by simp
  show ?case
  proof (cases r1)
    case None
    then have k1: "k1 = -1" and n: "\<forall>y \<in> set xs. \<not> args_match query (hpArgs y)" using snoc.IH [OF f] by auto
    show ?thesis
    proof (cases "args_match query (hpArgs x)")
      case True
      then have "(r, k) = (Some x, int (length (hpArgs x)))" using step by (auto simp: best_step_def k1)
      then show ?thesis using True n by auto
    next
      case False
      then have "hpArgs x \<noteq> []" using e by metis
      with False step have "(r, k) = (None, -1)" by (simp add: best_step_def k1 None)
      then show ?thesis using False n by auto
    qed
  next
    case (Some st)
    then have st: "st \<in> set xs" "args_match query (hpArgs st)" "k1 = int (length (hpArgs st))"
      "\<forall>y \<in> set xs. args_match query (hpArgs y) \<longrightarrow> length (hpArgs y) \<le> length (hpArgs st)"
      using snoc.IH [OF f] by auto
    show ?thesis
    proof (cases "args_match query (hpArgs x) \<and> length (hpArgs st) < length (hpArgs x)")
      case True
      then have "(r, k) = (Some x, int (length (hpArgs x)))" using step st(3) by (auto simp: best_step_def)
      then show ?thesis using True st by (auto intro: order_trans less_imp_le)
    next
      case False
      then have "(r, k) = (Some st, k1)" using step st(3) Some e by (auto simp: best_step_def)
      then show ?thesis using False st by auto
    qed
  qed
qed simp

lemma find_first:
  assumes "xs = before @ p # after" and "\<forall>q \<in> set before. \<not> P q" and "P p"
  shows "find P xs = Some p"
  using assms by (induction before arbitrary: xs) auto


text \<open>
  Adding a mapping for a path and removing it again does not restore the table: requests below that path are
  no longer mapped at all, also those that a mapping of a shorter prefix served before.
\<close>

theorem removed_proxy_hides_shorter:
  assumes "hpMappedAddr t = p" and "map_of ps p = None" and "path_prefixes path = before @ p # after"
    and "\<forall>q \<in> set before. map_of ps q = None"
  shows "\<exists>ps1 ps2. AddHttpProxy t ps = (True, ps1) \<and> RemoveHttpProxy t ps1 = (Some t, ps2) \<and>
    (args_match query (hpArgs t) \<longrightarrow> FindHttpProxy path query ps1 = Some t) \<and> FindHttpProxy path query ps2 = None"
proof -
  let ?ps1 = "AList.update p [(SubKey t, t)] ps"
  let ?ps2 = "AList.update p [] ?ps1"
  have 1: "AddHttpProxy t ps = (True, ?ps1)" using assms(1,2) by (simp add: AddHttpProxy_def proxies_at_def Let_def)
  have 2: "RemoveHttpProxy t ?ps1 = (Some t, ?ps2)" using assms(1) by (simp add: RemoveHttpProxy_def)
  have f: "find (\<lambda>q. map_of (AList.update p r ps') q \<noteq> None) (path_prefixes path) = Some p"
    if "\<forall>q. q \<noteq> p \<longrightarrow> map_of ps' q = map_of ps q" for r :: "(string \<times> HTTPProxyDefine) list" and ps'
  proof (cases "p \<in> set before")
    case False
    show ?thesis by (rule find_first [OF assms(3)]) (use False that assms(4) in auto)
  next
    case True
    then obtain b1 b2 where b: "before = b1 @ p # b2" "p \<notin> set b1" by (meson split_list_first)
    show ?thesis
      by (rule find_first [of _ b1 p "b2 @ p # after"]) (use b that assms(3,4) in auto)
  qed
  have 3: "FindHttpProxy path query ?ps1 = Some t" if "args_match query (hpArgs t)"
    using f [of ps "[(SubKey t, t)]"] that by (simp add: FindHttpProxy_def proxies_at_def best_step_def)
  have 4: "FindHttpProxy path query ?ps2 = None"
    using f [of ?ps1 "[]"] by (simp add: FindHttpProxy_def proxies_at_def)
  show ?thesis using 1 2 3 4 by blast
qed

text \<open>
  A mapping that has any value for an argument, or all but one, matches as it says; but the request then goes
  on with the pattern in place of the value that the client sent.
\<close>

theorem pattern_replaces_argument:
  assumes "FindHttpProxy path (\<lambda>k. case map_of query k of None \<Rightarrow> [] | Some v \<Rightarrow> v) ps = Some hpd"
    and "distinct (map fst (hpArgs hpd))" and "map_of (hpArgs hpd) k = Some pattern"
  shows "\<exists>q. ReverseProxy path query ps = Some (hpSchema hpd, hpLocalAddr hpd, q) \<and> map_of q k = Some pattern"
proof -
  have "map_of (fold (\<lambda>(k, v). AList.update k v) as q) k = (case map_of (rev as) k of None \<Rightarrow> map_of q k | Some v \<Rightarrow> Some v)"
    for as :: "(string \<times> string) list" and q
    by (induction as arbitrary: q) (auto simp: map_add_def split: option.splits)
  moreover have "map_of (rev (hpArgs hpd)) k = Some pattern"
    using assms(2,3) by (metis distinct_rev map_of_eq_Some_iff rev_map set_rev)
  ultimately show ?thesis by (simp add: ReverseProxy_def assms(1))
qed

definition ex_proxy :: "string \<Rightarrow> (string \<times> string) list \<Rightarrow> HTTPProxyDefine" where
  "ex_proxy path args = \<lparr>hpSchema = ''http'', hpHostAddr = ''h:80'', hpLocalAddr = ''127.0.0.1:30001'', hpMappedAddr = path,
     hpArgs = args\<rparr>"

definition ex_proxies :: proxies where
  "ex_proxies = [(''/a'', [([], ex_proxy ''/a'' []), (''v='', ex_proxy ''/a'' [(''v'', [])])])]"

lemma ex_prefixes: "path_prefixes ''/a/b'' = [''/a/b'', ''/a'', []]"
  by (simp add: path_prefixes_def Let_def upt_rec)


theorem removed_proxy_hides_shorter_witness:
  "\<exists>ps2. RemoveHttpProxy (ex_proxy ''/a/b'' []) (snd (AddHttpProxy (ex_proxy ''/a/b'' []) ex_proxies)) =
      (Some (ex_proxy ''/a/b'' []), ps2) \<and> FindHttpProxy ''/a/b'' (\<lambda>_. []) ps2 = None \<and>
    FindHttpProxy ''/a/b'' (\<lambda>_. []) ex_proxies \<noteq> None"
proof -
  have "hpMappedAddr (ex_proxy ''/a/b'' []) = ''/a/b''" "map_of ex_proxies ''/a/b'' = None"
    "path_prefixes ''/a/b'' = [] @ ''/a/b'' # [''/a'', []]" "\<forall>q \<in> set []. map_of ex_proxies q = None"
    by (simp_all add: ex_proxy_def ex_proxies_def ex_prefixes)
  from removed_proxy_hides_shorter [OF this, of "\<lambda>_. []"]
  obtain ps1 ps2 where "AddHttpProxy (ex_proxy ''/a/b'' []) ex_proxies = (True, ps1)"
    "RemoveHttpProxy (ex_proxy ''/a/b'' []) ps1 = (Some (ex_proxy ''/a/b'' []), ps2)"
    "FindHttpProxy ''/a/b'' (\<lambda>_. []) ps2 = None" by blast
  moreover have "FindHttpProxy ''/a/b'' (\<lambda>_. []) ex_proxies \<noteq> None"
    by (simp add: FindHttpProxy_def ex_prefixes ex_proxies_def proxies_at_def best_step_def args_match_def ex_proxy_def)
  ultimately show ?thesis by simp
qed

theorem pattern_replaces_argument_witness:
  "\<exists>q. ReverseProxy ''/a'' [(''v'', ''x'')] ex_proxies = Some (''http'', ''127.0.0.1:30001'', q) \<and> map_of q ''v'' = Some []"
proof -
  have "path_prefixes ''/a'' = [''/a'', []]" by (simp add: path_prefixes_def Let_def upt_rec)
  then have "FindHttpProxy ''/a'' (\<lambda>k. case map_of [(''v'', ''x'')] k of None \<Rightarrow> [] | Some v \<Rightarrow> v) ex_proxies =
      Some (ex_proxy ''/a'' [(''v'', [])])"
    by (simp add: FindHttpProxy_def ex_proxies_def proxies_at_def best_step_def args_match_def ex_proxy_def)
  moreover have "distinct (map fst (hpArgs (ex_proxy ''/a'' [(''v'', [])])))"
    "map_of (hpArgs (ex_proxy ''/a'' [(''v'', [])])) ''v'' = Some []" by (simp_all add: ex_proxy_def)
  ultimately have "\<exists>q. ReverseProxy ''/a'' [(''v'', ''x'')] ex_proxies = Some (hpSchema (ex_proxy ''/a'' [(''v'', [])]),
      hpLocalAddr (ex_proxy ''/a'' [(''v'', [])]), q) \<and> map_of q ''v'' = Some []"
    by (rule pattern_replaces_argument)
  then show ?thesis by (simp add: ex_proxy_def)
qed

end
