(* ===== verification/Web_Session.thy ===== *)
theory Web_Session
  imports Web_Proxy
begin

text \<open>
  What the web server guarantees and what it does not: its registry and its pending calls, a subscription and a
  call from end to end between the node, the server and the client library, and clients that lose their
  connection to another one.
\<close>

section \<open>The state of a server\<close>

text \<open>
  What a server goes through. A write to a connection is a step of its own, because the packages of all
  clients and the callbacks run concurrently.
\<close>

inductive sv_reach :: "Server \<Rightarrow> bool" where
  sv_new: "sv_reach (NewServer wport)"
| sv_id: "sv_reach s \<Longrightarrow> sv_reach (snd (client_id target s))"
| sv_attach: "sv_reach s \<Longrightarrow> 0 < cap \<Longrightarrow> attach clientID cap ws s (n :: unit Node) = (a, s1, n1) \<Longrightarrow> sv_reach s1"
| sv_detach: "sv_reach s \<Longrightarrow> detach clientID s (n :: unit Node) = (s1, n1, os) \<Longrightarrow> sv_reach s1"
| sv_end: "sv_reach s \<Longrightarrow> sv_readLoop_end a s (n :: unit Node) = (s1, n1, os) \<Longrightarrow> sv_reach s1"
| sv_push: "sv_reach s \<Longrightarrow> push pkg a s = Put s1 \<Longrightarrow> sv_reach s1"
| sv_write: "sv_reach s \<Longrightarrow> sv_writeLoop_round e ok a s = Some (b, s1, out1) \<Longrightarrow> sv_reach s1"
| sv_call: "sv_reach s \<Longrightarrow> rpc_callback_begin fun ps from1 origin s = (i, ch, s1, pkg) \<Longrightarrow> sv_reach s1"
| sv_finish: "sv_reach s \<Longrightarrow> rpc_callback_finish timeout i ch s = Some (v, s1) \<Longrightarrow> sv_reach s1"
| sv_result: "sv_reach s \<Longrightarrow> handleReturnResultPackage pkg s = Put s1 \<Longrightarrow> sv_reach s1"
| sv_shutdown: "sv_reach s \<Longrightarrow> Shutdown s = Some s1 \<Longrightarrow> sv_reach s1"

definition pending_chans :: "Server \<Rightarrow> (int \<times> nat) list" where
  "pending_chans s = map (\<lambda>(i, e). (i, peChan e)) (pendingRpc s)"

definition conns_ok :: "ClientConnection list \<Rightarrow> bool" where
  "conns_ok h \<longleftrightarrow> (\<forall>c \<in> set h. length (SendCh c) \<le> SendCap c)"

definition clients_ok :: "(string \<times> nat) list \<Rightarrow> string list \<Rightarrow> bool" where
  "clients_ok cs ids \<longleftrightarrow> (\<forall>(i, a) \<in> set cs. a < length ids \<and> ids ! a = i)"

definition sv_wf :: "Server \<Rightarrow> bool" where
  "sv_wf s \<longleftrightarrow> clients_ok (svClients s) (map ccID (connHeap s)) \<and> conns_ok (connHeap s) \<and>
     calls_wf (pending_chans s) (svChans s)"

lemma pending_delete: "map (\<lambda>(i, e). (i, peChan e)) (AList.delete k al) = AList.delete k (map (\<lambda>(i, e). (i, peChan e)) al)"
  by (induction al) auto

lemma pending_update:
  "map (\<lambda>(i, e). (i, peChan e)) (AList.update k x al) = AList.update k (peChan x) (map (\<lambda>(i, e). (i, peChan e)) al)"
  by (induction al) auto

lemma pending_map_of: "map_of (pending_chans s) i = map_option peChan (map_of (pendingRpc s) i)"
  by (simp add: pending_chans_def map_of_map_rows)

lemma clients_ok_update: "clients_ok cs ids \<Longrightarrow> clients_ok (AList.update i (length ids) cs) (ids @ [i])"
  using set_update_subset [of i "length ids" cs] by (fastforce simp: clients_ok_def nth_append)

lemma clients_ok_delete: "clients_ok cs ids \<Longrightarrow> clients_ok (AList.delete i cs) ids"
  using set_delete [of i cs] by (auto simp: clients_ok_def)

lemma at_conn_simps [simp]:
  "svClients (at_conn a f s) = svClients s" "pending_chans (at_conn a f s) = pending_chans s"
  "svChans (at_conn a f s) = svChans s" "pendingRpc (at_conn a f s) = pendingRpc s"
  by (simp_all add: at_conn_def pending_chans_def)

lemma at_conn_ids:
  "(\<And>c. ccID (f c) = ccID c) \<Longrightarrow> map ccID (connHeap (at_conn a f s)) = map ccID (connHeap s)"
  by (cases "a < length (connHeap s)") (simp_all add: at_conn_def map_update list_update_beyond list_update_same_conv)

lemma at_conn_ok:
  assumes "conns_ok (connHeap s)"
    and "a < length (connHeap s) \<Longrightarrow> length (SendCh (f (connHeap s ! a))) \<le> SendCap (f (connHeap s ! a))"
  shows "conns_ok (connHeap (at_conn a f s))"
proof (cases "a < length (connHeap s)")
  case True
  with assms show ?thesis unfolding conns_ok_def at_conn_def by (auto dest!: subsetD [OF set_update_subset_insert])
next
  case False
  with assms(1) show ?thesis by (simp add: at_conn_def list_update_beyond)
qed

lemma at_conn_wf:
  assumes "sv_wf s" and "\<And>c. ccID (f c) = ccID c"
    and "length (SendCh (connHeap s ! a)) \<le> SendCap (connHeap s ! a) \<Longrightarrow>
      length (SendCh (f (connHeap s ! a))) \<le> SendCap (f (connHeap s ! a))"
  shows "sv_wf (at_conn a f s)"
proof -
  have "conns_ok (connHeap (at_conn a f s))"
    using assms(1,3) by (intro at_conn_ok) (auto simp: sv_wf_def conns_ok_def)
  then show ?thesis using assms(1,2) by (simp add: sv_wf_def at_conn_ids)
qed

lemma shutdown_wf:
  assumes "Shutdown s = Some s1" and "sv_wf s"
  shows "sv_wf s1"
proof -
  let ?f = "\<lambda>(_, a) s. if \<not> ccWs (connHeap s ! a) then None
     else Some (at_conn a (\<lambda>c. c\<lparr>ccCancelled := True, SendClosed := True\<rparr>) s)"
  from assms(1) obtain s2 where f: "foldM ?f (svClients s) s = Some s2" and s1: "s1 = s2\<lparr>svClients := []\<rparr>"
    by (auto simp: Shutdown_def)
  have "sv_wf s2"
    by (rule foldM_invariant [OF f, of sv_wf]) (auto simp: assms(2) split: if_splits intro!: at_conn_wf)
  then show ?thesis by (simp add: s1 sv_wf_def clients_ok_def pending_chans_def)
qed

lemma sv_reach_wf: "sv_reach s \<Longrightarrow> sv_wf s"
proof (induction rule: sv_reach.induct)
  case (sv_new wport)
  show ?case by (simp add: NewServer_def sv_wf_def clients_ok_def conns_ok_def calls_wf_def pending_chans_def)
next
  case (sv_id s target)
  then show ?case by (simp add: client_id_def generateClientID_def sv_wf_def pending_chans_def Let_def)
next
  case (sv_attach s cap clientID ws n a s1 n1)
  then show ?case
    using clients_ok_update [of "svClients s" "map ccID (connHeap s)" clientID]
    by (auto simp: attach_def sv_wf_def pending_chans_def conns_ok_def Let_def)
next
  case (sv_detach s clientID n s1 n1 os)
  then show ?case by (auto simp: detach_def sv_wf_def pending_chans_def clients_ok_delete)
next
  case (sv_end s a n s1 n1 os)
  then have "s1 = at_conn a (\<lambda>c. c\<lparr>ccCancelled := True\<rparr>) (s\<lparr>svClients := AList.delete (ccID (connHeap s ! a)) (svClients s)\<rparr>)"
    by (auto simp: sv_readLoop_end_def detach_def split: prod.splits)
  moreover have "sv_wf (s\<lparr>svClients := AList.delete (ccID (connHeap s ! a)) (svClients s)\<rparr>)"
    using sv_end by (simp add: sv_wf_def clients_ok_delete pending_chans_def)
  ultimately show ?case by (auto intro!: at_conn_wf)
next
  case (sv_push s pkg a s1)
  then show ?case by (auto simp: push_def split: if_splits intro!: at_conn_wf)
next
  case (sv_write s e ok a b s1 out1)
  have "sv_wf (at_conn a (\<lambda>c. c\<lparr>SendCh := rest\<rparr>) s)" if "SendCh (connHeap s ! a) = m # rest" for m rest
    using that by (intro at_conn_wf [OF sv_write.IH]) auto
  then show ?case using sv_write
    by (auto simp: sv_writeLoop_round_def Let_def split: if_splits list.splits intro!: at_conn_wf)
next
  case (sv_call s f ps from1 origin i ch s1 pkg)
  then show ?case
    using calls_wf_new [of "pending_chans s" "svChans s"]
    by (auto simp: rpc_callback_begin_def nextLocalInvokeId_def sv_wf_def pending_chans_def pending_update Let_def)
next
  case (sv_finish s timeout i ch v s1)
  then show ?case
    using calls_wf_delete [of "pending_chans s" "svChans s"]
    by (auto simp: rpc_callback_finish_def sv_wf_def pending_chans_def pending_delete Let_def split: if_splits)
next
  case (sv_result s pkg s1)
  show ?case
  proof (cases "map_of (pendingRpc s) (pkInvokeId pkg)")
    case None
    with sv_result show ?thesis by (simp add: handleReturnResultPackage_def)
  next
    case (Some e)
    have "calls_wf (pending_chans s) (svChans s)" "map_of (pending_chans s) (pkInvokeId pkg) = Some (peChan e)"
      using sv_result Some by (simp_all add: sv_wf_def pending_map_of)
    from calls_wf_deliver [OF this] Some sv_result show ?thesis
      by (auto simp: handleReturnResultPackage_def sv_wf_def pending_chans_def pending_delete Let_def split: if_splits)
  qed
next
  case (sv_shutdown s s1)
  then show ?case using shutdown_wf by blast
qed

lemma server_state_results:
  assumes "sv_reach s" and m: "map_of (pendingRpc s) i = Some e" and i: "pkInvokeId pkg = i"
  shows "rpc_callback_finish False i (peChan e) s = None \<and>
      (\<exists>s1 s2. handleReturnResultPackage pkg s = Put s1 \<and>
        rpc_callback_finish False i (peChan e) s1 = Some (pkResult pkg, s2) \<and>
        (\<forall>pkg'. pkInvokeId pkg' = i \<longrightarrow> handleReturnResultPackage pkg' s1 = Put s1))"
proof -
  have "calls_wf (pending_chans s) (svChans s)" "map_of (pending_chans s) i = Some (peChan e)"
    using sv_reach_wf [OF assms(1)] m by (simp_all add: sv_wf_def pending_map_of del: map_of_eq_Some_iff)
  then have c: "peChan e < length (svChans s)" "svChans s ! peChan e = None" using calls_wf_D by blast+
  let ?s1 = "s\<lparr>pendingRpc := AList.delete i (pendingRpc s), svChans := (svChans s)[peChan e := Some (pkResult pkg)]\<rparr>"
  have "handleReturnResultPackage pkg s = Put ?s1" using m i c by (simp add: handleReturnResultPackage_def Let_def)
  moreover have "\<exists>s2. rpc_callback_finish False i (peChan e) ?s1 = Some (pkResult pkg, s2)"
    using c by (simp add: rpc_callback_finish_def)
  moreover have "handleReturnResultPackage pkg' ?s1 = Put ?s1" if "pkInvokeId pkg' = i" for pkg'
    using that by (simp add: handleReturnResultPackage_def)
  ultimately show ?thesis using c by (auto simp: rpc_callback_finish_def)
qed


section \<open>A subscription and a call, end to end\<close>

lemma addLocalSub_row:
  "map_of (row_of (MySubs (fst (addLocalSub t c cb n))) t) c = Some cb" "nID (fst (addLocalSub t c cb n)) = nID n"
  by (auto simp: addLocalSub_def row_of_def stamp_def addMessageCounter_def Let_def split: option.split)

lemma publish_calls_subs:
  "set (call_subs t (nID n) msg n) \<subseteq> set (snd (publishOnTopic ord t msg n))"
  by (auto simp: publishOnTopic_def Let_def apsnd_def map_prod_def split: option.split prod.split)

text \<open>
  C31: A client of the library that subscribes to a topic gets what the node publishes on it: the package it queues
  makes the server subscribe, publishing calls the callback of the server, and what this sends makes the
  client call the function it subscribed with, with the arguments that were published.
\<close>

theorem subscription_reaches_client:
  assumes "cl_Subscribe t h c = Some c1" and "t \<noteq> []" and "t \<noteq> ''__private__''"
    and "a < length (connHeap s)" and "\<not> SendClosed (connHeap s ! a)" and "length (SendCh (connHeap s ! a)) < SendCap (connHeap s ! a)"
    and "unmarshal content = Some args"
  shows "\<exists>pkg n1 os s1 p. SendQueue c1 = SendQueue c @ [pkg] \<and> handlePackage pkg = Some H_Subscribe \<and>
    handleSubscribePackage a pkg s n = (n1, os) \<and>
    CallSub (ws_sub a) t (nID n) (nID n) content \<in> set (snd (publishOnTopic ord t content n1)) \<and>
    ws_sub_callback unmarshal a t content s = Put s1 \<and> SendCh (connHeap s1 ! a) = SendCh (connHeap s ! a) @ [p] \<and>
    cl_handleMessage p c1 = (c1, [CallSubHandler h t args])"
proof -
  let ?pkg = "(package ''SUBSCRIBE'')\<lparr>pkTopic := t\<rparr>"
  let ?p = "(package ''SUB_RESULT'')\<lparr>pkTopic := t, pkArgs := args\<rparr>"
  let ?i = "ccID (connHeap s ! a)"
  obtain n1 os where h: "handleSubscribePackage a ?pkg s n = (n1, os)" by fastforce
  then have n1: "n1 = fst (addLocalSub t ?i (ws_sub a) n)"
    using assms(2) by (auto simp: handleSubscribePackage_def package_def)
  have "(?i, ws_sub a) \<in> set (row_of (MySubs n1) t)"
    using addLocalSub_row(1) [of t ?i "ws_sub a" n] n1 by (auto dest: map_of_SomeD)
  then have "CallSub (ws_sub a) t (nID n) (nID n) content \<in> set (call_subs t (nID n1) content n1)"
    using addLocalSub_row(2) [of t ?i "ws_sub a" n] n1 by (force simp: call_subs_def)
  then have 1: "CallSub (ws_sub a) t (nID n) (nID n) content \<in> set (snd (publishOnTopic ord t content n1))"
    using publish_calls_subs by blast
  have 2: "ws_sub_callback unmarshal a t content s = Put (at_conn a (\<lambda>c. c\<lparr>SendCh := SendCh c @ [?p]\<rparr>) s)"
    using assms by (simp add: ws_sub_callback_def push_def)
  have 3: "SendCh (connHeap (at_conn a (\<lambda>c. c\<lparr>SendCh := SendCh c @ [?p]\<rparr>) s) ! a) = SendCh (connHeap s ! a) @ [?p]"
    using assms(4) by (simp add: at_conn_def)
  have c1: "SendQueue c1 = SendQueue c @ [?pkg]" "map_of (wrSubFuncs c1) t = Some h"
    using assms(1) by (auto simp: cl_Subscribe_def cl_Send_def split: if_splits)
  have 4: "cl_handleMessage ?p c1 = (c1, [CallSubHandler h t args])"
    using c1(2) by (simp add: cl_handleMessage_def package_def is_response_def)
  have 5: "handlePackage ?pkg = Some H_Subscribe" by (simp add: handlePackage_def package_methods_def package_def)
  show ?thesis using c1(1) 5 h 1 2 3 4 by blast
qed


section \<open>What goes wrong\<close>

text \<open>
  A client that connects again under its id while its old connection is still there loses the new one when the
  old one ends: the registry and the node forget the client and its subscriptions, and what is sent to it from
  then on is dropped without an error, although the new connection is open.
\<close>

theorem reconnected_client_is_forgotten:
  assumes "i \<noteq> []" and "i \<noteq> ''/''" and "distinct (map fst (RpcFuncs n))"
    and "handleWS i s n = (a1, s1, n1)" and "handleWS i s1 n1 = (a2, s2, n2)" and "sv_readLoop_end a1 s2 n2 = (s3, n3, os)"
  shows "a2 \<noteq> a1 \<and> map_of (svClients s2) i = Some a2 \<and> \<not> ccCancelled (connHeap s3 ! a2) \<and>
    map_of (svClients s3) i = None \<and> i \<notin> set (ClientIDs n3) \<and> (\<forall>t. sub_of n3 t i = None) \<and>
    SendToClient i pkg s3 = Some (None, s3)"
proof -
  let ?new = "\<lambda>i. \<lparr>ccID = i, ccWs = True, SendCh = [], SendCap = 256, SendClosed = False, ccCancelled = False\<rparr>"
  have 1: "a1 = length (connHeap s)" "s1 = s\<lparr>connHeap := connHeap s @ [?new i], svClients := AList.update i a1 (svClients s)\<rparr>"
    "n1 = AddClient i n"
    using assms(1,2,4) by (auto simp: handleWS_def client_id_def attach_def Let_def)
  have 2: "a2 = Suc (length (connHeap s))" "n2 = AddClient i n1"
    "s2 = s\<lparr>connHeap := connHeap s @ [?new i, ?new i], svClients := AList.update i a2 (AList.update i a1 (svClients s))\<rparr>"
    using assms(1,2,5) by (auto simp: handleWS_def client_id_def attach_def Let_def 1)
  have id: "ccID (connHeap s2 ! a1) = i" by (simp add: 2 1 nth_append)
  have n2: "RpcFuncs n2 = RpcFuncs n" by (simp add: 1 2 AddClient_def)
  have "s3 = at_conn a1 (\<lambda>c. c\<lparr>ccCancelled := True\<rparr>) (s2\<lparr>svClients := AList.delete i (svClients s2)\<rparr>)"
    and n3: "n3 = fst (RemoveClient i n2)"
    using assms(6) by (auto simp: sv_readLoop_end_def detach_def id split: prod.splits)
  moreover have "i \<notin> set (ClientIDs n3)" "\<forall>t. sub_of n3 t i = None"
    using assms(3) n2 RemoveClient_clears [of n2 i] by (simp_all add: n3)
  ultimately show ?thesis by (simp add: 1 2 at_conn_def nth_append SendToClient_def)
qed

text \<open>
  Publishing over HTTP under the id of a connected client takes the id away from that client: two seconds later
  the registry and the node have forgotten it, its subscriptions and its functions, while its connection is open.
\<close>

theorem http_publish_evicts_client:
  assumes "map_of (svClients s) i = Some a" and "a < length (connHeap s)" and "i \<noteq> []" and "i \<noteq> ''/''"
    and "handlePublish ord i ps s n = (Reply 200 r, s1, n1, os)" and "detach i s1 n1 = (s2, n2, os2)"
    and "distinct (map fst (RpcFuncs n1))"
  shows "map_of (svClients s1) i \<noteq> Some a \<and> SendToClient i pkg s2 = Some (None, s2) \<and> connHeap s2 ! a = connHeap s ! a \<and>
    sub_of n2 t i = None \<and> func_of n2 f i = None"
proof -
  have n2: "n2 = fst (RemoveClient i n1)" and s2: "s2 = s1\<lparr>svClients := AList.delete i (svClients s1)\<rparr>"
    using assms(6) by (auto simp: detach_def)
  have "svClients s1 = AList.update i (length (connHeap s)) (svClients s)" "connHeap s1 ! a = connHeap s ! a"
    using assms(2-5)
    by (auto simp: handlePublish_def temp_client_def client_id_def attach_def bad_request_def Let_def nth_append
        split: if_splits prod.splits)
  then show ?thesis using assms(2) RemoveClient_clears [OF assms(7), of i] by (simp add: n2 s2 SendToClient_def)
qed

text \<open>
  Unregistering a function does not: the server cancels a subscription of that name instead. The node keeps
  offering the function, and the client does not answer calls of it any more.
\<close>

theorem unregistered_function_stays:
  assumes "UnregisterRpc f c = Some c1" and "handleRPCUnregisterPackage a (last (SendQueue c1)) s n = (n1, os)"
    and "pkMethod call = ''RPC_CALL_FROM_REMOTE''" and "pkFun call = f"
  shows "handlePackage (last (SendQueue c1)) = Some H_RPCUnregister \<and> RpcFuncs n1 = RpcFuncs n \<and>
    sub_of n1 f (ccID (connHeap s ! a)) = None \<and> cl_handleMessage call c1 = (c1, [])"
proof -
  have c1: "last (SendQueue c1) = (package ''UNREGISTER_RPC'')\<lparr>pkFun := f\<rparr>" "map_of (wrRpcFuncs c1) f = None"
    using assms(1) by (auto simp: UnregisterRpc_def cl_Send_def split: if_splits)
  have n1: "n1 = fst (removeLocalSub f (ccID (connHeap s ! a)) n)"
    using assms(2) by (simp add: handleRPCUnregisterPackage_def c1(1))
  have "sub_of n1 f (ccID (connHeap s ! a)) = None" unfolding n1 by (simp add: sub_of_remove)
  then show ?thesis
    using c1 assms(3,4) by (simp add: n1 handlePackage_def package_methods_def package_def cl_handleMessage_def)
qed

text \<open>
  Registering a forwarding by its local address has no effect: the server hands the package to the handler of
  registrations with a code, which ignores it, as it has none.
\<close>

theorem addr_registration_ignored:
  assumes "RegisterFRPWithAddr localAddr remoteNode remoteAddr c = Some c1"
  shows "handlePackage (last (SendQueue c1)) = Some H_FRPRegister \<and> handleFRPRegisterPackage (last (SendQueue c1)) sm = sm"
proof -
  have "last (SendQueue c1) = (package ''REGISTER_FRP_WITH_ADDR'')\<lparr>pkArgs :=
     [(''local_addr'', GStr localAddr), (''remote_node'', GStr remoteNode), (''remote_addr'', GStr remoteAddr)]\<rparr>"
    using assms by (auto simp: RegisterFRPWithAddr_def cl_Send_def split: if_splits)
  then show ?thesis
    by (simp add: handlePackage_def package_methods_def package_def handleFRPRegisterPackage_def str_param_def)
qed

text \<open>
  Any client can crash the node: joining an election with a negative overtime is accepted, and the first
  round of the candidate's loop then panics.
\<close>

theorem negative_overtime_panics:
  assumes "handleElectJoin hb gu ps em n = (Reply 200 r, em1, n1, os)" and "num_param ps ''base_overtime_t'' < 0"
    and "0 \<le> now"
  shows "\<exists>ec. GetCandidate (text_or_empty ps ''group'') em1 = Some ec \<and> mainLoop_tick marshal ord r1 r2 now ec m = None"
proof -
  let ?g = "text_or_empty ps ''group''"
  let ?t = "num_param ps ''base_overtime_t''"
  have t: "overtime_param ps = ?t" using assms(2) by (simp add: overtime_param_def Let_def)
  have "?g \<noteq> []" using assms(1) by (auto simp: handleElectJoin_def missing_reply_def bad_request_def Let_def)
  moreover obtain em2 ec where j: "join_election hb gu ?g ?t em n = (None, em1, n1, os)"
    using assms(1) calculation by (auto simp: handleElectJoin_def t Let_def server_error_def split: prod.splits option.splits)
  ultimately obtain ec where c: "map_of (candidates em1) ?g = Some ec" "BaseOvertimeT ec = ?t" "ecState ec = ElectBusy"
      "waitStandbyTime ec = 0" "\<not> cancelled ec"
    using assms(2)
    by (auto simp: join_election_def CreateCandidate_def elect_Start_def NewElectCandidate_def Let_def
        split: option.splits sum.splits prod.splits if_splits)
  then have "mainLoop_tick marshal ord r1 r2 now ec m = None"
    using assms(2,3) by (simp add: mainLoop_tick_def processState_def processBusyState_def Int63n_def)
  with c(1) show ?thesis by (auto simp: GetCandidate_def)
qed

text \<open>
  A private message between clients of two nodes arrives when the client is one of the first web server of the
  target node; a client of any other web server of that node never gets one.
\<close>

theorem private_message_first_server_only:
  assumes "SendPrivateMessage marshal t i payload c = Some c1" and "handleSendPackage (last (SendQueue c1)) n = (n1, os)"
    and "SendOn ch hop msg \<in> set os" and "nID m = t" and "generateMsgKey msg \<notin> set (ReceivedMsgs m)"
  shows "\<exists>m1. onRecv now msg m = (m1, [ClientPackage i (nID n) (GStr (marshal [(''payload'', GMap payload)]))]) \<and>
    (map_of (svClients s) i = None \<longrightarrow> send_first i (private_package (nID n) v) (s # ss) = Some (s # ss)) \<and>
    (\<forall>a. map_of (svClients s) i = Some a \<longrightarrow> a < length (connHeap s) \<longrightarrow> \<not> SendClosed (connHeap s ! a) \<longrightarrow>
      length (SendCh (connHeap s ! a)) < SendCap (connHeap s ! a) \<longrightarrow>
      (\<exists>s1. send_first i (private_package (nID n) v) (s # ss) = Some (s1 # ss) \<and>
        SendCh (connHeap s1 ! a) = SendCh (connHeap s ! a) @ [private_package (nID n) v]))"
proof -
  let ?content = "GStr (marshal [(''payload'', GMap payload)])"
  have l: "pkArgs (last (SendQueue c1)) = [(''target_node'', GStr t), (''content'', ?content), (''target_client'', GStr i)]"
    using assms(1) by (auto simp: SendPrivateMessage_def cl_Send_def package_def split: if_splits)
  have "handleSendPackage (last (SendQueue c1)) n = sendTo t (p2p_message i ?content n) [] n"
    by (simp add: handleSendPackage_def l str_param_def)
  then have msg: "mType msg = P2PMessage" "mTo msg = t" "mFrom msg = nID n"
    "mData msg = ObjJson [(''target_client'', GStr i), (''payload'', ?content)]"
    using assms(2,3) by (auto simp: sendTo_def stamp_def p2p_message_def Let_def split: option.splits list.splits)
  have "\<exists>m1. onRecv now msg m = (m1, [ClientPackage i (nID n) ?content])"
    using assms(4,5) msg by (auto simp: onRecv_def recv_flood_def recv_local_def isFrp_def recv_p2p_def Let_def)
  then show ?thesis
    by (auto simp: SendToClient_def try_push_def push_def at_conn_def)
qed

text \<open>Shutting the server down panics while a client without a WebSocket is attached.\<close>

theorem shutdown_panics_with_http_client:
  assumes "(i, a) \<in> set (svClients s)" and "\<not> ccWs (connHeap s ! a)"
  shows "Shutdown s = None"
proof -
  let ?f = "\<lambda>(_, a) s. if \<not> ccWs (connHeap s ! a) then None
     else Some (at_conn a (\<lambda>c. c\<lparr>ccCancelled := True, SendClosed := True\<rparr>) s)"
  have "foldM ?f cs s = None" if "(i, a) \<in> set cs" "\<not> ccWs (connHeap s ! a)" for cs s
    using that
  proof (induction cs arbitrary: s)
    case (Cons x cs)
    obtain j b where x: "x = (j, b)" by fastforce
    have k: "ccWs (connHeap (at_conn b (\<lambda>c. c\<lparr>ccCancelled := True, SendClosed := True\<rparr>) s) ! a) = ccWs (connHeap s ! a)"
      by (cases "a < length (connHeap s)"; cases "a = b") (simp_all add: at_conn_def list_update_beyond)
    show ?case
    proof (cases "x = (i, a)")
      case True
      then show ?thesis using Cons.prems by (simp add: x)
    next
      case False
      then show ?thesis using Cons k by (auto simp: x)
    qed
  qed simp
  then show ?thesis using assms by (simp add: Shutdown_def)
qed

section \<open>Witnesses\<close>

text \<open>A server with one WebSocket client \<open>c\<close>, its node, and the client.\<close>

definition ex_conn :: ClientConnection where
  "ex_conn = \<lparr>ccID = ''c'', ccWs = True, SendCh = [], SendCap = 256, SendClosed = False, ccCancelled = False\<rparr>"

definition ex_web :: Server where
  "ex_web = (NewServer ''80'')\<lparr>svClients := [(''c'', 0)], connHeap := [ex_conn]\<rparr>"

definition ex_web_node :: "unit Node" where
  "ex_web_node = NewNode ''n''"

definition ex_web_client :: MajulaClient where
  "ex_web_client = NewMajulaClient ''http://h'' ''c''"

lemma ex_web_attached: "handleWS ''c'' (NewServer ''80'') ex_web_node = (0, ex_web, AddClient ''c'' ex_web_node)"
  by (simp add: handleWS_def client_id_def attach_def ex_web_def ex_conn_def NewServer_def)

lemma ex_web_reach: "sv_reach ex_web"
proof -
  have "attach ''c'' 256 True (NewServer ''80'') ex_web_node = (0, ex_web, AddClient ''c'' ex_web_node)"
    by (simp add: attach_def ex_web_def ex_conn_def NewServer_def)
  then show ?thesis by (intro sv_attach [OF sv_new]) simp_all
qed

lemma ex_web_simps [simp]:
  "connHeap ex_web = [ex_conn]" "svClients ex_web = [(''c'', 0)]" "SendCh ex_conn = []" "SendCap ex_conn = 256"
  "\<not> SendClosed ex_conn" "ccID ex_conn = ''c''" "SendQueue ex_web_client = []"
  by (simp_all add: ex_web_def ex_conn_def ex_web_client_def NewMajulaClient_def)


theorem subscription_reaches_client_witness:
  "\<exists>pkg n1 os. handlePackage pkg = Some H_Subscribe \<and> handleSubscribePackage 0 pkg ex_web ex_web_node = (n1, os) \<and>
     CallSub (ws_sub 0) ''t'' ''n'' ''n'' ''x'' \<in> set (snd (publishOnTopic id ''t'' ''x'' n1))"
proof -
  obtain c1 where c: "cl_Subscribe ''t'' 3 ex_web_client = Some c1" by (simp add: cl_Subscribe_def cl_Send_def)
  have "nID ex_web_node = ''n''" by (simp add: ex_web_node_def NewNode_def)
  with subscription_reaches_client [OF c, of 0 ex_web "\<lambda>_. Some []" "''x''" "[]" ex_web_node id] show ?thesis by auto
qed


theorem reconnected_client_is_forgotten_witness:
  "\<exists>a s2 n2 s3 n3 os. handleWS ''c'' ex_web (AddClient ''c'' ex_web_node) = (a, s2, n2) \<and>
     sv_readLoop_end 0 s2 n2 = (s3, n3, os) \<and> map_of (svClients s3) ''c'' = None \<and> \<not> ccCancelled (connHeap s3 ! a)"
proof -
  obtain a s2 n2 where h: "handleWS ''c'' ex_web (AddClient ''c'' ex_web_node) = (a, s2, n2)" by (metis prod_cases3)
  obtain s3 n3 os where e: "sv_readLoop_end 0 s2 n2 = (s3, n3, os)" by (metis prod_cases3)
  have "distinct (map fst (RpcFuncs ex_web_node))" by (simp add: ex_web_node_def NewNode_def)
  from reconnected_client_is_forgotten [OF _ _ this ex_web_attached h e] h e show ?thesis by auto
qed

theorem http_publish_evicts_client_witness:
  "\<exists>r s1 n1 os s2 n2 os2.
     handlePublish id ''c'' [(''topic'', GStr ''t''), (''msg'', GStr ''x'')] ex_web ex_web_node = (Reply 200 r, s1, n1, os) \<and>
     detach ''c'' s1 n1 = (s2, n2, os2) \<and> SendToClient ''c'' (package ''X'') s2 = Some (None, s2)"
proof -
  let ?ps = "[(''topic'', GStr ''t''), (''msg'', GStr ''x'')]"
  obtain r s1 n1 os where h: "handlePublish id ''c'' ?ps ex_web ex_web_node = (Reply 200 r, s1, n1, os)" and n1: "RpcFuncs n1 = []"
    by (simp add: handlePublish_def text_or_empty_def str_param_def temp_client_def client_id_def attach_def publishOnTopic_def
        AddClient_def ex_web_node_def NewNode_def Let_def call_subs_def)
  obtain s2 n2 os2 where d: "detach ''c'' s1 n1 = (s2, n2, os2)" by (metis prod_cases3)
  have "map_of (svClients ex_web) ''c'' = Some 0" "0 < length (connHeap ex_web)" "distinct (map fst (RpcFuncs n1))"
    by (simp_all add: n1)
  from http_publish_evicts_client [OF this(1,2) _ _ h d this(3)] h d show ?thesis by blast
qed

theorem unregistered_function_stays_witness:
  "\<exists>c1 n1 os. UnregisterRpc ''f'' ex_web_client = Some c1 \<and>
     handleRPCUnregisterPackage 0 (last (SendQueue c1)) ex_web (fst (registerRpcService ''f'' ''c''
       \<lparr>fnNote = [], fnCallback = Some (rpc_cb 0)\<rparr> ex_web_node)) = (n1, os) \<and> func_of n1 ''f'' ''c'' \<noteq> None"
proof -
  let ?n = "fst (registerRpcService ''f'' ''c'' \<lparr>fnNote = [], fnCallback = Some (rpc_cb 0)\<rparr> ex_web_node)"
  obtain c1 where c: "UnregisterRpc ''f'' ex_web_client = Some c1" by (simp add: UnregisterRpc_def cl_Send_def)
  obtain n1 os where h: "handleRPCUnregisterPackage 0 (last (SendQueue c1)) ex_web ?n = (n1, os)" by fastforce
  have "pkMethod ((package ''RPC_CALL_FROM_REMOTE'')\<lparr>pkFun := ''f''\<rparr>) = ''RPC_CALL_FROM_REMOTE''" by (simp add: package_def)
  from unregistered_function_stays [OF c h this] have "RpcFuncs n1 = RpcFuncs ?n" by simp
  then have "func_of n1 ''f'' ''c'' \<noteq> None" by (simp add: func_of_def registerRpcService_def row_of_def)
  with c h show ?thesis by blast
qed

theorem addr_registration_ignored_witness:
  "\<exists>c1. RegisterFRPWithAddr '':80'' ''n'' '':81'' ex_web_client = Some c1 \<and>
     handleFRPRegisterPackage (last (SendQueue c1)) (NewStubManager ''n'') = NewStubManager ''n''"
proof -
  obtain c1 where c: "RegisterFRPWithAddr '':80'' ''n'' '':81'' ex_web_client = Some c1"
    by (simp add: RegisterFRPWithAddr_def cl_Send_def)
  with addr_registration_ignored [OF c] show ?thesis by blast
qed

theorem negative_overtime_panics_witness:
  "\<exists>r em1 n1 os ec. handleElectJoin 1 2 [(''group'', GStr ''g''), (''base_overtime_t'', GNum (-5))] (NewElectManager ''n'') ex_web_node =
      (Reply 200 r, em1, n1, os) \<and> GetCandidate ''g'' em1 = Some ec \<and> mainLoop_tick (\<lambda>_. []) id 0 0 9 ec ex_web_node = None"
proof -
  let ?ps = "[(''group'', GStr ''g''), (''base_overtime_t'', GNum (-5))]"
  have 0: "text_or_empty ?ps ''group'' = ''g''" "num_param ?ps ''base_overtime_t'' = -5"
    by (simp_all add: text_or_empty_def str_param_def num_param_def)
  have "\<exists>r. fst (handleElectJoin 1 2 ?ps (NewElectManager ''n'') ex_web_node) = Reply 200 r"
    by (simp add: handleElectJoin_def 0 Let_def overtime_param_def join_election_def CreateCandidate_def NewElectManager_def
        elect_Start_def NewElectCandidate_def case_prod_unfold)
  then obtain r em1 n1 os where h: "handleElectJoin 1 2 ?ps (NewElectManager ''n'') ex_web_node = (Reply 200 r, em1, n1, os)"
    by (metis prod.collapse)
  have "num_param ?ps ''base_overtime_t'' < 0" by (simp add: 0)
  from negative_overtime_panics [OF h this, of 9 "\<lambda>_. []" id 0 0 ex_web_node] 0(1) h show ?thesis by auto
qed

theorem shutdown_panics_with_http_client_witness:
  "Shutdown (fst (snd (snd (temp_client ''h'' 256 ex_web ex_web_node)))) = None"
proof -
  let ?s = "fst (snd (snd (temp_client ''h'' 256 ex_web ex_web_node)))"
  have "(''h'', 1) \<in> set (svClients ?s)" "\<not> ccWs (connHeap ?s ! 1)"
    by (simp_all add: temp_client_def client_id_def attach_def)
  then show ?thesis by (rule shutdown_panics_with_http_client)
qed

text \<open>Two nodes, one channel.\<close>

definition ex_sending_node :: "unit Node" where
  "ex_sending_node = (NewNode ''n'')\<lparr>nRoutes := [(''m'', [\<lparr>LocalChannelID = ''n-1'', nextHopNodeID = ''m''\<rparr>])],
     Channels := [(''n-1'', NewChannelFull ''n-1'')]\<rparr>"

theorem private_message_first_server_only_witness:
  "\<exists>c1 n1 ch hop msg m1. SendPrivateMessage (\<lambda>_. ''x'') ''m'' ''c'' [] ex_web_client = Some c1 \<and>
     handleSendPackage (last (SendQueue c1)) ex_sending_node = (n1, [SendOn ch hop msg]) \<and>
     onRecv 0 msg (NewNode ''m'' :: unit Node) = (m1, [ClientPackage ''c'' ''n'' (GStr ''x'')]) \<and>
     send_first ''c'' (private_package ''n'' (GStr ''x'')) [NewServer ''1'', ex_web] = Some [NewServer ''1'', ex_web]"
proof -
  obtain c1 where c: "SendPrivateMessage (\<lambda>_. ''x'') ''m'' ''c'' [] ex_web_client = Some c1"
    and l: "pkArgs (last (SendQueue c1)) = [(''target_node'', GStr ''m''), (''content'', GStr ''x''), (''target_client'', GStr ''c'')]"
    by (simp add: SendPrivateMessage_def cl_Send_def)
  obtain n1 ch hop msg where h: "handleSendPackage (last (SendQueue c1)) ex_sending_node = (n1, [SendOn ch hop msg])"
    by (simp add: handleSendPackage_def l str_param_def sendTo_def stamp_def ex_sending_node_def NewNode_def
        addMessageCounter_def Let_def)
  have "nID ex_sending_node = ''n''" by (simp add: ex_sending_node_def NewNode_def)
  moreover have "map_of (svClients (NewServer ''1'')) ''c'' = None" by (simp add: NewServer_def)
  moreover have "nID (NewNode ''m'' :: unit Node) = ''m''"
    "generateMsgKey msg \<notin> set (ReceivedMsgs (NewNode ''m'' :: unit Node))" by (simp_all add: NewNode_def)
  ultimately show ?thesis
    using private_message_first_server_only [OF c h, of ch hop msg "NewNode ''m'' :: unit Node" 0 "NewServer ''1''" "GStr ''x''" "[ex_web]"]
      c h by auto
qed

end
