(* ===== verification/Web_Api.thy ===== *)
theory Web_Api
  imports Web_Session
begin

text \<open>
  api/apis.go: the interface of the client library that programs use, a struct around a \<open>MajulaClient\<close>.
  Every method passes its arguments on; where a call waits for a result, the model gives the position of its
  result and the time it may take, and \<open>api_wait\<close> is the wait.
\<close>

type_synonym ApiClient = MajulaClient

definition api_NewClient :: "string \<Rightarrow> string \<Rightarrow> ApiClient" where
  "api_NewClient addr entity = NewMajulaClient addr entity"

section \<open>Calls with a result\<close>

record pending =
  pdInvokeId :: int
  pdChan :: nat
  pdTimeout :: int

type_synonym api_call = "(pending \<times> ApiClient) option"

definition with_timeout :: "int \<Rightarrow> (int \<times> nat \<times> MajulaClient) option \<Rightarrow> api_call" where
  "with_timeout timeout r = map_option (\<lambda>(i, a, c). (\<lparr>pdInvokeId = i, pdChan = a, pdTimeout = timeout\<rparr>, c)) r"

text \<open>When the time is over and there is a result as well, \<open>late\<close> tells which of the two is taken.\<close>

definition api_wait :: "bool \<Rightarrow> int \<Rightarrow> int \<Rightarrow> pending \<Rightarrow> ApiClient \<Rightarrow> (goval \<times> bool) option" where
  "api_wait late started now p c =
     call_wait (pdTimeout p \<le> now - started \<and> (late \<or> resultChans c ! pdChan p = None)) (pdChan p) c"

definition api_CallRpc :: "string \<Rightarrow> params \<Rightarrow> string \<Rightarrow> string \<Rightarrow> int \<Rightarrow> ApiClient \<Rightarrow> api_call" where
  "api_CallRpc fun args targetNode provider timeout c = with_timeout timeout (CallRpc_begin fun targetNode provider args c)"

definition api_CallRpcAsync :: "string \<Rightarrow> params \<Rightarrow> string \<Rightarrow> string \<Rightarrow> int \<Rightarrow> ApiClient \<Rightarrow> api_call" where
  "api_CallRpcAsync fun args targetNode provider timeout c = with_timeout timeout (CallRpc_begin fun targetNode provider args c)"

definition PutInRaftGroup :: "string \<Rightarrow> string \<Rightarrow> goval \<Rightarrow> int \<Rightarrow> ApiClient \<Rightarrow> api_call" where
  "PutInRaftGroup g key value timeout c = with_timeout timeout (PutInGroup_begin g key value c)"

definition DeleteFromRaftGroup :: "string \<Rightarrow> string \<Rightarrow> int \<Rightarrow> ApiClient \<Rightarrow> api_call" where
  "DeleteFromRaftGroup g key timeout c = with_timeout timeout (DeleteFromGroup_begin g key c)"

definition GetFromRaftGroup :: "string \<Rightarrow> string \<Rightarrow> int \<Rightarrow> ApiClient \<Rightarrow> api_call" where
  "GetFromRaftGroup g key timeout c = with_timeout timeout (GetFromGroup_begin g key c)"

definition PutInRaftGroupWithDefaultTimeout :: "string \<Rightarrow> string \<Rightarrow> goval \<Rightarrow> ApiClient \<Rightarrow> api_call" where
  "PutInRaftGroupWithDefaultTimeout g key value c = with_timeout (10 * 1000000000) (PutInGroup_begin g key value c)"

definition DeleteFromRaftGroupWithDefaultTimeout :: "string \<Rightarrow> string \<Rightarrow> ApiClient \<Rightarrow> api_call" where
  "DeleteFromRaftGroupWithDefaultTimeout g key c = with_timeout (10 * 1000000000) (DeleteFromGroup_begin g key c)"

definition GetFromRaftGroupWithDefaultTimeout :: "string \<Rightarrow> string \<Rightarrow> ApiClient \<Rightarrow> api_call" where
  "GetFromRaftGroupWithDefaultTimeout g key c = with_timeout (5 * 1000000000) (GetFromGroup_begin g key c)"

definition api_ConnectToNode :: "string \<Rightarrow> int \<Rightarrow> ApiClient \<Rightarrow> api_call" where
  "api_ConnectToNode targetNodeID timeout c = with_timeout timeout (ConnectToNode_begin targetNodeID c)"

section \<open>Functions, topics and private messages\<close>

definition api_RegisterRpc :: "string \<Rightarrow> int \<Rightarrow> RpcMeta option \<Rightarrow> ApiClient \<Rightarrow> ApiClient option" where
  "api_RegisterRpc fun handler meta c = RegisterRpc fun handler meta c"

definition api_UnregisterRpc :: "string \<Rightarrow> ApiClient \<Rightarrow> ApiClient option" where
  "api_UnregisterRpc fun c = UnregisterRpc fun c"

definition api_Subscribe :: "string \<Rightarrow> int \<Rightarrow> ApiClient \<Rightarrow> ApiClient option" where
  "api_Subscribe topic handler c = cl_Subscribe topic handler c"

definition api_Unsubscribe :: "string \<Rightarrow> ApiClient \<Rightarrow> ApiClient option" where
  "api_Unsubscribe topic c = cl_Unsubscribe topic c"

definition api_Publish :: "string \<Rightarrow> params \<Rightarrow> ApiClient \<Rightarrow> ApiClient option" where
  "api_Publish topic args c = cl_Publish topic args c"

definition OnPrivate :: "int \<Rightarrow> ApiClient \<Rightarrow> ApiClient" where
  "OnPrivate handler c = OnPrivateMessage handler c"

definition SendPrivate :: "(params \<Rightarrow> string) \<Rightarrow> string \<Rightarrow> string \<Rightarrow> params \<Rightarrow> ApiClient \<Rightarrow> ApiClient option" where
  "SendPrivate marshal targetNode targetClient payload c = SendPrivateMessage marshal targetNode targetClient payload c"

section \<open>Forwarding and files\<close>

text \<open>The order of the last two arguments of the call is the one of the code.\<close>

definition api_RegisterFRP :: "string \<Rightarrow> string \<Rightarrow> string \<Rightarrow> string \<Rightarrow> ApiClient \<Rightarrow> ApiClient option" where
  "api_RegisterFRP code localAddr remoteNode remoteAddr c = cl_RegisterFRP code localAddr remoteAddr remoteNode c"

definition api_RegisterFRPWithAddr :: "string \<Rightarrow> string \<Rightarrow> string \<Rightarrow> ApiClient \<Rightarrow> ApiClient option" where
  "api_RegisterFRPWithAddr localAddr remoteNode remoteAddr c = RegisterFRPWithAddr localAddr remoteNode remoteAddr c"

definition StartFRPListener :: "string \<Rightarrow> ApiClient \<Rightarrow> ApiClient option" where
  "StartFRPListener code c = StartFRPWithRegistration code c"

definition api_StartFRPWithLocalAddr :: "string \<Rightarrow> ApiClient \<Rightarrow> ApiClient option" where
  "api_StartFRPWithLocalAddr localAddr c = StartFRPWithLocalAddr localAddr c"

definition api_StartFRPWithoutRegistration :: "string \<Rightarrow> string \<Rightarrow> string \<Rightarrow> ApiClient \<Rightarrow> ApiClient option" where
  "api_StartFRPWithoutRegistration localAddr remoteNode remoteAddr c = StartFRPWithoutRegistration localAddr remoteNode remoteAddr c"

definition RegisterNginxFRP ::
  "((string \<times> string) list \<Rightarrow> string) \<Rightarrow> string \<Rightarrow> string \<Rightarrow> string \<Rightarrow> (string \<times> string) list \<Rightarrow> ApiClient \<Rightarrow> ApiClient option" where
  "RegisterNginxFRP marshal mappedPath remoteNode remoteURL extraArgs c =
     RegisterNginxFRPAndRun marshal mappedPath remoteNode remoteURL extraArgs c"

definition api_RemoveNginxFRP ::
  "((string \<times> string) list \<Rightarrow> string) \<Rightarrow> string \<Rightarrow> string \<Rightarrow> string \<Rightarrow> (string \<times> string) list \<Rightarrow> ApiClient \<Rightarrow> ApiClient option" where
  "api_RemoveNginxFRP marshal mappedPath remoteNode remoteURL extraArgs c =
     RemoveNginxFRP marshal mappedPath remoteNode remoteURL extraArgs c"

definition UploadFile :: "string \<Rightarrow> string \<Rightarrow> string \<Rightarrow> ApiClient \<Rightarrow> ApiClient option" where
  "UploadFile remoteNode localPath remotePath c = TransferFileToRemote remoteNode localPath remotePath c"

definition DownloadFile :: "string \<Rightarrow> string \<Rightarrow> string \<Rightarrow> ApiClient \<Rightarrow> ApiClient option" where
  "DownloadFile remoteNode remotePath localPath c = DownloadFileFromRemote remoteNode remotePath localPath c"

definition api_Quit :: "ApiClient \<Rightarrow> ApiClient option" where
  "api_Quit c = cl_Quit c"

section \<open>Learners and elections\<close>

definition api_JoinRaftGroupAsLearner :: "string \<Rightarrow> string \<Rightarrow> ApiClient \<Rightarrow> ApiClient option" where
  "api_JoinRaftGroupAsLearner g dbPath c = JoinRaftGroupAsLearner g dbPath c"

definition api_JoinRaftGroupAsLearnerWithFastSync :: "string \<Rightarrow> string \<Rightarrow> ApiClient \<Rightarrow> ApiClient option" where
  "api_JoinRaftGroupAsLearnerWithFastSync g dbPath c = JoinRaftGroupAsLearnerWithFastSync g dbPath c"

definition api_LeaveRaftGroupAsLearner :: "string \<Rightarrow> ApiClient \<Rightarrow> ApiClient option" where
  "api_LeaveRaftGroupAsLearner g c = LeaveRaftGroupAsLearner g c"

definition api_JoinElection :: "string \<Rightarrow> int \<Rightarrow> ApiClient \<Rightarrow> ApiClient option" where
  "api_JoinElection groupName baseOvertimeT c =
     JoinElection groupName (if baseOvertimeT = 0 then 3000 else baseOvertimeT) c"

definition api_GiveUpElection :: "string \<Rightarrow> ApiClient \<Rightarrow> ApiClient option" where
  "api_GiveUpElection groupName c = GiveUpElection groupName c"

definition api_LeaveElection :: "string \<Rightarrow> ApiClient \<Rightarrow> ApiClient option" where
  "api_LeaveElection groupName c = LeaveElection groupName c"

definition api_GetElectionStatus :: "string \<Rightarrow> ApiClient \<Rightarrow> ApiClient option" where
  "api_GetElectionStatus groupName c = GetElectionStatus groupName c"

section \<open>Registering a forwarding under a code\<close>

lemma RegisterFRP_package:
  assumes "cl_RegisterFRP code localAddr rn ra c = Some c1" and "code \<noteq> []" "localAddr \<noteq> []" "rn \<noteq> []" "ra \<noteq> []"
  shows "handlePackage (last (SendQueue c1)) = Some H_FRPRegister \<and>
    RunFRPWithExistingConn_begin code sid (handleFRPRegisterPackage (last (SendQueue c1)) sm) =
      Inr (rn, [(''code'', GStr code), (''stub_id'', GStr sid)]) \<and>
    map_of (FrpConfigs (handleFRPRegisterPackage (last (SendQueue c1)) sm)) code =
      Some \<lparr>fcCode = code, fcLocalAddr = localAddr, fcRemoteNode = rn, fcRemoteAddr = ra\<rparr>"
proof -
  have "last (SendQueue c1) = (package ''REGISTER_FRP'')\<lparr>pkArgs := [(''code'', GStr code), (''local_addr'', GStr localAddr),
     (''remote_node'', GStr rn), (''remote_addr'', GStr ra)]\<rparr>"
    using assms(1) by (auto simp: cl_RegisterFRP_def cl_Send_def split: if_splits)
  with assms(2-) show ?thesis
    by (simp add: handlePackage_def package_methods_def package_def handleFRPRegisterPackage_def str_param_def
        RegisterFRPWithCode_def RegisterFRP_def RunFRPWithExistingConn_begin_def)
qed

text \<open>
  A forwarding that is registered under a code through the interface has its node and its address
  exchanged: the node that serves the client stores the remote address as the node to connect to, so that a
  connection under this code calls a procedure of a node whose name is the remote address. (Through
  \<open>MajulaClient.RegisterFRP\<close> the registration is right.)
\<close>

theorem api_registration_is_swapped:
  assumes "code \<noteq> []" "localAddr \<noteq> []" "remoteNode \<noteq> []" "remoteAddr \<noteq> []"
    and "api_RegisterFRP code localAddr remoteNode remoteAddr c = Some c1"
    and "cl_RegisterFRP code localAddr remoteNode remoteAddr c = Some c2"
  shows "RunFRPWithExistingConn_begin code sid (handleFRPRegisterPackage (last (SendQueue c1)) sm) =
      Inr (remoteAddr, [(''code'', GStr code), (''stub_id'', GStr sid)]) \<and>
    RunFRPWithExistingConn_begin code sid (handleFRPRegisterPackage (last (SendQueue c2)) sm) =
      Inr (remoteNode, [(''code'', GStr code), (''stub_id'', GStr sid)])"
  using RegisterFRP_package [OF assms(5) [unfolded api_RegisterFRP_def] assms(1,2,4,3)]
    RegisterFRP_package [OF assms(6,1-4)] by simp

theorem api_registration_is_swapped_witness:
  "\<exists>c1. api_RegisterFRP ''web'' '':80'' ''n2'' '':81'' (NewMajulaClient ''a'' ''e'') = Some c1 \<and>
     RunFRPWithExistingConn_begin ''web'' ''s'' (handleFRPRegisterPackage (last (SendQueue c1)) (NewStubManager ''n1'')) =
       Inr ('':81'', [(''code'', GStr ''web''), (''stub_id'', GStr ''s'')])"
proof -
  obtain c1 c2 where c: "api_RegisterFRP ''web'' '':80'' ''n2'' '':81'' (NewMajulaClient ''a'' ''e'') = Some c1"
    "cl_RegisterFRP ''web'' '':80'' ''n2'' '':81'' (NewMajulaClient ''a'' ''e'') = Some c2"
    by (simp add: api_RegisterFRP_def cl_RegisterFRP_def cl_Send_def NewMajulaClient_def)
  from api_registration_is_swapped [OF _ _ _ _ this, of "''s''" "NewStubManager ''n1''"] c(1) show ?thesis by auto
qed

text \<open>A wait ends at the timeout at the latest, and before it exactly when there is a result, with that result.\<close>

lemma api_wait_cases:
  "pdTimeout p \<le> now - started \<Longrightarrow> api_wait late started now p c \<noteq> None"
  "now - started < pdTimeout p \<Longrightarrow> api_wait late started now p c = map_option (\<lambda>v. (v, True)) (resultChans c ! pdChan p)"
  by (auto simp: api_wait_def call_wait_def split: option.split)

end
