(* ===== verification/Net_Heap.thy ===== *)
theory Net_Heap
  imports Prelude "HOL-Library.Multiset"
begin

text \<open>
  The priority queue of core/Tools.go, a slice of items ordered by cost, and the operations of Go's
  container/heap that the routing code drives it with (\<open>heap.Push\<close>, \<open>heap.Pop\<close>, built from the
  methods of the queue and the sift loops \<open>up\<close> and \<open>down\<close>).

  The locale \<open>prio_queue\<close> is what the routing code relies on; it is interpreted on the heap.
\<close>

section \<open>The interface\<close>

locale prio_queue =
  fixes inv :: "'q \<Rightarrow> bool"
    and elems :: "'q \<Rightarrow> ('a \<times> int) multiset"
    and push :: "'a \<Rightarrow> int \<Rightarrow> 'q \<Rightarrow> 'q"
    and pop :: "'q \<Rightarrow> (('a \<times> int) \<times> 'q) option"
  assumes push_law: "inv q \<Longrightarrow> inv (push x c q) \<and> elems (push x c q) = add_mset (x, c) (elems q)"
    and pop_empty: "inv q \<Longrightarrow> elems q = {#} \<Longrightarrow> pop q = None"
    and pop_law: "inv q \<Longrightarrow> elems q \<noteq> {#} \<Longrightarrow> \<exists>x c q'. pop q = Some ((x, c), q') \<and> inv q' \<and>
      elems q = add_mset (x, c) (elems q') \<and> (\<forall>y \<in># elems q'. c \<le> snd y)"
begin

lemma pop_SomeD:
  assumes "inv q" and "pop q = Some ((x, c), q')"
  shows "inv q'" and "elems q = add_mset (x, c) (elems q')" and "\<And>y. y \<in># elems q' \<Longrightarrow> c \<le> snd y"
proof -
  have "elems q \<noteq> {#}" using pop_empty [OF assms(1)] assms(2) by auto
  from pop_law [OF assms(1) this] assms(2)
  show "inv q'" and "elems q = add_mset (x, c) (elems q')" and "\<And>y. y \<in># elems q' \<Longrightarrow> c \<le> snd y"
    by auto
qed

lemma pop_NoneD: "inv q \<Longrightarrow> pop q = None \<Longrightarrow> elems q = {#}"
  using pop_law by fastforce

end

section \<open>The queue of core/Tools.go\<close>

record Item =
  itNode :: string
  itCost :: int
  itIndex :: int

type_synonym PriorityQueue = "Item list"

definition pq_Less :: "nat \<Rightarrow> nat \<Rightarrow> PriorityQueue \<Rightarrow> bool" where
  "pq_Less i j pq \<longleftrightarrow> itCost (pq ! i) < itCost (pq ! j)"

definition pq_Swap :: "nat \<Rightarrow> nat \<Rightarrow> PriorityQueue \<Rightarrow> PriorityQueue" where
  "pq_Swap i j pq = (let q = pq[i := pq ! j, j := pq ! i];
       q1 = q[i := (q ! i)\<lparr>itIndex := int i\<rparr>]
     in q1[j := (q1 ! j)\<lparr>itIndex := int j\<rparr>])"

definition pq_Push :: "Item \<Rightarrow> PriorityQueue \<Rightarrow> PriorityQueue" where
  "pq_Push item pq = pq @ [item\<lparr>itIndex := int (length pq)\<rparr>]"

text \<open>\<open>Pop\<close> of an empty queue indexes the slice out of range.\<close>

definition pq_Pop :: "PriorityQueue \<Rightarrow> (Item \<times> PriorityQueue) option" where
  "pq_Pop pq = (if pq = [] then None else Some ((last pq)\<lparr>itIndex := -1\<rparr>, butlast pq))"

section \<open>The sift loops of container/heap\<close>

function heap_up :: "nat \<Rightarrow> PriorityQueue \<Rightarrow> PriorityQueue" where
  "heap_up j pq = (let i = (j - 1) div 2 in
     if i = j \<or> \<not> pq_Less j i pq then pq else heap_up i (pq_Swap i j pq))"
  by pat_completeness auto
termination by (relation "measure fst") auto

definition min_child :: "nat \<Rightarrow> nat \<Rightarrow> PriorityQueue \<Rightarrow> nat" where
  "min_child i n pq = (let j1 = 2 * i + 1; j2 = j1 + 1 in
     if j2 < n \<and> pq_Less j2 j1 pq then j2 else j1)"

function heap_down :: "nat \<Rightarrow> nat \<Rightarrow> PriorityQueue \<Rightarrow> PriorityQueue" where
  "heap_down i n pq = (if n \<le> 2 * i + 1 then pq
     else let j = min_child i n pq in
       if \<not> pq_Less j i pq then pq else heap_down j n (pq_Swap i j pq))"
  by pat_completeness auto
termination
  by (relation "measure (\<lambda>(i, n, pq). n - i)") (auto simp: min_child_def Let_def)

declare heap_up.simps [simp del] heap_down.simps [simp del]

definition heap_Push :: "Item \<Rightarrow> PriorityQueue \<Rightarrow> PriorityQueue" where
  "heap_Push x pq = (let q = pq_Push x pq in heap_up (length q - 1) q)"

definition heap_Pop :: "PriorityQueue \<Rightarrow> (Item \<times> PriorityQueue) option" where
  "heap_Pop pq = (if pq = [] then None
     else let n = length pq - 1 in pq_Pop (heap_down 0 n (pq_Swap 0 n pq)))"

section \<open>The heap order\<close>

definition parent :: "nat \<Rightarrow> nat" where
  "parent k = (k - 1) div 2"

text \<open>The order between every cell below \<open>n\<close> and its parent, the cells that satisfy \<open>P\<close> excepted.\<close>

definition heap_order :: "(nat \<Rightarrow> bool) \<Rightarrow> nat \<Rightarrow> PriorityQueue \<Rightarrow> bool" where
  "heap_order P n pq \<longleftrightarrow> (\<forall>k. 0 < k \<and> k < n \<and> \<not> P k \<longrightarrow> itCost (pq ! parent k) \<le> itCost (pq ! k))"

abbreviation is_heap :: "PriorityQueue \<Rightarrow> bool" where
  "is_heap pq \<equiv> heap_order (\<lambda>_. False) (length pq) pq"

definition pq_elems :: "PriorityQueue \<Rightarrow> (string \<times> int) multiset" where
  "pq_elems pq = mset (map (\<lambda>it. (itNode it, itCost it)) pq)"

lemma parent_less: "0 < k \<Longrightarrow> parent k < k"
  by (auto simp: parent_def)

lemma parent_children: "0 < k \<Longrightarrow> parent k = i \<longleftrightarrow> k = 2 * i + 1 \<or> k = 2 * i + 2"
  by (auto simp: parent_def)

lemma length_pq_Swap [simp]: "length (pq_Swap i j pq) = length pq"
  by (simp add: pq_Swap_def Let_def)

lemma cost_pq_Swap:
  assumes "i < length pq" and "j < length pq"
  shows "itCost (pq_Swap i j pq ! k) =
    (if k = j then itCost (pq ! i) else if k = i then itCost (pq ! j) else itCost (pq ! k))"
  using assms by (auto simp: pq_Swap_def Let_def nth_list_update)

lemma elems_pq_Swap:
  assumes "i < length pq" and "j < length pq"
  shows "pq_elems (pq_Swap i j pq) = pq_elems pq"
proof -
  let ?f = "\<lambda>it. (itNode it, itCost it)"
  have "map ?f (pq_Swap i j pq) = (map ?f pq)[i := map ?f pq ! j, j := map ?f pq ! i]"
    using assms by (intro nth_equalityI) (auto simp: pq_Swap_def Let_def nth_list_update)
  then show ?thesis
    using mset_swap [of j "map ?f pq" i] assms by (simp add: pq_elems_def)
qed

lemma heap_root_le:
  assumes "heap_order (\<lambda>_. False) n pq" and "k < n"
  shows "itCost (pq ! 0) \<le> itCost (pq ! k)"
  using assms(2)
proof (induction k rule: less_induct)
  case (less k)
  show ?case
  proof (cases "k = 0")
    case False
    then have "0 < k" by simp
    with assms(1) less.prems have "itCost (pq ! parent k) \<le> itCost (pq ! k)"
      by (simp add: heap_order_def)
    moreover have "itCost (pq ! 0) \<le> itCost (pq ! parent k)"
      using parent_less [OF \<open>0 < k\<close>] less.prems by (intro less.IH) auto
    ultimately show ?thesis by simp
  qed simp
qed

section \<open>The sift loops restore the order\<close>

text \<open>The children of cell \<open>i\<close> are not below the parent of \<open>i\<close>.\<close>

definition grand_order :: "nat \<Rightarrow> nat \<Rightarrow> PriorityQueue \<Rightarrow> bool" where
  "grand_order i n pq \<longleftrightarrow>
     (\<forall>k. 0 < i \<and> 0 < k \<and> k < n \<and> parent k = i \<longrightarrow> itCost (pq ! parent i) \<le> itCost (pq ! k))"

lemma heap_up_swap:
  assumes "heap_order (\<lambda>k. k = j) (length pq) pq" and "grand_order j (length pq) pq"
    and "j < length pq" and "0 < j" and "itCost (pq ! j) < itCost (pq ! parent j)"
  shows "heap_order (\<lambda>k. k = parent j) (length pq) (pq_Swap (parent j) j pq)"
    and "grand_order (parent j) (length pq) (pq_Swap (parent j) j pq)"
proof -
  let ?i = "parent j"
  have i: "?i < j" using parent_less [OF assms(4)] .
  note c = cost_pq_Swap [of ?i pq j]
  show "heap_order (\<lambda>k. k = ?i) (length pq) (pq_Swap ?i j pq)"
    unfolding heap_order_def
  proof (intro allI impI, elim conjE)
    fix k assume k: "0 < k" "k < length pq" "k \<noteq> ?i"
    have pk: "parent k < k" using parent_less [OF k(1)] .
    consider "k = j" | "k \<noteq> j" "parent k = j" | "k \<noteq> j" "parent k = ?i" | "k \<noteq> j" "parent k \<noteq> j" "parent k \<noteq> ?i"
      by blast
    then show "itCost (pq_Swap ?i j pq ! parent k) \<le> itCost (pq_Swap ?i j pq ! k)"
    proof cases
      case 1 with i assms show ?thesis by (simp add: c)
    next
      case 2 with i k assms show ?thesis by (simp add: c grand_order_def)
    next
      case 3
      with assms(1) k have "itCost (pq ! ?i) \<le> itCost (pq ! k)" by (auto simp: heap_order_def)
      with 3 i k assms show ?thesis by (simp add: c)
    next
      case 4
      with assms(1) k have "itCost (pq ! parent k) \<le> itCost (pq ! k)" by (auto simp: heap_order_def)
      with 4 i k assms show ?thesis by (simp add: c)
    qed
  qed
  show "grand_order ?i (length pq) (pq_Swap ?i j pq)"
    unfolding grand_order_def
  proof (intro allI impI, elim conjE)
    fix k assume k: "0 < ?i" "0 < k" "k < length pq" "parent k = ?i"
    have pi: "parent ?i < ?i" using parent_less [OF k(1)] .
    have ii: "itCost (pq ! parent ?i) \<le> itCost (pq ! ?i)"
      using assms(1,3) i k(1) by (auto simp: heap_order_def)
    have "k \<noteq> j \<Longrightarrow> itCost (pq ! ?i) \<le> itCost (pq ! k)"
      using assms(1) k by (auto simp: heap_order_def)
    with ii pi i k parent_less [OF k(2)] assms(3)
    show "itCost (pq_Swap ?i j pq ! parent ?i) \<le> itCost (pq_Swap ?i j pq ! k)"
      by (auto simp: c)
  qed
qed

lemma heap_up_ok:
  assumes "heap_order (\<lambda>k. k = j) (length pq) pq" and "grand_order j (length pq) pq" and "j < length pq"
  shows "is_heap (heap_up j pq) \<and> pq_elems (heap_up j pq) = pq_elems pq"
  using assms
proof (induction j pq rule: heap_up.induct)
  case (1 j pq)
  show ?case
  proof (cases "parent j = j \<or> \<not> pq_Less j (parent j) pq")
    case True
    then have "heap_up j pq = pq" by (subst heap_up.simps) (auto simp: Let_def parent_def)
    moreover have "is_heap pq"
      using 1(2) True unfolding heap_order_def
      by (metis not_le_imp_less parent_less less_irrefl pq_Less_def)
    ultimately show ?thesis by simp
  next
    case False
    then have "0 < j" by (cases j) (auto simp: parent_def)
    have lt: "itCost (pq ! j) < itCost (pq ! parent j)" using False by (simp add: pq_Less_def)
    have e: "heap_up j pq = heap_up (parent j) (pq_Swap (parent j) j pq)"
      using False by (subst heap_up.simps) (auto simp: Let_def parent_def)
    have l: "parent j < length pq" using parent_less [OF \<open>0 < j\<close>] 1(4) by simp
    have "is_heap (heap_up (parent j) (pq_Swap (parent j) j pq)) \<and>
        pq_elems (heap_up (parent j) (pq_Swap (parent j) j pq)) = pq_elems (pq_Swap (parent j) j pq)"
      using heap_up_swap [OF 1(2-4) \<open>0 < j\<close> lt] l False
      by (intro 1(1) [OF _ _ , unfolded parent_def [symmetric]]) (auto simp: parent_def)
    with e elems_pq_Swap [OF l 1(4)] show ?thesis by simp
  qed
qed

lemma min_child_ok:
  assumes "2 * i + 1 < n"
  shows "min_child i n pq < n" and "parent (min_child i n pq) = i" and "i < min_child i n pq"
    and "0 < k \<Longrightarrow> k < n \<Longrightarrow> parent k = i \<Longrightarrow> itCost (pq ! min_child i n pq) \<le> itCost (pq ! k)"
proof -
  show "min_child i n pq < n" "parent (min_child i n pq) = i" "i < min_child i n pq"
    using assms by (auto simp: min_child_def Let_def parent_def)
  assume k: "0 < k" "k < n" "parent k = i"
  then have "k = 2 * i + 1 \<or> k = 2 * i + 2" by (simp add: parent_children)
  then show "itCost (pq ! min_child i n pq) \<le> itCost (pq ! k)"
    using k(2) by (auto simp: min_child_def Let_def pq_Less_def)
qed

lemma heap_down_swap:
  assumes "heap_order (\<lambda>k. parent k = i) n pq" and "grand_order i n pq" and "n \<le> length pq"
    and j: "j < n" "parent j = i" "i < j"
    and min: "\<And>k. 0 < k \<Longrightarrow> k < n \<Longrightarrow> parent k = i \<Longrightarrow> itCost (pq ! j) \<le> itCost (pq ! k)"
    and lt: "itCost (pq ! j) < itCost (pq ! i)"
  shows "heap_order (\<lambda>k. parent k = j) n (pq_Swap i j pq)" and "grand_order j n (pq_Swap i j pq)"
proof -
  have l: "i < length pq" "j < length pq" using assms(3) j by simp_all
  note c = cost_pq_Swap [OF l]
  show "heap_order (\<lambda>k. parent k = j) n (pq_Swap i j pq)"
    unfolding heap_order_def
  proof (intro allI impI, elim conjE)
    fix k assume k: "0 < k" "k < n" "parent k \<noteq> j"
    have pk: "parent k < k" using parent_less [OF k(1)] .
    consider "k = j" | "k = i" | "k \<noteq> j" "k \<noteq> i" "parent k = i" | "k \<noteq> j" "k \<noteq> i" "parent k \<noteq> i"
      by blast
    then show "itCost (pq_Swap i j pq ! parent k) \<le> itCost (pq_Swap i j pq ! k)"
    proof cases
      case 1 with j lt show ?thesis by (simp add: c)
    next
      case 2
      with assms(2) k j have "itCost (pq ! parent i) \<le> itCost (pq ! j)" by (auto simp: grand_order_def)
      with 2 pk j show ?thesis by (simp add: c)
    next
      case 3 with min [OF k(1,2)] j show ?thesis by (simp add: c)
    next
      case 4
      with assms(1) k have "itCost (pq ! parent k) \<le> itCost (pq ! k)" by (auto simp: heap_order_def)
      with 4 k show ?thesis by (simp add: c)
    qed
  qed
  show "grand_order j n (pq_Swap i j pq)"
    unfolding grand_order_def
  proof (intro allI impI, elim conjE)
    fix k assume k: "0 < j" "0 < k" "k < n" "parent k = j"
    have "itCost (pq ! j) \<le> itCost (pq ! k)" using assms(1) k j by (auto simp: heap_order_def)
    with j k parent_less [OF k(2)]
    show "itCost (pq_Swap i j pq ! parent j) \<le> itCost (pq_Swap i j pq ! k)" by (auto simp: c)
  qed
qed

lemma heap_down_ok:
  assumes "heap_order (\<lambda>k. parent k = i) n pq" and "grand_order i n pq" and "n \<le> length pq"
  shows "heap_order (\<lambda>_. False) n (heap_down i n pq) \<and> pq_elems (heap_down i n pq) = pq_elems pq \<and>
    length (heap_down i n pq) = length pq \<and>
    (\<forall>k. n \<le> k \<and> k < length pq \<longrightarrow> itCost (heap_down i n pq ! k) = itCost (pq ! k))"
  using assms
proof (induction i n pq rule: heap_down.induct)
  case (1 i n pq)
  let ?j = "min_child i n pq"
  show ?case
  proof (cases "n \<le> 2 * i + 1 \<or> \<not> pq_Less ?j i pq")
    case True
    then have e: "heap_down i n pq = pq" by (subst heap_down.simps) (auto simp: Let_def)
    have "heap_order (\<lambda>_. False) n pq"
      unfolding heap_order_def
    proof (intro allI impI, elim conjE)
      fix k assume k: "0 < k" "k < n"
      show "itCost (pq ! parent k) \<le> itCost (pq ! k)"
      proof (cases "parent k = i")
        case False with k 1(2) show ?thesis by (simp add: heap_order_def)
      next
        case p: True
        then have n: "2 * i + 1 < n" using k parent_children [OF k(1), of i] by auto
        have "itCost (pq ! i) \<le> itCost (pq ! min_child i n pq)" using True n by (auto simp: pq_Less_def)
        also have "\<dots> \<le> itCost (pq ! k)" by (rule min_child_ok(4) [OF n k p])
        finally show ?thesis using p by simp
      qed
    qed
    with e show ?thesis by simp
  next
    case False
    then have n: "2 * i + 1 < n" and lt: "itCost (pq ! ?j) < itCost (pq ! i)" by (auto simp: pq_Less_def)
    have e: "heap_down i n pq = heap_down ?j n (pq_Swap i ?j pq)"
      using False by (subst heap_down.simps) (auto simp: Let_def)
    note m = min_child_ok [OF n]
    have l: "i < length pq" "?j < length pq" using n m(1) [of pq] 1(4) by simp_all
    have sw: "heap_order (\<lambda>k. parent k = ?j) n (pq_Swap i ?j pq)" "grand_order ?j n (pq_Swap i ?j pq)"
      by (rule heap_down_swap [OF 1(2-4) m(1-3) _ lt]; rule m(4); assumption)+
    have "\<not> n \<le> 2 * i + 1" "\<not> \<not> pq_Less ?j i pq" using False by auto
    note ih = 1(1) [OF this(1) refl this(2), simplified length_pq_Swap, OF sw 1(4)]
    have cell: "itCost (pq_Swap i ?j pq ! k) = itCost (pq ! k)" if "n \<le> k" for k
    proof -
      have "k \<noteq> ?j" and "k \<noteq> i" using that m(1) [of pq] n by linarith+
      then show ?thesis by (subst cost_pq_Swap [OF l]) (simp only: if_False)
    qed
    show ?thesis
      unfolding e
    proof (intro conjI allI impI)
      show "heap_order (\<lambda>_. False) n (heap_down ?j n (pq_Swap i ?j pq))" using ih by blast
      show "pq_elems (heap_down ?j n (pq_Swap i ?j pq)) = pq_elems pq"
        using ih elems_pq_Swap [OF l] by argo
      show "length (heap_down ?j n (pq_Swap i ?j pq)) = length pq" using ih by argo
      fix k assume k: "n \<le> k \<and> k < length pq"
      with ih have "itCost (heap_down ?j n (pq_Swap i ?j pq) ! k) = itCost (pq_Swap i ?j pq ! k)" by blast
      also have "\<dots> = itCost (pq ! k)" using k by (intro cell) blast
      finally show "itCost (heap_down ?j n (pq_Swap i ?j pq) ! k) = itCost (pq ! k)" .
    qed
  qed
qed

section \<open>Push and pop\<close>

lemma heap_order_mono: "heap_order P n pq \<Longrightarrow> (\<And>k. P k \<Longrightarrow> Q k) \<Longrightarrow> heap_order Q n pq"
  by (auto simp: heap_order_def)

lemma heap_Push_ok:
  assumes "is_heap pq"
  shows "is_heap (heap_Push x pq)" and
    "pq_elems (heap_Push x pq) = add_mset (itNode x, itCost x) (pq_elems pq)"
proof -
  let ?q = "pq_Push x pq"
  have "heap_order (\<lambda>k. k = length ?q - 1) (length ?q) ?q"
    unfolding heap_order_def
  proof (intro allI impI, elim conjE)
    fix k assume k: "0 < k" "k < length ?q" "k \<noteq> length ?q - 1"
    then have "k < length pq" by (simp add: pq_Push_def)
    with parent_less [OF k(1)] assms k(1) show "itCost (?q ! parent k) \<le> itCost (?q ! k)"
      by (simp add: heap_order_def pq_Push_def nth_append)
  qed
  moreover have "grand_order (length ?q - 1) (length ?q) ?q"
    unfolding grand_order_def
  proof (intro allI impI, elim conjE)
    fix k assume k: "0 < k" "k < length ?q" "parent k = length ?q - 1"
    with parent_less [OF k(1)] show "itCost (?q ! parent (length ?q - 1)) \<le> itCost (?q ! k)" by linarith
  qed
  moreover have "length ?q - 1 < length ?q" by (simp add: pq_Push_def)
  ultimately have "is_heap (heap_up (length ?q - 1) ?q) \<and>
      pq_elems (heap_up (length ?q - 1) ?q) = pq_elems ?q" by (rule heap_up_ok)
  then show "is_heap (heap_Push x pq)"
    and "pq_elems (heap_Push x pq) = add_mset (itNode x, itCost x) (pq_elems pq)"
    by (simp_all add: heap_Push_def Let_def pq_elems_def pq_Push_def)
qed

lemma pq_elems_last: "pq \<noteq> [] \<Longrightarrow>
    pq_elems pq = add_mset (itNode (last pq), itCost (last pq)) (pq_elems (butlast pq))"
  by (cases pq rule: rev_cases) (auto simp: pq_elems_def)

lemma heap_Pop_ok:
  assumes "is_heap pq" and "pq \<noteq> []"
  shows "\<exists>it q. heap_Pop pq = Some (it, q) \<and> is_heap q \<and>
    pq_elems pq = add_mset (itNode it, itCost it) (pq_elems q) \<and> (\<forall>y \<in># pq_elems q. itCost it \<le> snd y)"
proof -
  let ?n = "length pq - 1"
  let ?s = "pq_Swap 0 ?n pq"
  let ?d = "heap_down 0 ?n ?s"
  have l: "0 < length pq" "?n < length pq" using assms(2) by auto
  note c = cost_pq_Swap [OF l, unfolded One_nat_def]
  have "heap_order (\<lambda>k. parent k = 0) ?n ?s"
    unfolding heap_order_def
  proof (intro allI impI, elim conjE)
    fix k assume k: "0 < k" "k < ?n" "parent k \<noteq> 0"
    with parent_less [OF k(1)] have "parent k \<noteq> ?n" "k \<noteq> 0" "k \<noteq> ?n" by auto
    with k assms(1) show "itCost (?s ! parent k) \<le> itCost (?s ! k)"
      by (simp add: c heap_order_def)
  qed
  from heap_down_ok [OF this, unfolded length_pq_Swap]
  have d: "heap_order (\<lambda>_. False) ?n ?d" "pq_elems ?d = pq_elems pq" "length ?d = length pq"
    "itCost (?d ! ?n) = itCost (pq ! 0)"
    using l elems_pq_Swap [OF l] by (auto simp: grand_order_def c)
  have ne: "?d \<noteq> []" using d(3) assms(2) by auto
  define it where "it = (last ?d)\<lparr>itIndex := -1\<rparr>"
  have last: "last ?d = ?d ! ?n" using ne d(3) by (simp add: last_conv_nth)
  have pop: "heap_Pop pq = Some (it, butlast ?d)"
    using assms(2) ne by (simp add: heap_Pop_def pq_Pop_def Let_def it_def)
  have h: "is_heap (butlast ?d)"
    using d(1,3) by (auto simp: heap_order_def nth_butlast dest: parent_less)
  have e: "pq_elems pq = add_mset (itNode it, itCost it) (pq_elems (butlast ?d))"
    using pq_elems_last [OF ne] d(2) by (simp add: it_def)
  have "itCost it \<le> snd y" if y: "y \<in># pq_elems (butlast ?d)" for y
  proof -
    have "y \<in># pq_elems pq" using e y by simp
    then obtain k where k: "k < length pq" "snd y = itCost (pq ! k)"
      by (auto simp: pq_elems_def in_set_conv_nth)
    have "itCost it = itCost (pq ! 0)" using d(4) last by (simp add: it_def)
    with heap_root_le [OF assms(1) k(1)] k(2) show ?thesis by simp
  qed
  with pop h e show ?thesis by blast
qed

definition pq_push :: "string \<Rightarrow> int \<Rightarrow> PriorityQueue \<Rightarrow> PriorityQueue" where
  "pq_push n c = heap_Push \<lparr>itNode = n, itCost = c, itIndex = 0\<rparr>"

definition pq_pop :: "PriorityQueue \<Rightarrow> ((string \<times> int) \<times> PriorityQueue) option" where
  "pq_pop pq = map_option (\<lambda>(it, q). ((itNode it, itCost it), q)) (heap_Pop pq)"

interpretation heap: prio_queue is_heap pq_elems pq_push pq_pop
proof
  fix x c and q :: PriorityQueue
  assume q: "is_heap q"
  from heap_Push_ok [OF q]
  show "is_heap (pq_push x c q) \<and> pq_elems (pq_push x c q) = add_mset (x, c) (pq_elems q)"
    by (simp add: pq_push_def)
next
  fix q :: PriorityQueue
  assume q: "is_heap q"
  have emp: "pq_elems q = {#} \<longleftrightarrow> q = []" by (simp add: pq_elems_def)
  show "pq_elems q = {#} \<Longrightarrow> pq_pop q = None" by (simp add: emp pq_pop_def heap_Pop_def)
  assume "pq_elems q \<noteq> {#}"
  with heap_Pop_ok [OF q] emp
  show "\<exists>x c q'. pq_pop q = Some ((x, c), q') \<and> is_heap q' \<and> pq_elems q = add_mset (x, c) (pq_elems q') \<and>
      (\<forall>y \<in># pq_elems q'. c \<le> snd y)"
    by (fastforce simp: pq_pop_def)
qed

lemma length_heap_up [simp]: "length (heap_up j pq) = length pq"
  by (induction j pq rule: heap_up.induct) (subst heap_up.simps, simp add: Let_def)

lemma length_heap_down [simp]: "length (heap_down i n pq) = length pq"
  by (induction i n pq rule: heap_down.induct) (subst heap_down.simps, simp add: Let_def)

lemma length_pq_push [simp]: "length (pq_push n c q) = Suc (length q)"
  by (simp add: pq_push_def heap_Push_def pq_Push_def Let_def)

lemma length_pq_pop: "pq_pop q = Some (x, q') \<Longrightarrow> length q = Suc (length q')"
  by (auto simp: pq_pop_def heap_Pop_def pq_Pop_def Let_def split: if_splits)

end
