(* ===== verification/Net_Routing.thy ===== *)
theory Net_Routing
  imports Net_Heap Net_Link
begin

text \<open>
  The routing table of a node (\<open>buildRoutingTable\<close> and \<open>compareRoutingTables\<close> in core/Node.go):
  Dijkstra's algorithm over the link table with the heap of \<open>Net_Heap\<close>, then for every node in the
  distance map a walk back along the predecessors to the first hop. The walk has no other exit than
  reaching this node: it is a partial function, and \<open>None\<close> is a loop that never ends (with the
  mutex of the link table held).
\<close>

section \<open>Dijkstra's algorithm\<close>

record Dijkstra =
  dist :: "(string \<times> int) list"
  prev :: "string \<rightharpoonup> string"
  visited :: "string list"
  queue :: PriorityQueue

text \<open>Reading a Go map at a missing key gives the zero value.\<close>

definition dist_at :: "(string \<times> int) list \<Rightarrow> string \<Rightarrow> int" where
  "dist_at d v = (case map_of d v of None \<Rightarrow> 0 | Some c \<Rightarrow> c)"

definition prev_at :: "(string \<rightharpoonup> string) \<Rightarrow> string \<Rightarrow> string" where
  "prev_at p v = (case p v of None \<Rightarrow> [] | Some u \<Rightarrow> u)"

definition init_dist :: "LinkSet \<Rightarrow> string \<Rightarrow> (string \<times> int) list" where
  "init_dist ls i = AList.update i 0 (fold (\<lambda>(_, targets). fold (\<lambda>(_, link) d.
     AList.update (Target link) MaxInt64 (AList.update (Source link) MaxInt64 d)) targets) ls [])"

definition dijkstra_init :: "LinkSet \<Rightarrow> string \<Rightarrow> Dijkstra" where
  "dijkstra_init ls i = \<lparr>dist = init_dist ls i, prev = Map.empty, visited = [], queue = pq_push i 0 []\<rparr>"

definition relax :: "string \<Rightarrow> string \<times> Link \<Rightarrow> Dijkstra \<Rightarrow> Dijkstra" where
  "relax cur = (\<lambda>(neighbor, link) st.
     if neighbor \<in> set (visited st) then st
     else let newCost = i64 (dist_at (dist st) cur + Cost link) in
       if newCost < dist_at (dist st) neighbor
       then st\<lparr>dist := AList.update neighbor newCost (dist st), prev := (prev st)(neighbor \<mapsto> cur),
               queue := pq_push neighbor newCost (queue st)\<rparr>
       else st)"

lemma visited_relax [simp]: "visited (fold (relax cur) row st) = visited st"
  by (induction row arbitrary: st) (auto simp: relax_def Let_def)

function dijkstra_loop :: "LinkSet \<Rightarrow> Dijkstra \<Rightarrow> Dijkstra" where
  "dijkstra_loop ls st = (case pq_pop (queue st) of
       None \<Rightarrow> st
     | Some ((cur, c), q) \<Rightarrow>
         if cur \<in> set (visited st) then dijkstra_loop ls (st\<lparr>queue := q\<rparr>)
         else dijkstra_loop ls (fold (relax cur) (ls_row ls cur)
                (st\<lparr>queue := q, visited := cur # visited st\<rparr>)))"
  by pat_completeness auto
termination
proof (relation "measures [\<lambda>(ls, st). card (set (map fst ls) - set (visited st)),
    \<lambda>(ls, st). length (queue st)]", goal_cases)
  case 1
  then show ?case by simp
next
  case (2 ls st a x y)
  then show ?case by (auto dest: length_pq_pop)
next
  case (3 ls st x2 x q cur c)
  show ?case
  proof (cases "cur \<in> set (map fst ls)")
    case True
    with 3 have "card (set (map fst ls) - set (cur # visited st)) < card (set (map fst ls) - set (visited st))"
      by (intro psubset_card_mono) auto
    then show ?thesis by simp
  next
    case False
    then have "map_of ls cur = None" by (simp add: map_of_eq_None_iff)
    then have "ls_row ls cur = []" by (simp add: ls_row_def)
    moreover have "set (map fst ls) - set (cur # visited st) = set (map fst ls) - set (visited st)"
      using False by auto
    ultimately show ?thesis using 3 by (auto dest: length_pq_pop)
  qed
qed

declare dijkstra_loop.simps [simp del]

definition dijkstra :: "LinkSet \<Rightarrow> string \<Rightarrow> Dijkstra" where
  "dijkstra ls i = dijkstra_loop ls (dijkstra_init ls i)"

section \<open>The routing table\<close>

partial_function (option) walk_back :: "(string \<rightharpoonup> string) \<Rightarrow> string \<Rightarrow> string list \<Rightarrow> string list option" where
  "walk_back p i path = (if prev_at p (hd path) = i then Some path
     else walk_back p i (prev_at p (hd path) # path))"

definition route_entry :: "LinkSet \<Rightarrow> string \<Rightarrow> string \<Rightarrow> RouteEntry" where
  "route_entry ls i nextHop = \<lparr>LocalChannelID = (case ls_get ls i nextHop of
       None \<Rightarrow> [] | Some link \<Rightarrow> lkChannel link), nextHopNodeID = nextHop\<rparr>"

definition add_route :: "LinkSet \<Rightarrow> string \<Rightarrow> (string \<rightharpoonup> string) \<Rightarrow> string \<Rightarrow> RoutingTable \<Rightarrow> RoutingTable option" where
  "add_route ls i p target tab = (if target = i then Some tab
     else do {
       path \<leftarrow> walk_back p i [target];
       Some (AList.update target [route_entry ls i (hd path)] tab) })"

definition compareRoutingTables :: "RoutingTable \<Rightarrow> 'd Node \<Rightarrow> bool" where
  "compareRoutingTables temp n =
     (if length (nRoutes n) \<noteq> length temp then False
      else list_all (\<lambda>(target, routes). (case map_of temp target of
          None \<Rightarrow> False
        | Some tempRoutes \<Rightarrow> length routes = length tempRoutes \<and> list_all2 (=) routes tempRoutes)) (nRoutes n))"

definition routing_table :: "LinkSet \<Rightarrow> string \<Rightarrow> RoutingTable option" where
  "routing_table ls i = (let st = dijkstra ls i in
     foldM (add_route ls i (prev st)) (map fst (dist st)) [])"

definition buildRoutingTable :: "'d Node \<Rightarrow> 'd Node option" where
  "buildRoutingTable n = do {
     temp \<leftarrow> routing_table (nLinks n) (nID n);
     Some (if \<not> compareRoutingTables temp n then n\<lparr>nRoutes := temp\<rparr> else n) }"

section \<open>Routes\<close>

inductive route :: "LinkSet \<Rightarrow> string \<Rightarrow> string \<Rightarrow> int \<Rightarrow> bool" for ls u where
  route_refl: "route ls u u 0"
| route_step: "route ls u v c \<Longrightarrow> ls_get ls v w = Some l \<Longrightarrow> route ls u w (c + Cost l)"

definition known :: "LinkSet \<Rightarrow> string \<Rightarrow> string set" where
  "known ls i = insert i {v. \<exists>s t l. ls_get ls s t = Some l \<and> (v = s \<or> v = t)}"

text \<open>
  The tables the algorithm is meant for: every link stored under its own endpoints, costs between 0
  and \<open>C\<close>, and no sum of costs along a path without repetition overflows.
\<close>

definition good_links :: "LinkSet \<Rightarrow> string \<Rightarrow> int \<Rightarrow> bool" where
  "good_links ls i C \<longleftrightarrow> ls_wf ls \<and> 0 \<le> C \<and> C * int (card (known ls i)) < MaxInt64 \<and>
     (\<forall>s t l. ls_get ls s t = Some l \<longrightarrow> Source l = s \<and> Target l = t \<and> 0 \<le> Cost l \<and> Cost l \<le> C)"

lemma good_linksD:
  assumes "good_links ls i C" and "ls_get ls s t = Some l"
  shows "Source l = s" "Target l = t" "0 \<le> Cost l" "Cost l \<le> C" "s \<in> known ls i" "t \<in> known ls i"
proof -
  show "Source l = s" "Target l = t" "0 \<le> Cost l" "Cost l \<le> C"
    using assms unfolding good_links_def by blast+
  show "s \<in> known ls i" "t \<in> known ls i" using assms(2) unfolding known_def by blast+
qed

lemma route_nonneg: "route ls u v c \<Longrightarrow> good_links ls i C \<Longrightarrow> 0 \<le> c"
proof (induction rule: route.induct)
  case (route_step v c w l)
  from route_step.IH [OF route_step.prems] good_linksD(3) [OF route_step.prems route_step.hyps(2)]
  show ?case by simp
qed simp

lemma route_known: "route ls i v c \<Longrightarrow> v \<in> known ls i"
  by (induction rule: route.induct) (auto simp: known_def)

lemma route_trans: "route ls v w d \<Longrightarrow> route ls u v c \<Longrightarrow> route ls u w (c + d)"
  by (induction rule: route.induct) (auto simp: add.assoc [symmetric] intro: route.intros)

lemma map_of_row:
  "ls_wf ls \<Longrightarrow> (t, l) \<in> set (ls_row ls s) \<longleftrightarrow> ls_get ls s t = Some l"
  using ls_wf_row [of ls s] by (auto simp: ls_get_def dest: map_of_SomeD intro: map_of_is_SomeI)

lemma in_table:
  assumes "ls_wf ls" and "(s, m) \<in> set ls"
  shows "(t, l) \<in> set m \<longleftrightarrow> ls_get ls s t = Some l"
proof -
  have "map_of ls s = Some m" using assms by (auto simp: ls_wf_def intro: map_of_is_SomeI)
  then show ?thesis using map_of_row [OF assms(1), of t l s] by (simp add: ls_row_def)
qed

lemma map_of_fold_init:
  "map_of (fold (\<lambda>(_, link) d. AList.update (Target link) M (AList.update (Source link) M d)) row d) v =
     (if \<exists>(t, l) \<in> set row. v = Source l \<or> v = Target l then Some M else map_of d v)"
proof (induction row arbitrary: d)
  case (Cons x row)
  obtain t l where x: "x = (t, l)" by (cases x)
  show ?case by (auto simp: Cons.IH x)
qed simp

lemma map_of_init_dist_rows:
  "map_of (fold (\<lambda>(_, targets). fold (\<lambda>(_, link) d.
      AList.update (Target link) M (AList.update (Source link) M d)) targets) ls d) v =
     (if \<exists>(s, m) \<in> set ls. \<exists>(t, l) \<in> set m. v = Source l \<or> v = Target l then Some M else map_of d v)"
proof (induction ls arbitrary: d)
  case (Cons x ls)
  obtain t m where x: "x = (t, m)" by (cases x)
  show ?case by (auto simp: Cons.IH x map_of_fold_init)
qed simp

lemma distinct_init_dist: "distinct (map fst (init_dist ls i))"
proof -
  have row: "distinct (map fst d) \<Longrightarrow> distinct (map fst (fold (\<lambda>(_, link) d.
      AList.update (Target link) M (AList.update (Source link) M d)) row d))" for row M and d :: "(string \<times> int) list"
    by (induction row arbitrary: d) (auto intro: distinct_update)
  have "distinct (map fst d) \<Longrightarrow> distinct (map fst (fold (\<lambda>(_, targets). fold (\<lambda>(_, link) d.
      AList.update (Target link) M (AList.update (Source link) M d)) targets) ls d))" for M and d :: "(string \<times> int) list"
    by (induction ls arbitrary: d) (auto intro: row)
  then show ?thesis by (auto simp: init_dist_def intro: distinct_update)
qed

lemma map_of_init_dist:
  assumes "good_links ls i C"
  shows "map_of (init_dist ls i) v =
    (if v = i then Some 0 else if v \<in> known ls i then Some MaxInt64 else None)"
proof -
  have wf: "ls_wf ls" using assms by (simp add: good_links_def)
  have "(\<exists>(s, m) \<in> set ls. \<exists>(t, l) \<in> set m. v = Source l \<or> v = Target l) \<longleftrightarrow>
      (\<exists>s t l. ls_get ls s t = Some l \<and> (v = s \<or> v = t))" (is "?L \<longleftrightarrow> ?R")
  proof
    assume ?L
    then obtain s m t l where "(s, m) \<in> set ls" "(t, l) \<in> set m" "v = Source l \<or> v = Target l" by auto
    moreover from this in_table [OF wf] have "ls_get ls s t = Some l" by blast
    ultimately show ?R using good_linksD [OF assms] by blast
  next
    assume ?R
    then obtain s t l where g: "ls_get ls s t = Some l" and v: "v = s \<or> v = t" by blast
    then obtain m where "map_of ls s = Some m" by (auto simp: ls_get_def ls_row_def split: option.splits)
    then have m: "(s, m) \<in> set ls" by (rule map_of_SomeD)
    with g in_table [OF wf] have "(t, l) \<in> set m" by blast
    moreover have "v = Source l \<or> v = Target l" using v good_linksD(1,2) [OF assms g] by simp
    ultimately show ?L using m by blast
  qed
  moreover have "v \<in> known ls i \<longleftrightarrow> v = i \<or> (\<exists>s t l. ls_get ls s t = Some l \<and> (v = s \<or> v = t))"
    by (simp add: known_def)
  ultimately have "v \<noteq> i \<Longrightarrow> ?L \<longleftrightarrow> v \<in> known ls i" by blast
  then show ?thesis
    unfolding init_dist_def map_of_update map_of_init_dist_rows by (cases "v = i") simp_all
qed

lemma set_init_dist:
  assumes "good_links ls i C"
  shows "set (map fst (init_dist ls i)) = known ls i"
proof -
  have "v \<in> set (map fst (init_dist ls i)) \<longleftrightarrow> v \<in> known ls i" for v
    using map_of_init_dist [OF assms, of v] map_of_eq_None_iff [of "init_dist ls i" v]
    by (auto simp: known_def split: if_splits)
  then show ?thesis by blast
qed

lemma finite_known: "good_links ls i C \<Longrightarrow> finite (known ls i)"
  using set_init_dist [of ls i C] by (metis List.finite_set)

section \<open>The invariant of the main loop\<close>

text \<open>Every visited node but the first was reached from one that was visited before it.\<close>

fun prev_order :: "(string \<rightharpoonup> string) \<Rightarrow> string \<Rightarrow> string list \<Rightarrow> bool" where
  "prev_order p i [] = True"
| "prev_order p i (v # vs) = (prev_order p i vs \<and> (v = i \<or> (\<exists>u \<in> set vs. p v = Some u)))"

text \<open>What is known of one node: its distance, if any, is the cost of a route over its predecessor.\<close>

definition node_ok :: "LinkSet \<Rightarrow> string \<Rightarrow> int \<Rightarrow> Dijkstra \<Rightarrow> string \<Rightarrow> bool" where
  "node_ok ls i B st v \<longleftrightarrow> dist_at (dist st) v \<le> MaxInt64 \<and>
     (prev st v \<noteq> None \<longrightarrow> v \<noteq> i \<and> dist_at (dist st) v < MaxInt64) \<and>
     (dist_at (dist st) v < MaxInt64 \<longrightarrow> route ls i v (dist_at (dist st) v) \<and> dist_at (dist st) v \<le> B \<and>
       (v = i \<or> (\<exists>u \<in> set (visited st). \<exists>l. prev st v = Some u \<and> ls_get ls u v = Some l \<and>
          dist_at (dist st) v = dist_at (dist st) u + Cost l)))"

definition final_ok :: "LinkSet \<Rightarrow> string \<Rightarrow> int \<Rightarrow> int \<Rightarrow> Dijkstra \<Rightarrow> string \<Rightarrow> bool" where
  "final_ok ls i m B st u \<longleftrightarrow> dist_at (dist st) u \<le> m \<and> dist_at (dist st) u \<le> B \<and>
     (\<forall>c. route ls i u c \<longrightarrow> dist_at (dist st) u \<le> c)"

text \<open>
  \<open>m\<close> is the distance of the node visited last and \<open>E\<close> the edges that are still to be relaxed.
\<close>

definition dij_inv :: "LinkSet \<Rightarrow> string \<Rightarrow> int \<Rightarrow> int \<Rightarrow> (string \<times> string) set \<Rightarrow> Dijkstra \<Rightarrow> bool" where
  "dij_inv ls i C m E st \<longleftrightarrow>
     distinct (map fst (dist st)) \<and> set (map fst (dist st)) = known ls i \<and> is_heap (queue st) \<and>
     distinct (visited st) \<and> set (visited st) \<subseteq> known ls i \<and> dist_at (dist st) i = 0 \<and> 0 \<le> m \<and> m < MaxInt64 \<and>
     (\<forall>v. prev st v \<noteq> None \<longrightarrow> v \<in> known ls i) \<and>
     (\<forall>v \<in> known ls i. node_ok ls i (C * int (length (visited st))) st v) \<and>
     (\<forall>u \<in> set (visited st). final_ok ls i m (C * (int (length (visited st)) - 1)) st u) \<and>
     (\<forall>v \<in> known ls i - set (visited st). m \<le> dist_at (dist st) v \<and>
        (dist_at (dist st) v < MaxInt64 \<longrightarrow> (v, dist_at (dist st) v) \<in># pq_elems (queue st))) \<and>
     (\<forall>x \<in># pq_elems (queue st). fst x \<in> known ls i \<and> dist_at (dist st) (fst x) \<le> snd x \<and>
        dist_at (dist st) (fst x) < MaxInt64) \<and>
     (\<forall>u \<in> set (visited st). \<forall>v l. ls_get ls u v = Some l \<and> (u, v) \<notin> E \<longrightarrow>
        dist_at (dist st) v \<le> dist_at (dist st) u + Cost l) \<and>
     prev_order (prev st) i (visited st)"

lemma dij_invI:
  assumes "distinct (map fst (dist st))" "set (map fst (dist st)) = known ls i" "is_heap (queue st)"
    "distinct (visited st)" "set (visited st) \<subseteq> known ls i" "dist_at (dist st) i = 0" "0 \<le> m" "m < MaxInt64"
    "\<And>v. prev st v \<noteq> None \<Longrightarrow> v \<in> known ls i"
    "\<And>v. v \<in> known ls i \<Longrightarrow> node_ok ls i (C * int (length (visited st))) st v"
    "\<And>u. u \<in> set (visited st) \<Longrightarrow> final_ok ls i m (C * (int (length (visited st)) - 1)) st u"
    "\<And>v. v \<in> known ls i \<Longrightarrow> v \<notin> set (visited st) \<Longrightarrow> m \<le> dist_at (dist st) v"
    "\<And>v. v \<in> known ls i \<Longrightarrow> v \<notin> set (visited st) \<Longrightarrow> dist_at (dist st) v < MaxInt64 \<Longrightarrow>
       (v, dist_at (dist st) v) \<in># pq_elems (queue st)"
    "\<And>x. x \<in># pq_elems (queue st) \<Longrightarrow> fst x \<in> known ls i \<and> dist_at (dist st) (fst x) \<le> snd x \<and>
       dist_at (dist st) (fst x) < MaxInt64"
    "\<And>u v l. u \<in> set (visited st) \<Longrightarrow> ls_get ls u v = Some l \<Longrightarrow> (u, v) \<notin> E \<Longrightarrow>
       dist_at (dist st) v \<le> dist_at (dist st) u + Cost l"
    "prev_order (prev st) i (visited st)"
  shows "dij_inv ls i C m E st"
  using assms unfolding dij_inv_def by blast

lemma dij_invD:
  assumes "dij_inv ls i C m E st"
  shows "distinct (map fst (dist st))" "set (map fst (dist st)) = known ls i" "is_heap (queue st)"
    "distinct (visited st)" "set (visited st) \<subseteq> known ls i" "dist_at (dist st) i = 0" "0 \<le> m" "m < MaxInt64"
    "\<And>v. prev st v \<noteq> None \<Longrightarrow> v \<in> known ls i"
    "\<And>v. v \<in> known ls i \<Longrightarrow> node_ok ls i (C * int (length (visited st))) st v"
    "\<And>u. u \<in> set (visited st) \<Longrightarrow> final_ok ls i m (C * (int (length (visited st)) - 1)) st u"
    "\<And>v. v \<in> known ls i \<Longrightarrow> v \<notin> set (visited st) \<Longrightarrow> m \<le> dist_at (dist st) v"
    "\<And>v. v \<in> known ls i \<Longrightarrow> v \<notin> set (visited st) \<Longrightarrow> dist_at (dist st) v < MaxInt64 \<Longrightarrow>
       (v, dist_at (dist st) v) \<in># pq_elems (queue st)"
    "\<And>x. x \<in># pq_elems (queue st) \<Longrightarrow> fst x \<in> known ls i \<and> dist_at (dist st) (fst x) \<le> snd x \<and>
       dist_at (dist st) (fst x) < MaxInt64"
    "\<And>u v l. u \<in> set (visited st) \<Longrightarrow> ls_get ls u v = Some l \<Longrightarrow> (u, v) \<notin> E \<Longrightarrow>
       dist_at (dist st) v \<le> dist_at (dist st) u + Cost l"
    "prev_order (prev st) i (visited st)"
  using assms unfolding dij_inv_def by blast+

lemma dist_at_update: "dist_at (AList.update k c d) v = (if v = k then c else dist_at d v)"
  by (simp add: dist_at_def)

lemma keys_update: "k \<in> set (map fst d) \<Longrightarrow> set (map fst (AList.update k c d)) = set (map fst d)"
  by (auto simp: dom_update)

lemma prev_order_update: "v \<notin> set vs \<Longrightarrow> prev_order (p(v \<mapsto> u)) i vs = prev_order p i vs"
  by (induction vs) auto

lemma dij_initial:
  assumes "good_links ls i C"
  shows "dij_inv ls i C 0 {} (dijkstra_init ls i)"
proof -
  have d: "dist_at (init_dist ls i) v = (if v = i then 0 else if v \<in> known ls i then MaxInt64 else 0)" for v
    by (simp add: dist_at_def map_of_init_dist [OF assms])
  have "is_heap []" by (simp add: heap_order_def)
  from heap.push_law [OF this, of i 0]
  have q: "is_heap (pq_push i 0 [])" "pq_elems (pq_push i 0 []) = {#(i, 0)#}" by (auto simp: pq_elems_def)
  have "i \<in> known ls i" by (simp add: known_def)
  then show ?thesis
    using q distinct_init_dist [of ls i] set_init_dist [OF assms]
    unfolding dij_inv_def dijkstra_init_def node_ok_def final_ok_def
    by (simp add: d route_refl del: set_map)
qed

text \<open>One edge is relaxed.\<close>

lemma dij_bound:
  assumes "good_links ls i C" and "dij_inv ls i C m E st"
  shows "C * int (length (visited st)) < MaxInt64"
proof -
  note d = dij_invD [OF assms(2)]
  have "card (set (visited st)) \<le> card (known ls i)"
    by (rule card_mono [OF finite_known [OF assms(1)] d(5)])
  then have "int (length (visited st)) \<le> int (card (known ls i))" using d(4) by (simp add: distinct_card)
  then have "C * int (length (visited st)) \<le> C * int (card (known ls i))"
    using assms(1) by (intro mult_left_mono) (auto simp: good_links_def)
  also have "\<dots> < MaxInt64" using assms(1) by (simp add: good_links_def)
  finally show ?thesis .
qed

lemma dij_update:
  assumes g: "good_links ls i C" and inv: "dij_inv ls i C m E st"
    and cur: "cur \<in> set (visited st)" "dist_at (dist st) cur = m" and l: "ls_get ls cur nb = Some l"
    and nv: "nb \<notin> set (visited st)" and nc: "c = m + Cost l" "c \<le> C * int (length (visited st))"
    and lt: "c < dist_at (dist st) nb" and rt: "route ls i cur m"
    and st2: "st2 = st\<lparr>dist := AList.update nb c (dist st), prev := (prev st)(nb \<mapsto> cur),
        queue := pq_push nb c (queue st)\<rparr>"
  shows "dij_inv ls i C m (E - {(cur, nb)}) st2"
proof -
  let ?d = "dist_at (dist st)" and ?k = "int (length (visited st))"
  note d = dij_invD [OF inv]
  note gl = good_linksD [OF g l]
  have max: "c < MaxInt64" using nc(2) dij_bound [OF g inv] by simp
  have ni: "nb \<noteq> i" using d(6,7) lt gl(3) nc(1) by auto
  have ncur: "nb \<noteq> cur" using cur nv by auto
  have d2: "dist_at (dist st2) v = (if v = nb then c else ?d v)" for v
    by (simp add: st2 dist_at_update)
  have v2: "visited st2 = visited st" and p2: "prev st2 = (prev st)(nb \<mapsto> cur)"
    by (simp_all add: st2)
  from heap.push_law [OF d(3), of nb c]
  have q2: "is_heap (queue st2)" "pq_elems (queue st2) = add_mset (nb, c) (pq_elems (queue st))"
    by (simp_all add: st2)
  have sub: "u \<in> set (visited st) \<Longrightarrow> u \<noteq> nb" for u using nv by blast
  show ?thesis
  proof (rule dij_invI, unfold v2)
    show "distinct (map fst (dist st2))" using d(1) by (simp add: st2 distinct_update)
    show "set (map fst (dist st2)) = known ls i"
      using keys_update [of nb "dist st"] d(2) gl(6) by (simp add: st2 del: set_map)
    show "dist_at (dist st2) i = 0" using d(6) ni by (simp add: d2)
    show "v \<in> known ls i" if "prev st2 v \<noteq> None" for v
      using that d(9) gl(6) by (cases "v = nb") (auto simp: p2)
    show "node_ok ls i (C * ?k) st2 v" if v: "v \<in> known ls i" for v
    proof (cases "v = nb")
      case True
      have "route ls i nb c" unfolding nc(1) by (rule route_step [OF rt l])
      then show ?thesis using True ni ncur cur l nc max by (auto simp: node_ok_def d2 v2 p2)
    next
      case f: False
      from d(10) [OF v] show ?thesis using f sub by (auto simp: node_ok_def d2 v2 p2)
    qed
    show "final_ok ls i m (C * (?k - 1)) st2 u" if "u \<in> set (visited st)" for u
      using d(11) [OF that] sub [OF that] by (simp add: final_ok_def d2)
    show "m \<le> dist_at (dist st2) v" if "v \<in> known ls i" "v \<notin> set (visited st)" for v
      using d(12) [OF that] gl(3) by (simp add: d2 nc(1))
    show "(v, dist_at (dist st2) v) \<in># pq_elems (queue st2)"
      if "v \<in> known ls i" "v \<notin> set (visited st)" "dist_at (dist st2) v < MaxInt64" for v
      using d(13) [OF that(1,2)] that(3) by (cases "v = nb") (simp_all add: d2 q2(2))
    show "fst x \<in> known ls i \<and> dist_at (dist st2) (fst x) \<le> snd x \<and> dist_at (dist st2) (fst x) < MaxInt64"
      if "x \<in># pq_elems (queue st2)" for x
    proof (cases "x \<in># pq_elems (queue st)")
      case True
      from d(14) [OF this] show ?thesis using lt max by (auto simp: d2)
    next
      case False
      with that have "x = (nb, c)" by (simp add: q2(2))
      then show ?thesis using gl(6) max by (simp add: d2)
    qed
    show "dist_at (dist st2) v \<le> dist_at (dist st2) u + Cost x"
      if e: "u \<in> set (visited st)" "ls_get ls u v = Some x" "(u, v) \<notin> E - {(cur, nb)}" for u v x
    proof (cases "(u, v) = (cur, nb)")
      case True with e l ncur cur(2) nc(1) show ?thesis by (simp add: d2)
    next
      case False
      with e have "(u, v) \<notin> E" by blast
      from d(15) [OF e(1,2) this] show ?thesis using lt sub [OF e(1)] by (cases "v = nb") (simp_all add: d2)
    qed
    show "prev_order (prev st2) i (visited st)" using d(16) nv by (simp add: p2 prev_order_update)
  qed (use d q2 in simp_all)
qed

lemma dij_relax:
  assumes g: "good_links ls i C" and inv: "dij_inv ls i C m E st"
    and cur: "cur \<in> set (visited st)" "dist_at (dist st) cur = m" and l: "ls_get ls cur nb = Some l"
  shows "dij_inv ls i C m (E - {(cur, nb)}) (relax cur (nb, l) st)"
    and "dist_at (dist (relax cur (nb, l) st)) cur = m"
proof -
  let ?d = "dist_at (dist st)" and ?k = "int (length (visited st))"
  note d = dij_invD [OF inv]
  note gl = good_linksD [OF g l]
  have nc: "m + Cost l \<le> C * ?k"
    using d(11) [OF cur(1)] cur(2) gl(4) by (simp add: final_ok_def algebra_simps)
  have i: "i64 (?d cur + Cost l) = m + Cost l"
    using cur(2) d(7) gl(3) nc dij_bound [OF g inv] by simp
  have "cur \<in> known ls i" using cur(1) d(5) by blast
  from d(10) [OF this] have rt: "route ls i cur m" using cur(2) d(8) by (simp add: node_ok_def)
  show "dij_inv ls i C m (E - {(cur, nb)}) (relax cur (nb, l) st)"
  proof (cases "nb \<in> set (visited st) \<or> \<not> m + Cost l < ?d nb")
    case True
    then have st: "relax cur (nb, l) st = st" using i by (auto simp: relax_def Let_def)
    have "?d nb \<le> m + Cost l"
    proof (cases "nb \<in> set (visited st)")
      case True
      from d(11) [OF this] gl(3) show ?thesis by (simp add: final_ok_def)
    qed (use True in simp)
    then have "?d v \<le> ?d u + Cost x"
      if "u \<in> set (visited st)" "ls_get ls u v = Some x" "(u, v) \<notin> E - {(cur, nb)}" for u v x
      using d(15) [OF that(1,2)] that cur(2) l by (cases "(u, v) = (cur, nb)") auto
    with d show ?thesis unfolding st by (intro dij_invI) simp_all
  next
    case False
    then have "nb \<notin> set (visited st)" and "m + Cost l < ?d nb" by auto
    from dij_update [OF g inv cur l this(1) refl nc this(2) rt refl] this i cur(2)
    show ?thesis by (simp add: relax_def Let_def)
  qed
  show "dist_at (dist (relax cur (nb, l) st)) cur = m"
    using cur by (auto simp: relax_def Let_def dist_at_update)
qed

lemma dij_relax_row:
  assumes g: "good_links ls i C" and "dij_inv ls i C m E st" and "cur \<in> set (visited st)"
    and "dist_at (dist st) cur = m" and "\<And>x. x \<in> set row \<Longrightarrow> ls_get ls cur (fst x) = Some (snd x)"
  shows "dij_inv ls i C m (E - {cur} \<times> fst ` set row) (fold (relax cur) row st)"
  using assms(2-)
proof (induction row arbitrary: E st)
  case (Cons x row)
  obtain nb l where x: "x = (nb, l)" by (cases x)
  have l: "ls_get ls cur nb = Some l" using Cons.prems(4) [of x] x by simp
  note r = dij_relax [OF g Cons.prems(1-3) l]
  have v: "visited (relax cur x st) = visited st" using visited_relax [of cur "[x]" st] by simp
  have "dij_inv ls i C m (E - {(cur, nb)} - {cur} \<times> fst ` set row) (fold (relax cur) row (relax cur x st))"
    using r Cons.prems v x by (intro Cons.IH) auto
  moreover have "E - {(cur, nb)} - {cur} \<times> fst ` set row = E - {cur} \<times> fst ` set (x # row)"
    using x by auto
  ultimately show ?case by simp
qed simp

lemma dij_pop_visited:
  assumes "dij_inv ls i C m {} st" and "pq_pop (queue st) = Some ((cur, c), q)" and "cur \<in> set (visited st)"
  shows "dij_inv ls i C m {} (st\<lparr>queue := q\<rparr>)"
proof -
  note d = dij_invD [OF assms(1)]
  note p = heap.pop_SomeD [OF d(3) assms(2)]
  show ?thesis
  proof (rule dij_invI)
    show "(v, dist_at (dist (st\<lparr>queue := q\<rparr>)) v) \<in># pq_elems (queue (st\<lparr>queue := q\<rparr>))"
      if "v \<in> known ls i" "v \<notin> set (visited (st\<lparr>queue := q\<rparr>))" "dist_at (dist (st\<lparr>queue := q\<rparr>)) v < MaxInt64" for v
      using d(13) [of v] that assms(3) p(2) by auto
  qed (use d p in \<open>auto simp: node_ok_def final_ok_def\<close>)
qed

text \<open>The first unvisited node on a route is not farther than the end of the route.\<close>

lemma frontier:
  assumes "dij_inv ls i C m {} st" and "good_links ls i C"
  shows "route ls i v c \<Longrightarrow> v \<notin> set (visited st) \<Longrightarrow>
    \<exists>w \<in> known ls i. w \<notin> set (visited st) \<and> dist_at (dist st) w \<le> c"
proof (induction rule: route.induct)
  case (route_refl)
  then show ?case using dij_invD(6) [OF assms(1)] by (auto simp: known_def)
next
  case (route_step v c w l)
  note gl = good_linksD [OF assms(2) route_step.hyps(2)]
  show ?case
  proof (cases "v \<in> set (visited st)")
    case True
    have "dist_at (dist st) w \<le> dist_at (dist st) v + Cost l"
      using dij_invD(15) [OF assms(1) True route_step.hyps(2)] by simp
    moreover have "dist_at (dist st) v \<le> c"
      using dij_invD(11) [OF assms(1) True] route_step.hyps(1) by (simp add: final_ok_def)
    ultimately show ?thesis using gl(6) route_step.prems by force
  next
    case False
    from route_step.IH [OF False] gl(3) show ?thesis by force
  qed
qed

lemma dij_pop_new:
  assumes g: "good_links ls i C" and inv: "dij_inv ls i C m {} st"
    and pop: "pq_pop (queue st) = Some ((cur, c), q)" and new: "cur \<notin> set (visited st)"
  shows "dij_inv ls i C c ({cur} \<times> UNIV) (st\<lparr>queue := q, visited := cur # visited st\<rparr>) \<and>
    dist_at (dist st) cur = c"
proof -
  let ?d = "dist_at (dist st)" and ?k = "int (length (visited st))"
  let ?st = "st\<lparr>queue := q, visited := cur # visited st\<rparr>"
  note d = dij_invD [OF inv]
  note p = heap.pop_SomeD [OF d(3) pop]
  from d(14) [of "(cur, c)"] p(2) have cur: "cur \<in> known ls i" "?d cur \<le> c" "?d cur < MaxInt64" by auto
  from d(13) [OF cur(1) new cur(3)] p(2,3) have "c \<le> ?d cur" by auto
  with cur(2) have c: "?d cur = c" by simp
  have least: "c \<le> ?d v" if "v \<in> known ls i" "v \<notin> set (visited st)" for v
  proof (cases "?d v < MaxInt64")
    case True
    from d(13) [OF that True] p(2,3) show ?thesis by auto
  qed (use cur c in simp)
  have min: "c \<le> c'" if "route ls i cur c'" for c'
    using frontier [OF inv g that new] least by force
  have n: "node_ok ls i (C * ?k) st cur" by (rule d(10) [OF cur(1)])
  have C0: "0 \<le> C" using g by (simp add: good_links_def)
  have "dij_inv ls i C c ({cur} \<times> UNIV) ?st"
  proof (rule dij_invI)
    show "distinct (visited ?st)" using d(4) new by simp
    show "set (visited ?st) \<subseteq> known ls i" using d(5) cur(1) by simp
    show "0 \<le> c" using d(7,12) [OF ] cur(1) new c by (metis d(7) d(12) order_trans)
    show "node_ok ls i (C * int (length (visited ?st))) ?st v" if "v \<in> known ls i" for v
      using d(10) [OF that] C0 by (auto simp: node_ok_def algebra_simps)
    show "final_ok ls i c (C * (int (length (visited ?st)) - 1)) ?st u" if "u \<in> set (visited ?st)" for u
    proof (cases "u = cur")
      case True
      then show ?thesis using n c cur(3) min by (simp add: final_ok_def node_ok_def)
    next
      case False
      with that have "u \<in> set (visited st)" by simp
      from d(11) [OF this] d(12) [OF cur(1) new] c C0 show ?thesis
        by (auto simp: final_ok_def algebra_simps)
    qed
    show "c \<le> dist_at (dist ?st) v" if "v \<in> known ls i" "v \<notin> set (visited ?st)" for v
      using least that by simp
    show "(v, dist_at (dist ?st) v) \<in># pq_elems (queue ?st)"
      if "v \<in> known ls i" "v \<notin> set (visited ?st)" "dist_at (dist ?st) v < MaxInt64" for v
      using d(13) [of v] that p(2) by auto
    show "prev_order (prev ?st) i (visited ?st)"
      using d(16) n cur(3) by (auto simp: node_ok_def)
    show "dist_at (dist ?st) v \<le> dist_at (dist ?st) u + Cost l"
      if "u \<in> set (visited ?st)" "ls_get ls u v = Some l" "(u, v) \<notin> {cur} \<times> UNIV" for u v l
      using d(15) [of u v l] that by auto
  qed (use d p cur c in auto)
  with c show ?thesis by simp
qed

lemma dij_loop:
  assumes "good_links ls i C" and "dij_inv ls i C m {} st"
  shows "\<exists>m'. dij_inv ls i C m' {} (dijkstra_loop ls st) \<and> pq_elems (queue (dijkstra_loop ls st)) = {#}"
  using assms
proof (induction ls st arbitrary: m rule: dijkstra_loop.induct)
  case (1 ls st)
  note d = dij_invD [OF 1(4)]
  show ?case
  proof (cases "pq_pop (queue st)")
    case None
    then have "dijkstra_loop ls st = st" by (subst dijkstra_loop.simps) simp
    with 1(4) heap.pop_NoneD [OF d(3) None] show ?thesis by auto
  next
    case (Some x)
    obtain cur c q where x: "x = ((cur, c), q)" by (cases x) auto
    note pop = Some [unfolded x]
    show ?thesis
    proof (cases "cur \<in> set (visited st)")
      case True
      then have e: "dijkstra_loop ls st = dijkstra_loop ls (st\<lparr>queue := q\<rparr>)"
        using pop by (subst dijkstra_loop.simps) simp
      show ?thesis
        unfolding e by (rule 1(1) [OF Some _ _ True 1(3) dij_pop_visited [OF 1(4) pop True]]) (simp_all add: x)
    next
      case False
      let ?s = "st\<lparr>queue := q, visited := cur # visited st\<rparr>"
      have e: "dijkstra_loop ls st = dijkstra_loop ls (fold (relax cur) (ls_row ls cur) ?s)"
        using pop False by (subst dijkstra_loop.simps) simp
      have wf: "ls_wf ls" using 1(3) by (simp add: good_links_def)
      have row: "x \<in> set (ls_row ls cur) \<Longrightarrow> ls_get ls cur (fst x) = Some (snd x)" for x
        using map_of_row [OF wf, of "fst x" "snd x" cur] by simp
      note n = dij_pop_new [OF 1(3,4) pop False]
      have "dij_inv ls i C c ({cur} \<times> UNIV - {cur} \<times> fst ` set (ls_row ls cur))
          (fold (relax cur) (ls_row ls cur) ?s)"
        using n row by (intro dij_relax_row [OF 1(3)]) auto
      note r = dij_invD [OF this]
      have "dij_inv ls i C c {} (fold (relax cur) (ls_row ls cur) ?s)"
      proof (rule dij_invI)
        let ?f = "fold (relax cur) (ls_row ls cur) ?s"
        show "dist_at (dist ?f) v \<le> dist_at (dist ?f) u + Cost l"
          if "u \<in> set (visited ?f)" "ls_get ls u v = Some l" "(u, v) \<notin> {}" for u v l
        proof (rule r(15) [OF that(1,2)])
          show "(u, v) \<notin> {cur} \<times> UNIV - {cur} \<times> fst ` set (ls_row ls cur)"
            using that(2) by (force simp flip: map_of_row [OF wf])
        qed
      qed (use r in simp_all)
      then show ?thesis
        unfolding e by (intro 1(2) [OF Some _ _ False 1(3)]) (simp_all add: x)
    qed
  qed
qed

section \<open>What the loop computes\<close>

lemma dijkstra_final:
  assumes "good_links ls i C"
  shows "\<exists>m. dij_inv ls i C m {} (dijkstra ls i) \<and> pq_elems (queue (dijkstra ls i)) = {#}"
  unfolding dijkstra_def by (rule dij_loop [OF assms dij_initial [OF assms]])

lemma dijkstra_visited:
  assumes "good_links ls i C" and "v \<in> known ls i"
  shows "dist_at (dist (dijkstra ls i)) v < MaxInt64 \<longleftrightarrow> v \<in> set (visited (dijkstra ls i))"
    and "v \<in> set (visited (dijkstra ls i)) \<longleftrightarrow> (\<exists>c. route ls i v c)"
proof -
  let ?st = "dijkstra ls i"
  obtain m where inv: "dij_inv ls i C m {} ?st" and q: "pq_elems (queue ?st) = {#}"
    using dijkstra_final [OF assms(1)] by blast
  note d = dij_invD [OF inv]
  have lt: "dist_at (dist ?st) v < MaxInt64 \<longleftrightarrow> v \<in> set (visited ?st)" if "v \<in> known ls i" for v
    using d(13) [OF that] d(8) d(11) [of v] q by (fastforce simp: final_ok_def)
  show "dist_at (dist ?st) v < MaxInt64 \<longleftrightarrow> v \<in> set (visited ?st)" by (rule lt [OF assms(2)])
  have "v \<in> set (visited ?st)" if "route ls i v c" for c
    using that
  proof (induction rule: route.induct)
    case route_refl
    show ?case using lt [of i] d(6) by (simp add: known_def)
  next
    case (route_step v c w l)
    note gl = good_linksD [OF assms(1) route_step.hyps(2)]
    show ?case
    proof (rule ccontr)
      assume n: "w \<notin> set (visited ?st)"
      have "dist_at (dist ?st) v \<le> C * (int (length (visited ?st)) - 1)"
        using d(11) [OF route_step.IH] by (simp add: final_ok_def)
      then have "dist_at (dist ?st) v + Cost l \<le> C * int (length (visited ?st))"
        using gl(4) by (simp add: algebra_simps)
      then have "dist_at (dist ?st) w < MaxInt64"
        using d(15) [OF route_step.IH route_step.hyps(2)] dij_bound [OF assms(1) inv] by simp
      with lt [OF gl(6)] n show False by simp
    qed
  qed
  moreover have "\<exists>c. route ls i v c" if "v \<in> set (visited ?st)"
    using d(10) [OF assms(2)] lt [OF assms(2)] that by (auto simp: node_ok_def)
  ultimately show "v \<in> set (visited ?st) \<longleftrightarrow> (\<exists>c. route ls i v c)" by blast
qed

section \<open>The walk along the predecessors\<close>

fun path_cost :: "LinkSet \<Rightarrow> string \<Rightarrow> string list \<Rightarrow> int option" where
  "path_cost ls u [] = Some 0"
| "path_cost ls u (v # vs) = do { l \<leftarrow> ls_get ls u v; c \<leftarrow> path_cost ls v vs; Some (Cost l + c) }"

lemma path_cost_snoc:
  "path_cost ls u vs = Some c \<Longrightarrow> ls_get ls (last (u # vs)) w = Some l \<Longrightarrow>
     path_cost ls u (vs @ [w]) = Some (c + Cost l)"
  by (induction vs arbitrary: u c) (auto split: bind_splits)

lemma path_cost_route: "path_cost ls u vs = Some c \<Longrightarrow> route ls u (last (u # vs)) c"
proof (induction vs arbitrary: u c)
  case (Cons v vs)
  then obtain l e where l: "ls_get ls u v = Some l" and e: "path_cost ls v vs = Some e" "c = Cost l + e"
    by (auto split: bind_splits)
  have "route ls u v (0 + Cost l)" by (rule route_step [OF route_refl l])
  from route_trans [OF Cons.IH [OF e(1)] this] e(2) show ?case by simp
qed (simp add: route_refl)

lemma walk_back_ok:
  assumes inv: "dij_inv ls i C m {} st" and q: "pq_elems (queue st) = {#}"
    and "prev_order (prev st) i vs" and "set vs \<subseteq> set (visited st)" and "v \<in> set vs" and "v \<noteq> i"
  shows "\<exists>pre. walk_back (prev st) i (v # rest) = Some (pre @ v # rest) \<and>
    path_cost ls i (pre @ [v]) = Some (dist_at (dist st) v)"
  using assms(3-)
proof (induction vs arbitrary: v rest)
  case (Cons x vs)
  note d = dij_invD [OF inv]
  show ?case
  proof (cases "v \<in> set vs")
    case True
    with Cons show ?thesis by simp
  next
    case False
    with Cons.prems obtain u where v: "v = x" and u: "u \<in> set vs" "prev st v = Some u" by auto
    have vk: "v \<in> known ls i" using Cons.prems(2) v d(5) by auto
    have "dist_at (dist st) v < MaxInt64"
      using d(11) [of v] d(8) Cons.prems(2) v by (auto simp: final_ok_def)
    with d(10) [OF vk] u(2) Cons.prems(4) obtain l where l: "ls_get ls u v = Some l"
      "dist_at (dist st) v = dist_at (dist st) u + Cost l" by (auto simp: node_ok_def)
    have p: "prev_at (prev st) v = u" using u(2) by (simp add: prev_at_def)
    show ?thesis
    proof (cases "u = i")
      case True
      have "walk_back (prev st) i (v # rest) = Some (v # rest)"
        using p True by (subst walk_back.simps) simp
      then show ?thesis using l True d(6) by (intro exI [of _ "[]"]) simp
    next
      case False
      have "prev_order (prev st) i vs" and "set vs \<subseteq> set (visited st)" using Cons.prems(1,2) by auto
      from Cons.IH [OF this u(1) False, of "v # rest"] obtain pre where
        w: "walk_back (prev st) i (u # v # rest) = Some (pre @ u # v # rest)"
        and c: "path_cost ls i (pre @ [u]) = Some (dist_at (dist st) u)" by blast
      have "walk_back (prev st) i (v # rest) = walk_back (prev st) i (u # v # rest)"
        using p False by (subst walk_back.simps) simp
      moreover have "path_cost ls i ((pre @ [u]) @ [v]) = Some (dist_at (dist st) v)"
        using path_cost_snoc [OF c, of v l] l by simp
      ultimately show ?thesis using w by (intro exI [of _ "pre @ [u]"]) simp
    qed
  qed
qed simp

lemma walk_back_stuck:
  assumes "p [] = None" and "i \<noteq> []" and "p (hd path) = None"
  shows "walk_back p i path = None"
proof -
  have "p [] \<noteq> None \<or> i = [] \<or> p (hd path) \<noteq> None" if "walk_back p i path = Some r" for r
  proof (rule walk_back.raw_induct [OF _ that])
    fix wb p i path r
    assume ih: "\<And>p i path r. wb p i path = Some r \<Longrightarrow> p [] \<noteq> None \<or> i = [] \<or> p (hd path) \<noteq> None"
      and r: "(if prev_at p (hd path) = i then Some path else wb p i (prev_at p (hd path) # path)) = Some r"
    show "p [] \<noteq> None \<or> i = [] \<or> p (hd path) \<noteq> None"
    proof (cases "prev_at p (hd path) = i")
      case True
      then show ?thesis by (auto simp: prev_at_def split: option.splits)
    next
      case False
      with r ih have "p [] \<noteq> None \<or> i = [] \<or> p (prev_at p (hd path)) \<noteq> None" by fastforce
      then show ?thesis by (auto simp: prev_at_def split: option.splits)
    qed
  qed
  with assms show ?thesis by (cases "walk_back p i path") auto
qed

lemma map_of_add_route:
  assumes "add_route ls i p x tab = Some tab'"
  shows "map_of tab' t = (if t = x \<and> t \<noteq> i
     then map_option (\<lambda>path. [route_entry ls i (hd path)]) (walk_back p i [t]) else map_of tab t)"
  using assms by (auto simp: add_route_def split: if_splits bind_splits)

lemma map_of_foldM_add_route:
  assumes "foldM (add_route ls i p) ts tab = Some tab'"
  shows "map_of tab' t = (if t \<in> set ts \<and> t \<noteq> i
     then map_option (\<lambda>path. [route_entry ls i (hd path)]) (walk_back p i [t]) else map_of tab t)"
  using assms
proof (induction ts arbitrary: tab)
  case (Cons x ts)
  then obtain tab1 where 1: "add_route ls i p x tab = Some tab1" and 2: "foldM (add_route ls i p) ts tab1 = Some tab'"
    by (auto split: bind_splits)
  show ?case unfolding Cons.IH [OF 2] map_of_add_route [OF 1] by simp
qed simp

lemma distinct_foldM_add_route:
  assumes "foldM (add_route ls i p) ts tab = Some tab'" and "distinct (map fst tab)"
  shows "distinct (map fst tab')"
  using assms by (rule foldM_invariant) (auto simp: add_route_def split: if_splits bind_splits intro: distinct_update)

lemma compare_same:
  assumes "compareRoutingTables temp n" and "distinct (map fst (nRoutes n))" and "distinct (map fst temp)"
  shows "map_of (nRoutes n) t = map_of temp t"
proof -
  have len: "length (nRoutes n) = length temp"
    and sub: "\<And>t r. (t, r) \<in> set (nRoutes n) \<Longrightarrow> map_of temp t = Some r"
    using assms(1) by (auto simp: compareRoutingTables_def list_all_iff list.rel_eq split: if_splits option.splits)
  have "fst ` set (nRoutes n) \<subseteq> fst ` set temp" using sub by (force dest: map_of_SomeD)
  moreover have "card (fst ` set (nRoutes n)) = card (fst ` set temp)"
    using assms(2,3) len by (metis distinct_card length_map list.set_map)
  ultimately have keys: "fst ` set (nRoutes n) = fst ` set temp"
    by (intro card_subset_eq) auto
  show ?thesis
  proof (cases "map_of (nRoutes n) t")
    case None
    with keys show ?thesis by (metis map_of_eq_None_iff list.set_map)
  next
    case (Some r)
    from sub [OF map_of_SomeD [OF this]] Some show ?thesis by simp
  qed
qed

section \<open>The routing table\<close>

lemma routing_table_cases:
  assumes g: "good_links ls i C" and ne: "i \<noteq> []" "[] \<notin> known ls i"
  shows "(\<exists>t \<in> known ls i. \<nexists>c. route ls i t c) \<Longrightarrow> routing_table ls i = None"
    and "\<forall>t \<in> known ls i. \<exists>c. route ls i t c \<Longrightarrow> \<exists>tab. routing_table ls i = Some tab \<and>
      distinct (map fst tab) \<and> (\<forall>t. t \<notin> known ls i - {i} \<longrightarrow> map_of tab t = None) \<and>
      (\<forall>t \<in> known ls i - {i}. \<exists>hop path c. map_of tab t = Some [route_entry ls i hop] \<and>
         path_cost ls i (hop # path) = Some c \<and> last (hop # path) = t \<and> (\<forall>c'. route ls i t c' \<longrightarrow> c \<le> c'))"
proof -
  let ?st = "dijkstra ls i"
  obtain m where inv: "dij_inv ls i C m {} ?st" and q: "pq_elems (queue ?st) = {#}"
    using dijkstra_final [OF g] by blast
  note d = dij_invD [OF inv]
  note v = dijkstra_visited [OF g]
  have tab: "routing_table ls i = foldM (add_route ls i (prev ?st)) (map fst (dist ?st)) []"
    by (simp add: routing_table_def Let_def)
  have ik: "i \<in> known ls i" by (simp add: known_def)
  show "routing_table ls i = None" if unreachable: "\<exists>t \<in> known ls i. \<nexists>c. route ls i t c"
  proof -
    from unreachable obtain t where t: "t \<in> known ls i" "\<nexists>c. route ls i t c" by blast
    have "t \<noteq> i" using t(2) route_refl by blast
    have "prev ?st t = None" using d(10) [OF t(1)] v [OF t(1)] t(2) by (auto simp: node_ok_def)
    moreover have "prev ?st [] = None" using d(9) [of "[]"] ne(2) by (cases "prev ?st []") auto
    ultimately have "add_route ls i (prev ?st) t s = None" for s
      using \<open>t \<noteq> i\<close> ne(1) by (simp add: add_route_def walk_back_stuck)
    moreover have "t \<in> set (map fst (dist ?st))" using t(1) d(2) by simp
    ultimately show ?thesis unfolding tab by (rule foldM_None [rotated])
  qed
  assume all: "\<forall>t \<in> known ls i. \<exists>c. route ls i t c"
  have walk: "\<exists>pre. walk_back (prev ?st) i [t] = Some (pre @ [t]) \<and>
      path_cost ls i (pre @ [t]) = Some (dist_at (dist ?st) t)" if "t \<in> known ls i" "t \<noteq> i" for t
    using walk_back_ok [OF inv q d(16) order_refl, of t "[]"] v(2) all that by auto
  have "\<exists>tab'. add_route ls i (prev ?st) t tab = Some tab'" if "t \<in> known ls i" for t tab
    using walk [OF that] by (cases "t = i") (auto simp: add_route_def)
  then have "\<exists>tab. foldM (add_route ls i (prev ?st)) (map fst (dist ?st)) [] = Some tab \<and> True"
    using d(2) by (intro foldM_total) auto
  then obtain tb where tb: "foldM (add_route ls i (prev ?st)) (map fst (dist ?st)) [] = Some tb" by blast
  note lookup = map_of_foldM_add_route [OF tb, unfolded d(2)]
  show "\<exists>tab. routing_table ls i = Some tab \<and>
      distinct (map fst tab) \<and> (\<forall>t. t \<notin> known ls i - {i} \<longrightarrow> map_of tab t = None) \<and>
      (\<forall>t \<in> known ls i - {i}. \<exists>hop path c. map_of tab t = Some [route_entry ls i hop] \<and>
         path_cost ls i (hop # path) = Some c \<and> last (hop # path) = t \<and> (\<forall>c'. route ls i t c' \<longrightarrow> c \<le> c'))"
  proof (intro exI [of _ tb] conjI ballI allI impI)
    show "routing_table ls i = Some tb" using tab tb by simp
    show "distinct (map fst tb)" using distinct_foldM_add_route [OF tb] by simp
    show "map_of tb t = None" if "t \<notin> known ls i - {i}" for t using that by (auto simp: lookup)
    fix t assume t: "t \<in> known ls i - {i}"
    then obtain pre where w: "walk_back (prev ?st) i [t] = Some (pre @ [t])"
      "path_cost ls i (pre @ [t]) = Some (dist_at (dist ?st) t)" using walk by blast
    obtain hop path where hp: "pre @ [t] = hop # path" by (cases pre) auto
    have vis: "t \<in> set (visited ?st)" using t all v(2) by blast
    have "map_of tb t = Some [route_entry ls i hop]" using t w(1) hp by (simp add: lookup)
    moreover have "last (hop # path) = t" using hp by (metis last_snoc)
    moreover have "\<forall>c'. route ls i t c' \<longrightarrow> dist_at (dist ?st) t \<le> c'"
      using d(11) [OF vis] by (simp add: final_ok_def)
    ultimately show "\<exists>hop path c. map_of tb t = Some [route_entry ls i hop] \<and>
         path_cost ls i (hop # path) = Some c \<and> last (hop # path) = t \<and> (\<forall>c'. route ls i t c' \<longrightarrow> c \<le> c')"
      using w(2) hp by metis
  qed
qed

section \<open>Properties\<close>

text \<open>
  C5: Routing: when every known node can be reached, \<open>buildRoutingTable\<close> returns, the table has one
  entry for every other known node, and following the links from the next hop in the entry (through
  the channel of the link to it) reaches the target along a path of least total cost.
\<close>

theorem routing_table_shortest:
  assumes "good_links (nLinks n) (nID n) C" and "nID n \<noteq> []" and "[] \<notin> known (nLinks n) (nID n)"
    and "distinct (map fst (nRoutes n))"
    and "\<forall>t \<in> known (nLinks n) (nID n). \<exists>c. route (nLinks n) (nID n) t c"
  shows "\<exists>n'. buildRoutingTable n = Some n' \<and> nLinks n' = nLinks n \<and>
    (\<forall>t. t \<notin> known (nLinks n) (nID n) - {nID n} \<longrightarrow> map_of (nRoutes n') t = None) \<and>
    (\<forall>t \<in> known (nLinks n) (nID n) - {nID n}. \<exists>hop path c l.
       map_of (nRoutes n') t = Some [\<lparr>LocalChannelID = lkChannel l, nextHopNodeID = hop\<rparr>] \<and>
       ls_get (nLinks n) (nID n) hop = Some l \<and>
       path_cost (nLinks n) (nID n) (hop # path) = Some c \<and> last (hop # path) = t \<and>
       (\<forall>c'. route (nLinks n) (nID n) t c' \<longrightarrow> c \<le> c'))"
proof -
  from routing_table_cases(2) [OF assms(1-3,5)] obtain tab where
    tab: "routing_table (nLinks n) (nID n) = Some tab" "distinct (map fst tab)"
      "\<forall>t. t \<notin> known (nLinks n) (nID n) - {nID n} \<longrightarrow> map_of tab t = None"
      "\<forall>t \<in> known (nLinks n) (nID n) - {nID n}. \<exists>hop path c.
         map_of tab t = Some [route_entry (nLinks n) (nID n) hop] \<and>
         path_cost (nLinks n) (nID n) (hop # path) = Some c \<and> last (hop # path) = t \<and>
         (\<forall>c'. route (nLinks n) (nID n) t c' \<longrightarrow> c \<le> c')" by blast
  let ?n = "if \<not> compareRoutingTables tab n then n\<lparr>nRoutes := tab\<rparr> else n"
  have b: "buildRoutingTable n = Some ?n" using tab(1) by (simp add: buildRoutingTable_def)
  have r: "map_of (nRoutes ?n) t = map_of tab t" for t
    using compare_same [OF _ assms(4) tab(2), of t] by simp
  have l: "\<exists>l. ls_get (nLinks n) (nID n) hop = Some l \<and>
      route_entry (nLinks n) (nID n) hop = \<lparr>LocalChannelID = lkChannel l, nextHopNodeID = hop\<rparr>"
    if "path_cost (nLinks n) (nID n) (hop # path) = Some c" for hop path c
    using that by (auto simp: route_entry_def split: bind_splits)
  show ?thesis
  proof (intro exI [of _ ?n] conjI ballI)
    show "\<forall>t. t \<notin> known (nLinks n) (nID n) - {nID n} \<longrightarrow> map_of (nRoutes ?n) t = None"
    proof (intro allI impI)
      fix t assume "t \<notin> known (nLinks n) (nID n) - {nID n}"
      then have "map_of tab t = None" by (rule tab(3) [rule_format])
      then show "map_of (nRoutes ?n) t = None" by (simp only: r)
    qed
    fix t assume "t \<in> known (nLinks n) (nID n) - {nID n}"
    with tab(4) obtain hop path c where h: "map_of tab t = Some [route_entry (nLinks n) (nID n) hop]"
      "path_cost (nLinks n) (nID n) (hop # path) = Some c" "last (hop # path) = t"
      "\<forall>c'. route (nLinks n) (nID n) t c' \<longrightarrow> c \<le> c'" by blast
    from l [OF h(2)] h show "\<exists>hop path c l.
       map_of (nRoutes ?n) t = Some [\<lparr>LocalChannelID = lkChannel l, nextHopNodeID = hop\<rparr>] \<and>
       ls_get (nLinks n) (nID n) hop = Some l \<and>
       path_cost (nLinks n) (nID n) (hop # path) = Some c \<and> last (hop # path) = t \<and>
       (\<forall>c'. route (nLinks n) (nID n) t c' \<longrightarrow> c \<le> c')" by (simp only: r) metis
  qed (use b in simp_all)
qed

definition ex_table :: LinkSet where
  "ex_table = [(''a'', [(''b'', ex_link ''a'' ''b'' 1 0), (''c'', ex_link ''a'' ''c'' 9 0)]),
     (''b'', [(''c'', ex_link ''b'' ''c'' 2 0)]), (''c'', [(''a'', ex_link ''c'' ''a'' 4 0)])]"

lemma ex_table_get: "ls_get ex_table s t =
  (if s = ''a'' \<and> t = ''b'' then Some (ex_link ''a'' ''b'' 1 0)
   else if s = ''a'' \<and> t = ''c'' then Some (ex_link ''a'' ''c'' 9 0)
   else if s = ''b'' \<and> t = ''c'' then Some (ex_link ''b'' ''c'' 2 0)
   else if s = ''c'' \<and> t = ''a'' then Some (ex_link ''c'' ''a'' 4 0) else None)"
  by (simp add: ls_get_def ls_row_def ex_table_def)

lemma ex_table_known: "known ex_table ''a'' = {''a'', ''b'', ''c''}"
proof
  show "known ex_table ''a'' \<subseteq> {''a'', ''b'', ''c''}"
    by (auto simp: known_def ex_table_get split: if_splits)
  have "s \<in> known ex_table ''a'' \<and> t \<in> known ex_table ''a''" if "ls_get ex_table s t \<noteq> None" for s t
    using that by (auto simp: known_def)
  from this [of "''a''" "''b''"] this [of "''a''" "''c''"]
  show "{''a'', ''b'', ''c''} \<subseteq> known ex_table ''a''" by (simp add: ex_table_get)
qed

lemma ex_table_good: "good_links ex_table ''a'' 10"
  unfolding good_links_def ex_table_known
proof (intro conjI allI impI)
  show "ls_wf ex_table" by (simp add: ls_wf_def ex_table_def)
qed (auto simp: ex_table_get ex_link_def split: if_splits)

theorem routing_table_shortest_witness:
  "\<exists>n' hop path c. buildRoutingTable ((NewNode ''a'' :: unit Node)\<lparr>nLinks := ex_table\<rparr>) = Some n' \<and>
     map_of (nRoutes n') ''c'' = Some [\<lparr>LocalChannelID = ''a-1'', nextHopNodeID = hop\<rparr>] \<and>
     path_cost ex_table ''a'' (hop # path) = Some c \<and> c \<le> 3"
proof -
  let ?n = "(NewNode ''a'')\<lparr>nLinks := ex_table\<rparr> :: unit Node"
  have r1: "route ex_table ''a'' ''b'' (0 + Cost (ex_link ''a'' ''b'' 1 0))"
    by (rule route_step [OF route_refl]) (simp add: ex_table_get)
  have "route ex_table ''a'' ''c'' (0 + Cost (ex_link ''a'' ''b'' 1 0) + Cost (ex_link ''b'' ''c'' 2 0))"
    by (rule route_step [OF r1]) (simp add: ex_table_get)
  with r1 have r: "route ex_table ''a'' ''b'' 1" "route ex_table ''a'' ''c'' 3"
    by (simp_all add: ex_link_def)
  have all: "\<forall>t \<in> known ex_table ''a''. \<exists>c. route ex_table ''a'' t c"
    using r route_refl [of ex_table "''a''"] by (auto simp: ex_table_known)
  have f: "nLinks ?n = ex_table" "nID ?n = ''a''" "nRoutes ?n = []" by (simp_all add: NewNode_def)
  have kn: "known ex_table ''a'' - {''a''} = {''b'', ''c''}" by (auto simp: ex_table_known)
  have na: "''a'' \<noteq> []" "[] \<notin> known ex_table ''a''" "distinct (map fst [])" by (simp_all add: ex_table_known)
  obtain n' where n': "buildRoutingTable ?n = Some n'" "\<forall>t \<in> {''b'', ''c''}. \<exists>hop path c l.
       map_of (nRoutes n') t = Some [\<lparr>LocalChannelID = lkChannel l, nextHopNodeID = hop\<rparr>] \<and>
       ls_get ex_table ''a'' hop = Some l \<and> path_cost ex_table ''a'' (hop # path) = Some c \<and>
       last (hop # path) = t \<and> (\<forall>c'. route ex_table ''a'' t c' \<longrightarrow> c \<le> c')"
    using routing_table_shortest [of ?n 10, unfolded f kn, OF ex_table_good na all]
    by (elim exE conjE) (rule that; assumption)
  from n'(2) obtain hop path c l where h:
    "map_of (nRoutes n') ''c'' = Some [\<lparr>LocalChannelID = lkChannel l, nextHopNodeID = hop\<rparr>]"
    "ls_get ex_table ''a'' hop = Some l" "path_cost ex_table ''a'' (hop # path) = Some c"
    "\<forall>c'. route ex_table ''a'' ''c'' c' \<longrightarrow> c \<le> c'" by blast
  have ch: "lkChannel l = ''a-1''" using h(2) by (auto simp: ex_table_get ex_link_def split: if_splits)
  have c: "c \<le> 3" using h(4) r(2) by fastforce
  show ?thesis
    by (intro exI conjI) (rule n'(1), rule h(1) [unfolded ch], rule h(3), rule c)
qed

text \<open>
  C9: \<open>buildRoutingTable\<close> returns if and only if every node that any known link mentions can be reached
  from this node. Otherwise the walk back from the unreachable node repeats the empty predecessor
  for ever, holding the mutex of the link table: already the first heartbeat a new node hears, which
  carries the link of its neighbour to it before its own link is measured, makes it hang.
\<close>

theorem build_returns_iff_all_reachable:
  assumes "good_links (nLinks n) (nID n) C" and "nID n \<noteq> []" and "[] \<notin> known (nLinks n) (nID n)"
  shows "buildRoutingTable n \<noteq> None \<longleftrightarrow>
    (\<forall>t \<in> known (nLinks n) (nID n). \<exists>c. route (nLinks n) (nID n) t c)"
proof (cases "\<forall>t \<in> known (nLinks n) (nID n). \<exists>c. route (nLinks n) (nID n) t c")
  case True
  then show ?thesis using routing_table_cases(2) [OF assms] by (auto simp: buildRoutingTable_def)
next
  case False
  then show ?thesis using routing_table_cases(1) [OF assms] by (auto simp: buildRoutingTable_def)
qed

theorem build_returns_iff_all_reachable_witness:
  "buildRoutingTable (handleHeartbeat 1 (ex_gossip ''b'' [(''b'', [(''a'', ex_link ''b'' ''a'' 5 7)])])
     (NewNode ''a'' :: unit Node)) = None"
proof -
  define l0 where "l0 = (ex_link ''b'' ''a'' 5 7)\<lparr>LastUpdateTime := 1\<rparr>"
  have l0: "Source l0 = ''b''" "Target l0 = ''a''" "Cost l0 = 5" by (simp_all add: l0_def ex_link_def)
  define n :: "unit Node" where
    "n = handleHeartbeat 1 (ex_gossip ''b'' [(''b'', [(''a'', ex_link ''b'' ''a'' 5 7)])]) (NewNode ''a'')"
  have l: "nLinks n = [(''b'', [(''a'', l0)])]" and i: "nID n = ''a''"
    by (simp_all add: n_def l0_def handleHeartbeat_def Let_def touch_peer_def ex_gossip_def deserializeLinkSet_def
        NewNode_def merge_links_def merge_link_def ls_ensure_def ls_get_def ls_row_def ls_put_def setLastUpdateTime_def)
  have g: "ls_get (nLinks n) s t = (if s = ''b'' \<and> t = ''a'' then Some l0 else None)" for s t
    by (simp add: l ls_get_def ls_row_def)
  have k: "known (nLinks n) (nID n) = {''a'', ''b''}" by (auto simp: known_def g i split: if_splits)
  have good: "good_links (nLinks n) (nID n) 10"
    unfolding good_links_def k
  proof (intro conjI allI impI)
    show "ls_wf (nLinks n)" by (simp add: l ls_wf_def)
  qed (auto simp: g l0 split: if_splits)
  have "v = ''a''" if "route (nLinks n) ''a'' v c" for v c
    using that by (induction rule: route.induct) (auto simp: g split: if_splits)
  then have "\<nexists>c. route (nLinks n) ''a'' ''b'' c" by force
  then have no: "\<not> (\<forall>t \<in> known (nLinks n) (nID n). \<exists>c. route (nLinks n) (nID n) t c)"
  proof (rule contrapos_nn)
    assume a: "\<forall>t \<in> known (nLinks n) (nID n). \<exists>c. route (nLinks n) (nID n) t c"
    have "''b'' \<in> known (nLinks n) (nID n)" by (simp add: k)
    from bspec [OF a this] show "\<exists>c. route (nLinks n) ''a'' ''b'' c" by (simp only: i)
  qed
  have "nID n \<noteq> []" by (simp add: i)
  moreover have "[] \<notin> known (nLinks n) (nID n)" unfolding k by simp
  ultimately have "buildRoutingTable n = None"
    using build_returns_iff_all_reachable [OF good] no by (metis (no_types))
  then show ?thesis by (simp only: n_def)
qed

end
