(* ===== verification/Net_Delivery.thy ===== *)
theory Net_Delivery
  imports Net_Node Net_Routing
begin

text \<open>
  Routing end to end: \<open>sendTo\<close> at the origin, the channels and the in-process transport between
  neighbours, \<open>onRecv\<close> at every node on the way. The nodes hold the routing tables that
  \<open>buildRoutingTable\<close> makes of a common link table; a Raft node reaches its peers over this
  (\<open>sendToTarget\<close> in core/Raft.go and core/Learner.go).
\<close>

section \<open>Messages of a Raft group\<close>

definition raft_message :: "string \<Rightarrow> RaftPayload \<Rightarrow> Message" where
  "raft_message i content = zero_message\<lparr>mType := RaftMessage, mData := RaftJson content, mFrom := i,
     LastSender := i, mTTL := 100\<rparr>"

definition sendToTarget :: "'d RaftCore \<Rightarrow> string \<Rightarrow> RaftPayload \<Rightarrow> 'd Node \<Rightarrow> 'd Node \<times> net_out list" where
  "sendToTarget rc targetNode content = sendTo targetNode (raft_message (ID rc) content) []"

definition learner_sendToTarget ::
  "'d RaftLearner \<Rightarrow> string \<Rightarrow> RaftPayload \<Rightarrow> 'd Node \<Rightarrow> 'd Node \<times> net_out list" where
  "learner_sendToTarget lc targetNode content = sendTo targetNode (raft_message (lcID lc) content) []"

section \<open>A message on its way\<close>

text \<open>
  \<open>wires v c\<close> is the transport behind the channel \<open>c\<close> of the node \<open>v\<close>. An output crosses the channel of
  the sender and its transport and comes out of the channel of a user of that transport; of that channel
  only the peer times change, and its part in the result is the id in the measurements of costs.
\<close>

type_synonym 'd net = "string \<Rightarrow> 'd Node"

type_synonym wiring = "string \<Rightarrow> string \<Rightarrow> SimpleChannelWorker"

definition cross :: "int \<Rightarrow> wiring \<Rightarrow> 'd Node \<Rightarrow> net_out \<Rightarrow> (string \<times> Message) option" where
  "cross now wires n out = (case out of
       SendOn c hop msg \<Rightarrow> (case map_of (Channels n) c of
           None \<Rightarrow> None
         | Some ch \<Rightarrow> (case snd (ch_send now hop msg ch) of
               [WorkerSend c1 hop1 msg1] \<Rightarrow> (case simple_sendTo hop1 msg1 (wires (nID n) c1) of
                   [(user, source, m)] \<Rightarrow> (case snd (ch_onRecv user now source m NewChannel) of
                       [Go (T_onRecv _ m1)] \<Rightarrow> Some (user, m1)
                     | _ \<Rightarrow> None)
                 | _ \<Rightarrow> None)
             | _ \<Rightarrow> None))
     | _ \<Rightarrow> None)"

text \<open>Following one message over at most \<open>k\<close> channels: the nodes, where it is, what that node does with it.\<close>

fun travel :: "nat \<Rightarrow> int \<Rightarrow> wiring \<Rightarrow> 'd net \<Rightarrow> string \<Rightarrow> net_out list \<Rightarrow> 'd net \<times> string \<times> net_out list" where
  "travel 0 now wires net v os = (net, v, os)"
| "travel (Suc k) now wires net v os = (case os of
       [out] \<Rightarrow> (case cross now wires (net v) out of
           None \<Rightarrow> (net, v, os)
         | Some (u, m) \<Rightarrow> (let (n1, os1) = onRecv now m (net u)
             in travel k now wires (net(u := n1)) u os1))
     | _ \<Rightarrow> (net, v, os))"

text \<open>The messages that are routed to one node, and not handled by the channel or by every node.\<close>

definition routed_type :: "MessageType \<Rightarrow> bool" where
  "routed_type ty \<longleftrightarrow> ty \<notin> {Hello, HeartBeat, CostRequest, CostAck, TopicInit, TopicExit,
     TopicSubscribeFlood, RpcServiceFlood, RaftTopicSubscribeFlood}"

lemma cross_SendOn:
  assumes "map_of (Channels n) c = Some ch" and "hop \<in> set (ChannelUsers (wires (nID n) (chID ch)))"
    and "routed_type (mType m)" and "mFrom m \<noteq> hop"
  shows "cross now wires n (SendOn c hop m) = Some (hop, m)"
  using assms by (cases "mType m") (simp_all add: cross_def ch_send_def simple_sendTo_def ch_onRecv_def routed_type_def)

lemma onRecv_routed:
  assumes "routed_type (mType m)" and "generateMsgKey m \<notin> set (ReceivedMsgs n)"
  shows "onRecv now m n = (let n1 = n\<lparr>ReceivedMsgs := generateMsgKey m # ReceivedMsgs n\<rparr> in
    (n1, if mTo m = nID n then recv_local m n1 else if mRoute m = nID n then recv_forward m n1 else []))"
  using assms by (cases "mType m") (simp_all add: onRecv_def routed_type_def recv_flood_def Let_def)

text \<open>The time to live is a signed 16-bit number.\<close>

lemma sint_dec: "0 < sint w \<Longrightarrow> sint (w - 1) = sint w - 1" for w :: "16 word"
proof -
  assume w: "0 < sint w"
  have "sint w < 2 ^ 15" using sint_lt [of w] by simp
  with w show ?thesis by (simp add: sint_word_diff signed_take_bit_int_eq_self)
qed

section \<open>A converged network\<close>

text \<open>
  Every node has the same link table, in which all nodes occur, with positive costs; it has built its
  routing table; and behind the channel of every link is a transport that the target uses.
\<close>

definition converged :: "LinkSet \<Rightarrow> int \<Rightarrow> wiring \<Rightarrow> 'd net \<Rightarrow> string set \<Rightarrow> bool" where
  "converged ls C wires net V \<longleftrightarrow> [] \<notin> V \<and>
     (\<forall>v \<in> V. nID (net v) = v \<and> nLinks (net v) = ls \<and> known ls v = V \<and> good_links ls v C \<and>
        distinct (map fst (nRoutes (net v))) \<and> buildRoutingTable (net v) = Some (net v)) \<and>
     (\<forall>v w l. ls_get ls v w = Some l \<longrightarrow> 0 < Cost l \<and>
        (\<exists>ch. map_of (Channels (net v)) (lkChannel l) = Some ch \<and>
           w \<in> set (ChannelUsers (wires v (chID ch)))))"

definition least_cost :: "LinkSet \<Rightarrow> string \<Rightarrow> string \<Rightarrow> int \<Rightarrow> bool" where
  "least_cost ls t v c \<longleftrightarrow> route ls v t c \<and> (\<forall>c'. route ls v t c' \<longrightarrow> c \<le> c')"

lemma least_cost_unique: "least_cost ls t v c \<Longrightarrow> least_cost ls t v d \<Longrightarrow> c = d"
  unfolding least_cost_def by (meson order_antisym)

text \<open>The entry for a target leads over a link to a node from which the target is cheaper to reach.\<close>

lemma entry_step:
  assumes "converged ls C wires net V" and "v \<in> V" and "t \<in> V" and "v \<noteq> t"
  shows "\<exists>hop l c d. map_of (nRoutes (net v)) t = Some [\<lparr>LocalChannelID = lkChannel l, nextHopNodeID = hop\<rparr>] \<and>
    ls_get ls v hop = Some l \<and> hop \<in> V \<and> least_cost ls t v c \<and> least_cost ls t hop d \<and> d < c"
proof -
  let ?n = "net v"
  from assms(1,2) have n: "nID ?n = v" "nLinks ?n = ls" "known ls v = V" "good_links ls v C"
      "distinct (map fst (nRoutes ?n))" "buildRoutingTable ?n = Some ?n" "v \<noteq> []" "[] \<notin> V"
    unfolding converged_def by blast+
  from n(6) obtain tab where tab: "routing_table ls v = Some tab"
      "(if \<not> compareRoutingTables tab ?n then ?n\<lparr>nRoutes := tab\<rparr> else ?n) = ?n"
    by (auto simp: buildRoutingTable_def n(1,2) split: bind_splits)
  have ne: "v \<noteq> []" "[] \<notin> known ls v" using n by simp_all
  have all: "\<forall>x \<in> known ls v. \<exists>c. route ls v x c"
    using routing_table_cases(1) [OF n(4) ne] tab(1) by (metis option.distinct(1))
  have tv: "t \<in> known ls v - {v}" using assms(3,4) n(3) by blast
  obtain tab1 where "routing_table ls v = Some tab1" and dt: "distinct (map fst tab1)"
    and en: "\<forall>t \<in> known ls v - {v}. \<exists>hop path c. map_of tab1 t = Some [route_entry ls v hop] \<and>
       path_cost ls v (hop # path) = Some c \<and> last (hop # path) = t \<and> (\<forall>c'. route ls v t c' \<longrightarrow> c \<le> c')"
    using routing_table_cases(2) [OF n(4) ne all] by blast
  with tab(1) have tab1: "tab1 = tab" by simp
  from bspec [OF en tv] obtain hop path c where h: "distinct (map fst tab)"
      "map_of tab t = Some [route_entry ls v hop]"
      "path_cost ls v (hop # path) = Some c" "last (hop # path) = t" "\<forall>c'. route ls v t c' \<longrightarrow> c \<le> c'"
    using dt unfolding tab1 by blast
  have r: "map_of (nRoutes ?n) t = map_of tab t"
  proof (cases "compareRoutingTables tab ?n")
    case False
    with tab(2) have "nRoutes (?n\<lparr>nRoutes := tab\<rparr>) = nRoutes ?n" by simp
    then show ?thesis by simp
  qed (rule compare_same [OF _ n(5) h(1)])
  from h(3) obtain l d where l: "ls_get ls v hop = Some l" "path_cost ls hop path = Some d" "c = Cost l + d"
    by (auto split: bind_splits)
  have hop: "hop \<in> V" using good_linksD(6) [OF n(4) l(1)] n(3) by simp
  have "0 < Cost l" using assms(1) l(1) unfolding converged_def by blast
  have d: "route ls hop t d" using path_cost_route [OF l(2)] h(4) by simp
  have "least_cost ls t hop d" unfolding least_cost_def
  proof (intro conjI allI impI)
    fix d' assume "route ls hop t d'"
    from route_trans [OF this route_step [OF route_refl l(1)]] h(5) l(3) show "d \<le> d'" by fastforce
  qed (rule d)
  moreover have "least_cost ls t v c"
    using path_cost_route [OF h(3)] h(4,5) by (simp add: least_cost_def)
  moreover have "map_of (nRoutes ?n) t = Some [\<lparr>LocalChannelID = lkChannel l, nextHopNodeID = hop\<rparr>]"
    by (simp add: r h(2) route_entry_def l(1))
  moreover have "d < c" using l(3) \<open>0 < Cost l\<close> by simp
  ultimately show ?thesis using l(1) hop by blast
qed

section \<open>The way of a message\<close>

text \<open>The nodes that forward a message for \<open>t\<close> which leaves \<open>v\<close>.\<close>

fun way :: "'d net \<Rightarrow> string \<Rightarrow> string \<Rightarrow> string list \<Rightarrow> bool" where
  "way net t v [] = (next_hop (nRoutes (net v)) t = Some t)"
| "way net t v (f # fs) = (next_hop (nRoutes (net v)) t = Some f \<and> way net t f fs)"

lemma way_exists:
  assumes "converged ls C wires net V" and "t \<in> V" and "v \<in> V" and "v \<noteq> t" and "least_cost ls t v c"
  shows "\<exists>fs. way net t v fs \<and> distinct (v # fs) \<and> set fs \<subseteq> V - {t} \<and>
    (\<forall>f \<in> set fs. \<exists>d. least_cost ls t f d \<and> d < c)"
  using assms(3-5)
proof (induction "nat c" arbitrary: v c rule: less_induct)
  case less
  from entry_step [OF assms(1) less.prems(1) assms(2) less.prems(2)] obtain hop l c1 d where
    e: "map_of (nRoutes (net v)) t = Some [\<lparr>LocalChannelID = lkChannel l, nextHopNodeID = hop\<rparr>]"
      "hop \<in> V" "least_cost ls t v c1" "least_cost ls t hop d" "d < c1" "ls_get ls v hop = Some l" by blast
  have d: "d < c" using e(3,5) least_cost_unique [OF e(3) less.prems(3)] by simp
  have nh: "next_hop (nRoutes (net v)) t = Some hop" by (simp add: next_hop_def e(1))
  show ?case
  proof (cases "hop = t")
    case True
    with nh have "way net t v []" by simp
    then show ?thesis by (intro exI [of _ "[]"]) simp
  next
    case False
    have "good_links ls hop C" using assms(1) e(2) unfolding converged_def by blast
    with e(4) have "0 \<le> d" by (auto simp: least_cost_def dest: route_nonneg)
    with d have "nat d < nat c" by simp
    from less.hyps [OF this e(2) False e(4)] obtain fs where
      fs: "way net t hop fs" "distinct (hop # fs)" "set fs \<subseteq> V - {t}"
        "\<forall>f \<in> set fs. \<exists>d'. least_cost ls t f d' \<and> d' < d" by blast
    have cheaper: "\<forall>f \<in> set (hop # fs). \<exists>d'. least_cost ls t f d' \<and> d' < c"
      using fs(4) e(4) d by (metis (no_types, opaque_lifting) less_trans set_ConsD)
    then have "v \<notin> set (hop # fs)" using least_cost_unique [OF less.prems(3)] by (metis order_less_irrefl)
    with fs nh cheaper e(2) False show ?thesis by (intro exI [of _ "hop # fs"]) auto
  qed
qed

text \<open>A message after \<open>k\<close> nodes have forwarded it: only its routing fields have changed.\<close>

definition carried :: "nat \<Rightarrow> Message \<Rightarrow> Message \<Rightarrow> bool" where
  "carried k m m1 \<longleftrightarrow> sint (mTTL m1) = sint (mTTL m) - int k \<and>
     (\<exists>ttl r x. m1 = m\<lparr>mTTL := ttl, mRoute := r, LastSender := x\<rparr>)"

lemma carried_0: "carried 0 m m"
proof -
  have "m = m\<lparr>mTTL := mTTL m, mRoute := mRoute m, LastSender := LastSender m\<rparr>" by simp
  then have "\<exists>ttl r x. m = m\<lparr>mTTL := ttl, mRoute := r, LastSender := x\<rparr>" by blast
  then show ?thesis by (simp only: carried_def) simp
qed

lemma carried_Suc:
  assumes "carried k (m\<lparr>mTTL := mTTL m - 1, mRoute := r, LastSender := x\<rparr>) m1" and "0 < sint (mTTL m)"
  shows "carried (Suc k) m m1"
  using assms by (auto simp: carried_def sint_dec)

abbreviation received :: "Message \<Rightarrow> 'd Node \<Rightarrow> 'd Node" where
  "received m n \<equiv> n\<lparr>ReceivedMsgs := generateMsgKey m # ReceivedMsgs n\<rparr>"

text \<open>What a forwarding node does, with its table in order.\<close>

lemma forward_step:
  assumes "map_of (nRoutes n) (mTo m) = Some [\<lparr>LocalChannelID = c, nextHopNodeID = hop\<rparr>]"
    and "map_of (Channels n) c = Some ch"
  shows "recv_forward m n = (if sint (mTTL m - 1) \<le> 0 then []
    else [SendOn c hop (m\<lparr>mTTL := mTTL m - 1, mRoute := hop, LastSender := nID n\<rparr>)])"
  using assms by (simp add: recv_forward_def Let_def)

lemma link_crosses:
  assumes "converged ls C wires net0 V" and "ls_get ls v hop = Some l" and "nID n = v"
    and "Channels n = Channels (net0 v)" and "routed_type (mType m)" and "mFrom m \<noteq> hop"
  shows "cross now wires n (SendOn (lkChannel l) hop m) = Some (hop, m)"
proof -
  from assms(1,2) obtain ch where "map_of (Channels (net0 v)) (lkChannel l) = Some ch"
      "hop \<in> set (ChannelUsers (wires v (chID ch)))"
    unfolding converged_def by blast
  with assms(3-6) show ?thesis by (intro cross_SendOn) simp_all
qed

lemma travel_way:
  assumes conv: "converged ls C wires net0 V" and t: "t \<in> V"
  shows "way net0 t v fs \<Longrightarrow> distinct (v # fs) \<Longrightarrow> insert v (set fs) \<subseteq> V - {t} \<Longrightarrow>
    map_of (nRoutes (net0 v)) t = Some [\<lparr>LocalChannelID = lkChannel l, nextHopNodeID = hop\<rparr>] \<Longrightarrow>
    ls_get ls v hop = Some l \<Longrightarrow> nID (net v) = v \<Longrightarrow> Channels (net v) = Channels (net0 v) \<Longrightarrow>
    \<forall>u \<in> insert t (set fs). net u = net0 u \<Longrightarrow> routed_type (mType m) \<Longrightarrow> mTo m = t \<Longrightarrow> mRoute m = hop \<Longrightarrow>
    mFrom m \<notin> insert t (set fs) \<Longrightarrow> \<forall>u \<in> insert t (set fs). generateMsgKey m \<notin> set (ReceivedMsgs (net0 u)) \<Longrightarrow>
    0 < sint (mTTL m) \<Longrightarrow>
    \<exists>net1. if int (length fs) < sint (mTTL m)
      then net1 t = received m (net0 t) \<and>
        (\<exists>m1. carried (length fs) m m1 \<and>
           travel (Suc (length fs)) now wires net v [SendOn (lkChannel l) hop m] =
             (net1, t, recv_local m1 (net1 t)))
      else \<exists>f \<in> set fs. travel (Suc (length fs)) now wires net v [SendOn (lkChannel l) hop m] = (net1, f, [])"
proof (induction fs arbitrary: v net m l hop)
  case Nil
  from Nil.prems(1,4) have hop: "hop = t" by (simp add: next_hop_def)
  from conv t have tn: "nID (net t) = t" using Nil.prems(8) unfolding converged_def by auto
  have "cross now wires (net v) (SendOn (lkChannel l) hop m) = Some (t, m)"
    using link_crosses [OF conv Nil.prems(5-7,9)] Nil.prems(12) hop by simp
  then have "travel (Suc 0) now wires net v [SendOn (lkChannel l) hop m] =
      (net(t := received m (net0 t)), t, recv_local m (received m (net0 t)))"
    using Nil.prems(8,10,13) tn by (simp add: onRecv_routed [OF Nil.prems(9)] Let_def)
  with carried_0 [of m] have "\<exists>m1. carried (length []) m m1 \<and>
      travel (Suc (length [])) now wires net v [SendOn (lkChannel l) hop m] =
        (net(t := received m (net0 t)), t, recv_local m1 ((net(t := received m (net0 t))) t))"
    by (intro exI [of _ m]) (simp del: travel.simps)
  then show ?case using Nil.prems(14) by (intro exI [of _ "net(t := received m (net0 t))"]) (simp del: travel.simps)
next
  case (Cons f fs)
  from Cons.prems(1,4) have hop: "hop = f" by (simp add: next_hop_def)
  have f: "f \<in> V" "f \<noteq> t" "net f = net0 f" using Cons.prems(3,8) by auto
  from conv f(1) have fn: "nID (net0 f) = f" unfolding converged_def by blast
  let ?m = "\<lambda>h. m\<lparr>mTTL := mTTL m - 1, mRoute := h, LastSender := f\<rparr>"
  let ?f = "received m (net0 f)"
  have x: "cross now wires (net v) (SendOn (lkChannel l) hop m) = Some (f, m)"
    using link_crosses [OF conv Cons.prems(5-7,9)] Cons.prems(12) hop by simp
  have os: "onRecv now m (net0 f) = (?f, recv_forward m ?f)"
    using Cons.prems(10,11,13) f(2) fn hop by (simp add: onRecv_routed [OF Cons.prems(9)] Let_def)
  from entry_step [OF conv f(1) t f(2)] obtain hop1 l1 where
    e: "map_of (nRoutes (net0 f)) t = Some [\<lparr>LocalChannelID = lkChannel l1, nextHopNodeID = hop1\<rparr>]"
      "ls_get ls f hop1 = Some l1" by blast
  from conv e(2) obtain ch where ch: "map_of (Channels (net0 f)) (lkChannel l1) = Some ch"
    unfolding converged_def by blast
  have fw: "recv_forward m ?f = (if sint (mTTL m) \<le> 1 then [] else [SendOn (lkChannel l1) hop1 (?m hop1)])"
    using forward_step [of ?f m] e(1) ch fn Cons.prems(10,14) by (simp add: sint_dec)
  let ?net = "net(f := ?f)"
  have tr: "travel (Suc (length (f # fs))) now wires net v [SendOn (lkChannel l) hop m] =
      travel (Suc (length fs)) now wires ?net f (recv_forward m ?f)"
    using x os f(3) by simp
  show ?case
  proof (cases "sint (mTTL m) \<le> 1")
    case True
    then have "travel (Suc (length (f # fs))) now wires net v [SendOn (lkChannel l) hop m] = (?net, f, [])"
      unfolding tr by (simp add: fw)
    then show ?thesis using True by auto
  next
    case False
    have key: "generateMsgKey (?m hop1) = generateMsgKey m" by (simp add: generateMsgKey_def)
    have ttl: "sint (mTTL (?m hop1)) = sint (mTTL m) - 1" using Cons.prems(14) by (simp add: sint_dec)
    obtain net1 where "if int (length fs) < sint (mTTL (?m hop1))
      then net1 t = received (?m hop1) (net0 t) \<and>
        (\<exists>m1. carried (length fs) (?m hop1) m1 \<and>
           travel (Suc (length fs)) now wires ?net f [SendOn (lkChannel l1) hop1 (?m hop1)] =
             (net1, t, recv_local m1 (net1 t)))
      else \<exists>g \<in> set fs. travel (Suc (length fs)) now wires ?net f [SendOn (lkChannel l1) hop1 (?m hop1)] = (net1, g, [])"
    proof (atomize_elim, rule Cons.IH)
      show "way net0 t f fs" "distinct (f # fs)" "insert f (set fs) \<subseteq> V - {t}"
        using Cons.prems(1-3) by auto
      show "\<forall>u \<in> insert t (set fs). ?net u = net0 u" using Cons.prems(2,8) f(2) by auto
      show "\<forall>u \<in> insert t (set fs). generateMsgKey (?m hop1) \<notin> set (ReceivedMsgs (net0 u))"
        using Cons.prems(13) key by simp
      show "0 < sint (mTTL (?m hop1))" using False ttl by simp
    qed (use e Cons.prems fn in auto)
    moreover have "travel (Suc (length (f # fs))) now wires net v [SendOn (lkChannel l) hop m] =
        travel (Suc (length fs)) now wires ?net f [SendOn (lkChannel l1) hop1 (?m hop1)]"
      using False by (simp only: tr fw if_False)
    ultimately show ?thesis using ttl key Cons.prems(14)
      by (intro exI [of _ net1]) (auto simp del: travel.simps split: if_splits
            dest!: carried_Suc [OF _ Cons.prems(14)])
  qed
qed

lemma sendTo_routed:
  assumes "map_of (nRoutes n) t = Some [\<lparr>LocalChannelID = c, nextHopNodeID = hop\<rparr>]"
    and "map_of (Channels n) c = Some ch"
  shows "sendTo t m [] n = (addMessageCounter n,
    [SendOn c hop ((fst (stamp m n))\<lparr>mTo := t, mRoute := hop\<rparr>)])"
  using assms by (simp add: sendTo_def stamp_def Let_def)

lemma carried_route: "carried k (m\<lparr>mRoute := r\<rparr>) m1 \<Longrightarrow> carried k m m1"
  by (auto simp: carried_def)

abbreviation outcome ::
  "nat \<Rightarrow> int \<Rightarrow> wiring \<Rightarrow> 'd net \<Rightarrow> string \<Rightarrow> string \<Rightarrow> Message \<Rightarrow> 'd net \<Rightarrow> bool" where
  "outcome k now wires net s t m net1 \<equiv> (if int k < sint (mTTL m)
      then net1 t = received (fst (stamp m (net s))) (net t) \<and>
        (\<exists>m1. carried k ((fst (stamp m (net s)))\<lparr>mTo := t\<rparr>) m1 \<and>
           travel (Suc k) now wires (net(s := fst (sendTo t m [] (net s)))) s (snd (sendTo t m [] (net s))) =
             (net1, t, recv_local m1 (net1 t)))
      else \<exists>f. f \<noteq> t \<and> travel (Suc k) now wires (net(s := fst (sendTo t m [] (net s)))) s
        (snd (sendTo t m [] (net s))) = (net1, f, []))"

text \<open>The number of forwarding nodes depends only on the routing tables.\<close>

lemma arrives:
  assumes conv: "converged ls C wires net V" and s: "s \<in> V" and t: "t \<in> V" and "s \<noteq> t"
  shows "\<exists>k. k + 2 \<le> card V \<and> (\<forall>m now. routed_type (mType m) \<longrightarrow> mFrom m = s \<longrightarrow> 0 < sint (mTTL m) \<longrightarrow>
    (\<forall>v \<in> V. generateMsgKey (fst (stamp m (net s))) \<notin> set (ReceivedMsgs (net v))) \<longrightarrow>
    (\<exists>net1. outcome k now wires net s t m net1))"
proof -
  from entry_step [OF conv s t assms(4)] obtain hop l c where
    e: "map_of (nRoutes (net s)) t = Some [\<lparr>LocalChannelID = lkChannel l, nextHopNodeID = hop\<rparr>]"
      "ls_get ls s hop = Some l" "least_cost ls t s c" by blast
  from way_exists [OF conv t s assms(4) e(3)] obtain fs where
    fs: "way net t s fs" "distinct (s # fs)" "set fs \<subseteq> V - {t}" by blast
  from conv s have V: "nID (net s) = s" "known ls s = V" and g: "good_links ls s C"
    unfolding converged_def by blast+
  have fin: "finite V" using finite_known [OF g] V(2) by simp
  from conv e(2) obtain ch where ch: "map_of (Channels (net s)) (lkChannel l) = Some ch"
    unfolding converged_def by blast
  have "insert t (insert s (set fs)) \<subseteq> V" using s t fs(3) by blast
  from card_mono [OF fin this] have k: "length fs + 2 \<le> card V"
    using fs(2,3) assms(4) distinct_card [of "s # fs"] by (subst (asm) card_insert_disjoint) auto
  show ?thesis
  proof (intro exI [of _ "length fs"] conjI allI impI)
    fix m now
    assume m: "routed_type (mType m)" "mFrom m = s" "0 < sint (mTTL m)"
      "\<forall>v \<in> V. generateMsgKey (fst (stamp m (net s))) \<notin> set (ReceivedMsgs (net v))"
    let ?st = "fst (stamp m (net s))" and ?net = "net(s := addMessageCounter (net s))"
    let ?m = "?st\<lparr>mTo := t, mRoute := hop\<rparr>"
    have sm: "mType ?st = mType m" "mFrom ?st = s" "mTTL ?st = mTTL m" using m(2) by (simp_all add: stamp_def)
    have key: "generateMsgKey ?m = generateMsgKey ?st" by (simp add: generateMsgKey_def)
    obtain net1 where "if int (length fs) < sint (mTTL ?m)
      then net1 t = received ?m (net t) \<and> (\<exists>m1. carried (length fs) ?m m1 \<and>
        travel (Suc (length fs)) now wires ?net s [SendOn (lkChannel l) hop ?m] = (net1, t, recv_local m1 (net1 t)))
      else \<exists>f \<in> set fs. travel (Suc (length fs)) now wires ?net s [SendOn (lkChannel l) hop ?m] = (net1, f, [])"
    proof (atomize_elim, rule travel_way [OF conv t fs(1,2) _ e(1,2)])
      show "insert s (set fs) \<subseteq> V - {t}" using s fs(3) assms(4) by blast
      show "\<forall>u \<in> insert t (set fs). ?net u = net u" using fs(2) assms(4) by auto
      show "mFrom ?m \<notin> insert t (set fs)" using sm fs(2) assms(4) by auto
      show "\<forall>u \<in> insert t (set fs). generateMsgKey ?m \<notin> set (ReceivedMsgs (net u))"
      proof
        fix u assume "u \<in> insert t (set fs)"
        then have "u \<in> V" using t fs(3) by blast
        with m(4) have "generateMsgKey ?st \<notin> set (ReceivedMsgs (net u))" by (rule bspec)
        then show "generateMsgKey ?m \<notin> set (ReceivedMsgs (net u))" by (subst key)
      qed
    qed (use m sm V in simp_all)
    moreover have "t \<notin> set fs" using fs(3) by blast
    ultimately show "\<exists>net1. outcome (length fs) now wires net s t m net1"
      unfolding sendTo_routed [OF e(1) ch] using sm key
      by (intro exI [of _ net1]) (auto simp del: travel.simps split: if_splits dest!: carried_route)
  qed (rule k)
qed

section \<open>Tables that are up to date\<close>

lemma compare_refl: "distinct (map fst (nRoutes n)) \<Longrightarrow> compareRoutingTables (nRoutes n) n"
  by (auto simp: compareRoutingTables_def list_all_iff list.rel_eq simp del: map_of_eq_Some_iff
      split: option.split dest: map_of_is_SomeI)

lemma distinct_routing_table: "routing_table ls i = Some tab \<Longrightarrow> distinct (map fst tab)"
  by (auto simp: routing_table_def Let_def dest: distinct_foldM_add_route)

text \<open>Building the table again changes nothing.\<close>

lemma build_idempotent:
  assumes "buildRoutingTable n = Some n1" and "distinct (map fst (nRoutes n))"
  shows "buildRoutingTable n1 = Some n1 \<and> distinct (map fst (nRoutes n1)) \<and> nID n1 = nID n \<and>
    nLinks n1 = nLinks n \<and> Channels n1 = Channels n \<and> ReceivedMsgs n1 = ReceivedMsgs n \<and> nRaft n1 = nRaft n"
proof -
  from assms(1) obtain tab where tab: "routing_table (nLinks n) (nID n) = Some tab"
      "n1 = (if \<not> compareRoutingTables tab n then n\<lparr>nRoutes := tab\<rparr> else n)"
    by (auto simp: buildRoutingTable_def split: bind_splits)
  from compare_refl [of n1] distinct_routing_table [OF tab(1)] have
    "\<not> compareRoutingTables tab n \<Longrightarrow> compareRoutingTables tab n1" by (simp add: tab(2))
  with tab assms(2) distinct_routing_table [OF tab(1)] show ?thesis
    by (cases "compareRoutingTables tab n") (simp_all add: buildRoutingTable_def)
qed

definition ex_wires :: wiring where
  "ex_wires = (\<lambda>v c. \<lparr>ChannelUsers = [''a'', ''b'', ''c'']\<rparr>)"

definition ex_member :: "(string \<times> goval) list RaftCore" where
  "ex_member = ex_core [] [] [] 0"

definition ex_node :: "string \<Rightarrow> (string \<times> goval) list Node" where
  "ex_node v = (NewNodeWithChannel v [(v @ ''-1'', NewChannelFull (v @ ''-1''))])\<lparr>nLinks := ex_table,
     nRaft := NewRaftManager\<lparr>RaftStubs := [''g'' \<mapsto> ex_member]\<rparr>\<rparr>"

definition ex_net :: "(string \<times> goval) list net" where
  "ex_net = (\<lambda>v. case buildRoutingTable (ex_node v) of None \<Rightarrow> ex_node v | Some n \<Rightarrow> n)"

lemma ex_table_all: "v \<in> {''a'', ''b'', ''c''} \<Longrightarrow> known ex_table v = {''a'', ''b'', ''c''}"
proof -
  let ?E = "{v. \<exists>s t l. ls_get ex_table s t = Some l \<and> (v = s \<or> v = t)}"
  have "s \<in> ?E \<and> t \<in> ?E" if "ls_get ex_table s t \<noteq> None" for s t using that by auto
  from this [of "''a''" "''b''"] this [of "''a''" "''c''"] have "''a'' \<in> ?E" "''b'' \<in> ?E" "''c'' \<in> ?E"
    by (simp_all add: ex_table_get)
  moreover assume "v \<in> {''a'', ''b'', ''c''}"
  ultimately have "insert v ?E = ?E" "insert ''a'' ?E = ?E" by blast+
  then show ?thesis using ex_table_known unfolding known_def by simp
qed

lemma ex_table_good_all: "v \<in> {''a'', ''b'', ''c''} \<Longrightarrow> good_links ex_table v 10"
  using ex_table_good ex_table_all [of v] ex_table_known unfolding good_links_def by simp

lemma ex_table_routes:
  assumes "v \<in> {''a'', ''b'', ''c''}" and "t \<in> {''a'', ''b'', ''c''}"
  shows "\<exists>c. route ex_table v t c"
proof -
  have ab: "route ex_table ''a'' ''b'' (0 + Cost (ex_link ''a'' ''b'' 1 0))"
    by (rule route_step [OF route_refl]) (simp add: ex_table_get)
  have bc: "route ex_table ''b'' ''c'' (0 + Cost (ex_link ''b'' ''c'' 2 0))"
    by (rule route_step [OF route_refl]) (simp add: ex_table_get)
  have ca: "route ex_table ''c'' ''a'' (0 + Cost (ex_link ''c'' ''a'' 4 0))"
    by (rule route_step [OF route_refl]) (simp add: ex_table_get)
  note ac = route_trans [OF bc ab] and ba = route_trans [OF ca bc] and cb = route_trans [OF ab ca]
  from assms show ?thesis
    by (elim insertE emptyE; hypsubst) (rule exI, rule route_refl ab bc ca ac ba cb)+
qed

lemma ex_net_fields:
  assumes "v \<in> {''a'', ''b'', ''c''}"
  shows "buildRoutingTable (ex_net v) = Some (ex_net v)" "distinct (map fst (nRoutes (ex_net v)))"
    "nID (ex_net v) = v" "nLinks (ex_net v) = ex_table" "ReceivedMsgs (ex_net v) = []"
    "Channels (ex_net v) = [(v @ ''-1'', NewChannelFull (v @ ''-1''))]"
    "RaftStubs (nRaft (ex_net v)) = [''g'' \<mapsto> ex_member]"
proof -
  have f: "nID (ex_node v) = v" "nLinks (ex_node v) = ex_table" "nRoutes (ex_node v) = []"
    "ReceivedMsgs (ex_node v) = []" "Channels (ex_node v) = [(v @ ''-1'', NewChannelFull (v @ ''-1''))]"
    "RaftStubs (nRaft (ex_node v)) = [''g'' \<mapsto> ex_member]"
    by (simp_all add: ex_node_def NewNodeWithChannel_def NewNode_def)
  have ne: "v \<noteq> []" "[] \<notin> known ex_table v" using assms ex_table_all [OF assms] by auto
  have all: "\<forall>t \<in> known ex_table v. \<exists>c. route ex_table v t c"
    using ex_table_routes [OF assms] ex_table_all [OF assms] by simp
  from routing_table_cases(2) [OF ex_table_good_all [OF assms] ne all]
  obtain tab where "routing_table ex_table v = Some tab" by blast
  then obtain n1 where b: "buildRoutingTable (ex_node v) = Some n1" by (simp add: buildRoutingTable_def f)
  from build_idempotent [OF b] f b
  show "buildRoutingTable (ex_net v) = Some (ex_net v)" "distinct (map fst (nRoutes (ex_net v)))"
    "nID (ex_net v) = v" "nLinks (ex_net v) = ex_table" "ReceivedMsgs (ex_net v) = []"
    "Channels (ex_net v) = [(v @ ''-1'', NewChannelFull (v @ ''-1''))]"
    "RaftStubs (nRaft (ex_net v)) = [''g'' \<mapsto> ex_member]"
    by (simp_all add: ex_net_def)
qed

lemma ex_net_converged: "converged ex_table 10 ex_wires ex_net {''a'', ''b'', ''c''}"
  unfolding converged_def
proof (intro conjI ballI allI impI)
  fix v assume v: "v \<in> {''a'', ''b'', ''c''}"
  show "nID (ex_net v) = v" "nLinks (ex_net v) = ex_table" "known ex_table v = {''a'', ''b'', ''c''}"
    "good_links ex_table v 10" "distinct (map fst (nRoutes (ex_net v)))"
    "buildRoutingTable (ex_net v) = Some (ex_net v)"
    using ex_net_fields [OF v] ex_table_all [OF v] ex_table_good_all [OF v] by simp_all
next
  fix v w l assume l: "ls_get ex_table v w = Some l"
  then show "0 < Cost l" by (auto simp: ex_table_get ex_link_def split: if_splits)
  from l have v: "v \<in> {''a'', ''b'', ''c''}" "w \<in> {''a'', ''b'', ''c''}" "lkChannel l = v @ ''-1''"
    by (auto simp: ex_table_get ex_link_def split: if_splits)
  with ex_net_fields(6) [OF v(1)]
  show "\<exists>ch. map_of (Channels (ex_net v)) (lkChannel l) = Some ch \<and> w \<in> set (ChannelUsers (ex_wires v (chID ch)))"
    by (simp add: ex_wires_def)
qed simp

section \<open>Properties\<close>

text \<open>
  C10: A routed message arrives. In a network whose nodes have built their tables from the same links,
  with positive costs, a message that \<open>s\<close> sends to \<open>t\<close> is forwarded by some number \<open>k\<close> of other nodes, at
  most all of them but \<open>s\<close> and \<open>t\<close>, and then \<open>t\<close> handles it exactly once, with only its routing fields changed
  and its time to live reduced by \<open>k\<close>. If it was not above \<open>k\<close>, the message is dropped on the way without
  a trace. No node may have seen the version of the message before.
\<close>

theorem routed_message_arrives:
  assumes "converged ls C wires net V" and "s \<in> V" and "t \<in> V" and "s \<noteq> t"
    and "routed_type (mType m)" and "mFrom m = s" and "0 < sint (mTTL m)"
    and "\<forall>v \<in> V. generateMsgKey (fst (stamp m (net s))) \<notin> set (ReceivedMsgs (net v))"
    and "sendTo t m [] (net s) = (n1, os)"
  shows "\<exists>k net1. k + 2 \<le> card V \<and>
    (int k < sint (mTTL m) \<longrightarrow> net1 t = received (fst (stamp m (net s))) (net t) \<and>
       (\<exists>m1. carried k ((fst (stamp m (net s)))\<lparr>mTo := t\<rparr>) m1 \<and>
          travel (Suc k) now wires (net(s := n1)) s os = (net1, t, recv_local m1 (net1 t)))) \<and>
    (sint (mTTL m) \<le> int k \<longrightarrow>
       (\<exists>f. f \<noteq> t \<and> travel (Suc k) now wires (net(s := n1)) s os = (net1, f, [])))"
proof -
  from arrives [OF assms(1-4)] obtain k where k: "k + 2 \<le> card V"
    and a: "\<forall>m now. routed_type (mType m) \<longrightarrow> mFrom m = s \<longrightarrow> 0 < sint (mTTL m) \<longrightarrow>
      (\<forall>v \<in> V. generateMsgKey (fst (stamp m (net s))) \<notin> set (ReceivedMsgs (net v))) \<longrightarrow>
      (\<exists>net1. outcome k now wires net s t m net1)" by (elim exE conjE)
  from a [rule_format, OF assms(5,6,7), of now] assms(8) obtain net1 where
    o: "outcome k now wires net s t m net1" by blast
  show ?thesis
  proof (intro exI [of _ k] exI [of _ net1] conjI impI)
    assume "int k < sint (mTTL m)"
    from o [unfolded if_P [OF this] assms(9) fst_conv snd_conv]
    show "net1 t = received (fst (stamp m (net s))) (net t)" "\<exists>m1. carried k ((fst (stamp m (net s)))\<lparr>mTo := t\<rparr>) m1 \<and>
        travel (Suc k) now wires (net(s := n1)) s os = (net1, t, recv_local m1 (net1 t))"
      by blast+
  next
    assume "sint (mTTL m) \<le> int k"
    with o show "\<exists>f. f \<noteq> t \<and> travel (Suc k) now wires (net(s := n1)) s os = (net1, f, [])"
      unfolding assms(9) by (simp del: travel.simps)
  qed (rule k)
qed

theorem routed_message_arrives_witness:
  "\<exists>k net1 m1. k + 2 \<le> 3 \<and>
     travel (Suc k) 0 ex_wires (ex_net(''a'' := fst (sendTo ''c'' (ex_message RpcRequest ''a'' [] 0) [] (ex_net ''a''))))
       ''a'' (snd (sendTo ''c'' (ex_message RpcRequest ''a'' [] 0) [] (ex_net ''a''))) =
       (net1, ''c'', recv_local m1 (net1 ''c'')) \<and> sint (mTTL m1) = 100 - int k \<and> mType m1 = RpcRequest"
proof -
  let ?V = "{''a'', ''b'', ''c''}" and ?m = "ex_message RpcRequest ''a'' [] 0"
  have m: "routed_type (mType ?m)" "mFrom ?m = ''a''" "0 < sint (mTTL ?m)"
    by (simp_all add: ex_message_def routed_type_def)
  have new: "\<forall>v \<in> ?V. generateMsgKey (fst (stamp ?m (ex_net ''a''))) \<notin> set (ReceivedMsgs (ex_net v))"
    using ex_net_fields(5) by simp
  have V: "''a'' \<in> ?V" "''c'' \<in> ?V" "''a'' \<noteq> ''c''" "card ?V = 3" by simp_all
  from routed_message_arrives [OF ex_net_converged V(1-3) m new surjective_pairing, of 0] obtain k net1 where
    k: "k + 2 \<le> 3" and r: "int k < sint (mTTL ?m) \<longrightarrow> (\<exists>m1. carried k ((fst (stamp ?m (ex_net ''a'')))\<lparr>mTo := ''c''\<rparr>) m1 \<and>
      travel (Suc k) 0 ex_wires (ex_net(''a'' := fst (sendTo ''c'' ?m [] (ex_net ''a'')))) ''a''
        (snd (sendTo ''c'' ?m [] (ex_net ''a''))) = (net1, ''c'', recv_local m1 (net1 ''c'')))"
    unfolding V(4) by blast
  have ttl: "sint (mTTL ?m) = 100" by (simp add: ex_message_def)
  with k have "int k < sint (mTTL ?m)" by simp
  with r obtain m1 where m1: "carried k ((fst (stamp ?m (ex_net ''a'')))\<lparr>mTo := ''c''\<rparr>) m1"
      "travel (Suc k) 0 ex_wires (ex_net(''a'' := fst (sendTo ''c'' ?m [] (ex_net ''a'')))) ''a''
        (snd (sendTo ''c'' ?m [] (ex_net ''a''))) = (net1, ''c'', recv_local m1 (net1 ''c''))" by blast
  have "sint (mTTL m1) = 100 - int k" "mType m1 = RpcRequest"
    using m1(1) ttl by (auto simp: carried_def stamp_def ex_message_def)
  with k m1(2) show ?thesis by (intro exI conjI)
qed

text \<open>
  C11: A Raft node reaches every other member: in such a network of at most 101 nodes, what \<open>sendToTarget\<close>
  sends to another node with a member of the group makes that node call the member's handler with the
  content and with this node as the sender.
\<close>

theorem raft_message_arrives:
  assumes "converged ls C wires net V" and "s \<in> V" and "t \<in> V" and "s \<noteq> t" and "card V \<le> 101"
    and "ID rc = s" and "getRaftStub (pGroup content) (net t) \<noteq> None"
    and "\<forall>v \<in> V. generateMsgKey (fst (stamp (raft_message s content) (net s))) \<notin> set (ReceivedMsgs (net v))"
    and "sendToTarget rc t content (net s) = (n1, os)"
  shows "\<exists>k net1. k + 2 \<le> card V \<and> travel (Suc k) now wires (net(s := n1)) s os =
    (net1, t, [Go (T_onRaftMessage (pGroup content) s (RaftJson content))])"
proof -
  let ?m = "raft_message s content"
  let ?st = "fst (stamp ?m (net s))"
  have m: "routed_type (mType ?m)" "mFrom ?m = s" "sint (mTTL ?m) = 100"
    by (simp_all add: raft_message_def routed_type_def)
  have st: "sendTo t ?m [] (net s) = (n1, os)" using assms(6,9) by (simp add: sendToTarget_def)
  from arrives [OF assms(1-4)] obtain k where k: "k + 2 \<le> card V"
    and a: "\<forall>m now. routed_type (mType m) \<longrightarrow> mFrom m = s \<longrightarrow> 0 < sint (mTTL m) \<longrightarrow>
      (\<forall>v \<in> V. generateMsgKey (fst (stamp m (net s))) \<notin> set (ReceivedMsgs (net v))) \<longrightarrow>
      (\<exists>net1. outcome k now wires net s t m net1)" by (elim exE conjE)
  from a [rule_format, OF m(1,2), of now] m(3) assms(8) obtain net1 where
    o: "outcome k now wires net s t ?m net1" by auto
  have ttl: "int k < sint (mTTL ?m)" using k assms(5) m(3) by simp
  from o [unfolded if_P [OF ttl] st fst_conv snd_conv] obtain m1 where
    n1: "net1 t = received ?st (net t)" "carried k (?st\<lparr>mTo := t\<rparr>) m1"
      "travel (Suc k) now wires (net(s := n1)) s os = (net1, t, recv_local m1 (net1 t))" by blast
  have "mType m1 = RaftMessage" "mData m1 = RaftJson content" "mFrom m1 = s"
    using n1(2) by (auto simp: carried_def stamp_def raft_message_def)
  then have "recv_local m1 (net1 t) = [Go (T_onRaftMessage (pGroup content) s (RaftJson content))]"
    using assms(7) n1(1) by (auto simp: recv_local_def isFrp_def recv_raft_def getRaftStub_def)
  with k n1(3) show ?thesis by (intro exI conjI) (rule k, simp)
qed

definition ex_content :: RaftPayload where
  "ex_content = zero_payload\<lparr>pType := RequestVote, pGroup := ''g''\<rparr>"

theorem raft_message_arrives_witness:
  "\<exists>k net1. k + 2 \<le> 3 \<and>
     travel (Suc k) 0 ex_wires (ex_net(''b'' := fst (sendToTarget (ex_member\<lparr>ID := ''b''\<rparr>) ''a'' ex_content (ex_net ''b''))))
       ''b'' (snd (sendToTarget (ex_member\<lparr>ID := ''b''\<rparr>) ''a'' ex_content (ex_net ''b''))) =
     (net1, ''a'', [Go (T_onRaftMessage ''g'' ''b'' (RaftJson ex_content))])"
proof -
  let ?V = "{''a'', ''b'', ''c''}"
  have new: "\<forall>v \<in> ?V. generateMsgKey (fst (stamp (raft_message ''b'' ex_content) (ex_net ''b''))) \<notin>
      set (ReceivedMsgs (ex_net v))"
    using ex_net_fields(5) by simp
  have V: "''b'' \<in> ?V" "''a'' \<in> ?V" "''b'' \<noteq> ''a''" "card ?V = 3" "card ?V \<le> 101"
    "ID (ex_member\<lparr>ID := ''b''\<rparr>) = ''b''" "pGroup ex_content = ''g''"
    by (simp_all add: ex_content_def zero_payload_def)
  have "getRaftStub (pGroup ex_content) (ex_net ''a'') \<noteq> None"
    using ex_net_fields(7) V(7) by (simp add: getRaftStub_def)
  from raft_message_arrives [OF ex_net_converged V(1-3,5,6) this new surjective_pairing, of 0]
  show ?thesis unfolding V(4,7) .
qed

end
