(* ===== verification/Frp_Pairing.thy ===== *)
theory Frp_Pairing
  imports Frp_Manager
begin

text \<open>
  Two registries, two streams: what a forwarded connection between two nodes rests on. \<open>half_paired\<close> says
  that a stream names the other by node and id, \<open>paired\<close> that they name each other. Connecting makes a pair;
  data and acknowledgements of one stream of a pair reach the other; the closing message does not, and
  neither do messages for a dynamic connection when a second one has the same code.
\<close>

section \<open>Pairs\<close>

definition registered :: "StubManager \<Rightarrow> nat \<Rightarrow> bool" where
  "registered sm a \<longleftrightarrow> a < length (stubHeap sm) \<and> GetStubById (myId (feStub (stubHeap sm ! a))) sm = Some a"

definition half_paired :: "StubManager \<Rightarrow> nat \<Rightarrow> StubManager \<Rightarrow> nat \<Rightarrow> bool" where
  "half_paired smA a smB b \<longleftrightarrow> fePeerNode (stubHeap smA ! a) = MyNodeId smB \<and>
     fePeerStub (stubHeap smA ! a) = myId (feStub (stubHeap smB ! b))"

definition paired :: "StubManager \<Rightarrow> nat \<Rightarrow> StubManager \<Rightarrow> nat \<Rightarrow> bool" where
  "paired smA a smB b \<longleftrightarrow> registered smA a \<and> registered smB b \<and> half_paired smA a smB b \<and> half_paired smB b smA a"

text \<open>A registration under a fresh id leaves the other entries and streams as they are.\<close>

definition extends_registry :: "StubManager \<Rightarrow> StubManager \<Rightarrow> nat \<Rightarrow> bool" where
  "extends_registry sm sm1 a \<longleftrightarrow> a = length (stubHeap sm) \<and> length (stubHeap sm1) = Suc a \<and>
     (\<forall>b < a. stubHeap sm1 ! b = stubHeap sm ! b) \<and>
     (\<forall>i. GetStubById i sm1 = (if i = myId (feStub (stubHeap sm1 ! a)) then Some a else GetStubById i sm)) \<and>
     GetStubById (myId (feStub (stubHeap sm1 ! a))) sm = None \<and> MyNodeId sm1 = MyNodeId sm"

lemma extends_registered: "extends_registry sm sm1 a \<Longrightarrow> registered sm1 a"
  by (auto simp: extends_registry_def registered_def)

text \<open>The two ends, on well-formed registries.\<close>

lemma begin_registers:
  assumes wf: "sm_wf sm" and c: "StubCounter sm < MaxInt64" and cfg: "map_of (FrpConfigs sm) code = Some config"
    and dial: "dial (fcLocalAddr config) = Inr conn"
  obtains a sid sm1 where "RunFRPWithStub_begin dial now code sm =
      (Inr (a, fcRemoteNode config, [(''code'', GStr code), (''stub_id'', GStr sid)]), sm1)"
    and "extends_registry sm sm1 a" and "sm_wf sm1" and "sid \<noteq> []"
    and "stubHeap sm1 ! a = \<lparr>feStub = NewStreamStub now sid, fePeerNode = fcRemoteNode config, fePeerStub = [],
      feConn = conn, feIn = [], feSendLoop = False, feRecvLoop = False\<rparr>"
proof -
  obtain sid sm0 where n: "next_stub_id sm = (sid, sm0)" by (cases "next_stub_id sm")
  obtain a sm1 where s: "new_stub now conn sid (fcRemoteNode config) [] sm0 = (a, sm1)"
    by (cases "new_stub now conn sid (fcRemoteNode config) [] sm0")
  note r = register_numbered [OF wf c n s]
  have h: "stubHeap sm1 ! a = \<lparr>feStub = NewStreamStub now sid, fePeerNode = fcRemoteNode config, fePeerStub = [],
      feConn = conn, feIn = [], feSendLoop = False, feRecvLoop = False\<rparr>"
    by (simp add: r(2,4))
  have "extends_registry sm sm1 a"
    unfolding extends_registry_def h using r(1) by (simp add: GetStubById_def r(2,4,5,7) nth_append)
  moreover have "RunFRPWithStub_begin dial now code sm =
      (Inr (a, fcRemoteNode config, [(''code'', GStr code), (''stub_id'', GStr sid)]), sm1)"
    by (simp add: RunFRPWithStub_begin_def cfg dial n s)
  ultimately show ?thesis using that [of a sid sm1] h r(3,6) by simp
qed

lemma accept_registers:
  assumes wf: "sm_wf sm" and c: "StubCounter sm < MaxInt64" and a: "accept_peer now conn from1 peer x y sm = (sid, sm1)"
  shows "extends_registry sm sm1 (length (stubHeap sm))" and "sm_wf sm1" and "sid \<noteq> []"
    and "stubHeap sm1 ! length (stubHeap sm) = \<lparr>feStub = NewStreamStub now sid, fePeerNode = from1, fePeerStub = peer,
      feConn = conn, feIn = [], feSendLoop = x, feRecvLoop = y\<rparr>"
proof -
  obtain sid0 sm0 where n: "next_stub_id sm = (sid0, sm0)" by (cases "next_stub_id sm")
  obtain b sm2 where s: "new_stub now conn sid0 from1 peer sm0 = (b, sm2)"
    by (cases "new_stub now conn sid0 from1 peer sm0")
  note r = register_numbered [OF wf c n s]
  have sm1: "sm1 = start_loops x y b sm2" "sid = sid0" using a by (simp_all add: accept_peer_def n s)
  show h: "stubHeap sm1 ! length (stubHeap sm) = \<lparr>feStub = NewStreamStub now sid, fePeerNode = from1, fePeerStub = peer,
      feConn = conn, feIn = [], feSendLoop = x, feRecvLoop = y\<rparr>"
    by (simp add: sm1 start_loops_def at_stub_nth r(2,4))
  show "sm_wf sm1" "sid \<noteq> []" using r(3,6) by (simp_all add: sm1 wf_operations)
  show "extends_registry sm sm1 (length (stubHeap sm))"
    unfolding extends_registry_def h using r(1)
    by (simp add: sm1 start_loops_def GetStubById_def at_stub_nth r(2,4,5,7) nth_append)
qed

text \<open>
  C13: When a node opens a connection for a code that both ends have registered and both local dials
  succeed, the remote procedure answers with the id of the stream it has made, and after the answer the two
  new streams name each other by node and id, both loops of both run, and no other entry or stream of
  either registry has changed. The ids are fresh on both sides although each side counts on its own.
\<close>

theorem connect_pairs_streams:
  assumes wfA: "sm_wf smA" and wfB: "sm_wf smB"
    and cA: "StubCounter smA < MaxInt64" and cB: "StubCounter smB < MaxInt64" and code: "code \<noteq> []"
    and A: "map_of (FrpConfigs smA) code = Some ca" "fcRemoteNode ca = MyNodeId smB" "dialA (fcLocalAddr ca) = Inr connA"
    and B: "map_of (FrpConfigs smB) code = Some cb" "dialB (fcRemoteAddr cb) = Inr connB"
  shows "\<exists>a ps smA1 resp smB1 smA2.
    RunFRPWithStub_begin dialA now code smA = (Inr (a, MyNodeId smB, ps), smA1) \<and>
    rpc_frp_connect dialB now' ps (MyNodeId smA) smB = (resp, smB1) \<and>
    RunFRPWithStub_finish now'' (resp, True) a smA1 = (None, smA2, []) \<and>
    paired smA2 a smB1 (length (stubHeap smB)) \<and>
    extends_registry smA smA2 a \<and> extends_registry smB smB1 (length (stubHeap smB)) \<and>
    feConn (stubHeap smA2 ! a) = connA \<and> feConn (stubHeap smB1 ! length (stubHeap smB)) = connB \<and>
    (\<forall>e \<in> {stubHeap smA2 ! a, stubHeap smB1 ! length (stubHeap smB)}. feSendLoop e \<and> feRecvLoop e)"
proof -
  obtain a sid smA1 where b: "RunFRPWithStub_begin dialA now code smA =
      (Inr (a, MyNodeId smB, [(''code'', GStr code), (''stub_id'', GStr sid)]), smA1)"
    and xA: "extends_registry smA smA1 a" and sid: "sid \<noteq> []"
    and hA: "stubHeap smA1 ! a = \<lparr>feStub = NewStreamStub now sid, fePeerNode = MyNodeId smB, fePeerStub = [],
      feConn = connA, feIn = [], feSendLoop = False, feRecvLoop = False\<rparr>"
    using begin_registers [of smA code ca dialA connA, OF wfA cA A(1,3)] unfolding A(2) by blast
  obtain tid smB1 where ac: "accept_peer now' connB (MyNodeId smA) sid True True smB = (tid, smB1)"
    by (cases "accept_peer now' connB (MyNodeId smA) sid True True smB")
  note xB = accept_registers [OF wfB cB ac]
  have resp: "rpc_frp_connect dialB now' [(''code'', GStr code), (''stub_id'', GStr sid)] (MyNodeId smA) smB =
      (GMap [(''peer_stub_id'', GStr tid)], smB1)"
    by (simp add: rpc_frp_connect_def nonempty_param_def str_param_def code sid B ac)
  define smA2 where "smA2 = start_loops True True a (set_peer tid a smA1)"
  have len: "a < length (stubHeap smA1)" using xA by (simp add: extends_registry_def)
  have fin: "RunFRPWithStub_finish now'' (GMap [(''peer_stub_id'', GStr tid)], True) a smA1 = (None, smA2, [])"
    by (simp add: RunFRPWithStub_finish_def connect_finish_def peer_of_def xB(3) smA2_def)
  have hA2: "stubHeap smA2 ! a = \<lparr>feStub = NewStreamStub now sid, fePeerNode = MyNodeId smB, fePeerStub = tid,
      feConn = connA, feIn = [], feSendLoop = True, feRecvLoop = True\<rparr>"
    using len by (simp add: smA2_def start_loops_def set_peer_def at_stub_nth hA)
  have xA2: "extends_registry smA smA2 a"
    using xA len unfolding extends_registry_def hA2 hA
    by (simp add: smA2_def start_loops_def set_peer_def at_stub_nth GetStubById_def)
  have ids: "MyNodeId smA2 = MyNodeId smA" "MyNodeId smB1 = MyNodeId smB"
    using xA2 xB(1) by (simp_all add: extends_registry_def)
  have "paired smA2 a smB1 (length (stubHeap smB))"
    using extends_registered [OF xA2] extends_registered [OF xB(1)]
    by (simp add: paired_def half_paired_def hA2 xB(4) ids)
  then show ?thesis using b resp fin xA2 xB(1,4) hA2 by (intro exI conjI) auto
qed

definition ex_frp :: "string \<Rightarrow> string \<Rightarrow> StubManager" where
  "ex_frp me peer = RegisterFRP \<lparr>fcCode = ''web'', fcLocalAddr = ''l'', fcRemoteNode = peer, fcRemoteAddr = ''r''\<rparr>
     (NewStubManager me)"

theorem connect_pairs_streams_witness:
  "\<exists>a ps smA1 resp smB1 smA2.
    RunFRPWithStub_begin (\<lambda>_. Inr ''ca'') 1 ''web'' (ex_frp ''A'' ''B'') = (Inr (a, ''B'', ps), smA1) \<and>
    rpc_frp_connect (\<lambda>_. Inr ''cb'') 2 ps ''A'' (ex_frp ''B'' ''A'') = (resp, smB1) \<and>
    RunFRPWithStub_finish 3 (resp, True) a smA1 = (None, smA2, []) \<and> paired smA2 a smB1 0"
proof -
  have "sm_wf (ex_frp x y)" for x y by (simp add: sm_wf_def ex_frp_def RegisterFRP_def NewStubManager_def)
  moreover have "StubCounter (ex_frp x y) = 0" "MyNodeId (ex_frp x y) = x" "length (stubHeap (ex_frp x y)) = 0"
    "map_of (FrpConfigs (ex_frp x y)) ''web'' = Some \<lparr>fcCode = ''web'', fcLocalAddr = ''l'', fcRemoteNode = y, fcRemoteAddr = ''r''\<rparr>"
    for x y by (simp_all add: ex_frp_def RegisterFRP_def NewStubManager_def)
  ultimately show ?thesis
    using connect_pairs_streams [of "ex_frp ''A'' ''B''" "ex_frp ''B'' ''A''" "''web''"
        "\<lparr>fcCode = ''web'', fcLocalAddr = ''l'', fcRemoteNode = ''B'', fcRemoteAddr = ''r''\<rparr>" "\<lambda>_. Inr ''ca''" "''ca''"
        "\<lparr>fcCode = ''web'', fcLocalAddr = ''l'', fcRemoteNode = ''A'', fcRemoteAddr = ''r''\<rparr>" "\<lambda>_. Inr ''cb''" "''cb''" 1 2 3]
    by simp blast
qed

section \<open>Messages of a pair\<close>

definition queue_at :: "nat \<Rightarrow> MessageType \<times> Payload \<Rightarrow> StubManager \<Rightarrow> StubManager" where
  "queue_at b x = at_stub b (\<lambda>e. if length (feIn e) < ChannelQueueSizeLarge then e\<lparr>feIn := feIn e @ [x]\<rparr> else e)"

lemma numbered_message:
  "decode_numbered k (ObjJson [(''stub_id'', GStr i), (k, GNum n)]) = (if k = ''stub_id'' then Some (i, 0) else Some (i, n))"
  if "k \<noteq> ''stub_id''"
  using that by (simp add: decode_numbered_def str_field_def int_field_def)

text \<open>
  C15: Of a pair, every packet, acknowledgement and resend request that one stream sends goes to the other's
  node, is put there into the other stream's queue (unless that is full), and is handled as what was sent,
  with the receiver's own id as its target, so that it passes the receiver's check of the target.
\<close>

theorem pair_delivers:
  assumes "paired smA a smB b" and "x \<in> {OutData s d, OutAck s, OutResendRequest s}"
  shows "\<exists>m. frp_send (stubHeap smA ! a) smA x = [Go (T_sendTo (MyNodeId smB) m)] \<and>
    mFrom m = MyNodeId smA \<and> mTo m = MyNodeId smB \<and>
    handleFrpMessages m smB = queue_at b (mType m, mData m) smB \<and>
    frp_in (mType m, mData m) = (case x of
        OutData s d \<Rightarrow> FData (Some (myId (feStub (stubHeap smB ! b)))) s d
      | OutAck n \<Rightarrow> FAck (Some (myId (feStub (stubHeap smB ! b)))) n
      | _ \<Rightarrow> FResend (Some (myId (feStub (stubHeap smB ! b)))) s)"
proof -
  have p: "fePeerNode (stubHeap smA ! a) = MyNodeId smB" "fePeerStub (stubHeap smA ! a) = myId (feStub (stubHeap smB ! b))"
    "GetStubById (myId (feStub (stubHeap smB ! b))) smB = Some b"
    using assms(1) by (simp_all add: paired_def half_paired_def registered_def)
  show ?thesis
    using assms(2)
    by (auto simp: frp_send_def p frp_message_base_def handleFrpMessages_def frp_target_def queue_at_def decode_data_def
        numbered_message frp_in_def str_field_def int_field_def)
qed

definition ex_pair :: "string \<Rightarrow> string \<Rightarrow> string \<Rightarrow> string \<Rightarrow> StubManager" where
  "ex_pair me mine peer theirs = snd (new_stub 0 ''conn'' mine peer theirs (NewStubManager me))"

lemmas ex_pair_defs = ex_pair_def new_stub_def NewStubManager_def NewStreamStub_def registered_def paired_def
  half_paired_def GetStubById_def

theorem pair_delivers_witness:
  "paired (ex_pair ''A'' ''stub-1'' ''B'' ''stub-7'') 0 (ex_pair ''B'' ''stub-7'' ''A'' ''stub-1'') 0 \<and>
   (\<exists>m. frp_send (stubHeap (ex_pair ''A'' ''stub-1'' ''B'' ''stub-7'') ! 0) (ex_pair ''A'' ''stub-1'' ''B'' ''stub-7'')
      (OutData 1 ''hello'') = [Go (T_sendTo ''B'' m)] \<and> frp_in (mType m, mData m) = FData (Some ''stub-7'') 1 ''hello'')"
proof -
  have p: "paired (ex_pair ''A'' ''stub-1'' ''B'' ''stub-7'') 0 (ex_pair ''B'' ''stub-7'' ''A'' ''stub-1'') 0"
    by (simp add: ex_pair_defs)
  have "MyNodeId (ex_pair ''B'' ''stub-7'' ''A'' ''stub-1'') = ''B''"
    "myId (feStub (stubHeap (ex_pair ''B'' ''stub-7'' ''A'' ''stub-1'') ! 0)) = ''stub-7''"
    by (simp_all add: ex_pair_defs)
  with pair_delivers [OF p, of "OutData 1 ''hello''" 1 "''hello''"] p show ?thesis by auto
qed

section \<open>Closing\<close>

text \<open>
  The closing message carries the id of the stream that closes, and the receiver looks that id up in
  its own table. When the ids of the pair differ, the peer of a closed stream is not touched; a stream of
  the receiver that happens to have the closing stream's id is closed instead, whoever it belongs to.
\<close>

theorem close_goes_astray:
  assumes pair: "paired smA a smB b" and wf: "sm_wf smB"
    and other: "GetStubById (myId (feStub (stubHeap smA ! a))) smB = Some c" "c \<noteq> b"
    and idle: "feIn (stubHeap smB ! c) = []" "\<not> closed (feStub (stubHeap smB ! c))"
  shows "\<exists>smA1 m smB2. close_at now a smA = (smA1, [Go (T_sendTo (MyNodeId smB) m)]) \<and>
    stub_in_step now' c (handleFrpMessages m smB) = Some (smB2, []) \<and>
    lazyClosing (feStub (stubHeap smB2 ! c)) \<and> stubHeap smB2 ! b = stubHeap smB ! b"
proof -
  let ?e = "stubHeap smA ! a"
  have p: "a < length (stubHeap smA)" "b < length (stubHeap smB)" "fePeerNode ?e = MyNodeId smB"
    using pair by (simp_all add: paired_def registered_def half_paired_def)
  have c: "c < length (stubHeap smB)" using sm_wfD(1) [OF wf] other(1) by (simp add: GetStubById_def)
  obtain st where st: "doClose now (feStub ?e) = (st, [OutClose])" by (simp add: doClose_def)
  define smA1 m where "smA1 = at_stub a (\<lambda>e. e\<lparr>feStub := st\<rparr>) smA" and "m = close_message ?e smA"
  have cl: "close_at now a smA = (smA1, [Go (T_sendTo (MyNodeId smB) m)])"
    by (simp add: close_at_def p st frp_send_def smA1_def m_def)
  define sm1 where "sm1 = handleFrpMessages m smB"
  have sm1: "sm1 = at_stub c (\<lambda>e. if length (feIn e) < ChannelQueueSizeLarge
      then e\<lparr>feIn := feIn e @ [(FRPClose, Text (myId (feStub ?e)))]\<rparr> else e) smB"
    by (simp add: sm1_def handleFrpMessages_def m_def close_message_def frp_message_base_def frp_target_def topic_text_def other(1) cong: if_cong)
  have ec: "stubHeap sm1 ! c = (stubHeap smB ! c)\<lparr>feIn := [(FRPClose, Text (myId (feStub ?e)))]\<rparr>"
    using c idle(1) by (simp add: sm1 at_stub_nth ChannelQueueSizeLarge_def)
  define smB2 where "smB2 = at_stub c (\<lambda>e. e\<lparr>feStub := onClose (feStub (stubHeap smB ! c)), feIn := []\<rparr>) sm1"
  have len: "length (stubHeap sm1) = length (stubHeap smB)" by (simp add: sm1)
  have "stub_in_step now' c sm1 = Some (smB2, [])"
    using c idle(2) by (simp add: stub_in_step_def len ec frp_in_def smB2_def)
  moreover have "lazyClosing (feStub (stubHeap smB2 ! c))"
    using c by (simp add: smB2_def at_stub_nth len onClose_def lazyClose_def)
  moreover have "stubHeap smB2 ! b = stubHeap smB ! b"
    using p(2) other(2) by (simp add: smB2_def at_stub_nth len) (simp add: sm1 at_stub_nth)
  ultimately show ?thesis using cl unfolding sm1_def by blast
qed

text \<open>Node \<open>B\<close> has a stream \<open>stub-1\<close> with \<open>C\<close>, and \<open>stub-2\<close> paired with \<open>stub-1\<close> of \<open>A\<close>.\<close>

definition ex_busy :: StubManager where
  "ex_busy = snd (new_stub 0 ''conn'' ''stub-2'' ''A'' ''stub-1''
     (snd (new_stub 0 ''conn'' ''stub-1'' ''C'' ''stub-9'' ((NewStubManager ''B'')\<lparr>StubCounter := 2\<rparr>))))"

lemma numbered_small: "numbered 1 = ''stub-1''" "numbered 2 = ''stub-2''"
  by code_simp+

theorem close_goes_astray_witness:
  "\<exists>smA1 m smB2. close_at 5 0 (ex_pair ''A'' ''stub-1'' ''B'' ''stub-2'') = (smA1, [Go (T_sendTo ''B'' m)]) \<and>
    stub_in_step 6 0 (handleFrpMessages m ex_busy) = Some (smB2, []) \<and>
    lazyClosing (feStub (stubHeap smB2 ! 0)) \<and> fePeerNode (stubHeap ex_busy ! 0) = ''C''"
proof -
  have f: "MyNodeId ex_busy = ''B''" "stubHeap ex_busy ! 0 = \<lparr>feStub = NewStreamStub 0 ''stub-1'', fePeerNode = ''C'',
      fePeerStub = ''stub-9'', feConn = ''conn'', feIn = [], feSendLoop = False, feRecvLoop = False\<rparr>"
    by (simp_all add: ex_busy_def ex_pair_defs)
  have p: "paired (ex_pair ''A'' ''stub-1'' ''B'' ''stub-2'') 0 ex_busy 1" by (simp add: ex_busy_def ex_pair_defs)
  have w0: "sm_wf ((NewStubManager ''B'')\<lparr>StubCounter := 2\<rparr>)" by (simp add: sm_wf_def NewStubManager_def)
  have w1: "sm_wf (snd (new_stub 0 ''conn'' ''stub-1'' ''C'' ''stub-9'' ((NewStubManager ''B'')\<lparr>StubCounter := 2\<rparr>)))"
    by (rule new_stub_wf [OF w0 surjective_pairing]) (simp add: numbered_small(1) [symmetric])
  have w: "sm_wf ex_busy"
    unfolding ex_busy_def
    by (rule new_stub_wf [OF w1 surjective_pairing]) (simp add: numbered_small(2) [symmetric] new_stub_def)
  have g: "GetStubById (myId (feStub (stubHeap (ex_pair ''A'' ''stub-1'' ''B'' ''stub-2'') ! 0))) ex_busy = Some 0"
    by (simp add: ex_busy_def ex_pair_defs)
  have i: "feIn (stubHeap ex_busy ! 0) = []" "\<not> closed (feStub (stubHeap ex_busy ! 0))"
    "fePeerNode (stubHeap ex_busy ! 0) = ''C''"
    by (simp_all add: f NewStreamStub_def)
  from close_goes_astray [OF p w g zero_neq_one i(1,2), of 5 6] i(3) show ?thesis unfolding f(1) by blast
qed

section \<open>Dynamic connections\<close>

text \<open>
  Every connection that a dynamic listener accepts is registered under the code of the listener. After a
  second connection, every message for either goes to the newer stream, and when the closing timer of the
  older one fires it deletes the entry, which is the newer stream's: from then on the messages of an open
  connection are dropped.
\<close>

theorem dynamic_streams_collide:
  assumes first: "accept_dynamic_begin t1 c1 code rn ra sm = ((a1, ps1), sm1)"
    and second: "accept_dynamic_begin t2 c2 code rn ra sm1 = ((a2, ps2), sm2)"
    and m: "frp_target m = Some code"
  shows "handleFrpMessages m sm2 = queue_at a2 (mType m, mData m) sm2 \<and>
    stubHeap (handleFrpMessages m sm2) ! a1 = stubHeap sm2 ! a1 \<and>
    (let sm3 = lazy_close_step t3 a1 (fst (close_at t2 a1 sm2)) in
      AckTimeout < t3 - t2 \<longrightarrow>
      handleFrpMessages m sm3 = sm3 \<and> feStub (stubHeap sm3 ! a2) = NewStreamStub t2 code)"
proof -
  let ?e = "\<lambda>t c. \<lparr>feStub = NewStreamStub t code, fePeerNode = rn, fePeerStub = [], feConn = c, feIn = [],
    feSendLoop = False, feRecvLoop = False\<rparr>"
  have a: "a1 = length (stubHeap sm)" "a2 = Suc a1" "stubHeap sm2 = stubHeap sm @ [?e t1 c1, ?e t2 c2]"
    "GetStubById code sm2 = Some a2"
    using first second by (auto simp: accept_dynamic_begin_def new_stub_def GetStubById_def)
  have h: "handleFrpMessages m sm2 = queue_at a2 (mType m, mData m) sm2"
    by (simp add: handleFrpMessages_def m a(4) queue_at_def)
  have e: "stubHeap sm2 ! a1 = ?e t1 c1" "stubHeap sm2 ! a2 = ?e t2 c2" "a1 < length (stubHeap sm2)" "a2 < length (stubHeap sm2)"
    by (simp_all add: a nth_append)
  define sm3 where "sm3 = lazy_close_step t3 a1 (fst (close_at t2 a1 sm2))"
  have "handleFrpMessages m sm3 = sm3 \<and> feStub (stubHeap sm3 ! a2) = NewStreamStub t2 code" if "AckTimeout < t3 - t2"
  proof -
    define cl where "cl = (NewStreamStub t1 code)\<lparr>lastActivityTime := t2, lazyClosing := True\<rparr>"
    define sc where "sc = fst (close_at t2 a1 sm2)"
    have sc: "sc = at_stub a1 (\<lambda>e. e\<lparr>feStub := cl\<rparr>) sm2"
      by (simp add: sc_def close_at_def e doClose_def lazyClose_def cl_def)
    have n: "feStub (stubHeap sc ! a1) = cl" "feStub (stubHeap sc ! a2) = NewStreamStub t2 code" "a1 < length (stubHeap sc)"
      using e a(2) by (simp_all add: sc at_stub_nth)
    have "sm3 = DeleteStubById code (at_stub a1 (\<lambda>e. e\<lparr>feStub := cl\<lparr>closed := True\<rparr>\<rparr>) sc)"
      using that by (simp add: sm3_def sc_def [symmetric] lazy_close_step_def n lazyClose_tick_def cl_def
        Let_def NewStreamStub_def)
    then show ?thesis
      using n e a(2) by (simp add: handleFrpMessages_def m GetStubById_def DeleteStubById_def at_stub_nth sc delete_conv)
  qed
  then show ?thesis using h a(2) e by (simp add: sm3_def [symmetric] Let_def queue_at_def at_stub_nth)
qed

theorem dynamic_streams_collide_witness:
  defines "sm1 \<equiv> snd (accept_dynamic_begin 1 ''c1'' ''http'' ''B'' ''x'' (NewStubManager ''A''))"
  defines "sm2 \<equiv> snd (accept_dynamic_begin 2 ''c2'' ''http'' ''B'' ''x'' sm1)"
  defines "m \<equiv> zero_message\<lparr>mType := FRPData, mData := ObjJson [(''stub_id'', GStr ''http'')]\<rparr>"
  shows "stubHeap (handleFrpMessages m sm2) ! 0 = stubHeap sm2 ! 0 \<and> GetStubById ''http'' sm2 = Some 1"
proof -
  have 1: "accept_dynamic_begin 1 ''c1'' ''http'' ''B'' ''x'' (NewStubManager ''A'') =
      ((0, [(''tcp_target'', GStr ''x''), (''stub_id'', GStr ''http'')]), sm1)"
    by (simp add: sm1_def accept_dynamic_begin_def new_stub_def NewStubManager_def)
  have 2: "accept_dynamic_begin 2 ''c2'' ''http'' ''B'' ''x'' sm1 =
      ((1, [(''tcp_target'', GStr ''x''), (''stub_id'', GStr ''http'')]), sm2)"
    by (simp add: sm2_def sm1_def accept_dynamic_begin_def new_stub_def NewStubManager_def)
  have m: "frp_target m = Some ''http''"
    by (simp add: m_def frp_target_def decode_data_def str_field_def int_field_def)
  have "GetStubById ''http'' sm2 = Some 1"
    by (simp add: sm2_def sm1_def accept_dynamic_begin_def new_stub_def NewStubManager_def GetStubById_def)
  with dynamic_streams_collide [OF 1 2 m, THEN conjunct2, THEN conjunct1] show ?thesis by blast
qed

end
