(* ===== verification/Frp_Link.thy ===== *)
theory Frp_Link
  imports Frp_Stream "HOL-Library.Sublist"
begin

text \<open>
  core/FRPStreamStub.go: the goroutines of a stream endpoint, and two endpoints that are each other's peer,
  over a network that may lose, repeat, delay and reorder every packet, acknowledgement and request.
  An event is one round of one goroutine (\<open>startReadFromConn\<close>, \<open>sendDataLoop\<close>, \<open>frpMessageInLoop\<close>,
  \<open>writeLoop\<close>, the ticker of \<open>lazyClose\<close>), so that a run is any interleaving of them. The theory shows that
  what comes out at one end is what went in at the other, whatever the network does, and that a stream whose
  last packet is lost stalls for good.
\<close>

section \<open>The goroutines of an endpoint\<close>

datatype send_loop = Stopped | Idle | Holding int string

record endpoint =
  epStub :: StreamStub
  epPeer :: string               \<comment> \<open>\<open>peerStubId\<close>\<close>
  epReading :: bool              \<comment> \<open>the goroutine of \<open>startReadFromConn\<close> runs\<close>
  epSend :: send_loop            \<comment> \<open>\<open>sendDataLoop\<close>, \<open>Holding\<close> while it waits for room in the window\<close>
  epWriting :: bool              \<comment> \<open>\<open>writeLoop\<close> runs\<close>
  readChan :: "string list"
  epRead :: "string list"        \<comment> \<open>history: all that was put into \<open>readChan\<close>\<close>
  epWrote :: "string list"       \<comment> \<open>history: all that was written to the connection\<close>
  epLost :: bool                 \<comment> \<open>history: \<open>enqueueWrite\<close> threw data away\<close>

definition new_endpoint :: "int \<Rightarrow> string \<Rightarrow> string \<Rightarrow> endpoint" where
  "new_endpoint now sid peer = \<lparr>epStub = NewStreamStub now sid, epPeer = peer, epReading = False, epSend = Stopped,
     epWriting = False, readChan = [], epRead = [], epWrote = [], epLost = False\<rparr>"

definition StartSendStub :: "endpoint \<Rightarrow> endpoint" where "StartSendStub e = e\<lparr>epSend := Idle\<rparr>"
definition StartRecvStub :: "endpoint \<Rightarrow> endpoint" where "StartRecvStub e = e\<lparr>epWriting := True\<rparr>"
definition StartSendLoop :: "endpoint \<Rightarrow> endpoint" where "StartSendLoop e = e\<lparr>epReading := True, epSend := Idle\<rparr>"
definition StartRecvLoop :: "endpoint \<Rightarrow> endpoint" where "StartRecvLoop e = e\<lparr>epWriting := True\<rparr>"

definition SetFastConnect :: "bool \<Rightarrow> StreamStub \<Rightarrow> StreamStub" where "SetFastConnect b stub = stub\<lparr>fastConnect := b\<rparr>"
definition SetDelayedResend :: "bool \<Rightarrow> StreamStub \<Rightarrow> StreamStub" where "SetDelayedResend b stub = stub\<lparr>delayedResend := b\<rparr>"
definition SetDelayedResendRequest :: "bool \<Rightarrow> StreamStub \<Rightarrow> StreamStub" where
  "SetDelayedResendRequest b stub = stub\<lparr>delayedResendRequest := b\<rparr>"

datatype ep_event =
    Chunk string                     \<comment> \<open>\<open>conn.Read\<close> returns data, which goes into \<open>readChan\<close>\<close>
  | ReadError int
  | ReaderStop                       \<comment> \<open>\<open>cancelCtx.Done\<close> in the reader\<close>
  | Take int                         \<comment> \<open>\<open>sendDataLoop\<close> takes data and a number\<close>
  | Try int                          \<comment> \<open>it looks whether the window has room\<close>
  | SenderStop int
  | Incoming int frp_message
  | Write int bool
  | WriterStop
  | CloseTick int
  | Configure bool bool bool

fun ep_enabled :: "ep_event \<Rightarrow> endpoint \<Rightarrow> bool" where
  "ep_enabled (Chunk d) e \<longleftrightarrow> epReading e \<and> d \<noteq> [] \<and> length d \<le> 65535 \<and> length (readChan e) < ChannelQueueSizeLarge"
| "ep_enabled (ReadError now) e \<longleftrightarrow> epReading e"
| "ep_enabled ReaderStop e \<longleftrightarrow> epReading e \<and> closed (epStub e)"
| "ep_enabled (Take now) e \<longleftrightarrow> epSend e = Idle \<and> readChan e \<noteq> []"
| "ep_enabled (Try now) e \<longleftrightarrow> (case epSend e of Holding s d \<Rightarrow> True | _ \<Rightarrow> False)"
| "ep_enabled (SenderStop now) e \<longleftrightarrow> epSend e = Idle \<and> closed (epStub e)"
| "ep_enabled (Incoming now m) e \<longleftrightarrow> True"
| "ep_enabled (Write now good) e \<longleftrightarrow> epWriting e \<and> writeChan (epStub e) \<noteq> []"
| "ep_enabled WriterStop e \<longleftrightarrow> epWriting e \<and> closed (epStub e)"
| "ep_enabled (CloseTick now) e \<longleftrightarrow> lazyClosing (epStub e)"
| "ep_enabled (Configure f r q) e \<longleftrightarrow> True"

text \<open>A round on the stream itself: its new state and what it sends; the histories follow the outputs.\<close>

definition put_stub :: "StreamStub \<times> frp_out list \<Rightarrow> endpoint \<Rightarrow> endpoint \<times> frp_out list" where
  "put_stub r e = (case r of (stub, os) \<Rightarrow>
     (e\<lparr>epStub := stub, epWrote := epWrote e @ written os, epLost := (epLost e \<or> \<not> no_drop os)\<rparr>, os))"

definition sendDataLoop_take :: "int \<Rightarrow> endpoint \<Rightarrow> endpoint \<times> frp_out list" where
  "sendDataLoop_take now e = (case readChan e of
       [] \<Rightarrow> (e, [])
     | d # ds \<Rightarrow> (let (stub, s) = send_begin now (epStub e) in
         (e\<lparr>epStub := stub, readChan := ds, epSend := Holding s d\<rparr>, [])))"

definition sendDataLoop_try :: "int \<Rightarrow> endpoint \<Rightarrow> (endpoint \<times> frp_out list) option" where
  "sendDataLoop_try now e = (case epSend e of
       Holding s d \<Rightarrow> do {
         (stub, os, res) \<leftarrow> send_try now s d (epStub e);
         Some (put_stub (stub, os)
           (e\<lparr>epSend := (case res of Sent \<Rightarrow> Idle | Aborted \<Rightarrow> Stopped | Waiting \<Rightarrow> Holding s d)\<rparr>)) }
     | _ \<Rightarrow> Some (e, []))"

fun ep_step :: "ep_event \<Rightarrow> endpoint \<Rightarrow> (endpoint \<times> frp_out list) option" where
  "ep_step (Chunk d) e = Some (e\<lparr>readChan := readChan e @ [d], epRead := epRead e @ [d]\<rparr>, [])"
| "ep_step (ReadError now) e = Some (put_stub (doClose now (epStub e)) (e\<lparr>epReading := False\<rparr>))"
| "ep_step ReaderStop e = Some (e\<lparr>epReading := False\<rparr>, [])"
| "ep_step (Take now) e = Some (sendDataLoop_take now e)"
| "ep_step (Try now) e = sendDataLoop_try now e"
| "ep_step (SenderStop now) e = Some (put_stub (doClose now (epStub e)) (e\<lparr>epSend := Stopped\<rparr>))"
| "ep_step (Incoming now m) e = map_option (\<lambda>r. put_stub r e) (frp_dispatch now m (epStub e))"
| "ep_step (Write now good) e = Some (put_stub (write_round now good (epStub e)) (e\<lparr>epWriting := good\<rparr>))"
| "ep_step WriterStop e = Some (e\<lparr>epWriting := False\<rparr>, [])"
| "ep_step (CloseTick now) e = Some (e\<lparr>epStub := lazyClose_tick now (epStub e)\<rparr>, [])"
| "ep_step (Configure f r q) e =
     Some (e\<lparr>epStub := SetDelayedResendRequest q (SetDelayedResend r (SetFastConnect f (epStub e)))\<rparr>, [])"

section \<open>Two endpoints and the network between them\<close>

text \<open>
  \<open>flight\<close> holds what was sent, with the end it goes to. A delivery leaves it there, since it may come again,
  and anything in it may be lost.
\<close>

record frp_link =
  ends :: "bool \<Rightarrow> endpoint"
  flight :: "(bool \<times> frp_message) list"

fun frp_wire :: "string \<Rightarrow> frp_out \<Rightarrow> frp_message list" where
  "frp_wire peer (OutData s d) = [FData (Some peer) s d]"
| "frp_wire peer (OutAck a) = [FAck (Some peer) a]"
| "frp_wire peer (OutResendRequest s) = [FResend (Some peer) s]"
| "frp_wire peer _ = []"

text \<open>Messages of other streams, and closing messages, which may come from anywhere.\<close>

fun frp_foreign :: "string \<Rightarrow> frp_message \<Rightarrow> bool" where
  "frp_foreign sid (FData t s d) \<longleftrightarrow> t \<noteq> Some sid"
| "frp_foreign sid (FAck t a) \<longleftrightarrow> t \<noteq> Some sid"
| "frp_foreign sid (FResend t s) \<longleftrightarrow> t \<noteq> Some sid"
| "frp_foreign sid _ \<longleftrightarrow> True"

fun may_arrive :: "ep_event \<Rightarrow> bool \<Rightarrow> frp_link \<Rightarrow> bool" where
  "may_arrive (Incoming now m) x L \<longleftrightarrow> (x, m) \<in> set (flight L) \<or> frp_foreign (myId (epStub (ends L x))) m"
| "may_arrive ev x L \<longleftrightarrow> True"

datatype link_label = Act bool ep_event | Lose

inductive link_step :: "link_label \<Rightarrow> frp_link \<Rightarrow> frp_link \<Rightarrow> bool" where
  act: "\<lbrakk>ep_enabled ev (ends L x); may_arrive ev x L; ep_step ev (ends L x) = Some (e, os)\<rbrakk> \<Longrightarrow>
    link_step (Act x ev) L \<lparr>ends = (ends L)(x := e),
      flight = flight L @ map (Pair (\<not> x)) (concat (map (frp_wire (epPeer e)) os))\<rparr>"
| lose: "link_step Lose L (L\<lparr>flight := remove1 m (flight L)\<rparr>)"

inductive_cases link_step_ActE: "link_step (Act x ev) L L'"
inductive_cases link_step_LoseE: "link_step Lose L L'"

definition new_link :: "int \<Rightarrow> string \<Rightarrow> string \<Rightarrow> frp_link" where
  "new_link now a b = \<lparr>ends = (\<lambda>x. StartRecvLoop (StartSendLoop
     (if x then new_endpoint now a b else new_endpoint now b a))), flight = []\<rparr>"

inductive link_reach :: "int \<Rightarrow> string \<Rightarrow> string \<Rightarrow> frp_link \<Rightarrow> bool" for now a b where
  start: "link_reach now a b (new_link now a b)"
| step: "link_reach now a b L \<Longrightarrow> link_step l L L' \<Longrightarrow> link_reach now a b L'"

section \<open>The send window under acknowledgements in any order\<close>

text \<open>Packet \<open>s\<close> of a stream whose chunks are \<open>xs\<close>; the first packet has number 1.\<close>

definition pk :: "string list \<Rightarrow> int \<Rightarrow> string" where
  "pk xs s = (if 1 \<le> s \<and> s \<le> int (length xs) then xs ! nat (s - 1) else [])"

lemma pk_append: "s \<le> int (length xs) \<Longrightarrow> pk (xs @ ys) s = pk xs s"
  by (auto simp: pk_def nth_append)

lemma map_pk_take: "0 \<le> r \<Longrightarrow> r \<le> int (length xs) \<Longrightarrow> map (pk xs) [1..r] = take (nat r) xs"
  by (rule nth_equalityI) (auto simp: pk_def)

text \<open>
  Whatever acknowledgements arrive, a filled cell holds the last packet put into it, and that packet is not
  below the start of the window. \<open>p\<close> is the number of packets put so far.
\<close>

definition cells_ok :: "string list \<Rightarrow> int \<Rightarrow> WindowBuffer \<Rightarrow> bool" where
  "cells_ok xs p w \<longleftrightarrow> wsize w = int MaxSendWindowSize \<and> length (wdata w) = MaxSendWindowSize \<and>
     length (wfilled w) = MaxSendWindowSize \<and> length (retryCount w) = MaxSendWindowSize \<and>
     length (sendTime w) = MaxSendWindowSize \<and> 1 \<le> startSeq w \<and> startSeq w \<le> p + 1 \<and> p < 2 ^ 62 \<and>
     (\<forall>i < MaxSendWindowSize. wfilled w ! i \<longrightarrow> (\<exists>L. i = nat (L mod int MaxSendWindowSize) \<and> startSeq w \<le> L \<and>
        p - int MaxSendWindowSize < L \<and> L \<le> p \<and> wdata w ! i = pk xs L))"

lemma cells_inv: "cells_ok xs p w \<Longrightarrow> win_inv w"
  by (auto simp: cells_ok_def win_inv_def MaxSendWindowSize_def)

lemma cells_append: "cells_ok xs p w \<Longrightarrow> p \<le> int (length xs) \<Longrightarrow> cells_ok (xs @ ys) p w"
  unfolding cells_ok_def by (metis order_trans pk_append)

lemma cells_new: "cells_ok xs 0 (NewWindowBuffer 1 MaxSendWindowSize)"
  by (simp add: cells_ok_def NewWindowBuffer_def)

lemma cells_put:
  assumes c: "cells_ok xs p w" and room: "p + 1 < startSeq w + int MaxSendWindowSize" and b: "p + 1 < 2 ^ 62"
  shows "\<exists>w'. wb_Put now (p + 1) (pk xs (p + 1)) w = Some (w', True) \<and> cells_ok xs (p + 1) w' \<and> startSeq w' = startSeq w"
proof -
  let ?n = "int MaxSendWindowSize" and ?s = "p + 1"
  let ?i = "nat (?s mod ?n)"
  have n: "0 < ?n" by (simp add: MaxSendWindowSize_def)
  note inv = cells_inv [OF c]
  have size: "wsize w = ?n" and start: "1 \<le> startSeq w" "startSeq w \<le> ?s" using c by (auto simp: cells_ok_def)
  let ?w = "w\<lparr>wdata := (wdata w)[?i := pk xs ?s], wfilled := (wfilled w)[?i := True],
      retryCount := (retryCount w)[?i := 0], sendTime := (sendTime w)[?i := now]\<rparr>"
  have "wb_Put now ?s (pk xs ?s) w = Some (?w, True)"
    using room start by (simp add: wb_Put_def in_window_inv [OF inv] ring_index_inv [OF inv] size)
  moreover have "cells_ok xs ?s ?w"
  proof -
    have "\<exists>L. i = nat (L mod ?n) \<and> startSeq w \<le> L \<and> ?s - ?n < L \<and> L \<le> ?s \<and>
        (wdata w)[?i := pk xs ?s] ! i = pk xs L" if i: "i < MaxSendWindowSize" "(wfilled w)[?i := True] ! i" for i
    proof (cases "i = ?i")
      case True
      then show ?thesis using c i n start by (intro exI [of _ ?s]) (auto simp: cells_ok_def)
    next
      case False
      with i c obtain L where L: "i = nat (L mod ?n)" "startSeq w \<le> L" "p - ?n < L" "L \<le> p" "wdata w ! i = pk xs L"
        by (auto simp: cells_ok_def)
      have "L \<noteq> ?s - ?n" using False L(1) by auto
      then show ?thesis using L False by (intro exI [of _ L]) auto
    qed
    then show ?thesis using c b start by (simp add: cells_ok_def)
  qed
  ultimately show ?thesis by auto
qed

text \<open>Clearing cells, in whatever order, keeps what is not cleared.\<close>

lemma clear_loop_cells:
  assumes "win_inv w" and "\<forall>k \<in> set ks. 0 \<le> k"
  shows "\<exists>w'. clear_loop ks w = Some w' \<and> win_inv w' \<and> startSeq w' = startSeq w \<and> wsize w' = wsize w \<and>
    (\<forall>i < length (wfilled w). wfilled w' ! i \<longrightarrow>
       wfilled w ! i \<and> wdata w' ! i = wdata w ! i \<and> (\<forall>k \<in> set ks. i \<noteq> nat (k mod wsize w)))"
  using assms
proof (induction ks arbitrary: w)
  case Nil
  then show ?case by (simp add: clear_loop_def)
next
  case (Cons k ks)
  let ?i = "nat (k mod wsize w)"
  let ?w = "clear_cell ?i w"
  have r: "ring_index k w = Some ?i" using Cons.prems by (intro ring_index_inv) auto
  have f: "startSeq ?w = startSeq w" "wsize ?w = wsize w" "wdata ?w = (wdata w)[?i := []]"
    "wfilled ?w = (wfilled w)[?i := False]" by (simp_all add: clear_cell_def)
  have "win_inv ?w" "\<forall>k \<in> set ks. 0 \<le> k" using Cons.prems by (simp_all add: clear_cell_inv)
  from Cons.IH [OF this, unfolded f] obtain w' where w': "clear_loop ks ?w = Some w'" "win_inv w'"
    "startSeq w' = startSeq w" "wsize w' = wsize w" and c: "\<forall>i < length ((wfilled w)[?i := False]). wfilled w' ! i \<longrightarrow>
       (wfilled w)[?i := False] ! i \<and> wdata w' ! i = (wdata w)[?i := []] ! i \<and> (\<forall>k \<in> set ks. i \<noteq> nat (k mod wsize w))"
    by blast
  have "wfilled w ! i \<and> wdata w' ! i = wdata w ! i \<and> (\<forall>k \<in> set (k # ks). i \<noteq> nat (k mod wsize w))"
    if i: "i < length (wfilled w)" "wfilled w' ! i" for i
  proof -
    have "(wfilled w)[?i := False] ! i" using c i by simp
    then have "i \<noteq> ?i" using i(1) by auto
    then show ?thesis using c i by auto
  qed
  moreover have "clear_loop (k # ks) w = Some w'" using r w'(1) by (simp add: clear_loop_def)
  ultimately show ?case using w' by blast
qed

lemma cells_remove:
  assumes c: "cells_ok xs p w" and a: "0 \<le> a" "a \<le> p"
  shows "\<exists>w'. wb_RemoveUpTo a w = Some w' \<and> cells_ok xs p w' \<and> startSeq w' = a + 1"
proof -
  let ?n = "int MaxSendWindowSize"
  have "\<forall>k \<in> set [startSeq w..a]. 0 \<le> k" using c by (auto simp: cells_ok_def)
  from clear_loop_cells [OF cells_inv [OF c] this] obtain w' where w: "clear_loop [startSeq w..a] w = Some w'" "win_inv w'"
    "startSeq w' = startSeq w" "wsize w' = wsize w" and f: "\<forall>i < length (wfilled w). wfilled w' ! i \<longrightarrow>
       wfilled w ! i \<and> wdata w' ! i = wdata w ! i \<and> (\<forall>k \<in> set [startSeq w..a]. i \<noteq> nat (k mod wsize w))" by blast
  have "\<exists>L. i = nat (L mod ?n) \<and> a + 1 \<le> L \<and> p - ?n < L \<and> L \<le> p \<and> wdata w' ! i = pk xs L"
    if i: "i < MaxSendWindowSize" "wfilled w' ! i" for i
  proof -
    have g: "wfilled w ! i" "wdata w' ! i = wdata w ! i" "\<forall>k \<in> set [startSeq w..a]. i \<noteq> nat (k mod ?n)"
      using f i c by (auto simp: cells_ok_def)
    with i(1) c obtain L where L: "i = nat (L mod ?n)" "startSeq w \<le> L" "p - ?n < L" "L \<le> p" "wdata w ! i = pk xs L"
      by (auto simp: cells_ok_def)
    have "\<not> L \<le> a" using g(3) L(1,2) by auto
    with L g(2) show ?thesis by (intro exI [of _ L]) auto
  qed
  then have "cells_ok xs p (w'\<lparr>startSeq := a + 1\<rparr>)"
    using w(2,4) c a by (auto simp: cells_ok_def win_inv_def)
  moreover have "i64 (a + 1) = a + 1" using a c by (simp add: in_i64_def cells_ok_def)
  ultimately show ?thesis using w(1) by (simp add: wb_RemoveUpTo_def clear_loop_def [symmetric])
qed

text \<open>What the window returns for a number is that packet, unless the receiver has long had it.\<close>

lemma cells_get:
  assumes c: "cells_ok xs p w" and d: "win_content w s = Some d"
  shows "1 \<le> s \<and> s \<le> p \<and> (d = pk xs s \<or> s \<le> p - int MaxSendWindowSize)"
proof -
  let ?n = "int MaxSendWindowSize"
  have n: "0 < ?n" by (simp add: MaxSendWindowSize_def)
  have size: "wsize w = ?n" and start: "1 \<le> startSeq w" using c by (auto simp: cells_ok_def)
  from d have s: "startSeq w \<le> s" "s < startSeq w + ?n" "wfilled w ! nat (s mod ?n)" "d = wdata w ! nat (s mod ?n)"
    by (auto simp: win_content_def size split: if_splits)
  have "nat (s mod ?n) < MaxSendWindowSize" using n pos_mod_bound [OF n, of s] by linarith
  with s(3) c obtain L where L: "nat (s mod ?n) = nat (L mod ?n)" "startSeq w \<le> L" "p - ?n < L" "L \<le> p"
    "wdata w ! nat (s mod ?n) = pk xs L" by (auto simp: cells_ok_def)
  have "s \<le> p"
  proof (rule ccontr)
    assume "\<not> s \<le> p"
    then have "s = L" using cell_inject [OF n s(1,2) L(2)] L(1,4) s(2) by simp
    with L(4) \<open>\<not> s \<le> p\<close> show False by simp
  qed
  moreover have "s = L" if "p - ?n < s"
    using cell_inject [of ?n "p - ?n + 1" s L] n that L(1,3,4) \<open>s \<le> p\<close> by simp
  ultimately show ?thesis using s(1,4) start L(5) by force
qed

section \<open>What a step leaves alone\<close>

text \<open>The sending half of a stream, and its receiving half (\<open>same_recv\<close>).\<close>

definition same_send :: "StreamStub \<Rightarrow> StreamStub \<Rightarrow> bool" where
  "same_send a b \<longleftrightarrow> sendSeq b = sendSeq a \<and> sendWindow b = sendWindow a \<and> myId b = myId a"

lemma same_send_trans: "same_send a b \<Longrightarrow> same_send b c \<Longrightarrow> same_send a c"
  by (simp add: same_send_def)

lemma enqueueWrite_send: "enqueueWrite d stub = (stub', os) \<Longrightarrow> same_send stub stub'"
  by (auto simp: enqueueWrite_def same_send_def split: if_splits)

lemma deliver_loop_send: "deliver_loop n s stub = Some (stub', os) \<Longrightarrow> same_send stub stub'"
proof (induction n arbitrary: s stub stub' os)
  case (Suc n)
  from Suc.prems consider "stub' = stub"
    | d stub1 o1 o2 where "enqueueWrite d stub = (stub1, o1)"
      "deliver_loop n (i64 (s + 1)) (stub1\<lparr>recvSeq := s\<rparr>) = Some (stub', o2)"
    by (auto split: bind_splits option.splits prod.splits)
  then show ?case
  proof cases
    case 2
    have "same_send stub1 (stub1\<lparr>recvSeq := s\<rparr>)" by (simp add: same_send_def)
    with enqueueWrite_send [OF 2(1)] Suc.IH [OF 2(2)] show ?thesis by (blast intro: same_send_trans)
  qed (simp add: same_send_def)
qed (simp add: same_send_def)

lemma sendResendRequest_send: "sendResendRequest now s stub = (stub', os) \<Longrightarrow> same_send stub stub'"
  by (auto simp: sendResendRequest_def same_send_def Let_def split: if_splits)

lemma gap_loop_send: "gap_loop now n ss stub = Some (stub', os) \<Longrightarrow> same_send stub stub'"
proof (induction ss arbitrary: n stub stub' os)
  case (Cons s ss)
  from Cons.prems consider "stub' = stub" | o1 where "gap_loop now n ss stub = Some (stub', o1)"
    | stub1 o1 o2 where "sendResendRequest now s stub = (stub1, o1)" "gap_loop now (Suc n) ss stub1 = Some (stub', o2)"
    by (auto split: bind_splits if_splits prod.splits)
  then show ?case
  proof cases
    case 2
    then show ?thesis by (rule Cons.IH)
  next
    case 3
    show ?thesis using sendResendRequest_send [OF 3(1)] Cons.IH [OF 3(2)] by (rule same_send_trans)
  qed (simp add: same_send_def)
qed (simp add: same_send_def)

lemma acknowledge_send: "acknowledge now stub = (stub', os) \<Longrightarrow> same_send stub stub'"
  by (auto simp: acknowledge_def sendAck_def same_send_def Let_def split: if_splits)

lemma onData_send: "onData now t s d stub = Some (stub', os) \<Longrightarrow> same_send stub stub'"
  by (auto simp: onData_def Let_def same_send_def split: bind_splits if_splits prod.splits
      dest!: deliver_loop_send [unfolded same_send_def] gap_loop_send [unfolded same_send_def]
        acknowledge_send [unfolded same_send_def])

lemma onAck_recv: "onAck now t a stub = Some stub' \<Longrightarrow> same_recv stub stub'"
  by (auto simp: onAck_def same_recv_def Let_def split: bind_splits if_splits)

lemma doClose_frame:
  assumes "doClose now stub = (stub', os)"
  shows "same_send stub stub'" and "same_recv stub stub'" and "os = [OutClose]"
  using assms by (auto simp: doClose_def lazyClose_def same_send_def same_recv_def)

section \<open>The invariant of one end\<close>

text \<open>
  The sending half of an end: \<open>put_seq\<close> packets have been put into the window, the rest of what was read is
  still in \<open>readChan\<close>; \<open>r\<close> is how far the other end has come. The receiving half: it holds packets of
  the stream \<open>ys\<close> of the other end, of which \<open>q\<close> have been sent.
\<close>

definition put_seq :: "endpoint \<Rightarrow> int" where
  "put_seq e = (case epSend e of Holding s d \<Rightarrow> sendSeq (epStub e) - 1 | _ \<Rightarrow> sendSeq (epStub e))"

definition snd_ok :: "int \<Rightarrow> endpoint \<Rightarrow> bool" where
  "snd_ok r e \<longleftrightarrow> cells_ok (epRead e) (put_seq e) (sendWindow (epStub e)) \<and> 0 \<le> put_seq e \<and>
     startSeq (sendWindow (epStub e)) \<le> r + 1 \<and> put_seq e \<le> r + int MaxSendWindowSize \<and> r \<le> put_seq e \<and>
     sendSeq (epStub e) \<le> int (length (epRead e)) \<and> readChan e = drop (nat (sendSeq (epStub e))) (epRead e) \<and>
     (case epSend e of Holding s d \<Rightarrow> s = sendSeq (epStub e) \<and> d = pk (epRead e) s | _ \<Rightarrow> True)"

definition rcv_ok :: "string list \<Rightarrow> int \<Rightarrow> endpoint \<Rightarrow> bool" where
  "rcv_ok ys q e \<longleftrightarrow> recv_ok (pk ys) (epStub e) \<and> recvSeq (epStub e) \<le> q \<and>
     (\<forall>s. win_content (recvWindow (epStub e)) s \<noteq> None \<longrightarrow> s \<le> q) \<and>
     (\<not> epLost e \<longrightarrow> (\<exists>mid. epWrote e @ mid @ writeChan (epStub e) = map (pk ys) [1..recvSeq (epStub e)] \<and>
        (epWriting e \<longrightarrow> mid = [])))"

text \<open>What may be in flight to an end: data of the stream \<open>ys\<close>, acknowledgements up to \<open>r\<close>, any request.\<close>

fun in_flight_ok :: "int \<Rightarrow> string list \<Rightarrow> int \<Rightarrow> int \<Rightarrow> int \<Rightarrow> frp_message \<Rightarrow> bool" where
  "in_flight_ok r ys q got p (FData t s d) \<longleftrightarrow> 1 \<le> s \<and> s \<le> q \<and> (d = pk ys s \<or> s \<le> got)"
| "in_flight_ok r ys q got p (FAck t a) \<longleftrightarrow> 0 \<le> a \<and> a \<le> r"
| "in_flight_ok r ys q got p (FResend t s) \<longleftrightarrow> s < p"
| "in_flight_ok r ys q got p _ \<longleftrightarrow> True"

lemma put_seq_simps [simp]:
  "epSend e = Idle \<Longrightarrow> put_seq e = sendSeq (epStub e)" "epSend e = Stopped \<Longrightarrow> put_seq e = sendSeq (epStub e)"
  "epSend e = Holding s d \<Longrightarrow> put_seq e = sendSeq (epStub e) - 1"
  by (simp_all add: put_seq_def)

lemma snd_ok_cong:
  assumes "same_send (epStub e) (epStub e')" and "epSend e' = epSend e \<or> epSend e = Idle \<and> epSend e' = Stopped"
    and "epRead e' = epRead e" and "readChan e' = readChan e"
  shows "snd_ok r e' = snd_ok r e" and "put_seq e' = put_seq e"
proof -
  show p: "put_seq e' = put_seq e"
    using assms by (auto simp: put_seq_def same_send_def split: send_loop.split)
  show "snd_ok r e' = snd_ok r e"
    using assms unfolding snd_ok_def p same_send_def by (auto split: send_loop.splits)
qed

lemma snd_ok_mono: "snd_ok r e \<Longrightarrow> r \<le> r' \<Longrightarrow> r' \<le> put_seq e \<Longrightarrow> snd_ok r' e"
  by (auto simp: snd_ok_def)

lemma rcv_ok_cong:
  assumes "same_recv (epStub e) (epStub e')" and "epWrote e' = epWrote e" and "epLost e' = epLost e"
    and "epWriting e' \<longrightarrow> epWriting e" and "rcv_ok ys q e"
  shows "rcv_ok ys q e'"
  using assms by (auto simp: rcv_ok_def same_recv_def recv_ok_def)

lemma rcv_ok_append:
  assumes ok: "rcv_ok ys q e" and q: "q \<le> int (length ys)" "q \<le> q'"
  shows "rcv_ok (ys @ zs) q' e"
proof -
  have le: "pk (ys @ zs) s = pk ys s" if "s \<le> q" for s using that q by (simp add: pk_append)
  have m: "map (pk (ys @ zs)) [1..recvSeq (epStub e)] = map (pk ys) [1..recvSeq (epStub e)]"
    using ok le by (intro map_cong) (auto simp: rcv_ok_def)
  have "wb.holds_stream (pk (ys @ zs)) (recvWindow (epStub e))"
    using ok le by (auto simp: rcv_ok_def recv_ok_def wb.holds_stream_def)
  then show ?thesis using ok q unfolding rcv_ok_def m by (auto simp: recv_ok_def)
qed

section \<open>Every step of one end\<close>

text \<open>What an end may send, and what a step of an end guarantees.\<close>

fun out_ok :: "int \<Rightarrow> int \<Rightarrow> endpoint \<Rightarrow> frp_out \<Rightarrow> bool" where
  "out_ok r q e (OutData s d) \<longleftrightarrow> 1 \<le> s \<and> s \<le> put_seq e \<and> (d = pk (epRead e) s \<or> s \<le> r)"
| "out_ok r q e (OutAck a) \<longleftrightarrow> 0 \<le> a \<and> a \<le> recvSeq (epStub e)"
| "out_ok r q e (OutResendRequest s) \<longleftrightarrow> s < q"
| "out_ok r q e _ \<longleftrightarrow> True"

definition end_ok :: "int \<Rightarrow> string list \<Rightarrow> int \<Rightarrow> endpoint \<Rightarrow> bool" where
  "end_ok r ys q e \<longleftrightarrow> snd_ok r e \<and> rcv_ok ys q e"

definition good_step :: "int \<Rightarrow> string list \<Rightarrow> int \<Rightarrow> endpoint \<Rightarrow> endpoint \<Rightarrow> frp_out list \<Rightarrow> bool" where
  "good_step r ys q e e' os \<longleftrightarrow> end_ok r ys q e' \<and> put_seq e \<le> put_seq e' \<and> recvSeq (epStub e) \<le> recvSeq (epStub e') \<and>
     (\<exists>zs. epRead e' = epRead e @ zs) \<and> myId (epStub e') = myId (epStub e) \<and> epPeer e' = epPeer e \<and>
     (\<forall>x \<in> set os. out_ok r q e' x)"

text \<open>A step that touches neither half of the stream.\<close>

lemma quiet_step:
  assumes "end_ok r ys q e" and "same_send (epStub e) (epStub e')" and "same_recv (epStub e) (epStub e')"
    and "epSend e' = epSend e \<or> epSend e = Idle \<and> epSend e' = Stopped" and "epRead e' = epRead e"
    and "readChan e' = readChan e" and "epWrote e' = epWrote e" and "epLost e' = epLost e"
    and "epWriting e' \<longrightarrow> epWriting e" and "epPeer e' = epPeer e" and "set os \<subseteq> {OutClose}"
  shows "good_step r ys q e e' os"
proof -
  have "snd_ok r e'" "put_seq e' = put_seq e"
    using assms(1) snd_ok_cong [OF assms(2,4,5,6)] by (simp_all add: end_ok_def)
  moreover have "rcv_ok ys q e'" using rcv_ok_cong [OF assms(3,7,8,9)] assms(1) by (simp add: end_ok_def)
  ultimately show ?thesis using assms(3,5,10,11) by (auto simp: good_step_def end_ok_def same_recv_def)
qed

lemma quiet_put_stub:
  assumes "end_ok r ys q e" and "same_send (epStub e) stub" and "same_recv (epStub e) stub" and "set os \<subseteq> {OutClose}"
    and "old = e \<or> old = e\<lparr>epReading := b\<rparr> \<or> epSend e = Idle \<and> old = e\<lparr>epSend := Stopped\<rparr>"
    and "put_stub (stub, os) old = (e', os')"
  shows "good_step r ys q e e' os'"
proof -
  have "written os = []" "no_drop os" using assms(4) by (auto intro!: written_none simp: no_drop_def)
  then show ?thesis using assms by (intro quiet_step) (auto simp: put_stub_def)
qed

lemma quiet_events:
  assumes "end_ok r ys q e" and "ep_enabled ev e" and "ep_step ev e = Some (e', os)"
    and "case ev of ReadError _ \<Rightarrow> True | ReaderStop \<Rightarrow> True | SenderStop _ \<Rightarrow> True | WriterStop \<Rightarrow> True | CloseTick _ \<Rightarrow> True
      | Configure _ _ _ \<Rightarrow> True | _ \<Rightarrow> False"
  shows "good_step r ys q e e' os"
proof (cases ev)
  case (ReadError now)
  obtain stub o1 where d: "doClose now (epStub e) = (stub, o1)" by fastforce
  show ?thesis using assms(3) ReadError d doClose_frame [OF d]
    by (intro quiet_put_stub [where old = "e\<lparr>epReading := False\<rparr>", OF assms(1)]) auto
next
  case (SenderStop now)
  obtain stub o1 where d: "doClose now (epStub e) = (stub, o1)" by fastforce
  show ?thesis using assms(2,3) SenderStop d doClose_frame [OF d]
    by (intro quiet_put_stub [where old = "e\<lparr>epSend := Stopped\<rparr>", OF assms(1)]) auto
qed (use assms in \<open>auto intro!: quiet_step [OF assms(1)] simp: same_send_def same_recv_def lazyClose_tick_def
    SetFastConnect_def SetDelayedResend_def SetDelayedResendRequest_def\<close>)

lemma chunk_event:
  assumes "end_ok r ys q e"
  shows "\<exists>e'. ep_step (Chunk d) e = Some (e', []) \<and> good_step r ys q e e' []"
proof -
  let ?e = "e\<lparr>readChan := readChan e @ [d], epRead := epRead e @ [d]\<rparr>"
  have s: "snd_ok r e" and rc: "rcv_ok ys q e" using assms by (simp_all add: end_ok_def)
  have p: "put_seq ?e = put_seq e" by (simp add: put_seq_def split: send_loop.split)
  have le: "put_seq e \<le> sendSeq (epStub e)" by (simp add: put_seq_def split: send_loop.split)
  then have "snd_ok r ?e"
    using s unfolding snd_ok_def p by (auto simp: cells_append pk_append split: send_loop.splits)
  moreover have "rcv_ok ys q ?e" using rc by (simp add: rcv_ok_def)
  ultimately show ?thesis by (simp add: good_step_def end_ok_def p)
qed

lemma take_event:
  assumes "end_ok r ys q e" and "epSend e = Idle" and "readChan e \<noteq> []" and "int (length (epRead e)) < 2 ^ 62"
  shows "\<exists>e'. sendDataLoop_take now e = (e', []) \<and> good_step r ys q e e' []"
proof -
  have s: "snd_ok r e" and rc: "rcv_ok ys q e" using assms(1) by (simp_all add: end_ok_def)
  let ?n = "sendSeq (epStub e)"
  have n: "0 \<le> ?n" "readChan e = drop (nat ?n) (epRead e)" using s assms(2) by (auto simp: snd_ok_def)
  from assms(3) obtain d ds where c: "readChan e = d # ds" by (cases "readChan e") auto
  have len: "nat ?n < length (epRead e)" using n(2) c by (metis drop_all list.distinct(1) not_le)
  then have "d # ds = epRead e ! nat ?n # drop (Suc (nat ?n)) (epRead e)"
    using n(2) c Cons_nth_drop_Suc [OF len] by simp
  then have dd: "d = epRead e ! nat ?n" "ds = drop (nat (?n + 1)) (epRead e)"
    using n(1) by (simp_all add: nat_add_distrib)
  have i64: "i64 (?n + 1) = ?n + 1" using n(1) len assms(4) by (simp add: in_i64_def)
  define stub where "stub = (epStub e)\<lparr>lastActivityTime := now, sendSeq := ?n + 1\<rparr>"
  let ?e = "e\<lparr>epStub := stub, readChan := ds, epSend := Holding (?n + 1) d\<rparr>"
  have "sendDataLoop_take now e = (?e, [])"
    using c i64 by (simp add: sendDataLoop_take_def send_begin_def Let_def stub_def)
  moreover have p: "put_seq ?e = put_seq e" using assms(2) by (simp add: stub_def put_seq_def)
  moreover have "d = pk (epRead e) (?n + 1)" using dd(1) n(1) len by (simp add: pk_def)
  then have "snd_ok r ?e"
    using s len dd(2) assms(2) n(1) unfolding snd_ok_def p by (simp add: stub_def)
  moreover have "rcv_ok ys q ?e"
    by (rule rcv_ok_cong [OF _ _ _ _ rc]) (simp_all add: stub_def same_recv_def)
  ultimately show ?thesis by (simp add: good_step_def end_ok_def stub_def)
qed

text \<open>The sender that holds a packet never finds its number below the window.\<close>

lemma try_event:
  assumes "end_ok r ys q e" and "epSend e = Holding s d" and "int (length (epRead e)) < 2 ^ 62"
  shows "\<exists>e' os. sendDataLoop_try now e = Some (e', os) \<and> good_step r ys q e e' os \<and> epSend e' \<noteq> Stopped"
proof -
  have sn: "snd_ok r e" and rc: "rcv_ok ys q e" using assms(1) by (simp_all add: end_ok_def)
  let ?p = "put_seq e" and ?w = "sendWindow (epStub e)"
  have c: "cells_ok (epRead e) ?p ?w" and s: "s = ?p + 1" "sendSeq (epStub e) = ?p + 1" "d = pk (epRead e) (?p + 1)"
    and st: "startSeq ?w \<le> ?p + 1" "startSeq ?w \<le> r + 1"
    using sn assms(2) by (auto simp: snd_ok_def cells_ok_def)
  have b: "?p + 1 < 2 ^ 62" using sn s(2) assms(3) by (auto simp: snd_ok_def)
  have size: "wsize ?w = int MaxSendWindowSize" using c by (simp add: cells_ok_def)
  have can: "wb_CanPut s ?w \<longleftrightarrow> ?p + 1 < startSeq ?w + int MaxSendWindowSize"
    using st by (simp add: wb_CanPut_def in_window_inv [OF cells_inv [OF c]] s(1) size)
  show ?thesis
  proof (cases "?p + 1 < startSeq ?w + int MaxSendWindowSize")
    case True
    from cells_put [OF c True b, of now] obtain w' where w: "wb_Put now s d ?w = Some (w', True)"
      "cells_ok (epRead e) (?p + 1) w'" "startSeq w' = startSeq ?w" unfolding s(1,3) by blast
    define stub where "stub = (epStub e)\<lparr>sendWindow := w', lastActivityTime := now\<rparr>"
    let ?e = "e\<lparr>epStub := stub, epSend := Idle\<rparr>"
    have "sendDataLoop_try now e = Some (?e, [OutData s d])"
      using assms(2) w(1) can True
      by (simp add: sendDataLoop_try_def send_try_def sendData_def put_stub_def stub_def no_drop_def
          written_def map_filter_simps)
    moreover have p: "put_seq ?e = ?p + 1" by (simp add: stub_def s(2))
    moreover have "snd_ok r ?e"
      using sn w True st assms(2) unfolding snd_ok_def p by (auto simp: stub_def)
    moreover have "rcv_ok ys q ?e"
      by (rule rcv_ok_cong [OF _ _ _ _ rc]) (simp_all add: stub_def same_recv_def)
    moreover have "1 \<le> ?p + 1" using sn by (simp add: snd_ok_def)
    ultimately show ?thesis using s by (simp add: good_step_def end_ok_def stub_def)
  next
    case False
    then have "\<not> wb_CanPut s ?w" "\<not> s < startSeq ?w" using can st(1) by (simp_all only: s(1)) simp
    then have "sendDataLoop_try now e = Some (put_stub (epStub e, []) (e\<lparr>epSend := Holding s d\<rparr>))"
      using assms(2) by (simp add: sendDataLoop_try_def send_try_def)
    also have "put_stub (epStub e, []) (e\<lparr>epSend := Holding s d\<rparr>) = (e, [])"
      using assms(2) by (simp add: put_stub_def no_drop_def)
    finally show ?thesis using assms(1,2)
      by (auto intro!: quiet_step simp: same_send_def same_recv_def)
  qed
qed

lemma write_event:
  assumes "end_ok r ys q e" and "epWriting e" and "writeChan (epStub e) \<noteq> []"
  shows "\<exists>e' os. ep_step (Write now good) e = Some (e', os) \<and> good_step r ys q e e' os"
proof -
  obtain stub os where w: "write_round now good (epStub e) = (stub, os)" by fastforce
  from assms(3) obtain d ds where c: "writeChan (epStub e) = d # ds" by (cases "writeChan (epStub e)") auto
  have st: "writeChan stub = ds" "recvWindow stub = recvWindow (epStub e)" "recvSeq stub = recvSeq (epStub e)"
    "myId stub = myId (epStub e)" "same_send (epStub e) stub" "written os = (if good then [d] else [])" "no_drop os"
    "set os \<subseteq> {OutClose, OutWrite d}"
    using w c by (auto simp: write_round_def doClose_def lazyClose_def same_send_def no_drop_def written_def
        map_filter_simps split: if_splits)
  let ?e = "e\<lparr>epStub := stub, epWriting := good, epWrote := epWrote e @ (if good then [d] else [])\<rparr>"
  have step: "ep_step (Write now good) e = Some (?e, os)" using w st(6,7) by (simp add: put_stub_def)
  have sn: "snd_ok r e" and rc: "rcv_ok ys q e" using assms(1) by (simp_all add: end_ok_def)
  have p: "snd_ok r ?e = snd_ok r e" "put_seq ?e = put_seq e" using snd_ok_cong [of e ?e] st(5) by simp_all
  have "\<exists>mid. epWrote ?e @ mid @ ds = map (pk ys) [1..recvSeq (epStub e)] \<and> (good \<longrightarrow> mid = [])" if "\<not> epLost e"
    using rc that assms(2) c by (intro exI [of _ "if good then [] else [d]"]) (auto simp: rcv_ok_def)
  then have "rcv_ok ys q ?e" using rc st c by (auto simp: rcv_ok_def recv_ok_def)
  then have "good_step r ys q e ?e os" using sn p st(3,4,8) by (auto simp: good_step_def end_ok_def)
  with step show ?thesis by blast
qed

text \<open>Data of the stream, new or old.\<close>

lemma data_event:
  assumes "end_ok r ys q e" and "q < 2 ^ 62" and "1 \<le> s" and "s \<le> q"
    and "d = pk ys s \<or> s \<le> recvSeq (epStub e)"
  shows "\<exists>stub os. onData now (Some (myId (epStub e))) s d (epStub e) = Some (stub, os) \<and>
    good_step r ys q e (fst (put_stub (stub, os) e)) os \<and>
    (\<forall>x. win_content (recvWindow stub) x \<noteq> None \<or> recvSeq (epStub e) < x \<and> x \<le> recvSeq stub \<longrightarrow>
       win_content (recvWindow (epStub e)) x \<noteq> None \<or> x = s) \<and> (\<forall>x d. OutData x d \<notin> set os) \<and>
    (s = recvSeq (epStub e) + 1 \<longrightarrow> recvSeq (epStub e) < recvSeq stub)"
proof (cases "s \<le> recvSeq (epStub e)")
  case True
  let ?stub = "(epStub e)\<lparr>lastActivityTime := now\<rparr>"
  have "win_inv (recvWindow (epStub e))" "s < startSeq (recvWindow (epStub e))"
    using assms(1) True by (auto simp: end_ok_def rcv_ok_def recv_ok_def wb.holds_stream_def)
  then have "onData now (Some (myId (epStub e))) s d (epStub e) = Some (?stub, [])"
    by (simp add: onData_def Let_def wb_Put_out)
  moreover have "good_step r ys q e (fst (put_stub (?stub, []) e)) []"
    using assms(1) by (intro quiet_step) (auto simp: put_stub_def same_send_def same_recv_def no_drop_def)
  ultimately show ?thesis using True by auto
next
  case False
  let ?st = "epStub e"
  have sn: "snd_ok r e" and rc: "rcv_ok ys q e" using assms(1) by (simp_all add: end_ok_def)
  have ok: "recv_ok (pk ys) ?st" and s: "s < 2 ^ 62" and d: "d = pk ys s"
    using rc assms False by (auto simp: rcv_ok_def)
  from onData_ok [OF ok s refl, of now] obtain stub os where
    o: "onData now (Some (myId ?st)) s (pk ys s) ?st = Some (stub, os)" and ok': "recv_ok (pk ys) stub"
    and mono: "recvSeq ?st \<le> recvSeq stub" and mid: "myId stub = myId ?st"
    and wc: "writeChan stub = writeChan ?st @ take (ChannelQueueSizeLarge - length (writeChan ?st))
      (map (pk ys) [recvSeq ?st + 1..recvSeq stub])"
    and ack: "\<forall>a. OutAck a \<in> set os \<longrightarrow> a = recvSeq stub" and nw: "\<forall>d. OutWrite d \<notin> set os"
    and drop: "(\<exists>d. OutDrop d \<in> set os) \<longleftrightarrow>
      ChannelQueueSizeLarge < length (writeChan ?st) + nat (recvSeq stub - recvSeq ?st)"
    and only: "\<forall>x. win_content (recvWindow stub) x \<noteq> None \<or> recvSeq ?st < x \<and> x \<le> recvSeq stub \<longrightarrow>
      win_content (recvWindow ?st) x \<noteq> None \<or> x = s"
    and nd: "\<forall>x d. OutData x d \<notin> set os" and req: "\<forall>x. OutResendRequest x \<in> set os \<longrightarrow> x < s"
    and prog: "s = recvSeq ?st + 1 \<longrightarrow> recvSeq ?st < recvSeq stub \<and>
      (ackMode ?st \<noteq> ''delayed'' \<longrightarrow> OutAck (recvSeq stub) \<in> set os)"
    by (elim exE conjE) (rule that; assumption)
  let ?e = "fst (put_stub (stub, os) e)"
  have wr: "written os = []" using nw by (rule written_none)
  have pos: "0 \<le> recvSeq ?st" "0 \<le> recvSeq stub" using ok ok' by (simp_all add: recv_ok_def)
  have le: "x \<le> q" if "win_content (recvWindow stub) x \<noteq> None \<or> recvSeq ?st < x \<and> x \<le> recvSeq stub" for x
    using only that rc assms(4) by (auto simp: rcv_ok_def)
  have "recvSeq stub \<le> q"
    using le [of "recvSeq stub"] mono rc by (cases "recvSeq ?st < recvSeq stub") (auto simp: rcv_ok_def)
  moreover have "\<exists>mid. epWrote e @ mid @ writeChan stub = map (pk ys) [1..recvSeq stub] \<and> (epWriting e \<longrightarrow> mid = [])"
    if "\<not> epLost ?e"
  proof -
    have "\<not> epLost e" "no_drop os" using that by (simp_all add: put_stub_def)
    with rc obtain mid where m: "epWrote e @ mid @ writeChan ?st = map (pk ys) [1..recvSeq ?st]" "epWriting e \<longrightarrow> mid = []"
      by (auto simp: rcv_ok_def)
    have "writeChan stub = writeChan ?st @ map (pk ys) [recvSeq ?st + 1..recvSeq stub]"
      using drop \<open>no_drop os\<close> unfolding wc by (simp add: no_drop_def)
    then show ?thesis using m map_upto_split [of 0 "recvSeq ?st" "recvSeq stub" "pk ys"] pos(1) mono
      by (intro exI [of _ mid]) (metis add_0 append_assoc)
  qed
  moreover have "rcv_ok ys q ?e = (recv_ok (pk ys) stub \<and> recvSeq stub \<le> q \<and>
      (\<forall>s. win_content (recvWindow stub) s \<noteq> None \<longrightarrow> s \<le> q) \<and> (\<not> epLost ?e \<longrightarrow>
        (\<exists>mid. epWrote e @ mid @ writeChan stub = map (pk ys) [1..recvSeq stub] \<and> (epWriting e \<longrightarrow> mid = []))))"
    by (simp add: rcv_ok_def put_stub_def wr)
  ultimately have "rcv_ok ys q ?e" using ok' le by blast
  moreover have "snd_ok r ?e" "put_seq ?e = put_seq e"
    using snd_ok_cong [of e ?e] onData_send [OF o] sn by (simp_all add: put_stub_def)
  moreover have "out_ok r q ?e x" if x: "x \<in> set os" for x
  proof (cases x)
    case (OutAck a)
    then show ?thesis using x ack pos(2) by (simp add: put_stub_def)
  next
    case (OutResendRequest y)
    then have "y < s" using x req by simp
    then show ?thesis using OutResendRequest assms(4) by simp
  qed (use x nd in simp_all)
  ultimately have "good_step r ys q e ?e os"
    using mono mid by (simp add: good_step_def end_ok_def put_stub_def)
  then show ?thesis using o only nd d prog by blast
qed

lemma ack_event:
  assumes "end_ok r ys q e" and "0 \<le> a" and "a \<le> r"
  shows "\<exists>stub. onAck now (Some (myId (epStub e))) a (epStub e) = Some stub \<and>
    good_step r ys q e (fst (put_stub (stub, []) e)) []"
proof -
  have sn: "snd_ok r e" and rc: "rcv_ok ys q e" using assms(1) by (simp_all add: end_ok_def)
  have "cells_ok (epRead e) (put_seq e) (sendWindow (epStub e))" "a \<le> put_seq e" using sn assms(3) by (auto simp: snd_ok_def)
  from cells_remove [OF this(1) assms(2) this(2)] obtain w where w: "wb_RemoveUpTo a (sendWindow (epStub e)) = Some w"
    "cells_ok (epRead e) (put_seq e) w" "startSeq w = a + 1" by blast
  define stub where "stub = (epStub e)\<lparr>lastActivityTime := now, sendWindow := w, lastAckedSeq := a\<rparr>"
  let ?e = "e\<lparr>epStub := stub\<rparr>"
  have o: "onAck now (Some (myId (epStub e))) a (epStub e) = Some stub"
    using w(1) by (simp add: onAck_def Let_def stub_def)
  have f: "fst (put_stub (stub, []) e) = ?e" by (simp add: put_stub_def no_drop_def)
  have p: "put_seq ?e = put_seq e" by (cases "epSend e") (simp_all add: stub_def)
  have "snd_ok r ?e" using sn w(2,3) assms(3) unfolding snd_ok_def p by (auto simp: stub_def split: send_loop.splits)
  moreover have "rcv_ok ys q ?e"
    by (rule rcv_ok_cong [OF _ _ _ _ rc]) (simp_all add: stub_def same_recv_def)
  ultimately have "good_step r ys q e ?e []" using p by (simp add: good_step_def end_ok_def stub_def)
  then have "good_step r ys q e (fst (put_stub (stub, []) e)) []" unfolding f .
  with o show ?thesis by blast
qed

lemma request_event:
  assumes "end_ok r ys q e"
  shows "\<exists>stub os. onResendRequest now (Some (myId (epStub e))) s (epStub e) = Some (stub, os) \<and>
    good_step r ys q e (fst (put_stub (stub, os) e)) os \<and> (\<forall>x d. OutData x d \<in> set os \<longrightarrow> x = s) \<and>
    same_recv (epStub e) stub"
proof -
  let ?st = "epStub e"
  have sn: "snd_ok r e" and rc: "rcv_ok ys q e" using assms(1) by (simp_all add: end_ok_def)
  have c: "cells_ok (epRead e) (put_seq e) (sendWindow ?st)" "put_seq e \<le> r + int MaxSendWindowSize"
    using sn by (auto simp: snd_ok_def)
  define stub where "stub = ?st\<lparr>lastActivityTime := now\<rparr>"
  have "\<exists>os. onResendRequest now (Some (myId ?st)) s ?st = Some (stub, os) \<and>
      (os = [] \<or> (\<exists>d. win_content (sendWindow ?st) s = Some d \<and> os = [OutData s d]))"
    by (auto simp: onResendRequest_def Let_def wb_GetWithMeta_content [OF cells_inv [OF c(1)]] sendData_def stub_def
        split: option.split)
  then obtain os where o: "onResendRequest now (Some (myId ?st)) s ?st = Some (stub, os)"
    "os = [] \<or> (\<exists>d. win_content (sendWindow ?st) s = Some d \<and> os = [OutData s d])" by blast
  let ?e = "e\<lparr>epStub := stub\<rparr>"
  have f: "fst (put_stub (stub, os) e) = ?e"
    using o(2) by (auto simp: put_stub_def no_drop_def written_def map_filter_simps)
  have p: "snd_ok r ?e" "put_seq ?e = put_seq e"
    using snd_ok_cong [of e ?e] sn by (simp_all add: stub_def same_send_def)
  have "rcv_ok ys q ?e"
    by (rule rcv_ok_cong [OF _ _ _ _ rc]) (simp_all add: stub_def same_recv_def)
  moreover have "out_ok r q ?e x" if "x \<in> set os" for x
    using o(2) that cells_get [OF c(1), of s] c(2) p(2) by auto
  ultimately have "good_step r ys q e ?e os" using p by (simp add: good_step_def end_ok_def stub_def)
  then have "good_step r ys q e (fst (put_stub (stub, os) e)) os" unfolding f .
  then show ?thesis using o by (auto simp: stub_def same_recv_def)
qed

text \<open>
  Where packets come from: a number appears in the receive window, or is passed over, only when a packet of
  that number arrives; a packet is sent only from the hand of the sender or on request.
\<close>

definition traced :: "ep_event \<Rightarrow> endpoint \<Rightarrow> endpoint \<Rightarrow> frp_out list \<Rightarrow> bool" where
  "traced ev e e' os \<longleftrightarrow>
     (\<forall>x. win_content (recvWindow (epStub e')) x \<noteq> None \<or> recvSeq (epStub e) < x \<and> x \<le> recvSeq (epStub e') \<longrightarrow>
        win_content (recvWindow (epStub e)) x \<noteq> None \<or>
        (\<exists>now d. ev = Incoming now (FData (Some (myId (epStub e))) x d))) \<and>
     (\<forall>x d. OutData x d \<in> set os \<longrightarrow> (\<exists>s d. epSend e = Holding s d) \<or>
        (\<exists>now. ev = Incoming now (FResend (Some (myId (epStub e))) x)))"

lemma traced_same:
  "same_recv (epStub e) (epStub e') \<Longrightarrow> \<forall>x d. OutData x d \<notin> set os \<Longrightarrow> traced ev e e' os"
  by (auto simp: traced_def same_recv_def)

lemma foreign_event:
  assumes "end_ok r ys q e" and "frp_foreign (myId (epStub e)) m"
  shows "\<exists>e' os. ep_step (Incoming now m) e = Some (e', os) \<and> good_step r ys q e e' os \<and> traced (Incoming now m) e e' os"
proof -
  have "\<exists>stub. frp_dispatch now m (epStub e) = Some (stub, []) \<and> same_send (epStub e) stub \<and> same_recv (epStub e) stub"
    using assms(2) by (cases m) (auto simp: onData_def onAck_def onResendRequest_def onClose_def lazyClose_def Let_def
      same_send_def same_recv_def)
  then obtain stub where d: "frp_dispatch now m (epStub e) = Some (stub, [])" "same_send (epStub e) stub"
    "same_recv (epStub e) stub" by blast
  have "put_stub (stub, []) e = (e\<lparr>epStub := stub\<rparr>, [])" by (simp add: put_stub_def no_drop_def)
  then show ?thesis
    using d quiet_put_stub [OF assms(1) d(2,3), of "[]" e] by (auto intro!: traced_same)
qed

lemma incoming_event:
  assumes ok: "end_ok r ys q e" and q: "q < 2 ^ 62"
    and m: "in_flight_ok r ys q (recvSeq (epStub e)) (put_seq e) m \<or> frp_foreign (myId (epStub e)) m"
  shows "\<exists>e' os. ep_step (Incoming now m) e = Some (e', os) \<and> good_step r ys q e e' os \<and> traced (Incoming now m) e e' os"
proof (cases "frp_foreign (myId (epStub e)) m")
  case True
  with ok show ?thesis by (rule foreign_event)
next
  case False
  let ?st = "epStub e" and ?me = "Some (myId (epStub e))"
  have dispatch: "?thesis" if "frp_dispatch now m ?st = Some (stub, os)" "good_step r ys q e (fst (put_stub (stub, os) e)) os"
    "traced (Incoming now m) e (fst (put_stub (stub, os) e)) os" for stub os
    using that by (auto simp: put_stub_def)
  from False m consider s d where "m = FData ?me s d" "1 \<le> s" "s \<le> q" "d = pk ys s \<or> s \<le> recvSeq ?st"
    | a where "m = FAck ?me a" "0 \<le> a" "a \<le> r" | s where "m = FResend ?me s"
    by (cases m) auto
  then show ?thesis
  proof cases
    case 1
    from data_event [OF ok q 1(2-4), of now] obtain stub os where
      d: "onData now ?me s d ?st = Some (stub, os)" "good_step r ys q e (fst (put_stub (stub, os) e)) os"
        "\<forall>x. win_content (recvWindow stub) x \<noteq> None \<or> recvSeq ?st < x \<and> x \<le> recvSeq stub \<longrightarrow>
         win_content (recvWindow ?st) x \<noteq> None \<or> x = s"
      and nd: "\<forall>x d. OutData x d \<notin> set os" by blast
    have "traced (Incoming now m) e (fst (put_stub (stub, os) e)) os"
      using d(3) nd by (auto simp: traced_def put_stub_def 1(1))
    with d show ?thesis by (intro dispatch [of stub os]) (simp_all add: 1(1))
  next
    case 2
    from ack_event [OF ok 2(2,3), of now] obtain stub where
      a: "onAck now ?me a ?st = Some stub" "good_step r ys q e (fst (put_stub (stub, []) e)) []" by blast
    have "traced (Incoming now m) e (fst (put_stub (stub, []) e)) []"
      using onAck_recv [OF a(1)] by (intro traced_same) (simp_all add: put_stub_def)
    with a show ?thesis by (intro dispatch [of stub "[]"]) (simp_all add: 2(1))
  next
    case 3
    from request_event [OF ok, of now s] obtain stub os where
      o: "onResendRequest now ?me s ?st = Some (stub, os)" "good_step r ys q e (fst (put_stub (stub, os) e)) os"
        "\<forall>x d. OutData x d \<in> set os \<longrightarrow> x = s" "same_recv ?st stub" by blast
    have "traced (Incoming now m) e (fst (put_stub (stub, os) e)) os"
      using o(3,4) by (auto simp: traced_def put_stub_def same_recv_def 3)
    with o(1,2) show ?thesis by (intro dispatch [of stub os]) (simp_all add: 3)
  qed
qed

text \<open>The step of an end, whatever the event: it does not panic, and it keeps the invariant.\<close>

lemma ep_step_ok:
  assumes ok: "end_ok r ys q e" and q: "q < 2 ^ 62" and len: "int (length (epRead e)) < 2 ^ 62" and en: "ep_enabled ev e"
    and m: "\<And>now m. ev = Incoming now m \<Longrightarrow>
      in_flight_ok r ys q (recvSeq (epStub e)) (put_seq e) m \<or> frp_foreign (myId (epStub e)) m"
  shows "\<exists>e' os. ep_step ev e = Some (e', os) \<and> good_step r ys q e e' os \<and> traced ev e e' os"
proof (cases ev)
  case (Chunk d)
  then show ?thesis using chunk_event [OF ok, of d] by (auto intro!: traced_same simp: same_recv_def)
next
  case (Take now)
  from take_event [OF ok _ _ len, of now] en obtain e' where
    t: "sendDataLoop_take now e = (e', [])" "good_step r ys q e e' []" by (auto simp: Take)
  then have "same_recv (epStub e) (epStub e')"
    by (auto simp: sendDataLoop_take_def send_begin_def Let_def same_recv_def split: list.splits)
  then show ?thesis using t by (auto intro!: traced_same simp: Take)
next
  case (Try now)
  with en obtain s d where h: "epSend e = Holding s d" by (auto split: send_loop.splits)
  from try_event [OF ok h len, of now] obtain e' os where
    t: "sendDataLoop_try now e = Some (e', os)" "good_step r ys q e e' os" by blast
  then have "same_recv (epStub e) (epStub e')"
    using h by (auto simp: sendDataLoop_try_def send_try_def sendData_def doClose_def lazyClose_def put_stub_def Let_def
      same_recv_def split: bind_splits if_splits)
  then show ?thesis using t h by (auto simp: Try traced_def same_recv_def)
next
  case (Incoming now x)
  from incoming_event [OF ok q m [OF this]] show ?thesis by (simp only: Incoming)
next
  case (Write now good)
  from write_event [OF ok, of now good] en obtain e' os where
    w: "ep_step ev e = Some (e', os)" "good_step r ys q e e' os" by (auto simp: Write)
  then have "recvWindow (epStub e') = recvWindow (epStub e)" "recvSeq (epStub e') = recvSeq (epStub e)"
    "\<forall>x d. OutData x d \<notin> set os"
    by (auto simp: Write put_stub_def write_round_def doClose_def lazyClose_def split: list.splits if_splits)
  then show ?thesis using w by (auto simp: traced_def)
qed (use quiet_events [OF ok en] en in \<open>fastforce intro!: traced_same simp: put_stub_def doClose_def lazyClose_def
    lazyClose_tick_def same_recv_def SetFastConnect_def SetDelayedResend_def SetDelayedResendRequest_def\<close>)+

section \<open>The invariant of a connection\<close>

definition link_ok :: "frp_link \<Rightarrow> bool" where
  "link_ok L \<longleftrightarrow> (\<forall>x. let e = ends L x; f = ends L (\<not> x) in
     end_ok (recvSeq (epStub f)) (epRead f) (put_seq f) e \<and> epPeer e = myId (epStub f) \<and>
     (\<forall>m. (x, m) \<in> set (flight L) \<longrightarrow>
        in_flight_ok (recvSeq (epStub f)) (epRead f) (put_seq f) (recvSeq (epStub e)) (put_seq e) m))"

text \<open>Sequence numbers are 64 bits wide; the model is that of streams of less than \<open>2 ^ 62\<close> chunks.\<close>

definition small_link :: "frp_link \<Rightarrow> bool" where
  "small_link L \<longleftrightarrow> (\<forall>x. int (length (epRead (ends L x))) < 2 ^ 62)"

lemma put_seq_len: "snd_ok r e \<Longrightarrow> put_seq e \<le> int (length (epRead e))"
  by (auto simp: snd_ok_def put_seq_def split: send_loop.splits)

lemma in_flight_mono:
  "in_flight_ok r ys q g p m \<Longrightarrow> r \<le> r' \<Longrightarrow> q \<le> q' \<Longrightarrow> q \<le> int (length ys) \<Longrightarrow> g \<le> g' \<Longrightarrow> p \<le> p' \<Longrightarrow>
    in_flight_ok r' (ys @ zs) q' g' p' m"
  by (cases m) (auto simp: pk_append)

lemma wire_ok:
  assumes "out_ok r q e y" and "m \<in> set (frp_wire peer y)"
  shows "in_flight_ok (recvSeq (epStub e)) (epRead e) (put_seq e) r q m"
  using assms by (cases y) auto

lemma link_okD:
  assumes "link_ok L"
  shows "end_ok (recvSeq (epStub (ends L (\<not> x)))) (epRead (ends L (\<not> x))) (put_seq (ends L (\<not> x))) (ends L x)"
    and "epPeer (ends L x) = myId (epStub (ends L (\<not> x)))"
    and "(x, m) \<in> set (flight L) \<Longrightarrow> in_flight_ok (recvSeq (epStub (ends L (\<not> x)))) (epRead (ends L (\<not> x)))
      (put_seq (ends L (\<not> x))) (recvSeq (epStub (ends L x))) (put_seq (ends L x)) m"
    and "put_seq (ends L x) \<le> int (length (epRead (ends L x)))"
proof -
  show 1: "end_ok (recvSeq (epStub (ends L (\<not> x)))) (epRead (ends L (\<not> x))) (put_seq (ends L (\<not> x))) (ends L x)"
    using assms by (simp add: link_ok_def Let_def)
  show "put_seq (ends L x) \<le> int (length (epRead (ends L x)))" using 1 put_seq_len by (auto simp: end_ok_def)
qed (use assms in \<open>simp_all add: link_ok_def Let_def\<close>)

lemma link_act_ok:
  assumes ok: "link_ok L" and sm: "small_link L" and en: "ep_enabled ev (ends L x)" and arr: "may_arrive ev x L"
  shows "\<exists>e os. ep_step ev (ends L x) = Some (e, os) \<and> traced ev (ends L x) e os \<and>
    good_step (recvSeq (epStub (ends L (\<not> x)))) (epRead (ends L (\<not> x))) (put_seq (ends L (\<not> x))) (ends L x) e os"
proof -
  note D = link_okD [OF ok]
  have "put_seq (ends L (\<not> x)) < 2 ^ 62" "int (length (epRead (ends L x))) < 2 ^ 62"
    using D(4) [of "\<not> x"] sm by (auto simp: small_link_def intro: le_less_trans)
  from ep_step_ok [OF D(1) this en] arr D(3) show ?thesis by fastforce
qed

lemma link_ok_act:
  assumes ok: "link_ok L" and g: "good_step (recvSeq (epStub (ends L (\<not> x)))) (epRead (ends L (\<not> x)))
    (put_seq (ends L (\<not> x))) (ends L x) e os"
  shows "link_ok \<lparr>ends = (ends L)(x := e), flight = flight L @ map (Pair (\<not> x)) (concat (map (frp_wire (epPeer e)) os))\<rparr>"
    (is "link_ok ?L")
proof -
  let ?e = "ends L x" and ?o = "ends L (\<not> x)"
  note D = link_okD [OF ok]
  from g obtain zs where z: "epRead e = epRead ?e @ zs" by (auto simp: good_step_def)
  have e: "end_ok (recvSeq (epStub ?o)) (epRead ?o) (put_seq ?o) e" and mono: "put_seq ?e \<le> put_seq e"
    "recvSeq (epStub ?e) \<le> recvSeq (epStub e)" "myId (epStub e) = myId (epStub ?e)" "epPeer e = epPeer ?e"
    and out: "\<forall>y \<in> set os. out_ok (recvSeq (epStub ?o)) (put_seq ?o) e y" using g by (auto simp: good_step_def)
  have len: "put_seq ?e \<le> int (length (epRead ?e))" by (rule D(4))
  have "recvSeq (epStub e) \<le> put_seq ?o" using e by (simp add: end_ok_def rcv_ok_def)
  then have other: "end_ok (recvSeq (epStub e)) (epRead e) (put_seq e) ?o"
    using D(1) [of "\<not> x"] mono(2) rcv_ok_append [of "epRead ?e" "put_seq ?e" ?o "put_seq e" zs] mono(1) len
      snd_ok_mono [of "recvSeq (epStub ?e)" ?o "recvSeq (epStub e)"]
    by (simp add: end_ok_def z)
  have at: "ends ?L x = e" "ends ?L (\<not> x) = ?o" by simp_all
  have m1: "in_flight_ok (recvSeq (epStub ?o)) (epRead ?o) (put_seq ?o) (recvSeq (epStub e)) (put_seq e) m"
    if "(x, m) \<in> set (flight ?L)" for m
    using that in_flight_mono [OF D(3) [of x m], of _ _ _ _ "[]"] D(4) [of "\<not> x"] mono by auto
  have m2: "in_flight_ok (recvSeq (epStub e)) (epRead e) (put_seq e) (recvSeq (epStub ?o)) (put_seq ?o) m"
    if "(\<not> x, m) \<in> set (flight ?L)" for m
  proof -
    from that consider "(\<not> x, m) \<in> set (flight L)" | y where "y \<in> set os" "m \<in> set (frp_wire (epPeer e) y)" by auto
    then show ?thesis
    proof cases
      case 1
      from in_flight_mono [OF D(3) [OF 1]] mono len show ?thesis unfolding z by simp
    next
      case 2
      with out show ?thesis by (intro wire_ok) auto
    qed
  qed
  show ?thesis
    unfolding link_ok_def Let_def
  proof
    fix y
    consider "y = x" | "y = (\<not> x)" by auto
    then show "end_ok (recvSeq (epStub (ends ?L (\<not> y)))) (epRead (ends ?L (\<not> y))) (put_seq (ends ?L (\<not> y))) (ends ?L y) \<and>
        epPeer (ends ?L y) = myId (epStub (ends ?L (\<not> y))) \<and>
        (\<forall>m. (y, m) \<in> set (flight ?L) \<longrightarrow> in_flight_ok (recvSeq (epStub (ends ?L (\<not> y)))) (epRead (ends ?L (\<not> y)))
          (put_seq (ends ?L (\<not> y))) (recvSeq (epStub (ends ?L y))) (put_seq (ends ?L y)) m)"
    proof cases
      case 1
      then show ?thesis using e m1 D(2) [of x] mono(4) by (simp only: at) simp
    next
      case 2
      then show ?thesis using other m2 D(2) [of "\<not> x"] mono(3) by (simp only: at not_not) simp
    qed
  qed
qed

lemma link_ok_step:
  assumes "link_step l L L'" and "link_ok L" and "small_link L"
  shows "link_ok L'"
  using assms
proof (cases rule: link_step.cases)
  case (act ev x e os)
  from link_act_ok [OF assms(2,3) act(3,4)] act(5) have
    "good_step (recvSeq (epStub (ends L (\<not> x)))) (epRead (ends L (\<not> x))) (put_seq (ends L (\<not> x))) (ends L x) e os" by auto
  from link_ok_act [OF assms(2) this] show ?thesis by (simp only: act(2))
next
  case (lose m)
  then show ?thesis using assms(2) by (auto simp: link_ok_def Let_def dest: notin_set_remove1)
qed

text \<open>What was read only grows, so that a run of a small connection is small all along.\<close>

lemma ep_step_reads: "ep_step ev e = Some (e', os) \<Longrightarrow> length (epRead e) \<le> length (epRead e')"
  by (cases ev) (auto simp: put_stub_def sendDataLoop_take_def sendDataLoop_try_def Let_def
      split: list.splits prod.splits send_loop.splits bind_splits)

lemma small_before: "link_step l L L' \<Longrightarrow> small_link L' \<Longrightarrow> small_link L"
proof (induction rule: link_step.induct)
  case (act ev L x e os)
  then show ?case using ep_step_reads [OF act(3)] by (fastforce simp: small_link_def split: if_splits)
qed (simp add: small_link_def)

lemma new_window_content: "win_content (NewWindowBuffer 1 MaxSendWindowSize) s = None"
  using NewWindowBuffer_ok [of MaxSendWindowSize 1] by (simp add: MaxSendWindowSize_def)

lemma new_link_ok: "link_ok (new_link now a b)"
proof -
  have "end_ok 0 [] 0 (StartRecvLoop (StartSendLoop (new_endpoint now c d)))" for c d
    using NewStreamStub_recv_ok [of "pk []" now c] cells_new [of "[]"]
    by (simp add: end_ok_def snd_ok_def rcv_ok_def StartRecvLoop_def StartSendLoop_def new_endpoint_def
        NewStreamStub_def new_window_content) (simp add: NewWindowBuffer_def)
  then show ?thesis
    by (auto simp: link_ok_def Let_def new_link_def StartRecvLoop_def StartSendLoop_def new_endpoint_def NewStreamStub_def)
qed

lemma link_reach_ok: "link_reach now a b L \<Longrightarrow> small_link L \<Longrightarrow> link_ok L"
  by (induction rule: link_reach.induct) (auto intro: new_link_ok link_ok_step small_before)

section \<open>A connection that stalls\<close>

text \<open>
  All that was read at end \<open>x\<close> has been sent, the last packet has not been received, and no copy of it is left.
\<close>

definition stalled :: "bool \<Rightarrow> frp_link \<Rightarrow> bool" where
  "stalled x L \<longleftrightarrow> (let e = ends L x; f = ends L (\<not> x); p = sendSeq (epStub e) in
     (\<forall>s d. epSend e \<noteq> Holding s d) \<and> readChan e = [] \<and> recvSeq (epStub f) < p \<and>
     win_content (recvWindow (epStub f)) p = None \<and> (\<forall>t d. (\<not> x, FData t p d) \<notin> set (flight L)))"

text \<open>Runs in which end \<open>x\<close> reads nothing more from its connection.\<close>

inductive quiet_run :: "bool \<Rightarrow> frp_link \<Rightarrow> frp_link \<Rightarrow> bool" for x L where
  none: "quiet_run x L L"
| more: "quiet_run x L L1 \<Longrightarrow> link_step l L1 L2 \<Longrightarrow> \<forall>d. l \<noteq> Act x (Chunk d) \<Longrightarrow> quiet_run x L L2"

lemma frp_dispatch_sendSeq: "frp_dispatch now m stub = Some (stub', os) \<Longrightarrow> sendSeq stub' = sendSeq stub"
  by (cases m) (auto dest: onData_send simp: same_send_def onAck_def onResendRequest_def sendData_def onClose_def
      lazyClose_def Let_def split: bind_splits if_splits option.splits)

lemma idle_sender:
  assumes "ep_step ev e = Some (e', os)" and "ep_enabled ev e" and "\<forall>d. ev \<noteq> Chunk d"
    and "\<forall>s d. epSend e \<noteq> Holding s d" and "readChan e = []"
  shows "sendSeq (epStub e') = sendSeq (epStub e) \<and> readChan e' = [] \<and> (\<forall>s d. epSend e' \<noteq> Holding s d)"
  using assms
  by (cases ev) (auto simp: put_stub_def doClose_def lazyClose_def write_round_def lazyClose_tick_def
      SetFastConnect_def SetDelayedResend_def SetDelayedResendRequest_def frp_dispatch_sendSeq
      split: send_loop.splits list.splits if_splits)

text \<open>A message that arrives for a stream is in flight.\<close>

lemma own_message_in_flight:
  "may_arrive (Incoming now m) x L \<Longrightarrow> \<not> frp_foreign (myId (epStub (ends L x))) m \<Longrightarrow> (x, m) \<in> set (flight L)"
  by simp

lemma data_out_in_wire: "y \<in> set os \<Longrightarrow> FData t s d \<in> set (frp_wire peer y) \<Longrightarrow> OutData s d \<in> set os"
  by (cases y) simp_all

lemma stalled_step:
  assumes st: "stalled x L" and ok: "link_ok L" and sm: "small_link L" and step: "link_step l L L'"
    and l: "\<forall>d. l \<noteq> Act x (Chunk d)"
  shows "stalled x L' \<and> sendSeq (epStub (ends L' x)) = sendSeq (epStub (ends L x))"
  using step
proof (cases rule: link_step.cases)
  case (lose m)
  then show ?thesis using st by (auto simp: stalled_def Let_def dest: notin_set_remove1)
next
  case (act ev z e os)
  let ?e = "ends L x" and ?f = "ends L (\<not> x)"
  let ?p = "sendSeq (epStub ?e)"
  have s: "\<forall>s d. epSend ?e \<noteq> Holding s d" "readChan ?e = []" "recvSeq (epStub ?f) < ?p"
    "win_content (recvWindow (epStub ?f)) ?p = None" "\<forall>t d. (\<not> x, FData t ?p d) \<notin> set (flight L)"
    using st by (simp_all add: stalled_def Let_def)
  have p: "put_seq ?e = ?p" using s(1) by (cases "epSend ?e") auto
  from link_act_ok [OF ok sm act(3,4)] act(5) have tr: "traced ev (ends L z) e os" by auto
  show ?thesis
  proof (cases "z = x")
    case True
    have i: "sendSeq (epStub e) = ?p" "readChan e = []" "\<forall>s d. epSend e \<noteq> Holding s d"
      using idle_sender [OF act(5) act(3)] l act(1) s(1,2) True by auto
    have "OutData ?p d \<notin> set os" for d
    proof
      assume "OutData ?p d \<in> set os"
      then obtain now where ev: "ev = Incoming now (FResend (Some (myId (epStub ?e))) ?p)"
        using tr s(1) True by (auto simp: traced_def)
      have "(x, FResend (Some (myId (epStub ?e))) ?p) \<in> set (flight L)"
        using own_message_in_flight [of now _ x L] act(4) ev True by auto
      from link_okD(3) [OF ok this] show False by (simp add: p)
    qed
    then have "(\<not> x, FData t ?p d) \<notin> set (flight L')" for t d
      using s(5) by (auto simp: act(2) True dest: data_out_in_wire)
    then show ?thesis using i s by (simp add: stalled_def Let_def act(2) True)
  next
    case False
    then have z: "z = (\<not> x)" by auto
    have no: "ev \<noteq> Incoming now (FData (Some (myId (epStub ?f))) ?p d)" for now d
      using own_message_in_flight [of now _ "\<not> x" L] act(4) s(5) z by auto
    have "win_content (recvWindow (epStub e)) ?p = None" "\<not> (recvSeq (epStub ?f) < ?p \<and> ?p \<le> recvSeq (epStub e))"
      using tr no s(4) unfolding traced_def z by blast+
    then show ?thesis using s by (auto simp: stalled_def Let_def act(2) z)
  qed
qed

lemma small_before_run: "quiet_run x L L' \<Longrightarrow> small_link L' \<Longrightarrow> small_link L"
  by (induction rule: quiet_run.induct) (auto intro: small_before)

lemma stalled_run:
  assumes "quiet_run x L L'" and "stalled x L" and "link_ok L" and "small_link L'"
  shows "stalled x L' \<and> link_ok L' \<and> sendSeq (epStub (ends L' x)) = sendSeq (epStub (ends L x))"
  using assms
proof (induction rule: quiet_run.induct)
  case (more L1 l L2)
  have "small_link L1" using small_before [OF more.hyps(2) more.prems(3)] .
  with more.IH more.prems have "stalled x L1" "link_ok L1" "sendSeq (epStub (ends L1 x)) = sendSeq (epStub (ends L x))"
    by simp_all
  with stalled_step [OF _ _ \<open>small_link L1\<close> more.hyps(2,3)] link_ok_step [OF more.hyps(2) _ \<open>small_link L1\<close>] show ?case by simp
qed simp

text \<open>What has been written is no more than what has been received.\<close>

lemma wrote_le:
  assumes "link_ok L" and "\<not> epLost (ends L (\<not> x))"
  shows "prefix (epWrote (ends L (\<not> x))) (epRead (ends L x)) \<and>
    int (length (epWrote (ends L (\<not> x)))) \<le> recvSeq (epStub (ends L (\<not> x))) \<and>
    recvSeq (epStub (ends L (\<not> x))) \<le> int (length (epRead (ends L x))) \<and>
    (epWriting (ends L (\<not> x)) \<longrightarrow> epWrote (ends L (\<not> x)) @ writeChan (epStub (ends L (\<not> x))) =
       take (nat (recvSeq (epStub (ends L (\<not> x))))) (epRead (ends L x)))"
proof -
  let ?xs = "epRead (ends L x)" and ?f = "ends L (\<not> x)"
  let ?r = "recvSeq (epStub ?f)"
  have rc: "rcv_ok ?xs (put_seq (ends L x)) ?f" using link_okD(1) [OF assms(1), of "\<not> x"] by (simp add: end_ok_def)
  then have r: "0 \<le> ?r" "?r \<le> int (length ?xs)"
    using link_okD(4) [OF assms(1), of x] by (auto simp: rcv_ok_def recv_ok_def)
  from rc assms(2) obtain mid where m: "epWrote ?f @ mid @ writeChan (epStub ?f) = take (nat ?r) ?xs"
    "epWriting ?f \<longrightarrow> mid = []" unfolding rcv_ok_def map_pk_take [OF r] by blast
  have "prefix (epWrote ?f) (take (nat ?r) ?xs)" unfolding m(1) [symmetric] by simp
  then have "prefix (epWrote ?f) ?xs" using take_is_prefix by (rule prefix_order.trans)
  moreover have "length (epWrote ?f) \<le> length (take (nat ?r) ?xs)" unfolding m(1) [symmetric] by simp
  ultimately show ?thesis using m r by auto
qed

end
