(* ===== verification/Frp_Delivery.thy ===== *)
theory Frp_Delivery
  imports Frp_Link
begin

text \<open>
  What a connection between two stream endpoints (\<open>Frp_Link\<close>) guarantees: what is written at one end is what
  was read at the other, whatever the network does; a gap is repaired as long as the sender still has the
  packet; and a lost last packet is never repaired.
\<close>

section \<open>Sending a packet\<close>

text \<open>Reading a chunk, taking its number and putting it into the window: three rounds at the sending end.\<close>

lemma send_one:
  assumes L: "link_reach now a b L" and e: "epReading (ends L x)" "epSend (ends L x) = Idle" "readChan (ends L x) = []"
    and ok: "send_ok str (epStub (ends L x))" and n: "sendSeq (epStub (ends L x)) + 1 < 2 ^ 62"
      "sendSeq (epStub (ends L x)) < lastAckedSeq (epStub (ends L x)) + int MaxSendWindowSize"
    and d: "str (sendSeq (epStub (ends L x)) + 1) \<noteq> []" "length (str (sendSeq (epStub (ends L x)) + 1)) \<le> 65535"
  shows "\<exists>stub. link_reach now a b \<lparr>ends = (ends L)(x := (ends L x)\<lparr>epStub := stub,
        epRead := epRead (ends L x) @ [str (sendSeq (epStub (ends L x)) + 1)]\<rparr>),
      flight = flight L @ [(\<not> x, FData (Some (epPeer (ends L x))) (sendSeq (epStub (ends L x)) + 1)
        (str (sendSeq (epStub (ends L x)) + 1)))]\<rparr> \<and>
    send_ok str stub \<and> sendSeq stub = sendSeq (epStub (ends L x)) + 1 \<and> lastAckedSeq stub = lastAckedSeq (epStub (ends L x)) \<and>
    delayedResend stub = delayedResend (epStub (ends L x)) \<and> myId stub = myId (epStub (ends L x))"
proof -
  let ?e = "ends L x"
  let ?s = "sendSeq (epStub ?e) + 1"
  let ?d = "str ?s"
  from send_step_ok [OF ok n(1), of "SendNext 0"] n(2) obtain stub where
    st: "send_step str (SendNext 0) (epStub ?e) = Some (stub, [OutData ?s ?d], Sent)" "send_ok str stub"
      "lastAckedSeq stub = lastAckedSeq (epStub ?e)" "sendSeq stub = ?s" by auto
  obtain stub1 where b: "send_begin 0 (epStub ?e) = (stub1, ?s)" "delayedResend stub1 = delayedResend (epStub ?e)"
      "myId stub1 = myId (epStub ?e)"
    using ok n(1) by (auto simp: send_begin_def Let_def in_i64_def send_ok_def)
  have t: "send_try 0 ?s ?d stub1 = Some (stub, [OutData ?s ?d], Sent)" using st(1) b(1) by simp
  then have f: "delayedResend stub = delayedResend stub1" "myId stub = myId stub1"
    by (auto simp: send_try_def sendData_def Let_def split: bind_splits if_splits prod.splits)
  define L1 where "L1 = \<lparr>ends = (ends L)(x := ?e\<lparr>readChan := [?d], epRead := epRead ?e @ [?d]\<rparr>), flight = flight L\<rparr>"
  define L2 where "L2 = \<lparr>ends = (ends L1)(x := (ends L1 x)\<lparr>epStub := stub1, readChan := [], epSend := Holding ?s ?d\<rparr>),
    flight = flight L\<rparr>"
  define L3 where "L3 = \<lparr>ends = (ends L2)(x := (ends L2 x)\<lparr>epStub := stub, epSend := Idle\<rparr>),
    flight = flight L @ [(\<not> x, FData (Some (epPeer ?e)) ?s ?d)]\<rparr>"
  have "link_step (Act x (Chunk ?d)) L L1"
    using link_step.act [of "Chunk ?d" L x "?e\<lparr>readChan := [?d], epRead := epRead ?e @ [?d]\<rparr>" "[]"] e d
    by (simp add: L1_def ChannelQueueSizeLarge_def)
  moreover have "link_step (Act x (Take 0)) L1 L2"
    using link_step.act [of "Take 0" L1 x "(ends L1 x)\<lparr>epStub := stub1, readChan := [], epSend := Holding ?s ?d\<rparr>" "[]"] e b
    by (simp add: L2_def L1_def sendDataLoop_take_def)
  moreover have "link_step (Act x (Try 0)) L2 L3"
    using link_step.act [of "Try 0" L2 x "(ends L2 x)\<lparr>epStub := stub, epSend := Idle\<rparr>" "[OutData ?s ?d]"] e t
    by (simp add: L3_def L2_def L1_def sendDataLoop_try_def put_stub_def no_drop_def written_def map_filter_simps)
  ultimately have "link_reach now a b L3" using L by (blast intro: link_reach.step)
  moreover have "L3 = \<lparr>ends = (ends L)(x := ?e\<lparr>epStub := stub, epRead := epRead ?e @ [?d]\<rparr>),
      flight = flight L @ [(\<not> x, FData (Some (epPeer ?e)) ?s ?d)]\<rparr>"
  proof -
    have "?e\<lparr>epRead := epRead ?e @ [?d], readChan := [], epStub := stub, epSend := Idle\<rparr> =
        ?e\<lparr>epStub := stub, epRead := epRead ?e @ [?d]\<rparr>"
      by (rule endpoint.equality) (simp_all add: e)
    then show ?thesis by (simp add: L3_def L2_def L1_def)
  qed
  ultimately show ?thesis using st(2-4) f b(2,3) by (intro exI [of _ stub]) simp
qed

lemma new_link_simps [simp]:
  "epReading (ends (new_link now a b) x)" "epSend (ends (new_link now a b) x) = Idle" "readChan (ends (new_link now a b) x) = []"
  "epRead (ends (new_link now a b) x) = []" "flight (new_link now a b) = []" "epWriting (ends (new_link now a b) x)"
  "epStub (ends (new_link now a b) True) = NewStreamStub now a" "epStub (ends (new_link now a b) False) = NewStreamStub now b"
  "epPeer (ends (new_link now a b) True) = b" "epPeer (ends (new_link now a b) False) = a"
  by (simp_all add: new_link_def StartRecvLoop_def StartSendLoop_def new_endpoint_def)

section \<open>Repairing a gap\<close>

text \<open>A packet beyond a gap makes the receiver ask for the first missing one.\<close>

lemma onData_requests:
  assumes ok: "recv_ok str stub" and s: "recvSeq stub + 1 < s" "s \<le> recvSeq stub + int MaxSendWindowSize" "s < 2 ^ 62"
    and r: "\<not> delayedResendRequest stub"
  shows "\<exists>stub' os. onData now (Some (myId stub)) s (str s) stub = Some (stub', os) \<and>
    OutResendRequest (recvSeq stub + 1) \<in> set os \<and> recvSeq stub' = recvSeq stub"
proof -
  let ?w = "recvWindow stub" and ?r = "recvSeq stub"
  have inv: "win_inv ?w" and start: "startSeq ?w = ?r + 1" "wsize ?w = int MaxSendWindowSize"
    and pos: "0 \<le> ?r" and none: "win_content ?w (?r + 1) = None"
    using ok by (auto simp: recv_ok_def wb.holds_stream_def)
  from wb_Put_in [OF inv, of s now "str s"] s start obtain w where p: "wb_Put now s (str s) ?w = Some (w, True)"
    and w: "win_inv w" "startSeq w = ?r + 1" "win_content w = (win_content ?w)(s \<mapsto> str s)" by auto
  have c: "win_content w (?r + 1) = None" using w(3) none s(1) by simp
  define st where "st = stub\<lparr>lastActivityTime := now, recvWindow := w\<rparr>"
  have f: "recvWindow st = w" "recvSeq st = ?r" "delayedResendRequest st = delayedResendRequest stub" by (simp_all add: st_def)
  have i: "i64 (?r + 1) = ?r + 1" using pos s by (simp add: in_i64_def)
  have "deliver_loop (Suc k) (?r + 1) st = Some (st, [])" for k
    using c by (simp add: wb_Get_content [OF w(1)] f)
  from this [of 7023] have dl: "deliver_loop MaxSendWindowSize (?r + 1) st = Some (st, [])"
    by (simp add: MaxSendWindowSize_def)
  obtain st1 where q: "sendResendRequest now (?r + 1) st = (st1, [OutResendRequest (?r + 1)])" "recvWindow st1 = w"
    "recvSeq st1 = ?r" using r by (simp add: sendResendRequest_def f Let_def)
  have "wb_IsFilled (?r + 1) w = Some False"
    using wb_IsFilled_content [OF w(1), of "?r + 1"] w(2) c s by simp
  moreover have "[?r + 1..s - 1] = (?r + 1) # [?r + 1 + 1..s - 1]" using s(1) by (subst upto.simps) simp
  moreover from gap_loop_ok [of st1 "[?r + 1 + 1..s - 1]" now 1] obtain st2 o2 where
    g: "gap_loop now 1 [?r + 1 + 1..s - 1] st1 = Some (st2, o2)" "same_recv st1 st2"
    using w s(3) by (auto simp: q)
  ultimately have "gap_loop now 0 [?r + 1..s - 1] st = Some (st2, OutResendRequest (?r + 1) # o2)"
    using q(1) by (simp add: f MaxResendPerCall_def)
  moreover obtain st3 o3 where a: "acknowledge now st2 = (st3, o3)" by fastforce
  moreover have "recvSeq st3 = ?r" using acknowledge_ok [OF a] g(2) q(3) by (simp add: same_recv_def)
  ultimately show ?thesis
    using p i dl
    by (auto simp: onData_def Let_def st_def [symmetric] f)
qed

lemma incoming_reads: "ep_step (Incoming now m) e = Some (e', os) \<Longrightarrow> epRead e' = epRead e"
  by (auto simp: put_stub_def)

lemma small_incoming:
  "link_step (Act x (Incoming now m)) L L' \<Longrightarrow> small_link L' = small_link L"
proof (erule link_step_ActE)
  fix e os
  assume L': "L' = \<lparr>ends = (ends L)(x := e),
    flight = flight L @ map (Pair (\<not> x)) (concat (map (frp_wire (epPeer e)) os))\<rparr>"
    and "ep_step (Incoming now m) (ends L x) = Some (e, os)"
  then have "epRead e = epRead (ends L x)" by (auto dest: incoming_reads simp del: ep_step.simps)
  then have "epRead (ends L' z) = epRead (ends L z)" for z by (cases "z = x") (simp_all add: L')
  then show ?thesis by (simp add: small_link_def)
qed

lemma put_stub_fst: "epStub (fst (put_stub (stub, os) e)) = stub" "epRead (fst (put_stub r e)) = epRead e"
  "epPeer (fst (put_stub r e)) = epPeer e" "snd (put_stub (stub, os) e) = os"
  by (simp_all add: put_stub_def split: prod.split)

text \<open>The arrival of a message, as a step.\<close>

lemma arrive_step:
  assumes "(x, m) \<in> set (flight L)" and "frp_dispatch now m (epStub (ends L x)) = Some (stub, os)"
  shows "link_step (Act x (Incoming now m)) L \<lparr>ends = (ends L)(x := fst (put_stub (stub, os) (ends L x))),
    flight = flight L @ map (Pair (\<not> x)) (concat (map (frp_wire (epPeer (ends L x))) os))\<rparr>"
  using link_step.act [of "Incoming now m" L x "fst (put_stub (stub, os) (ends L x))" os] assms
  by (simp add: put_stub_def)

text \<open>The sender answers the request for the first missing packet with that packet.\<close>

lemma request_answered:
  assumes ok: "link_ok L" and w: "win_content (sendWindow (epStub (ends L x))) (recvSeq (epStub (ends L (\<not> x))) + 1) \<noteq> None"
    and r: "\<not> delayedResend (epStub (ends L x))"
  shows "\<exists>stub. onResendRequest now (Some (myId (epStub (ends L x)))) (recvSeq (epStub (ends L (\<not> x))) + 1) (epStub (ends L x)) =
    Some (stub, [OutData (recvSeq (epStub (ends L (\<not> x))) + 1) (epRead (ends L x) ! nat (recvSeq (epStub (ends L (\<not> x)))))])"
proof -
  let ?e = "ends L x" and ?r = "recvSeq (epStub (ends L (\<not> x)))"
  have sn: "cells_ok (epRead ?e) (put_seq ?e) (sendWindow (epStub ?e))" "put_seq ?e \<le> ?r + int MaxSendWindowSize"
    using link_okD(1) [OF ok, of x] by (auto simp: end_ok_def snd_ok_def)
  from w cells_get [OF sn(1), of "?r + 1"] sn(2) have
    c: "win_content (sendWindow (epStub ?e)) (?r + 1) = Some (pk (epRead ?e) (?r + 1))" "1 \<le> ?r + 1" "?r + 1 \<le> put_seq ?e"
    by auto
  then have "pk (epRead ?e) (?r + 1) = epRead ?e ! nat ?r" using link_okD(4) [OF ok, of x] by (simp add: pk_def)
  then show ?thesis
    using c(1) r by (simp add: onResendRequest_def Let_def wb_GetWithMeta_content [OF cells_inv [OF sn(1)]] sendData_def)
qed

section \<open>Properties\<close>

text \<open>
  C21: Two streams that are each other's peer, over a network that loses, repeats, delays and reorders packets,
  acknowledgements and requests in any way: no goroutine of either end panics, what is written to the
  connection at one end is always a prefix of what was read at the other, and, while the writer runs, it is
  with the write queue exactly the part received so far. The only exception is a write queue that overflowed.
  This holds although late acknowledgements can damage the send window.
\<close>

theorem connection_delivers_stream:
  assumes "link_reach now a b L" and "small_link L"
  shows "(\<forall>ev. ep_enabled ev (ends L x) \<and> may_arrive ev x L \<longrightarrow> ep_step ev (ends L x) \<noteq> None) \<and>
    recvSeq (epStub (ends L (\<not> x))) \<le> int (length (epRead (ends L x))) \<and>
    (\<not> epLost (ends L (\<not> x)) \<longrightarrow> prefix (epWrote (ends L (\<not> x))) (epRead (ends L x)) \<and>
      (epWriting (ends L (\<not> x)) \<longrightarrow> epWrote (ends L (\<not> x)) @ writeChan (epStub (ends L (\<not> x))) =
         take (nat (recvSeq (epStub (ends L (\<not> x))))) (epRead (ends L x))))"
proof -
  have ok: "link_ok L" using link_reach_ok [OF assms] .
  have "ep_step ev (ends L x) \<noteq> None" if "ep_enabled ev (ends L x)" "may_arrive ev x L" for ev
    using link_act_ok [OF ok assms(2) that] by auto
  moreover have "recvSeq (epStub (ends L (\<not> x))) \<le> int (length (epRead (ends L x)))"
    using link_okD(1) [OF ok, of "\<not> x"] link_okD(4) [OF ok, of x] by (simp add: end_ok_def rcv_ok_def)
  ultimately show ?thesis using wrote_le [OF ok] by blast
qed

text \<open>A connection on which the end \<open>True\<close> has sent two packets.\<close>

lemma two_sent:
  "\<exists>L. link_reach 0 ''a'' ''b'' L \<and> small_link L \<and> epRead (ends L True) = [''he'', ''llo''] \<and>
     flight L = [(False, FData (Some ''b'') 1 ''he''), (False, FData (Some ''b'') 2 ''llo'')] \<and>
     send_ok (\<lambda>s. if s = 1 then ''he'' else ''llo'') (epStub (ends L True)) \<and> lastAckedSeq (epStub (ends L True)) = 0 \<and>
     sendSeq (epStub (ends L True)) = 2 \<and> \<not> delayedResend (epStub (ends L True)) \<and> myId (epStub (ends L True)) = ''a'' \<and>
     epSend (ends L True) = Idle \<and> readChan (ends L True) = [] \<and> ends L False = ends (new_link 0 ''a'' ''b'') False"
proof -
  let ?str = "\<lambda>s :: int. if s = 1 then ''he'' else ''llo''" and ?L0 = "new_link 0 ''a'' ''b''"
  have s0: "sendSeq (NewStreamStub 0 ''a'') = 0" "lastAckedSeq (NewStreamStub 0 ''a'') = 0"
    "\<not> delayedResend (NewStreamStub 0 ''a'')" "myId (NewStreamStub 0 ''a'') = ''a''" by (simp_all add: NewStreamStub_def)
  from send_one [OF link_reach.start [of 0 "''a''" "''b''"], of True ?str] NewStreamStub_send_ok [of ?str 0 "''a''"]
  obtain stub1 where r1: "link_reach 0 ''a'' ''b'' \<lparr>ends = (ends ?L0)(True := (ends ?L0 True)\<lparr>epStub := stub1,
      epRead := [''he'']\<rparr>), flight = [(False, FData (Some ''b'') 1 ''he'')]\<rparr>" (is "link_reach _ _ _ ?L1")
    and s1: "send_ok ?str stub1" "sendSeq stub1 = 1" "lastAckedSeq stub1 = 0" "\<not> delayedResend stub1" "myId stub1 = ''a''"
    by (auto simp: s0 MaxSendWindowSize_def)
  from send_one [OF r1, of True ?str] s1
  obtain stub2 where r2: "link_reach 0 ''a'' ''b'' \<lparr>ends = (ends ?L1)(True := (ends ?L1 True)\<lparr>epStub := stub2,
      epRead := [''he'', ''llo'']\<rparr>), flight = [(False, FData (Some ''b'') 1 ''he''), (False, FData (Some ''b'') 2 ''llo'')]\<rparr>"
      (is "link_reach _ _ _ ?L2")
    and s2: "send_ok ?str stub2" "sendSeq stub2 = 2" "lastAckedSeq stub2 = 0" "\<not> delayedResend stub2" "myId stub2 = ''a''"
    by (auto simp: MaxSendWindowSize_def)
  show ?thesis using s2 by (intro exI [of _ ?L2] conjI r2) (simp_all add: small_link_def)
qed

theorem connection_delivers_stream_witness:
  "\<exists>L. link_reach 0 ''a'' ''b'' L \<and> epRead (ends L True) = [''he'', ''llo''] \<and> recvSeq (epStub (ends L False)) \<le> 2 \<and>
     ep_step (Incoming 0 (FData (Some ''b'') 2 ''llo'')) (ends L False) \<noteq> None"
proof -
  from two_sent obtain L where L: "link_reach 0 ''a'' ''b'' L" "small_link L" "epRead (ends L True) = [''he'', ''llo'']"
    "flight L = [(False, FData (Some ''b'') 1 ''he''), (False, FData (Some ''b'') 2 ''llo'')]" by blast
  have "ep_enabled (Incoming 0 (FData (Some ''b'') 2 ''llo'')) (ends L False) \<and>
      may_arrive (Incoming 0 (FData (Some ''b'') 2 ''llo'')) False L" by (simp add: L(4))
  then have "ep_step (Incoming 0 (FData (Some ''b'') 2 ''llo'')) (ends L False) \<noteq> None"
    using connection_delivers_stream [OF L(1,2), of False] by blast
  moreover have "recvSeq (epStub (ends L False)) \<le> 2" using connection_delivers_stream [OF L(1,2), of True] L(3) by simp
  ultimately show ?thesis using L(1,3) by blast
qed

text \<open>
  C22: A lost packet is repaired by the next one that arrives: the receiver asks for the first missing packet,
  the sender repeats it, and its arrival moves the receiver on. This takes that neither side delays such
  messages, and that the sender still has the packet in its window.
\<close>

theorem gap_is_repaired:
  assumes L: "link_reach now a b L" "small_link L"
    and s: "(\<not> x, FData (Some (myId (epStub (ends L (\<not> x))))) s d) \<in> set (flight L)"
      "recvSeq (epStub (ends L (\<not> x))) + 1 < s" "s \<le> recvSeq (epStub (ends L (\<not> x))) + int MaxSendWindowSize"
    and r: "\<not> delayedResendRequest (epStub (ends L (\<not> x)))" "\<not> delayedResend (epStub (ends L x))"
    and w: "win_content (sendWindow (epStub (ends L x))) (recvSeq (epStub (ends L (\<not> x))) + 1) \<noteq> None"
  shows "\<exists>L1 L2 L3. link_step (Act (\<not> x) (Incoming t1 (FData (Some (myId (epStub (ends L (\<not> x))))) s d))) L L1 \<and>
    link_step (Act x (Incoming t2 (FResend (Some (myId (epStub (ends L x)))) (recvSeq (epStub (ends L (\<not> x))) + 1)))) L1 L2 \<and>
    link_step (Act (\<not> x) (Incoming t3 (FData (Some (myId (epStub (ends L (\<not> x))))) (recvSeq (epStub (ends L (\<not> x))) + 1)
      (epRead (ends L x) ! nat (recvSeq (epStub (ends L (\<not> x)))))))) L2 L3 \<and>
    recvSeq (epStub (ends L (\<not> x))) < recvSeq (epStub (ends L3 (\<not> x)))"
proof -
  let ?e = "ends L x" and ?f = "ends L (\<not> x)"
  let ?r = "recvSeq (epStub ?f)" and ?me = "Some (myId (epStub ?f))" and ?xs = "epRead ?e"
  have ok: "link_ok L" using link_reach_ok [OF L] .
  note D = link_okD [OF ok]
  have rc: "recv_ok (pk ?xs) (epStub ?f)" using D(1) [of "\<not> x"] by (simp add: end_ok_def rcv_ok_def)
  have d: "d = pk ?xs s" "s < 2 ^ 62"
    using D(3) [OF s(1)] s(2) D(4) [of x] L(2) by (auto simp: small_link_def dest: spec [of _ x])
  from onData_requests [OF rc s(2,3) d(2) r(1), of t1] obtain stub1 os1 where
    o1: "onData t1 ?me s d (epStub ?f) = Some (stub1, os1)" "OutResendRequest (?r + 1) \<in> set os1" "recvSeq stub1 = ?r"
    unfolding d(1) by blast
  define L1 where "L1 = \<lparr>ends = (ends L)(\<not> x := fst (put_stub (stub1, os1) ?f)),
    flight = flight L @ map (Pair (\<not> \<not> x)) (concat (map (frp_wire (epPeer ?f)) os1))\<rparr>"
  have st1: "link_step (Act (\<not> x) (Incoming t1 (FData ?me s d))) L L1"
    unfolding L1_def using o1(1) by (intro arrive_step s(1)) simp
  have ok1: "link_ok L1" and e1: "ends L1 x = ?e" "recvSeq (epStub (ends L1 (\<not> x))) = ?r"
    "myId (epStub (ends L1 (\<not> x))) = myId (epStub ?f)"
    using link_ok_step [OF st1 ok L(2)] o1(3) onData_send [OF o1(1)] by (simp_all add: L1_def put_stub_fst same_send_def)
  have "\<exists>m \<in> set (concat (map (frp_wire (epPeer ?f)) os1)). m = FResend (Some (epPeer ?f)) (?r + 1)"
    using o1(2) by force
  then have f1: "(x, FResend (Some (myId (epStub ?e))) (?r + 1)) \<in> set (flight L1)"
    using D(2) [of "\<not> x"] by (auto simp: L1_def)
  from request_answered [OF ok w r(2), of t2] obtain stub2 where
    o2: "onResendRequest t2 (Some (myId (epStub ?e))) (?r + 1) (epStub ?e) = Some (stub2, [OutData (?r + 1) (?xs ! nat ?r)])"
    by blast
  define L2 where "L2 = \<lparr>ends = (ends L1)(x := fst (put_stub (stub2, [OutData (?r + 1) (?xs ! nat ?r)]) ?e)),
    flight = flight L1 @ [(\<not> x, FData ?me (?r + 1) (?xs ! nat ?r))]\<rparr>"
  have st2: "link_step (Act x (Incoming t2 (FResend (Some (myId (epStub ?e))) (?r + 1)))) L1 L2"
    using arrive_step [OF f1, of t2 stub2 "[OutData (?r + 1) (?xs ! nat ?r)]"] o2 D(2) [of x] by (simp add: e1(1) L2_def)
  have ok2: "link_ok L2" using link_ok_step [OF st2 ok1] small_incoming [OF st1] L(2) by simp
  note D2 = link_okD [OF ok2]
  have e2: "ends L2 (\<not> x) = ends L1 (\<not> x)" by (simp add: L2_def)
  have f2: "(\<not> x, FData ?me (?r + 1) (?xs ! nat ?r)) \<in> set (flight L2)" by (simp add: L2_def)
  have "small_link L2" using small_incoming [OF st2] small_incoming [OF st1] L(2) by simp
  then have "put_seq (ends L2 x) < 2 ^ 62" using D2(4) [of x] by (auto simp: small_link_def dest: spec [of _ x])
  moreover have "1 \<le> ?r + 1 \<and> ?r + 1 \<le> put_seq (ends L2 x) \<and> (?xs ! nat ?r = pk (epRead (ends L2 x)) (?r + 1) \<or>
      ?r + 1 \<le> recvSeq (epStub (ends L2 (\<not> x))))" using D2(3) [OF f2] by simp
  ultimately obtain stub3 os3 where o3: "onData t3 ?me (?r + 1) (?xs ! nat ?r) (epStub (ends L2 (\<not> x))) = Some (stub3, os3)"
    "?r < recvSeq stub3"
    using data_event [OF D2(1) [of "\<not> x", unfolded not_not], of "?r + 1" "?xs ! nat ?r" t3] e1(2,3) by (auto simp: e2)
  define L3 where "L3 = \<lparr>ends = (ends L2)(\<not> x := fst (put_stub (stub3, os3) (ends L2 (\<not> x)))),
    flight = flight L2 @ map (Pair (\<not> \<not> x)) (concat (map (frp_wire (epPeer (ends L2 (\<not> x)))) os3))\<rparr>"
  have "link_step (Act (\<not> x) (Incoming t3 (FData ?me (?r + 1) (?xs ! nat ?r)))) L2 L3"
    unfolding L3_def using o3(1) by (intro arrive_step f2) simp
  moreover have "?r < recvSeq (epStub (ends L3 (\<not> x)))" using o3(2) by (simp add: L3_def put_stub_fst)
  ultimately show ?thesis using st1 st2 by blast
qed

theorem gap_is_repaired_witness:
  "\<exists>L L1 L2 L3. link_reach 0 ''a'' ''b'' L \<and> link_step (Act False (Incoming 0 (FData (Some ''b'') 2 ''llo''))) L L1 \<and>
     link_step (Act True (Incoming 0 (FResend (Some ''a'') 1))) L1 L2 \<and>
     link_step (Act False (Incoming 0 (FData (Some ''b'') 1 ''he''))) L2 L3 \<and> 0 < recvSeq (epStub (ends L3 False))"
proof -
  from two_sent obtain L where L: "link_reach 0 ''a'' ''b'' L" "small_link L" "epRead (ends L True) = [''he'', ''llo'']"
    "flight L = [(False, FData (Some ''b'') 1 ''he''), (False, FData (Some ''b'') 2 ''llo'')]"
    "send_ok (\<lambda>s. if s = 1 then ''he'' else ''llo'') (epStub (ends L True))" "lastAckedSeq (epStub (ends L True)) = 0"
    "sendSeq (epStub (ends L True)) = 2" "\<not> delayedResend (epStub (ends L True))" "myId (epStub (ends L True)) = ''a''"
    "ends L False = ends (new_link 0 ''a'' ''b'') False" by blast
  have f: "myId (epStub (ends L False)) = ''b''" "recvSeq (epStub (ends L False)) = 0"
    "\<not> delayedResendRequest (epStub (ends L False))" by (simp_all add: L(10) NewStreamStub_def)
  have "win_content (sendWindow (epStub (ends L True))) 1 \<noteq> None" using L(5-7) by (simp add: send_ok_def)
  with gap_is_repaired [OF L(1,2), of True 2 "''llo''" 0 0 0] L(1,3,4,8,9) f show ?thesis
    by (auto simp: MaxSendWindowSize_def)
qed

text \<open>
  C23: When the last packet that was sent is lost, the receiver never gets it: as long as nothing more is read
  at the sending end, no run of the goroutines that the program starts, at either end and whatever the
  network does, delivers it. The rest of the stream is missing at the receiver for good.
\<close>

theorem lost_last_packet_never_arrives:
  assumes "link_reach now a b L" and "stalled x L" and "quiet_run x L L'" and "small_link L'"
  shows "recvSeq (epStub (ends L' (\<not> x))) < sendSeq (epStub (ends L x)) \<and>
    (\<not> epLost (ends L' (\<not> x)) \<longrightarrow> length (epWrote (ends L' (\<not> x))) < length (epRead (ends L x)))"
proof -
  have ok: "link_ok L" using link_reach_ok [OF assms(1) small_before_run [OF assms(3,4)]] .
  from stalled_run [OF assms(3,2) ok assms(4)] have s: "stalled x L'" "link_ok L'"
    "sendSeq (epStub (ends L' x)) = sendSeq (epStub (ends L x))" by simp_all
  have "recvSeq (epStub (ends L' (\<not> x))) < sendSeq (epStub (ends L x))" using s(1,3) by (simp add: stalled_def Let_def)
  moreover have "sendSeq (epStub (ends L x)) \<le> int (length (epRead (ends L x)))"
    using link_okD(1) [OF ok, of x] by (simp add: end_ok_def snd_ok_def)
  ultimately show ?thesis using wrote_le [OF s(2), of x] by auto
qed

theorem lost_last_packet_never_arrives_witness:
  "\<exists>L L'. link_reach 0 ''a'' ''b'' L \<and> epRead (ends L True) = [''he'', ''llo''] \<and> flight L = [(False, FData (Some ''b'') 1 ''he'')] \<and>
     link_step (Act False (Chunk ''x'')) L L' \<and> recvSeq (epStub (ends L' False)) < 2"
proof -
  from two_sent obtain L where L: "link_reach 0 ''a'' ''b'' L" "small_link L" "epRead (ends L True) = [''he'', ''llo'']"
    "flight L = [(False, FData (Some ''b'') 1 ''he''), (False, FData (Some ''b'') 2 ''llo'')]"
    "sendSeq (epStub (ends L True)) = 2" "epSend (ends L True) = Idle" "readChan (ends L True) = []"
    "ends L False = ends (new_link 0 ''a'' ''b'') False" by blast
  define L1 where "L1 = L\<lparr>flight := remove1 (False, FData (Some ''b'') 2 ''llo'') (flight L)\<rparr>"
  have r: "link_reach 0 ''a'' ''b'' L1" unfolding L1_def by (rule link_reach.step [OF L(1) link_step.lose])
  have st: "stalled True L1"
    using L(4-8) by (simp add: stalled_def Let_def L1_def NewStreamStub_def new_window_content)
  define L2 where "L2 = \<lparr>ends = (ends L1)(False := (ends L1 False)\<lparr>readChan := [''x''], epRead := [''x'']\<rparr>), flight = flight L1\<rparr>"
  have q: "link_step (Act False (Chunk ''x'')) L1 L2"
    using link_step.act [of "Chunk ''x''" L1 False "(ends L1 False)\<lparr>readChan := [''x''], epRead := [''x'']\<rparr>" "[]"]
    by (simp add: L2_def L1_def L(8) ChannelQueueSizeLarge_def)
  have sm: "small_link L2" using L(2) by (simp add: small_link_def L2_def L1_def)
  have "quiet_run True L1 L2" by (rule quiet_run.more [OF quiet_run.none q]) simp
  from lost_last_packet_never_arrives [OF r st this sm] have "recvSeq (epStub (ends L2 False)) < 2"
    by (simp add: L1_def L(5))
  then show ?thesis using r q L(3,4) by (intro exI [of _ L1] exI [of _ L2]) (simp add: L1_def)
qed

end
