(* ===== verification/App_Config.thy ===== *)
theory App_Config
  imports Signal_Client Raft_Manager Net_Node Web_Server
begin

text \<open>
  MajulaNodeFromYaml.go, the program that starts a node from a configuration file: the file, its validation,
  and what is started.

  \<^item> What the file system, the YAML and time packages, TLS, and the network answer is a record of
    parameters (\<open>platform\<close>); an error is its text.
  \<^item> An error text of the program is a constructor of \<open>config_error\<close>, with the index that is printed in it.
  \<^item> The program goes on, or stops: \<open>log.Fatalf\<close>, a panic, or a call that never returns, in the state that
    the client of the signaling server has then.
\<close>

section \<open>Configuration of a node\<close>

record TLSConfigYaml =
  tyCertFile :: string
  tyKeyFile :: string

record TCPConfigYaml =
  tcFrameSize :: int
  tcInactiveSeconds :: int
  tcSendQueueSize :: int
  tcMaxConnectionsPerSec :: int
  tcIPWhitelist :: "string list"
  tcTLS :: "TLSConfigYaml option"

record KCPConfigYaml =
  kcFrameSize :: int
  kcInactiveSeconds :: int
  kcSendQueueSize :: int
  kcMaxConnectionsPerSec :: int
  kcIPWhitelist :: "string list"

record ChannelConfigYaml =
  cyType :: string
  cyProtocol :: string
  cyListenAddr :: string
  cyRemoteAddr :: string
  cyTCP :: TCPConfigYaml
  cyKCP :: KCPConfigYaml

record RaftConfigYaml =
  ryGroup :: string
  ryPeers :: "string list"
  ryDBPath :: string

record NodeSignalingServerConfigYaml =
  nsEnabled :: bool
  nsURL :: string
  nsUDPPort :: int
  nsReconnectInterval :: string
  nsHeartbeatInterval :: string

text \<open>A web server has one setting, its port.\<close>

record NodeConfigYaml =
  cfNodeID :: string
  cfToken :: string
  cfSignalingServer :: NodeSignalingServerConfigYaml
  cfMajulaServers :: "int list"
  cfChannels :: "ChannelConfigYaml list"
  cfRaft :: "RaftConfigYaml list"

datatype config_error =
    NoNodeID | NoToken | NoMajulaServer | NoPort nat | NoChannel | NoListenAddr nat | NoRemoteAddr nat
  | KcpFrameSize nat | KcpInactive nat | KcpQueue nat | KcpWithTls nat
  | TcpFrameSize nat | TcpInactive nat | TcpQueue nat
  | NoGroup nat | NoPeers nat | NoDBPath nat
  | NoHTTPPort | NoUDPPort

section \<open>Validation\<close>

text \<open>A loop that returns at the first element with an error.\<close>

fun first_error :: "(nat \<Rightarrow> 'a \<Rightarrow> 'e option) \<Rightarrow> nat \<Rightarrow> 'a list \<Rightarrow> 'e option" where
  "first_error check i [] = None"
| "first_error check i (x # xs) = (case check i x of Some e \<Rightarrow> Some e | None \<Rightarrow> first_error check (i + 1) xs)"

definition check_port :: "nat \<Rightarrow> int \<Rightarrow> config_error option" where
  "check_port i port = (if port = 0 then Some (NoPort i) else None)"

definition check_channel :: "nat \<Rightarrow> ChannelConfigYaml \<Rightarrow> config_error option" where
  "check_channel i ch =
     (if cyType ch = ''server'' \<and> cyListenAddr ch = [] then Some (NoListenAddr i)
      else if cyType ch = ''client'' \<and> cyRemoteAddr ch = [] then Some (NoRemoteAddr i)
      else if cyProtocol ch = ''kcp'' then
        (if kcFrameSize (cyKCP ch) \<le> 0 then Some (KcpFrameSize i)
         else if kcInactiveSeconds (cyKCP ch) \<le> 0 then Some (KcpInactive i)
         else if kcSendQueueSize (cyKCP ch) \<le> 0 then Some (KcpQueue i)
         else if tcTLS (cyTCP ch) \<noteq> None then Some (KcpWithTls i)
         else None)
      else
        (if tcFrameSize (cyTCP ch) \<le> 0 then Some (TcpFrameSize i)
         else if tcInactiveSeconds (cyTCP ch) \<le> 0 then Some (TcpInactive i)
         else if tcSendQueueSize (cyTCP ch) \<le> 0 then Some (TcpQueue i)
         else None))"

definition check_raft :: "nat \<Rightarrow> RaftConfigYaml \<Rightarrow> config_error option" where
  "check_raft i rc = (if ryGroup rc = [] then Some (NoGroup i) else if ryPeers rc = [] then Some (NoPeers i)
      else if ryDBPath rc = [] then Some (NoDBPath i) else None)"

definition validateConfig :: "NodeConfigYaml \<Rightarrow> config_error option" where
  "validateConfig conf =
     (if cfNodeID conf = [] then Some NoNodeID
      else if cfToken conf = [] then Some NoToken
      else if cfMajulaServers conf = [] then Some NoMajulaServer
      else case first_error check_port 0 (cfMajulaServers conf) of Some e \<Rightarrow> Some e | None \<Rightarrow>
       (if cfChannels conf = [] then Some NoChannel
        else case first_error check_channel 0 (cfChannels conf) of Some e \<Rightarrow> Some e | None \<Rightarrow>
          first_error check_raft 0 (cfRaft conf)))"

section \<open>Starting a node\<close>

record 'tls platform =
  pfReadFile :: "string \<Rightarrow> string + string"
  pfDuration :: "string \<Rightarrow> string + int"
  pfKeyPair :: "string \<Rightarrow> string \<Rightarrow> string + 'tls"
  pfResolve :: "string \<Rightarrow> bool"
  pfListenTcp :: "'tls option \<Rightarrow> string \<Rightarrow> bool"
  pfListenKcp :: "string \<Rightarrow> bool"
  pfResolveIP :: "string \<Rightarrow> string option"
  pfInterfaces :: "(bool \<times> string list option) list option"
  pfParseURL :: "string \<Rightarrow> string + string"
  pfDial :: "string \<Rightarrow> string + nat"
  pfWrite :: "nat \<Rightarrow> SignalingMessage \<Rightarrow> string option"
  pfNow :: int

datatype stop =
    Fatal_read string | Fatal_yaml string | Fatal_config config_error | Fatal_duration string
  | Fatal_raft string string | Fatal_tls string | Fatal_worker string
  | Blocked SignalingClient "cli_out list" | Panicked

fun and_then :: "'e + 'a \<Rightarrow> ('a \<Rightarrow> 'e + 'b) \<Rightarrow> 'e + 'b" where
  "and_then (Inl e) f = Inl e"
| "and_then (Inr a) f = f a"

lemma and_then_Inr: "and_then r f = Inr b \<longleftrightarrow> (\<exists>a. r = Inr a \<and> f a = Inr b)"
  by (cases r) auto

definition buildTLSConfig :: "'tls platform \<Rightarrow> TLSConfigYaml option \<Rightarrow> string + 'tls option" where
  "buildTLSConfig pf tlsConf = (case tlsConf of
       None \<Rightarrow> Inr None
     | Some t \<Rightarrow> if tyCertFile t = [] \<or> tyKeyFile t = [] then Inr None
         else (case pfKeyPair pf (tyCertFile t) (tyKeyFile t) of Inl e \<Rightarrow> Inl e | Inr cert \<Rightarrow> Inr (Some cert)))"

text \<open>The client of the signaling server, if it is enabled; an error of \<open>Connect\<close> is only logged.\<close>

definition start_signaling ::
  "'tls platform \<Rightarrow> NodeConfigYaml \<Rightarrow> stop + (SignalingClient \<times> cli_out list) option" where
  "start_signaling pf conf = (let sc = cfSignalingServer conf in
     if \<not> nsEnabled sc then Inr None
     else (case pfDuration pf (nsReconnectInterval sc) of
       Inl e \<Rightarrow> Inl (Fatal_duration e)
     | Inr reconnect \<Rightarrow> (case pfDuration pf (nsHeartbeatInterval sc) of
         Inl e \<Rightarrow> Inl (Fatal_duration e)
       | Inr heartbeat \<Rightarrow>
          (let cfg = \<lparr>ccSignalingURL = nsURL sc, ccSignalingUDPPort = nsUDPPort sc, ccReconnectInterval = reconnect,
                 ccHeartbeatInterval = heartbeat, ccReadTimeout = 60000000000, ccWriteTimeout = 10000000000,
                 ccMaxMessageSize = 4096\<rparr>;
               client = NewSignalingClient (pfInterfaces pf) (cfNodeID conf) (cfNodeID conf) 0 (Some cfg)
           in (case act_bind (SetNode (cfNodeID conf) client)
                 (\<lambda>_. cli_Connect (pfParseURL pf) (pfDial pf) (pfWrite pf) (pfNow pf)) of
              Returns err c os \<Rightarrow> Inr (Some (c, os))
            | Waits c os \<Rightarrow> Inl (Blocked c os)
            | Panics \<Rightarrow> Inl Panicked)))))"

text \<open>\<open>store_at\<close> is the storage that opening a path gives, \<open>rnd\<close> the random number of a new group.\<close>

fun create_groups ::
  "'d leveldb \<Rightarrow> int \<Rightarrow> (string \<Rightarrow> int) \<Rightarrow> (string \<Rightarrow> 'd Storage) \<Rightarrow> RaftConfigYaml list \<Rightarrow> 'd Node \<Rightarrow>
     stop + 'd Node \<times> net_out list" where
  "create_groups L now rnd store_at [] n = Inr (n, [])"
| "create_groups L now rnd store_at (rc # rcs) n =
     (case CreateRaftGroup L now (rnd (ryGroup rc)) (ryGroup rc) (ryPeers rc) (store_at (ryDBPath rc)) n of
        None \<Rightarrow> Inl Panicked
      | Some (Inl e, _, _) \<Rightarrow> Inl (Fatal_raft (ryGroup rc) e)
      | Some (Inr _, n1, os) \<Rightarrow> and_then (create_groups L now rnd store_at rcs n1) (\<lambda>(n2, os2). Inr (n2, os @ os2)))"

text \<open>The worker of an entry, and the name of its channel; an entry of another type has none.\<close>

definition entry_worker ::
  "'tls platform \<Rightarrow> string \<Rightarrow> ChannelConfigYaml \<Rightarrow> stop + (string \<times> TcpWorker) option" where
  "entry_worker pf token ch =
     (let kcp = cyKCP ch; tcp = cyTCP ch;
          made = (\<lambda>addr w. case w of None \<Rightarrow> Inl (Fatal_worker addr) | Some worker \<Rightarrow> Inr (Some (addr @ ''-channel'', worker)))
      in if cyProtocol ch = ''kcp'' then
        (if cyType ch = ''server'' then made (cyListenAddr ch)
           (NewKcpConnection (pfListenKcp pf (cyListenAddr ch)) (''_server_'' @ cyListenAddr ch) False (kcIPWhitelist kcp)
              (kcFrameSize kcp) (kcInactiveSeconds kcp) (kcSendQueueSize kcp) (kcMaxConnectionsPerSec kcp) token)
         else if cyType ch = ''client'' then made (cyRemoteAddr ch)
           (NewKcpConnection False (''_client_'' @ cyRemoteAddr ch) True (kcIPWhitelist kcp)
              (kcFrameSize kcp) (kcInactiveSeconds kcp) (kcSendQueueSize kcp) (kcMaxConnectionsPerSec kcp) token)
         else Inr None)
      else (case buildTLSConfig pf (tcTLS tcp) of
          Inl e \<Rightarrow> Inl (Fatal_tls e)
        | Inr tls \<Rightarrow>
          (if cyType ch = ''server'' then made (cyListenAddr ch)
             (NewTcpConnection (pfResolve pf (cyListenAddr ch)) (pfListenTcp pf tls (cyListenAddr ch)) (pfResolve pf [])
                (pfResolveIP pf) (''_server_'' @ cyListenAddr ch) False (tcIPWhitelist tcp)
                (tcFrameSize tcp) (tcInactiveSeconds tcp) (tcSendQueueSize tcp) (tcMaxConnectionsPerSec tcp) token)
           else if cyType ch = ''client'' then made (cyRemoteAddr ch)
             (NewTcpConnection (pfResolve pf []) False (pfResolve pf (cyRemoteAddr ch))
                (pfResolveIP pf) (''_client_'' @ cyRemoteAddr ch) True (tcIPWhitelist tcp)
                (tcFrameSize tcp) (tcInactiveSeconds tcp) (tcSendQueueSize tcp) (tcMaxConnectionsPerSec tcp) token)
           else Inr None)))"

text \<open>
  A channel and its worker point at each other. The node gives the channel a new id, so that is the one by
  which the worker knows its user.
\<close>

definition add_worker :: "string \<Rightarrow> TcpWorker \<Rightarrow> 'd Node \<Rightarrow> 'd Node \<times> string \<times> TcpWorker" where
  "add_worker name worker n =
     (let n1 = AddChannel (NewChannelFull name) n; i = nID n @ ''-'' @ itoa (int (length (Channels n)) + 1)
      in (n1, i, worker\<lparr>wkUser := Some i\<rparr>))"

fun open_channels ::
  "'tls platform \<Rightarrow> string \<Rightarrow> ChannelConfigYaml list \<Rightarrow> 'd Node \<Rightarrow> stop + 'd Node \<times> (string \<times> TcpWorker) list" where
  "open_channels pf token [] n = Inr (n, [])"
| "open_channels pf token (ch # chs) n = and_then (entry_worker pf token ch) (\<lambda>made. case made of
       None \<Rightarrow> open_channels pf token chs n
     | Some (name, worker) \<Rightarrow>
         (let (n1, i, w) = add_worker name worker n
          in and_then (open_channels pf token chs n1) (\<lambda>(n2, ws). Inr (n2, (i, w) # ws))))"

text \<open>The goroutines that \<open>Register\<close> starts after its first steps.\<close>

datatype node_loop =
    L_buildUp | L_collectAndCheckPeers | L_retry | L_cleanupReceivedMsgs | L_heartbeat | L_subscriptionFlood
  | L_cleanRpcCache | L_periodicRpcFlood | L_registerDefaultRPCs | L_registerFRPRPCHandler
  | L_registerFileTransferRPCs | L_raftSubscriptionFlood

definition Register_loops :: "node_loop list" where
  "Register_loops = [L_buildUp, L_collectAndCheckPeers, L_retry, L_cleanupReceivedMsgs, L_heartbeat, L_subscriptionFlood,
     L_cleanRpcCache, L_periodicRpcFlood, L_registerDefaultRPCs, L_registerFRPRPCHandler, L_registerFileTransferRPCs,
     L_raftSubscriptionFlood]"

record 'd app =
  apNode :: "'d Node"
  apSignal :: "(SignalingClient \<times> cli_out list) option"
  apServers :: "Server list"
  apWorkers :: "(string \<times> TcpWorker) list"
  apLoops :: "node_loop list"

definition start_node ::
  "'tls platform \<Rightarrow> 'd leveldb \<Rightarrow> (string \<Rightarrow> int) \<Rightarrow> (string \<Rightarrow> 'd Storage) \<Rightarrow> NodeConfigYaml \<Rightarrow> stop + 'd app \<times> net_out list" where
  "start_node pf L rnd store_at conf = (case validateConfig conf of
       Some e \<Rightarrow> Inl (Fatal_config e)
     | None \<Rightarrow> and_then (start_signaling pf conf) (\<lambda>sig.
         and_then (create_groups L (pfNow pf) rnd store_at (cfRaft conf) (NewNode (cfNodeID conf))) (\<lambda>(n1, o1).
         and_then (open_channels pf (cfToken conf) (cfChannels conf) n1) (\<lambda>(n2, ws).
         let (n3, o3) = Register n2
         in Inr (\<lparr>apNode = n3, apSignal = sig, apServers = map (\<lambda>port. NewServer (itoa port)) (cfMajulaServers conf),
              apWorkers = ws, apLoops = Register_loops\<rparr>, o1 @ o3)))))"

definition node_main ::
  "'tls platform \<Rightarrow> 'd leveldb \<Rightarrow> (string \<Rightarrow> int) \<Rightarrow> (string \<Rightarrow> 'd Storage) \<Rightarrow> (string \<Rightarrow> string + NodeConfigYaml) \<Rightarrow>
     string list \<Rightarrow> stop + 'd app \<times> net_out list" where
  "node_main pf L rnd store_at unmarshal args =
     (let configFile = (case args of _ # f # _ \<Rightarrow> f | _ \<Rightarrow> ''MajulaNodeTemplate.yaml'')
      in (case pfReadFile pf configFile of
        Inl e \<Rightarrow> Inl (Fatal_read e)
      | Inr data \<Rightarrow> (case unmarshal data of
          Inl e \<Rightarrow> Inl (Fatal_yaml e)
        | Inr conf \<Rightarrow> start_node pf L rnd store_at conf)))"

end
