(* ===== verification/App_Node.thy ===== *)
theory App_Node
  imports App_Config
begin

text \<open>
  What a node is after it has been started from a configuration: its channels and their transports, its
  Raft groups, and what it cannot do.
\<close>

section \<open>Channels of the entries\<close>

definition is_endpoint :: "ChannelConfigYaml \<Rightarrow> bool" where
  "is_endpoint ch \<longleftrightarrow> cyType ch = ''server'' \<or> cyType ch = ''client''"

lemma entry_worker_endpoint: "entry_worker pf token ch = Inr made \<Longrightarrow> is_endpoint ch \<longleftrightarrow> made \<noteq> None"
  by (auto simp: entry_worker_def is_endpoint_def Let_def split: if_splits option.splits sum.splits)

definition made_for :: "'tls platform \<Rightarrow> string \<Rightarrow> ChannelConfigYaml \<Rightarrow> string \<times> TcpWorker \<Rightarrow> bool" where
  "made_for pf token ch w \<longleftrightarrow>
     (\<exists>name w0. entry_worker pf token ch = Inr (Some (name, w0)) \<and> snd w = w0\<lparr>wkUser := Some (fst w)\<rparr>)"

text \<open>The ids that a node gives to its channels.\<close>

definition channel_ids :: "string \<Rightarrow> nat \<Rightarrow> nat \<Rightarrow> string list" where
  "channel_ids i a b = map (\<lambda>k. i @ ''-'' @ itoa (int k + 1)) [a..<b]"

lemma channel_ids_fresh: "i @ ''-'' @ itoa (int b + 1) \<notin> set (channel_ids i a b)"
  by (auto simp: channel_ids_def)

lemma update_fresh: "k \<notin> set (map fst al) \<Longrightarrow> AList.update k v al = al @ [(k, v)]"
  by (induction al) auto

lemma add_worker_channels:
  assumes "map fst (Channels n) = channel_ids (nID n) 0 (length (Channels n))"
    and "add_worker name w n = (n1, i, w1)"
  shows "i = nID n @ ''-'' @ itoa (int (length (Channels n)) + 1)" "w1 = w\<lparr>wkUser := Some i\<rparr>"
    "Channels n1 = Channels n @ [(i, \<lparr>chID = i, ChannelPeers = []\<rparr>)]" "nID n1 = nID n" "nRaft n1 = nRaft n"
    "nRoutes n1 = nRoutes n" "NodePeers n1 = NodePeers n"
    "map fst (Channels n1) = channel_ids (nID n1) 0 (length (Channels n1))"
proof -
  show i: "i = nID n @ ''-'' @ itoa (int (length (Channels n)) + 1)" and "w1 = w\<lparr>wkUser := Some i\<rparr>"
    and f: "nID n1 = nID n" "nRaft n1 = nRaft n" "nRoutes n1 = nRoutes n" "NodePeers n1 = NodePeers n"
    using assms(2) by (auto simp: add_worker_def AddChannel_def Let_def)
  have "i \<notin> set (map fst (Channels n))" unfolding assms(1) i by (rule channel_ids_fresh)
  then show c: "Channels n1 = Channels n @ [(i, \<lparr>chID = i, ChannelPeers = []\<rparr>)]"
    using assms(2) by (auto simp: add_worker_def AddChannel_def Let_def update_fresh NewChannelFull_def)
  show "map fst (Channels n1) = channel_ids (nID n1) 0 (length (Channels n1))"
    unfolding c f map_append assms(1) by (simp add: i channel_ids_def)
qed

lemma open_channels_ok:
  assumes "open_channels pf token chs n = Inr (n1, ws)"
    and "map fst (Channels n) = channel_ids (nID n) 0 (length (Channels n))"
  shows "nID n1 = nID n \<and> nRaft n1 = nRaft n \<and> NodePeers n1 = NodePeers n \<and>
    Channels n1 = Channels n @ map (\<lambda>(i, _). (i, \<lparr>chID = i, ChannelPeers = []\<rparr>)) ws \<and>
    map fst (Channels n1) = channel_ids (nID n) 0 (length (Channels n1)) \<and>
    list_all2 (made_for pf token) (filter is_endpoint chs) ws"
  using assms
proof (induction chs arbitrary: n n1 ws)
  case (Cons ch chs)
  then obtain made where m: "entry_worker pf token ch = Inr made" by (auto simp: and_then_Inr)
  show ?case
  proof (cases made)
    case None
    with m Cons.prems have o: "open_channels pf token chs n = Inr (n1, ws)" by simp
    have f: "filter is_endpoint (ch # chs) = filter is_endpoint chs" using entry_worker_endpoint [OF m] None by simp
    show ?thesis unfolding f by (rule Cons.IH [OF o Cons.prems(2)])
  next
    case (Some nw)
    then obtain name w where made: "made = Some (name, w)" by (cases nw) auto
    obtain n2 i w1 where a: "add_worker name w n = (n2, i, w1)" by (metis prod_cases3)
    from m made a Cons.prems obtain ws1 where ws: "open_channels pf token chs n2 = Inr (n1, ws1)" "ws = (i, w1) # ws1"
      by (auto simp: and_then_Inr)
    note ch = add_worker_channels [OF Cons.prems(2) a]
    have "made_for pf token ch (i, w1)" using m made ch(2) by (simp add: made_for_def)
    moreover have "is_endpoint ch" using entry_worker_endpoint [OF m] made by simp
    ultimately have made_all: "list_all2 (made_for pf token) (filter is_endpoint (ch # chs)) ws"
      using Cons.IH [OF ws(1) ch(8)] ws(2) by simp
    have "map fst (Channels n1) = channel_ids (nID n) 0 (length (Channels n1))"
      using Cons.IH [OF ws(1) ch(8)] unfolding ch(4) by blast
    moreover have "Channels n1 = Channels n @ map (\<lambda>(i, _). (i, \<lparr>chID = i, ChannelPeers = []\<rparr>)) ws"
      using Cons.IH [OF ws(1) ch(8)] ch(3) ws(2) by simp
    moreover have "nID n1 = nID n \<and> nRaft n1 = nRaft n \<and> NodePeers n1 = NodePeers n"
      using Cons.IH [OF ws(1) ch(8)] ch(4,5,7) by simp
    ultimately show ?thesis using made_all by blast
  qed
qed simp

section \<open>Raft groups\<close>

lemma create_groups_ok:
  assumes "create_groups L now rnd store_at rcs n = Inr (n1, os)"
  shows "nID n1 = nID n \<and> Channels n1 = Channels n \<and> NodePeers n1 = NodePeers n \<and>
    RaftGroup (nRaft n1) = RaftGroup (nRaft n) @ map ryGroup rcs \<and>
    dom (RaftStubs (nRaft n1)) = dom (RaftStubs (nRaft n)) \<union> set (map ryGroup rcs) \<and>
    distinct (map ryGroup rcs) \<and> dom (RaftStubs (nRaft n)) \<inter> set (map ryGroup rcs) = {} \<and>
    (\<forall>rc \<in> set rcs. map_of (RaftPeers (nRaft n1)) (ryGroup rc) = Some (ryPeers rc)) \<and>
    (\<forall>g. g \<notin> set (map ryGroup rcs) \<longrightarrow> map_of (RaftPeers (nRaft n1)) g = map_of (RaftPeers (nRaft n)) g)"
  using assms
proof (induction rcs arbitrary: n os)
  case (Cons rc rcs)
  from Cons.prems obtain client n2 os1 os2
    where c: "CreateRaftGroup L now (rnd (ryGroup rc)) (ryGroup rc) (ryPeers rc) (store_at (ryDBPath rc)) n = Some (Inr client, n2, os1)"
      and r: "create_groups L now rnd store_at rcs n2 = Inr (n1, os2)"
    by (auto simp: and_then_Inr split: option.splits sum.splits)
  from c have n2: "nID n2 = nID n" "Channels n2 = Channels n" "NodePeers n2 = NodePeers n"
      "RaftGroup (nRaft n2) = RaftGroup (nRaft n) @ [ryGroup rc]"
      "RaftStubs (nRaft n2) = (RaftStubs (nRaft n))(ryGroup rc \<mapsto> client)" "RaftStubs (nRaft n) (ryGroup rc) = None"
      "RaftPeers (nRaft n2) = AList.update (ryGroup rc) (ryPeers rc) (RaftPeers (nRaft n))"
    by (auto simp: CreateRaftGroup_def split: option.splits bind_splits)
  note IH = Cons.IH [OF r]
  moreover have "dom (RaftStubs (nRaft n2)) = insert (ryGroup rc) (dom (RaftStubs (nRaft n)))" using n2(5) by simp
  moreover have "ryGroup rc \<notin> dom (RaftStubs (nRaft n))" using n2(6) by blast
  ultimately have "ryGroup rc \<notin> set (map ryGroup rcs)"
    "dom (RaftStubs (nRaft n)) \<inter> set (map ryGroup (rc # rcs)) = {}" by auto
  with IH n2 show ?case by auto
qed simp

section \<open>A started node\<close>

lemma start_node_parts:
  assumes "start_node pf L rnd store_at conf = Inr (app, os)"
  obtains sig n1 o1 n2 ws n3 o3 where "validateConfig conf = None" "start_signaling pf conf = Inr sig"
    "create_groups L (pfNow pf) rnd store_at (cfRaft conf) (NewNode (cfNodeID conf)) = Inr (n1, o1)"
    "open_channels pf (cfToken conf) (cfChannels conf) n1 = Inr (n2, ws)" "Register n2 = (n3, o3)" "os = o1 @ o3"
    "app = \<lparr>apNode = n3, apSignal = sig, apServers = map (\<lambda>port. NewServer (itoa port)) (cfMajulaServers conf),
       apWorkers = ws, apLoops = Register_loops\<rparr>"
proof -
  from assms have v: "validateConfig conf = None" by (auto simp: start_node_def split: option.splits)
  with assms obtain sig n1 o1 n2 ws where s: "start_signaling pf conf = Inr sig"
    "create_groups L (pfNow pf) rnd store_at (cfRaft conf) (NewNode (cfNodeID conf)) = Inr (n1, o1)"
    "open_channels pf (cfToken conf) (cfChannels conf) n1 = Inr (n2, ws)"
    by (auto simp: start_node_def and_then_Inr)
  obtain n3 o3 where "Register n2 = (n3, o3)" by fastforce
  with that [OF v s this] assms v s show ?thesis by (simp add: start_node_def)
qed

lemma Register_ok:
  assumes "Register n = (n1, os)"
  shows "nID n1 = nID n \<and> Channels n1 = Channels n \<and> nRaft n1 = nRaft n \<and>
    (\<forall>c \<in> set (map fst (Channels n)). \<exists>m. Broadcast c m \<in> set os \<and> mType m = Hello \<and> mFrom m = nID n)"
proof -
  obtain m n2 where m: "stamp (zero_message\<lparr>mType := Hello, mData := Text (nID n), mFrom := nID n, mTTL := 1,
      LastSender := nID n\<rparr>) n = (m, n2)" by fastforce
  then have "mType m = Hello" "mFrom m = nID n" "nID n2 = nID n" "Channels n2 = Channels n" "nRaft n2 = nRaft n"
    by (auto simp: stamp_def zero_message_def)
  moreover have "n1 = n2" "set (broadcast_all m n2) \<subseteq> set os"
    using assms m by (auto simp: Register_def hello_def split: prod.splits)
  ultimately show ?thesis by (fastforce simp: broadcast_all_def)
qed


section \<open>With the signaling server\<close>

lemma start_signaling_enabled:
  assumes "nsEnabled (cfSignalingServer conf)" and "pfDuration pf (nsReconnectInterval (cfSignalingServer conf)) = Inr d1"
    and "pfDuration pf (nsHeartbeatInterval (cfSignalingServer conf)) = Inr d2"
  shows "(case pfParseURL pf (nsURL (cfSignalingServer conf)) of
      Inl e \<Rightarrow> \<exists>c. start_signaling pf conf = Inr (Some (c, [])) \<and> \<not> scConnected c
    | Inr u \<Rightarrow> (case pfDial pf u of
        Inl e \<Rightarrow> \<exists>c. start_signaling pf conf = Inr (Some (c, [])) \<and> \<not> scConnected c
      | Inr conn \<Rightarrow> \<exists>c. start_signaling pf conf = Inl (Blocked c [GoHandleMessages, GoHeartbeat, GoMonitor])))"
  using assms
  by (auto simp: start_signaling_def Let_def SetNode_def cli_Connect_def with_lock_def NewSignalingClient_def
      cli_register_def cli_sendMessage_def with_rlock_def split: sum.splits)


section \<open>Frame sizes\<close>

definition entry_frame_size :: "ChannelConfigYaml \<Rightarrow> int" where
  "entry_frame_size ch = (if cyProtocol ch = ''kcp'' then kcFrameSize (cyKCP ch) else tcFrameSize (cyTCP ch))"

lemma made_for_frame_size: "made_for pf token ch w \<Longrightarrow> MaxFrameSize (snd w) = word_of_int (entry_frame_size ch)"
  by (auto simp: made_for_def entry_worker_def Let_def entry_frame_size_def NewTcpConnection_def NewKcpConnection_def
      split: if_splits option.splits sum.splits)

lemma wrap_loop_total: "0 < m \<Longrightarrow> wrap_loop m data \<noteq> None"
  by (induction m data rule: wrap_loop.induct) (simp add: wrap_loop.simps)

lemma wrap_loop_panics: "m \<le> 0 \<Longrightarrow> data \<noteq> [] \<Longrightarrow> wrap_loop m data = None"
  by (cases data) (simp_all add: wrap_loop.simps)

lemma wrapToDataFrame_defined:
  assumes "data \<noteq> []"
  shows "wrapToDataFrame f data \<noteq> None \<longleftrightarrow> 0 < max_data_size f"
proof (cases "0 < max_data_size f")
  case True
  then have "0 \<le> go_quot (int (length data) + max_data_size f - 1) (max_data_size f)"
    by (simp add: go_quot_def sgn_if pos_imp_zdiv_nonneg_iff)
  with True wrap_loop_total [OF True] show ?thesis by (auto simp: wrapToDataFrame_def Let_def)
next
  case False
  with assms wrap_loop_panics show ?thesis by (simp add: wrapToDataFrame_def Let_def)
qed

text \<open>
  C37: A worker can send messages if and only if the frame size of its entry, as a number of 32 bits, is greater
  than the four bytes of a head. The validation only asks for a positive number, so it accepts sizes with
  which every message makes the node panic.
\<close>

theorem validated_frame_size_may_panic:
  assumes "start_node pf L rnd store_at conf = Inr (app, os)" and "k < length (filter is_endpoint (cfChannels conf))"
    and "data \<noteq> []"
  shows "0 < entry_frame_size (filter is_endpoint (cfChannels conf) ! k) \<and>
    (wrapToDataFrame (MaxFrameSize (snd (apWorkers app ! k))) data \<noteq> None \<longleftrightarrow>
       4 < entry_frame_size (filter is_endpoint (cfChannels conf) ! k) mod 2 ^ 32)"
proof -
  let ?ch = "filter is_endpoint (cfChannels conf) ! k"
  from assms(1) obtain sig n1 o1 n2 ws where s: "validateConfig conf = None"
    "create_groups L (pfNow pf) rnd store_at (cfRaft conf) (NewNode (cfNodeID conf)) = Inr (n1, o1)"
    "open_channels pf (cfToken conf) (cfChannels conf) n1 = Inr (n2, ws)" "apWorkers app = ws"
    by (rule start_node_parts) auto
  have "map fst (Channels n1) = channel_ids (nID n1) 0 (length (Channels n1))"
    using create_groups_ok [OF s(2)] by (simp add: NewNode_def channel_ids_def)
  with open_channels_ok [OF s(3)] assms(2) have "made_for pf (cfToken conf) ?ch (ws ! k)"
    by (auto simp: list_all2_conv_all_nth)
  from made_for_frame_size [OF this] wrapToDataFrame_defined [OF assms(3)]
  have "wrapToDataFrame (MaxFrameSize (snd (ws ! k))) data \<noteq> None \<longleftrightarrow> 4 < entry_frame_size ?ch mod 2 ^ 32"
    by (auto simp: max_data_size_def uint_word_of_int)
  moreover have "0 < entry_frame_size ch" if ch: "ch \<in> set (cfChannels conf)" for ch
  proof -
    have "first_error check_channel i chs = None \<Longrightarrow> ch \<in> set chs \<Longrightarrow> \<exists>j. check_channel j ch = None" for i chs
      by (induction chs arbitrary: i) (auto split: option.splits)
    moreover have "first_error check_channel 0 (cfChannels conf) = None"
      using s(1) by (auto simp: validateConfig_def split: if_splits option.splits)
    ultimately obtain j where "check_channel j ch = None" using ch by blast
    then show ?thesis by (auto simp: check_channel_def entry_frame_size_def split: if_splits)
  qed
  moreover have "?ch \<in> set (cfChannels conf)" using assms(2) nth_mem by fastforce
  ultimately show ?thesis using s(4) by simp
qed

section \<open>Instances\<close>

definition ex_pf :: "unit platform" where
  "ex_pf = \<lparr>pfReadFile = (\<lambda>_. Inl []), pfDuration = (\<lambda>_. Inr 5000000000), pfKeyPair = (\<lambda>_ _. Inr ()), pfResolve = (\<lambda>_. True),
     pfListenTcp = (\<lambda>_ _. True), pfListenKcp = (\<lambda>_. True), pfResolveIP = Some, pfInterfaces = None, pfParseURL = Inr,
     pfDial = (\<lambda>_. Inr 7), pfWrite = (\<lambda>_ _. None), pfNow = 0\<rparr>"

definition ex_tcp :: TCPConfigYaml where
  "ex_tcp = \<lparr>tcFrameSize = 4096, tcInactiveSeconds = 10, tcSendQueueSize = 100, tcMaxConnectionsPerSec = 5,
     tcIPWhitelist = [], tcTLS = None\<rparr>"

definition ex_kcp :: KCPConfigYaml where
  "ex_kcp = \<lparr>kcFrameSize = 3, kcInactiveSeconds = 10, kcSendQueueSize = 100, kcMaxConnectionsPerSec = 5, kcIPWhitelist = []\<rparr>"

definition ex_entry :: "string \<Rightarrow> string \<Rightarrow> ChannelConfigYaml" where
  "ex_entry ty proto = \<lparr>cyType = ty, cyProtocol = proto, cyListenAddr = '':1'', cyRemoteAddr = ''h:2'', cyTCP = ex_tcp, cyKCP = ex_kcp\<rparr>"

definition ex_conf :: "bool \<Rightarrow> NodeConfigYaml" where
  "ex_conf b = \<lparr>cfNodeID = ''n'', cfToken = ''k'', cfSignalingServer = \<lparr>nsEnabled = b, nsURL = ''ws'', nsUDPPort = 9,
       nsReconnectInterval = ''5s'', nsHeartbeatInterval = ''5s''\<rparr>, cfMajulaServers = [8080],
     cfChannels = [ex_entry ''server'' ''tcp'', ex_entry ''other'' ''tcp'', ex_entry ''client'' ''kcp''],
     cfRaft = [\<lparr>ryGroup = ''g'', ryPeers = [''n'', ''m''], ryDBPath = ''d''\<rparr>]\<rparr>"

definition ex_store :: "string \<Rightarrow> (string \<times> goval) list Storage" where
  "ex_store path = \<lparr>db = None, NodeId = ''n''\<rparr>"

lemma ex_conf_valid: "validateConfig (ex_conf b) = None"
  by (simp add: validateConfig_def ex_conf_def check_port_def check_channel_def check_raft_def ex_entry_def ex_tcp_def ex_kcp_def)

lemma ex_conf_channels: "filter is_endpoint (cfChannels (ex_conf b)) = [ex_entry ''server'' ''tcp'', ex_entry ''client'' ''kcp'']"
  by (simp add: ex_conf_def is_endpoint_def ex_entry_def)

lemma ex_starts: "\<exists>app os. start_node ex_pf alist_db (\<lambda>_. 0) ex_store (ex_conf False) = Inr (app, os)"
proof -
  have g: "\<exists>n1 os. create_groups alist_db 0 (\<lambda>_. 0) ex_store (cfRaft (ex_conf False)) n = Inr (n1, os)"
    if "RaftStubs (nRaft n) = Map.empty" for n
    using that by (simp add: ex_conf_def CreateRaftGroup_def NewRaftClient_def LoadMeta_def ex_store_def Let_def)
  have e: "\<exists>p. entry_worker ex_pf ''k'' ch = Inr p" if "ch \<in> set (cfChannels (ex_conf False))" for ch
    using that by (auto simp: ex_conf_def ex_entry_def entry_worker_def ex_tcp_def ex_kcp_def buildTLSConfig_def Let_def ex_pf_def
        NewTcpConnection_def NewKcpConnection_def)
  have c: "\<exists>n1 ws. open_channels ex_pf ''k'' chs n = Inr (n1, ws)" if "\<forall>ch \<in> set chs. \<exists>p. entry_worker ex_pf ''k'' ch = Inr p"
    for chs n using that
  proof (induction chs arbitrary: n)
    case (Cons ch chs)
    then obtain made where m: "entry_worker ex_pf ''k'' ch = Inr made" by auto
    show ?case
    proof (cases made)
      case None
      with Cons m show ?thesis by simp
    next
      case (Some p)
      obtain name w where "p = (name, w)" by fastforce
      moreover obtain n2 i w1 where a: "add_worker name w n = (n2, i, w1)" by (metis prod_cases3)
      moreover obtain n1 ws where "open_channels ex_pf ''k'' chs n2 = Inr (n1, ws)" using Cons by fastforce
      ultimately show ?thesis using m Some by simp
    qed
  qed simp
  have "RaftStubs (nRaft (NewNode (cfNodeID (ex_conf False)) :: (string \<times> goval) list Node)) = Map.empty"
    by (simp add: NewNode_def NewRaftManager_def)
  from g [OF this] obtain n1 os where "create_groups alist_db 0 (\<lambda>_. 0) ex_store (cfRaft (ex_conf False))
    (NewNode (cfNodeID (ex_conf False))) = Inr (n1, os)" by blast
  moreover obtain n2 ws where "open_channels ex_pf ''k'' (cfChannels (ex_conf False)) n1 = Inr (n2, ws)" using c e by blast
  moreover have "start_signaling ex_pf (ex_conf False) = Inr None" "cfToken (ex_conf False) = ''k''" "pfNow ex_pf = 0"
    by (simp_all add: start_signaling_def ex_conf_def ex_pf_def Let_def)
  ultimately show ?thesis by (simp add: start_node_def ex_conf_valid split: prod.split)
qed



theorem validated_frame_size_may_panic_witness:
  "\<exists>app os. start_node ex_pf alist_db (\<lambda>_. 0) ex_store (ex_conf False) = Inr (app, os) \<and>
     wrapToDataFrame (MaxFrameSize (snd (apWorkers app ! 1))) [0] = None"
proof -
  obtain app os where a: "start_node ex_pf alist_db (\<lambda>_. 0) ex_store (ex_conf False) = Inr (app, os)" using ex_starts by blast
  have "1 < length (filter is_endpoint (cfChannels (ex_conf False)))" "[0 :: byte] \<noteq> []" by (simp_all add: ex_conf_channels)
  from validated_frame_size_may_panic [OF a this] have "wrapToDataFrame (MaxFrameSize (snd (apWorkers app ! 1))) [0] = None"
    unfolding ex_conf_channels by (simp add: entry_frame_size_def ex_entry_def ex_kcp_def)
  with a show ?thesis by blast
qed

end
