(* ===== verification/Net_Env.thy ===== *)
theory Net_Env
  imports App_Node Net_Client
begin

text \<open>
  The networks that tests and demonstrations set up: core/SimpleEnv.go (nodes in one process),
  core/TcpEnv.go, core/NaiveTestEnv.go (\<open>Env\<close>) and core/FakeClient.go (\<open>ClientApp\<close>).

  A pointer to a node is the name under which an environment keeps it. \<open>None\<close> is a panic. What a node puts
  out is listed with its name; the maps that \<open>range\<close> goes over are association lists.
\<close>

section \<open>Nodes in one process (core/SimpleEnv.go)\<close>

text \<open>A worker with the channel of each of its users.\<close>

record 'd SimpleEnv =
  seNodes :: "(string \<times> 'd Node) list"
  seWorkers :: "(SimpleChannelWorker \<times> (string \<times> string) list) list"

definition create_nodes :: "string list \<Rightarrow> (string \<times> 'd Node) list" where
  "create_nodes pNodes = fold (\<lambda>p nodes. if map_of nodes p = None then nodes @ [(p, NewNode p)] else nodes) pNodes []"

text \<open>One round of the inner loop: a node that does not exist is a nil pointer.\<close>

definition next_channel_id :: "'d Node \<Rightarrow> string" where
  "next_channel_id n = nID n @ ''-'' @ itoa (int (length (Channels n)) + 1)"

definition connect_member ::
  "int \<Rightarrow> string list \<Rightarrow> string \<Rightarrow> (string \<times> 'd Node) list \<times> SimpleChannelWorker \<times> (string \<times> string) list \<Rightarrow>
     ((string \<times> 'd Node) list \<times> SimpleChannelWorker \<times> (string \<times> string) list) option" where
  "connect_member now pair c = (\<lambda>(nodes, w, us). case map_of nodes c of
       None \<Rightarrow> None
     | Some n \<Rightarrow> Some (AList.update c (AddChannel (fold (addChannelPeer now) (filter (\<lambda>p. p \<noteq> c) pair) NewChannel) n) nodes,
         addChannelUser c w, AList.update c (next_channel_id n) us))"

definition connect_pair ::
  "int \<Rightarrow> string list \<Rightarrow> (string \<times> 'd Node) list \<times> (SimpleChannelWorker \<times> (string \<times> string) list) list \<Rightarrow>
     ((string \<times> 'd Node) list \<times> (SimpleChannelWorker \<times> (string \<times> string) list) list) option" where
  "connect_pair now pair = (\<lambda>(nodes, ws). do {
     (nodes1, w, us) \<leftarrow> foldM (connect_member now pair) pair (nodes, newSimpleChannelWorker, []);
     Some (nodes1, ws @ [(w, us)]) })"

definition NewSimpleEnvEx :: "int \<Rightarrow> string list \<Rightarrow> string list list \<Rightarrow> 'd SimpleEnv option" where
  "NewSimpleEnvEx now pNodes pPairs = do {
     (nodes, ws) \<leftarrow> foldM (connect_pair now) pPairs (create_nodes pNodes, []);
     Some \<lparr>seNodes = nodes, seWorkers = ws\<rparr> }"

text \<open>Something that every node of a table does, in a goroutine of its own or one after the other.\<close>

definition all_nodes ::
  "('d Node \<Rightarrow> 'd Node \<times> 'o list) \<Rightarrow> (string \<times> 'd Node) list \<Rightarrow> (string \<times> 'd Node) list \<times> (string \<times> 'o) list" where
  "all_nodes f nodes = (map (\<lambda>(i, n). (i, fst (f n))) nodes, concat (map (\<lambda>(i, n). map (Pair i) (snd (f n))) nodes))"

definition SimpleEnv_start :: "'d SimpleEnv \<Rightarrow> 'd SimpleEnv \<times> (string \<times> net_out) list" where
  "SimpleEnv_start env = (let (nodes, os) = all_nodes Register (seNodes env) in (env\<lparr>seNodes := nodes\<rparr>, os))"

text \<open>The end of a node: it says goodbye, and shuts its web servers down.\<close>

definition node_Quit :: "Server list \<Rightarrow> 'd Node \<Rightarrow> ('d Node \<times> net_out list \<times> Server list) option" where
  "node_Quit servers n = (let (n1, os) = sendQuit n
     in map_option (\<lambda>ss. (n1, os, [])) (foldM (\<lambda>s ss. map_option (\<lambda>s1. ss @ [s1]) (Shutdown s)) servers []))"

definition SimpleEnv_quit :: "'d SimpleEnv \<Rightarrow> 'd SimpleEnv \<times> (string \<times> net_out) list" where
  "SimpleEnv_quit env = (let (nodes, os) = all_nodes sendQuit (seNodes env) in (env\<lparr>seNodes := nodes\<rparr>, os))"

definition SimpleEnv_runOld :: "'d SimpleEnv \<Rightarrow> 'd SimpleEnv \<times> (string \<times> net_out) list" where
  "SimpleEnv_runOld env = (let (env1, o1) = SimpleEnv_start env; (env2, o2) = SimpleEnv_quit env1 in (env2, o1 @ o2))"

section \<open>A worker over TCP, with the settings of tests\<close>

definition test_worker :: "'tls platform \<Rightarrow> string \<Rightarrow> bool \<Rightarrow> string \<Rightarrow> string \<Rightarrow> string \<Rightarrow> TcpWorker option" where
  "test_worker pf name isClient localAddr remoteAddr token =
     NewTcpConnection (pfResolve pf localAddr) (pfListenTcp pf None localAddr) (pfResolve pf remoteAddr) (pfResolveIP pf)
       name isClient [] 4096 10 1000 5 token"

definition attach_worker :: "Channel \<Rightarrow> TcpWorker \<Rightarrow> 'd Node \<Rightarrow> 'd Node \<times> string \<times> TcpWorker" where
  "attach_worker ch worker n = (AddChannel ch n, next_channel_id n, worker\<lparr>wkUser := Some (next_channel_id n)\<rparr>)"

section \<open>Servers and clients over TCP (core/TcpEnv.go)\<close>

text \<open>The workers are kept with the node and channel they belong to, and whether they listen.\<close>

record 'd TcpEnv =
  teClients :: "(string \<times> 'd Node) list"
  teServers :: "(string \<times> 'd Node) list"
  teServersAddr :: "(string \<times> string) list"
  teToken :: string
  teBasePort :: int
  tePortOffset :: int
  teWorkers :: "(string \<times> string \<times> bool \<times> TcpWorker) list"

definition NewTcpEnv :: "int \<Rightarrow> string \<Rightarrow> 'd TcpEnv" where
  "NewTcpEnv basePort token = \<lparr>teClients = [], teServers = [], teServersAddr = [], teToken = token, teBasePort = basePort,
     tePortOffset = 0, teWorkers = []\<rparr>"

definition nextAddr :: "'d TcpEnv \<Rightarrow> string \<times> 'd TcpEnv" where
  "nextAddr env = (if teBasePort env = 0 then (''127.0.0.1:0'', env)
     else (''127.0.0.1:'' @ itoa (i64 (teBasePort env + tePortOffset env)), env\<lparr>tePortOffset := i64 (tePortOffset env + 1)\<rparr>))"

text \<open>\<open>resolved\<close> is the text of a resolved address.\<close>

definition addSimpleServer :: "'tls platform \<Rightarrow> (string \<Rightarrow> string) \<Rightarrow> string \<Rightarrow> 'd TcpEnv \<Rightarrow> 'd TcpEnv option" where
  "addSimpleServer pf resolved name env =
     (let (addr, env1) = nextAddr env
      in map_option (\<lambda>worker.
          (let actualAddr = (if teBasePort env1 = 0 then resolved addr else addr);
               (n1, i, w) = attach_worker (NewChannelFull (name @ ''-channel'')) worker (NewNode name)
           in env1\<lparr>teServers := AList.update name n1 (teServers env1),
                teServersAddr := AList.update name actualAddr (teServersAddr env1),
                teWorkers := teWorkers env1 @ [(name, i, True, w)]\<rparr>))
        (test_worker pf name False addr [] (teToken env1)))"

definition addSimpleClient :: "'tls platform \<Rightarrow> int \<Rightarrow> string \<Rightarrow> string \<Rightarrow> 'd TcpEnv \<Rightarrow> 'd TcpEnv option" where
  "addSimpleClient pf now name serverName env = (case map_of (teServersAddr env) serverName of
       None \<Rightarrow> None
     | Some serverAddr \<Rightarrow>
         (let (localAddr, env1) = nextAddr env
          in map_option (\<lambda>worker.
              (let (n1, i, w) = attach_worker (addChannelPeer now serverName (NewChannelFull (name @ ''-channel''))) worker (NewNode name)
               in env1\<lparr>teClients := AList.update name n1 (teClients env1), teWorkers := teWorkers env1 @ [(name, i, False, w)]\<rparr>))
            (test_worker pf name True localAddr serverAddr (teToken env1))))"

definition connectClientToServer :: "'tls platform \<Rightarrow> int \<Rightarrow> string \<Rightarrow> string \<Rightarrow> 'd TcpEnv \<Rightarrow> 'd TcpEnv option" where
  "connectClientToServer pf now clientName serverName env =
     (case (map_of (teClients env) clientName, map_of (teServersAddr env) serverName) of
       (Some clientNode, Some serverAddr) \<Rightarrow>
         (let (localAddr, env1) = nextAddr env; channelId = clientName @ ''-to-'' @ serverName
          in map_option (\<lambda>worker.
              (let (n1, i, w) = attach_worker (addChannelPeer now serverName (NewChannelFull channelId)) worker clientNode
               in env1\<lparr>teClients := AList.update clientName n1 (teClients env1), teWorkers := teWorkers env1 @ [(clientName, i, False, w)]\<rparr>))
            (test_worker pf channelId True localAddr serverAddr (teToken env1)))
     | _ \<Rightarrow> None)"

definition TcpEnv_startAll :: "'d TcpEnv \<Rightarrow> 'd TcpEnv \<times> (string \<times> net_out) list" where
  "TcpEnv_startAll env = (let (ss, o1) = all_nodes Register (teServers env); (cs, o2) = all_nodes Register (teClients env)
     in (env\<lparr>teServers := ss, teClients := cs\<rparr>, o1 @ o2))"

text \<open>
  Every node says goodbye, and then the workers of all channels are closed: of the servers, then of the
  clients. A name that was used twice stands for the later node, and so for its worker.
\<close>

definition last_index :: "('a \<Rightarrow> bool) \<Rightarrow> 'a list \<Rightarrow> nat option" where
  "last_index P xs = (case filter (\<lambda>k. P (xs ! k)) [0..<length xs] of [] \<Rightarrow> None | ks \<Rightarrow> Some (last ks))"

fun close_channels ::
  "bool \<Rightarrow> (string \<times> string) list \<Rightarrow> (string \<times> string \<times> bool \<times> TcpWorker) list \<Rightarrow>
     ((string \<times> string \<times> bool \<times> TcpWorker) list \<times> wk_out list) option" where
  "close_channels l [] ws = Some (ws, [])"
| "close_channels l ((i, c) # rest) ws = (case last_index (\<lambda>(j, d, m, _). j = i \<and> d = c \<and> m = l) ws of
       None \<Rightarrow> close_channels l rest ws
     | Some k \<Rightarrow> do {
         (w1, o1) \<leftarrow> worker_Close l (snd (snd (snd (ws ! k))));
         (ws2, o2) \<leftarrow> close_channels l rest (ws[k := (i, c, l, w1)]);
         Some (ws2, o1 @ o2) })"

definition node_channels :: "(string \<times> 'd Node) list \<Rightarrow> (string \<times> string) list" where
  "node_channels nodes = concat (map (\<lambda>(i, n). map (\<lambda>(c, _). (i, c)) (Channels n)) nodes)"

definition TcpEnv_end :: "'d TcpEnv \<Rightarrow> ('d TcpEnv \<times> (string \<times> net_out) list \<times> wk_out list) option" where
  "TcpEnv_end env = (let (ss, o1) = all_nodes sendQuit (teServers env); (cs, o2) = all_nodes sendQuit (teClients env) in do {
     (ws1, w1) \<leftarrow> close_channels True (node_channels ss) (teWorkers env);
     (ws2, w2) \<leftarrow> close_channels False (node_channels cs) ws1;
     Some (env\<lparr>teServers := ss, teClients := cs, teWorkers := ws2\<rparr>, o1 @ o2, w1 @ w2) })"

section \<open>Nodes and clients by name (core/NaiveTestEnv.go)\<close>

text \<open>The two test procedures; their handles. A number is a \<open>float64\<close> in the code.\<close>

definition cb_whoami :: int where "cb_whoami = - 1"
definition cb_add :: int where "cb_add = - 2"

definition test_whoami :: "string \<Rightarrow> goval" where
  "test_whoami to = GStr (''Hello from Node '' @ [CHR 0x27] @ to @ [CHR 0x27] @ ''!'')"

definition test_add :: "params \<Rightarrow> goval" where
  "test_add ps = (case (map_of ps ''a'', map_of ps ''b'') of
       (Some (GNum a), Some (GNum b)) \<Rightarrow> GMap [(''sum'', GNum (a + b))]
     | _ \<Rightarrow> GMap [(''error'', GStr (''parameters '' @ [CHR 0x27] @ ''a'' @ [CHR 0x27] @ '' and '' @ [CHR 0x27] @ ''b'' @ [CHR 0x27] @ '' must be numbers''))])"

definition registerTestRpc :: "'d Node \<Rightarrow> 'd Node \<times> net_out list" where
  "registerTestRpc n = (let (n1, o1) = registerRpcService ''whoami'' ''default'' \<lparr>fnNote = [], fnCallback = Some cb_whoami\<rparr> n;
       (n2, o2) = registerRpcService ''add'' ''default'' \<lparr>fnNote = [], fnCallback = Some cb_add\<rparr> n1
     in (n2, o1 @ o2))"

record 'd Env =
  evNodes :: "(string \<times> 'd Node) list"
  evClients :: "(string \<times> Client) list"
  evWorkers :: "(string \<times> string \<times> TcpWorker) list"
  evServers :: "(string \<times> Server) list"

definition NewEnv :: "'d Env" where
  "NewEnv = \<lparr>evNodes = [], evClients = [], evWorkers = [], evServers = []\<rparr>"

text \<open>The rest of both functions that add a node, once there is a worker.\<close>

definition run_node ::
  "string \<Rightarrow> Channel \<Rightarrow> TcpWorker \<Rightarrow> string \<Rightarrow> 'd Env \<Rightarrow> 'd Env \<times> net_out list" where
  "run_node nodeID ch worker wsPort env =
     (let (n1, i, w) = attach_worker ch worker (NewNode nodeID);
          (n2, o1) = Register n1;
          (n3, o2) = registerTestRpc n2
      in (env\<lparr>evNodes := AList.update nodeID n3 (evNodes env), evWorkers := evWorkers env @ [(nodeID, i, w)],
            evServers := (if wsPort \<noteq> [] then evServers env @ [(nodeID, NewServer wsPort)] else evServers env)\<rparr>, o1 @ o2))"

definition env_exists :: "string \<Rightarrow> string" where
  "env_exists nodeID = ''Node '' @ nodeID @ '' already exists''"

definition AddServer :: "'tls platform \<Rightarrow> string \<Rightarrow> string \<Rightarrow> string \<Rightarrow> 'd Env \<Rightarrow> string + 'd Env \<times> net_out list" where
  "AddServer pf nodeID bindAddr wsPort env = (case map_of (evNodes env) nodeID of
       Some _ \<Rightarrow> Inl (env_exists nodeID)
     | None \<Rightarrow> (case test_worker pf nodeID False bindAddr [] ''default_token'' of
         None \<Rightarrow> Inl (''failed to create server TcpConnection for '' @ nodeID)
       | Some worker \<Rightarrow> Inr (run_node nodeID (NewChannelFull (nodeID @ ''-channel'')) worker wsPort env)))"

definition AddClientNode ::
  "'tls platform \<Rightarrow> int \<Rightarrow> string \<Rightarrow> string \<Rightarrow> string \<Rightarrow> 'd Env \<Rightarrow> string + 'd Env \<times> net_out list" where
  "AddClientNode pf now nodeID remoteAddr wsPort env = (case map_of (evNodes env) nodeID of
       Some _ \<Rightarrow> Inl (env_exists nodeID)
     | None \<Rightarrow> (let channelID = nodeID @ ''->'' @ remoteAddr
         in case test_worker pf channelID True [] remoteAddr ''default_token'' of
           None \<Rightarrow> Inl (''failed to connect client Node '' @ nodeID @ '' to '' @ remoteAddr)
         | Some worker \<Rightarrow> Inr (run_node nodeID (addChannelPeer now remoteAddr (NewChannelFull channelID)) worker wsPort env)))"

definition Env_AddClient :: "string \<Rightarrow> 'd Env \<Rightarrow> string + 'd Env" where
  "Env_AddClient clientID env = (case map_of (evClients env) clientID of
       Some _ \<Rightarrow> Inl (''client '' @ clientID @ '' already exists'')
     | None \<Rightarrow> Inr (env\<lparr>evClients := AList.update clientID (NewClient clientID) (evClients env)\<rparr>))"

definition ConnectClientToNode :: "string \<Rightarrow> string \<Rightarrow> 'd Env \<Rightarrow> string + 'd Env" where
  "ConnectClientToNode clientID nodeID env = (case map_of (evClients env) clientID of
       None \<Rightarrow> Inl (''client '' @ clientID @ '' not found'')
     | Some c \<Rightarrow> (case map_of (evNodes env) nodeID of
         None \<Rightarrow> Inl (''Node '' @ nodeID @ '' not found'')
       | Some n \<Rightarrow> (case client_Connect n c of
           Inl e \<Rightarrow> Inl e
         | Inr (c1, n1) \<Rightarrow> Inr (env\<lparr>evClients := AList.update clientID c1 (evClients env),
             evNodes := AList.update nodeID n1 (evNodes env)\<rparr>))))"

definition Env_GetNode :: "string \<Rightarrow> 'd Env \<Rightarrow> 'd Node option" where
  "Env_GetNode nodeID env = map_of (evNodes env) nodeID"

definition Env_GetClient :: "string \<Rightarrow> 'd Env \<Rightarrow> Client option" where
  "Env_GetClient clientID env = map_of (evClients env) clientID"

text \<open>
  The end: every node quits, its web servers with it, and then every client disconnects from the node it is
  connected to.
\<close>

definition disconnect_in :: "string \<Rightarrow> 'd Env \<Rightarrow> 'd Env \<times> (string \<times> net_out) list" where
  "disconnect_in clientID env = (case map_of (evClients env) clientID of
       None \<Rightarrow> (env, [])
     | Some c \<Rightarrow> (case TargetNode c of
         None \<Rightarrow> (env, [])
       | Some i \<Rightarrow> (case map_of (evNodes env) i of
           None \<Rightarrow> (env, [])
         | Some n \<Rightarrow> (let (c1, n1, os) = client_Disconnect n c
             in (env\<lparr>evClients := AList.update clientID c1 (evClients env), evNodes := AList.update i n1 (evNodes env)\<rparr>, map (Pair i) os)))))"

definition Env_Shutdown :: "'d Env \<Rightarrow> ('d Env \<times> (string \<times> net_out) list) option" where
  "Env_Shutdown env = do {
     (nodes, o1) \<leftarrow> foldM (\<lambda>(i, n) (nodes, os). map_option (\<lambda>(n1, o1, _). (nodes @ [(i, n1)], os @ map (Pair i) o1))
         (node_Quit (map snd (filter (\<lambda>(j, _). j = i) (evServers env))) n)) (evNodes env) ([], []);
     let (env2, o2) = each disconnect_in (map fst (evClients env)) (env\<lparr>evNodes := nodes, evServers := []\<rparr>);
     Some (env2, o1 @ o2) }"

section \<open>An application with one node (core/FakeClient.go)\<close>

text \<open>
  The workers of the channels, each with whether it listens; the one that the application closes is a position in
  this list. \<open>caRegistered\<close> counts how often \<open>Register\<close> has started the loops of the node.
\<close>

record 'd ClientApp =
  caNode :: "'d Node"
  caWorker :: "nat option"
  caToken :: string
  caWorkers :: "(string \<times> bool \<times> TcpWorker) list"
  caRegistered :: nat

definition app_of :: "'d Node \<Rightarrow> nat option \<Rightarrow> string \<Rightarrow> 'd ClientApp" where
  "app_of n worker token = \<lparr>caNode = n, caWorker = worker, caToken = token, caWorkers = [], caRegistered = 0\<rparr>"

text \<open>A channel is added to the node, and the node is registered.\<close>

definition app_attach :: "bool \<Rightarrow> Channel \<Rightarrow> TcpWorker \<Rightarrow> 'd ClientApp \<Rightarrow> 'd ClientApp \<times> net_out list" where
  "app_attach listens ch worker app =
     (let (n1, i, w) = attach_worker ch worker (caNode app); (n2, os) = Register n1
      in (app\<lparr>caNode := n2, caWorkers := caWorkers app @ [(i, listens, w)], caRegistered := caRegistered app + 1\<rparr>, os))"

definition NewClientApp :: "'tls platform \<Rightarrow> string \<Rightarrow> bool \<Rightarrow> string \<Rightarrow> string \<Rightarrow> 'd ClientApp \<times> net_out list" where
  "NewClientApp pf nodeID isServer bindAddr token =
     (case if isServer then test_worker pf nodeID False bindAddr [] token else None of
        None \<Rightarrow> (app_of (NewNode nodeID) None token, [])
      | Some w \<Rightarrow> app_attach True (NewChannelFull (nodeID @ ''-channel'')) w (app_of (NewNode nodeID) (Some 0) token))"

definition ConnectToPeer :: "'tls platform \<Rightarrow> int \<Rightarrow> string \<Rightarrow> 'd ClientApp \<Rightarrow> string + 'd ClientApp \<times> net_out list" where
  "ConnectToPeer pf now peerAddr app =
     (let channelID = nID (caNode app) @ ''->'' @ peerAddr
      in (case test_worker pf channelID True ''127.0.0.1:0'' peerAddr (caToken app) of
        None \<Rightarrow> Inl (''failed to connect to '' @ peerAddr)
      | Some w \<Rightarrow> Inr (app_attach False (addChannelPeer now peerAddr (NewChannelFull channelID)) w app)))"

definition DefaultMessageTTL :: "16 word" where "DefaultMessageTTL = 100"

definition app_Send :: "string \<Rightarrow> string \<Rightarrow> 'd ClientApp \<Rightarrow> 'd ClientApp \<times> net_out list" where
  "app_Send toID content app =
     (let (n1, os) = sendTo toID (zero_message\<lparr>mType := Other, mData := Text content, mFrom := nID (caNode app), mTo := toID,
            mTTL := DefaultMessageTTL, LastSender := nID (caNode app)\<rparr>) [] (caNode app)
      in (app\<lparr>caNode := n1\<rparr>, os))"

definition app_Shutdown :: "'d ClientApp \<Rightarrow> ('d ClientApp \<times> net_out list \<times> wk_out list) option" where
  "app_Shutdown app = (let (n1, os) = sendQuit (caNode app)
     in (case caWorker app of
        None \<Rightarrow> Some (app\<lparr>caNode := n1\<rparr>, os, [])
      | Some k \<Rightarrow> (let (i, l, w) = caWorkers app ! k in
          map_option (\<lambda>(w1, wos). (app\<lparr>caNode := n1, caWorkers := (caWorkers app)[k := (i, l, w1)]\<rparr>, os, wos)) (worker_Close l w))))"

definition NewSimpleServer :: "'tls platform \<Rightarrow> string \<Rightarrow> string \<Rightarrow> ('d ClientApp \<times> net_out list) option" where
  "NewSimpleServer pf nodeID listenAddr =
     map_option (\<lambda>w. app_attach True (NewChannelFull (nodeID @ ''-channel'')) w (app_of (NewNode nodeID) (Some 0) ''default_token''))
       (test_worker pf nodeID False listenAddr [] ''default_token'')"

definition NewSimpleClient :: "'tls platform \<Rightarrow> int \<Rightarrow> string \<Rightarrow> string \<Rightarrow> ('d ClientApp \<times> net_out list) option" where
  "NewSimpleClient pf now nodeID remoteAddr =
     (let channelID = nodeID @ ''->'' @ remoteAddr
      in map_option (\<lambda>w. app_attach False (addChannelPeer now remoteAddr (NewChannelFull channelID)) w
             (app_of (NewNode nodeID) (Some 0) ''default_token''))
           (test_worker pf channelID True ''127.0.0.1:0'' remoteAddr ''default_token''))"

definition on_node :: "('d Node \<Rightarrow> 'd Node \<times> net_out list) \<Rightarrow> 'd ClientApp \<Rightarrow> 'd ClientApp \<times> net_out list" where
  "on_node f app = apfst (\<lambda>n. app\<lparr>caNode := n\<rparr>) (f (caNode app))"

definition app_Subscribe :: "string \<Rightarrow> string \<Rightarrow> int \<Rightarrow> 'd ClientApp \<Rightarrow> 'd ClientApp \<times> net_out list" where
  "app_Subscribe topic clientName cb = on_node (addLocalSub topic clientName cb)"

definition app_Unsubscribe :: "string \<Rightarrow> string \<Rightarrow> 'd ClientApp \<Rightarrow> 'd ClientApp \<times> net_out list" where
  "app_Unsubscribe topic clientName = on_node (removeLocalSub topic clientName)"

definition app_Publish ::
  "((string \<times> string list) list \<Rightarrow> (string \<times> string list) list) \<Rightarrow> string \<Rightarrow> string \<Rightarrow> 'd ClientApp \<Rightarrow> 'd ClientApp \<times> net_out list" where
  "app_Publish ord topic message = on_node (publishOnTopic ord topic message)"

section \<open>The network in one process is the one that was asked for\<close>

text \<open>The peers of each channel of a node, in the order in which the channels were added.\<close>

definition channel_view :: "'d Node \<Rightarrow> string list list" where
  "channel_view n = map (\<lambda>(_, ch). map fst (ChannelPeers ch)) (Channels n)"

definition nodes_ok :: "(string \<times> 'd Node) list \<Rightarrow> bool" where
  "nodes_ok nodes \<longleftrightarrow> (\<forall>i n. map_of nodes i = Some n \<longrightarrow>
     nID n = i \<and> map fst (Channels n) = channel_ids i 0 (length (Channels n)))"

lemma nodes_ok_D:
  "nodes_ok nodes \<Longrightarrow> map_of nodes i = Some n \<Longrightarrow> nID n = i \<and> map fst (Channels n) = channel_ids i 0 (length (Channels n))"
  by (auto simp: nodes_ok_def simp del: map_of_eq_Some_iff)

lemma peers_added:
  "distinct ps \<Longrightarrow> set ps \<inter> set (map fst (ChannelPeers ch)) = {} \<Longrightarrow>
     map fst (ChannelPeers (fold (addChannelPeer now) ps ch)) = map fst (ChannelPeers ch) @ ps"
proof (induction ps arbitrary: ch)
  case (Cons p ps)
  then have "map fst (ChannelPeers (addChannelPeer now p ch)) = map fst (ChannelPeers ch) @ [p]"
    by (simp add: addChannelPeer_def update_fresh)
  with Cons.IH [of "addChannelPeer now p ch"] Cons.prems show ?case by auto
qed simp

lemma AddChannel_view:
  assumes "map fst (Channels n) = channel_ids (nID n) 0 (length (Channels n))"
  shows "channel_view (AddChannel ch n) = channel_view n @ [map fst (ChannelPeers ch)]"
    and "nID (AddChannel ch n) = nID n"
    and "map fst (Channels (AddChannel ch n)) = channel_ids (nID n) 0 (length (Channels (AddChannel ch n)))"
proof -
  let ?i = "nID n @ ''-'' @ itoa (int (length (Channels n)) + 1)"
  have "?i \<notin> set (map fst (Channels n))" unfolding assms by (rule channel_ids_fresh)
  then have c: "Channels (AddChannel ch n) = Channels n @ [(?i, ch\<lparr>chID := ?i\<rparr>)]"
    by (simp add: AddChannel_def update_fresh Let_def)
  show "channel_view (AddChannel ch n) = channel_view n @ [map fst (ChannelPeers ch)]" by (simp add: channel_view_def c)
  show "nID (AddChannel ch n) = nID n" by (simp add: AddChannel_def Let_def)
  show "map fst (Channels (AddChannel ch n)) = channel_ids (nID n) 0 (length (Channels (AddChannel ch n)))"
    unfolding c map_append assms by (simp add: channel_ids_def)
qed

lemma connect_member_ok:
  assumes "connect_member now pair c (nodes, w, us) = Some (nodes1, w1, us1)" and "nodes_ok nodes" and "distinct pair"
  shows "nodes_ok nodes1 \<and> dom (map_of nodes1) = dom (map_of nodes) \<and> set (ChannelUsers w1) = insert c (set (ChannelUsers w)) \<and>
    (\<forall>i n1. map_of nodes1 i = Some n1 \<longrightarrow> (\<exists>n. map_of nodes i = Some n \<and>
       channel_view n1 = channel_view n @ (if i = c then [filter (\<lambda>p. p \<noteq> i) pair] else [])))"
proof -
  let ?ch = "fold (addChannelPeer now) (filter (\<lambda>p. p \<noteq> c) pair) NewChannel"
  from assms(1) obtain n where n: "map_of nodes c = Some n"
    and r: "nodes1 = AList.update c (AddChannel ?ch n) nodes" "w1 = addChannelUser c w"
    by (auto simp: connect_member_def simp del: map_of_eq_Some_iff split: option.splits)
  note wf = nodes_ok_D [OF assms(2) n]
  then have "map fst (Channels n) = channel_ids (nID n) 0 (length (Channels n))" by simp
  note add = AddChannel_view [OF this, of ?ch]
  have peers: "map fst (ChannelPeers ?ch) = filter (\<lambda>p. p \<noteq> c) pair"
    using peers_added [of "filter (\<lambda>p. p \<noteq> c) pair" NewChannel now] assms(3) by (simp add: NewChannel_def)
  have m: "map_of nodes1 = (map_of nodes)(c \<mapsto> AddChannel ?ch n)" by (simp add: r(1) update_conv')
  have "nodes_ok nodes1"
    using assms(2) add wf unfolding nodes_ok_def m by (auto simp del: map_of_eq_Some_iff)
  moreover have "dom (map_of nodes1) = dom (map_of nodes)" unfolding m using n by auto
  moreover have "set (ChannelUsers w1) = insert c (set (ChannelUsers w))" by (simp add: r(2) addChannelUser_def)
  ultimately show ?thesis using n peers add(1) unfolding m by (auto simp del: map_of_eq_Some_iff)
qed

lemma connect_members_ok:
  assumes "foldM (connect_member now pair) todo (nodes, w, us) = Some (nodes1, w1, us1)" and "nodes_ok nodes"
    and "distinct pair" and "distinct todo"
  shows "nodes_ok nodes1 \<and> dom (map_of nodes1) = dom (map_of nodes) \<and> set (ChannelUsers w1) = set (ChannelUsers w) \<union> set todo \<and>
    (\<forall>i n1. map_of nodes1 i = Some n1 \<longrightarrow> (\<exists>n. map_of nodes i = Some n \<and>
       channel_view n1 = channel_view n @ (if i \<in> set todo then [filter (\<lambda>p. p \<noteq> i) pair] else [])))"
  using assms
proof (induction todo arbitrary: nodes w us)
  case (Cons c todo)
  then obtain nodes2 w2 us2 where s: "connect_member now pair c (nodes, w, us) = Some (nodes2, w2, us2)"
    and r: "foldM (connect_member now pair) todo (nodes2, w2, us2) = Some (nodes1, w1, us1)"
    by (auto split: bind_splits)
  note 1 = connect_member_ok [OF s Cons.prems(2,3)]
  then have ok: "nodes_ok nodes2" by blast
  have dt: "distinct todo" using Cons.prems(4) by simp
  note 2 = Cons.IH [OF r ok Cons.prems(3) dt]
  have "\<exists>n. map_of nodes i = Some n \<and> channel_view n1 =
      channel_view n @ (if i \<in> set (c # todo) then [filter (\<lambda>p. p \<noteq> i) pair] else [])" if i: "map_of nodes1 i = Some n1" for i n1
  proof -
    from 2 i obtain n2 where n2: "map_of nodes2 i = Some n2"
      "channel_view n1 = channel_view n2 @ (if i \<in> set todo then [filter (\<lambda>p. p \<noteq> i) pair] else [])"
      by blast
    with 1 obtain n where "map_of nodes i = Some n"
      "channel_view n2 = channel_view n @ (if i = c then [filter (\<lambda>p. p \<noteq> i) pair] else [])" by blast
    with n2(2) Cons.prems(4) show ?thesis by auto
  qed
  with 1 2 Cons.prems(4) show ?case by auto
qed (auto simp del: map_of_eq_Some_iff)

lemma connect_members_defined:
  assumes "nodes_ok nodes" and "distinct pair"
  shows "foldM (connect_member now pair) todo (nodes, w, us) \<noteq> None \<longleftrightarrow> set todo \<subseteq> dom (map_of nodes)"
  using assms
proof (induction todo arbitrary: nodes w us)
  case (Cons c todo)
  show ?case
  proof (cases "connect_member now pair c (nodes, w, us)")
    case None
    then have "c \<notin> dom (map_of nodes)" by (auto simp: connect_member_def domIff simp del: map_of_eq_Some_iff split: option.splits)
    with None show ?thesis by simp
  next
    case (Some s)
    obtain nodes1 w1 us1 where s: "s = (nodes1, w1, us1)" by (metis prod_cases3)
    have "c \<in> dom (map_of nodes)" using Some
      by (auto simp: connect_member_def domIff simp del: map_of_eq_Some_iff split: option.splits)
    moreover note connect_member_ok [OF Some [unfolded s] Cons.prems]
    ultimately show ?thesis using Cons.IH [of nodes1 w1 us1] Cons.prems(2) Some s by auto
  qed
qed simp

lemma connect_pairs_ok:
  assumes "\<forall>p \<in> set pairs. distinct p" and "nodes_ok nodes"
  shows "(foldM (connect_pair now) pairs (nodes, ws) \<noteq> None \<longleftrightarrow> (\<forall>p \<in> set pairs. set p \<subseteq> dom (map_of nodes))) \<and>
    (\<forall>nodes1 ws1. foldM (connect_pair now) pairs (nodes, ws) = Some (nodes1, ws1) \<longrightarrow>
       dom (map_of nodes1) = dom (map_of nodes) \<and>
       map (\<lambda>(w, _). set (ChannelUsers w)) ws1 = map (\<lambda>(w, _). set (ChannelUsers w)) ws @ map set pairs \<and>
       (\<forall>i n1. map_of nodes1 i = Some n1 \<longrightarrow> nID n1 = i \<and> (\<exists>n. map_of nodes i = Some n \<and>
          channel_view n1 = channel_view n @ map (filter (\<lambda>j. j \<noteq> i)) (filter (\<lambda>p. i \<in> set p) pairs))))"
  using assms
proof (induction pairs arbitrary: nodes ws)
  case Nil
  then show ?case by (auto simp: nodes_ok_def simp del: map_of_eq_Some_iff)
next
  case (Cons p pairs)
  then have p: "distinct p" and ps: "\<forall>p \<in> set pairs. distinct p" by simp_all
  show ?case
  proof (cases "foldM (connect_member now p) p (nodes, newSimpleChannelWorker, [])")
    case None
    with connect_members_defined [OF Cons.prems(2) p, of now p newSimpleChannelWorker "[]"]
    show ?thesis by (auto simp: connect_pair_def)
  next
    case (Some s)
    obtain nodes2 w us where s: "s = (nodes2, w, us)" by (metis prod_cases3)
    note 1 = connect_members_ok [OF Some [unfolded s] Cons.prems(2) p p]
    then have ok2: "nodes_ok nodes2" and d2: "dom (map_of nodes2) = dom (map_of nodes)" by blast+
    note 2 = Cons.IH [OF ps ok2, of "ws @ [(w, us)]"]
    have sub: "set p \<subseteq> dom (map_of nodes)"
      using connect_members_defined [OF Cons.prems(2) p, of now p newSimpleChannelWorker "[]"] Some by simp
    have f: "foldM (connect_pair now) (p # pairs) (nodes, ws) = foldM (connect_pair now) pairs (nodes2, ws @ [(w, us)])"
      using Some s by (simp add: connect_pair_def)
    have v: "\<exists>n. map_of nodes i = Some n \<and> channel_view n1 =
        channel_view n @ map (filter (\<lambda>j. j \<noteq> i)) (filter (\<lambda>p. i \<in> set p) (p # pairs))"
      if n2: "map_of nodes2 i = Some n2" and e: "channel_view n1 = channel_view n2 @ map (filter (\<lambda>j. j \<noteq> i)) (filter (\<lambda>p. i \<in> set p) pairs)"
      for i n1 n2
    proof -
      from 1 n2 obtain n where "map_of nodes i = Some n"
        "channel_view n2 = channel_view n @ (if i \<in> set p then [filter (\<lambda>j. j \<noteq> i) p] else [])" by blast
      with e show ?thesis by auto
    qed
    have u: "set (ChannelUsers w) = set p" using 1 by (simp add: newSimpleChannelWorker_def)
    have "foldM (connect_pair now) pairs (nodes2, ws @ [(w, us)]) \<noteq> None \<longleftrightarrow> (\<forall>q \<in> set (p # pairs). set q \<subseteq> dom (map_of nodes))"
      using conjunct1 [OF 2] sub unfolding d2 by simp
    moreover have "dom (map_of nodes1) = dom (map_of nodes) \<and>
       map (\<lambda>(w, _). set (ChannelUsers w)) ws1 = map (\<lambda>(w, _). set (ChannelUsers w)) ws @ map set (p # pairs) \<and>
       (\<forall>i n1. map_of nodes1 i = Some n1 \<longrightarrow> nID n1 = i \<and> (\<exists>n. map_of nodes i = Some n \<and>
          channel_view n1 = channel_view n @ map (filter (\<lambda>j. j \<noteq> i)) (filter (\<lambda>p. i \<in> set p) (p # pairs))))"
      if r: "foldM (connect_pair now) pairs (nodes2, ws @ [(w, us)]) = Some (nodes1, ws1)" for nodes1 ws1
    proof -
      from 2 r have r2: "dom (map_of nodes1) = dom (map_of nodes2)"
        "map (\<lambda>(w, _). set (ChannelUsers w)) ws1 = map (\<lambda>(w, _). set (ChannelUsers w)) (ws @ [(w, us)]) @ map set pairs"
        "\<forall>i n1. map_of nodes1 i = Some n1 \<longrightarrow> nID n1 = i \<and> (\<exists>n. map_of nodes2 i = Some n \<and>
          channel_view n1 = channel_view n @ map (filter (\<lambda>j. j \<noteq> i)) (filter (\<lambda>p. i \<in> set p) pairs))"
        by blast+
      have "nID n1 = i \<and> (\<exists>n. map_of nodes i = Some n \<and>
          channel_view n1 = channel_view n @ map (filter (\<lambda>j. j \<noteq> i)) (filter (\<lambda>p. i \<in> set p) (p # pairs)))"
        if "map_of nodes1 i = Some n1" for i n1
      proof -
        from r2(3) that obtain n2 where "nID n1 = i" and n2: "map_of nodes2 i = Some n2"
          "channel_view n1 = channel_view n2 @ map (filter (\<lambda>j. j \<noteq> i)) (filter (\<lambda>p. i \<in> set p) pairs)" by blast
        with v [OF n2] show ?thesis by blast
      qed
      with r2(1,2) d2 u show ?thesis by (simp del: map_of_eq_Some_iff)
    qed
    ultimately show ?thesis unfolding f by blast
  qed
qed

lemma create_nodes_ok:
  "nodes_ok (create_nodes names :: (string \<times> 'd Node) list) \<and> dom (map_of (create_nodes names :: (string \<times> 'd Node) list)) = set names \<and>
   (\<forall>i n. map_of (create_nodes names :: (string \<times> 'd Node) list) i = Some n \<longrightarrow> channel_view n = [])"
proof -
  have *: "nodes_ok (fold step names nodes) \<and> dom (map_of (fold step names nodes)) = dom (map_of nodes) \<union> set names \<and>
      (\<forall>i n. map_of (fold step names nodes) i = Some n \<longrightarrow> channel_view n = [])"
    if "nodes_ok nodes" "\<forall>i n. map_of nodes i = Some n \<longrightarrow> channel_view n = []"
      and st: "step = (\<lambda>p nodes. if map_of nodes p = None then nodes @ [(p, NewNode p)] else nodes)"
    for step and nodes :: "(string \<times> 'd Node) list"
    using that(1,2)
  proof (induction names arbitrary: nodes)
    case (Cons p names)
    have m: "map_of (step p nodes) = (if map_of nodes p = None then (map_of nodes)(p \<mapsto> NewNode p) else map_of nodes)"
      by (auto simp: st map_add_def fun_eq_iff simp del: map_of_eq_Some_iff split: option.split)
    have "nodes_ok (step p nodes)" "\<forall>i n. map_of (step p nodes) i = Some n \<longrightarrow> channel_view n = []"
      using Cons.prems unfolding nodes_ok_def m
      by (auto simp: NewNode_def channel_ids_def channel_view_def simp del: map_of_eq_Some_iff)
    from Cons.IH [OF this] show ?case unfolding fold_Cons comp_def m by auto
  qed simp
  show ?thesis unfolding create_nodes_def by (rule conjI [OF _ conjI]; use * [of "[]"] in \<open>simp add: nodes_ok_def\<close>)
qed

text \<open>
  C39: The environment exists exactly if every connection names only nodes of the list (otherwise the set-up
  panics). Then its nodes are the ones of the list, every node has one channel for each connection that names it,
  in their order, whose peers are the other nodes of this connection, and what is broadcast on the transport of
  a connection arrives at exactly its nodes.
\<close>

theorem simple_env_is_the_network:
  assumes "\<forall>p \<in> set pairs. distinct p"
  shows "(NewSimpleEnvEx now names pairs \<noteq> (None :: 'd SimpleEnv option) \<longleftrightarrow> (\<forall>p \<in> set pairs. set p \<subseteq> set names)) \<and>
    (\<forall>env :: 'd SimpleEnv. NewSimpleEnvEx now names pairs = Some env \<longrightarrow>
       dom (map_of (seNodes env)) = set names \<and>
       (\<forall>i n. map_of (seNodes env) i = Some n \<longrightarrow> nID n = i \<and>
          channel_view n = map (filter (\<lambda>j. j \<noteq> i)) (filter (\<lambda>p. i \<in> set p) pairs)) \<and>
       length (seWorkers env) = length pairs \<and>
       (\<forall>k < length pairs. \<forall>msg. fst ` set (simple_broadCast msg (fst (seWorkers env ! k))) = set (pairs ! k)))"
proof -
  let ?nodes = "create_nodes names :: (string \<times> 'd Node) list"
  note c = create_nodes_ok [of names, where 'd = 'd]
  then have ok: "nodes_ok ?nodes" by blast
  note P = connect_pairs_ok [OF assms ok, of now "[]"]
  have "NewSimpleEnvEx now names pairs \<noteq> (None :: 'd SimpleEnv option) \<longleftrightarrow> (\<forall>p \<in> set pairs. set p \<subseteq> set names)"
    using P c by (auto simp: NewSimpleEnvEx_def split: bind_splits)
  moreover have "dom (map_of (seNodes env)) = set names \<and>
       (\<forall>i n. map_of (seNodes env) i = Some n \<longrightarrow> nID n = i \<and>
          channel_view n = map (filter (\<lambda>j. j \<noteq> i)) (filter (\<lambda>p. i \<in> set p) pairs)) \<and>
       length (seWorkers env) = length pairs \<and>
       (\<forall>k < length pairs. \<forall>msg. fst ` set (simple_broadCast msg (fst (seWorkers env ! k))) = set (pairs ! k))"
    if "NewSimpleEnvEx now names pairs = Some env" for env :: "'d SimpleEnv"
  proof -
    from that have f: "foldM (connect_pair now) pairs (?nodes, []) = Some (seNodes env, seWorkers env)"
      by (auto simp: NewSimpleEnvEx_def split: bind_splits)
    with P have u: "map (\<lambda>(w, _). set (ChannelUsers w)) (seWorkers env) = map set pairs" by auto
    then have l: "length (seWorkers env) = length pairs" by (metis length_map)
    have "fst ` set (simple_broadCast msg (fst (seWorkers env ! k))) = set (pairs ! k)" if "k < length pairs" for k msg
    proof -
      have "map (\<lambda>(w, _). set (ChannelUsers w)) (seWorkers env) ! k = map set pairs ! k" by (simp only: u)
      with that l have "set (ChannelUsers (fst (seWorkers env ! k))) = set (pairs ! k)" by (simp add: case_prod_beta)
      then show ?thesis by (simp add: simple_broadCast_def image_image)
    qed
    moreover have "nID n = i \<and> channel_view n = map (filter (\<lambda>j. j \<noteq> i)) (filter (\<lambda>p. i \<in> set p) pairs)"
      if "map_of (seNodes env) i = Some n" for i n
    proof -
      from P f that obtain n0 where n0: "nID n = i" "map_of ?nodes i = Some n0"
        "channel_view n = channel_view n0 @ map (filter (\<lambda>j. j \<noteq> i)) (filter (\<lambda>p. i \<in> set p) pairs)" by blast
      with c have "channel_view n0 = []" by blast
      with n0 show ?thesis by simp
    qed
    moreover have "dom (map_of (seNodes env)) = set names" using P f c by blast
    ultimately show ?thesis using l by blast
  qed
  ultimately show ?thesis by blast
qed

theorem simple_env_is_the_network_witness:
  "\<exists>(env :: unit SimpleEnv) n. NewSimpleEnvEx 0 [''a'', ''b'', ''c''] [[''a'', ''b''], [''b'', ''c'']] = Some env \<and>
     map_of (seNodes env) ''b'' = Some n \<and> channel_view n = [[''a''], [''c'']]"
proof -
  let ?pairs = "[[''a'', ''b''], [''b'', ''c'']]"
  have "\<forall>p \<in> set ?pairs. distinct p" by simp
  note net = simple_env_is_the_network [OF this, of 0 "[''a'', ''b'', ''c'']", where 'd = unit]
  then obtain env :: "unit SimpleEnv" where env: "NewSimpleEnvEx 0 [''a'', ''b'', ''c''] ?pairs = Some env" by auto
  with net have "''b'' \<in> dom (map_of (seNodes env))" by (auto simp del: map_of_eq_Some_iff)
  then obtain n where n: "map_of (seNodes env) ''b'' = Some n" by blast
  with net env have "channel_view n = map (filter (\<lambda>j. j \<noteq> ''b'')) (filter (\<lambda>p. ''b'' \<in> set p) ?pairs)" by blast
  with env n show ?thesis by auto
qed

text \<open>
  Connecting an application to a peer registers its node again, so that all loops of the node run once more;
  and shutting it down closes none of these connections, as only the first worker is closed.
\<close>

lemma ConnectToPeer_registers_again:
  assumes "ConnectToPeer pf now peer app = Inr (app1, os)"
  shows "caRegistered app1 = caRegistered app + 1 \<and> caWorker app1 = caWorker app \<and>
    length (caWorkers app1) = length (caWorkers app) + 1"
  using assms by (auto simp: ConnectToPeer_def app_attach_def attach_worker_def Let_def split: option.splits prod.splits)

lemma app_Shutdown_leaves_connections:
  assumes "app_Shutdown app = Some (app1, os, ws)" and "caWorker app \<noteq> Some k" and "k < length (caWorkers app)"
  shows "caWorkers app1 ! k = caWorkers app ! k"
  using assms by (auto simp: app_Shutdown_def Let_def split: option.splits prod.splits)

end
