(* ===== verification/Raft_Loop.thy ===== *)
theory Raft_Loop
  imports Raft_Learner
begin

text \<open>
  The goroutine behind a Raft node (\<open>startMainLoop\<close>, \<open>stopMainLoop\<close> and \<open>Close\<close> in core/Raft.go), and the
  small helpers of a node and of a learner that load and store logs and send to all peers.
\<close>

section \<open>The main loop\<close>

text \<open>
  \<open>mlCtx\<close> is the number of the current context, 0 before the first; the goroutines that run the loop read
  the field of the node in every round, so all of them see the current one.
\<close>

record MainLoop =
  mlRunning :: bool
  mlCtx :: nat
  mlCancelled :: "nat list"
  mlGoroutines :: nat

definition NewMainLoop :: MainLoop where
  "NewMainLoop = \<lparr>mlRunning = False, mlCtx = 0, mlCancelled = [], mlGoroutines = 0\<rparr>"

definition startMainLoop :: "MainLoop \<Rightarrow> MainLoop" where
  "startMainLoop m = (if mlRunning m then m
     else m\<lparr>mlRunning := True, mlCtx := Suc (mlCtx m), mlGoroutines := Suc (mlGoroutines m)\<rparr>)"

definition stopMainLoop :: "MainLoop \<Rightarrow> MainLoop" where
  "stopMainLoop m = (if mlRunning m
     then m\<lparr>mlRunning := False, mlCancelled := (if mlCtx m \<noteq> 0 then mlCtx m # mlCancelled m else mlCancelled m)\<rparr>
     else m)"

definition rc_Close :: "MainLoop \<Rightarrow> MainLoop" where
  "rc_Close m = stopMainLoop m"

text \<open>A round of one of the goroutines: it ends, or handles the timers and sleeps.\<close>

definition main_loop_round :: "int \<Rightarrow> MainLoop \<Rightarrow> 'd RaftCore \<Rightarrow> MainLoop \<times> 'd RaftCore \<times> raft_out list" where
  "main_loop_round now m rc = (if mlCtx m \<in> set (mlCancelled m) then (m\<lparr>mlGoroutines := mlGoroutines m - 1\<rparr>, rc, [])
     else (m, processTimers now rc))"

text \<open>What can happen: the loop is started once, by the constructor; it may be closed, and goroutines make rounds.\<close>

inductive loop_run :: "MainLoop \<Rightarrow> 'd RaftCore \<Rightarrow> bool" where
  run_new: "loop_run (startMainLoop NewMainLoop) rc"
| run_close: "loop_run m rc \<Longrightarrow> loop_run (rc_Close m) rc"
| run_round: "loop_run m rc \<Longrightarrow> 0 < mlGoroutines m \<Longrightarrow> main_loop_round now m rc = (m1, rc1, os) \<Longrightarrow> loop_run m1 rc1"

inductive_cases run_roundE: "loop_run m rc"

text \<open>
  At most one goroutine runs, and it runs as long as the node has not been closed; after that its next
  round is its last, and the timers are not looked at again.
\<close>

lemma one_main_loop:
  assumes "loop_run m rc"
  shows "mlCtx m = 1 \<and> mlGoroutines m \<le> 1 \<and> (mlRunning m \<longleftrightarrow> mlCancelled m = []) \<and>
    (mlRunning m \<longrightarrow> mlGoroutines m = 1) \<and> set (mlCancelled m) \<subseteq> {1}"
  using assms
proof (induction rule: loop_run.induct)
  case (run_round m rc now m1 rc1 os)
  then show ?case by (cases "mlCancelled m") (auto simp: main_loop_round_def split: if_splits)
qed (auto simp: startMainLoop_def NewMainLoop_def rc_Close_def stopMainLoop_def)

lemma closed_loop_ends:
  assumes "loop_run m rc"
  shows "main_loop_round now (rc_Close m) rc = ((rc_Close m)\<lparr>mlGoroutines := 0\<rparr>, rc, [])"
proof -
  note inv = one_main_loop [OF assms]
  then have "1 \<in> set (mlCancelled (rc_Close m))"
    by (cases "mlCancelled m") (auto simp: rc_Close_def stopMainLoop_def)
  with inv show ?thesis by (auto simp: main_loop_round_def rc_Close_def stopMainLoop_def)
qed

text \<open>
  A node that were started again before the goroutine wakes up would have two of them from then on: the
  old one finds the new context, which is not cancelled.
\<close>

lemma restart_doubles_loop:
  assumes "loop_run m rc" and "mlRunning m"
  shows "mlGoroutines (startMainLoop (rc_Close m)) = 2 \<and>
    main_loop_round now (startMainLoop (rc_Close m)) rc = (startMainLoop (rc_Close m), processTimers now rc)"
  using one_main_loop [OF assms(1)] assms(2)
  by (auto simp: startMainLoop_def rc_Close_def stopMainLoop_def main_loop_round_def)

section \<open>Helpers\<close>

definition getAllPeers :: "'d RaftCore \<Rightarrow> string list" where
  "getAllPeers rc = Peers rc"

definition sendToAll :: "RaftPayload \<Rightarrow> 'd RaftCore \<Rightarrow> raft_out list" where
  "sendToAll content rc = map (\<lambda>peer. Send peer content) (filter (\<lambda>peer. peer \<noteq> ID rc) (Peers rc))"

text \<open>The storage reports no error: without a database it has no entries.\<close>

definition rc_LoadLogs :: "'d leveldb \<Rightarrow> 'd RaftCore \<Rightarrow> 'd RaftCore" where
  "rc_LoadLogs L rc = rc\<lparr>Log := LoadLogs L (rcGroup rc) (store rc)\<rparr>"

definition lc_LoadLogs :: "'d leveldb \<Rightarrow> 'd RaftLearner \<Rightarrow> 'd RaftLearner" where
  "lc_LoadLogs L lc = lc\<lparr>lcLog := LoadLogs L (lcGroup lc) (lcStorage lc)\<rparr>"

definition lc_persistLog :: "'d leveldb \<Rightarrow> 'd RaftLearner \<Rightarrow> 'd RaftLearner" where
  "lc_persistLog L lc = (if lcLog lc = [] then lc
     else lc\<lparr>lcStorage := SaveLog L (lcGroup lc) (last (lcLog lc)) (lcStorage lc)\<rparr>)"

text \<open>What a node has stored under its group is what it has after loading: loading twice is loading once.\<close>

lemma LoadLogs_idempotent: "rc_LoadLogs L (rc_LoadLogs L rc) = rc_LoadLogs L rc"
  by (simp add: rc_LoadLogs_def)

end
