(* ===== verification/Elect_Duty.thy ===== *)
theory Elect_Duty
  imports Elect
begin

text \<open>
  What the election of core/Elect.go guarantees: a timed model of a group (one candidate on duty, the
  others listening, heartbeats that take time to arrive), in which nobody else goes on duty while
  deliveries are fast enough; the window in which a candidate takes over when the heartbeats stop;
  and the life cycle of a candidate.
\<close>

section \<open>One step of a candidate\<close>

lemma sdiv_nonneg: "0 \<le> (b::int) \<Longrightarrow> b sdiv 5 = b div 5"
  by (cases "b = 0") (simp_all add: signed_divide_int_def)

lemma Int63n_pos: "0 < b \<Longrightarrow> Int63n r b = Some (r mod b)"
  by (simp add: Int63n_def)

text \<open>Times and timeouts far from the overflow of \<open>int64\<close>.\<close>

definition ec_ok :: "ElectCandidate \<Rightarrow> bool" where
  "ec_ok ec \<longleftrightarrow> 0 < BaseOvertimeT ec \<and> BaseOvertimeT ec \<le> 2 ^ 40"

abbreviation clock_ok :: "int \<Rightarrow> bool" where
  "clock_ok t \<equiv> 0 \<le> t \<and> t < 2 ^ 62"

lemma i64_wait:
  assumes "clock_ok t" and "0 < b" and "b \<le> 2 ^ 40"
  shows "i64 (t + b + r mod b) = t + b + r mod b"
proof -
  define x where "x = r mod b"
  have "0 \<le> x" and "x < b" using assms by (simp_all add: x_def)
  with assms have "i64 (t + b + x) = t + b + x" by (intro i64_id) simp_all
  then show ?thesis by (simp add: x_def)
qed

lemma i64_next:
  assumes "clock_ok t" and "0 < b" and "b \<le> 2 ^ 40"
  shows "i64 (t + b sdiv 5) = t + b div 5"
proof -
  have "0 \<le> b div 5" and "b div 5 \<le> b" using assms by simp_all
  then show ?thesis using assms by (simp add: sdiv_nonneg)
qed

lemma sendHeartbeat_fields [simp]:
  "elect_sendHeartbeat marshal ord now ec n = (ec', n', os) \<Longrightarrow>
     ec' = ec\<lparr>heartbeatCount := i64 (heartbeatCount ec + 1)\<rparr>"
  by (auto simp: elect_sendHeartbeat_def split: prod.splits)

lemma i64_suc_neq: "i64 (x + 1) \<noteq> x"
proof
  assume e: "i64 (x + 1) = x"
  have "i64 (x + 1) mod 2 ^ 64 = (x + 1) mod 2 ^ 64"
    by (simp add: i64_def mod_diff_left_eq add.commute)
  with e have "x mod 2 ^ 64 = (x + 1) mod 2 ^ 64" by simp
  then have "(2 ^ 64 :: int) dvd (x + 1) - x" by (metis mod_eq_dvd_iff)
  then show False by simp
qed

text \<open>A candidate on duty stays on duty; a tick sends a heartbeat exactly when one is due.\<close>

lemma duty_tick:
  assumes ok: "ec_ok ec" and c: "clock_ok now" and d: "ecState ec = ElectDuty"
  obtains ec' n' os where "processState marshal ord r1 r2 now ec n = Some (ec', n', os)"
    and "ecState ec' = ElectDuty" and "ecID ec' = ecID ec" and "GroupName ec' = GroupName ec"
    and "BaseOvertimeT ec' = BaseOvertimeT ec"
    and "heartbeatCount ec' \<noteq> heartbeatCount ec \<longleftrightarrow> ecHeartbeatTime ec \<le> now"
    and "ecHeartbeatTime ec' = (if ecHeartbeatTime ec \<le> now then now + BaseOvertimeT ec div 5 else ecHeartbeatTime ec)"
proof -
  have b: "0 < BaseOvertimeT ec" "BaseOvertimeT ec \<le> 2 ^ 40" using ok by (simp_all add: ec_ok_def)
  obtain ec1 n1 os1 where h: "elect_sendHeartbeat marshal ord now ec n = (ec1, n1, os1)" by (metis prod_cases3)
  show ?thesis
    by (rule that [of "fst (the (processState marshal ord r1 r2 now ec n))"
          "fst (snd (the (processState marshal ord r1 r2 now ec n)))"
          "snd (snd (the (processState marshal ord r1 r2 now ec n)))"])
      (simp_all add: processState_def processDutyState_def d h sendHeartbeat_fields [OF h] Int63n_pos [OF b(1)]
        i64_next [OF c b] i64_suc_neq)
qed

lemma busy_tick:
  assumes ok: "ec_ok ec" and c: "clock_ok now" and d: "ecState ec = ElectBusy"
  shows "\<exists>ec'. processState marshal ord r1 r2 now ec n = Some (ec', n, []) \<and>
    ecID ec' = ecID ec \<and> GroupName ec' = GroupName ec \<and> BaseOvertimeT ec' = BaseOvertimeT ec \<and>
    (if waitStandbyTime ec \<le> now
     then ecState ec' = ElectStandby \<and> waitDutyTime ec' = now + BaseOvertimeT ec + r1 mod BaseOvertimeT ec
     else ec' = ec)"
proof -
  have b: "0 < BaseOvertimeT ec" "BaseOvertimeT ec \<le> 2 ^ 40" using ok by (simp_all add: ec_ok_def)
  show ?thesis
    by (simp add: processState_def processBusyState_def d Int63n_pos [OF b(1)] i64_wait [OF c b])
qed

lemma standby_waits:
  assumes "ecState ec = ElectStandby" and "now < waitDutyTime ec"
  shows "processState marshal ord r1 r2 now ec n = Some (ec, n, [])"
  using assms by (simp add: processState_def processStandbyState_def)

lemma standby_takes_over:
  assumes ok: "ec_ok ec" and c: "clock_ok now" and d: "ecState ec = ElectStandby" and w: "waitDutyTime ec \<le> now"
  obtains ec' n' os where "processState marshal ord r1 r2 now ec n = Some (ec', n', os)"
    and "ecState ec' = ElectDuty" and "ecID ec' = ecID ec" and "GroupName ec' = GroupName ec"
    and "BaseOvertimeT ec' = BaseOvertimeT ec" and "ecHeartbeatTime ec' = now + BaseOvertimeT ec div 5"
    and "heartbeatCount ec' = i64 (heartbeatCount ec + 1)"
    and "(n', os) = publishOnTopic ord (getHeartbeatTopic ec) (marshal (elect_object ec now)) n"
proof -
  have b: "0 < BaseOvertimeT ec" "BaseOvertimeT ec \<le> 2 ^ 40" using ok by (simp_all add: ec_ok_def)
  obtain n1 os1 where p: "publishOnTopic ord (getHeartbeatTopic ec) (marshal (elect_object ec now)) n = (n1, os1)"
    by fastforce
  show ?thesis
    by (rule that [of "fst (the (processState marshal ord r1 r2 now ec n))"
          "fst (snd (the (processState marshal ord r1 r2 now ec n)))"
          "snd (snd (the (processState marshal ord r1 r2 now ec n)))"])
      (simp_all add: processState_def processStandbyState_def d w Int63n_pos [OF b(1)] elect_sendHeartbeat_def
        getHeartbeatTopic_def [abs_def] elect_object_def [abs_def] p [unfolded getHeartbeatTopic_def elect_object_def]
        i64_next [OF c b])
qed

lemma standby_hears:
  assumes ok: "ec_ok ec" and c: "clock_ok now" and d: "ecState ec = ElectStandby"
    and "from1 \<noteq> ecID ec" and "same_group unmarshal content ec"
  shows "onHeartbeat unmarshal r now from1 content ec =
    Some (ec\<lparr>waitDutyTime := now + BaseOvertimeT ec + r mod BaseOvertimeT ec\<rparr>)"
proof -
  have b: "0 < BaseOvertimeT ec" "BaseOvertimeT ec \<le> 2 ^ 40" using ok by (simp_all add: ec_ok_def)
  show ?thesis using assms(3-5)
    by (simp add: onHeartbeat_def Int63n_pos [OF b(1)] i64_wait [OF c b])
qed

section \<open>A group in time\<close>

text \<open>
  One candidate has just gone on duty (\<open>lead\<close>); the others of the group are \<open>rest\<close>. A heartbeat that
  is published is in flight to every other member until it is delivered. Time passes as long as no
  tick of the duty candidate is overdue (\<open>P\<close>: the loop sleeps 100 ms between ticks) and no heartbeat in
  flight is older than \<open>D\<close>; the others may tick at any time.
\<close>

record 'd duty_group =
  gClock :: int
  lead :: ElectCandidate
  leadNode :: "'d Node"
  lastTick :: int
  rest :: "string \<Rightarrow> (ElectCandidate \<times> 'd Node) option"
  flight :: "(string \<times> int \<times> string) list"

inductive duty_step ::
  "(params \<Rightarrow> string) \<Rightarrow> (string \<Rightarrow> params option) \<Rightarrow> group_order \<Rightarrow> string list \<Rightarrow> int \<Rightarrow> int \<Rightarrow>
     'd duty_group \<Rightarrow> 'd duty_group \<Rightarrow> bool"
  for marshal unmarshal ord members P D where
  pass: "0 \<le> d \<Longrightarrow> gClock s + d \<le> lastTick s + P \<Longrightarrow> gClock s + d < 2 ^ 62 \<Longrightarrow>
    \<forall>(i, t, c) \<in> set (flight s). gClock s + d \<le> t + D \<Longrightarrow>
    duty_step marshal unmarshal ord members P D s (s\<lparr>gClock := gClock s + d\<rparr>)"
| lead_tick: "processState marshal ord r1 r2 (gClock s) (lead s) (leadNode s) = Some (ec, n, os) \<Longrightarrow>
    duty_step marshal unmarshal ord members P D s (s\<lparr>lead := ec, leadNode := n, lastTick := gClock s,
      flight := flight s @ (if heartbeatCount ec \<noteq> heartbeatCount (lead s)
        then map (\<lambda>i. (i, gClock s, marshal (elect_object (lead s) (gClock s)))) members else [])\<rparr>)"
| rest_tick: "rest s i = Some (ec0, n0) \<Longrightarrow>
    processState marshal ord r1 r2 (gClock s) ec0 n0 = Some (ec, n, os) \<Longrightarrow>
    duty_step marshal unmarshal ord members P D s (s\<lparr>rest := (rest s)(i \<mapsto> (ec, n))\<rparr>)"
| deliver: "flight s = xs @ (i, t, c) # ys \<Longrightarrow> rest s i = Some (ec0, n0) \<Longrightarrow>
    onHeartbeat unmarshal r (gClock s) (ecID (lead s)) c ec0 = Some ec \<Longrightarrow>
    duty_step marshal unmarshal ord members P D s (s\<lparr>rest := (rest s)(i \<mapsto> (ec, n0)), flight := xs @ ys\<rparr>)"

text \<open>
  The start: a tick has put a candidate on duty, which has published its first heartbeat; every other
  member is busy, or stands by and does not time out before that heartbeat can arrive.
\<close>

definition duty_start ::
  "(params \<Rightarrow> string) \<Rightarrow> group_order \<Rightarrow> string list \<Rightarrow> int \<Rightarrow> ElectCandidate \<Rightarrow> 'd duty_group \<Rightarrow> bool" where
  "duty_start marshal ord members D ec0 s \<longleftrightarrow>
     ecState ec0 = ElectStandby \<and> waitDutyTime ec0 \<le> gClock s \<and> ec_ok ec0 \<and> clock_ok (gClock s) \<and>
     (\<exists>r1 r2 n0 os. processState marshal ord r1 r2 (gClock s) ec0 n0 = Some (lead s, leadNode s, os)) \<and>
     lastTick s = gClock s \<and>
     flight s = map (\<lambda>i. (i, gClock s, marshal (elect_object ec0 (gClock s)))) members \<and>
     (\<forall>i ec n. rest s i = Some (ec, n) \<longrightarrow> i \<in> set members \<and> ecID ec = i \<and> i \<noteq> ecID ec0 \<and>
        GroupName ec = GroupName ec0 \<and> BaseOvertimeT ec = BaseOvertimeT ec0 \<and>
        (ecState ec = ElectBusy \<or> ecState ec = ElectStandby \<and> gClock s + D < waitDutyTime ec))"

inductive duty_reach ::
  "(params \<Rightarrow> string) \<Rightarrow> (string \<Rightarrow> params option) \<Rightarrow> group_order \<Rightarrow> string list \<Rightarrow> int \<Rightarrow> int \<Rightarrow> ElectCandidate \<Rightarrow>
     'd duty_group \<Rightarrow> bool"
  for marshal unmarshal ord members P D ec0 where
  start: "duty_start marshal ord members D ec0 s \<Longrightarrow> duty_reach marshal unmarshal ord members P D ec0 s"
| step: "duty_reach marshal unmarshal ord members P D ec0 s \<Longrightarrow>
    duty_step marshal unmarshal ord members P D s s' \<Longrightarrow> duty_reach marshal unmarshal ord members P D ec0 s'"

text \<open>What a listener has left: a heartbeat that reaches it in time, or time until the next one.\<close>

definition heard :: "int \<Rightarrow> int \<Rightarrow> 'd duty_group \<Rightarrow> string \<Rightarrow> ElectCandidate \<Rightarrow> bool" where
  "heard P D s i ec \<longleftrightarrow> (\<exists>t c. (i, t, c) \<in> set (flight s) \<and> t + D < waitDutyTime ec) \<or>
     ecHeartbeatTime (lead s) + P + D < waitDutyTime ec"

definition listener_ok :: "int \<Rightarrow> int \<Rightarrow> ElectCandidate \<Rightarrow> string list \<Rightarrow> 'd duty_group \<Rightarrow> string \<Rightarrow> ElectCandidate \<Rightarrow> bool" where
  "listener_ok P D ec0 members s i ec \<longleftrightarrow> i \<in> set members \<and> ecID ec = i \<and> i \<noteq> ecID ec0 \<and>
     GroupName ec = GroupName ec0 \<and> BaseOvertimeT ec = BaseOvertimeT ec0 \<and>
     (ecState ec = ElectBusy \<or> ecState ec = ElectStandby \<and> heard P D s i ec)"

definition duty_inv ::
  "(string \<Rightarrow> params option) \<Rightarrow> int \<Rightarrow> int \<Rightarrow> ElectCandidate \<Rightarrow> string list \<Rightarrow> 'd duty_group \<Rightarrow> bool" where
  "duty_inv unmarshal P D ec0 members s \<longleftrightarrow>
     clock_ok (gClock s) \<and> ecState (lead s) = ElectDuty \<and> ecID (lead s) = ecID ec0 \<and>
     GroupName (lead s) = GroupName ec0 \<and> BaseOvertimeT (lead s) = BaseOvertimeT ec0 \<and>
     lastTick s \<le> gClock s \<and> gClock s \<le> lastTick s + P \<and> lastTick s \<le> ecHeartbeatTime (lead s) \<and>
     ecHeartbeatTime (lead s) \<le> gClock s + BaseOvertimeT ec0 div 5 \<and>
     (\<forall>(i, t, c) \<in> set (flight s). t \<le> gClock s \<and> gClock s \<le> t + D \<and>
        (\<forall>ec. GroupName ec = GroupName ec0 \<longrightarrow> same_group unmarshal c ec)) \<and>
     (\<forall>i ec n. rest s i = Some (ec, n) \<longrightarrow> listener_ok P D ec0 members s i ec)"

definition object_codec :: "(params \<Rightarrow> string) \<Rightarrow> (string \<Rightarrow> params option) \<Rightarrow> bool" where
  "object_codec marshal unmarshal \<longleftrightarrow> (\<forall>ec t. \<exists>m. unmarshal (marshal (elect_object ec t)) = Some m \<and>
     map_of m ''group'' = Some (GStr (GroupName ec)))"

lemma object_codec_same_group:
  assumes "object_codec marshal unmarshal" and "GroupName ec = GroupName ec1"
  shows "same_group unmarshal (marshal (elect_object ec1 t)) ec"
proof -
  obtain m where "unmarshal (marshal (elect_object ec1 t)) = Some m" "map_of m ''group'' = Some (GStr (GroupName ec1))"
    using assms(1) unfolding object_codec_def by metis
  then show ?thesis using assms(2) by (simp add: same_group_def)
qed

section \<open>Nobody else goes on duty\<close>

definition fast_enough :: "int \<Rightarrow> int \<Rightarrow> ElectCandidate \<Rightarrow> bool" where
  "fast_enough P D ec0 \<longleftrightarrow> 0 \<le> P \<and> 0 \<le> D \<and> BaseOvertimeT ec0 div 5 + P + D < BaseOvertimeT ec0"

lemma duty_start_inv:
  assumes "duty_start marshal ord members D ec0 s" and "object_codec marshal unmarshal" and "fast_enough P D ec0"
  shows "duty_inv unmarshal P D ec0 members s"
proof -
  have a: "ecState ec0 = ElectStandby" "waitDutyTime ec0 \<le> gClock s" "ec_ok ec0" "clock_ok (gClock s)"
    "lastTick s = gClock s"
    "flight s = map (\<lambda>i. (i, gClock s, marshal (elect_object ec0 (gClock s)))) members"
    and r: "\<And>i ec n. rest s i = Some (ec, n) \<Longrightarrow> i \<in> set members \<and> ecID ec = i \<and> i \<noteq> ecID ec0 \<and>
        GroupName ec = GroupName ec0 \<and> BaseOvertimeT ec = BaseOvertimeT ec0 \<and>
        (ecState ec = ElectBusy \<or> ecState ec = ElectStandby \<and> gClock s + D < waitDutyTime ec)"
    using assms(1) unfolding duty_start_def by blast+
  obtain r1 r2 n0 os where p: "processState marshal ord r1 r2 (gClock s) ec0 n0 = Some (lead s, leadNode s, os)"
    using assms(1) by (auto simp: duty_start_def)
  have l: "ecState (lead s) = ElectDuty" "ecID (lead s) = ecID ec0" "GroupName (lead s) = GroupName ec0"
    "BaseOvertimeT (lead s) = BaseOvertimeT ec0" "ecHeartbeatTime (lead s) = gClock s + BaseOvertimeT ec0 div 5"
    using standby_takes_over [OF a(3,4,1,2), of marshal ord r1 r2 n0] p by (metis option.inject prod.inject)+
  have b: "0 \<le> BaseOvertimeT ec0 div 5" using a(3) by (simp add: ec_ok_def pos_imp_zdiv_nonneg_iff)
  have "listener_ok P D ec0 members s i ec" if "rest s i = Some (ec, n)" for i ec n
    using r [OF that] by (auto simp: listener_ok_def heard_def a(6))
  moreover have "t \<le> gClock s \<and> gClock s \<le> t + D \<and> (\<forall>ec. GroupName ec = GroupName ec0 \<longrightarrow> same_group unmarshal c ec)"
    if "(i, t, c) \<in> set (flight s)" for i t c
    using that assms(3) object_codec_same_group [OF assms(2)] by (auto simp: a(6) fast_enough_def)
  ultimately show ?thesis
    using assms(3) b a(4,5) l by (auto simp: duty_inv_def fast_enough_def)
qed

lemma duty_step_inv:
  assumes inv: "duty_inv unmarshal P D ec0 members s" and st: "duty_step marshal unmarshal ord members P D s s'"
    and codec: "object_codec marshal unmarshal" and fast: "fast_enough P D ec0" and ok: "ec_ok ec0"
  shows "duty_inv unmarshal P D ec0 members s'"
proof -
  have c: "clock_ok (gClock s)" and ld: "ecState (lead s) = ElectDuty" "ecID (lead s) = ecID ec0"
    "GroupName (lead s) = GroupName ec0" "BaseOvertimeT (lead s) = BaseOvertimeT ec0"
    and tm: "lastTick s \<le> gClock s" "gClock s \<le> lastTick s + P" "lastTick s \<le> ecHeartbeatTime (lead s)"
      "ecHeartbeatTime (lead s) \<le> gClock s + BaseOvertimeT ec0 div 5"
    using inv by (simp_all add: duty_inv_def)
  have fl: "t \<le> gClock s" "gClock s \<le> t + D" "GroupName ec = GroupName ec0 \<Longrightarrow> same_group unmarshal cc ec"
    if "(i, t, cc) \<in> set (flight s)" for i t cc ec
    using inv that by (auto simp: duty_inv_def)
  have ls: "listener_ok P D ec0 members s i ec" if "rest s i = Some (ec, n)" for i ec n
    using inv that unfolding duty_inv_def by blast
  have lok: "ec_ok (lead s)" using ok ld by (simp add: ec_ok_def)
  have b: "0 \<le> BaseOvertimeT ec0 div 5" using ok by (simp add: ec_ok_def pos_imp_zdiv_nonneg_iff)
  have pd: "0 \<le> P" "0 \<le> D" "BaseOvertimeT ec0 div 5 + P + D < BaseOvertimeT ec0"
    using fast by (simp_all add: fast_enough_def)
  have mod: "0 \<le> r mod BaseOvertimeT ec0" for r using ok by (simp add: ec_ok_def)
  from st show ?thesis
  proof cases
    case (pass d)
    have "listener_ok P D ec0 members s' i ec" if "rest s' i = Some (ec, n)" for i ec n
      using ls [of i ec n] that by (simp add: pass(1) listener_ok_def heard_def)
    moreover have "\<forall>(i, t, cc) \<in> set (flight s). t \<le> gClock s + d \<and> gClock s + d \<le> t + D \<and>
        (\<forall>ec. GroupName ec = GroupName ec0 \<longrightarrow> same_group unmarshal cc ec)"
      using pass(2,5) fl by fastforce
    ultimately show ?thesis
      using c ld tm pass by (simp add: duty_inv_def)
  next
    case (lead_tick r1 r2 ec n os)
    let ?send = "ecHeartbeatTime (lead s) \<le> gClock s"
    have e: "ecState ec = ElectDuty" "ecID ec = ecID ec0" "GroupName ec = GroupName ec0"
      "BaseOvertimeT ec = BaseOvertimeT ec0" "heartbeatCount ec \<noteq> heartbeatCount (lead s) \<longleftrightarrow> ?send"
      "ecHeartbeatTime ec = (if ?send then gClock s + BaseOvertimeT ec0 div 5 else ecHeartbeatTime (lead s))"
      using duty_tick [OF lok c ld(1), of marshal ord r1 r2 "leadNode s"] lead_tick(2) ld
      by (metis option.inject prod.inject)+
    let ?new = "if ?send then map (\<lambda>i. (i, gClock s, marshal (elect_object (lead s) (gClock s)))) members else []"
    have s': "s' = s\<lparr>lead := ec, leadNode := n, lastTick := gClock s, flight := flight s @ ?new\<rparr>"
      using lead_tick(1) by (simp only: e(5))
    have "listener_ok P D ec0 members s' i c1" if "rest s' i = Some (c1, n1)" for i c1 n1
    proof -
      have l: "listener_ok P D ec0 members s i c1" using ls [of i c1 n1] that by (simp add: s')
      have "heard P D s' i c1" if "heard P D s i c1"
        using that unfolding heard_def
      proof
        assume "\<exists>t c. (i, t, c) \<in> set (flight s) \<and> t + D < waitDutyTime c1"
        then show "(\<exists>t c. (i, t, c) \<in> set (flight s') \<and> t + D < waitDutyTime c1) \<or>
            ecHeartbeatTime (lead s') + P + D < waitDutyTime c1" by (auto simp: s')
      next
        assume w: "ecHeartbeatTime (lead s) + P + D < waitDutyTime c1"
        have "(i, gClock s, marshal (elect_object (lead s) (gClock s))) \<in> set (flight s')" if "?send"
          using that l by (auto simp: s' listener_ok_def)
        moreover have "gClock s + D < waitDutyTime c1" using w tm pd by simp
        ultimately show "(\<exists>t c. (i, t, c) \<in> set (flight s') \<and> t + D < waitDutyTime c1) \<or>
            ecHeartbeatTime (lead s') + P + D < waitDutyTime c1"
          using w e(6) by (cases ?send) (auto simp: s')
      qed
      with l show ?thesis by (auto simp: listener_ok_def)
    qed
    moreover have "\<forall>(i, t, cc) \<in> set (flight s @ ?new). t \<le> gClock s \<and> gClock s \<le> t + D \<and>
        (\<forall>ec. GroupName ec = GroupName ec0 \<longrightarrow> same_group unmarshal cc ec)"
      using fl pd object_codec_same_group [OF codec] ld(3) by auto
    ultimately show ?thesis
      using c e tm b pd by (auto simp: duty_inv_def s')
  next
    case (rest_tick i ec1 n1 r1 r2 ec n os)
    note l = ls [OF rest_tick(2), unfolded listener_ok_def]
    have eok: "ec_ok ec1" using l ok by (simp add: ec_ok_def)
    have "listener_ok P D ec0 members s i ec"
    proof (cases "ecState ec1 = ElectBusy")
      case True
      have e: "ecID ec = ecID ec1" "GroupName ec = GroupName ec1" "BaseOvertimeT ec = BaseOvertimeT ec1"
        "if waitStandbyTime ec1 \<le> gClock s
         then ecState ec = ElectStandby \<and> waitDutyTime ec = gClock s + BaseOvertimeT ec1 + r1 mod BaseOvertimeT ec1
         else ec = ec1"
        using busy_tick [OF eok c True, of marshal ord r1 r2 n1] rest_tick(3) by auto
      have "ecHeartbeatTime (lead s) + P + D < gClock s + BaseOvertimeT ec0 + r1 mod BaseOvertimeT ec0"
        using tm(4) pd mod [of r1] by linarith
      then have "ecState ec = ElectBusy \<or> ecState ec = ElectStandby \<and> heard P D s i ec"
        using e(4) True l by (auto simp: heard_def split: if_splits)
      with e(1-3) l show ?thesis by (simp add: listener_ok_def)
    next
      case False
      with l have sb: "ecState ec1 = ElectStandby" and h: "heard P D s i ec1" by auto
      have "gClock s < waitDutyTime ec1"
        using h tm pd fl by (fastforce simp: heard_def)
      with sb rest_tick(3) have "ec = ec1" by (simp add: standby_waits)
      with ls [OF rest_tick(2)] show ?thesis by simp
    qed
    then have "listener_ok P D ec0 members s' j c1" if "rest s' j = Some (c1, m)" for j c1 m
      using that ls [of j c1 m] by (auto simp: rest_tick(1) listener_ok_def heard_def split: if_splits)
    then show ?thesis using inv by (simp add: duty_inv_def rest_tick(1))
  next
    case (deliver xs i t cc ys ec1 n1 r ec)
    note l = ls [OF deliver(3), unfolded listener_ok_def]
    have eok: "ec_ok ec1" using l ok by (simp add: ec_ok_def)
    have sg: "same_group unmarshal cc ec1" using fl(3) [of i t cc ec1] l by (simp add: deliver(2))
    have "ecState ec = ElectBusy \<and> ec = ec1 \<or> ecState ec = ElectStandby \<and>
        ec = ec1\<lparr>waitDutyTime := gClock s + BaseOvertimeT ec0 + r mod BaseOvertimeT ec0\<rparr>"
    proof (cases "ecState ec1 = ElectBusy")
      case True with deliver(4) show ?thesis by (auto simp: onHeartbeat_def split: if_splits)
    next
      case False
      with l have sb: "ecState ec1 = ElectStandby" by auto
      have "ecID (lead s) \<noteq> ecID ec1" using l ld(2) by auto
      from standby_hears [OF eok c sb this sg] deliver(4) l sb show ?thesis by auto
    qed
    moreover have "ecHeartbeatTime (lead s) + P + D < gClock s + BaseOvertimeT ec0 + r mod BaseOvertimeT ec0"
      using tm(4) pd mod [of r] by linarith
    ultimately have "listener_ok P D ec0 members s' i ec"
      using l by (auto simp: listener_ok_def heard_def deliver(1))
    moreover have "listener_ok P D ec0 members s' j c1" if "rest s j = Some (c1, m)" "j \<noteq> i" for j c1 m
      using ls [OF that(1)] that(2) by (auto simp: listener_ok_def heard_def deliver(1,2))
    ultimately have "listener_ok P D ec0 members s' j c1" if "rest s' j = Some (c1, m)" for j c1 m
      using that by (auto simp: deliver(1) split: if_splits)
    then show ?thesis using inv by (auto simp: duty_inv_def deliver(1,2))
  qed
qed

section \<open>Properties\<close>


text \<open>Two nodes with the default timeout; the codec keeps the group of an object.\<close>

definition ex_marshal :: "params \<Rightarrow> string" where
  "ex_marshal ps = (case map_of ps ''group'' of Some (GStr g) \<Rightarrow> g | _ \<Rightarrow> [])"

definition ex_unmarshal :: "string \<Rightarrow> params option" where
  "ex_unmarshal s = Some [(''group'', GStr s)]"

definition ex_candidate :: "string \<Rightarrow> int \<Rightarrow> ElectCandidate" where
  "ex_candidate i w = (NewElectCandidate i \<lparr>cfgBaseOvertimeT = 0, cfgGroupName = ''g''\<rparr>)
     \<lparr>ecState := ElectStandby, waitDutyTime := w\<rparr>"

definition ex_taken :: "ElectCandidate \<times> unit Node \<times> net_out list" where
  "ex_taken = the (processState ex_marshal id 0 0 10000 (ex_candidate ''a'' 10000) (NewNode ''a''))"

definition ex_group :: "unit duty_group" where
  "ex_group = \<lparr>gClock = 10000, lead = fst ex_taken, leadNode = fst (snd ex_taken), lastTick = 10000,
     rest = [''b'' \<mapsto> (ex_candidate ''b'' 12000, NewNode ''b'')], flight = [(''b'', 10000, ''g'')]\<rparr>"

lemma ex_codec: "object_codec ex_marshal ex_unmarshal"
  by (simp add: object_codec_def ex_marshal_def ex_unmarshal_def elect_object_def)

lemma ex_group_start: "duty_start ex_marshal id [''b''] 1000 (ex_candidate ''a'' 10000) ex_group"
proof -
  let ?c = "ex_candidate ''a'' 10000"
  have 1: "ec_ok ?c" "ecState ?c = ElectStandby" "waitDutyTime ?c \<le> 10000"
    by (simp_all add: ex_candidate_def NewElectCandidate_def ec_ok_def BASE_OVERTIME_T_def)
  have c: "clock_ok 10000" by simp
  obtain e n os where p: "processState ex_marshal id 0 0 10000 ?c ((NewNode ''a'' :: unit Node)) = Some (e, n, os)"
    by (rule standby_takes_over [OF 1(1) c 1(2,3), of ex_marshal id 0 0 "NewNode ''a'' :: unit Node"]) (rule that)
  have "processState ex_marshal id 0 0 10000 ?c ((NewNode ''a'' :: unit Node)) = Some ex_taken"
    unfolding ex_taken_def p option.sel by (rule refl)
  then have 2: "\<exists>r1 r2 n0 os. processState ex_marshal id r1 r2 (gClock ex_group) ?c n0 =
      Some (lead ex_group, leadNode ex_group, os)"
    by (intro exI [of _ 0] exI [of _ "(NewNode ''a'' :: unit Node)"] exI [of _ "snd (snd ex_taken)"]) (simp add: ex_group_def)
  show ?thesis unfolding duty_start_def
    using 1 2
    by (simp add: ex_group_def ex_candidate_def NewElectCandidate_def BASE_OVERTIME_T_def ex_marshal_def elect_object_def)
qed


text \<open>A run of ticks of the main loop.\<close>

fun elect_ticks ::
  "(params \<Rightarrow> string) \<Rightarrow> group_order \<Rightarrow> (int \<times> int \<times> int) list \<Rightarrow> ElectCandidate \<Rightarrow> 'd Node \<Rightarrow>
     (ElectCandidate \<times> 'd Node) option" where
  "elect_ticks marshal ord [] ec n = Some (ec, n)"
| "elect_ticks marshal ord ((r1, r2, now) # ts) ec n =
     Option.bind (processState marshal ord r1 r2 now ec n) (\<lambda>(ec1, n1, _). elect_ticks marshal ord ts ec1 n1)"

lemma early_ticks:
  assumes "ecState ec = ElectStandby" and "\<forall>(_, _, t) \<in> set ts. t < waitDutyTime ec"
  shows "elect_ticks marshal ord ts ec n = Some (ec, n)"
  using assms(2)
proof (induction ts)
  case (Cons a ts)
  obtain r1 r2 t where "a = (r1, r2, t)" by (cases a)
  with Cons assms(1) show ?case by (simp add: standby_waits)
qed simp

lemma one_tick:
  assumes c: "clock_ok t" and ok: "ec_ok ec"
    and st: "ecState ec = ElectDuty \<or> ecState ec = ElectStandby \<and> waitDutyTime ec \<le> w"
  shows "\<exists>ec1 n1 os. processState marshal ord r1 r2 t ec n = Some (ec1, n1, os) \<and> ec_ok ec1 \<and>
      (ecState ec1 = ElectDuty \<or> ecState ec1 = ElectStandby \<and> waitDutyTime ec1 \<le> w) \<and>
      (w \<le> t \<longrightarrow> ecState ec1 = ElectDuty)"
proof (cases "ecState ec = ElectDuty")
  case True
  then show ?thesis
    using duty_tick [OF ok c True, of marshal ord r1 r2 n] ok by (metis ec_ok_def)
next
  case False
  with st have sb: "ecState ec = ElectStandby" and w: "waitDutyTime ec \<le> w" by auto
  show ?thesis
  proof (cases "waitDutyTime ec \<le> t")
    case True
    then show ?thesis
      using standby_takes_over [OF ok c sb True, of marshal ord r1 r2 n] ok by (metis ec_ok_def)
  next
    case False
    then have "processState marshal ord r1 r2 t ec n = Some (ec, n, [])"
      by (intro standby_waits [OF sb]) simp
    with False ok sb w show ?thesis
      by (intro exI [of _ ec] exI [of _ n] exI [of _ "[]"]) auto
  qed
qed

lemma late_tick:
  assumes "\<forall>(_, _, t) \<in> set ts. clock_ok t" and "clock_ok t" and "w \<le> t" and "ec_ok ec"
    and "ecState ec = ElectDuty \<or> ecState ec = ElectStandby \<and> waitDutyTime ec \<le> w"
  shows "\<exists>ec2 n2. elect_ticks marshal ord (ts @ [(r1, r2, t)]) ec n = Some (ec2, n2) \<and> ecState ec2 = ElectDuty"
  using assms
proof (induction ts arbitrary: ec n)
  case Nil
  with one_tick [of t ec w marshal ord r1 r2 n] show ?case by auto
next
  case (Cons a ts)
  obtain a1 a2 u where a: "a = (a1, a2, u)" by (cases a)
  with Cons.prems one_tick [of u ec w marshal ord a1 a2 n] obtain ec1 n1 os where
    "processState marshal ord a1 a2 u ec n = Some (ec1, n1, os)" "ec_ok ec1"
    "ecState ec1 = ElectDuty \<or> ecState ec1 = ElectStandby \<and> waitDutyTime ec1 \<le> w" by auto
  with Cons a show ?case by simp
qed

text \<open>
  A standing-by candidate that last heard a heartbeat at time \<open>h\<close> goes on duty in the window
  between one and two timeouts later: ticks before \<open>h\<close> plus the timeout leave it alone, a run of
  ticks that gets to \<open>h\<close> plus twice the timeout leaves it on duty, and the tick that puts it on duty
  publishes a heartbeat. A give-up message shortens the wait to half the timeout. But two candidates on
  duty that hear each other both step down, so that for a whole timeout nobody is on duty.
\<close>

theorem takeover_window:
  assumes ok: "ec_ok ec" and sb: "ecState ec = ElectStandby" and h: "clock_ok h"
    and "from1 \<noteq> ecID ec" and "same_group unmarshal c ec"
    and hb: "onHeartbeat unmarshal r h from1 c ec = Some ec1"
    and da: "ecState a = ElectDuty" "ec_ok a" "from1 \<noteq> ecID a" "same_group unmarshal c a"
  shows "(\<forall>ts n. (\<forall>(_, _, t) \<in> set ts. t < h + BaseOvertimeT ec) \<longrightarrow> elect_ticks marshal ord ts ec1 n = Some (ec1, n)) \<and>
    (\<forall>ts r1 r2 t n. (\<forall>(_, _, t) \<in> set ts. clock_ok t) \<and> clock_ok t \<and> h + 2 * BaseOvertimeT ec \<le> t \<longrightarrow>
       (\<exists>ec2 n2. elect_ticks marshal ord (ts @ [(r1, r2, t)]) ec1 n = Some (ec2, n2) \<and> IsDuty ec2)) \<and>
    (\<forall>r1 r2 t n. clock_ok t \<and> waitDutyTime ec1 \<le> t \<longrightarrow>
       (\<exists>ec2. processState marshal ord r1 r2 t ec1 n =
          Some (ec2, publishOnTopic ord (getHeartbeatTopic ec) (marshal (elect_object ec t)) n) \<and> IsDuty ec2)) \<and>
    waitDutyTime (onGiveUp unmarshal h from1 c ec) = h + BaseOvertimeT ec div 2 \<and>
    (\<exists>a1. onHeartbeat unmarshal r h from1 c a = Some a1 \<and> ecState a1 = ElectStandby \<and>
       h + BaseOvertimeT a \<le> waitDutyTime a1)"
proof (intro conjI allI impI)
  have b: "0 < BaseOvertimeT ec" "BaseOvertimeT ec \<le> 2 ^ 40" and ba: "0 < BaseOvertimeT a" "BaseOvertimeT a \<le> 2 ^ 40"
    using ok da(2) by (simp_all add: ec_ok_def)
  have e: "ec1 = ec\<lparr>waitDutyTime := h + BaseOvertimeT ec + r mod BaseOvertimeT ec\<rparr>"
    using standby_hears [OF ok h sb assms(4,5), of r] hb by simp
  have m: "0 \<le> r mod BaseOvertimeT ec" "r mod BaseOvertimeT ec < BaseOvertimeT ec" using b(1) by simp_all
  have s1: "ecState ec1 = ElectStandby" and ok1: "ec_ok ec1" using e sb ok by (simp_all add: ec_ok_def)
  have w1: "h + BaseOvertimeT ec \<le> waitDutyTime ec1" "waitDutyTime ec1 \<le> h + 2 * BaseOvertimeT ec"
    using e m by simp_all
  show "elect_ticks marshal ord ts ec1 n = Some (ec1, n)"
    if "\<forall>(_, _, t) \<in> set ts. t < h + BaseOvertimeT ec" for ts n
    using that w1(1) by (intro early_ticks [OF s1]) fastforce
  show "\<exists>ec2 n2. elect_ticks marshal ord (ts @ [(r1, r2, t)]) ec1 n = Some (ec2, n2) \<and> IsDuty ec2"
    if "(\<forall>(_, _, t) \<in> set ts. clock_ok t) \<and> clock_ok t \<and> h + 2 * BaseOvertimeT ec \<le> t" for ts r1 r2 t n
    unfolding IsDuty_def elect_GetState_def
    using that s1 ok1 w1(2) by (intro late_tick [where w = "h + 2 * BaseOvertimeT ec"]) auto
  show "\<exists>ec2. processState marshal ord r1 r2 t ec1 n =
      Some (ec2, publishOnTopic ord (getHeartbeatTopic ec) (marshal (elect_object ec t)) n) \<and> IsDuty ec2"
    if "clock_ok t \<and> waitDutyTime ec1 \<le> t" for r1 r2 t n
  proof -
    have "clock_ok t" and "waitDutyTime ec1 \<le> t" using that by simp_all
    from standby_takes_over [OF ok1 this(1) s1 this(2), of marshal ord r1 r2 n]
    obtain ec2 n2 os where "processState marshal ord r1 r2 t ec1 n = Some (ec2, n2, os)" "ecState ec2 = ElectDuty"
      "(n2, os) = publishOnTopic ord (getHeartbeatTopic ec1) (marshal (elect_object ec1 t)) n" by metis
    then show ?thesis
      by (simp add: IsDuty_def elect_GetState_def e getHeartbeatTopic_def elect_object_def)
  qed
  have "i64 (h + BaseOvertimeT ec sdiv 2) = h + BaseOvertimeT ec div 2"
  proof -
    define x where "x = BaseOvertimeT ec div 2"
    have "0 \<le> x" and "x \<le> BaseOvertimeT ec" using b by (simp_all add: x_def pos_imp_zdiv_nonneg_iff)
    with b h have "i64 (h + x) = h + x" by (intro i64_id) simp_all
    moreover have "BaseOvertimeT ec sdiv 2 = x" using b by (simp add: signed_divide_int_def x_def)
    ultimately show ?thesis by (simp add: x_def)
  qed
  then show "waitDutyTime (onGiveUp unmarshal h from1 c ec) = h + BaseOvertimeT ec div 2"
    using assms(4,5) sb by (simp add: onGiveUp_def)
  have "0 \<le> r mod BaseOvertimeT a" using ba by simp
  then show "\<exists>a1. onHeartbeat unmarshal r h from1 c a = Some a1 \<and> ecState a1 = ElectStandby \<and>
       h + BaseOvertimeT a \<le> waitDutyTime a1"
    using da by (simp add: onHeartbeat_def Int63n_pos [OF ba(1)] i64_wait [OF h ba])
qed

theorem takeover_window_witness:
  "waitDutyTime (onGiveUp ex_unmarshal 50000 ''a'' ''g'' (ex_candidate ''b'' 12000)) = 51500"
proof -
  let ?b = "ex_candidate ''b'' 12000"
  have 1: "ec_ok ?b" "ecState ?b = ElectStandby" "''a'' \<noteq> ecID ?b" "same_group ex_unmarshal ''g'' ?b"
    "ec_ok (?b\<lparr>ecState := ElectDuty\<rparr>)" "same_group ex_unmarshal ''g'' (?b\<lparr>ecState := ElectDuty\<rparr>)"
    "''a'' \<noteq> ecID (?b\<lparr>ecState := ElectDuty\<rparr>)"
    by (simp_all add: ex_candidate_def NewElectCandidate_def ec_ok_def BASE_OVERTIME_T_def same_group_def ex_unmarshal_def)
  have 2: "onHeartbeat ex_unmarshal 0 50000 ''a'' ''g'' ?b = Some (?b\<lparr>waitDutyTime := 50000 + BaseOvertimeT ?b + 0 mod BaseOvertimeT ?b\<rparr>)"
    by (rule standby_hears [OF 1(1) _ 1(2-4)]) simp
  have 3: "ecState (?b\<lparr>ecState := ElectDuty\<rparr>) = ElectDuty" by simp
  note d = takeover_window [OF 1(1,2) _ 1(3,4) 2 3 1(5,7,6), where marshal = ex_marshal and ord = id]
  have "waitDutyTime (onGiveUp ex_unmarshal 50000 ''a'' ''g'' ?b) = 50000 + BaseOvertimeT ?b div 2"
    by (rule conjunct1 [OF conjunct2 [OF conjunct2 [OF conjunct2 [OF d]]]]) simp
  then show ?thesis by (simp add: ex_candidate_def NewElectCandidate_def BASE_OVERTIME_T_def)
qed

text \<open>
  The life cycle of a candidate: a second \<open>Start\<close> of a running one is an error; \<open>Start\<close> subscribes
  the node to both topics of the group under the node's name. After \<open>Stop\<close> a new \<open>Start\<close> reports success,
  but its context stays cancelled: the main loop returns at once and the candidate can never go on
  duty. \<open>RemoveCandidate\<close> frees the name of the group for a new candidate, but cancels no subscription.
\<close>

theorem stopped_candidate_never_runs:
  assumes "running ec" and "map_of (candidates em) g = Some ec"
  shows "elect_Start hb gu ec n = Inl ''candidate already running'' \<and>
    (\<exists>ec1 n1 os. elect_Start hb gu (elect_Stop ec) n = Inr (ec1, n1, os) \<and> running ec1 \<and>
       mainLoop_tick marshal ord r1 r2 now ec1 n1 = Some (Inl ()) \<and>
       map_of (row_of (MySubs n1) (getHeartbeatTopic ec)) (ecID ec) = Some hb \<and>
       map_of (row_of (MySubs n1) (getGiveUpTopic ec)) (ecID ec) = Some gu) \<and>
    (\<exists>em1. RemoveCandidate g em = Inr (elect_Stop ec, em1) \<and> GetCandidate g em1 = None \<and>
       (\<forall>h. h \<noteq> g \<longrightarrow> GetCandidate h em1 = GetCandidate h em) \<and>
       (\<exists>c em2. CreateCandidate g cfg em1 = Inr (c, em2) \<and> GetCandidate g em2 = Some c \<and>
          CreateCandidate g cfg em2 = Inl (''candidate for group '' @ g @ '' already exists'')))"
proof (intro conjI)
  show "elect_Start hb gu ec n = Inl ''candidate already running''"
    using assms(1) by (simp add: elect_Start_def)
  have st: "elect_Stop ec = ec\<lparr>running := False, cancelled := True\<rparr>" using assms(1) by (simp add: elect_Stop_def)
  have sub: "map_of (row_of (MySubs (fst (addLocalSub t i cb m))) t') j =
      (if t' = t \<and> j = i then Some cb else map_of (row_of (MySubs m) t') j)" for t i cb t' j and m :: "'a Node"
    by (auto simp: addLocalSub_def row_of_def stamp_def addMessageCounter_def Let_def split: option.split)
  have ne: "getHeartbeatTopic ec \<noteq> getGiveUpTopic ec"
    by (simp add: getHeartbeatTopic_def getGiveUpTopic_def)
  obtain n1 os where s: "subscribeToElectionTopics hb gu (elect_Stop ec) n = (n1, os)" by fastforce
  then have "n1 = fst (addLocalSub (getGiveUpTopic ec) (ecID ec) gu
      (fst (addLocalSub (getHeartbeatTopic ec) (ecID ec) hb n)))"
    by (auto simp: subscribeToElectionTopics_def st getHeartbeatTopic_def getGiveUpTopic_def split: prod.splits)
  with s ne sub show "\<exists>ec1 n1 os. elect_Start hb gu (elect_Stop ec) n = Inr (ec1, n1, os) \<and> running ec1 \<and>
       mainLoop_tick marshal ord r1 r2 now ec1 n1 = Some (Inl ()) \<and>
       map_of (row_of (MySubs n1) (getHeartbeatTopic ec)) (ecID ec) = Some hb \<and>
       map_of (row_of (MySubs n1) (getGiveUpTopic ec)) (ecID ec) = Some gu"
    by (simp add: elect_Start_def st mainLoop_tick_def)
  show "\<exists>em1. RemoveCandidate g em = Inr (elect_Stop ec, em1) \<and> GetCandidate g em1 = None \<and>
       (\<forall>h. h \<noteq> g \<longrightarrow> GetCandidate h em1 = GetCandidate h em) \<and>
       (\<exists>c em2. CreateCandidate g cfg em1 = Inr (c, em2) \<and> GetCandidate g em2 = Some c \<and>
          CreateCandidate g cfg em2 = Inl (''candidate for group '' @ g @ '' already exists''))"
  proof -
    define em1 where "em1 = em\<lparr>candidates := AList.delete g (candidates em)\<rparr>"
    define c where "c = NewElectCandidate (emNodeID em1) (cfg\<lparr>cfgGroupName := g\<rparr>)"
    define em2 where "em2 = em1\<lparr>candidates := AList.update g c (candidates em1)\<rparr>"
    have 1: "RemoveCandidate g em = Inr (elect_Stop ec, em1)" "GetCandidate g em1 = None"
      "\<forall>h. h \<noteq> g \<longrightarrow> GetCandidate h em1 = GetCandidate h em"
      using assms(2) by (simp_all add: RemoveCandidate_def GetCandidate_def em1_def)
    have 2: "CreateCandidate g cfg em1 = Inr (c, em2)" "GetCandidate g em2 = Some c"
      "CreateCandidate g cfg em2 = Inl (''candidate for group '' @ g @ '' already exists'')"
      using 1(2) by (simp_all add: CreateCandidate_def GetCandidate_def em2_def c_def Let_def)
    from 1 2 show ?thesis by blast
  qed
qed

theorem stopped_candidate_never_runs_witness:
  "elect_Start 1 2 ((NewElectCandidate ''a'' \<lparr>cfgBaseOvertimeT = 0, cfgGroupName = ''g''\<rparr>)\<lparr>running := True\<rparr>)
     (NewNode ''a'' :: unit Node) = Inl ''candidate already running''"
proof -
  let ?c = "(NewElectCandidate ''a'' \<lparr>cfgBaseOvertimeT = 0, cfgGroupName = ''g''\<rparr>)\<lparr>running := True\<rparr>"
  have "running ?c" and "map_of (candidates \<lparr>emNodeID = ''a'', candidates = [(''g'', ?c)]\<rparr>) ''g'' = Some ?c"
    by simp_all
  from conjunct1 [OF stopped_candidate_never_runs [OF this, where n = "NewNode ''a'' :: unit Node"]]
  show ?thesis .
qed

end
