(* ===== verification/Raft_Node.thy ===== *)
theory Raft_Node
  imports Raft_Follower
begin

text \<open>
  One Raft node of core/Raft.go as a state machine: its events (messages, timer ticks, the goroutines
  the handlers start, client requests), one step per event, and the rules every step obeys for the
  term, the vote and what the database holds of them.
\<close>

section \<open>Events and steps\<close>

datatype raft_event =
    EvMessage string "raft_content option"
  | EvTick
  | EvElection
  | EvBroadcast
  | EvHeartbeat string int int
  | EvAppend string
  | EvInvoke string RaftPayload
  | EvRetry RaftRole nat string RaftPayload
  | EvInvokeDone int
  | EvClient RaftCommand

fun node_step ::
  "'d leveldb \<Rightarrow> (int list \<Rightarrow> nat) \<Rightarrow> int \<Rightarrow> int \<Rightarrow> raft_event \<Rightarrow> 'd RaftCore \<Rightarrow>
     ('d RaftCore \<times> raft_out list) option" where
  "node_step L pick now r (EvMessage from1 c) rc = onRaftMessage L pick now r from1 c rc"
| "node_step L pick now r EvTick rc = Some (processTimers now rc)"
| "node_step L pick now r EvElection rc = Some (startElection L now r rc)"
| "node_step L pick now r EvBroadcast rc = Some (rc, broadcastHeartbeat rc)"
| "node_step L pick now r (EvHeartbeat peer t ci) rc = Some (rc, [sendHeartbeat peer t ci rc])"
| "node_step L pick now r (EvAppend peer) rc = map_option (\<lambda>out. (rc, [out])) (sendAppendEntriesTo peer rc)"
| "node_step L pick now r (EvInvoke peer p) rc =
     (let (rc', os, _) = sendWithInvokeId_start peer p rc in Some (rc', os))"
| "node_step L pick now r (EvRetry role n peer p) rc = Some (rc, sendWithInvokeId_retry role n peer p rc)"
| "node_step L pick now r (EvInvokeDone i) rc = Some (sendWithInvokeId_finish i rc, [])"
| "node_step L pick now r (EvClient cmd) rc = Some (HandleClientRequest L cmd rc)"

section \<open>What the database holds of term and vote\<close>

definition durable :: "'d leveldb \<Rightarrow> 'd RaftCore \<Rightarrow> bool" where
  "durable L rc \<longleftrightarrow> db (store rc) \<noteq> None \<and>
     (\<exists>ci la err. LoadMeta L (rcGroup rc) (store rc) = Some (CurrentTerm rc, VotedFor rc, ci, la, err))"

definition small_term :: "int \<Rightarrow> bool" where
  "small_term t \<longleftrightarrow> 0 \<le> t \<and> t \<le> 2 ^ 53"

lemma LoadMeta_other:
  assumes "leveldb_ok L"
  shows "LoadMeta L g (SaveLog L g e s) = LoadMeta L g s"
    and "LoadMeta L g (PutState L g k x s) = LoadMeta L g s"
    and "LoadMeta L g (DeleteState L g k s) = LoadMeta L g s"
    and "LoadMeta L g (DeleteLogsFrom L g i s) = LoadMeta L g s"
proof -
  have 1: "db s = None \<Longrightarrow> SaveLog L g e s = s" "db s = None \<Longrightarrow> PutState L g k x s = s"
    "db s = None \<Longrightarrow> DeleteState L g k s = s"
    by (simp_all add: SaveLog_def PutState_def DeleteState_def)
  show "LoadMeta L g (SaveLog L g e s) = LoadMeta L g s"
    by (cases "db s = None") (auto simp: 1 st_get_SaveLog [OF assms] intro!: LoadMeta_frame simp del: not_None_eq)
  show "LoadMeta L g (PutState L g k x s) = LoadMeta L g s"
    by (cases "db s = None") (auto simp: 1 st_get_PutState [OF assms] intro!: LoadMeta_frame simp del: not_None_eq)
  show "LoadMeta L g (DeleteState L g k s) = LoadMeta L g s"
    by (cases "db s = None") (auto simp: 1 st_get_DeleteState [OF assms] intro!: LoadMeta_frame simp del: not_None_eq)
  show "LoadMeta L g (DeleteLogsFrom L g i s) = LoadMeta L g s"
    by (rule LoadMeta_frame) (simp_all add: DeleteLogsFrom_def st_get_scan_delete [OF assms])
qed

lemma durable_persist:
  assumes "leveldb_ok L" and "db (store rc) \<noteq> None" and "small_term (CurrentTerm rc)"
  shows "durable L (persistTermAndVote L rc)"
  using assms by (auto simp: durable_def persistTermAndVote_def LoadMeta_SaveMeta small_term_def)

text \<open>Steps that touch neither term nor vote nor the stored metadata keep durability.\<close>

lemma durable_cong:
  assumes "durable L rc" and "LoadMeta L (rcGroup rc) (store rc') = LoadMeta L (rcGroup rc) (store rc)"
    and "db (store rc') = None \<longleftrightarrow> db (store rc) = None" and "rcGroup rc' = rcGroup rc"
    and "CurrentTerm rc' = CurrentTerm rc" and "VotedFor rc' = VotedFor rc"
  shows "durable L rc'"
  using assms by (simp add: durable_def)

section \<open>How a step may change the vote state\<close>

definition same_vote :: "'d RaftCore \<Rightarrow> 'd RaftCore \<Rightarrow> bool" where
  "same_vote rc rc' \<longleftrightarrow> CurrentTerm rc' = CurrentTerm rc \<and> VotedFor rc' = VotedFor rc \<and>
     Role rc' = Role rc \<and> voteResult rc' = voteResult rc"

definition stepped_down :: "'d RaftCore \<Rightarrow> 'd RaftCore \<Rightarrow> bool" where
  "stepped_down rc rc' \<longleftrightarrow> CurrentTerm rc < CurrentTerm rc' \<and> VotedFor rc' = [] \<and> Role rc' = Follower"

definition same_node :: "'d RaftCore \<Rightarrow> 'd RaftCore \<Rightarrow> bool" where
  "same_node rc rc' \<longleftrightarrow> ID rc' = ID rc \<and> Peers rc' = Peers rc \<and> rcGroup rc' = rcGroup rc"

definition no_votes :: "raft_out list \<Rightarrow> bool" where
  "no_votes os \<longleftrightarrow> (\<forall>d p. Send d p \<in> set os \<longrightarrow> pType p \<noteq> RequestVoteResponse)"

lemma no_votes_simps [simp]:
  "no_votes []" "no_votes (Applied e # os) = no_votes os" "no_votes (xs @ ys) \<longleftrightarrow> no_votes xs \<and> no_votes ys"
  "no_votes (Send d p # os) \<longleftrightarrow> pType p \<noteq> RequestVoteResponse \<and> no_votes os"
  "no_votes (SpawnBroadcast # os) = no_votes os" "no_votes (SpawnAppend x # os) = no_votes os"
  "no_votes (SpawnElection # os) = no_votes os" "no_votes (SpawnInvoke x p # os) = no_votes os"
  "no_votes (SendForward x f # os) = no_votes os"
  "no_votes (map SpawnAppend ns)" "no_votes (map (\<lambda>x. SpawnInvoke x p) ns)"
  "no_votes (map (\<lambda>x. SpawnHeartbeat x t c) ns)"
  by (auto simp: no_votes_def)

lemmas vote_view = same_vote_def same_node_def

lemma apply_command_durable:
  assumes "leveldb_ok L" and "db (store rc) \<noteq> None"
  shows "db (store (apply_command L cmd rc)) \<noteq> None"
  using assms by (simp add: apply_command_def)

lemma applyLog_quiet:
  assumes "applyLogToStateMachine L rc = Some (rc', os)" and "leveldb_ok L" and "durable L rc"
    and "small_term (CurrentTerm rc)"
  shows "same_vote rc rc' \<and> same_node rc rc' \<and> no_votes os \<and> durable L rc'"
  using assms
proof (induction L rc arbitrary: os rule: applyLogToStateMachine.induct)
  case (1 L rc)
  show ?case
  proof (cases "LastApplied rc < CommitIndex rc")
    case False
    with "1.prems" show ?thesis by (auto simp: applyLogToStateMachine.simps [of L rc] vote_view)
  next
    case True
    with "1.prems" obtain rc1 e o2 where a: "apply_next L rc = Some (rc1, e)"
      and b: "applyLogToStateMachine L rc1 = Some (rc', o2)" and os: "os = Applied e # o2"
      by (auto simp: applyLogToStateMachine.simps [of L rc] split: option.splits)
    note f = apply_next_frame [OF a]
    have "durable L rc1"
    proof -
      from a obtain rc0 where rc1: "rc1 = persistTermAndVote L (apply_command L (Command e) rc0)"
        and rc0: "rc0 = rc\<lparr>LastApplied := LastApplied rc + 1\<rparr>"
        by (auto simp: apply_next_def Let_def split: bind_splits)
      have "db (store (apply_command L (Command e) rc0)) \<noteq> None"
        using "1.prems"(2,3) by (intro apply_command_durable) (simp_all add: rc0 durable_def)
      with "1.prems"(2,4) show ?thesis
        unfolding rc1 by (intro durable_persist) (simp_all add: rc0)
    qed
    with "1.IH" [OF True a refl b] "1.prems" f os show ?thesis by (auto simp: vote_view)
  qed
qed

text \<open>A calm step casts no vote: the vote state stays, or the node follows a higher term.\<close>

definition calm :: "'d leveldb \<Rightarrow> 'd RaftCore \<Rightarrow> 'd RaftCore \<Rightarrow> raft_out list \<Rightarrow> bool" where
  "calm L rc rc' os \<longleftrightarrow> (same_vote rc rc' \<or> stepped_down rc rc') \<and> same_node rc rc' \<and> no_votes os \<and>
     durable L rc'"

lemma calm_same: "durable L rc \<Longrightarrow> no_votes os \<Longrightarrow> calm L rc rc os"
  by (simp add: calm_def vote_view)

lemma calm_trans:
  assumes "calm L rc rc1 o1" and "same_vote rc1 rc2 \<and> same_node rc1 rc2 \<and> no_votes o2 \<and> durable L rc2"
  shows "calm L rc rc2 (o1 @ o2)"
  using assms by (auto simp: calm_def vote_view stepped_down_def)

text \<open>Updates of fields that the vote view does not show.\<close>

lemma durable_fields [simp]:
  "durable L (resetElectionTimer now r rc) = durable L rc" "durable L (resetHeartbeatTimer now rc) = durable L rc"
  "durable L (rc\<lparr>LeaderHint := h\<rparr>) = durable L rc" "durable L (rc\<lparr>Log := es\<rparr>) = durable L rc"
  "durable L (rc\<lparr>pending := ps\<rparr>) = durable L rc" "durable L (rc\<lparr>invokeCounter := i\<rparr>) = durable L rc"
  "durable L (rc\<lparr>MatchIndex := m\<rparr>) = durable L rc" "durable L (rc\<lparr>NextIndex := m\<rparr>) = durable L rc"
  "durable L (rc\<lparr>CommitIndex := c\<rparr>) = durable L rc" "durable L (rc\<lparr>Role := ro\<rparr>) = durable L rc"
  "durable L (rc\<lparr>voteResult := v\<rparr>) = durable L rc" "durable L (rc\<lparr>electionTimeout := c\<rparr>) = durable L rc"
  "durable L (rc\<lparr>heartbeatTimeout := c\<rparr>) = durable L rc"
  "durable L (rc\<lparr>Learners := ls\<rparr>) = durable L rc"
  by (simp_all add: durable_def resetElectionTimer_def resetHeartbeatTimer_def)

lemma down_switchToFollower:
  assumes "leveldb_ok L" and "db (store rc) \<noteq> None" and "CurrentTerm rc < t" and "small_term t"
  shows "calm L rc (switchToFollower L now r t rc) []"
  using assms durable_persist [OF assms(1), of "rc\<lparr>CurrentTerm := t, Role := Follower, VotedFor := []\<rparr>"]
  by (simp add: calm_def stepped_down_def same_node_def) (simp add: switchToFollower_def)

lemma append_loop_quiet:
  assumes "foldM (core_append L g) ents (es, st) = Some (es', st')" and "leveldb_ok L"
  shows "LoadMeta L g st' = LoadMeta L g st \<and> (db st' = None \<longleftrightarrow> db st = None)"
  using assms(1)
proof (induction ents arbitrary: es st)
  case (Cons y ys)
  then obtain e1 s1 where a: "core_append L g y (es, st) = Some (e1, s1)"
    and b: "foldM (core_append L g) ys (e1, s1) = Some (es', st')" by (auto split: bind_splits)
  from a have "LoadMeta L g s1 = LoadMeta L g st \<and> (db s1 = None \<longleftrightarrow> db st = None)"
    by (auto simp: core_append_def LoadMeta_other [OF assms(2)] split: bind_splits if_splits)
  with Cons.IH [OF b] show ?case by simp
qed simp

lemma advance_commit_to_quiet:
  assumes "advance_commit_to L c rc = Some (rc', os)" and "leveldb_ok L" and "durable L rc"
    and "small_term (CurrentTerm rc)"
  shows "same_vote rc rc' \<and> same_node rc rc' \<and> no_votes os \<and> durable L rc'"
proof (cases "CommitIndex rc < c")
  case False
  with assms show ?thesis by (auto simp: advance_commit_to_def vote_view)
next
  case True
  let ?rc = "rc\<lparr>CommitIndex := min c (int (length (Log rc)))\<rparr>"
  from True assms(1) obtain rc1 where a: "applyLogToStateMachine L ?rc = Some (rc1, os)"
    and rc': "rc' = persistTermAndVote L rc1" by (auto simp: advance_commit_to_def split: bind_splits)
  have q: "same_vote rc rc1 \<and> same_node rc rc1 \<and> no_votes os \<and> durable L rc1"
    using applyLog_quiet [OF a assms(2)] assms(3,4) by (simp add: vote_view)
  have "durable L (persistTermAndVote L rc1)"
    using q assms(4) by (intro durable_persist [OF assms(2)]) (simp_all add: vote_view durable_def)
  then show ?thesis using q by (simp add: rc' vote_view persistTermAndVote_def)
qed

lemma no_votes_reply [simp]: "no_votes [replyAppendEntries d s t c i rc]"
  by (simp add: replyAppendEntries_def)

lemma accept_quiet:
  assumes "appendEntries_accept L now r p rc = Some (rc', os)" and "leveldb_ok L" and "durable L rc"
    and "small_term (CurrentTerm rc)"
  shows "same_vote rc rc' \<and> same_node rc rc' \<and> no_votes os \<and> durable L rc'"
proof -
  from assms(1) obtain es st rc1 o1 where
    f: "foldM (core_append L (rcGroup rc)) (pEntries p) (Log rc, store rc) = Some (es, st)"
    and a: "advance_commit_to L (pLeaderCommit p) (rc\<lparr>Log := es, store := st\<rparr>) = Some (rc1, o1)"
    and rc': "rc' = resetElectionTimer now r rc1"
    and os: "os = o1 @ [replyAppendEntries (pLeaderId p) True 0 (fst (getLastLogIndex rc1)) (pInvokeId p) rc1]"
    by (auto simp: appendEntries_accept_def split: bind_splits)
  have "durable L (rc\<lparr>Log := es, store := st\<rparr>)"
    using append_loop_quiet [OF f assms(2)] assms(3) by (simp add: durable_def)
  from advance_commit_to_quiet [OF a assms(2) this] assms(4) show ?thesis
    by (simp add: rc' os vote_view)
qed

lemma handleAppendEntries_calm:
  assumes "handleAppendEntries L now r p rc = Some (rc', os)" and "leveldb_ok L" and "durable L rc"
    and "small_term (CurrentTerm rc)" and "pTerm p \<le> 2 ^ 53"
  shows "calm L rc rc' os"
proof (cases "pTerm p < CurrentTerm rc")
  case True
  with assms show ?thesis by (auto simp: handleAppendEntries_def intro: calm_same)
next
  case False
  let ?rc1 = "if CurrentTerm rc < pTerm p then switchToFollower L now r (pTerm p) rc else rc"
  define rc2 where "rc2 = ?rc1\<lparr>LeaderHint := pLeaderId p\<rparr>"
  have "calm L rc ?rc1 []"
    using down_switchToFollower [OF assms(2), of rc "pTerm p"] assms calm_same [of L rc "[]"]
    by (auto simp: durable_def small_term_def)
  then have c2: "calm L rc rc2 []" by (simp add: rc2_def calm_def vote_view stepped_down_def)
  then have d2: "durable L rc2" by (simp add: calm_def)
  have t2: "small_term (CurrentTerm rc2)" using assms by (simp add: rc2_def small_term_def)
  consider (reply) ct ci where "rc' = resetElectionTimer now r rc2"
      "os = [replyAppendEntries (pLeaderId p) False ct ci (pInvokeId p) rc2]"
    | (cut) n es ct ci rc3 where "rc3 = rc2\<lparr>Log := es, store := DeleteLogsFrom L (rcGroup rc2) n (store rc2)\<rparr>"
      "rc' = resetElectionTimer now r rc3"
      "os = [replyAppendEntries (pLeaderId p) False ct ci (pInvokeId p) rc3]"
    | (accept) "appendEntries_accept L now r p rc2 = Some (rc', os)"
  proof -
    have "handleAppendEntries L now r p rc =
        (if fst (getLastLogIndex rc2) < pPrevLogIndex p
         then Some (resetElectionTimer now r rc2, [replyAppendEntries (pLeaderId p) False 0
           (i64 (fst (getLastLogIndex rc2) + 1)) (pInvokeId p) rc2])
         else if 0 < pPrevLogIndex p then do {
           e \<leftarrow> go_nth (Log rc2) (pPrevLogIndex p - 1);
           if Term e \<noteq> pPrevLogTerm p then
             let ci = conflict_start (Log rc2) (Term e) (nat (pPrevLogIndex p));
                 rc3 = rc2\<lparr>Log := take (ci - 1) (Log rc2),
                   store := DeleteLogsFrom L (rcGroup rc2) (int ci) (store rc2)\<rparr>
             in Some (resetElectionTimer now r rc3,
                  [replyAppendEntries (pLeaderId p) False (Term e) (int ci) (pInvokeId p) rc3])
           else appendEntries_accept L now r p rc2 }
         else appendEntries_accept L now r p rc2)"
      using False by (simp only: handleAppendEntries_def Let_def rc2_def if_False)
    with assms(1) show thesis
      by (cases "go_nth (Log rc2) (pPrevLogIndex p - 1)")
        (auto simp: Let_def split: if_splits intro: reply accept cut)
  qed
  then show ?thesis
  proof cases
    case reply
    with calm_trans [OF c2, of rc' os] d2 show ?thesis by (simp add: vote_view)
  next
    case cut
    then have "durable L rc3" using d2 by (simp add: durable_def LoadMeta_other [OF assms(2)])
    with cut calm_trans [OF c2, of rc' os] show ?thesis by (simp add: vote_view)
  next
    case accept
    from accept_quiet [OF accept assms(2) d2 t2] calm_trans [OF c2, of rc' os] show ?thesis by simp
  qed
qed

lemma resolvePending_view [simp]:
  "CurrentTerm (resolvePending i rc) = CurrentTerm rc" "VotedFor (resolvePending i rc) = VotedFor rc"
  "Role (resolvePending i rc) = Role rc" "voteResult (resolvePending i rc) = voteResult rc"
  "ID (resolvePending i rc) = ID rc" "Peers (resolvePending i rc) = Peers rc"
  "rcGroup (resolvePending i rc) = rcGroup rc" "store (resolvePending i rc) = store rc"
  "durable L (resolvePending i rc) = durable L rc" "Log (resolvePending i rc) = Log rc"
  by (simp_all add: resolvePending_def)

lemma calm_resolve [simp]: "calm L (resolvePending i rc) rc' os = calm L rc rc' os"
  by (simp add: calm_def vote_view stepped_down_def)

lemma advanceCommitIndex_quiet:
  assumes "advanceCommitIndex L pick rc = Some (rc', os)" and "leveldb_ok L" and "durable L rc"
    and "small_term (CurrentTerm rc)"
  shows "same_vote rc rc' \<and> same_node rc rc' \<and> no_votes os \<and> durable L rc'"
proof -
  consider "rc' = rc" "os = []"
    | N where "applyLogToStateMachine L (rc\<lparr>CommitIndex := N\<rparr>) = Some (rc', os)"
  proof (cases "quickSelect pick (matchIndexes rc) (length (matchIndexes rc) div 2)")
    case None
    with assms(1) show ?thesis by (simp add: advanceCommitIndex_def)
  next
    case (Some N)
    show ?thesis
    proof (cases "CommitIndex rc < N \<and> 0 < N")
      case False
      with Some assms(1) have "rc' = rc" "os = []" by (simp_all add: advanceCommitIndex_def)
      then show thesis by (rule that(1))
    next
      case True
      then have eq: "advanceCommitIndex L pick rc = do {
          e \<leftarrow> go_nth (Log rc) (N - 1);
          if Term e = CurrentTerm rc then applyLogToStateMachine L (rc\<lparr>CommitIndex := N\<rparr>)
          else Some (rc, []) }"
        by (simp add: advanceCommitIndex_def Some)
      show thesis
      proof (cases "go_nth (Log rc) (N - 1)")
        case None
        with eq assms(1) show ?thesis by simp
      next
        case nth: (Some e)
        show ?thesis
        proof (cases "Term e = CurrentTerm rc")
          case True
          with eq nth assms(1) have "applyLogToStateMachine L (rc\<lparr>CommitIndex := N\<rparr>) = Some (rc', os)" by simp
          then show ?thesis by (rule that(2))
        next
          case False
          with eq nth assms(1) have "rc' = rc" "os = []" by simp_all
          then show ?thesis by (rule that(1))
        qed
      qed
    qed
  qed
  then show ?thesis
  proof cases
    case 1
    with assms(3) show ?thesis by (simp add: vote_view)
  next
    case 2
    from applyLog_quiet [OF 2 assms(2)] assms(3,4) show ?thesis by (simp add: vote_view)
  qed
qed

lemma progress_quiet:
  "same_vote rc (progress_success from1 p rc) \<and> same_node rc (progress_success from1 p rc)"
  "same_vote rc (progress_failure from1 p rc) \<and> same_node rc (progress_failure from1 p rc)"
  "durable L (progress_success from1 p rc) = durable L rc"
  "durable L (progress_failure from1 p rc) = durable L rc"
  by (simp_all add: progress_success_def progress_failure_def vote_view Let_def)

lemma handleAppendEntriesResponse_calm:
  assumes "handleAppendEntriesResponse L pick now r from1 p rc0 = Some (rc', os)" and "leveldb_ok L"
    and "durable L rc0" and "small_term (CurrentTerm rc0)" and "pTerm p \<le> 2 ^ 53"
  shows "calm L rc0 rc' os"
proof -
  define rc where "rc = resolvePending (pInvokeId p) rc0"
  have d: "durable L rc" "small_term (CurrentTerm rc)" using assms by (simp_all add: rc_def)
  note h = assms(1) [unfolded handleAppendEntriesResponse_def Let_def, folded rc_def]
  have "calm L rc rc' os"
  proof (cases "CurrentTerm rc < pTerm p")
    case True
    with h have "rc' = switchToFollower L now r (pTerm p) rc" "os = []" by simp_all
    with True down_switchToFollower [OF assms(2), of rc "pTerm p" now r] d assms(5) show ?thesis
      by (auto simp: durable_def small_term_def)
  next
    case current: False
    show ?thesis
    proof (cases "Role rc \<noteq> Leader \<or> pTerm p \<noteq> CurrentTerm rc")
      case True
      with h current have "rc' = rc" "os = []" by simp_all
      then show ?thesis using d by (simp add: calm_same)
    next
      case mine: False
      show ?thesis
      proof (cases "pSuccess p")
        case True
        with h current mine have "advanceCommitIndex L pick (progress_success from1 p rc) = Some (rc', os)"
          by simp
        from advanceCommitIndex_quiet [OF this assms(2)] d progress_quiet(1) [of rc from1 p] show ?thesis
          by (simp add: calm_def vote_view progress_quiet(3))
      next
        case False
        with h current mine have "rc' = progress_failure from1 p rc" "os = [SpawnAppend from1]" by simp_all
        then show ?thesis using d progress_quiet(2) [of rc from1 p] by (simp add: calm_def progress_quiet(4))
      qed
    qed
  qed
  then show ?thesis by (simp add: rc_def)
qed

lemma ProposeCommand_calm:
  assumes "ProposeCommand L cmd rc = (rc', os)" and "leveldb_ok L" and "durable L rc"
  shows "calm L rc rc' os"
proof (cases "Role rc = Leader")
  case False
  with assms show ?thesis by (auto simp: ProposeCommand_def intro: calm_same)
next
  case True
  define e where "e = \<lparr>Index = i64 (fst (getLastLogIndex rc) + 1), Term = CurrentTerm rc, Command = cmd\<rparr>"
  have rc': "rc' = rc\<lparr>Log := Log rc @ [e], store := SaveLog L (rcGroup rc) e (store rc)\<rparr>"
    using assms(1) True by (auto simp: ProposeCommand_def persistLog_def e_def Let_def)
  moreover have "no_votes os" using assms(1) True by (auto simp: ProposeCommand_def Let_def)
  moreover have "durable L rc'" using assms(3) by (simp add: rc' durable_def LoadMeta_other [OF assms(2)])
  ultimately show ?thesis by (simp add: calm_def vote_view)
qed

lemma HandleClientRequest_calm:
  assumes "HandleClientRequest L cmd rc = (rc', os)" and "leveldb_ok L" and "durable L rc"
  shows "calm L rc rc' os"
  using assms ProposeCommand_calm [OF _ assms(2,3)]
  by (auto simp: HandleClientRequest_def forwardToLeader_def intro!: calm_same split: if_splits)

section \<open>The steps that vote\<close>

lemma isUpToDate_vote [simp]:
  "isUpToDate i t (persistTermAndVote L rc) = isUpToDate i t rc"
  "isUpToDate i t (rc\<lparr>CurrentTerm := ct, VotedFor := v, Role := ro\<rparr>) = isUpToDate i t rc"
  by (simp_all add: isUpToDate_def getLastLogIndex_def persistTermAndVote_def)

lemma persist_fields [simp]:
  "CurrentTerm (persistTermAndVote L rc) = CurrentTerm rc" "VotedFor (persistTermAndVote L rc) = VotedFor rc"
  "Role (persistTermAndVote L rc) = Role rc" "voteResult (persistTermAndVote L rc) = voteResult rc"
  "ID (persistTermAndVote L rc) = ID rc" "Peers (persistTermAndVote L rc) = Peers rc"
  "rcGroup (persistTermAndVote L rc) = rcGroup rc" "Log (persistTermAndVote L rc) = Log rc"
  "db (store (persistTermAndVote L rc)) = None \<longleftrightarrow> db (store rc) = None"
  "(\<exists>d. db (store (persistTermAndVote L rc)) = Some d) \<longleftrightarrow> (\<exists>d. db (store rc) = Some d)"
  by (simp_all add: persistTermAndVote_def)

text \<open>What a reply to a vote request says, and what it does to the voter.\<close>

definition vote_reply :: "'d RaftCore \<Rightarrow> RaftPayload \<Rightarrow> bool" where
  "vote_reply rc' q \<longleftrightarrow> pType q = RequestVoteResponse \<and> pSenderId q = ID rc' \<and> pTerm q = CurrentTerm rc' \<and>
     (pVoteGranted q \<longrightarrow> VotedFor rc' = pCandidateId q)"

lemma handleRequestVote_step:
  assumes "handleRequestVote L now r p rc = (rc', os)" and "leveldb_ok L" and "durable L rc"
    and "small_term (CurrentTerm rc)" and "pTerm p \<le> 2 ^ 53"
  shows "same_node rc rc' \<and> voteResult rc' = voteResult rc \<and>
    CurrentTerm rc' = max (CurrentTerm rc) (pTerm p) \<and> durable L rc' \<and>
    (\<exists>q. os = [Send (pCandidateId p) q] \<and> vote_reply rc' q \<and> pCandidateId q = pCandidateId p) \<and>
    (CurrentTerm rc' = CurrentTerm rc \<longrightarrow> Role rc' = Role rc \<and> (VotedFor rc \<noteq> [] \<longrightarrow> VotedFor rc' = VotedFor rc)) \<and>
    (CurrentTerm rc < CurrentTerm rc' \<longrightarrow> Role rc' = Follower)"
proof (cases "pTerm p < CurrentTerm rc")
  case True
  with assms show ?thesis by (auto simp: handleRequestVote_def same_node_def vote_reply_def)
next
  case False
  define rc1 where "rc1 = (if CurrentTerm rc < pTerm p
     then persistTermAndVote L (rc\<lparr>CurrentTerm := pTerm p, VotedFor := [], Role := Follower\<rparr>) else rc)"
  have f: "same_node rc rc1" "voteResult rc1 = voteResult rc" "CurrentTerm rc1 = max (CurrentTerm rc) (pTerm p)"
    using False by (auto simp: rc1_def same_node_def)
  have t1: "small_term (CurrentTerm rc1)" using assms(4,5) f(3) by (auto simp: small_term_def)
  have d1: "durable L rc1"
  proof (cases "CurrentTerm rc < pTerm p")
    case True
    moreover have "durable L (persistTermAndVote L (rc\<lparr>CurrentTerm := pTerm p, VotedFor := [], Role := Follower\<rparr>))"
      using assms t1 f(3) True by (intro durable_persist) (simp_all add: durable_def)
    ultimately show ?thesis by (simp add: rc1_def)
  next
    case False
    then show ?thesis using assms(3) by (simp add: rc1_def)
  qed
  have same: "CurrentTerm rc1 = CurrentTerm rc \<longrightarrow> rc1 = rc"
    and up: "CurrentTerm rc < CurrentTerm rc1 \<longrightarrow> Role rc1 = Follower"
    using False by (auto simp: rc1_def)
  let ?rc2 = "resetElectionTimer now r (persistTermAndVote L (rc1\<lparr>VotedFor := pCandidateId p\<rparr>))"
  show ?thesis
  proof (cases "(VotedFor rc1 = [] \<or> VotedFor rc1 = pCandidateId p) \<and>
      isUpToDate (pPrevLogIndex p) (pPrevLogTerm p) rc1")
    case True
    with False assms(1) have rc': "rc' = ?rc2" and os: "os = [Send (pCandidateId p)
        (zero_payload\<lparr>pType := RequestVoteResponse, pTerm := CurrentTerm ?rc2, pVoteGranted := True,
          pCandidateId := pCandidateId p, pSenderId := ID ?rc2, pGroup := pGroup p, pInvokeId := pInvokeId p\<rparr>)]"
      by (auto simp: handleRequestVote_def rc1_def [symmetric] Let_def)
    have "durable L (persistTermAndVote L (rc1\<lparr>VotedFor := pCandidateId p\<rparr>))"
      using d1 t1 by (intro durable_persist [OF assms(2)]) (simp_all add: durable_def)
    with True f same up show ?thesis by (auto simp: rc' os same_node_def vote_reply_def)
  next
    case no: False
    with False assms(1) have rc': "rc' = rc1" and os: "os = [Send (pCandidateId p)
        (zero_payload\<lparr>pType := RequestVoteResponse, pTerm := CurrentTerm rc1, pVoteGranted := False,
          pCandidateId := pCandidateId p, pSenderId := ID rc1, pGroup := pGroup p, pInvokeId := pInvokeId p\<rparr>)]"
      by (auto simp: handleRequestVote_def rc1_def [symmetric] Let_def)
    with f d1 same up show ?thesis by (simp add: vote_reply_def)
  qed
qed

lemma startElection_step:
  assumes "startElection L now r rc = (rc', os)" and "leveldb_ok L" and "durable L rc"
    and "small_term (CurrentTerm rc)" and "CurrentTerm rc < 2 ^ 53"
  shows "same_node rc rc' \<and> durable L rc' \<and> no_votes os \<and>
    (rc' = rc \<or> Role rc' = Candidate \<and> CurrentTerm rc' = CurrentTerm rc + 1 \<and> VotedFor rc' = ID rc \<and>
       voteResult rc' = [(ID rc, True)])"
proof (cases "Role rc = Leader")
  case True
  with assms show ?thesis by (auto simp: startElection_def startElection_check_def same_node_def)
next
  case False
  let ?rc1 = "(resetVoteResult rc)\<lparr>Role := Candidate, CurrentTerm := CurrentTerm rc + 1, VotedFor := ID rc\<rparr>"
  have t: "i64 (CurrentTerm rc + 1) = CurrentTerm rc + 1" using assms(4,5) by (simp add: small_term_def)
  have d: "durable L (persistTermAndVote L ?rc1)"
    using assms by (intro durable_persist) (auto simp: durable_def small_term_def resetVoteResult_def)
  have "rc' = resetElectionTimer now r ((persistTermAndVote L ?rc1)\<lparr>LeaderHint := []\<rparr>)" and "no_votes os"
    using assms(1) False t by (auto simp: startElection_def startElection_check_def startElection_switch_def
        switchToCandidate_def resetVoteResult_def Let_def split_beta)
  with d show ?thesis by (simp add: same_node_def) (simp add: resetVoteResult_def)
qed

lemma initProgress_view:
  "same_vote rc (initProgress ns i rc) \<and> same_node rc (initProgress ns i rc) \<and>
     durable L (initProgress ns i rc) = durable L rc"
proof (induction ns arbitrary: rc)
  case Nil
  then show ?case by (simp add: initProgress_def vote_view)
next
  case (Cons n ns)
  let ?rc = "if n = ID rc then rc else rc\<lparr>NextIndex := (NextIndex rc)(n \<mapsto> i64 (i + 1)),
     MatchIndex := (MatchIndex rc)(n \<mapsto> 0)\<rparr>"
  have "initProgress (n # ns) i rc = initProgress ns i ?rc" by (simp add: initProgress_def)
  with Cons [of ?rc] show ?case by (auto simp: vote_view)
qed

lemma initProgress_fields [simp]:
  "ID (initProgress ns i rc) = ID rc" "Peers (initProgress ns i rc) = Peers rc"
  "rcGroup (initProgress ns i rc) = rcGroup rc" "Role (initProgress ns i rc) = Role rc"
  "CurrentTerm (initProgress ns i rc) = CurrentTerm rc" "VotedFor (initProgress ns i rc) = VotedFor rc"
  "voteResult (initProgress ns i rc) = voteResult rc"
  "durable L (initProgress ns i rc) = durable L rc"
  using initProgress_view [of rc ns i L] by (simp_all add: vote_view)

lemma switchToLeader_view:
  "switchToLeader now rc = (rc', os) \<Longrightarrow> same_node rc rc' \<and> Role rc' = Leader \<and>
     CurrentTerm rc' = CurrentTerm rc \<and> VotedFor rc' = VotedFor rc \<and> voteResult rc' = voteResult rc \<and>
     no_votes os \<and> durable L rc' = durable L rc"
  by (auto simp: switchToLeader_def Let_def split_beta same_node_def disableElectionTimer_def resetHeartbeatTimer_def)

definition vote_majority :: "string list \<Rightarrow> (string \<times> bool) list \<Rightarrow> bool" where
  "vote_majority ps vr \<longleftrightarrow> length ps div 2 + 1 \<le> length (filter snd vr)"

lemma handleRequestVoteResponse_step:
  assumes "handleRequestVoteResponse L now r p rc0 = (rc', os)" and "leveldb_ok L" and "durable L rc0"
    and "small_term (CurrentTerm rc0)" and "pTerm p \<le> 2 ^ 53"
  shows "calm L rc0 rc' os \<or>
    (pTerm p = CurrentTerm rc0 \<and> same_node rc0 rc' \<and> no_votes os \<and> durable L rc' \<and>
     CurrentTerm rc' = CurrentTerm rc0 \<and> VotedFor rc' = VotedFor rc0 \<and>
     voteResult rc' = AList.update (pSenderId p) (pVoteGranted p) (voteResult rc0) \<and>
     (Role rc' = Role rc0 \<or>
      Role rc0 = Candidate \<and> Role rc' = Leader \<and> vote_majority (Peers rc0) (voteResult rc')))"
proof -
  define rc where "rc = resolvePending (pInvokeId p) rc0"
  have d: "durable L rc" "small_term (CurrentTerm rc)" using assms by (simp_all add: rc_def)
  note h = assms(1) [unfolded handleRequestVoteResponse_def Let_def, folded rc_def]
  have "calm L rc rc' os \<or>
    (pTerm p = CurrentTerm rc \<and> same_node rc rc' \<and> no_votes os \<and> durable L rc' \<and>
     CurrentTerm rc' = CurrentTerm rc \<and> VotedFor rc' = VotedFor rc \<and>
     voteResult rc' = AList.update (pSenderId p) (pVoteGranted p) (voteResult rc) \<and>
     (Role rc' = Role rc \<or>
      Role rc = Candidate \<and> Role rc' = Leader \<and> vote_majority (Peers rc) (voteResult rc')))"
  proof -
    consider "pTerm p < CurrentTerm rc" | "CurrentTerm rc < pTerm p" | "pTerm p = CurrentTerm rc" by linarith
    then show ?thesis
    proof cases
      case 1
      with h d show ?thesis by (auto intro: calm_same)
    next
      case 2
      let ?rc1 = "rc\<lparr>CurrentTerm := pTerm p, VotedFor := [], Role := Follower\<rparr>"
      from 2 h have "rc' = resetElectionTimer now r (persistTermAndVote L ?rc1)" "os = []" by auto
      moreover have "durable L (persistTermAndVote L ?rc1)"
        using 2 d assms(5) by (intro durable_persist [OF assms(2)]) (auto simp: durable_def small_term_def)
      ultimately show ?thesis using 2 by (simp add: calm_def stepped_down_def same_node_def)
    next
      case 3
      define rc1 where "rc1 = recordVote (pSenderId p) (pVoteGranted p) rc"
      have f: "same_node rc rc1" "CurrentTerm rc1 = CurrentTerm rc" "VotedFor rc1 = VotedFor rc" "durable L rc1"
        "Role rc1 = Role rc" "voteResult rc1 = AList.update (pSenderId p) (pVoteGranted p) (voteResult rc)"
        using d by (simp_all add: rc1_def recordVote_def same_node_def)
      show ?thesis
      proof (cases "Role rc1 = Candidate \<and> hasMajorityVotes rc1")
        case False
        with h 3 have "rc' = rc1" "os = []" by (auto simp: rc1_def)
        with f 3 show ?thesis by simp
      next
        case True
        obtain rc2 o2 where l: "switchToLeader now rc1 = (rc2, o2)" by fastforce
        with h 3 True have "rc' = initProgress (Peers rc2) (fst (getLastLogIndex rc2)) rc2" "os = o2"
          by (auto simp: rc1_def split_beta)
        with switchToLeader_view [OF l] f 3 True show ?thesis
          by (simp add: same_node_def hasMajorityVotes_def vote_majority_def)
      qed
    qed
  qed
  then show ?thesis by (simp add: rc_def same_node_def)
qed

section \<open>The rules of a step\<close>

text \<open>
  An event is sane if no term it carries exceeds 2^53 (see \<open>LoadMeta\<close>) and if what it sends
  through \<open>sendWithInvokeId\<close> is a request, as in all of its callers.
\<close>

definition sane_event :: "raft_event \<Rightarrow> bool" where
  "sane_event ev = (case ev of
      EvMessage _ (Some c) \<Rightarrow> pTerm (as_payload c) \<le> 2 ^ 53
    | EvInvoke _ p \<Rightarrow> pType p \<noteq> RequestVoteResponse
    | EvRetry _ _ _ p \<Rightarrow> pType p \<noteq> RequestVoteResponse
    | _ \<Rightarrow> True)"

definition response_of :: "raft_event \<Rightarrow> RaftPayload option" where
  "response_of ev = (case ev of
      EvMessage _ (Some c) \<Rightarrow> if pType (as_payload c) = RequestVoteResponse then Some (as_payload c) else None
    | _ \<Rightarrow> None)"

text \<open>Every step is one of four: calm, an answer to a vote request, a counted vote, a candidacy.\<close>

definition voting :: "'d leveldb \<Rightarrow> 'd RaftCore \<Rightarrow> 'd RaftCore \<Rightarrow> raft_out list \<Rightarrow> bool" where
  "voting L rc rc' os \<longleftrightarrow> same_node rc rc' \<and> voteResult rc' = voteResult rc \<and>
     CurrentTerm rc \<le> CurrentTerm rc' \<and> durable L rc' \<and>
     (\<exists>q. os = [Send (pCandidateId q) q] \<and> vote_reply rc' q) \<and>
     (CurrentTerm rc' = CurrentTerm rc \<longrightarrow> Role rc' = Role rc \<and> (VotedFor rc \<noteq> [] \<longrightarrow> VotedFor rc' = VotedFor rc)) \<and>
     (CurrentTerm rc < CurrentTerm rc' \<longrightarrow> Role rc' = Follower)"

definition counting :: "'d leveldb \<Rightarrow> RaftPayload option \<Rightarrow> 'd RaftCore \<Rightarrow> 'd RaftCore \<Rightarrow> raft_out list \<Rightarrow> bool" where
  "counting L resp rc rc' os \<longleftrightarrow> (\<exists>p. resp = Some p \<and> pTerm p = CurrentTerm rc \<and> same_node rc rc' \<and>
     no_votes os \<and> durable L rc' \<and> CurrentTerm rc' = CurrentTerm rc \<and> VotedFor rc' = VotedFor rc \<and>
     voteResult rc' = AList.update (pSenderId p) (pVoteGranted p) (voteResult rc) \<and>
     (Role rc' = Role rc \<or>
      Role rc = Candidate \<and> Role rc' = Leader \<and> vote_majority (Peers rc) (voteResult rc')))"

definition standing :: "'d leveldb \<Rightarrow> 'd RaftCore \<Rightarrow> 'd RaftCore \<Rightarrow> raft_out list \<Rightarrow> bool" where
  "standing L rc rc' os \<longleftrightarrow> same_node rc rc' \<and> durable L rc' \<and> no_votes os \<and> Role rc' = Candidate \<and>
     CurrentTerm rc' = CurrentTerm rc + 1 \<and> VotedFor rc' = ID rc \<and> voteResult rc' = [(ID rc, True)]"

lemma node_step_cases:
  assumes step: "node_step L pick now r ev rc = Some (rc', os)" and ok: "leveldb_ok L" and d: "durable L rc"
    and t: "small_term (CurrentTerm rc)" "CurrentTerm rc < 2 ^ 53" and sane: "sane_event ev"
  shows "calm L rc rc' os \<or> voting L rc rc' os \<or> counting L (response_of ev) rc rc' os \<or> standing L rc rc' os"
proof (cases ev)
  case (EvMessage from1 content)
  show ?thesis
  proof (cases content)
    case None
    with step EvMessage d show ?thesis by (auto simp: onRaftMessage_def intro: calm_same)
  next
    case (Some c)
    let ?p = "as_payload c"
    have b: "pTerm ?p \<le> 2 ^ 53" using sane EvMessage Some by (simp add: sane_event_def)
    have resp: "response_of ev = (if pType ?p = RequestVoteResponse then Some ?p else None)"
      using EvMessage Some by (simp add: response_of_def)
    have h: "onRaftMessage L pick now r from1 (Some c) rc = Some (rc', os)" using step EvMessage Some by simp
    show ?thesis
    proof (cases "pType ?p")
      case RequestVote
      with h have "handleRequestVote L now r ?p rc = (rc', os)" by (simp add: onRaftMessage_def Let_def)
      from handleRequestVote_step [OF this ok d t(1) b] show ?thesis by (auto simp: voting_def)
    next
      case RequestVoteResponse
      with h have "handleRequestVoteResponse L now r ?p rc = (rc', os)" by (simp add: onRaftMessage_def Let_def)
      from handleRequestVoteResponse_step [OF this ok d t(1) b] resp RequestVoteResponse show ?thesis
        by (auto simp: counting_def)
    next
      case AppendEntries
      with h have "handleAppendEntries L now r ?p rc = Some (rc', os)" by (simp add: onRaftMessage_def Let_def)
      from handleAppendEntries_calm [OF this ok d t(1) b] show ?thesis by simp
    next
      case AppendEntriesResponse
      with h have "handleAppendEntriesResponse L pick now r from1 ?p rc = Some (rc', os)"
        by (simp add: onRaftMessage_def Let_def)
      from handleAppendEntriesResponse_calm [OF this ok d t(1) b] show ?thesis by simp
    next
      case ClientCommand
      with h have "ProposeCommand L (fwCmd (as_forward c)) rc = (rc', os) \<or>
          rc' = rc \<and> (os = [] \<or> (\<exists>x f. os = [SendForward x f]))"
        by (auto simp: onRaftMessage_def Let_def forwardToLeader_def split: if_splits)
      then show ?thesis using ProposeCommand_calm [OF _ ok d] calm_same [OF d] by auto
    qed (use h d in \<open>auto simp: onRaftMessage_def Let_def intro: calm_same\<close>)
  qed
next
  case EvTick
  with step d show ?thesis
    by (auto simp: processTimers_def Let_def calm_def vote_view resetHeartbeatTimer_def split: if_splits)
next
  case EvElection
  with step have "startElection L now r rc = (rc', os)" by simp
  from startElection_step [OF this ok d t] d show ?thesis by (auto simp: standing_def intro: calm_same)
next
  case (EvClient cmd)
  with step have "HandleClientRequest L cmd rc = (rc', os)" by simp
  from HandleClientRequest_calm [OF this ok d] show ?thesis by simp
next
  case (EvAppend peer)
  with step have "rc' = rc" "no_votes os"
    by (auto simp: sendAppendEntriesTo_def Let_def split: bind_splits if_splits)
  then show ?thesis using calm_same [OF d] by simp
next
  case (EvInvoke peer p)
  with step sane d show ?thesis
    by (auto simp: sane_event_def sendWithInvokeId_start_def Let_def calm_def vote_view)
next
  case (EvRetry role n peer p)
  with step sane d show ?thesis
    by (auto simp: sane_event_def sendWithInvokeId_retry_def intro!: calm_same)
next
  case (EvInvokeDone i)
  with step d show ?thesis by (auto simp: sendWithInvokeId_finish_def calm_def vote_view)
qed (use step d in \<open>auto simp: broadcastHeartbeat_def sendHeartbeat_def Let_def intro!: calm_same\<close>)

section \<open>Restart\<close>

lemma NewRaftClient_step:
  assumes "NewRaftClient L now r n (rcGroup rc) ps (store rc) = Some (rc', os)" and "leveldb_ok L"
    and "durable L rc" and "small_term (CurrentTerm rc)"
  shows "CurrentTerm rc' = CurrentTerm rc \<and> VotedFor rc' = VotedFor rc \<and> Role rc' = Follower \<and>
    voteResult rc' = [] \<and> ID rc' = n \<and> Peers rc' = ps \<and> rcGroup rc' = rcGroup rc \<and> durable L rc' \<and> no_votes os"
proof -
  from assms(3) obtain ci la err where
    m: "LoadMeta L (rcGroup rc) (store rc) = Some (CurrentTerm rc, VotedFor rc, ci, la, err)"
    and db: "db (store rc) \<noteq> None" by (auto simp: durable_def)
  define rc0 where "rc0 = \<lparr>ID = n, rcGroup = rcGroup rc, Role = Follower, CurrentTerm = CurrentTerm rc,
    VotedFor = VotedFor rc, Log = LoadLogs L (rcGroup rc) (store rc), CommitIndex = ci, LastApplied = la,
    NextIndex = Map.empty, MatchIndex = Map.empty, voteResult = [], electionTimeout = 0,
    heartbeatTimeout = 0, LeaderHint = [], Peers = ps, store = store rc, invokeCounter = 0, pending = [],
    Learners = []\<rparr>"
  have d0: "durable L rc0" using m db by (auto simp: durable_def rc0_def)
  have t0: "small_term (CurrentTerm rc0)" using assms(4) by (simp add: rc0_def)
  obtain rc1 where h: "(if la < ci then applyLogToStateMachine L rc0 else Some (rc0, [])) = Some (rc1, os)"
    and rc': "rc' = resetElectionTimer now r rc1"
  proof -
    have "NewRaftClient L now r n (rcGroup rc) ps (store rc) =
        Option.bind (if la < ci then applyLogToStateMachine L rc0 else Some (rc0, []))
          (\<lambda>(rc1, o1). Some (resetElectionTimer now r rc1, o1))"
      by (simp add: NewRaftClient_def m rc0_def)
    with assms(1) that show thesis
      by (cases "if la < ci then applyLogToStateMachine L rc0 else Some (rc0, [])") auto
  qed
  have "same_vote rc0 rc1 \<and> same_node rc0 rc1 \<and> no_votes os \<and> durable L rc1"
  proof (cases "la < ci")
    case True
    with h have "applyLogToStateMachine L rc0 = Some (rc1, os)" by simp
    from applyLog_quiet [OF this assms(2) d0 t0] show ?thesis .
  next
    case False
    with h d0 show ?thesis by (auto simp: vote_view)
  qed
  then show ?thesis by (simp add: rc' vote_view) (simp add: rc0_def)
qed

section \<open>Properties\<close>

lemma node_step_term:
  assumes "node_step L pick now r ev rc = Some (rc', os)" and "leveldb_ok L" and "durable L rc"
    and "small_term (CurrentTerm rc)" and "CurrentTerm rc < 2 ^ 53" and "sane_event ev"
  shows "CurrentTerm rc \<le> CurrentTerm rc' \<and> durable L rc' \<and> same_node rc rc' \<and>
    (CurrentTerm rc' = CurrentTerm rc \<and> VotedFor rc \<noteq> [] \<longrightarrow> VotedFor rc' = VotedFor rc)"
  using node_step_cases [OF assms]
  by (auto simp: calm_def same_vote_def stepped_down_def voting_def counting_def standing_def)

text \<open>
  C3: Whatever event a Raft node processes, its term never decreases, a vote once given in a term is
  not changed in that term, every granted vote response it sends carries its current term and names
  the candidate it voted for, and a restart from the database at any later point finds exactly the
  term and the vote the node had.
\<close>

theorem vote_rules_survive_restart:
  assumes "node_step L pick now r ev rc = Some (rc', os)" and "leveldb_ok L" and "durable L rc"
    and "small_term (CurrentTerm rc)" and "CurrentTerm rc < 2 ^ 53" and "sane_event ev"
    and "small_term (CurrentTerm rc')"
  shows "CurrentTerm rc \<le> CurrentTerm rc' \<and>
    (CurrentTerm rc' = CurrentTerm rc \<and> VotedFor rc \<noteq> [] \<longrightarrow> VotedFor rc' = VotedFor rc) \<and>
    (\<forall>d q. Send d q \<in> set os \<and> pType q = RequestVoteResponse \<and> pVoteGranted q \<longrightarrow>
       pTerm q = CurrentTerm rc' \<and> pCandidateId q = VotedFor rc' \<and> d = VotedFor rc') \<and>
    (\<forall>now' r' ps rc2 os2. NewRaftClient L now' r' (ID rc') (rcGroup rc') ps (store rc') = Some (rc2, os2) \<longrightarrow>
       CurrentTerm rc2 = CurrentTerm rc' \<and> VotedFor rc2 = VotedFor rc')"
proof (intro conjI allI impI)
  note n = node_step_term [OF assms(1-6)]
  show "CurrentTerm rc \<le> CurrentTerm rc'" using n by simp
  show "VotedFor rc' = VotedFor rc" if "CurrentTerm rc' = CurrentTerm rc \<and> VotedFor rc \<noteq> []" using n that by simp
  fix d q assume q: "Send d q \<in> set os \<and> pType q = RequestVoteResponse \<and> pVoteGranted q"
  then have "\<not> no_votes os" by (auto simp: no_votes_def)
  with node_step_cases [OF assms(1-6)] have "voting L rc rc' os"
    by (auto simp: calm_def counting_def standing_def)
  with q have *: "pTerm q = CurrentTerm rc' \<and> pCandidateId q = VotedFor rc' \<and> d = pCandidateId q"
    by (auto simp: voting_def vote_reply_def)
  then show "pTerm q = CurrentTerm rc'" and "pCandidateId q = VotedFor rc'" and "d = VotedFor rc'" by auto
next
  fix now' r' ps rc2 os2
  assume a: "NewRaftClient L now' r' (ID rc') (rcGroup rc') ps (store rc') = Some (rc2, os2)"
  from NewRaftClient_step [OF a assms(2) _ assms(7)] node_step_term [OF assms(1-6)]
  show "CurrentTerm rc2 = CurrentTerm rc'" and "VotedFor rc2 = VotedFor rc'" by auto
qed

definition ex_voter :: "(string \<times> goval) list RaftCore" where
  "ex_voter = (ex_core [''a'', ''b''] [] [] 0)\<lparr>Role := Follower, VotedFor := [],
     store := \<lparr>db = Some [], NodeId = ''a''\<rparr>\<rparr>"

definition ex_vote_request :: RaftPayload where
  "ex_vote_request = zero_payload\<lparr>pType := RequestVote, pTerm := 4, pCandidateId := ''b''\<rparr>"

theorem vote_rules_survive_restart_witness:
  "\<exists>rc' q. node_step alist_db (\<lambda>_. 0) 0 0 (EvMessage ''b'' (Some (CPayload ex_vote_request))) ex_voter =
       Some (rc', [Send ''b'' q]) \<and> pVoteGranted q \<and> pTerm q = 4 \<and> VotedFor rc' = ''b''"
proof -
  have d: "durable alist_db ex_voter"
    by (auto simp: durable_def ex_voter_def ex_core_def LoadMeta_def alist_db_def)
  have s: "small_term (CurrentTerm ex_voter)" "CurrentTerm ex_voter < 2 ^ 53"
    by (simp_all add: ex_voter_def ex_core_def small_term_def)
  have sane: "sane_event (EvMessage ''b'' (Some (CPayload ex_vote_request)))"
    by (simp add: sane_event_def as_payload_def ex_vote_request_def)
  obtain rc' os where h: "handleRequestVote alist_db 0 0 ex_vote_request ex_voter = (rc', os)" by fastforce
  then have step: "node_step alist_db (\<lambda>_. 0) 0 0 (EvMessage ''b'' (Some (CPayload ex_vote_request))) ex_voter =
      Some (rc', os)"
    by (simp add: onRaftMessage_def as_payload_def) (simp add: ex_vote_request_def)
  have up: "isUpToDate 0 0 ex_voter"
    by (simp add: isUpToDate_def getLastLogIndex_def lastLog_def ex_voter_def ex_core_def)
  have p: "pTerm ex_vote_request = 4" "pCandidateId ex_vote_request = ''b''"
    "pPrevLogIndex ex_vote_request = 0" "pPrevLogTerm ex_vote_request = 0"
    by (simp_all add: ex_vote_request_def zero_payload_def)
  have "CurrentTerm ex_voter = 0" by (simp add: ex_voter_def ex_core_def)
  then have "rc' = fst (handleRequestVote alist_db 0 0 ex_vote_request ex_voter)" "CurrentTerm rc' = 4"
    and os: "\<exists>q. os = [Send ''b'' q] \<and> pVoteGranted q \<and> pType q = RequestVoteResponse"
    using h by (simp_all add: handleRequestVote_def p up Let_def) auto
  then have t: "CurrentTerm rc' = 4" and o: "\<exists>q. os = [Send ''b'' q] \<and> pVoteGranted q \<and> pType q = RequestVoteResponse"
    by blast+
  have "small_term (CurrentTerm rc')" using t by (simp add: small_term_def)
  note rules = vote_rules_survive_restart [OF step alist_db_ok d s sane this]
  from o obtain q where q: "os = [Send ''b'' q]" "pVoteGranted q" "pType q = RequestVoteResponse" by blast
  then have "Send ''b'' q \<in> set os \<and> pType q = RequestVoteResponse \<and> pVoteGranted q" by simp
  with rules have "pTerm q = CurrentTerm rc' \<and> ''b'' = VotedFor rc'" by blast
  with q t step show ?thesis by metis
qed

end
