(* ===== verification/Raft_Election.thy ===== *)
theory Raft_Election
  imports Raft_Node
begin

text \<open>
  Election safety of core/Raft.go across a cluster: nodes that take steps in any order, a network that
  keeps every message for ever (so it may lose, delay, duplicate and reorder them), and restarts
  from the database. Only vote responses have to be authentic; every other message may be anything.
\<close>

section \<open>Quorums\<close>

locale quorum_system =
  fixes members :: "'a set" and quorum :: "'a set \<Rightarrow> bool"
  assumes quorum_sub: "quorum A \<Longrightarrow> A \<subseteq> members"
    and quorum_meet: "quorum A \<Longrightarrow> quorum B \<Longrightarrow> A \<inter> B \<noteq> {}"
begin

lemma unique_winner:
  assumes "quorum A" and "quorum B"
    and "\<And>v x y. votes v x \<Longrightarrow> votes v y \<Longrightarrow> x = y"
    and "\<And>v. v \<in> A \<Longrightarrow> votes v a" and "\<And>v. v \<in> B \<Longrightarrow> votes v b"
  shows "a = b"
proof -
  from quorum_meet [OF assms(1,2)] obtain v where "v \<in> A" "v \<in> B" by blast
  with assms(3) [of v a b] assms(4,5) show ?thesis by blast
qed

end

definition majority :: "string list \<Rightarrow> string set \<Rightarrow> bool" where
  "majority ms A \<longleftrightarrow> A \<subseteq> set ms \<and> length ms div 2 < card A"

interpretation maj: quorum_system "set ms" "majority ms" for ms
proof unfold_locales
  fix A B assume a: "majority ms A" "majority ms B"
  show "A \<inter> B \<noteq> {}"
  proof
    assume e: "A \<inter> B = {}"
    have f: "finite A" "finite B" using a by (auto simp: majority_def intro: finite_subset)
    have "card (A \<union> B) = card A + card B" by (rule card_Un_disjoint [OF f e])
    moreover have "card (A \<union> B) \<le> card (set ms)" using a by (intro card_mono) (auto simp: majority_def)
    moreover have "card (set ms) \<le> length ms" by (rule card_length)
    ultimately show False using a by (auto simp: majority_def)
  qed
qed (simp add: majority_def)

lemma vote_majority_set:
  assumes "vote_majority ms vr" and "distinct (map fst vr)" and "\<And>v. (v, True) \<in> set vr \<Longrightarrow> v \<in> set ms"
  shows "majority ms {v. (v, True) \<in> set vr}"
proof -
  have "{v. (v, True) \<in> set vr} = set (map fst (filter snd vr))" by force
  moreover have "distinct (map fst (filter snd vr))" using assms(2) by (induction vr) auto
  ultimately have "card {v. (v, True) \<in> set vr} = length (filter snd vr)"
    by (simp add: distinct_card del: set_map)
  then show ?thesis using assms by (auto simp: majority_def vote_majority_def)
qed

section \<open>The cluster\<close>

text \<open>\<open>cl_votes\<close> records every vote ever cast: voter, term, candidate.\<close>

record 'd cluster =
  cl_node :: "string \<Rightarrow> 'd RaftCore"
  cl_net :: "(string \<times> RaftPayload) set"
  cl_votes :: "(string \<times> int \<times> string) set"

definition cast :: "string \<Rightarrow> 'd RaftCore \<Rightarrow> (string \<times> int \<times> string) set" where
  "cast n rc = (if VotedFor rc = [] then {} else {(n, CurrentTerm rc, VotedFor rc)})"

definition cluster_put :: "string \<Rightarrow> 'd RaftCore \<Rightarrow> raft_out list \<Rightarrow> 'd cluster \<Rightarrow> 'd cluster" where
  "cluster_put n rc os c = \<lparr>cl_node = (cl_node c)(n := rc),
     cl_net = cl_net c \<union> {(d, p). Send d p \<in> set os}, cl_votes = cl_votes c \<union> cast n rc\<rparr>"

inductive cluster_step :: "'d leveldb \<Rightarrow> string list \<Rightarrow> 'd cluster \<Rightarrow> 'd cluster \<Rightarrow> bool"
  for L :: "'d leveldb" and ms :: "string list" where
  act: "n \<in> set ms \<Longrightarrow> sane_event ev \<Longrightarrow> (\<forall>p. response_of ev = Some p \<longrightarrow> (n, p) \<in> cl_net c) \<Longrightarrow>
     CurrentTerm (cl_node c n) < 2 ^ 53 \<Longrightarrow>
     node_step L pick now r ev (cl_node c n) = Some (rc', os) \<Longrightarrow> CurrentTerm rc' \<le> 2 ^ 53 \<Longrightarrow>
     cluster_step L ms c (cluster_put n rc' os c)"
| restart: "n \<in> set ms \<Longrightarrow>
     NewRaftClient L now r n (rcGroup (cl_node c n)) ms (store (cl_node c n)) = Some (rc', os) \<Longrightarrow>
     cluster_step L ms c (cluster_put n rc' os c)"

definition cluster_init :: "'d leveldb \<Rightarrow> string list \<Rightarrow> 'd cluster \<Rightarrow> bool" where
  "cluster_init L ms c \<longleftrightarrow> [] \<notin> set ms \<and>
     (\<forall>n \<in> set ms. ID (cl_node c n) = n \<and> Peers (cl_node c n) = ms \<and> Role (cl_node c n) = Follower \<and>
        durable L (cl_node c n) \<and> small_term (CurrentTerm (cl_node c n))) \<and>
     cl_net c = {} \<and> cl_votes c = (\<Union>n \<in> set ms. cast n (cl_node c n))"

inductive cluster_reach :: "'d leveldb \<Rightarrow> string list \<Rightarrow> 'd cluster \<Rightarrow> bool"
  for L :: "'d leveldb" and ms :: "string list" where
  init: "cluster_init L ms c \<Longrightarrow> cluster_reach L ms c"
| step: "cluster_reach L ms c \<Longrightarrow> cluster_step L ms c c' \<Longrightarrow> cluster_reach L ms c'"

inductive_cases cluster_stepE: "cluster_step L ms c c'"

section \<open>The invariant\<close>

definition node_ok :: "'d leveldb \<Rightarrow> string list \<Rightarrow> string \<Rightarrow> 'd RaftCore \<Rightarrow> bool" where
  "node_ok L ms n rc \<longleftrightarrow> ID rc = n \<and> Peers rc = ms \<and> durable L rc \<and> small_term (CurrentTerm rc)"

definition net_ok :: "string list \<Rightarrow> 'd cluster \<Rightarrow> bool" where
  "net_ok ms c \<longleftrightarrow> (\<forall>(d, p) \<in> cl_net c. pType p = RequestVoteResponse \<and> pVoteGranted p \<and> d \<noteq> [] \<longrightarrow>
     (pSenderId p, pTerm p, d) \<in> cl_votes c)"

definition votes_ok :: "string list \<Rightarrow> 'd cluster \<Rightarrow> bool" where
  "votes_ok ms c \<longleftrightarrow>
     (\<forall>(v, t, x) \<in> cl_votes c. v \<in> set ms \<and> t \<le> CurrentTerm (cl_node c v) \<and>
        (t = CurrentTerm (cl_node c v) \<longrightarrow> x = VotedFor (cl_node c v)) \<and> x \<noteq> []) \<and>
     (\<forall>v t x y. (v, t, x) \<in> cl_votes c \<and> (v, t, y) \<in> cl_votes c \<longrightarrow> x = y) \<and>
     (\<forall>n \<in> set ms. cast n (cl_node c n) \<subseteq> cl_votes c)"

definition role_ok :: "string list \<Rightarrow> (string \<times> int \<times> string) set \<Rightarrow> string \<Rightarrow> 'd RaftCore \<Rightarrow> bool" where
  "role_ok ms V n rc \<longleftrightarrow>
     (Role rc = Candidate \<longrightarrow> distinct (map fst (voteResult rc)) \<and>
        (\<forall>v. (v, True) \<in> set (voteResult rc) \<longrightarrow> (v, CurrentTerm rc, n) \<in> V)) \<and>
     (Role rc = Leader \<longrightarrow> (\<exists>Q. majority ms Q \<and> (\<forall>v \<in> Q. (v, CurrentTerm rc, n) \<in> V)))"

definition cluster_inv :: "'d leveldb \<Rightarrow> string list \<Rightarrow> 'd cluster \<Rightarrow> bool" where
  "cluster_inv L ms c \<longleftrightarrow> [] \<notin> set ms \<and> (\<forall>n \<in> set ms. node_ok L ms n (cl_node c n)) \<and> net_ok ms c \<and>
     votes_ok ms c \<and> (\<forall>n \<in> set ms. role_ok ms (cl_votes c) n (cl_node c n))"

lemma role_ok_mono: "role_ok ms V n rc \<Longrightarrow> V \<subseteq> W \<Longrightarrow> role_ok ms W n rc"
  unfolding role_ok_def by blast

text \<open>A node may move to a state that keeps the rules for the vote; votes stay functional.\<close>

definition vote_step :: "'d RaftCore \<Rightarrow> 'd RaftCore \<Rightarrow> bool" where
  "vote_step rc rc' \<longleftrightarrow> CurrentTerm rc \<le> CurrentTerm rc' \<and>
     (CurrentTerm rc' = CurrentTerm rc \<and> VotedFor rc \<noteq> [] \<longrightarrow> VotedFor rc' = VotedFor rc)"

lemma votes_ok_put:
  assumes "votes_ok ms c" and "n \<in> set ms" and "vote_step (cl_node c n) rc'"
  shows "votes_ok ms (cluster_put n rc' os c)"
proof -
  let ?c = "cluster_put n rc' os c"
  let ?old = "cl_node c n"
  have old: "v \<in> set ms \<and> t \<le> CurrentTerm (cl_node c v) \<and>
      (t = CurrentTerm (cl_node c v) \<longrightarrow> x = VotedFor (cl_node c v)) \<and> x \<noteq> []" if "(v, t, x) \<in> cl_votes c" for v t x
    using assms(1) that by (auto simp: votes_ok_def)
  have fresh: "x = VotedFor rc'" if "(n, CurrentTerm rc', x) \<in> cl_votes c" for x
    using old [OF that] assms(3) by (auto simp: vote_step_def)
  have "v \<in> set ms \<and> t \<le> CurrentTerm (cl_node ?c v) \<and>
      (t = CurrentTerm (cl_node ?c v) \<longrightarrow> x = VotedFor (cl_node ?c v)) \<and> x \<noteq> []" if "(v, t, x) \<in> cl_votes ?c" for v t x
    using that old [of v t x] fresh assms(2,3)
    by (auto simp: cluster_put_def cast_def vote_step_def split: if_splits)
  moreover have "x = y" if "(v, t, x) \<in> cl_votes ?c" "(v, t, y) \<in> cl_votes ?c" for v t x y
    using that fresh assms(1)
    by (auto simp: cluster_put_def cast_def votes_ok_def split: if_splits)
  moreover have "cast m (cl_node ?c m) \<subseteq> cl_votes ?c" if "m \<in> set ms" for m
    using assms(1) that by (auto simp: cluster_put_def votes_ok_def)
  ultimately show ?thesis by (auto simp: votes_ok_def)
qed

lemma cluster_inv_put:
  assumes inv: "cluster_inv L ms c" and n: "n \<in> set ms" and vs: "vote_step (cl_node c n) rc'"
    and ok: "node_ok L ms n rc'"
    and net: "\<And>d p. Send d p \<in> set os \<Longrightarrow> pType p = RequestVoteResponse \<Longrightarrow> pVoteGranted p \<Longrightarrow> d \<noteq> [] \<Longrightarrow>
      pSenderId p = n \<and> pTerm p = CurrentTerm rc' \<and> VotedFor rc' = d"
    and role: "role_ok ms (cl_votes c \<union> cast n rc') n rc'"
  shows "cluster_inv L ms (cluster_put n rc' os c)"
proof -
  have "net_ok ms (cluster_put n rc' os c)"
    using inv net by (fastforce simp: cluster_inv_def net_ok_def cluster_put_def cast_def)
  moreover have "votes_ok ms (cluster_put n rc' os c)"
    using inv n vs by (intro votes_ok_put) (simp_all add: cluster_inv_def)
  moreover have "role_ok ms (cl_votes (cluster_put n rc' os c)) m (cl_node (cluster_put n rc' os c) m)"
    if "m \<in> set ms" for m
    using inv role role_ok_mono [of ms "cl_votes c" m "cl_node c m" "cl_votes c \<union> cast n rc'"] that
    by (auto simp: cluster_inv_def cluster_put_def)
  ultimately show ?thesis using inv ok by (auto simp: cluster_inv_def cluster_put_def)
qed

lemma update_True:
  "distinct (map fst vr) \<Longrightarrow> (v, True) \<in> set (AList.update s g vr) \<Longrightarrow> (v = s \<and> g) \<or> (v, True) \<in> set vr"
  by (induction vr) (auto split: if_splits)

lemma counting_role:
  assumes inv: "cluster_inv L ms c" and n: "n \<in> set ms" and "counting L (Some p) (cl_node c n) rc' os"
    and net: "(n, p) \<in> cl_net c" "pType p = RequestVoteResponse"
  shows "role_ok ms (cl_votes c) n rc'"
proof -
  let ?rc = "cl_node c n"
  have ro: "role_ok ms (cl_votes c) n ?rc" using inv n by (simp add: cluster_inv_def)
  have peers: "Peers ?rc = ms" using inv n by (simp add: cluster_inv_def node_ok_def)
  have t: "pTerm p = CurrentTerm ?rc" "CurrentTerm rc' = CurrentTerm ?rc"
    and vr: "voteResult rc' = AList.update (pSenderId p) (pVoteGranted p) (voteResult ?rc)"
    and cases: "Role rc' = Role ?rc \<or> Role ?rc = Candidate \<and> Role rc' = Leader \<and> vote_majority ms (voteResult rc')"
    using assms(3) peers by (auto simp: counting_def)
  have granted: "pVoteGranted p \<Longrightarrow> (pSenderId p, CurrentTerm ?rc, n) \<in> cl_votes c"
    using inv n net t by (auto simp: cluster_inv_def net_ok_def)
  have cand: "distinct (map fst (voteResult rc')) \<and>
      (\<forall>v. (v, True) \<in> set (voteResult rc') \<longrightarrow> (v, CurrentTerm ?rc, n) \<in> cl_votes c)"
    if "Role ?rc = Candidate"
    using that ro granted update_True [of "voteResult ?rc"]
    by (auto simp: role_ok_def vr distinct_update)
  show ?thesis
  proof (cases "Role ?rc = Candidate \<and> Role rc' = Leader")
    case True
    have "\<And>v. (v, True) \<in> set (voteResult rc') \<Longrightarrow> v \<in> set ms"
      using cand True inv by (fastforce simp: cluster_inv_def votes_ok_def)
    with vote_majority_set [of ms "voteResult rc'"] cand cases True
    have "majority ms {v. (v, True) \<in> set (voteResult rc')}" by auto
    with cand True show ?thesis by (auto simp: role_ok_def t)
  next
    case False
    then have "Role rc' = Role ?rc" using cases by auto
    with ro cand show ?thesis by (auto simp: role_ok_def t)
  qed
qed

lemma response_of_type: "response_of ev = Some p \<Longrightarrow> pType p = RequestVoteResponse"
  by (auto simp: response_of_def split: raft_event.splits option.splits if_splits)

lemma inv_act:
  assumes inv: "cluster_inv L ms c" and ok: "leveldb_ok L" and n: "n \<in> set ms" and "sane_event ev"
    and resp: "\<forall>p. response_of ev = Some p \<longrightarrow> (n, p) \<in> cl_net c" and "CurrentTerm (cl_node c n) < 2 ^ 53"
    and step: "node_step L pick now r ev (cl_node c n) = Some (rc', os)" and b: "CurrentTerm rc' \<le> 2 ^ 53"
  shows "cluster_inv L ms (cluster_put n rc' os c)"
proof -
  let ?rc = "cl_node c n"
  have nok: "node_ok L ms n ?rc" and ro: "role_ok ms (cl_votes c) n ?rc" and ne: "n \<noteq> []"
    using inv n by (auto simp: cluster_inv_def)
  then have d: "durable L ?rc" "small_term (CurrentTerm ?rc)" by (simp_all add: node_ok_def)
  note nt = node_step_term [OF step ok d assms(6,4)]
  have vs: "vote_step ?rc rc'" using nt by (simp add: vote_step_def)
  have nok': "node_ok L ms n rc'" using nt nok b by (auto simp: node_ok_def same_node_def small_term_def)
  have mono: "role_ok ms (cl_votes c) n rc' \<Longrightarrow> role_ok ms (cl_votes c \<union> cast n rc') n rc'"
    by (rule role_ok_mono) auto
  from node_step_cases [OF step ok d assms(6,4)] show ?thesis
  proof (elim disjE)
    assume c: "calm L ?rc rc' os"
    then have "role_ok ms (cl_votes c) n rc'"
      using ro by (auto simp: calm_def same_vote_def stepped_down_def role_ok_def)
    with c show ?thesis
      by (intro cluster_inv_put [OF inv n vs nok' _ mono]) (auto simp: calm_def no_votes_def)
  next
    assume v: "voting L ?rc rc' os"
    then have "role_ok ms (cl_votes c) n rc'"
      using ro by (cases "CurrentTerm rc' = CurrentTerm ?rc") (auto simp: voting_def role_ok_def)
    with v nok' show ?thesis
      by (intro cluster_inv_put [OF inv n vs nok' _ mono]) (auto simp: voting_def vote_reply_def node_ok_def)
  next
    assume c: "counting L (response_of ev) ?rc rc' os"
    then obtain p where p: "response_of ev = Some p" by (auto simp: counting_def)
    with c resp have "role_ok ms (cl_votes c) n rc'"
      by (intro counting_role [OF inv n _ _ response_of_type [OF p]]) simp_all
    with c show ?thesis
      by (intro cluster_inv_put [OF inv n vs nok' _ mono]) (auto simp: counting_def no_votes_def)
  next
    assume s: "standing L ?rc rc' os"
    then have "role_ok ms (cl_votes c \<union> cast n rc') n rc'"
      using nok ne by (auto simp: standing_def role_ok_def cast_def node_ok_def)
    with s show ?thesis
      by (intro cluster_inv_put [OF inv n vs nok']) (auto simp: standing_def no_votes_def)
  qed
qed

lemma inv_restart:
  assumes inv: "cluster_inv L ms c" and ok: "leveldb_ok L" and n: "n \<in> set ms"
    and step: "NewRaftClient L now r n (rcGroup (cl_node c n)) ms (store (cl_node c n)) = Some (rc', os)"
  shows "cluster_inv L ms (cluster_put n rc' os c)"
proof -
  have "durable L (cl_node c n)" "small_term (CurrentTerm (cl_node c n))"
    using inv n by (auto simp: cluster_inv_def node_ok_def)
  from NewRaftClient_step [OF step ok this] this show ?thesis
    by (intro cluster_inv_put [OF inv n]) (auto simp: vote_step_def node_ok_def role_ok_def no_votes_def)
qed

lemma inv_init: "cluster_init L ms c \<Longrightarrow> cluster_inv L ms c"
  by (auto simp: cluster_init_def cluster_inv_def node_ok_def net_ok_def votes_ok_def role_ok_def cast_def
      split: if_splits)

lemma inv_reach:
  assumes "cluster_reach L ms c" and ok: "leveldb_ok L"
  shows "cluster_inv L ms c"
  using assms(1)
proof (induction rule: cluster_reach.induct)
  case (init c)
  then show ?case by (rule inv_init)
next
  case (step c c')
  from step.hyps(2) show ?case
    by (cases rule: cluster_step.cases) (auto intro: inv_act [OF step.IH ok] inv_restart [OF step.IH ok])
qed

section \<open>Properties\<close>

text \<open>
  C1: Election safety: in every state the cluster can reach, whatever the network does with the
  messages and however often nodes restart, two leaders of the same term are the same node,
  provided each \<open>startElection\<close> runs without other handlers in between.
\<close>

theorem election_safety:
  assumes "cluster_reach L ms c" and "leveldb_ok L" and "a \<in> set ms" and "b \<in> set ms"
    and "Role (cl_node c a) = Leader" and "Role (cl_node c b) = Leader"
    and "CurrentTerm (cl_node c a) = CurrentTerm (cl_node c b)"
  shows "a = b"
proof -
  note inv = inv_reach [OF assms(1,2)]
  let ?t = "CurrentTerm (cl_node c b)"
  have "role_ok ms (cl_votes c) a (cl_node c a)" "role_ok ms (cl_votes c) b (cl_node c b)"
    using inv assms(3,4) by (simp_all add: cluster_inv_def)
  with assms(5-7) obtain A B where q: "majority ms A" "majority ms B"
    and A: "\<And>v. v \<in> A \<Longrightarrow> (v, ?t, a) \<in> cl_votes c" and B: "\<And>v. v \<in> B \<Longrightarrow> (v, ?t, b) \<in> cl_votes c"
    unfolding role_ok_def by metis
  have "x = y" if "(v, ?t, x) \<in> cl_votes c" "(v, ?t, y) \<in> cl_votes c" for v x y
    using inv that unfolding cluster_inv_def votes_ok_def by blast
  then show ?thesis
    using maj.unique_winner [OF q, of "\<lambda>v x. (v, ?t, x) \<in> cl_votes c"] A B by blast
qed

text \<open>A run of two nodes that elects a leader.\<close>

lemma startElection_result:
  assumes "Role rc \<noteq> Leader" and "startElection L now r rc = (rc', os)"
  shows "Role rc' = Candidate \<and> CurrentTerm rc' = i64 (CurrentTerm rc + 1) \<and> VotedFor rc' = ID rc \<and>
    voteResult rc' = [(ID rc, True)] \<and> ID rc' = ID rc \<and> Peers rc' = Peers rc"
  using assms by (auto simp: startElection_def startElection_check_def startElection_switch_def
      switchToCandidate_def resetVoteResult_def Let_def split_beta)

lemma handleRequestVote_grants:
  assumes "CurrentTerm rc < pTerm p" and "isUpToDate (pPrevLogIndex p) (pPrevLogTerm p) rc"
    and "handleRequestVote L now r p rc = (rc', os)"
  shows "\<exists>q. os = [Send (pCandidateId p) q] \<and> pType q = RequestVoteResponse \<and> pVoteGranted q \<and>
    pTerm q = pTerm p \<and> pSenderId q = ID rc \<and> pInvokeId q = pInvokeId p \<and> CurrentTerm rc' = pTerm p"
  using assms by (auto simp: handleRequestVote_def Let_def)

lemma resolvePending_none: "pending rc = [] \<Longrightarrow> resolvePending i rc = rc"
  by (simp add: resolvePending_def)

lemma counted_vote_wins:
  assumes "Role rc = Candidate" and "pTerm p = CurrentTerm rc"
    and "vote_majority (Peers rc) (AList.update (pSenderId p) (pVoteGranted p) (voteResult rc))"
    and "handleRequestVoteResponse L now r p rc = (rc', os)"
  shows "Role rc' = Leader \<and> CurrentTerm rc' = CurrentTerm rc \<and>
    voteResult rc' = AList.update (pSenderId p) (pVoteGranted p) (voteResult rc) \<and> Peers rc' = Peers rc \<and>
    ID rc' = ID rc"
proof -
  define rc1 where "rc1 = recordVote (pSenderId p) (pVoteGranted p) (resolvePending (pInvokeId p) rc)"
  have "hasMajorityVotes rc1" and "Role rc1 = Candidate"
    using assms(1,3) by (simp_all add: rc1_def recordVote_def hasMajorityVotes_def vote_majority_def)
  moreover obtain rc2 o2 where l: "switchToLeader now rc1 = (rc2, o2)" by fastforce
  ultimately have "rc' = initProgress (Peers rc2) (fst (getLastLogIndex rc2)) rc2"
    using assms(2,4) by (auto simp: handleRequestVoteResponse_def Let_def rc1_def [symmetric] split_beta)
  with switchToLeader_view [OF l] show ?thesis
    by (simp add: same_node_def) (simp add: rc1_def recordVote_def)
qed

definition ex_cluster :: "(string \<times> goval) list cluster" where
  "ex_cluster = \<lparr>cl_node = (\<lambda>n. ex_voter\<lparr>ID := n\<rparr>), cl_net = {}, cl_votes = {}\<rparr>"

lemma ex_voter_fields [simp]:
  "Role ex_voter = Follower" "CurrentTerm ex_voter = 0" "VotedFor ex_voter = []" "ID ex_voter = ''a''"
  "Peers ex_voter = [''a'', ''b'']" "Log ex_voter = []"
  by (simp_all add: ex_voter_def ex_core_def)

lemma ex_voter_durable: "durable alist_db (ex_voter\<lparr>ID := n\<rparr>)"
  by (auto simp: durable_def ex_voter_def ex_core_def LoadMeta_def alist_db_def)

lemma ex_cluster_elects:
  "\<exists>c. cluster_reach alist_db [''a'', ''b''] c \<and> Role (cl_node c ''a'') = Leader \<and> CurrentTerm (cl_node c ''a'') = 1"
proof -
  let ?ms = "[''a'', ''b'']" and ?pick = "\<lambda>_. 0"
  have c0: "cluster_reach alist_db ?ms ex_cluster"
    by (rule cluster_reach.init) (auto simp: cluster_init_def ex_cluster_def ex_voter_durable cast_def small_term_def)
  obtain a1 o1 where a1: "startElection alist_db 0 0 (ex_voter\<lparr>ID := ''a''\<rparr>) = (a1, o1)" by fastforce
  have f1: "Role a1 = Candidate" "CurrentTerm a1 = 1" "voteResult a1 = [(''a'', True)]" "Peers a1 = ?ms"
    using startElection_result [OF _ a1] by simp_all
  define c1 where "c1 = cluster_put ''a'' a1 o1 ex_cluster"
  have "cluster_step alist_db ?ms ex_cluster c1"
    unfolding c1_def by (rule cluster_step.act [of "''a''" ?ms EvElection _ alist_db ?pick 0 0])
      (simp_all add: sane_event_def response_of_def ex_cluster_def a1 f1)
  with c0 have r1: "cluster_reach alist_db ?ms c1" by (rule cluster_reach.step)
  define m where "m = zero_payload\<lparr>pType := RequestVote, pTerm := 1, pCandidateId := ''a''\<rparr>"
  have fm: "pType m = RequestVote" "pTerm m = 1" "pCandidateId m = ''a''" "pPrevLogIndex m = 0" "pPrevLogTerm m = 0"
    by (simp_all add: m_def zero_payload_def)
  let ?b = "ex_voter\<lparr>ID := ''b''\<rparr>"
  obtain b1 o2 where b1: "handleRequestVote alist_db 0 0 m ?b = (b1, o2)" by fastforce
  have up: "isUpToDate 0 0 ?b" by (simp add: isUpToDate_def getLastLogIndex_def lastLog_def)
  obtain q where q: "o2 = [Send ''a'' q]" "pType q = RequestVoteResponse" "pVoteGranted q" "pTerm q = 1"
    "pSenderId q = ''b''" and tb: "CurrentTerm b1 = 1"
    using handleRequestVote_grants [of ?b m alist_db 0 0, OF _ _ b1] up by (auto simp: fm)
  define c2 where "c2 = cluster_put ''b'' b1 o2 c1"
  have "cluster_step alist_db ?ms c1 c2"
    unfolding c2_def
    by (rule cluster_step.act [of "''b''" ?ms "EvMessage ''a'' (Some (CPayload m))" _ alist_db ?pick 0 0])
      (simp_all add: sane_event_def response_of_def as_payload_def fm c1_def cluster_put_def ex_cluster_def
        onRaftMessage_def b1 tb)
  with r1 have r2: "cluster_reach alist_db ?ms c2" by (rule cluster_reach.step)
  obtain a2 o3 where a2: "handleRequestVoteResponse alist_db 0 0 q a1 = (a2, o3)" by fastforce
  have f2: "Role a2 = Leader" "CurrentTerm a2 = 1"
    using counted_vote_wins [OF _ _ _ a2] f1 q by (simp_all add: vote_majority_def)
  define c3 where "c3 = cluster_put ''a'' a2 o3 c2"
  have "cluster_step alist_db ?ms c2 c3"
    unfolding c3_def
    by (rule cluster_step.act [of "''a''" ?ms "EvMessage ''b'' (Some (CPayload q))" _ alist_db ?pick 0 0])
      (simp_all add: sane_event_def response_of_def as_payload_def q f1 f2 c2_def c1_def cluster_put_def
        onRaftMessage_def a2)
  with r2 have "cluster_reach alist_db ?ms c3" by (rule cluster_reach.step)
  with f2 show ?thesis by (intro exI [of _ c3]) (simp add: c3_def cluster_put_def)
qed

theorem election_safety_witness:
  "\<exists>c. cluster_reach alist_db [''a'', ''b''] c \<and> Role (cl_node c ''a'') = Leader \<and>
     \<not> (Role (cl_node c ''b'') = Leader \<and> CurrentTerm (cl_node c ''b'') = 1)"
proof -
  from ex_cluster_elects obtain c where c: "cluster_reach alist_db [''a'', ''b''] c"
    "Role (cl_node c ''a'') = Leader" "CurrentTerm (cl_node c ''a'') = 1" by blast
  with election_safety [OF c(1) alist_db_ok, of "''a''" "''b''"] show ?thesis by auto
qed

definition ex_candidate :: "(string \<times> goval) list RaftCore" where
  "ex_candidate = (ex_core [''a'', ''b'', ''c''] [] [] 1)\<lparr>Role := Candidate, voteResult := [(''a'', True)]\<rparr>"

definition ex_response :: "string \<Rightarrow> int \<Rightarrow> bool \<Rightarrow> RaftPayload" where
  "ex_response from1 t g = zero_payload\<lparr>pType := RequestVoteResponse, pTerm := t, pVoteGranted := g,
     pCandidateId := ''a'', pSenderId := from1\<rparr>"

text \<open>
  When a vote response is handled between the regions of \<open>startElection\<close>, votes of the old term
  are counted in the new one: a candidate of term 1 restarts its election, a delayed vote of term 1
  arrives after the votes were reset (for a moment making it leader of term 1), and in term 2 a refusal is enough to make it leader, although
  no other node voted for it in term 2.
\<close>

theorem interrupted_election_elects_without_votes:
  "startElection_check ex_candidate \<and>
   (let rc1 = resetVoteResult ex_candidate;
        rc2 = fst (handleRequestVoteResponse alist_db 0 0 (ex_response ''b'' 1 True) rc1);
        (rc3, reqs) = startElection_switch alist_db 0 0 rc2;
        rc4 = fst (handleRequestVoteResponse alist_db 0 0 (ex_response ''c'' 2 False) rc3)
    in CurrentTerm rc3 = 2 \<and> Role rc3 = Candidate \<and> Role rc4 = Leader \<and> CurrentTerm rc4 = 2)"
proof -
  have p: "pTerm (ex_response f t g) = t" "pVoteGranted (ex_response f t g) = g"
    "pSenderId (ex_response f t g) = f" for f t g by (simp_all add: ex_response_def zero_payload_def)
  define rc1 where "rc1 = resetVoteResult ex_candidate"
  have f1: "Role rc1 = Candidate" "CurrentTerm rc1 = 1" "voteResult rc1 = [(''a'', True)]"
    "Peers rc1 = [''a'', ''b'', ''c'']" "ID rc1 = ''a''"
    by (simp_all add: rc1_def resetVoteResult_def ex_candidate_def ex_core_def)
  obtain rc2 o2 where h2: "handleRequestVoteResponse alist_db 0 0 (ex_response ''b'' 1 True) rc1 = (rc2, o2)"
    by fastforce
  have f2: "Role rc2 = Leader" "CurrentTerm rc2 = 1" "voteResult rc2 = [(''a'', True), (''b'', True)]"
    "Peers rc2 = [''a'', ''b'', ''c'']"
    using counted_vote_wins [OF _ _ _ h2] f1 by (simp_all add: p vote_majority_def)
  obtain rc3 o3 where h3: "startElection_switch alist_db 0 0 rc2 = (rc3, o3)" by fastforce
  have f3: "Role rc3 = Candidate" "CurrentTerm rc3 = 2" "voteResult rc3 = [(''a'', True), (''b'', True)]"
    "Peers rc3 = [''a'', ''b'', ''c'']"
    using h3 f2 by (auto simp: startElection_switch_def switchToCandidate_def Let_def split_beta)
  obtain rc4 o4 where h4: "handleRequestVoteResponse alist_db 0 0 (ex_response ''c'' 2 False) rc3 = (rc4, o4)"
    by fastforce
  have "Role rc4 = Leader" "CurrentTerm rc4 = 2"
    using counted_vote_wins [OF _ _ _ h4] f3 by (simp_all add: p vote_majority_def)
  moreover have "startElection_check ex_candidate"
    by (simp add: startElection_check_def ex_candidate_def ex_core_def)
  ultimately show ?thesis using f3 by (simp add: rc1_def [symmetric] h2 h3 h4)
qed

end
