(* ===== verification/Kv_Group.thy ===== *)
theory Kv_Group
  imports Kv_Spec
begin

text \<open>
  core/KVGroup.go: \<open>OrderedKV\<close>, a list of entries in insertion order with an index map from keys to
  positions and a log of the operations. A \<open>nil\<close> value of a delete's log entry is \<open>GNil\<close>.
\<close>

section \<open>State and operations\<close>

record KVEntry =
  Key :: string
  Value :: goval

record LogEntry =
  le_Index :: int
  le_Term :: int
  le_Op :: string
  le_Key :: string
  le_Value :: goval

record OrderedKV =
  kvList :: "KVEntry list"
  kvMap :: "string \<rightharpoonup> int"
  olog :: "LogEntry list"

definition NewOrderedKV :: OrderedKV where
  "NewOrderedKV = \<lparr>kvList = [], kvMap = Map.empty, olog = []\<rparr>"

definition OrderedKV_Put :: "string \<Rightarrow> goval \<Rightarrow> int \<Rightarrow> int \<Rightarrow> OrderedKV \<Rightarrow> OrderedKV option" where
  "OrderedKV_Put key value term index o1 = do {
     o2 \<leftarrow> (case kvMap o1 key of
        Some idx \<Rightarrow> do {
          e \<leftarrow> go_nth (kvList o1) idx;
          Some (o1\<lparr>kvList := (kvList o1)[nat idx := e\<lparr>Value := value\<rparr>]\<rparr>) }
      | None \<Rightarrow>
          (let l = kvList o1 @ [\<lparr>Key = key, Value = value\<rparr>] in
           Some (o1\<lparr>kvList := l, kvMap := (kvMap o1)(key \<mapsto> int (length l) - 1)\<rparr>)));
     Some (o2\<lparr>olog := olog o2 @ [\<lparr>le_Index = index, le_Term = term, le_Op = ''put'',
       le_Key = key, le_Value = value\<rparr>]\<rparr>) }"

text \<open>The loop of \<open>Delete\<close> that renumbers the entries from position \<open>i\<close> on.\<close>

fun reindex :: "int \<Rightarrow> KVEntry list \<Rightarrow> (string \<rightharpoonup> int) \<Rightarrow> (string \<rightharpoonup> int)" where
  "reindex i [] m = m"
| "reindex i (e # es) m = reindex (i + 1) es (m(Key e \<mapsto> i))"

definition OrderedKV_Delete :: "string \<Rightarrow> int \<Rightarrow> int \<Rightarrow> OrderedKV \<Rightarrow> OrderedKV option" where
  "OrderedKV_Delete key term index o1 = do {
     o2 \<leftarrow> (case kvMap o1 key of
        Some idx \<Rightarrow> do {
          pre \<leftarrow> go_take (kvList o1) idx;
          post \<leftarrow> go_drop (kvList o1) (idx + 1);
          Some (o1\<lparr>kvList := pre @ post,
                   kvMap := reindex idx post ((kvMap o1)(key := None))\<rparr>) }
      | None \<Rightarrow> Some o1);
     Some (o2\<lparr>olog := olog o2 @ [\<lparr>le_Index = index, le_Term = term, le_Op = ''delete'',
       le_Key = key, le_Value = GNil\<rparr>]\<rparr>) }"

text \<open>The outer option is the panic, the inner one the boolean of \<open>Get\<close>.\<close>

definition OrderedKV_Get :: "string \<Rightarrow> OrderedKV \<Rightarrow> goval option option" where
  "OrderedKV_Get key o1 =
     (case kvMap o1 key of
        Some idx \<Rightarrow> do { e \<leftarrow> go_nth (kvList o1) idx; Some (Some (Value e)) }
      | None \<Rightarrow> Some None)"

definition OrderedKV_Range :: "OrderedKV \<Rightarrow> (string \<times> goval) list" where
  "OrderedKV_Range o1 = map (\<lambda>e. (Key e, Value e)) (kvList o1)"

definition OrderedKV_AppendLog :: "LogEntry \<Rightarrow> OrderedKV \<Rightarrow> OrderedKV" where
  "OrderedKV_AppendLog entry o1 = o1\<lparr>olog := olog o1 @ [entry]\<rparr>"

definition replay_entry :: "LogEntry \<Rightarrow> OrderedKV \<Rightarrow> OrderedKV option" where
  "replay_entry e o1 =
     (if le_Op e = ''put'' then OrderedKV_Put (le_Key e) (le_Value e) (le_Term e) (le_Index e) o1
      else if le_Op e = ''delete'' then OrderedKV_Delete (le_Key e) (le_Term e) (le_Index e) o1
      else Some o1)"

text \<open>
  The range loop of \<open>ReplayLog\<close> evaluates \<open>o.log\<close> once, before \<open>Put\<close> and \<open>Delete\<close> append to it.
\<close>

definition OrderedKV_ReplayLog :: "OrderedKV \<Rightarrow> OrderedKV option" where
  "OrderedKV_ReplayLog o1 =
     foldM replay_entry (olog o1) (o1\<lparr>kvList := [], kvMap := Map.empty\<rparr>)"

section \<open>Invariant and abstraction\<close>

definition kv_inv :: "OrderedKV \<Rightarrow> bool" where
  "kv_inv o1 \<longleftrightarrow> distinct (map Key (kvList o1)) \<and>
     (\<forall>k i. kvMap o1 k = Some i \<longleftrightarrow>
        0 \<le> i \<and> i < int (length (kvList o1)) \<and> Key (kvList o1 ! nat i) = k)"

definition kv_abs :: "OrderedKV \<Rightarrow> (string \<rightharpoonup> goval)" where
  "kv_abs o1 = map_of (OrderedKV_Range o1)"

definition entry_cmds :: "LogEntry \<Rightarrow> kv_cmd list" where
  "entry_cmds e = (if le_Op e = ''put'' then [KvPut (le_Key e) (le_Value e)]
     else if le_Op e = ''delete'' then [KvDel (le_Key e)] else [])"

definition log_cmds :: "LogEntry list \<Rightarrow> kv_cmd list" where
  "log_cmds es = concat (map entry_cmds es)"

lemma kv_inv_new [simp]: "kv_inv NewOrderedKV"
  by (simp add: kv_inv_def NewOrderedKV_def)

lemma kv_inv_olog [simp]: "kv_inv (o1\<lparr>olog := l\<rparr>) = kv_inv o1"
  by (simp add: kv_inv_def)

lemma kv_abs_olog [simp]: "kv_abs (o1\<lparr>olog := l\<rparr>) = kv_abs o1"
  by (simp add: kv_abs_def OrderedKV_Range_def)

lemma kv_inv_SomeD:
  "kv_inv o1 \<Longrightarrow> kvMap o1 k = Some i \<Longrightarrow>
     0 \<le> i \<and> i < int (length (kvList o1)) \<and> Key (kvList o1 ! nat i) = k"
  by (simp add: kv_inv_def)

lemma kv_inv_None: "kv_inv o1 \<Longrightarrow> kvMap o1 k = None \<longleftrightarrow> k \<notin> Key ` set (kvList o1)"
proof -
  assume inv: "kv_inv o1"
  have "kvMap o1 k \<noteq> None \<longleftrightarrow> k \<in> Key ` set (kvList o1)"
  proof
    assume "kvMap o1 k \<noteq> None"
    then obtain i where "kvMap o1 k = Some i" by auto
    with inv have "0 \<le> i" "i < int (length (kvList o1))" "Key (kvList o1 ! nat i) = k"
      by (auto dest: kv_inv_SomeD)
    then have "kvList o1 ! nat i \<in> set (kvList o1)" by (intro nth_mem) linarith
    then show "k \<in> Key ` set (kvList o1)" using \<open>Key (kvList o1 ! nat i) = k\<close> by blast
  next
    assume "k \<in> Key ` set (kvList o1)"
    then obtain j where "j < length (kvList o1)" "Key (kvList o1 ! j) = k"
      by (auto simp: in_set_conv_nth)
    then have "kvMap o1 k = Some (int j)" using inv by (simp add: kv_inv_def)
    then show "kvMap o1 k \<noteq> None" by simp
  qed
  then show ?thesis by auto
qed

lemma map_of_entries_nth:
  assumes "distinct (map Key l)" and "i < length l"
  shows "map_of (map (\<lambda>e. (Key e, Value e)) l) (Key (l ! i)) = Some (Value (l ! i))"
proof -
  have keys: "map fst (map (\<lambda>e. (Key e, Value e)) l) = map Key l" by (simp add: comp_def)
  show ?thesis
  proof (rule map_of_is_SomeI)
    show "distinct (map fst (map (\<lambda>e. (Key e, Value e)) l))" unfolding keys by (rule assms(1))
    show "(Key (l ! i), Value (l ! i)) \<in> set (map (\<lambda>e. (Key e, Value e)) l)"
      using assms(2) by auto
  qed
qed

lemma OrderedKV_Get_abs:
  assumes "kv_inv o1"
  shows "OrderedKV_Get k o1 = Some (kv_abs o1 k)"
proof (cases "kvMap o1 k")
  case None
  then have "k \<notin> Key ` set (kvList o1)" using kv_inv_None [OF assms] by simp
  then have "map_of (OrderedKV_Range o1) k = None"
    by (auto simp: OrderedKV_Range_def map_of_eq_None_iff image_iff)
  with None show ?thesis by (simp add: OrderedKV_Get_def kv_abs_def)
next
  case (Some i)
  with assms have i: "0 \<le> i" "i < int (length (kvList o1))" "Key (kvList o1 ! nat i) = k"
    by (auto dest: kv_inv_SomeD)
  then have "map_of (OrderedKV_Range o1) k = Some (Value (kvList o1 ! nat i))"
    using map_of_entries_nth [of "kvList o1" "nat i"] assms
    by (auto simp: OrderedKV_Range_def kv_inv_def)
  with Some i show ?thesis by (simp add: OrderedKV_Get_def kv_abs_def)
qed

section \<open>Put\<close>

lemma update_value_keys:
  "map Key (l[i := (l ! i)\<lparr>Value := v\<rparr>]) = map Key l"
  by (cases "i < length l") (auto simp: map_update list_update_same_conv intro: nth_equalityI)

lemma map_of_entries_update:
  assumes "distinct (map Key l)" and "i < length l"
  shows "map_of (map (\<lambda>e. (Key e, Value e)) (l[i := (l ! i)\<lparr>Value := v\<rparr>])) =
         (map_of (map (\<lambda>e. (Key e, Value e)) l))(Key (l ! i) \<mapsto> v)"
  using assms
proof (induction l arbitrary: i)
  case Nil
  then show ?case by simp
next
  case (Cons e l)
  show ?case
  proof (cases i)
    case 0
    then show ?thesis by (auto simp: fun_eq_iff)
  next
    case (Suc j)
    with Cons.prems have "Key e \<noteq> Key (l ! j)" by auto
    with Cons Suc show ?thesis by (auto simp: fun_eq_iff)
  qed
qed

lemma OrderedKV_Put_ok:
  assumes "kv_inv o1"
  shows "\<exists>o2. OrderedKV_Put k v t i o1 = Some o2 \<and> kv_inv o2 \<and> kv_abs o2 = (kv_abs o1)(k \<mapsto> v) \<and>
     olog o2 = olog o1 @ [\<lparr>le_Index = i, le_Term = t, le_Op = ''put'', le_Key = k, le_Value = v\<rparr>] \<and>
     map Key (kvList o2) = (if k \<in> Key ` set (kvList o1) then map Key (kvList o1)
       else map Key (kvList o1) @ [k])"
proof (cases "kvMap o1 k")
  case None
  then have new: "k \<notin> Key ` set (kvList o1)" using kv_inv_None [OF assms] by simp
  let ?o = "o1\<lparr>kvList := kvList o1 @ [\<lparr>Key = k, Value = v\<rparr>],
              kvMap := (kvMap o1)(k \<mapsto> int (length (kvList o1)))\<rparr>"
  have "kv_inv ?o"
    unfolding kv_inv_def
  proof (intro conjI allI)
    show "distinct (map Key (kvList ?o))" using assms new by (auto simp: kv_inv_def)
    fix k' j
    show "kvMap ?o k' = Some j \<longleftrightarrow> 0 \<le> j \<and> j < int (length (kvList ?o)) \<and> Key (kvList ?o ! nat j) = k'"
    proof (cases "0 \<le> j \<and> j < int (length (kvList o1))")
      case True
      then have "kvList o1 ! nat j \<in> set (kvList o1)" by (intro nth_mem) linarith
      with True new assms show ?thesis by (auto simp: kv_inv_def nth_append)
    next
      case False
      with assms have "kvMap o1 k' \<noteq> Some j" by (auto simp: kv_inv_def)
      with False show ?thesis by (auto simp: nth_append)
    qed
  qed
  moreover have "kv_abs ?o = (kv_abs o1)(k \<mapsto> v)"
  proof
    fix x
    have "map_of (map (\<lambda>e. (Key e, Value e)) (kvList o1)) k = None"
      using new by (auto simp: map_of_eq_None_iff image_iff)
    then show "kv_abs ?o x = ((kv_abs o1)(k \<mapsto> v)) x"
      by (auto simp: kv_abs_def OrderedKV_Range_def map_add_def split: option.splits)
  qed
  ultimately show ?thesis using None new by (simp add: OrderedKV_Put_def Let_def)
next
  case (Some idx)
  with assms have idx: "0 \<le> idx" "idx < int (length (kvList o1))" "Key (kvList o1 ! nat idx) = k"
    by (auto dest: kv_inv_SomeD)
  let ?l = "(kvList o1)[nat idx := (kvList o1 ! nat idx)\<lparr>Value := v\<rparr>]"
  have keys: "map Key ?l = map Key (kvList o1)" by (rule update_value_keys)
  have key_nth: "Key (?l ! j) = Key (kvList o1 ! j)" if "j < length (kvList o1)" for j
  proof -
    have "map Key ?l ! j = map Key (kvList o1) ! j" using keys by simp
    then show ?thesis using that by simp
  qed
  have "kv_inv (o1\<lparr>kvList := ?l\<rparr>)"
    using assms key_nth keys by (auto simp: kv_inv_def)
  moreover have "kv_abs (o1\<lparr>kvList := ?l\<rparr>) = (kv_abs o1)(k \<mapsto> v)"
    using map_of_entries_update [of "kvList o1" "nat idx" v] idx assms
    by (simp add: kv_abs_def OrderedKV_Range_def kv_inv_def nat_less_iff)
  moreover have "k \<in> Key ` set (kvList o1)"
    using kv_inv_None [OF assms, of k] Some by auto
  ultimately show ?thesis using Some idx keys by (simp add: OrderedKV_Put_def)
qed

section \<open>Delete\<close>

lemma reindex_other: "k \<notin> Key ` set es \<Longrightarrow> reindex i es m k = m k"
  by (induction i es m rule: reindex.induct) auto

lemma reindex_nth:
  "distinct (map Key es) \<Longrightarrow> j < length es \<Longrightarrow> reindex i es m (Key (es ! j)) = Some (i + int j)"
proof (induction i es m arbitrary: j rule: reindex.induct)
  case (1 i m)
  then show ?case by simp
next
  case (2 i e es m)
  show ?case
  proof (cases j)
    case 0
    with 2 show ?thesis by (simp add: reindex_other)
  next
    case (Suc j')
    with 2 show ?thesis by (simp del: fun_upd_apply)
  qed
qed

lemma OrderedKV_Delete_ok:
  assumes inv: "kv_inv o1"
  shows "\<exists>o2. OrderedKV_Delete k t i o1 = Some o2 \<and> kv_inv o2 \<and> kv_abs o2 = (kv_abs o1)(k := None) \<and>
     olog o2 = olog o1 @ [\<lparr>le_Index = i, le_Term = t, le_Op = ''delete'', le_Key = k, le_Value = GNil\<rparr>] \<and>
     map Key (kvList o2) = filter (\<lambda>k'. k' \<noteq> k) (map Key (kvList o1))"
proof (cases "kvMap o1 k")
  case None
  then have new: "k \<notin> Key ` set (kvList o1)" using kv_inv_None [OF inv] by simp
  then have "kv_abs o1 k = None"
    by (auto simp: kv_abs_def OrderedKV_Range_def map_of_eq_None_iff image_iff)
  then have "(kv_abs o1)(k := None) = kv_abs o1" by auto
  moreover have "filter (\<lambda>k'. k' \<noteq> k) (map Key (kvList o1)) = map Key (kvList o1)"
    using new by (auto simp: filter_id_conv)
  ultimately show ?thesis using None inv by (simp add: OrderedKV_Delete_def)
next
  case (Some idx)
  define n where "n = nat idx"
  from kv_inv_SomeD [OF inv Some] have n: "idx = int n" "n < length (kvList o1)" "Key (kvList o1 ! n) = k"
    by (auto simp: n_def)
  define pre post where "pre = take n (kvList o1)" and "post = drop (Suc n) (kvList o1)"
  have split: "kvList o1 = pre @ (kvList o1 ! n) # post"
    using n(2) by (simp add: pre_def post_def id_take_nth_drop)
  have len: "length pre = n" using n(2) by (simp add: pre_def)
  have dist: "distinct (map Key (pre @ (kvList o1 ! n) # post))"
    using inv split by (simp add: kv_inv_def)
  have lookup: "kvMap o1 k' = Some j \<longleftrightarrow> 0 \<le> j \<and> j < int (length (kvList o1)) \<and> Key (kvList o1 ! nat j) = k'"
    for k' j using inv by (simp add: kv_inv_def)
  let ?m = "reindex idx post ((kvMap o1)(k := None))"
  have m_pre: "?m k' = Some j \<longleftrightarrow> 0 \<le> j \<and> j < int n \<and> Key (pre ! nat j) = k'"
    if k': "k' \<notin> Key ` set post" for k' j
  proof -
    have "?m k' = ((kvMap o1)(k := None)) k'" using k' by (rule reindex_other)
    moreover have "kvMap o1 k' = Some j \<longleftrightarrow> 0 \<le> j \<and> j < int n \<and> Key (pre ! nat j) = k'" if "k' \<noteq> k"
    proof -
      have "\<not> (n < nat j \<and> nat j < length (kvList o1) \<and> Key (kvList o1 ! nat j) = k')"
      proof
        assume a: "n < nat j \<and> nat j < length (kvList o1) \<and> Key (kvList o1 ! nat j) = k'"
        then have "Suc n + (nat j - Suc n) = nat j" by linarith
        then have "kvList o1 ! nat j = post ! (nat j - Suc n)" using a by (simp add: post_def)
        moreover have "nat j - Suc n < length post" using a by (auto simp: post_def)
        ultimately show False using a k' by auto
      qed
      then show ?thesis using lookup [of k' j] n that by (auto simp: pre_def not_less_iff_gr_or_eq)
    qed
    moreover have "Key (pre ! nat j) \<noteq> k" if "0 \<le> j" "j < int n" for j
    proof -
      have "nat j < length pre" using that len by linarith
      then have "Key (pre ! nat j) \<in> Key ` set pre" by auto
      then show ?thesis using dist n(3) by auto
    qed
    ultimately show ?thesis by auto
  qed
  have "kv_inv (o1\<lparr>kvList := pre @ post, kvMap := ?m\<rparr>)"
    unfolding kv_inv_def
  proof (intro conjI allI)
    show "distinct (map Key (kvList (o1\<lparr>kvList := pre @ post, kvMap := ?m\<rparr>)))" using dist by simp
    fix k' j
    show "kvMap (o1\<lparr>kvList := pre @ post, kvMap := ?m\<rparr>) k' = Some j \<longleftrightarrow>
      0 \<le> j \<and> j < int (length (kvList (o1\<lparr>kvList := pre @ post, kvMap := ?m\<rparr>))) \<and>
      Key (kvList (o1\<lparr>kvList := pre @ post, kvMap := ?m\<rparr>) ! nat j) = k'"
    proof (cases "k' \<in> Key ` set post")
      case True
      then obtain p where p: "p < length post" "k' = Key (post ! p)" by (auto simp: in_set_conv_nth)
      have dp: "distinct (map Key post)" using dist by simp
      have "?m k' = Some (int n + int p)" using reindex_nth [OF dp p(1)] p(2) n(1) by simp
      moreover have "Key ((pre @ post) ! q) = k' \<longleftrightarrow> q = n + p" if "q < length (pre @ post)" for q
      proof -
        have "distinct (map Key (pre @ post))" using dist by simp
        moreover have "map Key (pre @ post) ! (n + p) = k'" using p len by (simp add: nth_append)
        moreover have "map Key (pre @ post) ! q = Key ((pre @ post) ! q)" using that by (rule nth_map)
        ultimately show ?thesis
          using nth_eq_iff_index_eq [of "map Key (pre @ post)" q "n + p"] that p(1) len
          by (simp del: map_append)
      qed
      ultimately show ?thesis using len p by auto
    next
      case False
      have "Key ((pre @ post) ! nat j) = k' \<longleftrightarrow> j < int n \<and> Key (pre ! nat j) = k'"
        if "0 \<le> j" "j < int (length (pre @ post))"
      proof (cases "j < int n")
        case True
        then have "nat j < length pre" using len that by linarith
        then show ?thesis using True by (simp add: nth_append)
      next
        case ge: False
        then have "(pre @ post) ! nat j = post ! (nat j - n)" using len by (simp add: nth_append)
        moreover have "nat j - n < length post" using ge that len by auto
        ultimately show ?thesis using False ge by auto
      qed
      then show ?thesis using m_pre [OF False, of j] len by auto
    qed
  qed
  moreover have "kv_abs (o1\<lparr>kvList := pre @ post, kvMap := ?m\<rparr>) = (kv_abs o1)(k := None)"
  proof
    fix x
    have "k \<notin> Key ` set pre" "k \<notin> Key ` set post" using dist n(3) by auto
    then have "map_of (map (\<lambda>e. (Key e, Value e)) (pre @ post)) k = None"
      by (auto simp: map_of_eq_None_iff image_iff)
    moreover have "map_of (map (\<lambda>e. (Key e, Value e)) (pre @ (kvList o1 ! n) # post)) x =
      map_of (map (\<lambda>e. (Key e, Value e)) (pre @ post)) x" if "x \<noteq> k"
      using that n(3) by (auto simp: map_add_def split: option.splits)
    ultimately show "kv_abs (o1\<lparr>kvList := pre @ post, kvMap := ?m\<rparr>) x = ((kv_abs o1)(k := None)) x"
      using split by (auto simp: kv_abs_def OrderedKV_Range_def)
  qed
  moreover have "map Key (pre @ post) = filter (\<lambda>k'. k' \<noteq> k) (map Key (kvList o1))"
  proof -
    have "k \<notin> Key ` set pre" "k \<notin> Key ` set post" using dist n(3) by auto
    then have "filter (\<lambda>k'. k' \<noteq> k) (map Key pre) = map Key pre"
      "filter (\<lambda>k'. k' \<noteq> k) (map Key post) = map Key post"
      by (auto simp: filter_id_conv)
    then show ?thesis using n(3) by (subst split) simp
  qed
  ultimately show ?thesis using Some n(1,2)
    by (simp add: OrderedKV_Delete_def pre_def post_def nat_add_distrib)
qed

section \<open>The key-value contract\<close>

text \<open>Term and index of the commands only reach the log; the contract holds for any choice.\<close>

interpretation okv: kv_store kv_inv kv_abs
  "\<lambda>k v. OrderedKV_Put k v t i" "\<lambda>k. OrderedKV_Delete k t i" "\<lambda>k o1. the (OrderedKV_Get k o1)"
  for t i
proof unfold_locales
  show "\<exists>o2. OrderedKV_Put k v t i s = Some o2 \<and> kv_inv o2 \<and> kv_abs o2 = (kv_abs s)(k \<mapsto> v)"
    if "kv_inv s" for s k v using OrderedKV_Put_ok [OF that] by blast
  show "\<exists>o2. OrderedKV_Delete k t i s = Some o2 \<and> kv_inv o2 \<and> kv_abs o2 = (kv_abs s)(k := None)"
    if "kv_inv s" for s k using OrderedKV_Delete_ok [OF that] by blast
  show "the (OrderedKV_Get k s) = kv_abs s k" if "kv_inv s" for s k
    by (simp add: OrderedKV_Get_abs [OF that])
qed

section \<open>Replay\<close>

definition replay_log :: "LogEntry \<Rightarrow> LogEntry list" where
  "replay_log e = (if le_Op e = ''put'' then [e]
     else if le_Op e = ''delete'' then [e\<lparr>le_Value := GNil\<rparr>] else [])"

lemma log_cmds_simps [simp]:
  "log_cmds [] = []" "log_cmds (e # es) = entry_cmds e @ log_cmds es"
  "log_cmds (es @ fs) = log_cmds es @ log_cmds fs"
  by (simp_all add: log_cmds_def)

lemma entry_cmds_replay_log [simp]: "log_cmds (replay_log e) = entry_cmds e"
  by (simp add: replay_log_def entry_cmds_def)

lemma replay_entry_ok:
  assumes "kv_inv o1"
  shows "\<exists>o2. replay_entry e o1 = Some o2 \<and> kv_inv o2 \<and>
     kv_abs o2 = fold kv_apply (entry_cmds e) (kv_abs o1) \<and> olog o2 = olog o1 @ replay_log e"
  using OrderedKV_Put_ok [OF assms, of "le_Key e" "le_Value e" "le_Term e" "le_Index e"]
    OrderedKV_Delete_ok [OF assms, of "le_Key e" "le_Term e" "le_Index e"] assms
  by (cases e) (auto simp: replay_entry_def entry_cmds_def replay_log_def)

lemma foldM_replay:
  "kv_inv o1 \<Longrightarrow> \<exists>o2. foldM replay_entry es o1 = Some o2 \<and> kv_inv o2 \<and>
     kv_abs o2 = fold kv_apply (log_cmds es) (kv_abs o1) \<and>
     olog o2 = olog o1 @ concat (map replay_log es)"
proof (induction es arbitrary: o1)
  case Nil
  then show ?case by simp
next
  case (Cons e es)
  from replay_entry_ok [OF Cons.prems] obtain u where
    u: "replay_entry e o1 = Some u" "kv_inv u" "kv_abs u = fold kv_apply (entry_cmds e) (kv_abs o1)"
    "olog u = olog o1 @ replay_log e" by blast
  from Cons.IH [OF u(2)] u show ?case by auto
qed

lemma kv_reset [simp]:
  "kv_inv (o1\<lparr>kvList := [], kvMap := Map.empty\<rparr>)"
  "kv_abs (o1\<lparr>kvList := [], kvMap := Map.empty\<rparr>) = Map.empty"
  by (simp_all add: kv_inv_def kv_abs_def OrderedKV_Range_def)

definition kv_synced :: "OrderedKV \<Rightarrow> bool" where
  "kv_synced o1 \<longleftrightarrow> kv_inv o1 \<and> kv_abs o1 = fold kv_apply (log_cmds (olog o1)) Map.empty"

definition cmd_key :: "kv_cmd \<Rightarrow> string" where
  "cmd_key c = (case c of KvPut k v \<Rightarrow> k | KvDel k \<Rightarrow> k)"

lemma fold_kv_apply_untouched:
  "k \<notin> cmd_key ` set cs \<Longrightarrow> fold kv_apply cs m k = m k"
proof (induction cs arbitrary: m)
  case Nil
  then show ?case by simp
next
  case (Cons c cs)
  then have "kv_apply c m k = m k" by (cases c) (auto simp: cmd_key_def)
  with Cons show ?case by simp
qed

lemma fold_kv_apply_touched:
  "k \<in> cmd_key ` set cs \<Longrightarrow> fold kv_apply cs m k = fold kv_apply cs m' k"
proof (induction cs arbitrary: m m')
  case Nil
  then show ?case by simp
next
  case (Cons c cs)
  show ?case
  proof (cases "k \<in> cmd_key ` set cs")
    case True
    then have "fold kv_apply cs (kv_apply c m) k = fold kv_apply cs (kv_apply c m') k"
      by (rule Cons.IH)
    then show ?thesis by simp
  next
    case False
    with Cons.prems have "kv_apply c m k = kv_apply c m' k" by (cases c) (auto simp: cmd_key_def)
    with False show ?thesis by (simp add: fold_kv_apply_untouched)
  qed
qed

lemma fold_kv_apply_idem: "fold kv_apply (cs @ cs) Map.empty = fold kv_apply cs Map.empty"
proof
  fix k
  show "fold kv_apply (cs @ cs) Map.empty k = fold kv_apply cs Map.empty k"
    by (cases "k \<in> cmd_key ` set cs")
      (auto simp: fold_kv_apply_untouched intro: fold_kv_apply_touched)
qed

lemma log_cmds_replay [simp]: "log_cmds (concat (map replay_log es)) = log_cmds es"
  by (induction es) simp_all

lemma put_synced:
  "kv_synced o1 \<Longrightarrow> OrderedKV_Put k v t i o1 = Some o2 \<Longrightarrow> kv_synced o2"
  using OrderedKV_Put_ok [of o1 k v t i] by (auto simp: kv_synced_def entry_cmds_def)

lemma delete_synced:
  "kv_synced o1 \<Longrightarrow> OrderedKV_Delete k t i o1 = Some o2 \<Longrightarrow> kv_synced o2"
  using OrderedKV_Delete_ok [of o1 k t i] by (auto simp: kv_synced_def entry_cmds_def)

lemma replay_ok:
  "\<exists>o2. OrderedKV_ReplayLog o1 = Some o2 \<and> kv_inv o2 \<and>
     kv_abs o2 = fold kv_apply (log_cmds (olog o1)) Map.empty \<and>
     olog o2 = olog o1 @ concat (map replay_log (olog o1))"
  using foldM_replay [of "o1\<lparr>kvList := [], kvMap := Map.empty\<rparr>" "olog o1"]
  by (simp add: OrderedKV_ReplayLog_def)

lemma replay_synced:
  assumes "OrderedKV_ReplayLog o1 = Some o2"
  shows "kv_synced o2"
proof -
  from replay_ok [of o1] assms have o2: "kv_inv o2"
    "kv_abs o2 = fold kv_apply (log_cmds (olog o1)) Map.empty"
    "olog o2 = olog o1 @ concat (map replay_log (olog o1))" by auto
  then show ?thesis
    using fold_kv_apply_idem [of "log_cmds (olog o1)"] by (simp add: kv_synced_def)
qed

section \<open>Properties\<close>

text \<open>
  C27: A sequence of puts and deletes on a new or well-formed ordered map never indexes out of range,
  keeps the index map consistent with the entry list, and a later \<open>Get\<close> answers what the abstract map
  built from the same commands holds.
\<close>

theorem ordered_kv_refines_map:
  assumes "kv_inv o1"
  shows "\<exists>o2. foldM (\<lambda>c o1. case c of KvPut k v \<Rightarrow> OrderedKV_Put k v t i o1
             | KvDel k \<Rightarrow> OrderedKV_Delete k t i o1) cs o1 = Some o2 \<and> kv_inv o2 \<and>
           OrderedKV_Get k o2 = Some (fold kv_apply cs (kv_abs o1) k)"
proof -
  have exec: "(\<lambda>c o1. case c of KvPut k v \<Rightarrow> OrderedKV_Put k v t i o1
             | KvDel k \<Rightarrow> OrderedKV_Delete k t i o1) = okv.exec t i"
    by (intro ext) (simp split: kv_cmd.split)
  from okv.run_refines [OF assms, of t i cs] show ?thesis
    unfolding exec using OrderedKV_Get_abs by auto
qed

theorem ordered_kv_refines_map_witness:
  "\<exists>o2. foldM (\<lambda>c o1. case c of KvPut k v \<Rightarrow> OrderedKV_Put k v 1 1 o1
             | KvDel k \<Rightarrow> OrderedKV_Delete k 1 1 o1)
           [KvPut ''a'' (GNum 1), KvPut ''b'' (GNum 2), KvDel ''a''] NewOrderedKV = Some o2 \<and> kv_inv o2 \<and>
     OrderedKV_Get ''b'' o2 = Some (Some (GNum 2))"
  using ordered_kv_refines_map [of NewOrderedKV 1 1 "[KvPut ''a'' (GNum 1), KvPut ''b'' (GNum 2), KvDel ''a'']" "''b''"]
  by simp

text \<open>
  \<open>ReplayLog\<close> rebuilds exactly the map of the logged operations and never panics, but each logged
  put or delete is appended to the log again, so a log of puts and deletes doubles with every replay.
\<close>

theorem replay_rebuilds_and_doubles_log:
  "\<exists>o2. OrderedKV_ReplayLog o1 = Some o2 \<and>
     kv_abs o2 = fold kv_apply (log_cmds (olog o1)) Map.empty \<and>
     length (olog o2) = length (olog o1) + length (log_cmds (olog o1))"
proof -
  have "length (concat (map replay_log es)) = length (log_cmds es)" for es
    by (induction es) (simp_all add: replay_log_def entry_cmds_def)
  then show ?thesis using replay_ok [of o1] by auto
qed

end
