(* ===== verification/App_Signaling.thy ===== *)
theory App_Signaling
  imports App_Config
begin

text \<open>
  SignalingServerFromYaml.go, and how server/SignalingServer.go starts: its listeners and its timers, and the
  upgrading of a connection. A timer with a period that is not positive panics (\<open>time.NewTicker\<close>).
\<close>

section \<open>Configuration\<close>

record SignalingServerConfigYaml =
  yName :: string
  yVersion :: string
  yDescription :: string
  yHTTPPort :: int
  yUDPPort :: int
  yHost :: string
  yReadTimeout :: string
  yWriteTimeout :: string
  yPingInterval :: string
  yPongWait :: string
  yMaxMessageSize :: int
  yCleanupInterval :: string
  yOfflineTimeout :: string
  yMaxNodes :: int

definition parseSignalingDuration :: "(string \<Rightarrow> string + int) \<Rightarrow> string \<Rightarrow> int" where
  "parseSignalingDuration parse s = (case parse s of Inl _ \<Rightarrow> 60 * 1000000000 | Inr d \<Rightarrow> d)"

definition validateSignalingConfig :: "SignalingServerConfigYaml \<Rightarrow> config_error option" where
  "validateSignalingConfig conf = (if yHTTPPort conf = 0 then Some NoHTTPPort
     else if yUDPPort conf = 0 then Some NoUDPPort else None)"

definition server_config :: "(string \<Rightarrow> string + int) \<Rightarrow> SignalingServerConfigYaml \<Rightarrow> SignalingConfig" where
  "server_config parse conf = \<lparr>sgPort = yHTTPPort conf, sgUDPPort = yUDPPort conf,
     sgReadTimeout = parseSignalingDuration parse (yReadTimeout conf),
     sgWriteTimeout = parseSignalingDuration parse (yWriteTimeout conf),
     sgPingInterval = parseSignalingDuration parse (yPingInterval conf),
     sgPongWait = parseSignalingDuration parse (yPongWait conf),
     sgMaxMessageSize = yMaxMessageSize conf,
     sgCleanupInterval = parseSignalingDuration parse (yCleanupInterval conf)\<rparr>"

section \<open>Starting\<close>

record net_platform =
  npResolveUDP :: "string \<Rightarrow> string option"
  npListenUDP :: "string \<Rightarrow> string option"
  npRunHTTP :: "string \<Rightarrow> string option"

datatype serve_result =
    Serve_fatal_read string | Serve_fatal_yaml string | Serve_fatal_config config_error
  | Serve_fatal_start string | Serve_panic | Serving SignalingServer

definition port_addr :: "int \<Rightarrow> string" where
  "port_addr port = '':'' @ itoa port"

definition startUDPListener :: "net_platform \<Rightarrow> SignalingServer \<Rightarrow> string option" where
  "startUDPListener np s = (case npResolveUDP np (port_addr (sgUDPPort (ssConfig s))) of
       Some e \<Rightarrow> Some (''failed to resolve UDP address: '' @ e)
     | None \<Rightarrow> map_option (\<lambda>e. ''failed to start UDP listener: '' @ e) (npListenUDP np (port_addr (sgUDPPort (ssConfig s)))))"

text \<open>Whether \<open>NewTicker\<close> returns.\<close>

definition new_ticker :: "int \<Rightarrow> bool" where
  "new_ticker period \<longleftrightarrow> 0 < period"

definition startCleanupTimer :: "SignalingServer \<Rightarrow> bool" where
  "startCleanupTimer s = new_ticker (sgCleanupInterval (ssConfig s))"

definition sig_Start :: "net_platform \<Rightarrow> SignalingServer \<Rightarrow> serve_result" where
  "sig_Start np s = (case startUDPListener np s of
       Some e \<Rightarrow> Serve_fatal_start (''failed to start UDP listener: '' @ e)
     | None \<Rightarrow> if \<not> startCleanupTimer s then Serve_panic
         else (case npRunHTTP np (port_addr (sgPort (ssConfig s))) of Some e \<Rightarrow> Serve_fatal_start e | None \<Rightarrow> Serving s))"

definition signaling_main ::
  "net_platform \<Rightarrow> (string \<Rightarrow> string + string) \<Rightarrow> (string \<Rightarrow> string + SignalingServerConfigYaml) \<Rightarrow> (string \<Rightarrow> string + int) \<Rightarrow>
     string list \<Rightarrow> serve_result" where
  "signaling_main np readFile unmarshal parse args =
     (let configFile = (case args of _ # f # _ \<Rightarrow> f | _ \<Rightarrow> ''SignalingServerTemplate.yaml'')
      in (case readFile configFile of
        Inl e \<Rightarrow> Serve_fatal_read e
      | Inr data \<Rightarrow> (case unmarshal data of
          Inl e \<Rightarrow> Serve_fatal_yaml e
        | Inr conf \<Rightarrow> (case validateSignalingConfig conf of
            Some e \<Rightarrow> Serve_fatal_config e
          | None \<Rightarrow> sig_Start np (NewSignalingServer (Some (server_config parse conf)))))))"

section \<open>Requests that arrive\<close>

text \<open>A round of \<open>handleUDPMessages\<close>: what is read is a text and its sender; the answer, and to whom.\<close>

definition handleUDPMessages_round ::
  "(string \<Rightarrow> (string \<times> int) option) \<Rightarrow> (string \<times> string \<times> int) option \<Rightarrow> (PublicAddressResponse \<times> string \<times> int) option" where
  "handleUDPMessages_round unmarshal read = (case read of
       None \<Rightarrow> None
     | Some (text, ip, port) \<Rightarrow> (case unmarshal (take 1024 text) of
         None \<Rightarrow> None
       | Some (nodeID, localPort) \<Rightarrow> Some (handleUDPPublicAddressRequest nodeID localPort ip port, ip, port)))"

text \<open>An upgraded connection with its read limit and its first deadline; the answer of a failure is its code.\<close>

definition handleWebSocketGin :: "nat option \<Rightarrow> int \<Rightarrow> SignalingServer \<Rightarrow> int + nat \<times> int \<times> int" where
  "handleWebSocketGin upgraded now s = (case upgraded of
       None \<Rightarrow> Inl 500
     | Some conn \<Rightarrow> Inr (conn, sgMaxMessageSize (ssConfig s), i64 (now + sgPongWait (ssConfig s))))"

text \<open>The goroutine \<open>startHeartbeat\<close> of a connection: whether it survives its first step.\<close>

definition startHeartbeat_begin :: "SignalingServer \<Rightarrow> bool" where
  "startHeartbeat_begin s = new_ticker (sgPingInterval (ssConfig s))"

section \<open>What the validation misses\<close>


definition ex_sig_conf :: "string \<Rightarrow> SignalingServerConfigYaml" where
  "ex_sig_conf cleanup = \<lparr>yName = [], yVersion = [], yDescription = [], yHTTPPort = 80, yUDPPort = 81, yHost = [],
     yReadTimeout = ''x'', yWriteTimeout = ''x'', yPingInterval = ''x'', yPongWait = ''x'', yMaxMessageSize = 512,
     yCleanupInterval = cleanup, yOfflineTimeout = ''x'', yMaxNodes = 9\<rparr>"

definition ex_parse :: "string \<Rightarrow> string + int" where
  "ex_parse s = (if s = ''0s'' then Inr 0 else Inl s)"


end
