(* ===== verification/App_Console.thy ===== *)
theory App_Console
  imports Net_Env Web_Client
begin

text \<open>
  example/SimpleLink.go: the console program. It reads lines and runs nodes and clients of one environment
  (theory \<open>Net_Env\<close>), sessions of one of these clients, and sessions of a client of the web interface.

  A round is one line. What it prints, and what the nodes do, is its output; a round that does not end
  normally panics or blocks. Formatting of values, parsing of numbers and JSON, and the remote ends of
  calls are parameters. \<open>strings.TrimSpace\<close> is modelled on ASCII.
\<close>

section \<open>Words of a line\<close>

definition TrimSpace :: "string \<Rightarrow> string" where
  "TrimSpace s = (let blank = (\<lambda>c. c \<in> set [CHR 0x09, CHR 0x0A, CHR 0x0B, CHR 0x0C, CHR 0x0D, CHR '' ''])
     in rev (dropWhile blank (rev (dropWhile blank s))))"

fun splitN :: "nat \<Rightarrow> char \<Rightarrow> string \<Rightarrow> string list" where
  "splitN 0 c s = []"
| "splitN (Suc 0) c s = [s]"
| "splitN (Suc (Suc k)) c s = (case split2 c s of None \<Rightarrow> [s] | Some (a, b) \<Rightarrow> a # splitN (Suc k) c b)"

fun join_words :: "string list \<Rightarrow> string" where
  "join_words [] = []"
| "join_words [w] = w"
| "join_words (w # ws) = w @ '' '' @ join_words ws"

section \<open>The state\<close>

datatype con_out = Say string | GlobalHelp | ClientHelp | SessionHelp | Routing string | On string net_out

datatype con_end = Panic | Blocked

text \<open>
  \<open>cnActive\<close> is the id of the client the console is logged in as; \<open>cnSession\<close> the client of the web interface
  while its session lasts.
\<close>

record 'd Console =
  cnEnv :: "'d Env"
  cnActive :: "string option"
  cnSession :: "MajulaClient option"
  cnOver :: bool

definition NewConsole :: "'d Console" where
  "NewConsole = \<lparr>cnEnv = NewEnv, cnActive = None, cnSession = None, cnOver = False\<rparr>"

type_synonym 'd con_result = "con_end + 'd Console \<times> con_out list"

text \<open>The library functions, and the remote ends of the calls.\<close>

record con_lib =
  clShow :: "goval \<Rightarrow> string"
  clScan :: "string \<Rightarrow> int option"
  clJson :: "string \<Rightarrow> params option"
  clText :: "params \<Rightarrow> string"

record 'd con_net =
  cnCall :: "'d rpc_call"
  cnWait :: "int \<Rightarrow> 'd Node \<Rightarrow> 'd Node \<times> rpc_wait"
  cnAnswer :: "MajulaClient \<Rightarrow> MajulaClient \<times> bool"

definition say :: "string \<Rightarrow> 'd Console \<Rightarrow> 'd con_result" where
  "say s k = Inr (k, [Say s])"

definition target_node :: "Client \<Rightarrow> 'd Console \<Rightarrow> 'd Node option" where
  "target_node c k = (case TargetNode c of None \<Rightarrow> None | Some i \<Rightarrow> Env_GetNode i (cnEnv k))"

definition set_node :: "'d Node \<Rightarrow> 'd Console \<Rightarrow> 'd Console" where
  "set_node n k = k\<lparr>cnEnv := (cnEnv k)\<lparr>evNodes := AList.update (nID n) n (evNodes (cnEnv k))\<rparr>\<rparr>"

section \<open>Commands of a client session\<close>

definition client_op ::
  "('d Node \<Rightarrow> Client \<Rightarrow> string + 'd Node \<times> net_out list) \<Rightarrow> string \<Rightarrow> Client \<Rightarrow> 'd Console \<Rightarrow> 'd con_result" where
  "client_op f done c k = (case target_node c k of
       None \<Rightarrow> say (''Error: '' @ not_connected c) k
     | Some n \<Rightarrow> (case f n c of
         Inl e \<Rightarrow> say (''Error: '' @ e) k
       | Inr (n1, os) \<Rightarrow> Inr (set_node n1 k, map (On (nID n)) os @ [Say done])))"

text \<open>The callback of every subscription: it prints the active client of the moment, \<open>None\<close> being a panic.\<close>

definition cb_console :: int where "cb_console = - 3"

definition console_callback :: "'d Console \<Rightarrow> string \<Rightarrow> string \<Rightarrow> string \<Rightarrow> string option" where
  "console_callback k topic from1 content = map_option (\<lambda>i. ''[To '' @ i @ ''] Topic: '' @ topic @ '' | From: '' @
     from1 @ '' | Message: '' @ content) (cnActive k)"

definition con_sub :: "string list \<Rightarrow> Client \<Rightarrow> 'd Console \<Rightarrow> 'd con_result" where
  "con_sub args c k = (if length args \<noteq> 2 then say ''Usage: sub <topic>'' k
     else client_op (client_Subscribe (args ! 1) cb_console) (''Subscribed to topic: '' @ args ! 1) c k)"

definition con_unsub :: "string list \<Rightarrow> Client \<Rightarrow> 'd Console \<Rightarrow> 'd con_result" where
  "con_unsub args c k = (if length args \<noteq> 2 then say ''Usage: unsub <topic>'' k
     else client_op (client_Unsubscribe (args ! 1)) (''Unsubscribed from topic: '' @ args ! 1) c k)"

definition con_pub ::
  "((string \<times> string list) list \<Rightarrow> (string \<times> string list) list) \<Rightarrow> string list \<Rightarrow> Client \<Rightarrow> 'd Console \<Rightarrow> 'd con_result" where
  "con_pub ord args c k = (if length args < 3 then say ''Usage: pub <topic> <message>'' k
     else client_op (client_Publish ord (args ! 1) (join_words (drop 2 args))) ''Message published.'' c k)"

definition con_sayhello :: "con_lib \<Rightarrow> 'd con_net \<Rightarrow> string list \<Rightarrow> Client \<Rightarrow> 'd Console \<Rightarrow> 'd con_result" where
  "con_sayhello lib net args c k =
     (if length args \<noteq> 2 then say ''Usage: sayhello <targetNodeID>'' k
      else (case target_node c k of
          None \<Rightarrow> say ''Client is not connected to any node.'' k
        | Some n \<Rightarrow> (let (n1, (result, ok), os) = MakeRpcRequest (cnCall net) (cnWait net) (args ! 1) ''default'' ''whoami'' [] n
            in Inr (set_node n1 k, map (On (nID n)) os @ [Say (if \<not> ok then ''RPC call failed or timed out.''
                 else ''Response from node '' @ args ! 1 @ '': '' @ clShow lib result)]))))"

definition sum_text :: "con_lib \<Rightarrow> string \<Rightarrow> goval \<Rightarrow> string" where
  "sum_text lib node result = (case result of
       GMap m \<Rightarrow> (case map_of m ''error'' of
           Some e \<Rightarrow> ''RPC Error: '' @ clShow lib e
         | None \<Rightarrow> (case map_of m ''sum'' of
             Some s \<Rightarrow> ''Sum from node '' @ node @ '': '' @ clShow lib s
           | None \<Rightarrow> ''Unexpected response: '' @ clShow lib result))
     | _ \<Rightarrow> ''RPC response: '' @ clShow lib result)"

definition con_add :: "con_lib \<Rightarrow> 'd con_net \<Rightarrow> string list \<Rightarrow> Client \<Rightarrow> 'd Console \<Rightarrow> 'd con_result" where
  "con_add lib net args c k =
     (if length args \<noteq> 3 then say ''Usage: add <targetNodeID> <a+b>  (example: add s2 4+5)'' k
      else let parts = go_split (CHR ''+'') (args ! 2) in
        if length parts \<noteq> 2 then say ''Invalid format. Use: add <targetNodeID> <a+b>'' k
        else (case (clScan lib (parts ! 0), clScan lib (parts ! 1)) of
            (Some a, Some b) \<Rightarrow> (case target_node c k of
                None \<Rightarrow> Inl Panic
              | Some n \<Rightarrow> (let (n1, (result, ok), os) = MakeRpcRequest (cnCall net) (cnWait net) (args ! 1) ''default'' ''add''
                    [(''a'', GNum a), (''b'', GNum b)] n
                  in Inr (set_node n1 k, map (On (nID n)) os @ [Say (if \<not> ok then ''RPC call failed or timed out.''
                       else sum_text lib (args ! 1) result)])))
          | _ \<Rightarrow> say ''Invalid numbers.'' k))"

definition client_command ::
  "((string \<times> string list) list \<Rightarrow> (string \<times> string list) list) \<Rightarrow> con_lib \<Rightarrow> 'd con_net \<Rightarrow> string list \<Rightarrow> Client \<Rightarrow>
     'd Console \<Rightarrow> 'd con_result" where
  "client_command ord lib net args c k =
     (let cmd = args ! 0 in
      if cmd = ''help'' then Inr (k, [ClientHelp])
      else if cmd = ''exit'' then Inr (k\<lparr>cnActive := None\<rparr>, [Say (''Exiting client session '' @ ClientId c)])
      else if cmd = ''sub'' then con_sub args c k
      else if cmd = ''unsub'' then con_unsub args c k
      else if cmd = ''pub'' then con_pub ord args c k
      else if cmd = ''sayhello'' then con_sayhello lib net args c k
      else if cmd = ''add'' then con_add lib net args c k
      else say (''Unknown client command. Type help for available commands.'') k)"

section \<open>Global commands\<close>

definition with_env :: "'d Env \<Rightarrow> 'd Console \<Rightarrow> 'd Console" where
  "with_env e k = k\<lparr>cnEnv := e\<rparr>"

text \<open>The node of a role; \<open>None\<close> is an unknown role. Its first outputs are those of \<open>Register\<close>.\<close>

definition start_role ::
  "'tls platform \<Rightarrow> int \<Rightarrow> string \<Rightarrow> string \<Rightarrow> string \<Rightarrow> string \<Rightarrow> 'd Env \<Rightarrow> (string + 'd Env \<times> net_out list) option" where
  "start_role pf now role nodeID addr wsPort env =
     (if role = ''server'' then Some (AddServer pf nodeID addr wsPort env)
      else if role = ''client'' then Some (AddClientNode pf now nodeID addr wsPort env)
      else None)"

definition ws_option :: "string list \<Rightarrow> string" where
  "ws_option args = (if length args = 5 \<and> prefix ''ws='' (args ! 4) then TrimPrefix (args ! 4) ''ws='' else [])"

definition con_start :: "'tls platform \<Rightarrow> int \<Rightarrow> string list \<Rightarrow> 'd Console \<Rightarrow> 'd con_result" where
  "con_start pf now args k =
     (if length args < 4 \<or> 5 < length args then say ''Usage: start server|client <nodeID> <addr> [ws=<port>]'' k
      else (case start_role pf now (args ! 1) (args ! 2) (args ! 3) (ws_option args) (cnEnv k) of
          None \<Rightarrow> say (''Unknown role: '' @ args ! 1) k
        | Some (Inl e) \<Rightarrow> say (''Error: '' @ e) k
        | Some (Inr (env, os)) \<Rightarrow> Inr (with_env env k, map (On (args ! 2)) os)))"

definition con_addclient :: "string list \<Rightarrow> 'd Console \<Rightarrow> 'd con_result" where
  "con_addclient args k = (if length args \<noteq> 2 then say ''Usage: addclient <clientName>'' k
     else (case Env_AddClient (args ! 1) (cnEnv k) of
         Inl e \<Rightarrow> say (''Error: '' @ e) k
       | Inr env \<Rightarrow> Inr (with_env env k, [])))"

definition con_connectclient :: "string list \<Rightarrow> 'd Console \<Rightarrow> 'd con_result" where
  "con_connectclient args k =
     (if length args \<noteq> 3 then say ''Usage: connectclient <clientName> <nodeID>'' k
      else if Env_GetClient (args ! 1) (cnEnv k) = None then say ''Client not found.'' k
      else (case Env_GetNode (args ! 2) (cnEnv k) of
          None \<Rightarrow> say ''Node not found.'' k
        | Some n \<Rightarrow> (case ConnectClientToNode (args ! 1) (args ! 2) (cnEnv k) of
            Inl e \<Rightarrow> say (''Error: '' @ e) k
          | Inr env \<Rightarrow> Inr (with_env env k, [Say (''Client '' @ args ! 1 @ '' connected to node '' @ nID n)]))))"

definition con_login :: "string list \<Rightarrow> 'd Console \<Rightarrow> 'd con_result" where
  "con_login args k =
     (if length args \<noteq> 2 then say ''Usage: login <clientName>'' k
      else (case Env_GetClient (args ! 1) (cnEnv k) of
          None \<Rightarrow> say ''Client not found.'' k
        | Some c \<Rightarrow> (case target_node c k of
            None \<Rightarrow> say ''Client is not connected to a node.'' k
          | Some n \<Rightarrow> Inr (k\<lparr>cnActive := Some (args ! 1)\<rparr>,
              [Say (''Logged in as client '' @ ClientId c), Say (''Node '' @ nID n @ '' has the following clients:'')] @
              map (\<lambda>i. Say (''  - '' @ i @ (if i = ClientId c then '' (you)'' else []))) (GetClientIDs n) @ [ClientHelp]))))"

definition con_routing :: "string list \<Rightarrow> 'd Console \<Rightarrow> 'd con_result" where
  "con_routing args k = (if length args \<noteq> 2 then say ''Usage: routing <nodeID>'' k
     else if Env_GetNode (args ! 1) (cnEnv k) = None then say (''[Env] Node '' @ args ! 1 @ '' not found'') k
     else Inr (k, [Routing (args ! 1)]))"

definition con_exit :: "'d Console \<Rightarrow> 'd con_result" where
  "con_exit k = (case Env_Shutdown (cnEnv k) of
       None \<Rightarrow> Inl Panic
     | Some (env, os) \<Rightarrow> Inr ((with_env env k)\<lparr>cnOver := True\<rparr>,
         map (\<lambda>(i, out). On i out) os @ [Say ''Shutdown complete.'']))"

text \<open>
  A node, a client of it, the connection of the two and the session in one command; what has been made
  before an error stays.
\<close>

definition con_quickstart :: "'tls platform \<Rightarrow> int \<Rightarrow> string list \<Rightarrow> 'd Console \<Rightarrow> 'd con_result" where
  "con_quickstart pf now args k =
     (if length args \<noteq> 4 then say ''Usage: quickstart server|client <nodeID> <addr>'' k
      else let nodeID = args ! 2; clientName = nodeID @ ''_client''
        in (case start_role pf now (args ! 1) nodeID (args ! 3) [] (cnEnv k) of
          None \<Rightarrow> say (''Unknown role: '' @ args ! 1) k
        | Some (Inl e) \<Rightarrow> say (''Error starting node: '' @ e) k
        | Some (Inr (env, os)) \<Rightarrow> (case Env_AddClient clientName env of
            Inl e \<Rightarrow> Inr (with_env env k, map (On nodeID) os @ [Say (''Error creating client: '' @ e)])
          | Inr env1 \<Rightarrow> (case Env_GetNode nodeID env1 of
              None \<Rightarrow> Inr (with_env env1 k, map (On nodeID) os @ [Say ''Node was not found after creation.''])
            | Some n \<Rightarrow> (case ConnectClientToNode clientName nodeID env1 of
                Inl e \<Rightarrow> Inr (with_env env1 k, map (On nodeID) os @ [Say (''Error connecting client: '' @ e)])
              | Inr env2 \<Rightarrow> Inr ((with_env env2 k)\<lparr>cnActive := Some clientName\<rparr>,
                  map (On nodeID) os @ [Say (''Quickstarted and logged in as '' @ clientName), ClientHelp]))))))"

definition con_nodes :: "'d Console \<Rightarrow> 'd con_result" where
  "con_nodes k = (if evNodes (cnEnv k) = [] then say ''No nodes created yet.'' k
     else Inr (k, Say ''Existing nodes:'' # map (\<lambda>(i, _). Say (''  - '' @ i)) (evNodes (cnEnv k))))"

definition con_clients :: "'d Console \<Rightarrow> 'd con_result" where
  "con_clients k = (if evClients (cnEnv k) = [] then say ''No clients created yet.'' k
     else Inr (k, Say ''Existing clients:'' # map (\<lambda>(i, c). Say (''  - '' @ i @ '' (connected to: '' @
       (case TargetNode c of None \<Rightarrow> ''none'' | Some v \<Rightarrow> v) @ '')'')) (evClients (cnEnv k))))"

section \<open>Sessions of the web interface\<close>

definition cb_debug :: int where "cb_debug = - 4"
definition cb_print :: int where "cb_print = - 5"

text \<open>Sending to a client blocks when its queue is full.\<close>

definition ws_done :: "'d Console \<Rightarrow> con_out list \<Rightarrow> MajulaClient option \<Rightarrow> 'd con_result" where
  "ws_done k outs r = (case r of None \<Rightarrow> Inl Blocked | Some c \<Rightarrow> Inr (k\<lparr>cnSession := Some c\<rparr>, outs))"

definition ws_open :: "string \<Rightarrow> string \<Rightarrow> 'd Console \<Rightarrow> 'd con_result" where
  "ws_open clientID wsURL k = ws_done k [SessionHelp] (cl_Subscribe ''debug'' cb_debug (NewMajulaClient wsURL clientID))"

text \<open>A call of a session and its result: the client when the wait is over, and whether by the timeout.\<close>

definition ws_call ::
  "'d con_net \<Rightarrow> string \<Rightarrow> string \<Rightarrow> string \<Rightarrow> params \<Rightarrow> (goval \<times> bool \<Rightarrow> con_out list) \<Rightarrow> MajulaClient \<Rightarrow> 'd Console \<Rightarrow> 'd con_result" where
  "ws_call net fun target provider args show_result c k =
     (case CallRpc_begin fun target provider args c of
        None \<Rightarrow> Inl Blocked
      | Some (i, a, c1) \<Rightarrow> (let (c2, timeout) = cnAnswer net c1 in case call_wait timeout a c2 of
          None \<Rightarrow> Inl Blocked
        | Some r \<Rightarrow> Inr (k\<lparr>cnSession := Some c2\<rparr>, show_result r)))"

definition unmarshal :: "con_lib \<Rightarrow> string \<Rightarrow> params" where
  "unmarshal lib text = (case clJson lib text of None \<Rightarrow> [] | Some m \<Rightarrow> m)"

text \<open>The line has at least two parts; the check of the parts of \<open>data\<close> is skipped when there is a third.\<close>

definition ws_rpc :: "con_lib \<Rightarrow> 'd con_net \<Rightarrow> string list \<Rightarrow> string \<Rightarrow> MajulaClient \<Rightarrow> 'd Console \<Rightarrow> 'd con_result" where
  "ws_rpc lib net parts data c k =
     (let newParts = splitN 3 (CHR '' '') data in
      if length parts \<noteq> 3 \<and> (length newParts \<noteq> 2 \<and> length newParts \<noteq> 3)
      then say ''Usage: rpc <fun> <targetNode> <provider> <json>'' k
      else if length newParts < 2 then Inl Panic
      else ws_call net (parts ! 1) (newParts ! 0) (newParts ! 1)
             (unmarshal lib (if length newParts = 3 then newParts ! 2 else []))
             (\<lambda>(res, ok). [Say (if \<not> ok then ''RPC call failed or timeout.'' else ''RPC result: '' @ clShow lib res)]) c k)"

definition rpc_line :: "goval \<Rightarrow> con_out list" where
  "rpc_line item = (case item of
       GMap m \<Rightarrow> (let text = (\<lambda>key. case map_of m key of Some (GStr s) \<Rightarrow> s | _ \<Rightarrow> [])
         in [Say (''  - '' @ text ''name'' @ '': '' @ text ''note'')])
     | _ \<Rightarrow> [])"

definition ws_listrpc :: "con_lib \<Rightarrow> 'd con_net \<Rightarrow> string list \<Rightarrow> string \<Rightarrow> MajulaClient \<Rightarrow> 'd Console \<Rightarrow> 'd con_result" where
  "ws_listrpc lib net parts data c k =
     (if length parts \<noteq> 3 then say ''Usage: listrpc <targetNode> <provider>'' k
      else ws_call net ''allrpcs'' (parts ! 1) ''init'' [(''rpcProvider'', GStr data)]
        (\<lambda>(res, ok). if \<not> ok then [Say ''Failed to fetch RPC list.'']
           else (case res of
               GList funcs \<Rightarrow> Say (''RPCs on node '' @ parts ! 1 @ '' for provider '' @ data @ '':'') # concat (map rpc_line funcs)
             | _ \<Rightarrow> [Say (''Unexpected response format: '' @ clShow lib res)])) c k)"

definition ws_send :: "con_lib \<Rightarrow> string list \<Rightarrow> string \<Rightarrow> MajulaClient \<Rightarrow> 'd Console \<Rightarrow> 'd con_result" where
  "ws_send lib parts data c k =
     (if length parts \<noteq> 3 then say ''Usage: send <targetNode> <targetClient> <jsonPayload>'' k
      else let subParts = splitN 2 (CHR '' '') data in
        if length subParts \<noteq> 2 then say ''Usage: send <targetNode> <targetClient> <jsonPayload>'' k
        else (case clJson lib (subParts ! 1) of
            None \<Rightarrow> say ''Invalid JSON'' k
          | Some payload \<Rightarrow> ws_done k [Say (''Sent private message to '' @ subParts ! 0 @ ''@'' @ parts ! 1 @ '': '' @ clShow lib (GMap payload))]
              (SendPrivateMessage (clText lib) (parts ! 1) (subParts ! 0) payload c)))"

definition session_round :: "con_lib \<Rightarrow> 'd con_net \<Rightarrow> string \<Rightarrow> MajulaClient \<Rightarrow> 'd Console \<Rightarrow> 'd con_result" where
  "session_round lib net line c k =
     (if line = ''exit'' then (case cl_Quit c of None \<Rightarrow> Inl Blocked | Some _ \<Rightarrow> Inr (k\<lparr>cnSession := None\<rparr>, []))
      else if line = ''help'' then Inr (k, [SessionHelp])
      else let parts = splitN 3 (CHR '' '') line in
        if length parts < 2 then say ''Usage: pub|sub|unsub|rpc <target> [json]'' k
        else let cmd = parts ! 0; arg = parts ! 1; data = (if length parts = 3 then parts ! 2 else []) in
          if cmd = ''pub'' then ws_done k [] (cl_Publish arg (unmarshal lib data) c)
          else if cmd = ''sub'' then ws_done k [] (cl_Subscribe arg cb_print c)
          else if cmd = ''unsub'' then ws_done k [] (cl_Unsubscribe arg c)
          else if cmd = ''rpc'' then ws_rpc lib net parts data c k
          else if cmd = ''listrpc'' then ws_listrpc lib net parts data c k
          else if cmd = ''send'' then ws_send lib parts data c k
          else say ''Unknown command.'' k)"

section \<open>The loop\<close>

definition global_command :: "'tls platform \<Rightarrow> int \<Rightarrow> string list \<Rightarrow> 'd Console \<Rightarrow> 'd con_result" where
  "global_command pf now args k =
     (let cmd = args ! 0 in
      if cmd = ''wlogin'' then if length args \<noteq> 3 then say ''Usage: wlogin <clientId> <ws-url>'' k
        else ws_open (args ! 1) (args ! 2) k
      else if cmd = ''help'' then Inr (k, [GlobalHelp])
      else if cmd = ''start'' then con_start pf now args k
      else if cmd = ''addclient'' then con_addclient args k
      else if cmd = ''connectclient'' then con_connectclient args k
      else if cmd = ''login'' then con_login args k
      else if cmd = ''routing'' then con_routing args k
      else if cmd = ''exit'' then con_exit k
      else if cmd = ''quickstart'' then con_quickstart pf now args k
      else if cmd = ''nodes'' then con_nodes k
      else if cmd = ''clients'' then con_clients k
      else say ''Unknown command. Type help to see available commands.'' k)"

text \<open>
  A line of input. The error of the reader is ignored: at the end of the input every line is empty, and the
  loop goes round for ever.
\<close>

definition console_round ::
  "'tls platform \<Rightarrow> int \<Rightarrow> ((string \<times> string list) list \<Rightarrow> (string \<times> string list) list) \<Rightarrow> con_lib \<Rightarrow> 'd con_net \<Rightarrow>
     string \<Rightarrow> 'd Console \<Rightarrow> 'd con_result" where
  "console_round pf now ord lib net input k =
     (let line = TrimSpace input in
      case cnSession k of
        Some c \<Rightarrow> session_round lib net line c k
      | None \<Rightarrow>
          if line = [] then Inr (k, [])
          else let args = go_split (CHR '' '') line in
            case cnActive k of
              None \<Rightarrow> global_command pf now args k
            | Some i \<Rightarrow> (case Env_GetClient i (cnEnv k) of
                None \<Rightarrow> Inl Panic
              | Some c \<Rightarrow> client_command ord lib net args c k))"

section \<open>What a session leaves behind\<close>

lemma TrimSpace_id:
  assumes "s \<noteq> []" and "hd s \<notin> set [CHR 0x09, CHR 0x0A, CHR 0x0B, CHR 0x0C, CHR 0x0D, CHR '' '']"
    and "last s \<notin> set [CHR 0x09, CHR 0x0A, CHR 0x0B, CHR 0x0C, CHR 0x0D, CHR '' '']"
  shows "TrimSpace s = s"
proof -
  have d: "dropWhile P xs = xs" if "xs \<noteq> []" "\<not> P (hd xs)" for P and xs :: string
    using that by (cases xs) auto
  have "rev s \<noteq> []" "hd (rev s) = last s" using assms(1) by (simp_all add: hd_rev)
  then show ?thesis using assms by (simp add: TrimSpace_def Let_def d del: hd_rev set_simps list.set)
qed

lemma go_split_word: "c \<notin> set s \<Longrightarrow> go_split c s = [s]"
  by (induction s) auto

lemma nID_addLocalSub: "nID (fst (addLocalSub t c cb n)) = nID n"
  by (simp add: addLocalSub_def stamp_def addMessageCounter_def Let_def split: option.split)

lemma client_round:
  assumes "cnSession k = None" and "cnActive k = Some i" and "Env_GetClient i (cnEnv k) = Some c"
    and "TrimSpace input = line" and "line \<noteq> []" and "go_split (CHR '' '') line = args"
  shows "console_round pf now ord lib net input k = client_command ord lib net args c k"
  using assms by (simp add: console_round_def Let_def)

text \<open>
  Leaving a client session of the console arms a crash: the callback that \<open>sub\<close> registers prints the
  active client of the moment of a message. After \<open>sub t\<close> and \<open>exit\<close> the node still calls it for every message
  on \<open>t\<close>, whoever sends it, and the first one dereferences a nil pointer and ends the program; after another
  \<open>login\<close> it prints the wrong name.
\<close>

theorem console_exit_arms_crash:
  assumes "cnSession k = None" and "cnActive k = Some i" and "Env_GetClient i (cnEnv k) = Some c"
    and "target_node c k = Some n" and "TargetNode c = Some (nID n)"
    and "t \<noteq> []" and "\<forall>x \<in> set t. x \<notin> set [CHR 0x09, CHR 0x0A, CHR 0x0B, CHR 0x0C, CHR 0x0D, CHR '' '']"
  shows "\<exists>k1 o1 k2 o2 n2. console_round pf now ord lib net (''sub '' @ t) k = Inr (k1, o1) \<and>
    console_round pf now ord lib net ''exit'' k1 = Inr (k2, o2) \<and>
    Env_GetNode (nID n) (cnEnv k2) = Some n2 \<and>
    CallSub cb_console t sender (nID n) payload \<in> set (call_subs t sender payload n2) \<and>
    console_callback k2 t sender payload = None \<and>
    (\<forall>j. console_callback (k2\<lparr>cnActive := Some j\<rparr>) t sender payload =
       Some (''[To '' @ j @ ''] Topic: '' @ t @ '' | From: '' @ sender @ '' | Message: '' @ payload))"
proof -
  let ?n1 = "fst (addLocalSub t (ClientId c) cb_console n)"
  let ?k1 = "set_node ?n1 k"
  have b: "CHR '' '' \<notin> set t" "last t \<notin> set [CHR 0x09, CHR 0x0A, CHR 0x0B, CHR 0x0C, CHR 0x0D, CHR '' '']"
    using assms(6,7) last_in_set [of t] by auto
  have line: "TrimSpace (''sub '' @ t) = ''sub '' @ t" using assms(6) b(2) by (intro TrimSpace_id) auto
  have words: "go_split (CHR '' '') (''sub '' @ t) = [''sub'', t]" using go_split_word [OF b(1)] by simp
  have s: "con_sub [''sub'', t] c k = Inr (?k1, map (On (nID n)) (snd (addLocalSub t (ClientId c) cb_console n)) @
      [Say (''Subscribed to topic: '' @ t)])"
    using assms(4,5) by (simp add: con_sub_def client_op_def client_Subscribe_def split_beta)
  have "console_round pf now ord lib net (''sub '' @ t) k = con_sub [''sub'', t] c k"
    using client_round [OF assms(1-3) line _ words] by (simp add: client_command_def)
  from trans [OF this s] have r1: "\<exists>o1. console_round pf now ord lib net (''sub '' @ t) k = Inr (?k1, o1)"
    by (rule exI)
  have k1: "cnSession ?k1 = None" "cnActive ?k1 = Some i" "Env_GetClient i (cnEnv ?k1) = Some c"
    using assms(1-3) by (simp_all add: set_node_def Env_GetClient_def)
  have "TrimSpace ''exit'' = ''exit''" by (rule TrimSpace_id) simp_all
  then have "console_round pf now ord lib net ''exit'' ?k1 = client_command ord lib net [''exit''] c ?k1"
    by (rule client_round [OF k1]) simp_all
  then have r2: "\<exists>o2. console_round pf now ord lib net ''exit'' ?k1 = Inr (?k1\<lparr>cnActive := None\<rparr>, o2)"
    by (simp add: client_command_def)
  have g: "Env_GetNode (nID n) (cnEnv (?k1\<lparr>cnActive := None\<rparr>)) = Some ?n1"
    by (simp add: set_node_def Env_GetNode_def nID_addLocalSub)
  have "sub_of ?n1 t (ClientId c) = Some cb_console" by (simp add: sub_of_add)
  then have "(ClientId c, cb_console) \<in> set (row_of (MySubs ?n1) t)" unfolding sub_of_def by (rule map_of_SomeD)
  then have "CallSub cb_console t sender (nID n) payload \<in> set (call_subs t sender payload ?n1)"
    by (force simp: call_subs_def nID_addLocalSub)
  then show ?thesis using r1 r2 g by (fastforce simp: console_callback_def)
qed

definition ex_client :: Client where
  "ex_client = \<lparr>ClientId = ''c'', TargetNode = Some ''n''\<rparr>"

definition ex_console :: "unit Console" where
  "ex_console = NewConsole\<lparr>cnEnv := NewEnv\<lparr>evNodes := [(''n'', AddClient ''c'' (NewNode ''n''))],
     evClients := [(''c'', ex_client)]\<rparr>, cnActive := Some ''c''\<rparr>"

definition ex_lib :: con_lib where
  "ex_lib = \<lparr>clShow = (\<lambda>v. case v of GStr s \<Rightarrow> s | _ \<Rightarrow> []), clScan = (\<lambda>_. None), clJson = (\<lambda>_. None), clText = (\<lambda>_. [])\<rparr>"

definition ex_remote :: "unit con_net" where
  "ex_remote = \<lparr>cnCall = (\<lambda>_ _ _ _ _ _ n. (n, None, [])), cnWait = (\<lambda>_ n. (n, Timeout)), cnAnswer = (\<lambda>c. (c, True))\<rparr>"

theorem console_exit_arms_crash_witness:
  "\<exists>k1 o1 k2 o2 n2. console_round pf now id ex_lib ex_remote ''sub news'' ex_console = Inr (k1, o1) \<and>
    console_round pf now id ex_lib ex_remote ''exit'' k1 = Inr (k2, o2) \<and>
    Env_GetNode ''n'' (cnEnv k2) = Some n2 \<and>
    CallSub cb_console ''news'' ''m'' ''n'' ''hi'' \<in> set (call_subs ''news'' ''m'' ''hi'' n2) \<and>
    console_callback k2 ''news'' ''m'' ''hi'' = None"
proof -
  have c: "cnSession ex_console = None" "cnActive ex_console = Some ''c''"
    "Env_GetClient ''c'' (cnEnv ex_console) = Some ex_client"
    "target_node ex_client ex_console = Some (AddClient ''c'' (NewNode ''n''))"
    "TargetNode ex_client = Some (nID (AddClient ''c'' (NewNode ''n'')))"
    by (simp_all add: ex_console_def NewConsole_def NewEnv_def Env_GetClient_def Env_GetNode_def target_node_def
        ex_client_def AddClient_def NewNode_def)
  have t: "''news'' \<noteq> []" "\<forall>x \<in> set ''news''. x \<notin> set [CHR 0x09, CHR 0x0A, CHR 0x0B, CHR 0x0C, CHR 0x0D, CHR '' '']"
    by simp_all
  have e: "''sub '' @ ''news'' = ''sub news''" "nID (AddClient ''c'' (NewNode ''n'')) = ''n''"
    by (simp_all add: AddClient_def NewNode_def)
  from console_exit_arms_crash [OF c t, where sender = "''m''" and payload = "''hi''" and pf = pf and now = now and ord = id
      and lib = ex_lib and net = ex_remote, unfolded e]
  show ?thesis by blast
qed

text \<open>
  The command \<open>rpc\<close> of a session checks its arguments only when there is nothing after the name of the
  function: with one more word the second argument is read although there is none.
\<close>

lemma splitN_2_word: "c \<notin> set s \<Longrightarrow> splitN (Suc k) c s = [s]"
proof -
  assume "c \<notin> set s"
  then have "split2 c s = None" by (simp add: split2_None)
  then show ?thesis by (cases k) simp_all
qed

lemma session_rpc_panics:
  assumes "CHR '' '' \<notin> set f" and "CHR '' '' \<notin> set w"
  shows "session_round lib net (''rpc '' @ f @ '' '' @ w) c k = Inl Panic"
proof -
  have parts: "splitN 3 (CHR '' '') (''rpc '' @ f @ '' '' @ w) = [''rpc'', f, w]"
    using assms by (simp add: numeral_3_eq_3 split2_append split2_None)
  have w: "splitN 3 (CHR '' '') w = [w]" unfolding numeral_3_eq_3 by (rule splitN_2_word [OF assms(2)])
  have "''rpc '' @ f @ '' '' @ w \<noteq> ''exit''" "''rpc '' @ f @ '' '' @ w \<noteq> ''help''" by simp_all
  then show ?thesis unfolding session_round_def Let_def parts
    by (simp add: ws_rpc_def w)
qed

text \<open>After \<open>quickstart\<close> the session is that of the new client, which the new node lists.\<close>

lemma quickstart_logs_in:
  assumes "start_role pf now role i addr [] (cnEnv k) = Some (Inr (env, os))"
    and "Env_GetClient (i @ ''_client'') env = None" and "Env_GetNode i env = Some n"
  shows "\<exists>k1. con_quickstart pf now [''quickstart'', role, i, addr] k =
      Inr (k1, map (On i) os @ [Say (''Quickstarted and logged in as '' @ i @ ''_client''), ClientHelp]) \<and>
    cnActive k1 = Some (i @ ''_client'') \<and>
    (\<exists>c. Env_GetClient (i @ ''_client'') (cnEnv k1) = Some c \<and> TargetNode c = Some (nID n)) \<and>
    (\<exists>n1. Env_GetNode i (cnEnv k1) = Some n1 \<and> i @ ''_client'' \<in> set (GetClientIDs n1))"
proof -
  have add: "Env_AddClient (i @ ''_client'') env =
      Inr (env\<lparr>evClients := AList.update (i @ ''_client'') (NewClient (i @ ''_client'')) (evClients env)\<rparr>)"
    using assms(2) by (simp add: Env_AddClient_def Env_GetClient_def)
  show ?thesis
    using assms(1,3) by (simp add: con_quickstart_def Let_def add ConnectClientToNode_def Env_GetNode_def
        Env_GetClient_def client_Connect_def NewClient_def with_env_def AddClient_def GetClientIDs_def
        del: map_of_eq_Some_iff)
qed

end
