(* ===== verification/Go_Tools.thy ===== *)
theory Go_Tools
  imports Go_Text
begin

text \<open>
  core/Tools.go apart from its priority queue (theory \<open>Net_Heap\<close>): the parser of chains of nodes and edges,
  the hash of an identity, and logging.

  \<^item> The formatting of a logged value (\<open>%+v\<close>), the time and the place of a log call, and SHA-256 are
    parameters. What is logged is given as text.
  \<^item> \<open>strings.ToLower\<close> is modelled on ASCII letters.
\<close>

section \<open>Chains of nodes and edges\<close>

definition trim :: "string \<Rightarrow> string" where
  "trim s = (let blank = (\<lambda>c. c = CHR 0x09 \<or> c = CHR '' '' \<or> c = CHR 0x0A)
     in rev (dropWhile blank (rev (dropWhile blank s))))"

text \<open>
  The loop: \<open>i\<close> is the position, \<open>j\<close> the beginning of the current name; the result is the nodes, the edges
  and the beginning of the last name. \<open>None\<close> is the result \<open>false\<close>.
\<close>

definition is_arrow :: "string \<Rightarrow> nat \<Rightarrow> bool" where
  "is_arrow ft i \<longleftrightarrow> ft ! i = CHR ''<'' \<and> i + 2 < length ft \<and> ft ! (i + 1) = CHR ''-'' \<or>
     ft ! i = CHR ''-'' \<and> i + 2 < length ft \<and> ft ! (i + 1) = CHR ''>''"

definition name_at :: "string \<Rightarrow> nat \<Rightarrow> nat \<Rightarrow> string option" where
  "name_at ft j i = (if i \<le> j then None
     else let s = trim (drop j (take i ft)) in if s = [] then None else Some s)"

function split_loop ::
  "string \<Rightarrow> nat \<Rightarrow> nat \<Rightarrow> string list \<Rightarrow> int list \<Rightarrow> (string list \<times> int list \<times> nat) option" where
  "split_loop ft i j nodes edges =
     (if length ft \<le> i then Some (nodes, edges, j)
      else if is_arrow ft i then do {
        s \<leftarrow> name_at ft j i;
        split_loop ft (i + 2) (i + 2) (nodes @ [s]) (edges @ [if ft ! i = CHR ''<'' then - 1 else 1]) }
      else if ft ! i = CHR ''-'' then do {
        s \<leftarrow> name_at ft j i;
        split_loop ft (i + 1) (i + 1) (nodes @ [s]) (edges @ [0]) }
      else split_loop ft (i + 1) j nodes edges)"
  by pat_completeness auto
termination by (relation "measure (\<lambda>(ft, i, _). length ft - i)") auto

declare split_loop.simps [simp del]

definition SplitToNodeAndEdges :: "string \<Rightarrow> (string list \<times> int list) option" where
  "SplitToNodeAndEdges ft = do {
     (nodes, edges, j) \<leftarrow> split_loop ft 0 0 [] [];
     s \<leftarrow> name_at ft j (length ft);
     if length (nodes @ [s]) \<noteq> length edges + 1 then None else Some (nodes @ [s], edges) }"

section \<open>Hashes and parameters\<close>

definition HashIDWithToken :: "(string \<Rightarrow> string) \<Rightarrow> string \<Rightarrow> string \<Rightarrow> string" where
  "HashIDWithToken sha256_hex i token = sha256_hex (i @ token)"

definition VerifyHash :: "(string \<Rightarrow> string) \<Rightarrow> string \<Rightarrow> string \<Rightarrow> string \<Rightarrow> bool" where
  "VerifyHash sha256_hex i token storedHash \<longleftrightarrow> HashIDWithToken sha256_hex i token = storedHash"

definition getString :: "(goval \<Rightarrow> string) \<Rightarrow> (string \<times> goval) list \<Rightarrow> string \<Rightarrow> string \<Rightarrow> string" where
  "getString show_v args key def = (case map_of args key of
       Some (GStr str) \<Rightarrow> str | Some v \<Rightarrow> show_v v | None \<Rightarrow> def)"

section \<open>Logging\<close>

definition LogLevelDetail :: int where "LogLevelDetail = 0"
definition LogLevelDebug :: int where "LogLevelDebug = 1"
definition LogLevelNormal :: int where "LogLevelNormal = 2"
definition LogLevelWarning :: int where "LogLevelWarning = 3"
definition LogLevelError :: int where "LogLevelError = 4"
definition LogLevelFatal :: int where "LogLevelFatal = 5"
definition LogLevelMark :: int where "LogLevelMark = 6"

lemmas log_levels = LogLevelDetail_def LogLevelDebug_def LogLevelNormal_def LogLevelWarning_def
  LogLevelError_def LogLevelFatal_def LogLevelMark_def

text \<open>The initial value of the variable \<open>LogLevel\<close>, which the operations take as their argument \<open>lv\<close>.\<close>

definition LogLevel :: int where "LogLevel = LogLevelMark"

definition getLogLevelString :: "int \<Rightarrow> string" where
  "getLogLevelString logLevel =
     (if LogLevelMark \<le> logLevel then ''MARK''
      else if LogLevelFatal \<le> logLevel then ''FATAL''
      else if LogLevelError \<le> logLevel then ''ERROR''
      else if LogLevelWarning \<le> logLevel then ''WARNING''
      else if LogLevelNormal \<le> logLevel then ''NORMAL''
      else if LogLevelDebug \<le> logLevel then ''DEBUG''
      else ''DETAIL'')"

definition ToLower :: "string \<Rightarrow> string" where
  "ToLower = map (\<lambda>c. let n = (of_char c :: nat) in if 65 \<le> n \<and> n \<le> 90 then char_of (n + 32) else c)"

definition level_names :: "(string \<times> int) list" where
  "level_names = [(''detail'', LogLevelDetail), (''debug'', LogLevelDebug), (''normal'', LogLevelNormal),
     (''warning'', LogLevelWarning), (''error'', LogLevelError), (''fatal'', LogLevelFatal), (''mark'', LogLevelMark)]"

text \<open>\<open>names\<close> is \<open>level_names\<close> in the order of the range loop.\<close>

definition SetLogLevel :: "(string \<times> int) list \<Rightarrow> string \<Rightarrow> int \<Rightarrow> int" where
  "SetLogLevel names slogLevel lv = (case find (\<lambda>(k, _). sublist k (ToLower slogLevel)) names of
       Some (_, v) \<Rightarrow> v | None \<Rightarrow> lv)"

definition formatLog :: "string list \<Rightarrow> string" where
  "formatLog msg = concat (case msg of [] \<Rightarrow> [] | m # ms \<Rightarrow> m # map (\<lambda>s. CHR '' '' # s) ms)"

text \<open>
  Whether the message is logged, and what is written: whether to the error stream, and the line. \<open>place\<close> is the
  time, file, line and function of the call.
\<close>

definition logOnLevel :: "string \<Rightarrow> int \<Rightarrow> int \<Rightarrow> string list \<Rightarrow> bool \<times> (bool \<times> string) list" where
  "logOnLevel place lv level msg =
     (if lv \<le> level
      then (True, [(LogLevelError \<le> level, getLogLevelString level @ '' '' @ place @
        (if msg \<noteq> [] then '' '' @ formatLog msg else []) @ [CHR 0x0A])])
      else (False, []))"

definition go_Log :: "string \<Rightarrow> int \<Rightarrow> string list \<Rightarrow> (bool \<times> string) list" where
  "go_Log place lv msg = snd (logOnLevel place lv LogLevelNormal msg)"

definition go_Debug :: "string \<Rightarrow> int \<Rightarrow> string list \<Rightarrow> (bool \<times> string) list" where
  "go_Debug place lv msg = snd (logOnLevel place lv LogLevelDebug msg)"

definition go_Warning :: "string \<Rightarrow> int \<Rightarrow> string list \<Rightarrow> (bool \<times> string) list" where
  "go_Warning place lv msg = snd (logOnLevel place lv LogLevelWarning msg)"

definition go_Error :: "string \<Rightarrow> int \<Rightarrow> string list \<Rightarrow> (bool \<times> string) list" where
  "go_Error place lv msg = snd (logOnLevel place lv LogLevelError msg)"

definition MarkIt :: "string \<Rightarrow> int \<Rightarrow> string list \<Rightarrow> (bool \<times> string) list" where
  "MarkIt place lv msg = snd (logOnLevel place lv LogLevelMark msg)"

definition LogOnLevel :: "string \<Rightarrow> int \<Rightarrow> int \<Rightarrow> string list \<Rightarrow> bool \<times> (bool \<times> string) list" where
  "LogOnLevel = logOnLevel"

definition LogIf :: "string \<Rightarrow> int \<Rightarrow> bool \<Rightarrow> string list \<Rightarrow> bool \<times> (bool \<times> string) list" where
  "LogIf place lv cond msg = (cond, if cond then snd (logOnLevel place lv LogLevelNormal msg) else [])"

text \<open>An error is its text. The result of \<open>PanicOnError\<close> is whether it returns.\<close>

definition LogOnError :: "string \<Rightarrow> int \<Rightarrow> string option \<Rightarrow> string list \<Rightarrow> string option \<times> (bool \<times> string) list" where
  "LogOnError place lv err msg = (err, case err of None \<Rightarrow> []
     | Some e \<Rightarrow> snd (logOnLevel place lv LogLevelError (e # msg)))"

definition PanicOnError :: "string \<Rightarrow> int \<Rightarrow> string option \<Rightarrow> string list \<Rightarrow> bool \<times> (bool \<times> string) list" where
  "PanicOnError place lv err msg = (case err of None \<Rightarrow> (True, [])
     | Some e \<Rightarrow> (False, snd (logOnLevel place lv LogLevelError ((''Exit On Error : '' @ e) # msg))))"


section \<open>The parser reads what is printed\<close>

lemma trim_idem [simp]: "trim (trim s) = trim s"
proof -
  have *: "dropWhile P (rev (dropWhile P (rev t))) = rev (dropWhile P (rev t))" if "dropWhile P t = t" for P :: "char \<Rightarrow> bool" and t
  proof (cases "dropWhile P (rev t)")
    case (Cons x xs)
    then have "rev t = takeWhile P (rev t) @ x # xs" by (metis takeWhile_dropWhile_id)
    then have "t = rev (x # xs) @ rev (takeWhile P (rev t))" by (metis rev_append rev_rev_ident)
    moreover have "\<not> P (hd t)" if "t \<noteq> []"
      using that \<open>dropWhile P t = t\<close> hd_dropWhile by metis
    ultimately have "\<not> P (hd (rev (x # xs)))" by (metis append_is_Nil_conv hd_append2 list.distinct(1) rev_is_Nil_conv)
    then show ?thesis using Cons by (metis dropWhile_eq_self_iff)
  next
    case Nil
    then show ?thesis by (simp only: rev.simps dropWhile.simps)
  qed
  show ?thesis unfolding trim_def Let_def by (subst *) (simp_all add: dropWhile_idem)
qed

lemma set_trim: "set (trim s) \<subseteq> set s"
  by (auto simp: trim_def Let_def dest!: set_dropWhileD)

lemma name_at_SomeD:
  "name_at ft j i = Some s \<Longrightarrow> s \<noteq> [] \<and> trim s = s \<and> set s \<subseteq> set (drop j (take i ft))"
  using set_trim by (auto simp: name_at_def Let_def split: if_splits)

text \<open>What the parser returns: trimmed names, none of them empty or with a dash, and one edge fewer.\<close>

definition chain_name :: "string \<Rightarrow> bool" where
  "chain_name s \<longleftrightarrow> s \<noteq> [] \<and> trim s = s \<and> CHR ''-'' \<notin> set s"

definition no_dash :: "string \<Rightarrow> nat \<Rightarrow> nat \<Rightarrow> bool" where
  "no_dash ft j i \<longleftrightarrow> CHR ''-'' \<notin> set (drop j (take i ft))"

lemma no_dash_same [simp]: "no_dash ft i i"
  by (simp add: no_dash_def)

lemma no_dash_Suc: "no_dash ft j i \<Longrightarrow> i < length ft \<Longrightarrow> ft ! i \<noteq> CHR ''-'' \<Longrightarrow> no_dash ft j (Suc i)"
  by (auto simp: no_dash_def take_Suc_conv_app_nth dest: in_set_dropD)

lemma name_at_chain: "no_dash ft j i \<Longrightarrow> name_at ft j i = Some s \<Longrightarrow> chain_name s"
  using name_at_SomeD [of ft j i s] by (auto simp: chain_name_def no_dash_def)

lemma split_loop_sound:
  assumes "split_loop ft i j nodes edges = Some (ns, es, k)" and "no_dash ft j (min i (length ft))"
    and "\<forall>s \<in> set nodes. chain_name s" and "set edges \<subseteq> {- 1, 0, 1}" and "length nodes = length edges"
  shows "no_dash ft k (length ft) \<and> (\<forall>s \<in> set ns. chain_name s) \<and> set es \<subseteq> {- 1, 0, 1} \<and> length ns = length es"
  using assms
proof (induction ft i j nodes edges rule: split_loop.induct)
  case (1 ft i j nodes edges)
  show ?case
  proof (cases "length ft \<le> i")
    case True
    with 1 show ?thesis by (simp add: split_loop.simps [of ft i] min_def split: if_splits)
  next
    case in_range: False
    then have nd: "no_dash ft j i" using "1.prems"(2) by simp
    show ?thesis
    proof (cases "is_arrow ft i")
      case True
      with in_range "1.prems"(1) obtain s where s: "name_at ft j i = Some s"
        and r: "split_loop ft (i + 2) (i + 2) (nodes @ [s]) (edges @ [if ft ! i = CHR ''<'' then - 1 else 1]) = Some (ns, es, k)"
        by (auto simp: split_loop.simps [of ft i] split: bind_splits)
      from "1.IH"(1) [OF in_range True s r] "1.prems" name_at_chain [OF nd s] True show ?thesis
        by (auto simp: is_arrow_def)
    next
      case no_arrow: False
      show ?thesis
      proof (cases "ft ! i = CHR ''-''")
        case True
        with in_range no_arrow "1.prems"(1) obtain s where s: "name_at ft j i = Some s"
          and r: "split_loop ft (i + 1) (i + 1) (nodes @ [s]) (edges @ [0]) = Some (ns, es, k)"
          by (auto simp: split_loop.simps [of ft i] split: bind_splits)
        from "1.IH"(2) [OF in_range no_arrow True s r] "1.prems" name_at_chain [OF nd s] in_range show ?thesis
          by auto
      next
        case False
        with in_range no_arrow "1.prems"(1) have "split_loop ft (i + 1) j nodes edges = Some (ns, es, k)"
          by (simp add: split_loop.simps [of ft i])
        from "1.IH"(3) [OF in_range no_arrow False this] "1.prems" no_dash_Suc [OF nd _ False] in_range show ?thesis
          by auto
      qed
    qed
  qed
qed

lemma SplitToNodeAndEdges_sound:
  assumes "SplitToNodeAndEdges ft = Some (ns, es)"
  shows "(\<forall>s \<in> set ns. chain_name s) \<and> set es \<subseteq> {- 1, 0, 1} \<and> length ns = length es + 1"
proof -
  from assms obtain ns1 k s where l: "split_loop ft 0 0 [] [] = Some (ns1, es, k)"
    and s: "name_at ft k (length ft) = Some s" and ns: "ns = ns1 @ [s]"
    by (auto simp: SplitToNodeAndEdges_def split: bind_splits if_splits)
  from split_loop_sound [OF l] name_at_chain [OF _ s] ns show ?thesis by auto
qed

text \<open>The text of a chain.\<close>

definition edge_text :: "int \<Rightarrow> string" where
  "edge_text e = (if e = - 1 then ''<-'' else if e = 1 then ''->'' else ''-'')"

fun chain_text :: "string list \<Rightarrow> int list \<Rightarrow> string" where
  "chain_text (s # ns) (e # es) = s @ edge_text e @ chain_text ns es"
| "chain_text ns es = concat ns"

definition arrow_free :: "string \<Rightarrow> bool" where
  "arrow_free s \<longleftrightarrow> hd s \<noteq> CHR ''>'' \<and> last s \<noteq> CHR ''<''"

lemma name_at_middle: "chain_name s \<Longrightarrow> name_at (p @ s @ r) (length p) (length p + length s) = Some s"
  by (auto simp: name_at_def chain_name_def)

lemma split_loop_skip:
  assumes "CHR ''-'' \<notin> set s" and "s \<noteq> [] \<longrightarrow> last s \<noteq> CHR ''<''"
  shows "split_loop (p @ s @ r) (length p) j ns es = split_loop (p @ s @ r) (length p + length s) j ns es"
  using assms
proof (induction s arbitrary: p)
  case (Cons c s)
  have "\<not> is_arrow (p @ (c # s) @ r) (length p)"
    using Cons.prems by (cases s) (auto simp: is_arrow_def nth_append)
  with Cons.prems have "split_loop (p @ (c # s) @ r) (length p) j ns es = split_loop (p @ (c # s) @ r) (length p + 1) j ns es"
    by (subst split_loop.simps) auto
  also have "\<dots> = split_loop (p @ (c # s) @ r) (length p + length (c # s)) j ns es"
    using Cons.IH [of "p @ [c]"] Cons.prems by (cases s) auto
  finally show ?case .
qed simp

lemma split_loop_edge:
  assumes "chain_name s" and "arrow_free s" and "e \<in> {- 1, 0, 1}" and "t \<noteq> []" and "hd t \<noteq> CHR ''>''"
  shows "split_loop (p @ s @ edge_text e @ t) (length p) (length p) ns es =
     split_loop ((p @ s @ edge_text e) @ t) (length (p @ s @ edge_text e)) (length (p @ s @ edge_text e)) (ns @ [s]) (es @ [e])"
proof -
  let ?ft = "p @ s @ edge_text e @ t" and ?i = "length p + length s"
  have n: "name_at ?ft (length p) ?i = Some s" using name_at_middle [OF assms(1)] by simp
  have at: "?ft ! (?i + k) = (edge_text e @ t) ! k" for k by (simp add: nth_append)
  from assms(4,5) obtain x xs where t: "t = x # xs" "x \<noteq> CHR ''>''" by (cases t) auto
  have "split_loop ?ft (length p) (length p) ns es = split_loop ?ft ?i (length p) ns es"
    using split_loop_skip [of s p "edge_text e @ t"] assms(1,2) by (simp add: chain_name_def arrow_free_def)
  also have "\<dots> = split_loop ?ft (?i + length (edge_text e)) (?i + length (edge_text e)) (ns @ [s]) (es @ [e])"
    using assms(3) at [of 0] at [of 1] t n
    by (subst split_loop.simps) (auto simp: edge_text_def is_arrow_def)
  finally show ?thesis by (simp add: add.assoc)
qed

lemma chain_text_start:
  "length ns = length es + 1 \<Longrightarrow> \<forall>s \<in> set ns. chain_name s \<and> arrow_free s \<Longrightarrow>
     chain_text ns es \<noteq> [] \<and> hd (chain_text ns es) \<noteq> CHR ''>''"
  by (cases ns; cases es) (auto simp: chain_name_def arrow_free_def)

lemma split_loop_chain:
  assumes "length ns = length es + 1" and "\<forall>s \<in> set ns. chain_name s \<and> arrow_free s" and "set es \<subseteq> {- 1, 0, 1}"
  shows "\<exists>j. split_loop (p @ chain_text ns es) (length p) (length p) ns1 es1 = Some (ns1 @ butlast ns, es1 @ es, j) \<and>
     name_at (p @ chain_text ns es) j (length (p @ chain_text ns es)) = Some (last ns)"
  using assms
proof (induction es arbitrary: ns p ns1 es1)
  case Nil
  then obtain s where ns: "ns = [s]" "chain_name s" "arrow_free s" by (cases ns) auto
  then have "split_loop (p @ s) (length p) (length p) ns1 es1 = Some (ns1, es1, length p)"
    using split_loop_skip [of s p "[]"] by (simp add: chain_name_def arrow_free_def split_loop.simps [of _ "length p + length s"])
  with ns name_at_middle [of s p "[]"] show ?case by auto
next
  case (Cons e es)
  then obtain s ns' where ns: "ns = s # ns'" and l: "length ns' = length es + 1" by (cases ns) auto
  let ?p = "p @ s @ edge_text e"
  from Cons.prems ns l chain_text_start [of ns' es]
  have "split_loop (p @ chain_text ns (e # es)) (length p) (length p) ns1 es1 =
     split_loop (?p @ chain_text ns' es) (length ?p) (length ?p) (ns1 @ [s]) (es1 @ [e])"
    using split_loop_edge [of s e "chain_text ns' es" p] by simp
  with Cons.IH [of ns' ?p "ns1 @ [s]" "es1 @ [e]"] Cons.prems ns l show ?case by auto
qed

text \<open>
  A chain of nodes is read back from its text, when the names are not empty, have no blanks around them and no
  dash in them, and neither begin with \<open>>\<close> nor end with \<open><\<close>; and whatever the parser accepts are
  such names (arrow heads apart), with one edge between neighbours.
\<close>

theorem chain_roundtrip:
  assumes "length ns = length es + 1" and "\<forall>s \<in> set ns. chain_name s \<and> arrow_free s" and "set es \<subseteq> {- 1, 0, 1}"
  shows "SplitToNodeAndEdges (chain_text ns es) = Some (ns, es) \<and>
    (\<forall>ft ms fs. SplitToNodeAndEdges ft = Some (ms, fs) \<longrightarrow>
       (\<forall>s \<in> set ms. chain_name s) \<and> set fs \<subseteq> {- 1, 0, 1} \<and> length ms = length fs + 1)"
proof -
  from split_loop_chain [OF assms, of "[]" "[]" "[]"]
  have "SplitToNodeAndEdges (chain_text ns es) = Some (butlast ns @ [last ns], es)"
    using assms(1) by (auto simp: SplitToNodeAndEdges_def)
  moreover have "ns \<noteq> []" using assms(1) by auto
  ultimately show ?thesis using SplitToNodeAndEdges_sound by simp
qed

theorem chain_roundtrip_witness:
  "chain_text [''a'', ''b c'', ''d''] [1, - 1] = ''a->b c<-d'' \<and>
   SplitToNodeAndEdges ''a->b c<-d'' = Some ([''a'', ''b c'', ''d''], [1, - 1])"
proof -
  have t: "chain_text [''a'', ''b c'', ''d''] [1, - 1] = ''a->b c<-d''" by (simp add: edge_text_def)
  have "length [''a'', ''b c'', ''d''] = length [1 :: int, - 1] + 1"
    "\<forall>s \<in> set [''a'', ''b c'', ''d'']. chain_name s \<and> arrow_free s" "set [1 :: int, - 1] \<subseteq> {- 1, 0, 1}"
    by (auto simp: chain_name_def arrow_free_def trim_def)
  from chain_roundtrip [OF this] show ?thesis unfolding t by simp
qed

text \<open>An arrow at the end is read as an undirected edge to a node of the name \<open>>\<close>.\<close>

lemma trailing_arrow: "chain_name s \<Longrightarrow> arrow_free s \<Longrightarrow> SplitToNodeAndEdges (s @ ''->'') = Some ([s, ''>''], [0])"
proof -
  assume s: "chain_name s" "arrow_free s"
  let ?ft = "s @ ''->''"
  have n: "name_at ?ft 0 (length s) = Some s" using name_at_middle [OF s(1), of "[]" "''->''"] by simp
  have a: "\<not> is_arrow ?ft (length s)" "?ft ! length s = CHR ''-''" "?ft ! (length s + 1) = CHR ''>''"
    by (simp_all add: is_arrow_def nth_append)
  have "split_loop ?ft 0 0 [] [] = split_loop ?ft (length s) 0 [] []"
    using split_loop_skip [of s "[]" "''->''"] s by (simp add: chain_name_def arrow_free_def)
  also have "\<dots> = split_loop ?ft (length s + 1) (length s + 1) [s] [0]"
    using n a by (subst split_loop.simps) simp
  also have "\<dots> = Some ([s], [0], length s + 1)"
    using a by (subst split_loop.simps) (simp add: is_arrow_def split_loop.simps [of _ "Suc (Suc _)"])
  finally show ?thesis by (simp add: SplitToNodeAndEdges_def name_at_def trim_def)
qed

section \<open>What is logged\<close>

text \<open>With the initial level only marks are written: errors, too, are lost until the level is set.\<close>

lemma silent_by_default:
  "go_Log p LogLevel m = []" "go_Warning p LogLevel m = []" "go_Error p LogLevel m = []"
  "snd (LogOnError p LogLevel err m) = []" "snd (PanicOnError p LogLevel err m) = []"
  by (simp_all add: go_Log_def go_Warning_def go_Error_def LogOnError_def PanicOnError_def logOnLevel_def
      LogLevel_def log_levels split: option.split)

text \<open>Setting the level by one of the names in any case of letters.\<close>

lemma SetLogLevel_unique:
  assumes "set names = set level_names" and "(k, v) \<in> set level_names"
    and "\<forall>(k', v') \<in> set level_names. sublist k' (ToLower s) \<longleftrightarrow> k' = k"
  shows "SetLogLevel names s lv = v"
proof -
  have "\<exists>x \<in> set names. (\<lambda>(k, _). sublist k (ToLower s)) x" using assms by (auto intro!: bexI [of _ "(k, v)"])
  then obtain k' v' where f: "find (\<lambda>(k, _). sublist k (ToLower s)) names = Some (k', v')"
    by (metis find_None_iff not_None_eq surj_pair)
  then have "(k', v') \<in> set level_names" "sublist k' (ToLower s)"
    using assms(1) by (auto simp: find_Some_iff in_set_conv_nth)
  then have "k' = k" using assms(3) by auto
  moreover have "distinct (map fst level_names)" by (simp add: level_names_def)
  ultimately have "v' = v" using assms(2) \<open>(k', v') \<in> _\<close> by (meson eq_key_imp_eq_value)
  with f show ?thesis by (simp add: SetLogLevel_def)
qed

end
