(* ===== verification/Spec2Isabelle.thy ===== *)
theory Spec2Isabelle
  imports Web_Session Web_Api Worker_Kcp Net_Delivery Frp_Pairing Frp_Delivery Net_Env Raft_Manager Raft_Loop Elect_Duty Raft_Election Kv_Group
    App_Signaling App_Console Go_Tools
begin

text \<open>
  Majula is an overlay network in Go. A node keeps a table of the links between all nodes, which it
  gossips, routes messages by it, and offers on top: topics (publish and subscribe), remote procedure
  calls, forwarded streams (port forwarding and file transfer), Raft groups with learners, and an election
  of a duty node among candidates. Clients attach to a node. This library models these parts, and proves
  what they guarantee and where they do not.

  \<^bold>\<open>Conventions\<close> (theory \<open>Prelude\<close>, \<open>Go_Text\<close>). An \<open>int64\<close> is an integer, with the wrap-around written
  as \<open>i64\<close>; a run-time panic is \<open>None\<close>; a slice access is an operation that may panic. A map that the
  code ranges over is an association list, its order being the unspecified order of the range loop. Strings
  are lists of bytes. A message's text is the value it encodes. Clock, random numbers, LevelDB, callbacks and
  transports are parameters. A \<open>go\<close> statement is an output; running it is a separate operation, so that
  every interleaving of goroutines is a sequence of operations.

  \<^bold>\<open>The parts, in the order of their dependencies\<close>

  \<^item> Ordered store (\<open>Kv_Spec\<close>, \<open>Kv_Group\<close>): core/KVGroup.go. The locale \<open>kv_store\<close> is the contract of a
    key-value state machine; the ordered store and the Raft storage interpret it.
  \<^item> Raft: \<open>Raft_Types\<close>, \<open>Raft_Storage\<close> (core/RaftStorage.go over LevelDB, whose documented behaviour is
    \<open>leveldb_ok\<close>), \<open>Raft_Core\<close> and \<open>Raft_Replication\<close> (core/Raft.go: elections, log replication), \<open>Raft_Commit\<close>
    (commit rule, quick selection, apply loop), \<open>Raft_Follower\<close> (the append handler against a reference
    merge), \<open>Raft_Node\<close> (a node as a state machine, restarts included), \<open>Raft_Election\<close> (a cluster over a
    network that may lose, repeat, delay and reorder messages; the locale \<open>quorum_system\<close>), \<open>Raft_Learner\<close>
    (core/Learner.go), \<open>Raft_Rpc\<close> (the Raft procedures of core/RPC.go), \<open>Raft_Manager\<close> (core/RaftManager.go) and
    \<open>Raft_Loop\<close> (the goroutine of a node, and helpers).
  \<^item> Network: \<open>Net_Types\<close> (messages and the state of a node), \<open>Net_Heap\<close> (the priority queue of
    core/Tools.go, the locale \<open>prio_queue\<close>), \<open>Net_Link\<close> (link table and gossip), \<open>Net_Routing\<close> (routing
    tables), \<open>Net_Send\<close> (sending and retrying), \<open>Net_PubSub\<close> (topics, core/RaftSub.go), \<open>Net_Channel\<close>
    (core/Channel.go and the in-process transport), \<open>Net_Node\<close> (the receiver in core/Node.go), \<open>Net_Rpc\<close>
    (core/RPC.go), \<open>Net_Client\<close> (core/SimpleClient.go) and \<open>Net_Delivery\<close> (a message on its way over several nodes:
    sending, channels, forwarding and routing tables together).
  \<^item> Duty election (\<open>Elect\<close>, \<open>Elect_Duty\<close>): core/Elect.go, over topics.
  \<^item> Streams: \<open>Frp_Window\<close> and \<open>Frp_Stream\<close> (core/FRPStreamStub.go; the locale \<open>sliding_window\<close>),
    \<open>Frp_Link\<close> and \<open>Frp_Delivery\<close> (its goroutines, and two streams over a network), \<open>Frp_Manager\<close> and \<open>Frp_Pairing\<close> (core/FRPStubManager.go).
  \<^item> Transports: \<open>Worker_Frame\<close> (frames on a byte stream; the locale \<open>stream_codec\<close>), \<open>Worker_Tcp\<close> and
    \<open>Worker_Links\<close> (core/TCPChannelWorker.go: links, their registration, sending, reconnecting), \<open>Worker_Kcp\<close>
    (core/KCPChannelWorker.go, which shares most of that text).
  \<^item> Signaling: \<open>Signal_Server\<close> (server/SignalingServer.go) and \<open>Signal_Client\<close> (core/SignalingClient.go, with
    its mutex, and the two together).
  \<^item> Web: \<open>Web_Client\<close> (api/MajulaClient.go), \<open>Web_Server\<close> and \<open>Web_Dispatch\<close> (the WebSocket side of
    core/MajulaServer.go: registry, packages, dispatch), \<open>Web_Http\<close> (its HTTP handlers), \<open>Web_Proxy\<close>
    (core/Nginx.go), \<open>Web_Session\<close> (client, server and node together), \<open>Web_Api\<close> (api/apis.go).
  \<^item> Programs: \<open>App_Config\<close> and \<open>App_Node\<close> (MajulaNodeFromYaml.go, a node from a configuration file),
    \<open>App_Signaling\<close> (SignalingServerFromYaml.go and the start of the signaling server), \<open>App_Console\<close>
    (example/SimpleLink.go) and \<open>Net_Env\<close> (the environments of core/SimpleEnv.go, core/TcpEnv.go,
    core/NaiveTestEnv.go and core/FakeClient.go). \<open>Go_Tools\<close> is the rest of core/Tools.go: parsing, hashes, logging.

  \<^bold>\<open>What is proved.\<close> Raft: at most one leader per term under arbitrary interleavings and restarts, when
  elections are not interrupted, and the run in which an interrupted one is won without votes; the append
  handler merges logs as the reference does; a committed entry is held by a majority (for an odd number of
  members); stored logs are read back; learners join if and only if a leader is found. Network: routing tables are
  shortest paths, built if and only if every known node is reachable; gossip keeps the newest version of each
  link; in a network with these tables a message reaches its target over at most all other nodes, or is dropped
  when its time to live is smaller than that, and Raft messages reach the members of a group; a published
  message is sent once towards each subscriber; duplicates have no effect; a procedure runs at most once per
  call. Streams: over a network that loses, repeats and reorders everything, what is written at one end is a
  prefix of what was read at the other; a gap is repaired by the next packet, but a lost last packet never is;
  connecting pairs two streams and a pair delivers; registries stay well formed.
  Election: one candidate on duty while deliveries are fast. Transports: what is framed is read back, messages
  arrive, and a link is registered only by a signature. Web: subscriptions and functions of clients work end to
  end, every response goes to the call it answers, the most specific proxy is found, registries stay
  consistent. Signaling: connected nodes stay listed; the client deadlocks when it connects, and a request
  between two nodes never completes. Programs: a node serves exactly what its configuration describes, unless it
  uses the signaling server, with which it never starts; which configurations of the signaling server start; which
  frame sizes pass the validation and panic; the network in one process is the one asked for; what the console
  leaves behind. The theorems about flaws state a concrete behaviour of the code that
  contradicts its intent, for every state in which it occurs.

  \<^bold>\<open>Bounds and fuel.\<close> The loop of Dijkstra's algorithm and the delivery loop of a stream carry the bounds
  of the code (the number of heap entries, the size of the window). The walk along the predecessors is a partial
  function: \<open>None\<close> is a loop that does not end, and a theorem characterises when it does. Loops of the kind
  \<open>for { select }\<close> are one operation per round. Streams are those of less than \<open>2 ^ 62\<close> packets.
  In \<open>travel\<close> the number of channels is the fuel, and the theorem gives the number that is enough.

  \<^bold>\<open>Not modelled.\<close> common/Marshal.go (it calls the JSON and MessagePack libraries), MajulaIntegrationTest.go (a test
  against live servers), functions that only print, the routing of URLs to handlers, the upgrading of HTTP
  connections, response headers and the writing of event streams. LevelDB, JSON, YAML and MessagePack, sockets, TLS,
  the KCP package, URL parsing and file access are parameters.
\<close>

end
